(* ===== verification/Prelude.thy ===== *)
theory Prelude
  imports Main "HOL-Library.Word" "HOL-Library.Char_ord" "HOL-Library.List_Lexorder"
    "HOL-Library.Product_Lexorder" "HOL-Library.Multiset"
begin

text \<open>
  Shared vocabulary of the development: machine integers at their width, the
  \<open>Result\<close> plumbing of the Rust code (an error on the left of a sum, a value on
  the right), the iterator idioms the core uses (\<open>position\<close>, \<open>min_by\<close>, loops
  with an early exit), and the generic lemmas the component theories share.
  Nothing here is specific to one component.
\<close>

named_theorems result_simps \<open>rewrite rules for the Result combinators\<close>
named_theorems wf_intros \<open>introduction rules for well-formedness invariants\<close>
named_theorems frame_simps \<open>fields an operation leaves unchanged\<close>

type_synonym u8 = "8 word"
type_synonym u16 = "16 word"
type_synonym u32 = "32 word"
type_synonym u64 = "64 word"

subsection \<open>Machine integers\<close>

definition checked_add_word :: "'a::len word \<Rightarrow> 'a word \<Rightarrow> 'a word option" where
  "checked_add_word a b =
     (if unat a + unat b < 2 ^ LENGTH('a) then Some (a + b) else None)"

definition saturating_add_word :: "'a::len word \<Rightarrow> 'a word \<Rightarrow> 'a word" where
  "saturating_add_word a b =
     (if unat a + unat b < 2 ^ LENGTH('a) then a + b else - 1)"

definition saturating_sub_word :: "'a::len word \<Rightarrow> 'a word \<Rightarrow> 'a word" where
  "saturating_sub_word a b = (if b \<le> a then a - b else 0)"

text \<open>Signed 64-bit and 32-bit quantities are integers with their range written out.\<close>

definition i64_min :: int where "i64_min = - 9223372036854775808"
definition i64_max :: int where "i64_max = 9223372036854775807"
definition i32_min :: int where "i32_min = - 2147483648"
definition i32_max :: int where "i32_max = 2147483647"

definition is_i64 :: "int \<Rightarrow> bool" where
  "is_i64 x \<longleftrightarrow> i64_min \<le> x \<and> x \<le> i64_max"

definition is_i32 :: "int \<Rightarrow> bool" where
  "is_i32 x \<longleftrightarrow> i32_min \<le> x \<and> x \<le> i32_max"

text \<open>The saturating operations of \<open>i64\<close> clamp the exact result.\<close>

definition saturate_i64 :: "int \<Rightarrow> int" where
  "saturate_i64 x = max i64_min (min i64_max x)"

lemmas i64_bounds = i64_min_def i64_max_def
lemmas i32_bounds = i32_min_def i32_max_def

lemma unat_bound: "unat (w :: 'a::len word) < 2 ^ LENGTH('a)"
  by (rule unsigned_less)

lemma checked_add_word_Some:
  "checked_add_word a b = Some c \<Longrightarrow> unat c = unat a + unat b"
  by (auto simp: checked_add_word_def unat_word_ariths split: if_splits)

lemma checked_add_word_le: "checked_add_word a b = Some c \<Longrightarrow> a \<le> c"
  by (drule checked_add_word_Some) (simp add: word_le_nat_alt)

lemma unat_saturating_sub_word:
  "unat (saturating_sub_word a b) = unat a - unat b"
  by (auto simp: saturating_sub_word_def unat_sub_if' word_le_nat_alt)

lemma unat_saturating_add_word:
  fixes a b :: "'a::len word"
  shows "unat (saturating_add_word a b) = min (2 ^ LENGTH('a) - 1) (unat a + unat b)"
  by (auto simp: saturating_add_word_def unat_word_ariths min_def
      unsigned_minus_1_eq_mask mask_eq_exp_minus_1)

lemma saturate_i64_id: "is_i64 x \<Longrightarrow> saturate_i64 x = x"
  by (auto simp: saturate_i64_def is_i64_def)

lemma saturate_i64_range: "is_i64 (saturate_i64 x)"
  by (auto simp: saturate_i64_def is_i64_def i64_bounds)

subsection \<open>Results\<close>

text \<open>\<open>Result<T, E>\<close> is \<open>'e + 'a\<close>; the \<open>?\<close> operator is \<open>result_bind\<close>.\<close>

definition result_bind :: "'e + 'a \<Rightarrow> ('a \<Rightarrow> 'e + 'b) \<Rightarrow> 'e + 'b" where
  "result_bind r f = (case r of Inl e \<Rightarrow> Inl e | Inr x \<Rightarrow> f x)"

definition map_err :: "('e \<Rightarrow> 'f) \<Rightarrow> 'e + 'a \<Rightarrow> 'f + 'a" where
  "map_err f r = (case r of Inl e \<Rightarrow> Inl (f e) | Inr x \<Rightarrow> Inr x)"

definition ok_or :: "'e \<Rightarrow> 'a option \<Rightarrow> 'e + 'a" where
  "ok_or e x = (case x of None \<Rightarrow> Inl e | Some y \<Rightarrow> Inr y)"

definition is_ok :: "'e + 'a \<Rightarrow> bool" where
  "is_ok r = (case r of Inl _ \<Rightarrow> False | Inr _ \<Rightarrow> True)"

lemma result_bind_Inl [simp]: "result_bind (Inl e) f = Inl e"
  and result_bind_Inr [simp]: "result_bind (Inr x) f = f x"
  by (simp_all add: result_bind_def)

lemma map_err_Inl [simp]: "map_err f (Inl e) = Inl (f e)"
  and map_err_Inr [simp]: "map_err f (Inr x) = Inr x"
  by (simp_all add: map_err_def)

lemma ok_or_None [simp]: "ok_or e None = Inl e"
  and ok_or_Some [simp]: "ok_or e (Some x) = Inr x"
  by (simp_all add: ok_or_def)

lemma is_ok_Inl [simp]: "is_ok (Inl e) = False"
  and is_ok_Inr [simp]: "is_ok (Inr x) = True"
  by (simp_all add: is_ok_def)

lemma result_bind_eq_Inr [result_simps]:
  "result_bind r f = Inr y \<longleftrightarrow> (\<exists>x. r = Inr x \<and> f x = Inr y)"
  by (cases r) simp_all

lemma result_bind_eq_Inl [result_simps]:
  "result_bind r f = Inl e \<longleftrightarrow> r = Inl e \<or> (\<exists>x. r = Inr x \<and> f x = Inl e)"
  by (cases r) simp_all

lemma map_err_eq_Inr [result_simps]: "map_err f r = Inr y \<longleftrightarrow> r = Inr y"
  by (cases r) simp_all

lemma map_err_eq_Inl [result_simps]: "map_err f r = Inl e \<longleftrightarrow> (\<exists>d. r = Inl d \<and> e = f d)"
  by (cases r) auto

lemma ok_or_eq_Inr [result_simps]: "ok_or e x = Inr y \<longleftrightarrow> x = Some y"
  by (cases x) simp_all

lemma ok_or_eq_Inl [result_simps]: "ok_or e x = Inl d \<longleftrightarrow> x = None \<and> d = e"
  by (cases x) auto

lemma is_ok_iff: "is_ok r \<longleftrightarrow> (\<exists>x. r = Inr x)"
  by (cases r) simp_all

text \<open>A loop of checks, each of which may return early with an error.\<close>

fun check_all :: "('a \<Rightarrow> 'e + unit) \<Rightarrow> 'a list \<Rightarrow> 'e + unit" where
  "check_all f [] = Inr ()"
| "check_all f (x # xs) = result_bind (f x) (\<lambda>_. check_all f xs)"

lemma check_all_ok [result_simps]:
  "check_all f xs = Inr u \<longleftrightarrow> (\<forall>x \<in> set xs. f x = Inr ())"
  by (induction xs) (auto simp: result_simps)

lemma check_all_err:
  "check_all f xs = Inl e \<Longrightarrow> \<exists>x \<in> set xs. f x = Inl e"
  by (induction xs) (auto simp: result_simps)

text \<open>A loop that threads an accumulator and may return early with an error.\<close>

fun try_fold :: "('s \<Rightarrow> 'a \<Rightarrow> 'e + 's) \<Rightarrow> 's \<Rightarrow> 'a list \<Rightarrow> 'e + 's" where
  "try_fold f s [] = Inr s"
| "try_fold f s (x # xs) = result_bind (f s x) (\<lambda>s'. try_fold f s' xs)"

lemma try_fold_invariant:
  assumes "try_fold f s xs = Inr t" and "I s"
    and "\<And>s x t. x \<in> set xs \<Longrightarrow> I s \<Longrightarrow> f s x = Inr t \<Longrightarrow> I t"
  shows "I t"
  using assms by (induction xs arbitrary: s) (auto simp: result_simps)

lemma try_fold_append:
  "try_fold f s (xs @ ys) = result_bind (try_fold f s xs) (\<lambda>t. try_fold f t ys)"
proof (induction xs arbitrary: s)
  case (Cons x xs)
  then show ?case by (cases "f s x") simp_all
qed simp

text \<open>
  A loop whose steps commute, up to a relation on the accumulator that the steps respect, has
  the same successful result in every order of its elements.  (A loop that fails may report a
  different one of its errors in another order.)
\<close>

locale commuting_loop =
  fixes f :: "'s \<Rightarrow> 'a \<Rightarrow> 'e + 's" and sim :: "'s \<Rightarrow> 's \<Rightarrow> bool"
  assumes sim_refl: "sim s s"
    and sim_trans: "sim s t \<Longrightarrow> sim t u \<Longrightarrow> sim s u"
    and respects: "sim s s' \<Longrightarrow> f s x = Inr t \<Longrightarrow> \<exists>t'. f s' x = Inr t' \<and> sim t t'"
    and commutes: "f s x = Inr t \<Longrightarrow> f t y = Inr u \<Longrightarrow>
      \<exists>v w. f s y = Inr v \<and> f v x = Inr w \<and> sim u w"
begin

lemma loop_respects:
  "sim s s' \<Longrightarrow> try_fold f s xs = Inr r \<Longrightarrow> \<exists>r'. try_fold f s' xs = Inr r' \<and> sim r r'"
proof (induction xs arbitrary: s s')
  case (Cons x xs)
  then obtain t where t: "f s x = Inr t" "try_fold f t xs = Inr r"
    by (auto simp: result_simps)
  obtain t' where "f s' x = Inr t'" "sim t t'" using respects [OF Cons.prems(1) t(1)] by blast
  with Cons.IH [OF this(2) t(2)] show ?case by simp
qed auto

lemma loop_move:
  "try_fold f s (x # xs @ ys) = Inr r \<Longrightarrow> \<exists>r'. try_fold f s (xs @ x # ys) = Inr r' \<and> sim r r'"
proof (induction xs arbitrary: s r)
  case Nil
  then show ?case using sim_refl by auto
next
  case (Cons y xs)
  then obtain t u where tu: "f s x = Inr t" "f t y = Inr u" "try_fold f u (xs @ ys) = Inr r"
    by (auto simp: result_simps)
  obtain v w where vw: "f s y = Inr v" "f v x = Inr w" "sim u w"
    using commutes [OF tu(1,2)] by blast
  obtain r1 where r1: "try_fold f w (xs @ ys) = Inr r1" "sim r r1"
    using loop_respects [OF vw(3) tu(3)] by blast
  have "try_fold f v (x # xs @ ys) = Inr r1" using vw(2) r1(1) by simp
  from Cons.IH [OF this] obtain r2 where "try_fold f v (xs @ x # ys) = Inr r2" "sim r1 r2"
    by blast
  with vw(1) r1(2) sim_trans show ?case by auto
qed

lemma loop_permute:
  "mset xs = mset ys \<Longrightarrow> try_fold f s xs = Inr r \<Longrightarrow> \<exists>r'. try_fold f s ys = Inr r' \<and> sim r r'"
proof (induction xs arbitrary: ys s r)
  case Nil
  then show ?case using sim_refl by auto
next
  case (Cons x xs)
  then have "x \<in> set ys" by (metis list.set_intros(1) mset_eq_setD)
  then obtain as bs where ys: "ys = as @ x # bs" by (meson split_list)
  then have "mset xs = mset (as @ bs)" using Cons.prems(1) by simp
  moreover obtain t where t: "f s x = Inr t" "try_fold f t xs = Inr r"
    using Cons.prems(2) by (auto simp: result_simps)
  ultimately obtain r1 where r1: "try_fold f t (as @ bs) = Inr r1" "sim r r1"
    using Cons.IH by blast
  then have "try_fold f s (x # as @ bs) = Inr r1" using t(1) by simp
  from loop_move [OF this] ys r1(2) sim_trans show ?case by blast
qed

end

text \<open>A loop over a mutable state whose body may return early: the state survives the error.\<close>

fun for_each :: "('a \<Rightarrow> 's \<Rightarrow> ('e + unit) \<times> 's) \<Rightarrow> 'a list \<Rightarrow> 's \<Rightarrow> ('e + unit) \<times> 's" where
  "for_each f [] s = (Inr (), s)"
| "for_each f (x # xs) s =
     (case f x s of (Inl e, t) \<Rightarrow> (Inl e, t) | (Inr _, t) \<Rightarrow> for_each f xs t)"

lemma for_each_invariant:
  assumes "I s" and "\<And>x s. x \<in> set xs \<Longrightarrow> I s \<Longrightarrow> I (snd (f x s))"
  shows "I (snd (for_each f xs s))"
  using assms
proof (induction xs arbitrary: s)
  case (Cons x xs)
  obtain r t where r: "f x s = (r, t)" by fastforce
  have "I (snd (f x s))" using Cons.prems by simp
  then have "I t" using r by simp
  then have "I (snd (for_each f xs t))" using Cons.IH Cons.prems(2) by simp
  with r \<open>I t\<close> show ?case by (cases r) simp_all
qed simp

lemma for_each_error:
  assumes "fst (for_each f xs s) = Inl e" and "I s"
    and "\<And>x s. x \<in> set xs \<Longrightarrow> I s \<Longrightarrow> I (snd (f x s))"
  shows "\<exists>x t. x \<in> set xs \<and> I t \<and> fst (f x t) = Inl e"
  using assms
proof (induction xs arbitrary: s)
  case (Cons x xs)
  obtain r t where r: "f x s = (r, t)" by fastforce
  have "I (snd (f x s))" using Cons.prems by simp
  then have t: "I t" using r by simp
  show ?case
  proof (cases r)
    case (Inl d)
    with Cons.prems(1) r have "fst (f x s) = Inl e" by simp
    with Cons.prems(2) show ?thesis by auto
  next
    case (Inr u)
    with Cons.prems(1) r have "fst (for_each f xs t) = Inl e" by simp
    from Cons.IH [OF this t] Cons.prems(3) obtain y v
      where "y \<in> set xs" and "I v" and "fst (f y v) = Inl e" by auto
    then show ?thesis by auto
  qed
qed simp

subsection \<open>Iterator idioms\<close>

text \<open>\<open>iter().position(p)\<close>: the index of the first element that satisfies \<open>p\<close>.\<close>

fun position :: "('a \<Rightarrow> bool) \<Rightarrow> 'a list \<Rightarrow> nat option" where
  "position p [] = None"
| "position p (x # xs) = (if p x then Some 0 else map_option Suc (position p xs))"

lemma position_SomeD:
  "position p xs = Some i \<Longrightarrow> i < length xs \<and> p (xs ! i) \<and> (\<forall>j < i. \<not> p (xs ! j))"
proof (induction xs arbitrary: i)
  case (Cons x xs)
  then show ?case by (auto split: if_splits simp: less_Suc_eq_0_disj)
qed simp

lemma position_None_iff: "position p xs = None \<longleftrightarrow> (\<forall>x \<in> set xs. \<not> p x)"
  by (induction xs) auto

lemma position_map: "position p (map f xs) = position (p \<circ> f) xs"
  by (induction xs) auto

lemma position_unique:
  assumes "distinct (map f xs)" and "i < length xs"
  shows "position (\<lambda>x. f x = f (xs ! i)) xs = Some i"
  using assms
proof (induction xs arbitrary: i)
  case (Cons x xs)
  show ?case
  proof (cases i)
    case (Suc k)
    then have "xs ! k \<in> set xs" using Cons.prems(2) by simp
    then have "f x \<noteq> f (xs ! k)" using Cons.prems(1) by auto
    then show ?thesis using Cons Suc by simp
  qed simp
qed simp

lemma find_distinct:
  assumes "distinct (map f xs)" and "x \<in> set xs"
  shows "find (\<lambda>y. f y = f x) xs = Some x"
  using assms by (induction xs) (auto simp: image_iff)

lemma find_SomeD: "find p xs = Some x \<Longrightarrow> x \<in> set xs \<and> p x"
  by (auto simp: find_Some_iff in_set_conv_nth)

text \<open>
  \<open>iter().min_by(cmp)\<close> keeps the first of several least elements; \<open>lt\<close> is the strict
  part of the comparison.
\<close>

fun min_by :: "('a \<Rightarrow> 'a \<Rightarrow> bool) \<Rightarrow> 'a list \<Rightarrow> 'a option" where
  "min_by lt [] = None"
| "min_by lt (x # xs) =
     (case min_by lt xs of None \<Rightarrow> Some x | Some y \<Rightarrow> Some (if lt y x then y else x))"

lemma min_by_None_iff [simp]: "min_by lt xs = None \<longleftrightarrow> xs = []"
  by (cases xs) (auto split: option.splits)

lemma min_by_in_set: "min_by lt xs = Some x \<Longrightarrow> x \<in> set xs"
  by (induction xs arbitrary: x) (auto split: option.splits if_splits)

lemma min_by_key_least:
  fixes key :: "'a \<Rightarrow> 'k::linorder"
  assumes "min_by (\<lambda>a b. key a < key b) xs = Some x" and "y \<in> set xs"
  shows "key x \<le> key y"
  using assms
proof (induction xs arbitrary: x)
  case (Cons z zs)
  show ?case
  proof (cases "min_by (\<lambda>a b. key a < key b) zs")
    case None
    with Cons.prems show ?thesis by simp
  next
    case (Some w)
    with Cons.IH[OF this] Cons.prems show ?thesis
      by (auto split: if_splits)
  qed
qed simp

text \<open>\<open>enumerate().any(take(index) ...)\<close>: the first element equal to an earlier one.\<close>

fun first_duplicate :: "('a \<Rightarrow> 'k) \<Rightarrow> 'a list \<Rightarrow> 'a list \<Rightarrow> 'a option" where
  "first_duplicate key seen [] = None"
| "first_duplicate key seen (x # xs) =
     (if key x \<in> key ` set seen then Some x else first_duplicate key (x # seen) xs)"

lemma first_duplicate_None:
  "first_duplicate key seen xs = None \<longleftrightarrow>
     distinct (map key xs) \<and> key ` set xs \<inter> key ` set seen = {}"
  by (induction xs arbitrary: seen) auto

lemma nth_update_same: "i < length xs \<Longrightarrow> xs[i := x] ! i = x"
  by simp

lemma map_update_frame:
  assumes "f x = f (xs ! i)"
  shows "map f (xs[i := x]) = map f xs"
  using assms by (metis list_update_id map_update)

lemma set_update_cases:
  "y \<in> set (xs[i := x]) \<Longrightarrow> y = x \<or> y \<in> set xs"
  by (metis insertE set_update_subset_insert subset_iff)

lemma sum_list_update_nat:
  fixes xs :: "nat list"
  assumes "i < length xs"
  shows "sum_list (xs[i := x]) + xs ! i = sum_list xs + x"
  using assms
proof (induction xs arbitrary: i)
  case (Cons y ys)
  then show ?case by (cases i) auto
qed simp

end
