(* ===== verification/Rust_Str.thy ===== *)
theory Rust_Str
  imports Prelude
begin

text \<open>
  Rust strings.  A \<open>String\<close> is its UTF-8 bytes, one HOL character per byte, so that
  \<open>len()\<close> is \<open>length\<close> and the byte-wise \<open>Ord\<close> of \<open>str\<close> is the lexicographic order.
  \<open>utf8_chars\<close> is \<open>chars()\<close>, each scalar value given by its bytes; \<open>utf8_valid\<close> is the
  check behind \<open>from_utf8\<close>; the decimal printer and parser are those of the unsigned
  integers.
\<close>

type_synonym rstring = string

abbreviation byte :: "char \<Rightarrow> nat" where
  "byte c \<equiv> of_char c"

definition is_ascii_digit :: "char \<Rightarrow> bool" where
  "is_ascii_digit c \<longleftrightarrow> 48 \<le> byte c \<and> byte c \<le> 57"

definition is_ascii_lowercase :: "char \<Rightarrow> bool" where
  "is_ascii_lowercase c \<longleftrightarrow> 97 \<le> byte c \<and> byte c \<le> 122"

subsection \<open>UTF-8\<close>

definition utf8_width :: "char \<Rightarrow> nat" where
  "utf8_width c =
     (if byte c < 192 then 1 else if byte c < 224 then 2 else if byte c < 240 then 3 else 4)"

lemma utf8_width_pos: "0 < utf8_width c"
  by (simp add: utf8_width_def)

function utf8_chars :: "rstring \<Rightarrow> rstring list" where
  "utf8_chars [] = []"
| "utf8_chars (c # cs) =
     (c # take (utf8_width c - 1) cs) # utf8_chars (drop (utf8_width c - 1) cs)"
  by pat_completeness auto
termination
  by (relation "measure length") auto

lemma concat_utf8_chars: "concat (utf8_chars s) = s"
  by (induction s rule: utf8_chars.induct) simp_all

definition is_continuation :: "char \<Rightarrow> bool" where
  "is_continuation c \<longleftrightarrow> 128 \<le> byte c \<and> byte c < 192"

text \<open>The well-formed byte sequences: no overlong form, no surrogate, at most U+10FFFF.\<close>

definition utf8_second_ok :: "nat \<Rightarrow> char \<Rightarrow> bool" where
  "utf8_second_ok b c \<longleftrightarrow>
     is_continuation c \<and> (b = 224 \<longrightarrow> 160 \<le> byte c) \<and> (b = 237 \<longrightarrow> byte c < 160)
     \<and> (b = 240 \<longrightarrow> 144 \<le> byte c) \<and> (b = 244 \<longrightarrow> byte c < 144)"

definition utf8_char_ok :: "rstring \<Rightarrow> bool" where
  "utf8_char_ok s =
     (case s of
        [a] \<Rightarrow> byte a < 128
      | [a, b] \<Rightarrow> 194 \<le> byte a \<and> byte a < 224 \<and> is_continuation b
      | [a, b, c] \<Rightarrow>
          224 \<le> byte a \<and> byte a < 240 \<and> utf8_second_ok (byte a) b \<and> is_continuation c
      | [a, b, c, d] \<Rightarrow>
          240 \<le> byte a \<and> byte a < 245 \<and> utf8_second_ok (byte a) b \<and> is_continuation c
          \<and> is_continuation d
      | _ \<Rightarrow> False)"

definition utf8_valid :: "rstring \<Rightarrow> bool" where
  "utf8_valid s \<longleftrightarrow> list_all utf8_char_ok (utf8_chars s)"

definition utf8_code :: "rstring \<Rightarrow> nat" where
  "utf8_code s =
     (case s of
        [a] \<Rightarrow> byte a
      | [a, b] \<Rightarrow> (byte a - 192) * 64 + (byte b - 128)
      | [a, b, c] \<Rightarrow> (byte a - 224) * 4096 + (byte b - 128) * 64 + (byte c - 128)
      | [a, b, c, d] \<Rightarrow>
          (byte a - 240) * 262144 + (byte b - 128) * 4096 + (byte c - 128) * 64 + (byte d - 128)
      | _ \<Rightarrow> 0)"

text \<open>\<open>char::is_whitespace\<close>: the Unicode property White_Space.\<close>

definition is_whitespace_code :: "nat \<Rightarrow> bool" where
  "is_whitespace_code n \<longleftrightarrow>
     (9 \<le> n \<and> n \<le> 13) \<or> n = 32 \<or> n = 133 \<or> n = 160 \<or> n = 5760
     \<or> (8192 \<le> n \<and> n \<le> 8202) \<or> n = 8232 \<or> n = 8233 \<or> n = 8239 \<or> n = 8287 \<or> n = 12288"

text \<open>\<open>s.trim().is_empty()\<close>\<close>

definition trim_is_empty :: "rstring \<Rightarrow> bool" where
  "trim_is_empty s \<longleftrightarrow> list_all (\<lambda>c. is_whitespace_code (utf8_code c)) (utf8_chars s)"

subsection \<open>Splitting and decimal numbers\<close>

definition split_once :: "char \<Rightarrow> rstring \<Rightarrow> (rstring \<times> rstring) option" where
  "split_once c s =
     (case position (\<lambda>x. x = c) s of
        None \<Rightarrow> None | Some i \<Rightarrow> Some (take i s, drop (Suc i) s))"

definition digit_char :: "nat \<Rightarrow> char" where
  "digit_char d = char_of (48 + d)"

fun decimal :: "nat \<Rightarrow> rstring" where
  "decimal n = (if n < 10 then [digit_char n] else decimal (n div 10) @ [digit_char (n mod 10)])"

declare decimal.simps [simp del]

definition digits_value :: "rstring \<Rightarrow> nat" where
  "digits_value s = foldl (\<lambda>n c. 10 * n + (byte c - 48)) 0 s"

text \<open>\<open>str::parse\<close> at an unsigned type with the given maximum: an optional plus sign, then
  at least one digit, and no overflow.\<close>

definition parse_unsigned :: "nat \<Rightarrow> rstring \<Rightarrow> nat option" where
  "parse_unsigned maximum s =
     (let ds = (case s of [] \<Rightarrow> [] | c # r \<Rightarrow> if c = CHR ''+'' \<and> r \<noteq> [] then r else s)
      in if ds = [] \<or> \<not> list_all is_ascii_digit ds then None
         else if digits_value ds \<le> maximum then Some (digits_value ds) else None)"

text \<open>The \<open>{:0w}\<close> format of an unsigned number.\<close>

definition zero_pad :: "nat \<Rightarrow> rstring \<Rightarrow> rstring" where
  "zero_pad w s = replicate (w - length s) (CHR ''0'') @ s"

lemma byte_digit_char: "d < 10 \<Longrightarrow> byte (digit_char d) = 48 + d"
  by (simp add: digit_char_def)

lemma is_ascii_digit_digit_char: "d < 10 \<Longrightarrow> is_ascii_digit (digit_char d)"
  by (simp add: is_ascii_digit_def byte_digit_char)

lemma decimal_not_Nil: "decimal n \<noteq> []"
  by (subst decimal.simps) simp

lemma decimal_digits: "list_all is_ascii_digit (decimal n)"
proof (induction n rule: decimal.induct)
  case (1 n)
  then show ?case
    by (subst decimal.simps) (simp add: is_ascii_digit_digit_char)
qed

lemma digits_value_snoc: "digits_value (s @ [c]) = 10 * digits_value s + (byte c - 48)"
  by (simp add: digits_value_def)

lemma digits_value_decimal: "digits_value (decimal n) = n"
proof (induction n rule: decimal.induct)
  case (1 n)
  show ?case
  proof (cases "n < 10")
    case True
    then show ?thesis
      by (subst decimal.simps) (simp add: digits_value_def byte_digit_char)
  next
    case False
    with "1.IH" show ?thesis
      by (subst decimal.simps) (simp add: digits_value_snoc byte_digit_char)
  qed
qed

lemma plus_not_digit: "list_all is_ascii_digit s \<Longrightarrow> CHR ''+'' \<notin> set s"
  by (auto simp: list_all_iff is_ascii_digit_def)

lemma parse_unsigned_digits:
  assumes "s \<noteq> []" and "list_all is_ascii_digit s"
  shows "parse_unsigned maximum s =
    (if digits_value s \<le> maximum then Some (digits_value s) else None)"
  using assms plus_not_digit [OF assms(2)]
  by (cases s) (auto simp: parse_unsigned_def Let_def)

lemma parse_unsigned_decimal:
  "n \<le> maximum \<Longrightarrow> parse_unsigned maximum (decimal n) = Some n"
  by (simp add: parse_unsigned_digits decimal_not_Nil decimal_digits digits_value_decimal)

lemma digits_value_zero_pad: "digits_value (zero_pad w s) = digits_value s"
proof -
  have "foldl (\<lambda>n c. 10 * n + (byte c - 48)) 0 (replicate k (CHR ''0'')) = (0::nat)" for k
    by (induction k) simp_all
  then show ?thesis by (simp add: zero_pad_def digits_value_def)
qed

lemma zero_pad_digits: "list_all is_ascii_digit s \<Longrightarrow> list_all is_ascii_digit (zero_pad w s)"
  by (auto simp: zero_pad_def list_all_iff is_ascii_digit_def)

lemma length_zero_pad: "length (zero_pad w s) = max w (length s)"
  by (simp add: zero_pad_def)

lemma length_decimal_less: "n < 10 ^ Suc k \<Longrightarrow> length (decimal n) \<le> Suc k"
proof (induction k arbitrary: n)
  case 0
  then show ?case by (subst decimal.simps) simp
next
  case (Suc k)
  show ?case
  proof (cases "n < 10")
    case False
    have "n div 10 < 10 ^ Suc k" using Suc.prems by (simp add: less_mult_imp_div_less)
    then have "length (decimal (n div 10)) \<le> Suc k" by (rule Suc.IH)
    with False show ?thesis by (subst decimal.simps) simp
  qed (subst decimal.simps, simp)
qed

lemma split_once_append:
  "c \<notin> set s \<Longrightarrow> split_once c (s @ c # t) = Some (s, t)"
proof -
  assume "c \<notin> set s"
  then have "position (\<lambda>x. x = c) (s @ c # t) = Some (length s)"
    by (induction s) auto
  then show ?thesis by (simp add: split_once_def)
qed

end
