(* ===== verification/Identifiers.thy ===== *)
theory Identifiers
  imports Rust_Str
begin

text \<open>
  \<open>identifiers.rs\<close>, and the name types of \<open>state.rs\<close> and \<open>schedule_rules.rs\<close>: the
  validated names of endpoints, timers, signals, schedules and blocks.  Each is a newtype
  around its string with the derived byte-wise order, so the maps keyed by names
  enumerate them in that order.
\<close>

datatype endpoint_name = EndpointName (endpoint_str: rstring)
datatype timer_name = TimerName (timer_str: rstring)
datatype signal_name = SignalName (signal_str: rstring)
datatype schedule_name = ScheduleName (schedule_str: rstring)
datatype block_id = BlockId (block_str: rstring)

text \<open>The derived orders.\<close>

instantiation endpoint_name :: linorder
begin
definition less_eq_endpoint_name :: "endpoint_name \<Rightarrow> endpoint_name \<Rightarrow> bool" where
  "a \<le> b \<longleftrightarrow> endpoint_str a \<le> endpoint_str b"
definition less_endpoint_name :: "endpoint_name \<Rightarrow> endpoint_name \<Rightarrow> bool" where
  "a < b \<longleftrightarrow> endpoint_str a < endpoint_str b"
instance
  by intro_classes
    (auto simp: less_eq_endpoint_name_def less_endpoint_name_def intro: endpoint_name.expand)
end

instantiation timer_name :: linorder
begin
definition less_eq_timer_name :: "timer_name \<Rightarrow> timer_name \<Rightarrow> bool" where
  "a \<le> b \<longleftrightarrow> timer_str a \<le> timer_str b"
definition less_timer_name :: "timer_name \<Rightarrow> timer_name \<Rightarrow> bool" where
  "a < b \<longleftrightarrow> timer_str a < timer_str b"
instance
  by intro_classes
    (auto simp: less_eq_timer_name_def less_timer_name_def intro: timer_name.expand)
end

instantiation signal_name :: linorder
begin
definition less_eq_signal_name :: "signal_name \<Rightarrow> signal_name \<Rightarrow> bool" where
  "a \<le> b \<longleftrightarrow> signal_str a \<le> signal_str b"
definition less_signal_name :: "signal_name \<Rightarrow> signal_name \<Rightarrow> bool" where
  "a < b \<longleftrightarrow> signal_str a < signal_str b"
instance
  by intro_classes
    (auto simp: less_eq_signal_name_def less_signal_name_def intro: signal_name.expand)
end

instantiation schedule_name :: linorder
begin
definition less_eq_schedule_name :: "schedule_name \<Rightarrow> schedule_name \<Rightarrow> bool" where
  "a \<le> b \<longleftrightarrow> schedule_str a \<le> schedule_str b"
definition less_schedule_name :: "schedule_name \<Rightarrow> schedule_name \<Rightarrow> bool" where
  "a < b \<longleftrightarrow> schedule_str a < schedule_str b"
instance
  by intro_classes
    (auto simp: less_eq_schedule_name_def less_schedule_name_def intro: schedule_name.expand)
end

instantiation block_id :: linorder
begin
definition less_eq_block_id :: "block_id \<Rightarrow> block_id \<Rightarrow> bool" where
  "a \<le> b \<longleftrightarrow> block_str a \<le> block_str b"
definition less_block_id :: "block_id \<Rightarrow> block_id \<Rightarrow> bool" where
  "a < b \<longleftrightarrow> block_str a < block_str b"
instance
  by intro_classes
    (auto simp: less_eq_block_id_def less_block_id_def intro: block_id.expand)
end

lemmas name_order_defs =
  less_eq_endpoint_name_def less_endpoint_name_def less_eq_timer_name_def less_timer_name_def
  less_eq_signal_name_def less_signal_name_def less_eq_schedule_name_def less_schedule_name_def
  less_eq_block_id_def less_block_id_def

subsection \<open>Endpoint-style names\<close>

text \<open>The offending \<open>char\<close> of an error is given by its UTF-8 bytes.\<close>

datatype endpoint_name_error =
    NameEmpty
  | NameInvalidStart rstring
  | NameInvalidCharacter rstring

text \<open>A predicate of an ASCII character, asked of a scalar value.\<close>

definition ascii_char :: "(char \<Rightarrow> bool) \<Rightarrow> rstring \<Rightarrow> bool" where
  "ascii_char p s = (case s of [c] \<Rightarrow> p c | _ \<Rightarrow> False)"

lemma ascii_char_Cons [simp]: "ascii_char p (c # r) \<longleftrightarrow> r = [] \<and> p c"
  by (cases r) (simp_all add: ascii_char_def)

definition endpoint_name_char :: "char \<Rightarrow> bool" where
  "endpoint_name_char c \<longleftrightarrow>
     is_ascii_lowercase c \<or> is_ascii_digit c \<or> c = CHR ''_'' \<or> c = CHR ''-'' \<or> c = CHR ''.''"

definition validate_endpoint_name :: "rstring \<Rightarrow> endpoint_name_error + unit" where
  "validate_endpoint_name value =
     (case utf8_chars value of
        [] \<Rightarrow> Inl NameEmpty
      | first # rest \<Rightarrow>
          if \<not> ascii_char is_ascii_lowercase first then Inl (NameInvalidStart first)
          else check_all
            (\<lambda>c. if \<not> ascii_char endpoint_name_char c then Inl (NameInvalidCharacter c) else Inr ())
            rest)"

definition endpoint_name_new :: "rstring \<Rightarrow> endpoint_name_error + endpoint_name" where
  "endpoint_name_new value =
     result_bind (validate_endpoint_name value) (\<lambda>_. Inr (EndpointName value))"

definition timer_name_new :: "rstring \<Rightarrow> endpoint_name_error + timer_name" where
  "timer_name_new value =
     result_bind (validate_endpoint_name value) (\<lambda>_. Inr (TimerName value))"

definition signal_name_new :: "rstring \<Rightarrow> endpoint_name_error + signal_name" where
  "signal_name_new value =
     result_bind (validate_endpoint_name value) (\<lambda>_. Inr (SignalName value))"

definition schedule_name_new :: "rstring \<Rightarrow> endpoint_name_error + schedule_name" where
  "schedule_name_new value =
     result_bind (validate_endpoint_name value) (\<lambda>_. Inr (ScheduleName value))"

subsection \<open>Block identifiers\<close>

datatype block_id_error =
    BlockIdEmpty
  | BlockIdTooLong nat nat
  | BlockIdInvalidStart rstring
  | BlockIdInvalidCharacter rstring

definition max_block_id_bytes :: nat where "max_block_id_bytes = 64"

definition block_id_char :: "char \<Rightarrow> bool" where
  "block_id_char c \<longleftrightarrow> is_ascii_lowercase c \<or> is_ascii_digit c \<or> c = CHR ''_''"

definition validate_block_id :: "rstring \<Rightarrow> block_id_error + unit" where
  "validate_block_id value =
     (if value = [] then Inl BlockIdEmpty
      else if max_block_id_bytes < length value
        then Inl (BlockIdTooLong (length value) max_block_id_bytes)
      else
        case utf8_chars value of
          [] \<Rightarrow> Inl BlockIdEmpty
        | first # rest \<Rightarrow>
            if \<not> ascii_char is_ascii_lowercase first then Inl (BlockIdInvalidStart first)
            else check_all
              (\<lambda>c. if \<not> ascii_char block_id_char c then Inl (BlockIdInvalidCharacter c) else Inr ())
              rest)"

definition block_id_new :: "rstring \<Rightarrow> block_id_error + block_id" where
  "block_id_new value = result_bind (validate_block_id value) (\<lambda>_. Inr (BlockId value))"

subsection \<open>The grammar the validators accept\<close>

text \<open>The documented grammar, stated on the bytes of the string.\<close>

fun endpoint_grammar :: "rstring \<Rightarrow> bool" where
  "endpoint_grammar [] = False"
| "endpoint_grammar (c # cs) \<longleftrightarrow> is_ascii_lowercase c \<and> list_all endpoint_name_char cs"

fun block_grammar :: "rstring \<Rightarrow> bool" where
  "block_grammar [] = False"
| "block_grammar (c # cs) \<longleftrightarrow>
     is_ascii_lowercase c \<and> list_all block_id_char cs \<and> length cs < 64"

lemma utf8_chars_ascii_prefix:
  assumes "\<And>c. p c \<Longrightarrow> byte c < 128"
  shows "list_all (ascii_char p) (utf8_chars s) \<longleftrightarrow> list_all p s"
proof (induction s rule: utf8_chars.induct)
  case (2 c cs)
  show ?case
  proof (cases "byte c < 192")
    case True
    then have "utf8_width c = 1" by (simp add: utf8_width_def)
    with 2 show ?thesis by (simp add: ascii_char_def)
  next
    case False
    then have w: "2 \<le> utf8_width c" by (simp add: utf8_width_def)
    have "\<not> p c" using assms [of c] False by auto
    moreover have "\<not> ascii_char p (c # take (utf8_width c - 1) cs)"
      using w \<open>\<not> p c\<close> by (auto simp: ascii_char_def split: list.splits)
    ultimately show ?thesis by simp
  qed
qed simp

lemma utf8_chars_Cons_ascii:
  "byte c < 192 \<Longrightarrow> utf8_chars (c # cs) = [c] # utf8_chars cs"
  by (simp add: utf8_width_def)

lemma ascii_class_bounds:
  "is_ascii_lowercase c \<Longrightarrow> byte c < 128"
  "endpoint_name_char c \<Longrightarrow> byte c < 128"
  "block_id_char c \<Longrightarrow> byte c < 128"
  by (auto simp: is_ascii_lowercase_def is_ascii_digit_def endpoint_name_char_def
      block_id_char_def)

lemma lowercase_width: "is_ascii_lowercase c \<Longrightarrow> utf8_width c = 1"
  by (auto simp: is_ascii_lowercase_def utf8_width_def)

lemma validate_endpoint_name_ok:
  "validate_endpoint_name s = Inr () \<longleftrightarrow> endpoint_grammar s"
proof (cases s)
  case (Cons c cs)
  show ?thesis
  proof (cases "is_ascii_lowercase c")
    case True
    then show ?thesis
      using utf8_chars_ascii_prefix [of endpoint_name_char cs] ascii_class_bounds(2)
      by (simp add: Cons validate_endpoint_name_def lowercase_width 
          result_simps list_all_iff ascii_char_Cons)
  next
    case False
    then show ?thesis
      by (simp add: Cons validate_endpoint_name_def )
  qed
qed (simp add: validate_endpoint_name_def)

lemma validate_block_id_ok: "validate_block_id s = Inr () \<longleftrightarrow> block_grammar s"
proof (cases s)
  case (Cons c cs)
  show ?thesis
  proof (cases "is_ascii_lowercase c")
    case True
    then show ?thesis
      using utf8_chars_ascii_prefix [of block_id_char cs] ascii_class_bounds(3)
      by (auto simp: Cons validate_block_id_def lowercase_width 
          result_simps list_all_iff ascii_char_def max_block_id_bytes_def)
  next
    case False
    then show ?thesis
      by (simp add: Cons validate_block_id_def )
  qed
qed (simp add: validate_block_id_def)

end
