(* ===== verification/F64.thy ===== *)
theory F64
  imports Prelude Complex_Main "HOL-Library.Log_Nat"
begin

text \<open>
  The part of Rust's \<open>f64\<close> the core computes with.  A value is a NaN, an infinity or a
  finite number, the latter given by its exact rational value; an arithmetic operation
  rounds the exact result to the nearest binary64 number, ties to even.  The two zeros
  are one value here: no operation modelled below tells them apart.
\<close>

datatype f64 = F64_NaN | F64_Inf bool | F64 rat

definition pow2 :: "int \<Rightarrow> rat" where
  "pow2 e = (if 0 \<le> e then of_int (2 ^ nat e) else 1 / of_int (2 ^ nat (- e)))"

text \<open>The binary exponent of a positive rational: the \<open>k\<close> with \<open>2^k \<le> a < 2^(k+1)\<close>.\<close>

definition ilog2_rat :: "rat \<Rightarrow> int" where
  "ilog2_rat a =
     (if 1 \<le> a then bitlen \<lfloor>a\<rfloor> - 1 else - bitlen (\<lceil>1 / a\<rceil> - 1))"

definition round_half_even :: "rat \<Rightarrow> int" where
  "round_half_even y =
     (let f = \<lfloor>y\<rfloor>; r = y - of_int f
      in if r < 1 / 2 then f else if r > 1 / 2 then f + 1 else if even f then f else f + 1)"

definition f64_round :: "rat \<Rightarrow> f64" where
  "f64_round q =
     (if q = 0 then F64 0
      else
        let a = \<bar>q\<bar>;
            e = max (- 1074) (ilog2_rat a - 52);
            r = of_int (round_half_even (a / pow2 e)) * pow2 e
        in if pow2 1024 \<le> r then F64_Inf (q < 0) else F64 (sgn q * r))"

subsection \<open>Operations\<close>

definition f64_is_finite :: "f64 \<Rightarrow> bool" where
  "f64_is_finite x = (case x of F64 _ \<Rightarrow> True | _ \<Rightarrow> False)"

definition f64_is_nan :: "f64 \<Rightarrow> bool" where
  "f64_is_nan x = (x = F64_NaN)"

definition f64_is_infinite :: "f64 \<Rightarrow> bool" where
  "f64_is_infinite x = (case x of F64_Inf _ \<Rightarrow> True | _ \<Rightarrow> False)"

definition f64_of_int :: "int \<Rightarrow> f64" where
  "f64_of_int n = f64_round (of_int n)"

text \<open>Multiplication, division and subtraction of finite values by finite non-zero constants.\<close>

fun f64_mul :: "f64 \<Rightarrow> f64 \<Rightarrow> f64" where
  "f64_mul (F64 a) (F64 b) = f64_round (a * b)"
| "f64_mul F64_NaN _ = F64_NaN"
| "f64_mul _ F64_NaN = F64_NaN"
| "f64_mul (F64_Inf s) (F64_Inf t) = F64_Inf (s \<noteq> t)"
| "f64_mul (F64_Inf s) (F64 b) = (if b = 0 then F64_NaN else F64_Inf (s \<noteq> (b < 0)))"
| "f64_mul (F64 a) (F64_Inf t) = (if a = 0 then F64_NaN else F64_Inf (t \<noteq> (a < 0)))"

fun f64_sub :: "f64 \<Rightarrow> f64 \<Rightarrow> f64" where
  "f64_sub (F64 a) (F64 b) = f64_round (a - b)"
| "f64_sub F64_NaN _ = F64_NaN"
| "f64_sub _ F64_NaN = F64_NaN"
| "f64_sub (F64_Inf s) (F64_Inf t) = (if s = t then F64_NaN else F64_Inf s)"
| "f64_sub (F64_Inf s) (F64 b) = F64_Inf s"
| "f64_sub (F64 a) (F64_Inf t) = F64_Inf (\<not> t)"

fun f64_abs :: "f64 \<Rightarrow> f64" where
  "f64_abs (F64 a) = F64 \<bar>a\<bar>"
| "f64_abs (F64_Inf _) = F64_Inf False"
| "f64_abs F64_NaN = F64_NaN"

text \<open>\<open>f64::round\<close> rounds to the nearest integer, halves away from zero.\<close>

fun f64_round_int :: "f64 \<Rightarrow> f64" where
  "f64_round_int (F64 a) = F64 (sgn a * of_int \<lfloor>\<bar>a\<bar> + 1 / 2\<rfloor>)"
| "f64_round_int x = x"

text \<open>Comparisons; every comparison with a NaN is false.\<close>

fun f64_lt :: "f64 \<Rightarrow> f64 \<Rightarrow> bool" where
  "f64_lt (F64 a) (F64 b) = (a < b)"
| "f64_lt F64_NaN _ = False"
| "f64_lt _ F64_NaN = False"
| "f64_lt (F64_Inf s) (F64_Inf t) = (s \<and> \<not> t)"
| "f64_lt (F64_Inf s) (F64 _) = s"
| "f64_lt (F64 _) (F64_Inf t) = (\<not> t)"

definition f64_le :: "f64 \<Rightarrow> f64 \<Rightarrow> bool" where
  "f64_le x y \<longleftrightarrow> f64_lt x y \<or> (x = y \<and> x \<noteq> F64_NaN)"

text \<open>\<open>x.fract() != 0.0\<close>, which the code asks of finite values only.\<close>

definition f64_has_fract :: "f64 \<Rightarrow> bool" where
  "f64_has_fract x = (case x of F64 a \<Rightarrow> of_int \<lfloor>a\<rfloor> \<noteq> a | _ \<Rightarrow> True)"

text \<open>The \<open>as\<close> casts to integers truncate, saturate at the type's range, and send NaN to 0.\<close>

definition truncate_rat :: "rat \<Rightarrow> int" where
  "truncate_rat a = (if 0 \<le> a then \<lfloor>a\<rfloor> else \<lceil>a\<rceil>)"

definition f64_as_int :: "int \<Rightarrow> int \<Rightarrow> f64 \<Rightarrow> int" where
  "f64_as_int lo hi x =
     (case x of F64_NaN \<Rightarrow> 0 | F64_Inf s \<Rightarrow> (if s then lo else hi)
      | F64 a \<Rightarrow> max lo (min hi (truncate_rat a)))"

subsection \<open>Rounding error\<close>

lemma pow2_pos [simp]: "0 < pow2 e"
  by (simp add: pow2_def)

lemma pow2_nonneg_eq: "pow2 (int n) = 2 ^ n"
  by (simp add: pow2_def)

lemma pow2_neg_eq: "pow2 (- int n) = 1 / 2 ^ n"
  by (cases "n = 0") (simp_all add: pow2_def)

lemma pow2_powi: "pow2 e = 2 powi e"
  by (simp add: pow2_def power_int_def inverse_eq_divide power_one_over)

lemma pow2_add: "pow2 (a + b) = pow2 a * pow2 b"
  by (simp add: pow2_powi power_int_add)

lemma pow2_mono: "a \<le> b \<Longrightarrow> pow2 a \<le> pow2 b"
  by (simp add: pow2_powi power_int_increasing)

lemma round_half_even_error: "\<bar>of_int (round_half_even y) - y\<bar> \<le> 1 / 2"
proof -
  have "0 \<le> y - of_int \<lfloor>y\<rfloor>" and "y - of_int \<lfloor>y\<rfloor> < 1" by linarith+
  then show ?thesis by (auto simp: round_half_even_def Let_def)
qed

lemma bitlen_pow2_bounds:
  assumes "0 < n"
  shows "pow2 (bitlen n - 1) \<le> of_int n" and "of_int n < pow2 (bitlen n)"
proof -
  have b: "2 ^ nat (bitlen n - 1) \<le> n" "n < 2 ^ nat (bitlen n)"
    using bitlen_bounds [OF assms] by auto
  have "0 < bitlen n" using assms using bitlen_nonneg [of n] bitlen_eq_zero_iff [of n] by linarith
  then have p: "pow2 (bitlen n - 1) = of_int (2 ^ nat (bitlen n - 1))"
    and q: "pow2 (bitlen n) = of_int (2 ^ nat (bitlen n))" by (simp_all add: pow2_def)
  show "pow2 (bitlen n - 1) \<le> of_int n" using b(1) unfolding p by linarith
  show "of_int n < pow2 (bitlen n)" using b(2) unfolding q by linarith
qed

lemma ilog2_rat_lower:
  assumes "0 < a"
  shows "pow2 (ilog2_rat a) \<le> a"
proof (cases "1 \<le> a")
  case True
  then have "0 < \<lfloor>a\<rfloor>" by simp
  from bitlen_pow2_bounds(1) [OF this] have "pow2 (bitlen \<lfloor>a\<rfloor> - 1) \<le> a" by linarith
  with True show ?thesis by (simp add: ilog2_rat_def)
next
  case False
  define n where "n = \<lceil>1 / a\<rceil> - 1"
  have "1 < 1 / a" using assms False by simp
  then have n: "0 < n" by (simp add: n_def less_ceiling_iff)
  obtain k where k: "bitlen n = int k" using bitlen_nonneg [of n] nonneg_int_cases by blast
  have "n + 1 \<le> 2 ^ k" using bitlen_bounds [OF n] by (simp add: k)
  then have "of_int (n + 1) \<le> (of_int (2 ^ k) :: rat)" by (simp only: of_int_le_iff)
  moreover have "1 / a \<le> of_int (n + 1)" by (simp add: n_def)
  ultimately have "1 / a \<le> 2 ^ k" by simp
  then have "1 / 2 ^ k \<le> a" using assms by (simp add: field_simps)
  with False show ?thesis by (simp add: ilog2_rat_def k pow2_neg_eq flip: n_def)
qed

lemma f64_round_error:
  assumes "\<bar>q\<bar> < pow2 1022"
  shows "\<exists>r. f64_round q = F64 r \<and> \<bar>r - q\<bar> \<le> \<bar>q\<bar> / 2 ^ 53 + pow2 (- 1075)"
proof (cases "q = 0")
  case False
  define a where "a = \<bar>q\<bar>"
  define e where "e = max (- 1074) (ilog2_rat a - 52)"
  define r where "r = of_int (round_half_even (a / pow2 e)) * pow2 e"
  have a: "0 < a" using False by (simp add: a_def)
  have "r - a = (of_int (round_half_even (a / pow2 e)) - a / pow2 e) * pow2 e"
    using pow2_pos [of e] by (simp add: r_def left_diff_distrib del: pow2_pos)
  then have "\<bar>r - a\<bar> = \<bar>of_int (round_half_even (a / pow2 e)) - a / pow2 e\<bar> * pow2 e"
    by (simp add: abs_mult less_imp_le)
  also have "\<dots> \<le> 1 / 2 * pow2 e"
    using round_half_even_error by (intro mult_right_mono) (simp_all add: less_imp_le)
  finally have err: "\<bar>r - a\<bar> \<le> pow2 e / 2" by simp
  have half: "pow2 e / 2 \<le> a / 2 ^ 53 + pow2 (- 1075)"
  proof (cases "ilog2_rat a - 52 \<le> - 1074")
    case True
    then have "e = - 1075 + 1" by (simp add: e_def)
    then have "pow2 e / 2 = pow2 (- 1075)" by (simp only: pow2_add) (simp add: pow2_def)
    then show ?thesis using a by simp
  next
    case False
    then have "e = ilog2_rat a + (- 52)" by (simp add: e_def)
    then have "pow2 e = pow2 (ilog2_rat a) / 2 ^ 52" by (simp only: pow2_add) (simp add: pow2_def)
    then have "pow2 e / 2 \<le> a / 2 ^ 53" using ilog2_rat_lower [OF a] by simp
    then show ?thesis using pow2_pos [of "- 1075"] by linarith
  qed
  have tiny: "pow2 (- 1075) \<le> 1" by (simp add: pow2_def)
  have "a / 2 ^ 53 \<le> a" using a by simp
  then have "r \<le> 2 * a + 1" using err half tiny by linarith
  also have "2 * a + 1 < pow2 1024"
  proof -
    have "2 * a < 2 * pow2 1022" using assms by (simp add: a_def)
    also have "2 * pow2 1022 = pow2 1023" by (simp add: pow2_def)
    finally have "2 * a + 1 < pow2 1023 + 1" by simp
    also have "\<dots> \<le> pow2 1024" by (simp add: pow2_def)
    finally show ?thesis .
  qed
  finally have "f64_round q = F64 (sgn q * r)"
    using False by (simp add: f64_round_def r_def e_def a_def Let_def)
  moreover have "\<bar>sgn q * r - q\<bar> = \<bar>r - a\<bar>"
    using False by (auto simp: a_def sgn_if)
  ultimately show ?thesis using err half by (auto simp: a_def)
qed (simp add: f64_round_def less_imp_le)

text \<open>Integers below \<open>2 ^ 53\<close> are exact.\<close>

lemma round_half_even_of_int [simp]: "round_half_even (of_int k) = k"
  by (simp add: round_half_even_def)

lemma f64_round_of_int:
  assumes "\<bar>n\<bar> < 2 ^ 53"
  shows "f64_round (of_int n) = F64 (of_int n)"
proof (cases "n = 0")
  case False
  define m where "m = \<bar>n\<bar>"
  have m: "1 \<le> m" "m < 2 ^ 53" using False assms by (simp_all add: m_def)
  have "2 ^ nat (bitlen m - 1) \<le> m" using bitlen_bounds [of m] m by simp
  then have "(2 :: int) ^ nat (bitlen m - 1) < 2 ^ 53" using m(2) by linarith
  then have "nat (bitlen m - 1) < 53" by (rule power_less_imp_less_exp [rotated]) simp
  then have len: "bitlen m \<le> 53" by linarith
  define e where "e = max (- 1074) (ilog2_rat (of_int m) - 52)"
  have e: "e = bitlen m - 53" using m len by (simp add: e_def ilog2_rat_def bitlen_nonneg)
  define k where "k = nat (- e)"
  have ek: "e = - int k" using len by (simp add: k_def e)
  have "of_int m / pow2 e = (of_int (m * 2 ^ k) :: rat)" by (simp add: ek pow2_neg_eq)
  then have "round_half_even (of_int m / pow2 e) = m * 2 ^ k"
    by (simp only: round_half_even_of_int)
  then have r: "of_int (round_half_even (of_int m / pow2 e)) * pow2 e = of_int m"
    by (simp add: ek pow2_neg_eq)
  have "of_int m < (of_int (2 ^ 53) :: rat)" using m(2) by (simp only: of_int_less_iff)
  also have "\<dots> \<le> pow2 1024" by (simp add: pow2_def)
  finally have "\<not> pow2 1024 \<le> of_int m" by simp
  moreover have "\<bar>of_int n :: rat\<bar> = of_int m" by (simp add: m_def)
  moreover have "sgn (of_int n :: rat) * of_int m = of_int n" by (simp add: m_def sgn_if)
  ultimately show ?thesis
    using False r by (simp add: f64_round_def Let_def e_def)
qed (simp add: f64_round_def)

end
