(* ===== verification/Values.thy ===== *)
theory Values
  imports Identifiers F64
begin

text \<open>
  \<open>values.rs\<close>: datapoint types, endpoints and typed values, with the constructors that
  establish their invariants, the textual form of a datapoint type, and the conversion of
  a Celsius scalar to signed hundredths of a degree.
\<close>

datatype endpoint_direction = Input | Output

record dpt =
  dpt_major :: u16
  dpt_subtype :: u16

definition dpt_bool :: dpt where "dpt_bool = \<lparr>dpt_major = 1, dpt_subtype = 1\<rparr>"
definition dpt_percent :: dpt where "dpt_percent = \<lparr>dpt_major = 5, dpt_subtype = 1\<rparr>"
definition dpt_temperature :: dpt where "dpt_temperature = \<lparr>dpt_major = 9, dpt_subtype = 1\<rparr>"

record endpoint =
  ep_name :: endpoint_name
  ep_direction :: endpoint_direction
  ep_dpt :: dpt

datatype dpt_error =
    DptInvalidFormat
  | DptMajorOutOfRange u16
  | DptSubtypeOutOfRange u16

definition dpt_new :: "u16 \<Rightarrow> u16 \<Rightarrow> dpt_error + dpt" where
  "dpt_new major subtype =
     (if major = 0 then Inl (DptMajorOutOfRange major)
      else if subtype > 999 then Inl (DptSubtypeOutOfRange subtype)
      else Inr \<lparr>dpt_major = major, dpt_subtype = subtype\<rparr>)"

definition is_bool_dpt :: "dpt \<Rightarrow> bool" where
  "is_bool_dpt d \<longleftrightarrow>
     dpt_major d = dpt_major dpt_bool \<and> dpt_subtype d = dpt_subtype dpt_bool"

definition is_percent_dpt :: "dpt \<Rightarrow> bool" where
  "is_percent_dpt d \<longleftrightarrow>
     dpt_major d = dpt_major dpt_percent \<and> dpt_subtype d = dpt_subtype dpt_percent"

definition is_temperature_dpt :: "dpt \<Rightarrow> bool" where
  "is_temperature_dpt d \<longleftrightarrow>
     dpt_major d = dpt_major dpt_temperature \<and> dpt_subtype d = dpt_subtype dpt_temperature"

definition dpt_is_supported :: "dpt \<Rightarrow> bool" where
  "dpt_is_supported d \<longleftrightarrow> is_bool_dpt d \<or> is_percent_dpt d \<or> is_temperature_dpt d"

definition dpt_from_str :: "rstring \<Rightarrow> dpt_error + dpt" where
  "dpt_from_str value =
     result_bind (ok_or DptInvalidFormat (split_once (CHR ''.'') value))
       (\<lambda>(major, subtype).
          if major = [] \<or> length subtype \<noteq> 3 \<or> \<not> list_all is_ascii_digit subtype
          then Inl DptInvalidFormat
          else result_bind (ok_or DptInvalidFormat (parse_unsigned 65535 major))
            (\<lambda>major. result_bind (ok_or DptInvalidFormat (parse_unsigned 65535 subtype))
              (\<lambda>subtype. dpt_new (of_nat major) (of_nat subtype))))"

definition dpt_display :: "dpt \<Rightarrow> rstring" where
  "dpt_display d =
     decimal (unat (dpt_major d)) @ ''.'' @ zero_pad 3 (decimal (unat (dpt_subtype d)))"

text \<open>The values a \<open>Dpt\<close> can hold: its fields are private and \<open>dpt_new\<close> is checked.\<close>

definition dpt_wf :: "dpt \<Rightarrow> bool" where
  "dpt_wf d \<longleftrightarrow> dpt_major d \<noteq> 0 \<and> dpt_subtype d \<le> 999"

subsection \<open>Typed values\<close>

datatype knx_value =
    VBool bool
  | VPercent u8
  | VTemperature int \<comment> \<open>\<open>i32\<close>: signed hundredths of a degree\<close>

record typed_value =
  tv_dpt :: dpt
  tv_value :: knx_value

datatype value_error =
    UnsupportedDpt dpt
  | DptValueMismatch dpt knx_value
  | PercentOutOfRange u8
  | TemperatureNotFinite
  | TemperaturePrecision
  | TemperatureOutOfRange

definition typed_value_new :: "dpt \<Rightarrow> knx_value \<Rightarrow> value_error + typed_value" where
  "typed_value_new d v =
     (case v of
        VBool b \<Rightarrow>
          if is_bool_dpt d then Inr \<lparr>tv_dpt = d, tv_value = VBool b\<rparr>
          else if \<not> dpt_is_supported d then Inl (UnsupportedDpt d)
          else Inl (DptValueMismatch d v)
      | VPercent p \<Rightarrow>
          if is_percent_dpt d \<and> p \<le> 100 then Inr \<lparr>tv_dpt = d, tv_value = VPercent p\<rparr>
          else if is_percent_dpt d then Inl (PercentOutOfRange p)
          else if \<not> dpt_is_supported d then Inl (UnsupportedDpt d)
          else Inl (DptValueMismatch d v)
      | VTemperature t \<Rightarrow>
          if is_temperature_dpt d then Inr \<lparr>tv_dpt = d, tv_value = VTemperature t\<rparr>
          else if \<not> dpt_is_supported d then Inl (UnsupportedDpt d)
          else Inl (DptValueMismatch d v))"

definition typed_bool :: "bool \<Rightarrow> typed_value" where
  "typed_bool b = \<lparr>tv_dpt = dpt_bool, tv_value = VBool b\<rparr>"

definition typed_percent :: "u8 \<Rightarrow> value_error + typed_value" where
  "typed_percent p = typed_value_new dpt_percent (VPercent p)"

definition temperature_centi_degrees :: "int \<Rightarrow> value_error + typed_value" where
  "temperature_centi_degrees c = typed_value_new dpt_temperature (VTemperature c)"

text \<open>The literal \<open>1e-9\<close> is the nearest binary64 number.\<close>

definition temperature_tolerance :: f64 where
  "temperature_tolerance = f64_round (1 / 10 ^ 9)"

definition temperature :: "f64 \<Rightarrow> value_error + typed_value" where
  "temperature value =
     (if \<not> f64_is_finite value then Inl TemperatureNotFinite
      else
        let scaled = f64_mul value (F64 100);
            rounded = f64_round_int scaled
        in if f64_lt temperature_tolerance (f64_abs (f64_sub scaled rounded))
             then Inl TemperaturePrecision
           else if f64_lt rounded (F64 (of_int i32_min)) \<or> f64_lt (F64 (of_int i32_max)) rounded
             then Inl TemperatureOutOfRange
           else temperature_centi_degrees (f64_as_int i32_min i32_max rounded))"

definition temperature_centi :: "typed_value \<Rightarrow> int option" where
  "temperature_centi tv =
     (case tv_value tv of
        VTemperature c \<Rightarrow> if is_temperature_dpt (tv_dpt tv) then Some c else None
      | _ \<Rightarrow> None)"

text \<open>\<open>f64::from(c) / 100.0\<close>: an \<open>i32\<close> is exact, the quotient is rounded.\<close>

definition centi_to_f64 :: "int \<Rightarrow> f64" where
  "centi_to_f64 c = f64_round (of_int c / 100)"

definition temperature_celsius_value :: "typed_value \<Rightarrow> f64 option" where
  "temperature_celsius_value tv = map_option centi_to_f64 (temperature_centi tv)"

text \<open>The pairing every constructor establishes between a value and its datapoint type.\<close>

definition typed_value_wf :: "typed_value \<Rightarrow> bool" where
  "typed_value_wf tv \<longleftrightarrow>
     (case tv_value tv of
        VBool _ \<Rightarrow> is_bool_dpt (tv_dpt tv)
      | VPercent p \<Rightarrow> is_percent_dpt (tv_dpt tv) \<and> p \<le> 100
      | VTemperature c \<Rightarrow> is_temperature_dpt (tv_dpt tv) \<and> is_i32 c)"

lemmas dpt_const_defs = dpt_bool_def dpt_percent_def dpt_temperature_def
lemmas dpt_class_defs = is_bool_dpt_def is_percent_dpt_def is_temperature_dpt_def

lemma dpt_class_iff:
  "is_bool_dpt d \<longleftrightarrow> d = dpt_bool"
  "is_percent_dpt d \<longleftrightarrow> d = dpt_percent"
  "is_temperature_dpt d \<longleftrightarrow> d = dpt_temperature"
  by (auto simp: dpt_class_defs dpt_const_defs)

lemma dpt_class_disjoint:
  "dpt_bool \<noteq> dpt_percent" "dpt_bool \<noteq> dpt_temperature" "dpt_percent \<noteq> dpt_temperature"
  by (simp_all add: dpt_const_defs)

lemma typed_value_new_ok:
  "typed_value_new d v = Inr tv \<Longrightarrow> tv = \<lparr>tv_dpt = d, tv_value = v\<rparr> \<and> dpt_is_supported d"
  by (auto simp: typed_value_new_def dpt_is_supported_def split: knx_value.splits if_splits)

lemma typed_value_new_wf:
  assumes "typed_value_new d v = Inr tv" and "\<And>c. v = VTemperature c \<Longrightarrow> is_i32 c"
  shows "typed_value_wf tv"
  using assms by (auto simp: typed_value_new_def typed_value_wf_def split: knx_value.splits if_splits)

lemma typed_bool_wf [simp]: "typed_value_wf (typed_bool b)" "tv_dpt (typed_bool b) = dpt_bool"
  by (simp_all add: typed_bool_def typed_value_wf_def dpt_class_iff)

lemma typed_percent_ok:
  "p \<le> 100 \<Longrightarrow> typed_percent p = Inr \<lparr>tv_dpt = dpt_percent, tv_value = VPercent p\<rparr>"
  by (simp add: typed_percent_def typed_value_new_def dpt_class_iff)

lemma temperature_centi_degrees_ok:
  "temperature_centi_degrees c = Inr \<lparr>tv_dpt = dpt_temperature, tv_value = VTemperature c\<rparr>"
  by (simp add: temperature_centi_degrees_def typed_value_new_def dpt_class_iff)

lemma f64_as_int_range: "lo \<le> hi \<Longrightarrow> lo \<le> 0 \<Longrightarrow> 0 \<le> hi \<Longrightarrow>
  lo \<le> f64_as_int lo hi x \<and> f64_as_int lo hi x \<le> hi"
  by (auto simp: f64_as_int_def split: f64.splits)

lemma temperature_wf:
  assumes "temperature x = Inr tv"
  shows "typed_value_wf tv" and "tv_dpt tv = dpt_temperature"
  using assms f64_as_int_range [of i32_min i32_max]
  by (auto simp: temperature_def temperature_centi_degrees_ok Let_def typed_value_wf_def
      dpt_class_iff is_i32_def i32_bounds split: if_splits)

subsection \<open>Round trips\<close>

text \<open>
  Printing a datapoint type in its \<open>major.subtype\<close> form and parsing the text gives the
  datapoint type back, for every value the checked constructor can produce.
\<close>

theorem dpt_parse_display_roundtrip:
  assumes "dpt_wf d"
  shows "dpt_from_str (dpt_display d) = Inr d"
proof -
  let ?m = "decimal (unat (dpt_major d))" and ?s = "zero_pad 3 (decimal (unat (dpt_subtype d)))"
  have sub: "unat (dpt_subtype d) \<le> 999"
    using assms by (simp add: dpt_wf_def word_le_nat_alt)
  have "CHR ''.'' \<notin> set ?m"
    using decimal_digits [of "unat (dpt_major d)"] by (auto simp: list_all_iff is_ascii_digit_def)
  then have split: "split_once (CHR ''.'') (dpt_display d) = Some (?m, ?s)"
    by (simp add: dpt_display_def split_once_append)
  have len: "length ?s = 3"
    using length_decimal_less [of "unat (dpt_subtype d)" 2] sub by (simp add: length_zero_pad)
  have digits: "list_all is_ascii_digit ?s" by (simp add: zero_pad_digits decimal_digits)
  have major: "parse_unsigned 65535 ?m = Some (unat (dpt_major d))"
    using unat_bound [of "dpt_major d"] by (intro parse_unsigned_decimal) simp
  have subtype: "parse_unsigned 65535 ?s = Some (unat (dpt_subtype d))"
    using sub len digits
    by (subst parse_unsigned_digits) (auto simp: digits_value_zero_pad digits_value_decimal)
  show ?thesis
    using assms len digits decimal_not_Nil [of "unat (dpt_major d)"]
    by (simp add: dpt_from_str_def split major subtype dpt_new_def dpt_wf_def flip: not_less)
qed

theorem dpt_parse_display_roundtrip_witness:
  "dpt_from_str (dpt_display \<lparr>dpt_major = 9, dpt_subtype = 4\<rparr>)
     = Inr \<lparr>dpt_major = 9, dpt_subtype = 4\<rparr>"
  by (rule dpt_parse_display_roundtrip) (simp add: dpt_wf_def)

lemma tolerance_lower: "\<exists>t. temperature_tolerance = F64 t \<and> 99999 / 10 ^ 14 \<le> t"
proof -
  have "\<bar>1 / 10 ^ 9 :: rat\<bar> < pow2 1022" by (simp add: pow2_def)
  from f64_round_error [OF this] obtain t where
    t: "temperature_tolerance = F64 t" and
    e: "\<bar>t - 1 / 10 ^ 9\<bar> \<le> \<bar>1 / 10 ^ 9\<bar> / 2 ^ 53 + pow2 (- 1075)"
    by (auto simp: temperature_tolerance_def)
  have "pow2 (- 1075) \<le> 1 / 10 ^ 20" by (simp add: pow2_def)
  with e have "99999 / 10 ^ 14 \<le> t" by (simp add: abs_le_iff)
  with t show ?thesis by blast
qed

text \<open>
  The scaled value of a temperature with two decimal places, and the integer the code
  rounds it to.
\<close>

lemma centi_scaled:
  assumes "\<bar>c\<bar> \<le> 4000000"
  shows "\<exists>s. f64_mul (centi_to_f64 c) (F64 100) = F64 s \<and> \<bar>s - of_int c\<bar> \<le> 9 / 10 ^ 10"
proof -
  have c: "\<bar>of_int c :: rat\<bar> \<le> 4000000" using assms by linarith
  have tiny: "pow2 (- 1075) \<le> 1 / 10 ^ 20" by (simp add: pow2_def)
  have big: "(5000000 :: rat) < pow2 1022" by (simp add: pow2_def)
  have "\<bar>of_int c / 100 :: rat\<bar> < pow2 1022" using c big by (simp add: abs_less_iff abs_le_iff)
  from f64_round_error [OF this] obtain x where
    x: "centi_to_f64 c = F64 x" and
    ex: "\<bar>x - of_int c / 100\<bar> \<le> \<bar>of_int c / 100\<bar> / 2 ^ 53 + pow2 (- 1075)"
    by (auto simp: centi_to_f64_def)
  have "\<bar>of_int c / 100\<bar> / 2 ^ 53 \<le> (40000 / 2 ^ 53 :: rat)"
    using c by (intro divide_right_mono) (simp_all add: abs_le_iff)
  then have "\<bar>x - of_int c / 100\<bar> \<le> 45 / 10 ^ 13" using ex tiny by simp
  moreover have "100 * x - of_int c = 100 * (x - of_int c / 100)" by simp
  ultimately have x1: "\<bar>100 * x - of_int c\<bar> \<le> 45 / 10 ^ 11" by (simp only: abs_mult) simp
  then have "\<bar>100 * x - of_int c\<bar> \<le> 1" by simp
  then have x2: "\<bar>x * 100\<bar> \<le> 4000001" using c by linarith
  then have "\<bar>x * 100\<bar> < pow2 1022" using big by linarith
  from f64_round_error [OF this] obtain s where
    s: "f64_round (x * 100) = F64 s" and
    es: "\<bar>s - x * 100\<bar> \<le> \<bar>x * 100\<bar> / 2 ^ 53 + pow2 (- 1075)" by auto
  have "\<bar>x * 100\<bar> / 2 ^ 53 \<le> 4000001 / 2 ^ 53" using x2 by (intro divide_right_mono) simp_all
  then have "\<bar>s - x * 100\<bar> \<le> 45 / 10 ^ 11" using es tiny by simp
  moreover have "(9 / 10 ^ 10 :: rat) = 45 / 10 ^ 11 + 45 / 10 ^ 11" by simp
  ultimately have "\<bar>s - of_int c\<bar> \<le> 9 / 10 ^ 10" using x1 by linarith
  then show ?thesis using x s by auto
qed

lemma round_int_near:
  assumes "\<bar>s - of_int c\<bar> \<le> 9 / 10 ^ 10"
  shows "f64_round_int (F64 s) = F64 (of_int c)"
proof -
  have "\<bar>s - of_int c\<bar> \<le> 1 / 4" using assms by simp
  then have near: "of_int c - 1 / 4 \<le> s" "s \<le> of_int c + 1 / 4" by linarith+
  consider "1 \<le> c" | "c = 0" | "c \<le> - 1" by linarith
  then show ?thesis
  proof cases
    case 1
    then have "1 \<le> (of_int c :: rat)" by simp
    then have "0 < s" using near by linarith
    moreover have "\<lfloor>s + 1 / 2\<rfloor> = c" using near by (intro floor_unique) linarith+
    ultimately show ?thesis by simp
  next
    case 2
    then have "\<lfloor>\<bar>s\<bar> + 1 / 2\<rfloor> = 0" using near by (intro floor_unique) (auto simp: abs_if)
    with 2 show ?thesis by simp
  next
    case 3
    then have "(of_int c :: rat) \<le> - 1" by simp
    then have "s < 0" using near by linarith
    moreover have "\<lfloor>- s + 1 / 2\<rfloor> = - c"
    proof (rule floor_unique)
      show "of_int (- c) \<le> - s + 1 / 2" using near by simp
      show "- s + 1 / 2 < of_int (- c) + 1" using near by simp
    qed
    ultimately show ?thesis by simp
  qed
qed

text \<open>
  A temperature of at most two decimal places survives the conversion through the host's
  floating-point Celsius scalar: for hundredths of a degree up to 4,000,000 in magnitude
  (40,000 degrees), the scalar \<open>c / 100.0\<close> converts back to exactly \<open>c\<close>, in spite of the
  two roundings.
\<close>

theorem temperature_celsius_roundtrip:
  assumes "\<bar>c\<bar> \<le> 4000000"
  shows "temperature (centi_to_f64 c) =
    Inr \<lparr>tv_dpt = dpt_temperature, tv_value = VTemperature c\<rparr>"
proof -
  obtain s where s: "f64_mul (centi_to_f64 c) (F64 100) = F64 s"
    and near: "\<bar>s - of_int c\<bar> \<le> 9 / 10 ^ 10" using centi_scaled [OF assms] by blast
  have fin: "f64_is_finite (centi_to_f64 c)"
    using s by (cases "centi_to_f64 c") (auto simp: f64_is_finite_def)
  obtain t where t: "temperature_tolerance = F64 t" and t_low: "99999 / 10 ^ 14 \<le> t"
    using tolerance_lower by blast
  have "\<bar>s - of_int c\<bar> < pow2 1022" using near by (simp add: pow2_def)
  from f64_round_error [OF this] obtain d where d: "f64_round (s - of_int c) = F64 d"
    and ed: "\<bar>d - (s - of_int c)\<bar> \<le> \<bar>s - of_int c\<bar> / 2 ^ 53 + pow2 (- 1075)" by auto
  have "pow2 (- 1075) \<le> 1 / 10 ^ 20" by (simp add: pow2_def)
  moreover have "\<bar>s - of_int c\<bar> / 2 ^ 53 \<le> (9 / 10 ^ 10) / 2 ^ 53"
    using near by (intro divide_right_mono) simp_all
  ultimately have "\<bar>d - (s - of_int c)\<bar> \<le> 1 / 10 ^ 20 + (9 / 10 ^ 10) / 2 ^ 53"
    using ed by linarith
  then have "\<bar>d\<bar> \<le> 9 / 10 ^ 10 + (1 / 10 ^ 20 + (9 / 10 ^ 10) / 2 ^ 53)"
    using near by linarith
  also have "\<dots> \<le> 99999 / 10 ^ 14" by simp
  finally have "\<bar>d\<bar> \<le> t" using t_low by linarith
  moreover have "c < 2147483647" and "- 2147483648 < c" using assms by linarith+
  moreover from this have "- 2147483648 < (of_int c :: rat)" by linarith
  ultimately show ?thesis
    by (simp add: temperature_def fin s round_int_near [OF near] t d i32_bounds f64_as_int_def
        truncate_rat_def temperature_centi_degrees_ok Let_def del: f64_round_int.simps)
qed

theorem temperature_celsius_roundtrip_witness:
  "temperature (centi_to_f64 2150) = Inr \<lparr>tv_dpt = dpt_temperature, tv_value = VTemperature 2150\<rparr>"
  by (rule temperature_celsius_roundtrip) simp

text \<open>
  Outside that range the documented promise (at most two decimal places are accepted)
  fails: 131072.02 degrees is a two-decimal temperature well inside the range of an \<open>i32\<close>
  of hundredths, and the conversion rejects it for its precision, because the fixed
  tolerance \<open>1e-9\<close> is below the spacing of binary64 numbers there.
\<close>

theorem temperature_large_two_decimal_rejected:
  "temperature (f64_round (13107202 / 100)) = Inl TemperaturePrecision"
  by code_simp

end
