(* ===== verification/Runtime_Limits.thy ===== *)
theory Runtime_Limits
  imports Values
begin

text \<open>
  \<open>limits.rs\<close>: the capacity and timing contracts a host selects.  Counts and byte sizes
  (\<open>usize\<close>) are naturals, the millisecond budgets are 64-bit words.
\<close>

record runtime_limits =
  max_logic_blocks :: nat
  max_signals :: nat
  max_signal_bindings :: nat
  max_endpoints_per_block :: nat
  max_schedules_per_block :: nat
  max_logic_source_bytes_per_block :: nat
  max_logic_source_bytes_total :: nat
  max_logic_instructions :: nat
  max_logic_memory_bytes :: nat
  logic_handler_time_budget_ms :: "u64 option"
  signal_cascade_time_budget_ms :: "u64 option"
  openknx_loop_warning_threshold_ms :: "u64 option"
  max_state_entries_per_block :: nat
  max_state_bytes_per_block :: nat
  max_state_bytes_total :: nat
  max_pending_timers_per_block :: nat
  max_pending_timers_total :: nat
  max_output_effects_per_execution :: nat
  max_timer_effects_per_execution :: nat
  max_state_patch_entries_per_execution :: nat
  max_combined_effects_per_execution :: nat
  max_cascade_executions :: nat
  max_live_executions_per_block_per_second :: nat

datatype runtime_profile = Desktop | EmbeddedBaseline

fun profile_limits :: "runtime_profile \<Rightarrow> runtime_limits" where
  "profile_limits Desktop =
     \<lparr>max_logic_blocks = 64,
      max_signals = 256,
      max_signal_bindings = 256,
      max_endpoints_per_block = 128,
      max_schedules_per_block = 32,
      max_logic_source_bytes_per_block = 64 * 1024,
      max_logic_source_bytes_total = 1024 * 1024,
      max_logic_instructions = 100000,
      max_logic_memory_bytes = 1024 * 1024,
      logic_handler_time_budget_ms = None,
      signal_cascade_time_budget_ms = None,
      openknx_loop_warning_threshold_ms = None,
      max_state_entries_per_block = 64,
      max_state_bytes_per_block = 16 * 1024,
      max_state_bytes_total = 512 * 1024,
      max_pending_timers_per_block = 32,
      max_pending_timers_total = 512,
      max_output_effects_per_execution = 64,
      max_timer_effects_per_execution = 32,
      max_state_patch_entries_per_execution = 64,
      max_combined_effects_per_execution = 128,
      max_cascade_executions = 256,
      max_live_executions_per_block_per_second = 128\<rparr>"
| "profile_limits EmbeddedBaseline =
     \<lparr>max_logic_blocks = 32,
      max_signals = 64,
      max_signal_bindings = 128,
      max_endpoints_per_block = 32,
      max_schedules_per_block = 8,
      max_logic_source_bytes_per_block = 8 * 1024,
      max_logic_source_bytes_total = 128 * 1024,
      max_logic_instructions = 25000,
      max_logic_memory_bytes = 128 * 1024,
      logic_handler_time_budget_ms = Some 3,
      signal_cascade_time_budget_ms = Some 4,
      openknx_loop_warning_threshold_ms = Some 7,
      max_state_entries_per_block = 16,
      max_state_bytes_per_block = 2 * 1024,
      max_state_bytes_total = 32 * 1024,
      max_pending_timers_per_block = 8,
      max_pending_timers_total = 64,
      max_output_effects_per_execution = 16,
      max_timer_effects_per_execution = 8,
      max_state_patch_entries_per_execution = 16,
      max_combined_effects_per_execution = 32,
      max_cascade_executions = 64,
      max_live_executions_per_block_per_second = 32\<rparr>"

definition desktop_limits :: runtime_limits where
  "desktop_limits = profile_limits Desktop"

definition embedded_baseline_limits :: runtime_limits where
  "embedded_baseline_limits = profile_limits EmbeddedBaseline"

text \<open>Compile-time features of the binary.\<close>

record compiled_features =
  feature_timezones :: bool
  feature_astronomy :: bool
  feature_http_inputs :: bool
  feature_webhook_inputs :: bool

text \<open>
  A \<open>BudgetProbe\<close> reports the milliseconds elapsed since the handler or cascade began.
  The core reads it at numbered points of one cascade; the model is the sequence of
  those readings.
\<close>

type_synonym budget_probe = "nat \<Rightarrow> u64"

definition noop_budget_probe :: budget_probe where
  "noop_budget_probe _ = 0"

end
