(* ===== verification/Btree_Map.thy ===== *)
theory Btree_Map
  imports Prelude
begin

text \<open>
  The standard library's \<open>BTreeMap\<close>, which the core uses for transient state, pending
  timers, signal indexes and schedule cursors: an association list kept sorted by key,
  so that \<open>keys()\<close>, \<open>values()\<close> and \<open>iter()\<close> enumerate it in ascending order.  The
  interface the clients rely on is the locale \<open>ordered_map\<close>; \<open>canonical_map\<close> extends
  it by the ascending enumeration, and both are interpreted on the operations below.
\<close>

type_synonym ('k, 'v) btree_map = "('k \<times> 'v) list"

fun btm_insert :: "'k::linorder \<Rightarrow> 'v \<Rightarrow> ('k, 'v) btree_map \<Rightarrow> ('k, 'v) btree_map" where
  "btm_insert k v [] = [(k, v)]"
| "btm_insert k v (e # m) =
     (if k = fst e then (k, v) # m
      else if k < fst e then (k, v) # e # m
      else e # btm_insert k v m)"

definition btm_remove :: "'k \<Rightarrow> ('k, 'v) btree_map \<Rightarrow> ('k, 'v) btree_map" where
  "btm_remove k m = filter (\<lambda>e. fst e \<noteq> k) m"

definition btm_get :: "('k, 'v) btree_map \<Rightarrow> 'k \<Rightarrow> 'v option" where
  "btm_get m k = map_option snd (find (\<lambda>e. fst e = k) m)"

definition btm_contains :: "('k, 'v) btree_map \<Rightarrow> 'k \<Rightarrow> bool" where
  "btm_contains m k \<longleftrightarrow> btm_get m k \<noteq> None"

definition btm_keys :: "('k, 'v) btree_map \<Rightarrow> 'k list" where
  "btm_keys m = map fst m"

definition btm_values :: "('k, 'v) btree_map \<Rightarrow> 'v list" where
  "btm_values m = map snd m"

definition btm_sorted :: "('k::linorder, 'v) btree_map \<Rightarrow> bool" where
  "btm_sorted m \<longleftrightarrow> sorted_wrt (<) (btm_keys m)"

text \<open>\<open>values_mut()\<close>: every value rewritten in place, the keys kept.\<close>

definition btm_map_values :: "('k \<Rightarrow> 'v \<Rightarrow> 'v) \<Rightarrow> ('k, 'v) btree_map \<Rightarrow> ('k, 'v) btree_map" where
  "btm_map_values f m = map (\<lambda>(k, v). (k, f k v)) m"

lemma btm_get_Nil [simp]: "btm_get [] k = None"
  by (simp add: btm_get_def)

lemma btm_get_Cons [simp]:
  "btm_get (e # m) k = (if fst e = k then Some (snd e) else btm_get m k)"
  by (simp add: btm_get_def)

lemma btm_sorted_Nil [simp]: "btm_sorted []"
  by (simp add: btm_sorted_def btm_keys_def)

lemma btm_sorted_Cons:
  "btm_sorted (e # m) \<longleftrightarrow> (\<forall>d \<in> set m. fst e < fst d) \<and> btm_sorted m"
  by (simp add: btm_sorted_def btm_keys_def)

lemma btm_get_None_iff: "btm_get m k = None \<longleftrightarrow> k \<notin> fst ` set m"
  by (induction m) auto

lemma btm_get_in_set: "btm_get m k = Some v \<Longrightarrow> (k, v) \<in> set m"
  by (induction m) (auto split: if_splits)

lemma btm_get_insert: "btm_get (btm_insert k v m) j = (if j = k then Some v else btm_get m j)"
  by (induction m) auto

lemma btm_get_remove: "btm_get (btm_remove k m) j = (if j = k then None else btm_get m j)"
  by (induction m) (auto simp: btm_remove_def)

lemma set_btm_insert_subset: "set (btm_insert k v m) \<subseteq> insert (k, v) (set m)"
  by (induction m) auto

lemma btm_insert_in_set: "(k, v) \<in> set (btm_insert k v m)"
  by (induction m) auto

lemma set_btm_remove: "set (btm_remove k m) = {e \<in> set m. fst e \<noteq> k}"
  by (auto simp: btm_remove_def)

lemma btm_sorted_insert: "btm_sorted m \<Longrightarrow> btm_sorted (btm_insert k v m)"
proof (induction m)
  case Nil
  then show ?case by (simp add: btm_sorted_Cons)
next
  case (Cons e m)
  then have least: "\<forall>d \<in> set m. fst e < fst d" and tail: "btm_sorted m"
    by (simp_all add: btm_sorted_Cons)
  consider "k = fst e" | "k < fst e" | "fst e < k" by fastforce
  then show ?case
  proof cases
    case 3
    then have "\<forall>d \<in> set (btm_insert k v m). fst e < fst d"
      using least set_btm_insert_subset [of k v m] by auto
    with 3 Cons.IH [OF tail] show ?thesis by (auto simp: btm_sorted_Cons)
  qed (use least tail in \<open>auto simp: btm_sorted_Cons\<close>)
qed

lemma btm_sorted_remove: "btm_sorted m \<Longrightarrow> btm_sorted (btm_remove k m)"
  by (induction m) (auto simp: btm_remove_def btm_sorted_Cons)

lemma btm_sorted_distinct: "btm_sorted m \<Longrightarrow> distinct (map fst m)"
  by (induction m) (auto simp: btm_sorted_Cons)

lemma btm_get_eq_iff:
  "btm_sorted m \<Longrightarrow> btm_get m k = Some v \<longleftrightarrow> (k, v) \<in> set m"
  by (induction m) (auto simp: btm_sorted_Cons)

lemma length_btm_insert:
  "length (btm_insert k v m) = (if btm_contains m k then length m else Suc (length m))"
  if "btm_sorted m"
  using that
proof (induction m)
  case (Cons e m)
  have "k < fst e \<Longrightarrow> btm_get m k = None"
    using Cons.prems by (auto simp: btm_sorted_Cons btm_get_None_iff)
  with Cons show ?case by (auto simp: btm_contains_def btm_sorted_Cons)
qed (simp add: btm_contains_def)

lemma length_btm_insert_le: "length (btm_insert k v m) \<le> Suc (length m)"
  by (induction m) auto

lemma length_btm_remove_le: "length (btm_remove k m) \<le> length m"
  by (simp add: btm_remove_def)

lemma btm_get_map_values: "btm_get (btm_map_values f m) k = map_option (f k) (btm_get m k)"
  by (induction m) (auto simp: btm_map_values_def)

lemma btm_keys_map_values [simp]: "btm_keys (btm_map_values f m) = btm_keys m"
  by (simp add: btm_keys_def btm_map_values_def case_prod_unfold)

lemma btm_sorted_map_values [simp]: "btm_sorted (btm_map_values f m) = btm_sorted m"
  by (simp add: btm_sorted_def)

text \<open>Two sorted association lists with the same lookups are the same list.\<close>

lemma btm_ext:
  assumes "btm_sorted m" and "btm_sorted n" and "\<And>k. btm_get m k = btm_get n k"
  shows "m = n"
proof -
  have "set m = set n"
    using assms by (metis btm_get_eq_iff equalityI subrelI)
  then have sets: "set (map fst m) = set (map fst n)" by simp
  have "map fst m = map fst n"
    using assms sets by (intro strict_sorted_equal) (simp_all add: btm_sorted_def btm_keys_def)
  then have len: "length m = length n" by (metis length_map)
  show ?thesis
  proof (rule nth_equalityI [OF len])
    fix i assume i: "i < length m"
    have key: "fst (m ! i) = fst (n ! i)"
      using i len \<open>map fst m = map fst n\<close> by (metis nth_map)
    have "btm_get m (fst (m ! i)) = Some (snd (m ! i))"
      using assms(1) i by (simp add: btm_get_eq_iff)
    moreover have "btm_get n (fst (n ! i)) = Some (snd (n ! i))"
      using assms(2) i len by (simp add: btm_get_eq_iff)
    ultimately show "m ! i = n ! i"
      using assms(3) key by (simp add: prod_eq_iff)
  qed
qed

subsection \<open>The interface the clients use\<close>

text \<open>
  A batch of edits: \<open>Some v\<close> stores, \<open>None\<close> removes.  Patches, timer effects and cursor
  updates of the core are batches of this shape.
\<close>

definition apply_edits ::
  "('k \<Rightarrow> 'v \<Rightarrow> 'm \<Rightarrow> 'm) \<Rightarrow> ('k \<Rightarrow> 'm \<Rightarrow> 'm) \<Rightarrow> ('k \<times> 'v option) list \<Rightarrow> 'm \<Rightarrow> 'm" where
  "apply_edits ins rem edits m =
     foldl (\<lambda>m (k, e). case e of None \<Rightarrow> rem k m | Some v \<Rightarrow> ins k v m) m edits"

text \<open>What a batch says of a key: its last edit, if any.\<close>

definition last_edit :: "('k \<times> 'v option) list \<Rightarrow> 'k \<Rightarrow> 'v option option" where
  "last_edit edits k = map_option snd (find (\<lambda>e. fst e = k) (rev edits))"

lemma find_append:
  "find p (xs @ ys) = (case find p xs of None \<Rightarrow> find p ys | Some x \<Rightarrow> Some x)"
  by (induction xs) auto

lemma last_edit_Nil [simp]: "last_edit [] k = None"
  by (simp add: last_edit_def)

lemma last_edit_snoc:
  "last_edit (edits @ [e]) k = (if fst e = k then Some (snd e) else last_edit edits k)"
  by (simp add: last_edit_def)

lemma last_edit_None_iff: "last_edit edits k = None \<longleftrightarrow> k \<notin> fst ` set edits"
  by (induction edits rule: rev_induct) (auto simp: last_edit_snoc)

lemma apply_edits_Nil [simp]: "apply_edits ins rem [] m = m"
  by (simp add: apply_edits_def)

lemma apply_edits_Cons [simp]:
  "apply_edits ins rem ((k, e) # edits) m =
     apply_edits ins rem edits (case e of None \<Rightarrow> rem k m | Some v \<Rightarrow> ins k v m)"
  by (simp add: apply_edits_def)

lemma apply_edits_snoc:
  "apply_edits ins rem (edits @ [(k, e)]) m =
     (case e of None \<Rightarrow> rem k (apply_edits ins rem edits m)
      | Some v \<Rightarrow> ins k v (apply_edits ins rem edits m))"
  by (simp add: apply_edits_def split: option.split)

locale ordered_map =
  fixes get :: "'m \<Rightarrow> 'k::linorder \<Rightarrow> 'v option"
    and ins :: "'k \<Rightarrow> 'v \<Rightarrow> 'm \<Rightarrow> 'm"
    and rem :: "'k \<Rightarrow> 'm \<Rightarrow> 'm"
    and invar :: "'m \<Rightarrow> bool"
  assumes get_ins: "get (ins k v m) j = (if j = k then Some v else get m j)"
    and get_rem: "get (rem k m) j = (if j = k then None else get m j)"
    and invar_ins: "invar m \<Longrightarrow> invar (ins k v m)"
    and invar_rem: "invar m \<Longrightarrow> invar (rem k m)"
begin

lemma invar_edits: "invar m \<Longrightarrow> invar (apply_edits ins rem edits m)"
  by (induction edits rule: rev_induct)
    (auto simp: apply_edits_snoc invar_ins invar_rem split: option.splits)

lemma get_edits:
  "get (apply_edits ins rem edits m) k =
     (case last_edit edits k of None \<Rightarrow> get m k | Some e \<Rightarrow> e)"
proof (induction edits rule: rev_induct)
  case (snoc e edits)
  obtain j v where "e = (j, v)" by (cases e)
  with snoc show ?case
    by (auto simp: apply_edits_snoc last_edit_snoc get_ins get_rem split: option.splits)
qed simp

lemma get_edits_untouched:
  "k \<notin> fst ` set edits \<Longrightarrow> get (apply_edits ins rem edits m) k = get m k"
  by (simp add: get_edits flip: last_edit_None_iff)

end

text \<open>A map whose representation is determined by its lookups, enumerated in key order.\<close>

locale canonical_map = ordered_map get ins rem invar
  for get :: "'m \<Rightarrow> 'k::linorder \<Rightarrow> 'v option" and ins rem invar +
  fixes entries :: "'m \<Rightarrow> ('k \<times> 'v) list"
  assumes entries_iff: "invar m \<Longrightarrow> (k, v) \<in> set (entries m) \<longleftrightarrow> get m k = Some v"
    and entries_sorted: "invar m \<Longrightarrow> sorted_wrt (<) (map fst (entries m))"
    and canonical: "invar m \<Longrightarrow> invar n \<Longrightarrow> (\<And>k. get m k = get n k) \<Longrightarrow> m = n"
begin

text \<open>The order of a batch without repeated keys does not matter.\<close>

lemma edits_permute:
  assumes "invar m" and "distinct (map fst es)" and "set es = set ds" and "distinct (map fst ds)"
  shows "apply_edits ins rem es m = apply_edits ins rem ds m"
proof (rule canonical)
  have last: "last_edit es k = last_edit ds k" for k
  proof (cases "k \<in> fst ` set es")
    case True
    then obtain e where e: "e \<in> set es" "fst e = k" by auto
    have "find (\<lambda>d. fst d = fst e) (rev es) = Some e"
      using assms(2) e by (intro find_distinct) (simp_all flip: rev_map)
    moreover have "find (\<lambda>d. fst d = fst e) (rev ds) = Some e"
      using assms(3,4) e by (intro find_distinct) (simp_all flip: rev_map)
    ultimately show ?thesis using e by (simp add: last_edit_def)
  next
    case False
    then show ?thesis using assms(3) by (metis last_edit_None_iff)
  qed
  show "get (apply_edits ins rem es m) k = get (apply_edits ins rem ds m) k" for k
    by (simp add: get_edits last)
qed (simp_all add: assms(1) invar_edits)

lemma entries_distinct: "invar m \<Longrightarrow> distinct (map fst (entries m))"
  using entries_sorted strict_sorted_iff by blast

end

interpretation btm: canonical_map btm_get btm_insert btm_remove btm_sorted "\<lambda>m. m"
  by unfold_locales
    (auto simp: btm_get_insert btm_get_remove btm_sorted_insert btm_sorted_remove
      btm_get_eq_iff btm_ext, simp add: btm_sorted_def btm_keys_def)

end
