(* ===== verification/Transient_State.thy ===== *)
theory Transient_State
  imports Runtime_Limits Btree_Map
begin

text \<open>
  \<open>state.rs\<close>: the bounded key-value state of a block, the validation and merging of a
  state patch, and the named timers with the effects a handler returns.  The event and
  snapshot types of \<open>values.rs\<close> and \<open>state.rs\<close> that the engine exchanges with its host are
  here too.
\<close>

type_synonym monotonic_ms = u64
type_synonym logic_revision = u64

text \<open>\<open>MonotonicMs::checked_add\<close> of a 32-bit delay.\<close>

definition monotonic_checked_add :: "monotonic_ms \<Rightarrow> u32 \<Rightarrow> monotonic_ms option" where
  "monotonic_checked_add t ms = checked_add_word t (ucast ms)"

subsection \<open>State values\<close>

datatype state_value =
    SBool bool
  | SInteger int \<comment> \<open>\<open>i64\<close>\<close>
  | SNumber f64
  | SString rstring

type_synonym transient_state = "(rstring, state_value) btree_map"
type_synonym state_patch = "(rstring, state_value) btree_map"

datatype state_error =
    TooManyEntries nat nat
  | KeyTooLarge rstring nat nat
  | EmptyKey
  | StringTooLarge rstring nat nat
  | TotalTooLarge nat nat
  | NonFiniteNumber rstring

definition max_state_key_bytes :: nat where "max_state_key_bytes = 64"
definition max_state_string_bytes :: nat where "max_state_string_bytes = 1024"

definition validate_state_entry :: "rstring \<Rightarrow> state_value \<Rightarrow> state_error + unit" where
  "validate_state_entry key v =
     (if key = [] then Inl EmptyKey
      else if max_state_key_bytes < length key
        then Inl (KeyTooLarge key (length key) max_state_key_bytes)
      else case v of
        SString s \<Rightarrow>
          if max_state_string_bytes < length s
          then Inl (StringTooLarge key (length s) max_state_string_bytes)
          else Inr ()
      | SNumber x \<Rightarrow> if \<not> f64_is_finite x then Inl (NonFiniteNumber key) else Inr ()
      | _ \<Rightarrow> Inr ())"

text \<open>
  The bytes an entry accounts for.  The running total saturates at \<open>usize::MAX\<close> in the code;
  the lengths of strings held in memory never sum to it.
\<close>

definition state_entry_bytes :: "rstring \<times> state_value \<Rightarrow> nat" where
  "state_entry_bytes e =
     length (fst e) + (case snd e of SString s \<Rightarrow> length s | _ \<Rightarrow> 0)"

definition state_bytes :: "transient_state \<Rightarrow> nat" where
  "state_bytes state = sum_list (map state_entry_bytes state)"

definition validate_state_map_with_limits ::
  "transient_state \<Rightarrow> runtime_limits \<Rightarrow> state_error + unit" where
  "validate_state_map_with_limits state limits =
     (if max_state_entries_per_block limits < length state
      then Inl (TooManyEntries (length state) (max_state_entries_per_block limits))
      else result_bind
        (try_fold
          (\<lambda>total (key, v).
             result_bind (validate_state_entry key v)
               (\<lambda>_. Inr (total + state_entry_bytes (key, v))))
          0 state)
        (\<lambda>total.
          if max_state_bytes_per_block limits < total
          then Inl (TotalTooLarge total (max_state_bytes_per_block limits))
          else Inr ()))"

definition merge_state_with_limits ::
  "transient_state \<Rightarrow> state_patch \<Rightarrow> runtime_limits \<Rightarrow> state_error + transient_state" where
  "merge_state_with_limits current patch limits =
     (let merged = foldl (\<lambda>m (key, v). btm_insert key v m) current patch
      in result_bind (validate_state_map_with_limits merged limits) (\<lambda>_. Inr merged))"

subsection \<open>Timers\<close>

datatype timer_action =
    TimerScheduled u32 monotonic_ms
  | TimerReplaced monotonic_ms u32 monotonic_ms
  | TimerCancelled monotonic_ms
  | TimerCancelNoop

record timer_effect =
  te_name :: timer_name
  te_action :: timer_action

record pending_timer =
  pt_name :: timer_name
  pt_scheduled_at :: monotonic_ms
  pt_due_at :: monotonic_ms
  pt_scheduled_logic_revision :: logic_revision

type_synonym pending_map = "(timer_name, pending_timer) btree_map"

definition apply_timer_effects ::
  "pending_map \<Rightarrow> timer_effect list \<Rightarrow> monotonic_ms \<Rightarrow> logic_revision \<Rightarrow> pending_map" where
  "apply_timer_effects pending effects now revision =
     foldl
       (\<lambda>candidate eff.
          case te_action eff of
            TimerScheduled _ due_at \<Rightarrow>
              btm_insert (te_name eff)
                \<lparr>pt_name = te_name eff, pt_scheduled_at = now, pt_due_at = due_at,
                 pt_scheduled_logic_revision = revision\<rparr> candidate
          | TimerReplaced _ _ due_at \<Rightarrow>
              btm_insert (te_name eff)
                \<lparr>pt_name = te_name eff, pt_scheduled_at = now, pt_due_at = due_at,
                 pt_scheduled_logic_revision = revision\<rparr> candidate
          | TimerCancelled _ \<Rightarrow> btm_remove (te_name eff) candidate
          | TimerCancelNoop \<Rightarrow> btm_remove (te_name eff) candidate)
       pending effects"

subsection \<open>Events, snapshots and transitions\<close>

datatype input_update = Observe typed_value | UpdTrigger typed_value | Invalidate

record output_effect =
  oe_endpoint :: endpoint_name
  oe_value :: typed_value

record input_trigger =
  it_endpoint :: endpoint_name
  it_value :: typed_value
  it_previous :: "typed_value option"
  it_changed :: bool
  it_rising :: bool
  it_falling :: bool

record input_snapshot =
  is_endpoint :: endpoint_name
  is_dpt :: dpt
  is_value :: "typed_value option"
  is_valid :: bool
  is_age_ms :: "u64 option"

record timer_trigger =
  tt_name :: timer_name
  tt_scheduled_at :: monotonic_ms
  tt_due_at :: monotonic_ms
  tt_fired_at :: monotonic_ms
  tt_scheduled_logic_revision :: logic_revision

record transition =
  tr_state :: state_patch
  tr_outputs :: "output_effect list"
  tr_timers :: "timer_effect list"

definition default_transition :: transition where
  "default_transition = \<lparr>tr_state = [], tr_outputs = [], tr_timers = []\<rparr>"

text \<open>\<open>support.rs\<close>: the edge flags of a triggering input.\<close>

definition make_input_trigger ::
  "endpoint_name \<Rightarrow> typed_value \<Rightarrow> typed_value option \<Rightarrow> input_trigger" where
  "make_input_trigger name v previous =
     \<lparr>it_endpoint = name, it_value = v, it_previous = previous,
      it_changed = (case previous of None \<Rightarrow> False | Some p \<Rightarrow> p \<noteq> v),
      it_rising =
        (map_option tv_value previous = Some (VBool False) \<and> tv_value v = VBool True),
      it_falling =
        (map_option tv_value previous = Some (VBool True) \<and> tv_value v = VBool False)\<rparr>"

subsection \<open>State bounds\<close>

lemma monotonic_checked_add_Some:
  assumes "monotonic_checked_add t ms = Some d"
  shows "unat d = unat t + unat ms" and "t \<le> d" and "ms \<noteq> 0 \<Longrightarrow> t < d"
proof -
  have "unat ms < 2 ^ 64" by (rule order_less_le_trans [OF unat_bound]) simp
  then have u: "unat (ucast ms :: u64) = unat ms" by (simp add: unsigned_ucast_eq take_bit_eq_mod)
  show d: "unat d = unat t + unat ms"
    using checked_add_word_Some [of t "ucast ms" d] assms u
    by (simp add: monotonic_checked_add_def)
  then show "t \<le> d" by (simp add: word_le_nat_alt)
  show "ms \<noteq> 0 \<Longrightarrow> t < d" using d by (simp add: word_less_nat_alt unat_gt_0)
qed

text \<open>What a validated state satisfies.\<close>

definition state_entry_ok :: "rstring \<times> state_value \<Rightarrow> bool" where
  "state_entry_ok e \<longleftrightarrow>
     fst e \<noteq> [] \<and> length (fst e) \<le> 64 \<and>
     (case snd e of
        SString s \<Rightarrow> length s \<le> 1024
      | SNumber x \<Rightarrow> f64_is_finite x
      | _ \<Rightarrow> True)"

definition state_ok :: "runtime_limits \<Rightarrow> transient_state \<Rightarrow> bool" where
  "state_ok limits state \<longleftrightarrow>
     btm_sorted state \<and> length state \<le> max_state_entries_per_block limits \<and>
     (\<forall>e \<in> set state. state_entry_ok e) \<and>
     state_bytes state \<le> max_state_bytes_per_block limits"

lemma validate_state_entry_ok:
  "validate_state_entry k v = Inr u \<longleftrightarrow> state_entry_ok (k, v)"
  by (auto simp: validate_state_entry_def state_entry_ok_def max_state_key_bytes_def
      max_state_string_bytes_def split: state_value.splits)

lemma validate_state_total:
  "try_fold
     (\<lambda>total (key, v).
        result_bind (validate_state_entry key v) (\<lambda>_. Inr (total + state_entry_bytes (key, v))))
     n state = Inr t \<longleftrightarrow>
   (\<forall>e \<in> set state. state_entry_ok e) \<and> t = n + state_bytes state"
  by (induction state arbitrary: n)
    (auto simp: state_bytes_def result_simps validate_state_entry_ok)

lemma validate_state_map_ok:
  "validate_state_map_with_limits state limits = Inr u \<longleftrightarrow>
   length state \<le> max_state_entries_per_block limits \<and>
   (\<forall>e \<in> set state. state_entry_ok e) \<and> state_bytes state \<le> max_state_bytes_per_block limits"
  by (auto simp: validate_state_map_with_limits_def result_simps validate_state_total)

text \<open>Merging a patch is a batch of insertions of the map interface.\<close>

lemma foldl_insert_edits:
  "foldl (\<lambda>m (key, v). btm_insert key v m) current patch =
   apply_edits btm_insert btm_remove (map (\<lambda>(k, v). (k, Some v)) patch) current"
  by (simp add: apply_edits_def foldl_map case_prod_unfold)

lemma last_edit_patch:
  assumes "btm_sorted patch"
  shows "last_edit (map (\<lambda>(k, v). (k, Some v)) patch) k = map_option Some (btm_get patch k)"
proof (cases "btm_get patch k")
  case None
  then have "k \<notin> fst ` set (map (\<lambda>(k, v). (k, Some v)) patch)"
    by (auto simp: btm_get_None_iff image_iff)
  then have "last_edit (map (\<lambda>(k, v). (k, Some v)) patch) k = None"
    by (simp only: last_edit_None_iff not_False_eq_True)
  with None show ?thesis by simp
next
  case (Some v)
  let ?es = "rev (map (\<lambda>(k, v). (k, Some v)) patch)"
  have "distinct (map fst ?es)"
    using btm_sorted_distinct [OF assms] by (simp add: rev_map [symmetric] comp_def case_prod_unfold)
  moreover have "(k, Some v) \<in> set ?es"
    using btm_get_in_set [OF Some] by (auto simp: image_iff intro!: bexI [of _ "(k, v)"])
  ultimately have "find (\<lambda>e. fst e = fst (k, Some v)) ?es = Some (k, Some v)"
    by (rule find_distinct)
  with Some show ?thesis by (simp add: last_edit_def)
qed

lemma merge_state_get:
  assumes "merge_state_with_limits current patch limits = Inr merged"
    and "btm_sorted current" and "btm_sorted patch"
  shows "btm_get merged k =
    (case btm_get patch k of None \<Rightarrow> btm_get current k | Some v \<Rightarrow> Some v)"
  using assms(1)
  by (auto simp: merge_state_with_limits_def Let_def result_simps foldl_insert_edits
      btm.get_edits last_edit_patch [OF assms(3)] split: option.splits)

lemma merge_state_ok:
  assumes "merge_state_with_limits current patch limits = Inr merged" and "btm_sorted current"
  shows "state_ok limits merged"
  using assms btm.invar_edits [OF assms(2)]
  by (auto simp: merge_state_with_limits_def Let_def result_simps foldl_insert_edits
      validate_state_map_ok state_ok_def)

subsection \<open>Timer effects as edits of the pending map\<close>

fun effect_edit ::
  "monotonic_ms \<Rightarrow> logic_revision \<Rightarrow> timer_effect \<Rightarrow> timer_name \<times> pending_timer option" where
  "effect_edit now revision eff =
     (te_name eff,
      case te_action eff of
        TimerScheduled _ due \<Rightarrow> Some \<lparr>pt_name = te_name eff, pt_scheduled_at = now,
          pt_due_at = due, pt_scheduled_logic_revision = revision\<rparr>
      | TimerReplaced _ _ due \<Rightarrow> Some \<lparr>pt_name = te_name eff, pt_scheduled_at = now,
          pt_due_at = due, pt_scheduled_logic_revision = revision\<rparr>
      | TimerCancelled _ \<Rightarrow> None
      | TimerCancelNoop \<Rightarrow> None)"

lemma apply_timer_effects_edits:
  "apply_timer_effects pending effects now revision =
   apply_edits btm_insert btm_remove (map (effect_edit now revision) effects) pending"
proof (induction effects arbitrary: pending)
  case (Cons eff effects)
  then show ?case
    by (cases "te_action eff") (simp_all add: apply_timer_effects_def)
qed (simp add: apply_timer_effects_def)

text \<open>
  The well-formedness of a pending map: sorted, every entry under its own name, and of one
  revision.
\<close>

definition pending_ok :: "logic_revision \<Rightarrow> pending_map \<Rightarrow> bool" where
  "pending_ok revision pending \<longleftrightarrow>
     btm_sorted pending \<and>
     (\<forall>(name, timer) \<in> set pending.
        pt_name timer = name \<and> pt_scheduled_logic_revision timer = revision)"

lemma pending_ok_Nil [simp]: "pending_ok revision []"
  by (simp add: pending_ok_def)

lemma pending_ok_remove: "pending_ok r pending \<Longrightarrow> pending_ok r (btm_remove k pending)"
  by (auto simp: pending_ok_def btm_sorted_remove set_btm_remove)

lemma pending_ok_insert:
  assumes "pending_ok r pending" and "pt_name t = k" and "pt_scheduled_logic_revision t = r"
  shows "pending_ok r (btm_insert k t pending)"
  using assms set_btm_insert_subset [of k t pending]
  by (fastforce simp: pending_ok_def btm_sorted_insert)

lemma apply_timer_effects_Cons:
  "apply_timer_effects pending (eff # effects) now revision =
   apply_timer_effects
     (case snd (effect_edit now revision eff) of
        None \<Rightarrow> btm_remove (te_name eff) pending
      | Some t \<Rightarrow> btm_insert (te_name eff) t pending) effects now revision"
  by (cases "te_action eff") (simp_all add: apply_timer_effects_def)

lemma effect_edit_wf:
  "snd (effect_edit now revision eff) = Some t \<Longrightarrow>
   pt_name t = te_name eff \<and> pt_scheduled_logic_revision t = revision"
  by (cases "te_action eff") auto

lemma apply_timer_effects_ok [wf_intros]:
  assumes "pending_ok revision pending"
  shows "pending_ok revision (apply_timer_effects pending effects now revision)"
  using assms
proof (induction effects arbitrary: pending)
  case (Cons eff effects)
  show ?case
  proof (cases "snd (effect_edit now revision eff)")
    case None
    then show ?thesis
      using Cons.IH [OF pending_ok_remove [OF Cons.prems]]
      by (simp add: apply_timer_effects_Cons del: effect_edit.simps)
  next
    case (Some t)
    then show ?thesis
      using Cons.IH [OF pending_ok_insert [OF Cons.prems, of t "te_name eff"]]
        effect_edit_wf [OF Some]
      by (simp add: apply_timer_effects_Cons del: effect_edit.simps)
  qed
qed (simp add: apply_timer_effects_def)

lemma apply_timer_effects_untouched:
  assumes "pending_ok r pending" and "k \<notin> te_name ` set effects"
  shows "btm_get (apply_timer_effects pending effects now revision) k = btm_get pending k"
proof -
  have "k \<notin> fst ` set (map (effect_edit now revision) effects)" using assms(2) by auto
  with assms(1) show ?thesis
    unfolding apply_timer_effects_edits by (simp add: btm.get_edits_untouched pending_ok_def)
qed

end
