(* ===== verification/Logic_Errors.thy ===== *)
theory Logic_Errors
  imports Transient_State
begin

text \<open>
  \<open>LogicError\<close> of \<open>program.rs\<close> and the classification of virtual-machine errors in
  \<open>lua_errors.rs\<close>.  A message the code assembles with \<open>format!\<close> is kept as its template and
  its arguments; a message that comes from the Lua virtual machine is its text.
\<close>

subsection \<open>Logic errors\<close>

datatype message_arg =
    ArgStr rstring
  | ArgInt int
  | ArgFloat f64
  | ArgDpt dpt
  | ArgStateError state_error
  | ArgNameError endpoint_name_error
  | ArgValueError value_error

datatype logic_message =
    MsgText rstring
  | MsgFormat string "message_arg list"

datatype logic_error_kind =
    KindSyntax | KindLoad | KindRuntime | KindInstructionLimit | KindMemoryLimit
  | KindHandlerTimeLimit | KindInvalidResult

fun kind_as_str :: "logic_error_kind \<Rightarrow> rstring" where
  "kind_as_str KindSyntax = ''syntax''"
| "kind_as_str KindLoad = ''load''"
| "kind_as_str KindRuntime = ''runtime''"
| "kind_as_str KindInstructionLimit = ''instruction_limit''"
| "kind_as_str KindMemoryLimit = ''memory_limit''"
| "kind_as_str KindHandlerTimeLimit = ''handler_time_limit''"
| "kind_as_str KindInvalidResult = ''invalid_result''"

datatype logic_error =
    EmptySource
  | SourceTooLarge nat nat
  | LogicSyntax logic_message "nat option"
  | LogicLoad logic_message "nat option"
  | LogicRuntime logic_message "nat option"
  | LogicInstructionLimit logic_message "nat option"
  | LogicMemoryLimit logic_message "nat option"
  | LogicHandlerTimeLimit logic_message "nat option"
  | LogicInvalidResult logic_message "nat option"

fun logic_error_kind_of :: "logic_error \<Rightarrow> logic_error_kind" where
  "logic_error_kind_of EmptySource = KindLoad"
| "logic_error_kind_of (SourceTooLarge _ _) = KindLoad"
| "logic_error_kind_of (LogicLoad _ _) = KindLoad"
| "logic_error_kind_of (LogicSyntax _ _) = KindSyntax"
| "logic_error_kind_of (LogicRuntime _ _) = KindRuntime"
| "logic_error_kind_of (LogicInstructionLimit _ _) = KindInstructionLimit"
| "logic_error_kind_of (LogicMemoryLimit _ _) = KindMemoryLimit"
| "logic_error_kind_of (LogicHandlerTimeLimit _ _) = KindHandlerTimeLimit"
| "logic_error_kind_of (LogicInvalidResult _ _) = KindInvalidResult"

definition logic_error_category :: "logic_error \<Rightarrow> rstring" where
  "logic_error_category e = kind_as_str (logic_error_kind_of e)"

fun logic_error_line :: "logic_error \<Rightarrow> nat option" where
  "logic_error_line (LogicSyntax _ l) = l"
| "logic_error_line (LogicLoad _ l) = l"
| "logic_error_line (LogicRuntime _ l) = l"
| "logic_error_line (LogicInstructionLimit _ l) = l"
| "logic_error_line (LogicMemoryLimit _ l) = l"
| "logic_error_line (LogicHandlerTimeLimit _ l) = l"
| "logic_error_line (LogicInvalidResult _ l) = l"
| "logic_error_line EmptySource = None"
| "logic_error_line (SourceTooLarge _ _) = None"

fun logic_error_message :: "logic_error \<Rightarrow> logic_message" where
  "logic_error_message EmptySource = MsgText ''logic.source must not be empty''"
| "logic_error_message (SourceTooLarge _ _) =
     MsgText ''logic.source exceeds the 64 KiB limit''"
| "logic_error_message (LogicSyntax m _) = m"
| "logic_error_message (LogicLoad m _) = m"
| "logic_error_message (LogicRuntime m _) = m"
| "logic_error_message (LogicInstructionLimit m _) = m"
| "logic_error_message (LogicMemoryLimit m _) = m"
| "logic_error_message (LogicHandlerTimeLimit m _) = m"
| "logic_error_message (LogicInvalidResult m _) = m"

text \<open>The error most branches of the result conversion return.\<close>

definition invalid_result :: "string \<Rightarrow> message_arg list \<Rightarrow> logic_error" where
  "invalid_result template arguments = LogicInvalidResult (MsgFormat template arguments) None"

subsection \<open>Virtual-machine errors\<close>

text \<open>
  \<open>mlua::Error\<close> belongs to the Lua binding.  The code reads its display text, whether it is a
  memory error, and the cause of a callback or bad-argument error; the model keeps those.
\<close>

datatype mlua_error =
    MemoryError (mlua_display: rstring)
  | CallbackError (mlua_display: rstring) mlua_error
  | BadArgument (mlua_display: rstring) mlua_error
  | OtherLuaError (mlua_display: rstring)

datatype lua_phase = PhaseSyntax | PhaseLoad | PhaseRuntime | PhaseInvalidResult

definition instruction_limit_marker :: rstring where
  "instruction_limit_marker = ''logiksmith instruction limit exceeded''"

definition handler_time_limit_marker :: rstring where
  "handler_time_limit_marker = ''logiksmith handler time limit exceeded''"

fun str_contains :: "rstring \<Rightarrow> rstring \<Rightarrow> bool" where
  "str_contains [] pat = (pat = [])"
| "str_contains (c # s) pat = (take (length pat) (c # s) = pat \<or> str_contains s pat)"

fun contains_instruction_marker :: "mlua_error \<Rightarrow> bool" where
  "contains_instruction_marker e =
     (str_contains (mlua_display e) instruction_limit_marker \<or>
      (case e of
         CallbackError _ cause \<Rightarrow> contains_instruction_marker cause
       | BadArgument _ cause \<Rightarrow> contains_instruction_marker cause
       | _ \<Rightarrow> False))"

fun contains_memory_error :: "mlua_error \<Rightarrow> bool" where
  "contains_memory_error (MemoryError _) = True"
| "contains_memory_error (CallbackError _ cause) = contains_memory_error cause"
| "contains_memory_error (BadArgument _ cause) = contains_memory_error cause"
| "contains_memory_error (OtherLuaError _) = False"

definition is_char_boundary :: "rstring \<Rightarrow> nat \<Rightarrow> bool" where
  "is_char_boundary s i \<longleftrightarrow>
     i = 0 \<or> i = length s \<or> (i < length s \<and> \<not> is_continuation (s ! i))"

fun floor_char_boundary :: "rstring \<Rightarrow> nat \<Rightarrow> nat" where
  "floor_char_boundary s i =
     (if is_char_boundary s i then i else case i of 0 \<Rightarrow> 0 | Suc j \<Rightarrow> floor_char_boundary s j)"

declare floor_char_boundary.simps [simp del]

definition max_diagnostic_bytes :: nat where "max_diagnostic_bytes = 4096"

text \<open>The horizontal ellipsis U+2026.\<close>

definition ellipsis :: rstring where
  "ellipsis = [char_of (226 :: nat), char_of (128 :: nat), char_of (166 :: nat)]"

definition truncate_message :: "rstring \<Rightarrow> rstring" where
  "truncate_message message =
     (if length message \<le> max_diagnostic_bytes then message
      else take (floor_char_boundary message max_diagnostic_bytes) message @ ellipsis)"

text \<open>The first number that a colon follows and that fits a \<open>usize\<close>.\<close>

function source_line :: "rstring \<Rightarrow> nat option" where
  "source_line [] = None"
| "source_line (c # s) =
     (if \<not> is_ascii_digit c then source_line s
      else
        let digits = takeWhile is_ascii_digit (c # s);
            rest = dropWhile is_ascii_digit (c # s)
        in case (rest, parse_unsigned (2 ^ 64 - 1) digits) of
             (d # _, Some line) \<Rightarrow> if d = CHR '':'' then Some line else source_line rest
           | _ \<Rightarrow> source_line rest)"
  by pat_completeness auto
termination
proof (relation "measure length", goal_cases)
  case (3 c s digits rest)
  then have "rest = dropWhile is_ascii_digit s" by simp
  then show ?case using length_dropWhile_le [of is_ascii_digit s] by (simp add: le_imp_less_Suc)
qed (auto simp: le_imp_less_Suc length_dropWhile_le)

definition map_lua_error :: "mlua_error \<Rightarrow> lua_phase \<Rightarrow> logic_error" where
  "map_lua_error err phase =
     (let txt = truncate_message (mlua_display err);
          line = source_line txt;
          message = MsgText txt
      in if contains_instruction_marker err then LogicInstructionLimit message line
         else if str_contains (mlua_display err) handler_time_limit_marker
           then LogicHandlerTimeLimit message line
         else if contains_memory_error err then LogicMemoryLimit message line
         else case phase of
           PhaseSyntax \<Rightarrow> LogicSyntax message line
         | PhaseLoad \<Rightarrow> LogicLoad message line
         | PhaseRuntime \<Rightarrow> LogicRuntime message line
         | PhaseInvalidResult \<Rightarrow> LogicInvalidResult message line)"

subsection \<open>Diagnostics stay bounded\<close>

lemma floor_char_boundary_le: "floor_char_boundary s i \<le> i"
proof (induction i)
  case (Suc i)
  then show ?case by (subst floor_char_boundary.simps) simp
qed (simp add: floor_char_boundary.simps)

lemma floor_char_boundary_ok: "is_char_boundary s (floor_char_boundary s i)"
proof (induction i)
  case 0
  then show ?case by (subst floor_char_boundary.simps) (simp add: is_char_boundary_def)
next
  case (Suc i)
  then show ?case by (subst floor_char_boundary.simps) simp
qed

text \<open>
  A diagnostic is never longer than the 4096-byte bound plus the ellipsis, is the message
  itself when it fits, and otherwise keeps a prefix that ends at a character boundary.
\<close>

theorem truncate_message_bounded:
  "length (truncate_message m) \<le> 4096 + 3 \<and>
   (if length m \<le> 4096 then truncate_message m = m
    else \<exists>n \<le> 4096. is_char_boundary m n \<and> truncate_message m = take n m @ ellipsis)"
  using floor_char_boundary_le [of m 4096] floor_char_boundary_ok [of m 4096]
  by (auto simp: truncate_message_def max_diagnostic_bytes_def ellipsis_def)

lemma map_lua_error_line_message:
  "logic_error_message (map_lua_error e phase) = MsgText (truncate_message (mlua_display e))"
  "logic_error_line (map_lua_error e phase) = source_line (truncate_message (mlua_display e))"
  by (auto simp: map_lua_error_def Let_def split: lua_phase.splits)

lemma str_contains_sublist: "str_contains s pat \<longleftrightarrow> (\<exists>a b. s = a @ pat @ b)"
proof (induction s)
  case (Cons c s)
  have "take (length pat) (c # s) = pat \<longleftrightarrow> (\<exists>b. c # s = pat @ b)"
    by (metis append_eq_conv_conj append_take_drop_id)
  moreover have "(\<exists>a b. c # s = a @ pat @ b) \<longleftrightarrow>
    (\<exists>b. c # s = pat @ b) \<or> (\<exists>a b. s = a @ pat @ b)"
  proof
    assume "\<exists>a b. c # s = a @ pat @ b"
    then obtain a b where ab: "c # s = a @ pat @ b" by blast
    then show "(\<exists>b. c # s = pat @ b) \<or> (\<exists>a b. s = a @ pat @ b)" by (cases a) auto
  qed (metis append_Cons append_Nil)
  ultimately show ?case using Cons.IH by simp
qed auto

text \<open>
  The classification of a virtual-machine error: an exhausted instruction budget wins over
  everything, wherever in the chain of causes its marker appears; then the handler's time
  budget; then a memory error in the chain; only an error of none of these kinds is named
  after the phase it was raised in.
\<close>

theorem map_lua_error_kind:
  "logic_error_kind_of (map_lua_error e phase) =
     (if contains_instruction_marker e then KindInstructionLimit
      else if \<exists>a b. mlua_display e = a @ handler_time_limit_marker @ b then KindHandlerTimeLimit
      else if contains_memory_error e then KindMemoryLimit
      else case phase of
        PhaseSyntax \<Rightarrow> KindSyntax | PhaseLoad \<Rightarrow> KindLoad | PhaseRuntime \<Rightarrow> KindRuntime
      | PhaseInvalidResult \<Rightarrow> KindInvalidResult)"
  by (simp add: map_lua_error_def Let_def str_contains_sublist split: lua_phase.splits)

end
