(* ===== verification/Civil_Days.thy ===== *)
theory Civil_Days
  imports Prelude "HOL-Library.Signed_Division"
begin

text \<open>
  The calendar arithmetic of \<open>noaa.rs\<close>: days since 1970-01-01 of a proleptic Gregorian
  date and back.  Rust's \<open>/\<close> and \<open>%\<close> on signed integers truncate towards zero (\<open>sdiv\<close>,
  \<open>smod\<close>); the casts of the results to \<open>i32\<close> and \<open>u32\<close> wrap.
\<close>

definition cast_i32 :: "int \<Rightarrow> int" where
  "cast_i32 x = (x + 2 ^ 31) mod 2 ^ 32 - 2 ^ 31"

definition cast_u32 :: "int \<Rightarrow> int" where
  "cast_u32 x = x mod 2 ^ 32"

definition days_from_civil :: "int \<Rightarrow> int \<Rightarrow> int \<Rightarrow> int" where
  "days_from_civil year0 month day =
     (let year = (if month \<le> 2 then year0 - 1 else year0);
          era = (if 0 \<le> year then year else year - 399) sdiv 400;
          yoe = year - era * 400;
          mp = (month + 9) smod 12;
          doy = (153 * mp + 2) sdiv 5 + day - 1;
          doe = yoe * 365 + yoe sdiv 4 - yoe sdiv 100 + doy
      in era * 146097 + doe - 719468)"

definition civil_from_days :: "int \<Rightarrow> int \<times> int \<times> int" where
  "civil_from_days days =
     (let z = days + 719468;
          era = (if 0 \<le> z then z else z - 146096) sdiv 146097;
          doe = z - era * 146097;
          yoe = (doe - doe sdiv 1460 + doe sdiv 36524 - doe sdiv 146096) sdiv 365;
          year = yoe + era * 400;
          doy = doe - (365 * yoe + yoe sdiv 4 - yoe sdiv 100);
          mp = (5 * doy + 2) sdiv 153;
          day = doy - (153 * mp + 2) sdiv 5 + 1;
          month = (if mp < 10 then mp + 3 else mp - 9)
      in (cast_i32 (if month \<le> 2 then year + 1 else year), cast_u32 month, cast_u32 day))"

definition day_of_year :: "int \<Rightarrow> int \<Rightarrow> int \<Rightarrow> int" where
  "day_of_year year month day =
     cast_u32 (days_from_civil year month day - days_from_civil year 1 1 + 1)"

subsection \<open>The Gregorian calendar\<close>

definition leap_year :: "int \<Rightarrow> bool" where
  "leap_year y \<longleftrightarrow> y mod 4 = 0 \<and> (y mod 100 \<noteq> 0 \<or> y mod 400 = 0)"

definition days_in_month :: "int \<Rightarrow> int \<Rightarrow> int" where
  "days_in_month y m =
     (if m = 2 then (if leap_year y then 29 else 28)
      else if m \<in> {4, 6, 9, 11} then 30 else 31)"

definition valid_date :: "int \<Rightarrow> int \<Rightarrow> int \<Rightarrow> bool" where
  "valid_date y m d \<longleftrightarrow> 1 \<le> m \<and> m \<le> 12 \<and> 1 \<le> d \<and> d \<le> days_in_month y m"

lemma sdiv_nonneg: "0 \<le> a \<Longrightarrow> 0 < b \<Longrightarrow> (a::int) sdiv b = a div b"
  by (simp add: signed_divide_int_def sgn_if)

lemma smod_nonneg: "0 \<le> a \<Longrightarrow> 0 < b \<Longrightarrow> (a::int) smod b = a mod b"
  by (cases "a = 0") (simp_all add: signed_modulo_int_def sgn_if)

lemma div_by_bounds: "b * q \<le> a \<Longrightarrow> a < b * q + b \<Longrightarrow> 0 < b \<Longrightarrow> a div b = (q::int)"
  by (rule int_div_pos_eq [where r = "a - b * q"]) simp_all

lemma div_bounds:
  fixes a :: int
  assumes "0 < b"
  shows "b * (a div b) \<le> a" and "a < b * (a div b) + b"
  using assms pos_mod_sign [of b a] pos_mod_bound [of b a] mult_div_mod_eq [of b a]
  by linarith+

text \<open>The era adjustment turns the truncating division into the floor.\<close>

lemma sdiv_floor:
  assumes "0 < b"
  shows "(if 0 \<le> a then a else a - (b - 1)) sdiv b = (a::int) div b"
proof (cases "0 \<le> a")
  case True
  with assms show ?thesis by (simp add: sdiv_nonneg)
next
  case False
  then have neg: "a - (b - 1) < 0" using assms by linarith
  have "(a - (b - 1)) sdiv b = - ((b - 1 - a) div b)"
    using neg assms by (simp add: signed_divide_int_def sgn_if)
  also have "(b - 1 - a) div b = - (a div b)"
    using div_bounds [OF assms, of a] assms by (intro div_by_bounds) simp_all
  finally show ?thesis using False by simp
qed

text \<open>
  A year of an era by its century, four-year cycle and year of the cycle, and the start of
  that year within the era.
\<close>

lemma yoe_parts:
  fixes yoe :: int
  assumes "0 \<le> yoe" and "yoe \<le> 399"
  obtains c q s where "yoe = 100 * c + 4 * q + s" "0 \<le> c" "c \<le> 3" "0 \<le> q" "q \<le> 24"
    "0 \<le> s" "s \<le> 3" "yoe div 4 = 25 * c + q" "yoe div 100 = c"
proof -
  define c where "c = yoe div 100"
  define q where "q = (yoe - 100 * c) div 4"
  define s where "s = yoe - 100 * c - 4 * q"
  have c: "100 * c \<le> yoe" "yoe < 100 * c + 100"
    unfolding c_def using div_bounds [of 100 yoe] by simp_all
  have q: "4 * q \<le> yoe - 100 * c" "yoe - 100 * c < 4 * q + 4"
    unfolding q_def using div_bounds [of 4 "yoe - 100 * c"] by simp_all
  have "yoe div 4 = 25 * c + q" using q by (intro div_by_bounds) auto
  with c q assms show ?thesis by (intro that [of c q s]) (auto simp: s_def c_def [symmetric])
qed

definition last_day :: "int \<Rightarrow> int" where
  "last_day yoe =
     (if (yoe + 1) mod 4 = 0 \<and> ((yoe + 1) mod 100 \<noteq> 0 \<or> yoe = 399) then 365 else 364)"

lemma year_of_era:
  fixes yoe doy :: int
  assumes "0 \<le> yoe" and "yoe \<le> 399" and "0 \<le> doy" and "doy \<le> last_day yoe"
  defines "doe \<equiv> 365 * yoe + yoe div 4 - yoe div 100 + doy"
  shows "0 \<le> doe" and "doe \<le> 146096"
    and "(doe - doe div 1460 + doe div 36524 - doe div 146096) div 365 = yoe"
proof -
  obtain c q s where p: "yoe = 100 * c + 4 * q + s" "0 \<le> c" "c \<le> 3" "0 \<le> q" "q \<le> 24"
    "0 \<le> s" "s \<le> 3" "yoe div 4 = 25 * c + q" "yoe div 100 = c"
    using yoe_parts [OF assms(1,2)] by blast
  have doe: "doe = 36524 * c + 1461 * q + 365 * s + doy"
    unfolding doe_def p(8,9) using p(1) by simp
  have doy: "doy \<le> 365" using assms(4) by (simp add: last_day_def split: if_splits)
  have full: "doy = 365 \<Longrightarrow> s = 3 \<and> (q = 24 \<longrightarrow> c = 3)"
  proof -
    assume "doy = 365"
    then have leap: "(yoe + 1) mod 4 = 0" "(yoe + 1) mod 100 \<noteq> 0 \<or> yoe = 399"
      using assms(4) by (auto simp: last_day_def split: if_splits)
    have "s = 3" using leap(1) p(1,6,7) by presburger
    moreover have "q = 24 \<Longrightarrow> s = 3 \<Longrightarrow> yoe + 1 = 100 * (c + 1)" by (simp add: p)
    ultimately show ?thesis using leap(2) p(2,3) by auto
  qed
  show lower: "0 \<le> doe" using doe p assms(3) by linarith
  show upper: "doe \<le> 146096" using doe p doy by linarith
  show "(doe - doe div 1460 + doe div 36524 - doe div 146096) div 365 = yoe"
  proof (cases "doe = 146096")
    case True
    then have "c = 3 \<and> q = 24 \<and> s = 3" using doe p doy by linarith
    with True p(1) show ?thesis by simp
  next
    case False
    then have "doe < 146096" using upper by simp
    then have d3: "doe div 146096 = 0" using lower by simp
    have "doe < 36524 * (c + 1)"
    proof (cases "c = 3")
      case False
      have "\<not> (q = 24 \<and> s = 3 \<and> doy = 365)" using full False by auto
      then show ?thesis using doe p doy by (cases "q = 24"; cases "s = 3") auto
    qed (use \<open>doe < 146096\<close> in simp)
    then have d2: "doe div 36524 = c"
      using doe p assms(3) by (intro div_by_bounds) auto
    define t where "t = 24 * c + q + 365 * s + doy"
    have t: "0 \<le> t" "t < 2920" using p doy assms(3) by (simp_all add: t_def)
    have shape: "doe = 1460 * (25 * c + q) + t" by (simp add: doe t_def)
    define carry :: int where "carry = (if 1460 \<le> t then 1 else 0)"
    have d1: "doe div 1460 = 25 * c + q + carry"
      using shape t by (intro div_by_bounds) (auto simp: carry_def)
    have "doy = 365 \<Longrightarrow> carry = 1" using full p by (auto simp: carry_def t_def)
    moreover have "doy = 0 \<Longrightarrow> carry = 0" using p by (auto simp: carry_def t_def)
    moreover have "carry = 0 \<or> carry = 1" by (simp add: carry_def)
    ultimately have fits: "0 \<le> doy - carry" "doy - carry < 365"
      using assms(3) doy by fastforce+
    have "doe - doe div 1460 + doe div 36524 - doe div 146096 = 365 * yoe + (doy - carry)"
      unfolding d1 d2 d3 using doe p(1) by simp
    then show ?thesis using fits by (intro div_by_bounds) auto
  qed
qed

text \<open>Within the year that starts in March, the day determines the month and its day.\<close>

lemma month_cases:
  fixes m :: int
  assumes "1 \<le> m" and "m \<le> 12"
  shows "m = 1 \<or> m = 2 \<or> m = 3 \<or> m = 4 \<or> m = 5 \<or> m = 6 \<or> m = 7 \<or> m = 8 \<or> m = 9
    \<or> m = 10 \<or> m = 11 \<or> m = 12"
  using assms by presburger

lemma month_of_day:
  assumes "1 \<le> m" and "m \<le> 12" and "1 \<le> d" and "d \<le> (if m = 2 then 29 else days_in_month y m)"
  defines "mp \<equiv> (m + 9) mod 12"
  defines "doy \<equiv> (153 * mp + 2) div 5 + d - 1"
  shows "0 \<le> doy" and "doy \<le> 365" and "(5 * doy + 2) div 153 = mp"
    and "m \<noteq> 2 \<Longrightarrow> doy \<le> 364" and "m = 2 \<Longrightarrow> doy = d + 336"
  using month_cases [OF assms(1,2)] assms(3,4)
  by (auto simp: mp_def doy_def days_in_month_def intro!: div_by_bounds)

text \<open>The closed form of \<open>days_from_civil\<close>: an era, a year of the era and a day of that year.\<close>

definition day_of_era :: "int \<Rightarrow> int \<Rightarrow> int" where
  "day_of_era yoe doy = 365 * yoe + yoe div 4 - yoe div 100 + doy"

definition march_day :: "int \<Rightarrow> int \<Rightarrow> int" where
  "march_day m d = (153 * ((m + 9) mod 12) + 2) div 5 + d - 1"

definition march_year :: "int \<Rightarrow> int \<Rightarrow> int" where
  "march_year y m = (if m \<le> 2 then y - 1 else y)"

lemma days_from_civil_closed:
  assumes "1 \<le> m" and "m \<le> 12" and "1 \<le> d"
  shows "days_from_civil y m d =
    march_year y m div 400 * 146097 + day_of_era (march_year y m mod 400) (march_day m d) - 719468"
proof -
  define Y where "Y = march_year y m"
  have era: "(if 0 \<le> Y then Y else Y - 399) sdiv 400 = Y div 400"
    using sdiv_floor [of 400 Y] by (cases "0 \<le> Y") simp_all
  have yoe: "Y - Y div 400 * 400 = Y mod 400" by (rule minus_div_mult_eq_mod)
  have mp: "(m + 9) smod 12 = (m + 9) mod 12" using assms by (simp add: smod_nonneg)
  have doy: "(153 * ((m + 9) mod 12) + 2) sdiv 5 = (153 * ((m + 9) mod 12) + 2) div 5"
    by (simp add: sdiv_nonneg)
  have leaps: "(Y mod 400) sdiv 4 = Y mod 400 div 4" "(Y mod 400) sdiv 100 = Y mod 400 div 100"
    by (simp_all add: sdiv_nonneg)
  show ?thesis
    unfolding days_from_civil_def Let_def march_year_def [symmetric] Y_def [symmetric]
      era yoe mp doy leaps day_of_era_def march_day_def
    by (simp only: ac_simps)
qed

lemma mod_shift: "k dvd n \<Longrightarrow> ((y - 1) mod n + 1) mod k = (y::int) mod k"
  by (metis diff_add_cancel mod_add_left_eq mod_mod_cancel)

lemma leap_last_day:
  assumes "leap_year y"
  shows "last_day ((y - 1) mod 400) = 365"
proof -
  have 1: "((y - 1) mod 400 + 1) mod 4 = y mod 4" and 2: "((y - 1) mod 400 + 1) mod 100 = y mod 100"
    by (simp_all add: mod_shift)
  have "(y - 1) mod 400 = 399" if "y mod 400 = 0"
  proof -
    from that obtain k where "y = 400 * k" by (metis dvd_def mod_0_imp_dvd)
    then show ?thesis by (intro int_mod_pos_eq [where q = "k - 1"]) simp_all
  qed
  with assms show ?thesis unfolding last_day_def 1 2 leap_year_def by auto
qed

lemma march_day_bounds:
  assumes "valid_date y m d"
  shows "0 \<le> march_day m d" and "march_day m d \<le> last_day (march_year y m mod 400)"
    and "(5 * march_day m d + 2) div 153 = (m + 9) mod 12"
proof -
  have date: "1 \<le> m" "m \<le> 12" "1 \<le> d" "d \<le> days_in_month y m"
    using assms by (simp_all add: valid_date_def)
  then have weak: "d \<le> (if m = 2 then 29 else days_in_month y m)"
    by (cases "m = 2") (simp_all add: days_in_month_def split: if_splits)
  note month = month_of_day [OF date(1-3) weak]
  show "0 \<le> march_day m d" and "(5 * march_day m d + 2) div 153 = (m + 9) mod 12"
    unfolding march_day_def using month by simp_all
  have low: "364 \<le> last_day n" for n by (simp add: last_day_def)
  show "march_day m d \<le> last_day (march_year y m mod 400)"
  proof (cases "m = 2")
    case True
    then show ?thesis
      using month(5) date(4) leap_last_day [of y] low [of "(y - 1) mod 400"]
      by (cases "leap_year y") (auto simp: march_day_def days_in_month_def march_year_def)
  next
    case False
    then have "march_day m d \<le> 364" using month(4) by (simp add: march_day_def)
    also note low
    finally show ?thesis .
  qed
qed

lemma cast_i32_id: "- (2 ^ 31) \<le> x \<Longrightarrow> x < 2 ^ 31 \<Longrightarrow> cast_i32 x = x"
  by (simp add: cast_i32_def)

lemma cast_u32_id: "0 \<le> x \<Longrightarrow> x < 2 ^ 32 \<Longrightarrow> cast_u32 x = x"
  by (simp add: cast_u32_def)

text \<open>What \<open>civil_from_days\<close> reads off a day count in closed form.\<close>

lemma civil_from_days_closed:
  assumes "0 \<le> yoe" and "yoe \<le> 399" and "0 \<le> doy" and "doy \<le> last_day yoe"
  shows "civil_from_days (era * 146097 + day_of_era yoe doy - 719468) =
    (let mp = (5 * doy + 2) div 153;
         month = (if mp < 10 then mp + 3 else mp - 9)
     in (cast_i32 (if month \<le> 2 then yoe + era * 400 + 1 else yoe + era * 400),
         cast_u32 month, cast_u32 (doy - (153 * mp + 2) div 5 + 1)))"
proof -
  define doe where "doe = day_of_era yoe doy"
  note year = year_of_era [OF assms, folded day_of_era_def doe_def]
  define z where "z = era * 146097 + doe"
  have shift: "era * 146097 + day_of_era yoe doy - 719468 + 719468 = z"
    by (simp add: z_def doe_def)
  have "(if 0 \<le> z then z else z - 146096) sdiv 146097 = z div 146097"
    using sdiv_floor [of 146097 z] by (cases "0 \<le> z") simp_all
  also have "\<dots> = era" using year(1,2) by (intro div_by_bounds) (simp_all add: z_def)
  finally have era: "(if 0 \<le> z then z else z - 146096) sdiv 146097 = era" .
  have rest: "z - era * 146097 = doe" by (simp add: z_def)
  have yoe: "(doe - doe sdiv 1460 + doe sdiv 36524 - doe sdiv 146096) sdiv 365 = yoe"
  proof -
    have "0 \<le> doe - doe div 1460 + doe div 36524 - doe div 146096"
      using year(3) assms(1)
        pos_imp_zdiv_nonneg_iff [of 365 "doe - doe div 1460 + doe div 36524 - doe div 146096"]
      by simp
    then show ?thesis using year(1,3) by (simp add: sdiv_nonneg)
  qed
  have doy: "doe - (365 * yoe + yoe sdiv 4 - yoe sdiv 100) = doy"
    using assms(1) by (simp add: doe_def day_of_era_def sdiv_nonneg)
  have mp: "(5 * doy + 2) sdiv 153 = (5 * doy + 2) div 153" "0 \<le> (5 * doy + 2) div 153"
    using assms(3) by (simp_all add: sdiv_nonneg)
  have day: "(153 * ((5 * doy + 2) div 153) + 2) sdiv 5 = (153 * ((5 * doy + 2) div 153) + 2) div 5"
    using mp(2) by (simp add: sdiv_nonneg)
  show ?thesis
    unfolding civil_from_days_def Let_def shift era rest yoe doy mp(1) day ..
qed

text \<open>
  Converting a civil date of the supported years to its day number and back gives
  the date again: \<open>civil_from_days\<close> inverts \<open>days_from_civil\<close>, and neither
  wraps around its 64-bit or 32-bit arithmetic there.
\<close>
theorem civil_days_roundtrip:
  assumes "valid_date y m d" and "- (2 ^ 31) \<le> y" and "y < 2 ^ 31"
  shows "civil_from_days (days_from_civil y m d) = (y, m, d)"
proof -
  have date: "1 \<le> m" "m \<le> 12" "1 \<le> d" "d \<le> 31"
    using assms(1) by (auto simp: valid_date_def days_in_month_def split: if_splits)
  define Y where "Y = march_year y m"
  define k where "k = (m + 9) mod 12"
  have month: "(if k < 10 then k + 3 else k - 9) = m"
    using month_cases [OF date(1,2)] by (auto simp: k_def)
  have year: "(if m \<le> 2 then Y + 1 else Y) = y" by (simp add: Y_def march_year_def)
  have era: "Y mod 400 + Y div 400 * 400 = Y" by simp
  have day: "march_day m d - (153 * k + 2) div 5 + 1 = d" by (simp add: march_day_def k_def)
  have yoe: "0 \<le> Y mod 400" "Y mod 400 \<le> 399"
    using pos_mod_sign [of 400 Y] pos_mod_bound [of 400 Y] by simp_all
  have mp: "(5 * march_day m d + 2) div 153 = k"
    using march_day_bounds(3) [OF assms(1)] by (simp add: k_def)
  note bounds = march_day_bounds(1,2) [OF assms(1), folded Y_def]
  show ?thesis
    unfolding days_from_civil_closed [OF date(1-3)] Y_def [symmetric]
      civil_from_days_closed [OF yoe bounds]
    unfolding Let_def mp month era year day
    using assms(2,3) date by (simp add: cast_i32_id cast_u32_id)
qed

lemma civil_days_roundtrip_witness:
  "civil_from_days (days_from_civil 2024 2 29) = (2024, 2, 29)"
  using civil_days_roundtrip [of 2024 2 29]
  by (simp add: valid_date_def days_in_month_def leap_year_def)

end
