(* ===== verification/Schedule_Rules.thy ===== *)
theory Schedule_Rules
  imports Transient_State Civil_Days
begin

text \<open>
  \<open>schedule_rules.rs\<close> and \<open>schedule_astronomy.rs\<close>: wall-clock schedules.  A rule is a pure
  function from a UTC instant (milliseconds, an \<open>i64\<close> modelled as an integer) to its next
  occurrence.  Time zones and civil dates come from the \<open>jiff\<close> library and the solar events
  from floating-point trigonometry; both are fields of the record \<open>time_services\<close>, which
  every definition that needs them takes as an argument.
\<close>

subsection \<open>Civil dates and external services\<close>

record civil_date =
  cd_year :: int
  cd_month :: int
  cd_day :: int

record civil_datetime =
  dt_date :: civil_date
  dt_hour :: int
  dt_minute :: int
  dt_second :: int
  dt_subsec_nanosecond :: int

datatype weekday = Monday | Tuesday | Wednesday | Thursday | Friday | Saturday | Sunday

text \<open>
  \<open>tz_get\<close> tells whether the time-zone database has an identifier; the identifier then stands
  for the zone.  \<open>tz_local\<close> is \<open>Zoned::new(Timestamp::from_millisecond(ms)?, tz).datetime()\<close>,
  \<open>tz_zoned\<close> is \<open>dt.to_zoned(tz)\<close> with its civil date-time and its millisecond timestamp,
  \<open>date_add_days\<close> is the checked addition of a span of days.  The solar functions take the
  civil UTC date, the coordinates and the elevation threshold.
\<close>

record time_services =
  ts_features :: compiled_features
  tz_get :: "rstring \<Rightarrow> bool"
  tz_local :: "rstring \<Rightarrow> int \<Rightarrow> civil_datetime option"
  tz_zoned :: "rstring \<Rightarrow> civil_datetime \<Rightarrow> (civil_datetime \<times> int) option"
  date_add_days :: "civil_date \<Rightarrow> int \<Rightarrow> civil_date option"
  date_weekday :: "civil_date \<Rightarrow> weekday"
  solar_event_morning :: "int \<times> int \<times> int \<Rightarrow> f64 \<Rightarrow> f64 \<Rightarrow> f64 \<Rightarrow> int option"
  solar_event_evening :: "int \<times> int \<times> int \<Rightarrow> f64 \<Rightarrow> f64 \<Rightarrow> f64 \<Rightarrow> int option"
  solar_position :: "int \<Rightarrow> f64 \<Rightarrow> f64 \<Rightarrow> f64 \<times> f64"

record clock_sample =
  cs_monotonic_ms :: monotonic_ms
  cs_utc_unix_ms :: "int option"

record coordinates =
  latitude :: f64
  longitude :: f64

datatype time_zone_id = TimeZoneId (tz_str: rstring)

definition time_zone_id_new :: "time_services \<Rightarrow> rstring \<Rightarrow> rstring + time_zone_id" where
  "time_zone_id_new ts v =
     (if v = ''UTC'' then Inr (TimeZoneId v)
      else if \<not> feature_timezones (ts_features ts) then Inl v
      else if tz_get ts v then Inr (TimeZoneId v)
      else Inl v)"

definition utc_zone :: time_zone_id where "utc_zone = TimeZoneId ''UTC''"

definition timezone_for :: "time_services \<Rightarrow> time_zone_id \<Rightarrow> rstring option" where
  "timezone_for ts zone =
     (if feature_timezones (ts_features ts)
      then (if tz_get ts (tz_str zone) then Some (tz_str zone) else None)
      else if tz_str zone = ''UTC'' then Some (tz_str zone)
      else None)"

record site_time_config =
  site_timezone :: time_zone_id
  site_coordinates :: "coordinates option"

definition default_site :: site_time_config where
  "default_site = \<lparr>site_timezone = utc_zone, site_coordinates = None\<rparr>"

subsection \<open>Weekday sets\<close>

fun weekday_index :: "weekday \<Rightarrow> nat" where
  "weekday_index Monday = 0" | "weekday_index Tuesday = 1" | "weekday_index Wednesday = 2"
| "weekday_index Thursday = 3" | "weekday_index Friday = 4" | "weekday_index Saturday = 5"
| "weekday_index Sunday = 6"

instantiation weekday :: linorder
begin
definition less_eq_weekday :: "weekday \<Rightarrow> weekday \<Rightarrow> bool" where
  "a \<le> b \<longleftrightarrow> weekday_index a \<le> weekday_index b"
definition less_weekday :: "weekday \<Rightarrow> weekday \<Rightarrow> bool" where
  "a < b \<longleftrightarrow> weekday_index a < weekday_index b"
instance
proof
  fix x y :: weekday
  assume "x \<le> y" and "y \<le> x"
  then show "x = y" by (cases x; cases y) (simp_all add: less_eq_weekday_def)
qed (auto simp: less_eq_weekday_def less_weekday_def)
end

fun weekday_display :: "weekday \<Rightarrow> rstring" where
  "weekday_display Monday = ''Monday''" | "weekday_display Tuesday = ''Tuesday''"
| "weekday_display Wednesday = ''Wednesday''" | "weekday_display Thursday = ''Thursday''"
| "weekday_display Friday = ''Friday''" | "weekday_display Saturday = ''Saturday''"
| "weekday_display Sunday = ''Sunday''"

definition weekdays_all :: "weekday list" where
  "weekdays_all = [Monday, Tuesday, Wednesday, Thursday, Friday, Saturday, Sunday]"

datatype weekday_set_error = WeekdaysEmpty | WeekdaysDuplicate weekday

datatype weekday_set = WeekdaySet (weekdays_of: "weekday list")

definition weekday_set_new :: "weekday list \<Rightarrow> weekday_set_error + weekday_set" where
  "weekday_set_new weekdays =
     (if weekdays = [] then Inl WeekdaysEmpty
      else case first_duplicate (\<lambda>w. w) [] weekdays of
        Some w \<Rightarrow> Inl (WeekdaysDuplicate w)
      | None \<Rightarrow> Inr (WeekdaySet (sort weekdays)))"

definition weekday_set_contains :: "weekday_set \<Rightarrow> weekday \<Rightarrow> bool" where
  "weekday_set_contains s w \<longleftrightarrow> w \<in> set (weekdays_of s)"

subsection \<open>Rules and their validation\<close>

record local_time =
  lt_hour :: u8
  lt_minute :: u8
  lt_second :: u8

datatype solar_anchor = Dawn | Sunrise | Sunset | Dusk

datatype schedule_rule =
    RuleFixed local_time weekday_set
  | RuleInterval u32 u32
  | RuleAstronomical solar_anchor int weekday_set \<comment> \<open>\<open>i32\<close> offset\<close>

datatype schedule_kind = KindFixed | KindInterval | KindAstronomical

fun schedule_kind_display :: "schedule_kind \<Rightarrow> rstring" where
  "schedule_kind_display KindFixed = ''fixed''"
| "schedule_kind_display KindInterval = ''interval''"
| "schedule_kind_display KindAstronomical = ''astronomical''"

fun rule_kind :: "schedule_rule \<Rightarrow> schedule_kind" where
  "rule_kind (RuleFixed _ _) = KindFixed"
| "rule_kind (RuleInterval _ _) = KindInterval"
| "rule_kind (RuleAstronomical _ _ _) = KindAstronomical"

datatype schedule_error =
    UnknownSchedule
  | InvalidLocalTime local_time
  | InvalidInterval u32
  | InvalidIntervalOffset u32 u32
  | InvalidAstronomicalOffset int
  | FeatureDisabled rstring

definition min_interval_seconds :: u32 where "min_interval_seconds = 60"
definition max_interval_seconds :: u32 where "max_interval_seconds = 604800"
definition max_astronomical_offset_seconds :: int where
  "max_astronomical_offset_seconds = 86400"
definition search_day_limit :: int where "search_day_limit = 370"

definition is_valid_local_time :: "local_time \<Rightarrow> bool" where
  "is_valid_local_time tod \<longleftrightarrow> lt_hour tod \<le> 23 \<and> lt_minute tod \<le> 59 \<and> lt_second tod \<le> 59"

definition validate_local_time :: "local_time \<Rightarrow> schedule_error + unit" where
  "validate_local_time tod =
     (if 23 < lt_hour tod \<or> 59 < lt_minute tod \<or> 59 < lt_second tod
      then Inl (InvalidLocalTime tod) else Inr ())"

fun schedule_rule_validate :: "compiled_features \<Rightarrow> schedule_rule \<Rightarrow> schedule_error + unit" where
  "schedule_rule_validate _ (RuleFixed tod _) = validate_local_time tod"
| "schedule_rule_validate _ (RuleInterval every offset) =
     (if \<not> (min_interval_seconds \<le> every \<and> every \<le> max_interval_seconds)
        then Inl (InvalidInterval every)
      else if every \<le> offset then Inl (InvalidIntervalOffset offset every)
      else Inr ())"
| "schedule_rule_validate features (RuleAstronomical _ offset _) =
     (if \<not> feature_astronomy features then Inl (FeatureDisabled ''astronomy'')
      else if \<not> (- max_astronomical_offset_seconds \<le> offset
                \<and> offset \<le> max_astronomical_offset_seconds)
        then Inl (InvalidAstronomicalOffset offset)
      else Inr ())"

record block_schedule =
  sch_name :: schedule_name
  sch_enabled :: bool
  sch_rule :: schedule_rule

record schedule_trigger =
  st_block_id :: block_id
  st_name :: schedule_name
  st_kind :: schedule_kind
  st_scheduled_for_utc_ms :: int
  st_detected_at_utc_ms :: int
  st_coalesced_count :: u64
  st_structural_revision :: u64

subsection \<open>Local time and solar events\<close>

text \<open>
  A nonexistent local time (a spring-forward gap) is recognised by the round trip through
  the zoned value.
\<close>

definition resolve_local :: "time_services \<Rightarrow> civil_datetime \<Rightarrow> rstring \<Rightarrow> int option" where
  "resolve_local ts dt tz =
     (case tz_zoned ts tz dt of
        None \<Rightarrow> None
      | Some (actual, ms) \<Rightarrow> if actual \<noteq> dt then None else Some ms)"

definition local_date_of_utc :: "time_services \<Rightarrow> rstring \<Rightarrow> int \<Rightarrow> civil_date option" where
  "local_date_of_utc ts tz ms = map_option dt_date (tz_local ts tz ms)"

definition utc_civil_date :: "int \<Rightarrow> int \<times> int \<times> int" where
  "utc_civil_date ms = civil_from_days (ms div 86400000)"

text \<open>The literals \<open>-0.833\<close> and \<open>-6.0\<close>.\<close>

definition sunrise_threshold_degrees :: f64 where
  "sunrise_threshold_degrees = f64_round (- 833 / 1000)"
definition dawn_threshold_degrees :: f64 where
  "dawn_threshold_degrees = F64 (- 6)"

definition at_time :: "civil_date \<Rightarrow> int \<Rightarrow> int \<Rightarrow> int \<Rightarrow> civil_datetime" where
  "at_time d h m s =
     \<lparr>dt_date = d, dt_hour = h, dt_minute = m, dt_second = s, dt_subsec_nanosecond = 0\<rparr>"

definition solar_crossing ::
  "time_services \<Rightarrow> int \<times> int \<times> int \<Rightarrow> f64 \<Rightarrow> f64 \<Rightarrow> f64 \<Rightarrow> bool \<Rightarrow> int option" where
  "solar_crossing ts candidate lat lon threshold evening =
     (if evening then solar_event_evening ts candidate lat lon threshold
      else solar_event_morning ts candidate lat lon threshold)"

text \<open>The loop over the shifts 0, -1 and 1 of the UTC date of local noon.\<close>

fun crossing_on_date ::
  "time_services \<Rightarrow> rstring \<Rightarrow> civil_date \<Rightarrow> int \<Rightarrow> f64 \<Rightarrow> f64 \<Rightarrow> f64 \<Rightarrow> bool \<Rightarrow> int list
     \<Rightarrow> int option" where
  "crossing_on_date ts tz date noon_days lat lon threshold evening [] = None"
| "crossing_on_date ts tz date noon_days lat lon threshold evening (shift # shifts) =
     (case solar_crossing ts (civil_from_days (noon_days + shift)) lat lon threshold evening of
        None \<Rightarrow> crossing_on_date ts tz date noon_days lat lon threshold evening shifts
      | Some ms \<Rightarrow>
          if local_date_of_utc ts tz ms = Some date then Some ms
          else crossing_on_date ts tz date noon_days lat lon threshold evening shifts)"

fun days_of_civil :: "int \<times> int \<times> int \<Rightarrow> int" where
  "days_of_civil (year, month, day) = days_from_civil year month day"

definition solar_event_for_local_date ::
  "time_services \<Rightarrow> rstring \<Rightarrow> civil_date \<Rightarrow> f64 \<Rightarrow> f64 \<Rightarrow> f64 \<Rightarrow> bool \<Rightarrow> int option" where
  "solar_event_for_local_date ts tz date lat lon threshold evening =
     (case resolve_local ts (at_time date 12 0 0) tz of
        None \<Rightarrow> None
      | Some noon_utc \<Rightarrow>
          crossing_on_date ts tz date (days_of_civil (utc_civil_date noon_utc)) lat lon threshold
            evening [0, - 1, 1])"

lemma crossing_on_date_Some:
  "crossing_on_date ts tz date n lat lon threshold evening shifts = Some ms \<Longrightarrow>
   local_date_of_utc ts tz ms = Some date"
  by (induction shifts) (auto split: option.splits if_splits)

fun anchor_threshold :: "solar_anchor \<Rightarrow> f64 \<times> bool" where
  "anchor_threshold Dawn = (dawn_threshold_degrees, False)"
| "anchor_threshold Sunrise = (sunrise_threshold_degrees, False)"
| "anchor_threshold Sunset = (sunrise_threshold_degrees, True)"
| "anchor_threshold Dusk = (dawn_threshold_degrees, True)"

definition astronomical_occurrence ::
  "time_services \<Rightarrow> civil_date \<Rightarrow> solar_anchor \<Rightarrow> int \<Rightarrow> weekday_set \<Rightarrow> rstring \<Rightarrow> coordinates
     \<Rightarrow> int option" where
  "astronomical_occurrence ts date anchor offset weekdays tz coords =
     (let (threshold, evening) = anchor_threshold anchor
      in case solar_event_for_local_date ts tz date (latitude coords) (longitude coords)
             threshold evening of
           None \<Rightarrow> None
         | Some event_utc \<Rightarrow>
             case tz_local ts tz (saturate_i64 (event_utc + offset * 1000)) of
               None \<Rightarrow> None
             | Some final_dt \<Rightarrow>
                 if \<not> weekday_set_contains weekdays (date_weekday ts (dt_date final_dt)) then None
                 else resolve_local ts final_dt tz)"

subsection \<open>The occurrence engine\<close>

text \<open>
  The day loop of a fixed rule: \<open>checked_add(...).ok()?\<close> ends the search with \<open>None\<close>, a day
  off the weekday set or without a later candidate continues it.
\<close>

fun fixed_search ::
  "time_services \<Rightarrow> local_time \<Rightarrow> weekday_set \<Rightarrow> rstring \<Rightarrow> civil_date \<Rightarrow> int \<Rightarrow> int list
     \<Rightarrow> int option" where
  "fixed_search ts tod weekdays tz baseline after [] = None"
| "fixed_search ts tod weekdays tz baseline after (day # days) =
     (case date_add_days ts baseline day of
        None \<Rightarrow> None
      | Some anchor \<Rightarrow>
          if \<not> weekday_set_contains weekdays (date_weekday ts anchor)
            then fixed_search ts tod weekdays tz baseline after days
          else case resolve_local ts
              (at_time anchor (uint (lt_hour tod)) (uint (lt_minute tod)) (uint (lt_second tod))) tz of
            None \<Rightarrow> fixed_search ts tod weekdays tz baseline after days
          | Some candidate \<Rightarrow>
              if after < candidate then Some candidate
              else fixed_search ts tod weekdays tz baseline after days)"

fun astronomical_search ::
  "time_services \<Rightarrow> solar_anchor \<Rightarrow> int \<Rightarrow> weekday_set \<Rightarrow> rstring \<Rightarrow> coordinates \<Rightarrow> civil_date
     \<Rightarrow> int \<Rightarrow> int option \<Rightarrow> int list \<Rightarrow> int option" where
  "astronomical_search ts anchor offset weekdays tz coords baseline after best [] = best"
| "astronomical_search ts anchor offset weekdays tz coords baseline after best (day # days) =
     (case date_add_days ts baseline day of
        None \<Rightarrow> None
      | Some date \<Rightarrow>
          case astronomical_occurrence ts date anchor offset weekdays tz coords of
            None \<Rightarrow>
              astronomical_search ts anchor offset weekdays tz coords baseline after best days
          | Some candidate \<Rightarrow>
              astronomical_search ts anchor offset weekdays tz coords baseline after
                (if after < candidate
                    \<and> (case best of None \<Rightarrow> True | Some current \<Rightarrow> candidate < current)
                 then Some candidate else best) days)"

definition interval_next :: "u32 \<Rightarrow> u32 \<Rightarrow> int \<Rightarrow> int option" where
  "interval_next every_seconds offset_seconds after_utc_ms =
     (let every = uint every_seconds
      in if every = 0 then None
         else
           let offset = uint offset_seconds;
               baseline_seconds = after_utc_ms div 1000;
               numerator = baseline_seconds + 1 - offset;
               k = numerator div every + (if numerator mod every \<noteq> 0 then 1 else 0)
           in Some (saturate_i64 ((offset + k * every) * 1000)))"

fun next_occurrence_after ::
  "time_services \<Rightarrow> schedule_rule \<Rightarrow> site_time_config \<Rightarrow> int \<Rightarrow> int option" where
  "next_occurrence_after ts (RuleFixed tod weekdays) site after =
     (if \<not> is_valid_local_time tod then None
      else case timezone_for ts (site_timezone site) of
        None \<Rightarrow> None
      | Some tz \<Rightarrow>
          case local_date_of_utc ts tz after of
            None \<Rightarrow> None
          | Some baseline \<Rightarrow>
              fixed_search ts tod weekdays tz baseline after [0..search_day_limit - 1])"
| "next_occurrence_after ts (RuleInterval every offset) site after =
     interval_next every offset after"
| "next_occurrence_after ts (RuleAstronomical anchor offset weekdays) site after =
     (if \<not> feature_astronomy (ts_features ts) then None
      else case site_coordinates site of
        None \<Rightarrow> None
      | Some coords \<Rightarrow>
          case timezone_for ts (site_timezone site) of
            None \<Rightarrow> None
          | Some tz \<Rightarrow>
              case local_date_of_utc ts tz after of
                None \<Rightarrow> None
              | Some baseline \<Rightarrow>
                  astronomical_search ts anchor offset weekdays tz coords baseline after None
                    [- 1..search_day_limit - 1])"

text \<open>\<open>support.rs\<close>: the baseline is the later of the sample and the last delivery.\<close>

definition next_occurrence_after_not_before ::
  "time_services \<Rightarrow> schedule_rule \<Rightarrow> site_time_config \<Rightarrow> int \<Rightarrow> int option \<Rightarrow> int option" where
  "next_occurrence_after_not_before ts rule site now_utc last_delivered =
     next_occurrence_after ts rule site
       (case last_delivered of None \<Rightarrow> now_utc | Some delivered \<Rightarrow> max delivered now_utc)"

subsection \<open>A concrete calendar\<close>

text \<open>
  The services of a build whose database has only UTC and whose sites have no sun: civil time
  is the proleptic Gregorian calendar of \<open>noaa.rs\<close>.  The concrete instances of the theorems
  run on it.
\<close>

definition utc_datetime :: "int \<Rightarrow> civil_datetime" where
  "utc_datetime ms =
     (let (y, m, d) = utc_civil_date ms; t = ms mod 86400000
      in \<lparr>dt_date = \<lparr>cd_year = y, cd_month = m, cd_day = d\<rparr>, dt_hour = t div 3600000,
          dt_minute = t div 60000 mod 60, dt_second = t div 1000 mod 60,
          dt_subsec_nanosecond = (t mod 1000) * 1000000\<rparr>)"

definition civil_date_days :: "civil_date \<Rightarrow> int" where
  "civil_date_days d = days_from_civil (cd_year d) (cd_month d) (cd_day d)"

definition utc_local :: "rstring \<Rightarrow> int \<Rightarrow> civil_datetime option" where
  "utc_local _ ms = Some (utc_datetime ms)"

definition utc_zoned :: "rstring \<Rightarrow> civil_datetime \<Rightarrow> (civil_datetime \<times> int) option" where
  "utc_zoned _ dt = Some (dt, civil_date_days (dt_date dt) * 86400000
     + dt_hour dt * 3600000 + dt_minute dt * 60000 + dt_second dt * 1000
     + dt_subsec_nanosecond dt div 1000000)"

definition utc_add_days :: "civil_date \<Rightarrow> int \<Rightarrow> civil_date option" where
  "utc_add_days d n =
     (let (y, m, dd) = civil_from_days (civil_date_days d + n)
      in Some \<lparr>cd_year = y, cd_month = m, cd_day = dd\<rparr>)"

definition utc_weekday :: "civil_date \<Rightarrow> weekday" where
  "utc_weekday d = weekdays_all ! nat ((civil_date_days d + 3) mod 7)"

definition is_utc :: "rstring \<Rightarrow> bool" where "is_utc zone \<longleftrightarrow> zone = ''UTC''"

definition no_solar_event :: "int \<times> int \<times> int \<Rightarrow> f64 \<Rightarrow> f64 \<Rightarrow> f64 \<Rightarrow> int option" where
  "no_solar_event _ _ _ _ = None"

definition no_solar_position :: "int \<Rightarrow> f64 \<Rightarrow> f64 \<Rightarrow> f64 \<times> f64" where
  "no_solar_position _ _ _ = (F64 0, F64 0)"

definition utc_services :: time_services where
  "utc_services =
     \<lparr>ts_features = \<lparr>feature_timezones = False, feature_astronomy = False, feature_http_inputs = False,
        feature_webhook_inputs = False\<rparr>,
      tz_get = is_utc, tz_local = utc_local, tz_zoned = utc_zoned,
      date_add_days = utc_add_days, date_weekday = utc_weekday,
      solar_event_morning = no_solar_event, solar_event_evening = no_solar_event,
      solar_position = no_solar_position\<rparr>"

definition monday_morning :: schedule_rule where
  "monday_morning =
     RuleFixed \<lparr>lt_hour = 6, lt_minute = 30, lt_second = 0\<rparr> (WeekdaySet [Monday])"

lemma monday_morning_example:
  "next_occurrence_after utc_services monday_morning default_site 0 = Some 369000000"
  by code_simp

text \<open>
  A site where dawn breaks at six on the first days of 1970, and whose zone has no local times
  after that; its dates count the days of January onwards.
\<close>

fun six_oclock :: "int \<times> int \<times> int \<Rightarrow> f64 \<Rightarrow> f64 \<Rightarrow> f64 \<Rightarrow> int option" where
  "six_oclock date _ _ _ = Some (days_of_civil date * 86400000 + 21600000)"

definition january_zoned :: "rstring \<Rightarrow> civil_datetime \<Rightarrow> (civil_datetime \<times> int) option" where
  "january_zoned tz dt = (if cd_day (dt_date dt) \<le> 3 then utc_zoned tz dt else None)"

definition january_add_days :: "civil_date \<Rightarrow> int \<Rightarrow> civil_date option" where
  "january_add_days d n = Some (d\<lparr>cd_day := cd_day d + n\<rparr>)"

definition sunny_services :: time_services where
  "sunny_services =
     \<lparr>ts_features = \<lparr>feature_timezones = False, feature_astronomy = True, feature_http_inputs = False,
        feature_webhook_inputs = False\<rparr>,
      tz_get = is_utc, tz_local = utc_local, tz_zoned = january_zoned,
      date_add_days = january_add_days, date_weekday = utc_weekday,
      solar_event_morning = six_oclock, solar_event_evening = no_solar_event,
      solar_position = no_solar_position\<rparr>"

definition equator_site :: site_time_config where
  "equator_site = \<lparr>site_timezone = utc_zone,
     site_coordinates = Some \<lparr>latitude = F64 0, longitude = F64 0\<rparr>\<rparr>"

lemma dawn_example:
  "next_occurrence_after sunny_services (RuleAstronomical Dawn (- 3600) (WeekdaySet [Friday]))
     equator_site 0 = Some 104400000"
  by code_simp

subsection \<open>What an occurrence is\<close>

lemma ceiling_div:
  fixes n e :: int
  assumes "0 < e"
  defines "k \<equiv> n div e + (if n mod e \<noteq> 0 then 1 else 0)"
  shows "n \<le> k * e" and "k * e < n + e"
proof -
  define q r where "q = n div e" and "r = n mod e"
  have n: "n = q * e + r" by (simp add: q_def r_def)
  have r: "0 \<le> r" "r < e" using assms(1) by (simp_all add: r_def)
  have k: "k * e = (if r \<noteq> 0 then q * e + e else q * e)"
    by (simp add: k_def distrib_right flip: q_def r_def)
  show "n \<le> k * e" and "k * e < n + e" unfolding k n using r assms(1) by auto
qed

text \<open>The phase of an interval rule: whole periods from its offset.\<close>

definition interval_phase :: "u32 \<Rightarrow> u32 \<Rightarrow> int \<Rightarrow> bool" where
  "interval_phase every offset t \<longleftrightarrow>
     (\<exists>k. t = (uint offset + k * uint every) * 1000)"

lemma interval_next_shape:
  assumes "0 < every" and "is_i64 after" and "after + uint every * 1000 \<le> i64_max"
  obtains k where "interval_next every offset after = Some ((uint offset + k * uint every) * 1000)"
    and "after < (uint offset + k * uint every) * 1000"
    and "after div 1000 + 1 \<le> uint offset + k * uint every"
    and "(uint offset + (k - 1) * uint every) * 1000 \<le> after"
proof -
  define e where "e = uint every"
  define n where "n = after div 1000 + 1 - uint offset"
  define k where "k = n div e + (if n mod e \<noteq> 0 then 1 else 0)"
  have e: "0 < e" using assms(1) by (simp add: e_def word_less_def)
  note ceil = ceiling_div [OF e, of n, folded k_def]
  have base: "after div 1000 * 1000 \<le> after" "after < after div 1000 * 1000 + 1000"
    using div_bounds [of 1000 after] by simp_all
  have lower: "after div 1000 + 1 \<le> uint offset + k * e" using ceil(1) by (simp add: n_def)
  have later: "after < (uint offset + k * e) * 1000" using lower base by simp
  have "uint offset + k * e < after div 1000 + 1 + e" using ceil(2) by (simp add: n_def)
  then have prev: "(uint offset + (k - 1) * e) * 1000 \<le> after"
    using base by (simp add: left_diff_distrib)
  then have "(uint offset + k * e) * 1000 \<le> i64_max"
    using assms(3) by (simp add: e_def left_diff_distrib)
  moreover have "i64_min \<le> (uint offset + k * e) * 1000"
    using later assms(2) by (simp add: is_i64_def)
  ultimately have "is_i64 ((uint offset + k * e) * 1000)" by (simp add: is_i64_def)
  then have "interval_next every offset after = Some ((uint offset + k * e) * 1000)"
    using e by (simp add: interval_next_def Let_def saturate_i64_id flip: e_def n_def k_def)
  then show ?thesis using later lower prev unfolding e_def by (rule that)
qed

text \<open>
  The next occurrence of an interval rule: for an instant that is not within one period of
  the end of the 64-bit range it exists, lies strictly after the instant, is on the rule's
  absolute UTC phase, and is the earliest such time.
\<close>

theorem interval_next_least:
  assumes "0 < every" and "is_i64 after" and "after + uint every * 1000 \<le> i64_max"
  shows "\<exists>t. next_occurrence_after ts (RuleInterval every offset) site after = Some t
    \<and> after < t \<and> interval_phase every offset t
    \<and> (\<forall>s. after < s \<and> interval_phase every offset s \<longrightarrow> t \<le> s)"
proof -
  obtain k where k: "interval_next every offset after = Some ((uint offset + k * uint every) * 1000)"
      "after < (uint offset + k * uint every) * 1000"
      "(uint offset + (k - 1) * uint every) * 1000 \<le> after"
    using interval_next_shape [OF assms] by metis
  have e: "0 < uint every" using assms(1) by (simp add: word_less_def)
  have "(uint offset + k * uint every) * 1000 \<le> (uint offset + j * uint every) * 1000"
    if "after < (uint offset + j * uint every) * 1000" for j
  proof -
    have "(uint offset + (k - 1) * uint every) * 1000 < (uint offset + j * uint every) * 1000"
      using k(3) that by (rule order_le_less_trans)
    then have "(k - 1) * uint every < j * uint every" by simp
    then have "k \<le> j" using e by simp
    then show ?thesis using e by simp
  qed
  with k show ?thesis by (auto simp: interval_phase_def)
qed

theorem interval_next_least_witness:
  "\<exists>t. next_occurrence_after utc_services (RuleInterval 60 15) default_site 1700000000123 = Some t
    \<and> 1700000000123 < t \<and> interval_phase 60 15 t
    \<and> (\<forall>s. 1700000000123 < s \<and> interval_phase 60 15 s \<longrightarrow> t \<le> s)"
  by (rule interval_next_least) (simp_all add: is_i64_def i64_bounds)

text \<open>
  At the end of the 64-bit range the saturating multiplication breaks the promise of a
  strictly later occurrence: asked for the next occurrence after the last instant, an interval
  rule answers with that same instant.
\<close>

theorem interval_saturates_not_after:
  "next_occurrence_after ts (RuleInterval 60 0) site i64_max = Some i64_max"
  by (simp add: interval_next_def Let_def i64_bounds saturate_i64_def)

lemma resolve_local_Some:
  "resolve_local ts dt tz = Some ms \<longleftrightarrow> tz_zoned ts tz dt = Some (dt, ms)"
  by (auto simp: resolve_local_def split: option.splits)

text \<open>The candidates a fixed rule considers, and the one its search returns.\<close>

definition fixed_candidate ::
  "time_services \<Rightarrow> local_time \<Rightarrow> weekday_set \<Rightarrow> rstring \<Rightarrow> civil_date \<Rightarrow> int \<Rightarrow> int \<Rightarrow> bool" where
  "fixed_candidate ts tod weekdays tz baseline day t \<longleftrightarrow>
     (\<exists>d. date_add_days ts baseline day = Some d
        \<and> weekday_set_contains weekdays (date_weekday ts d)
        \<and> tz_zoned ts tz (at_time d (uint (lt_hour tod)) (uint (lt_minute tod)) (uint (lt_second tod)))
          = Some (at_time d (uint (lt_hour tod)) (uint (lt_minute tod)) (uint (lt_second tod)), t))"

lemma fixed_search_Some:
  assumes "fixed_search ts tod weekdays tz baseline after (map f xs) = Some t"
  shows "after < t \<and> (\<exists>i < length xs. fixed_candidate ts tod weekdays tz baseline (f (xs ! i)) t \<and>
    (\<forall>j < i. \<forall>s. fixed_candidate ts tod weekdays tz baseline (f (xs ! j)) s \<longrightarrow> s \<le> after))"
  using assms
proof (induction xs)
  case (Cons x xs)
  let ?c = "fixed_candidate ts tod weekdays tz baseline"
  consider (here) "after < t" "?c (f x) t"
    | (later) "fixed_search ts tod weekdays tz baseline after (map f xs) = Some t"
        "\<And>s. ?c (f x) s \<Longrightarrow> s \<le> after"
    using Cons.prems
    by (force simp: fixed_candidate_def resolve_local_def split: option.splits if_splits)
  then show ?case
  proof cases
    case here
    then show ?thesis by (intro conjI exI [of _ 0]) auto
  next
    case later
    from Cons.IH [OF later(1)] obtain i where i: "after < t" "i < length xs" "?c (f (xs ! i)) t"
      "\<And>j s. j < i \<Longrightarrow> ?c (f (xs ! j)) s \<Longrightarrow> s \<le> after" by blast
    have "\<forall>j < Suc i. \<forall>s. ?c (f ((x # xs) ! j)) s \<longrightarrow> s \<le> after"
      using i(4) later(2) by (auto simp: less_Suc_eq_0_disj)
    with i show ?thesis by (intro conjI exI [of _ "Suc i"]) auto
  qed
qed simp

definition astronomical_candidate ::
  "time_services \<Rightarrow> solar_anchor \<Rightarrow> int \<Rightarrow> weekday_set \<Rightarrow> rstring \<Rightarrow> coordinates \<Rightarrow> civil_date
     \<Rightarrow> int \<Rightarrow> int \<Rightarrow> bool" where
  "astronomical_candidate ts anchor offset weekdays tz coords baseline day t \<longleftrightarrow>
     (\<exists>d. date_add_days ts baseline day = Some d
        \<and> astronomical_occurrence ts d anchor offset weekdays tz coords = Some t)"

lemma astronomical_search_step:
  assumes "astronomical_search ts anchor offset weekdays tz coords baseline after best (x # days) = Some t"
  defines "c \<equiv> astronomical_candidate ts anchor offset weekdays tz coords baseline"
  obtains best' where
    "astronomical_search ts anchor offset weekdays tz coords baseline after best' days = Some t"
    "best' = best \<or> (\<exists>s. best' = Some s \<and> c x s \<and> after < s \<and> (\<forall>b. best = Some b \<longrightarrow> s \<le> b))"
    "\<And>s. c x s \<Longrightarrow> after < s \<Longrightarrow> \<exists>b'. best' = Some b' \<and> b' \<le> s"
proof -
  obtain d where d: "date_add_days ts baseline x = Some d"
    using assms(1) by (auto split: option.splits)
  define occ where "occ = astronomical_occurrence ts d anchor offset weekdays tz coords"
  define best' where "best' = (case occ of None \<Rightarrow> best
    | Some candidate \<Rightarrow> if after < candidate
        \<and> (case best of None \<Rightarrow> True | Some current \<Rightarrow> candidate < current)
      then Some candidate else best)"
  have cx: "c x s \<longleftrightarrow> occ = Some s" for s by (simp add: c_def astronomical_candidate_def d occ_def)
  show ?thesis
  proof (rule that [of best'])
    show "astronomical_search ts anchor offset weekdays tz coords baseline after best' days = Some t"
      using assms(1) d by (auto simp: best'_def occ_def split: option.splits)
  qed (auto simp: best'_def cx split: option.splits)
qed

lemma astronomical_search_Some:
  assumes "astronomical_search ts anchor offset weekdays tz coords baseline after best days = Some t"
  defines "c \<equiv> astronomical_candidate ts anchor offset weekdays tz coords baseline"
  shows "(best = Some t \<or> (after < t \<and> (\<exists>day \<in> set days. c day t))) \<and>
    (\<forall>b. best = Some b \<longrightarrow> t \<le> b) \<and> (\<forall>day \<in> set days. \<forall>s. c day s \<and> after < s \<longrightarrow> t \<le> s)"
  using assms(1)
proof (induction days arbitrary: best)
  case (Cons x days)
  obtain best' where
    rest: "astronomical_search ts anchor offset weekdays tz coords baseline after best' days = Some t"
    and upd: "best' = best \<or>
      (\<exists>s. best' = Some s \<and> c x s \<and> after < s \<and> (\<forall>b. best = Some b \<longrightarrow> s \<le> b))"
    and new: "\<And>s. c x s \<Longrightarrow> after < s \<Longrightarrow> \<exists>b'. best' = Some b' \<and> b' \<le> s"
    using astronomical_search_step [OF Cons.prems] unfolding c_def by metis
  have IH: "best' = Some t \<or> after < t \<and> (\<exists>day \<in> set days. c day t)"
    "\<And>b. best' = Some b \<Longrightarrow> t \<le> b"
    "\<And>day s. day \<in> set days \<Longrightarrow> c day s \<Longrightarrow> after < s \<Longrightarrow> t \<le> s"
    using Cons.IH [OF rest] by blast+
  have "best = Some t \<or> after < t \<and> (\<exists>day \<in> set (x # days). c day t)"
    using IH(1) upd by auto
  moreover have "t \<le> b" if "best = Some b" for b
    using upd IH(2) that order_trans by blast
  moreover have "t \<le> s" if "c x s" "after < s" for s
    using new [OF that] IH(2) order_trans by blast
  ultimately show ?case using IH(3) by auto
qed auto

lemma next_occurrence_later:
  assumes "next_occurrence_after ts rule site after = Some t"
    and "\<And>every offset. rule = RuleInterval every offset \<Longrightarrow>
      is_i64 after \<and> after + uint every * 1000 \<le> i64_max"
  shows "after < t"
proof (cases rule)
  case (RuleFixed tod weekdays)
  with assms(1) obtain tz baseline where
    "fixed_search ts tod weekdays tz baseline after (map (\<lambda>d. d) [0..search_day_limit - 1]) = Some t"
    by (auto split: if_splits option.splits)
  from fixed_search_Some [OF this] show ?thesis by simp
next
  case (RuleInterval every offset)
  then have "0 < every"
    using assms(1) by (auto simp: interval_next_def Let_def word_neq_0_conv [symmetric] split: if_splits)
  from interval_next_shape [OF this] assms(2) [OF RuleInterval] assms(1) RuleInterval
  show ?thesis by (metis next_occurrence_after.simps(2) option.inject)
next
  case (RuleAstronomical anchor offset weekdays)
  with assms(1) obtain tz coords baseline where
    "astronomical_search ts anchor offset weekdays tz coords baseline after None
       [- 1..search_day_limit - 1] = Some t"
    by (auto split: if_splits option.splits)
  from astronomical_search_Some [OF this] show ?thesis by simp
qed

text \<open>
  C38. Occurrences make progress: whatever the rule, the site, the time-zone database and the
  solar model, the next occurrence lies strictly after the instant asked about.  An interval
  rule needs the instant to be at least one period before the end of the 64-bit range; the
  calendar rules need no assumption.
\<close>

theorem next_occurrence_strictly_after:
  assumes "next_occurrence_after ts rule site after = Some t"
    and "\<And>every offset. rule = RuleInterval every offset \<Longrightarrow>
      is_i64 after \<and> after + uint every * 1000 \<le> i64_max"
  shows "after < t"
  using assms by (rule next_occurrence_later)

theorem next_occurrence_strictly_after_witness: "(0 :: int) < 369000000"
  by (rule next_occurrence_strictly_after [OF monday_morning_example])
    (simp add: monday_morning_def)

text \<open>
  A fixed rule fires on the first day that allows it: the occurrence is a local time of
  day of the rule, on a day of its weekday set within the 370-day window, not in a
  daylight-saving gap, and no earlier day of the window had an occurrence still to come.
\<close>

theorem fixed_occurrence_is_first:
  assumes "next_occurrence_after ts (RuleFixed tod weekdays) site after = Some t"
  shows "\<exists>tz baseline n. timezone_for ts (site_timezone site) = Some tz
    \<and> local_date_of_utc ts tz after = Some baseline \<and> n < 370
    \<and> fixed_candidate ts tod weekdays tz baseline (int n) t
    \<and> (\<forall>j < n. \<forall>s. fixed_candidate ts tod weekdays tz baseline (int j) s \<longrightarrow> s \<le> after)"
proof -
  obtain tz baseline where tz: "timezone_for ts (site_timezone site) = Some tz"
    "local_date_of_utc ts tz after = Some baseline"
    and "fixed_search ts tod weekdays tz baseline after (map (\<lambda>d. d) [0..search_day_limit - 1]) = Some t"
    using assms by (auto split: if_splits option.splits)
  from fixed_search_Some [OF this(3)] obtain i where i: "i < length [0..search_day_limit - 1]"
    "fixed_candidate ts tod weekdays tz baseline ([0..search_day_limit - 1] ! i) t"
    "\<And>j s. j < i \<Longrightarrow> fixed_candidate ts tod weekdays tz baseline ([0..search_day_limit - 1] ! j) s
      \<Longrightarrow> s \<le> after" by blast
  have n: "i < 370" using i(1) by (simp add: search_day_limit_def)
  have "[0..search_day_limit - 1] ! j = int j" if "j < 370" for j
    using that nth_upto [of 0 j "search_day_limit - 1"]
    by (simp add: search_day_limit_def)
  then show ?thesis using tz i(2,3) n by (metis order.strict_trans)
qed

theorem fixed_occurrence_is_first_witness:
  "\<exists>tz baseline n. timezone_for utc_services (site_timezone default_site) = Some tz
    \<and> local_date_of_utc utc_services tz 0 = Some baseline \<and> n < 370
    \<and> fixed_candidate utc_services \<lparr>lt_hour = 6, lt_minute = 30, lt_second = 0\<rparr>
        (WeekdaySet [Monday]) tz baseline (int n) 369000000
    \<and> (\<forall>j < n. \<forall>s. fixed_candidate utc_services \<lparr>lt_hour = 6, lt_minute = 30, lt_second = 0\<rparr>
        (WeekdaySet [Monday]) tz baseline (int j) s \<longrightarrow> s \<le> 0)"
  by (rule fixed_occurrence_is_first [OF monday_morning_example [unfolded monday_morning_def]])

text \<open>
  An astronomical rule fires at the earliest of its candidates: the occurrence comes from
  a day of the window from one day before to 369 days after the local date, and every other
  candidate of that window that is still to come is no earlier, even when offsets carry
  occurrences across midnight.
\<close>

theorem astronomical_occurrence_is_least:
  assumes "next_occurrence_after ts (RuleAstronomical anchor offset weekdays) site after = Some t"
  shows "\<exists>tz coords baseline. timezone_for ts (site_timezone site) = Some tz
    \<and> site_coordinates site = Some coords \<and> local_date_of_utc ts tz after = Some baseline
    \<and> (\<exists>day \<in> {- 1..369}. astronomical_candidate ts anchor offset weekdays tz coords baseline day t)
    \<and> (\<forall>day \<in> {- 1..369}. \<forall>s. astronomical_candidate ts anchor offset weekdays tz coords baseline day s
         \<and> after < s \<longrightarrow> t \<le> s)"
proof -
  obtain tz coords baseline where tz: "timezone_for ts (site_timezone site) = Some tz"
    "site_coordinates site = Some coords" "local_date_of_utc ts tz after = Some baseline"
    and "astronomical_search ts anchor offset weekdays tz coords baseline after None
      [- 1..search_day_limit - 1] = Some t"
    using assms by (auto split: if_splits option.splits)
  from astronomical_search_Some [OF this(4)] tz show ?thesis
    by (auto simp: search_day_limit_def)
qed

theorem astronomical_occurrence_is_least_witness:
  "\<exists>tz coords baseline. timezone_for sunny_services (site_timezone equator_site) = Some tz
    \<and> site_coordinates equator_site = Some coords
    \<and> local_date_of_utc sunny_services tz 0 = Some baseline
    \<and> (\<exists>day \<in> {- 1..369}. astronomical_candidate sunny_services Dawn (- 3600)
         (WeekdaySet [Friday]) tz coords baseline day 104400000)
    \<and> (\<forall>day \<in> {- 1..369}. \<forall>s. astronomical_candidate sunny_services Dawn (- 3600)
         (WeekdaySet [Friday]) tz coords baseline day s \<and> 0 < s \<longrightarrow> 104400000 \<le> s)"
  by (rule astronomical_occurrence_is_least [OF dawn_example])

end
