(* ===== verification/Time_Context.thy ===== *)
theory Time_Context
  imports Schedule_Rules
begin

text \<open>
  The frozen wall-clock context of \<open>schedule_rules.rs\<close> that a handler receives as its fifth
  argument: the civil date-time values with their hidden instants, the comparison functions
  Lua calls on them, and the local-time strings they compare with.
\<close>

record date_time_value =
  dv_available :: bool
  dv_year :: "int option"
  dv_month :: "u8 option"
  dv_day :: "u8 option"
  dv_hour :: "u8 option"
  dv_minute :: "u8 option"
  dv_second :: "u8 option"
  dv_weekday :: "weekday option"
  dv_instant :: "int option"

definition date_time_unavailable :: date_time_value where
  "date_time_unavailable =
     \<lparr>dv_available = False, dv_year = None, dv_month = None, dv_day = None, dv_hour = None,
      dv_minute = None, dv_second = None, dv_weekday = None, dv_instant = None\<rparr>"

record sun_context =
  sun_dawn :: date_time_value
  sun_sunrise :: date_time_value
  sun_sunset :: date_time_value
  sun_dusk :: date_time_value
  sun_elevation_degrees :: "f64 option"
  sun_azimuth_degrees :: "f64 option"

definition sun_unavailable :: sun_context where
  "sun_unavailable =
     \<lparr>sun_dawn = date_time_unavailable, sun_sunrise = date_time_unavailable,
      sun_sunset = date_time_unavailable, sun_dusk = date_time_unavailable,
      sun_elevation_degrees = None, sun_azimuth_degrees = None\<rparr>"

record time_context =
  tc_now :: date_time_value
  tc_sun :: sun_context

definition time_context_unavailable :: time_context where
  "time_context_unavailable = \<lparr>tc_now = date_time_unavailable, tc_sun = sun_unavailable\<rparr>"

definition date_time_of :: "time_services \<Rightarrow> civil_datetime \<Rightarrow> int \<Rightarrow> date_time_value" where
  "date_time_of ts dt utc_ms =
     \<lparr>dv_available = True, dv_year = Some (cd_year (dt_date dt)),
      dv_month = Some (word_of_int (cd_month (dt_date dt))),
      dv_day = Some (word_of_int (cd_day (dt_date dt))),
      dv_hour = Some (word_of_int (dt_hour dt)),
      dv_minute = Some (word_of_int (dt_minute dt)),
      dv_second = Some (word_of_int (dt_second dt)),
      dv_weekday = Some (date_weekday ts (dt_date dt)), dv_instant = Some utc_ms\<rparr>"

definition date_time_value_at :: "time_services \<Rightarrow> rstring \<Rightarrow> int \<Rightarrow> date_time_value" where
  "date_time_value_at ts tz utc_ms =
     (case tz_local ts tz utc_ms of
        Some dt \<Rightarrow> date_time_of ts dt utc_ms
      | None \<Rightarrow> date_time_unavailable)"

definition event_value ::
  "time_services \<Rightarrow> rstring \<Rightarrow> civil_date \<Rightarrow> coordinates \<Rightarrow> f64 \<Rightarrow> bool \<Rightarrow> date_time_value" where
  "event_value ts tz date coords threshold evening =
     (case solar_event_for_local_date ts tz date (latitude coords) (longitude coords)
        threshold evening of
        Some utc_ms \<Rightarrow> date_time_value_at ts tz utc_ms
      | None \<Rightarrow> date_time_unavailable)"

definition capture_sun ::
  "time_services \<Rightarrow> rstring \<Rightarrow> civil_date \<Rightarrow> coordinates option \<Rightarrow> int \<Rightarrow> sun_context" where
  "capture_sun ts tz date coords utc =
     (case coords of
        None \<Rightarrow> sun_unavailable
      | Some c \<Rightarrow>
          if \<not> feature_astronomy (ts_features ts) then sun_unavailable
          else
            let pos = solar_position ts utc (latitude c) (longitude c)
            in \<lparr>sun_dawn = event_value ts tz date c dawn_threshold_degrees False,
                sun_sunrise = event_value ts tz date c sunrise_threshold_degrees False,
                sun_sunset = event_value ts tz date c sunrise_threshold_degrees True,
                sun_dusk = event_value ts tz date c dawn_threshold_degrees True,
                sun_elevation_degrees = Some (fst pos),
                sun_azimuth_degrees = Some (snd pos)\<rparr>)"

definition time_context_capture ::
  "time_services \<Rightarrow> site_time_config \<Rightarrow> int option \<Rightarrow> time_context" where
  "time_context_capture ts site utc_unix_ms =
     (case utc_unix_ms of
        None \<Rightarrow> time_context_unavailable
      | Some utc \<Rightarrow>
          case timezone_for ts (site_timezone site) of
            None \<Rightarrow> time_context_unavailable
          | Some tz \<Rightarrow>
              case tz_local ts tz utc of
                None \<Rightarrow> time_context_unavailable
              | Some now \<Rightarrow>
                  \<lparr>tc_now = date_time_of ts now utc,
                   tc_sun = capture_sun ts tz (dt_date now) (site_coordinates site) utc\<rparr>)"

definition unavailable_time_context :: "time_services \<Rightarrow> time_context" where
  "unavailable_time_context ts = time_context_capture ts default_site None"

subsection \<open>Comparisons from Lua\<close>

text \<open>
  The operands a metamethod can see.  Another userdata does not borrow as a date-time value.
\<close>

datatype compare_operand =
    OperandDateTime date_time_value
  | OperandOtherUserdata
  | OperandString rstring
  | OperandOther

text \<open>The error of a malformed time keeps the offending string.\<close>

datatype local_time_error = InvalidLocalTimeText rstring

definition parse_two_digits :: "rstring \<Rightarrow> int option" where
  "parse_two_digits s =
     (if length s = 2 \<and> is_ascii_digit (s ! 0) \<and> is_ascii_digit (s ! 1)
      then Some (int (byte (s ! 0) - 48) * 10 + int (byte (s ! 1) - 48))
      else None)"

definition local_time_fields :: "rstring \<Rightarrow> int option list" where
  "local_time_fields b =
     (if length b = 5 then
        [parse_two_digits (take 2 b), parse_two_digits (take 2 (drop 3 b)), Some 0]
      else if length b = 8 then
        [parse_two_digits (take 2 b), parse_two_digits (take 2 (drop 3 b)),
         parse_two_digits (take 2 (drop 6 b))]
      else [None, None, None])"

definition byte_at :: "rstring \<Rightarrow> nat \<Rightarrow> char option" where
  "byte_at s i = (if i < length s then Some (s ! i) else None)"

definition parse_local_time_string :: "rstring \<Rightarrow> local_time_error + int" where
  "parse_local_time_string b =
     (let valid_separators = (byte_at b 2 = Some (CHR '':'') \<and>
            (length b = 5 \<or> byte_at b 5 = Some (CHR '':'')))
      in case local_time_fields b of
           [Some hour, Some minute, Some second] \<Rightarrow>
             if \<not> valid_separators \<or> 23 < hour \<or> 59 < minute \<or> 59 < second
             then Inl (InvalidLocalTimeText b)
             else Inr (hour * 3600 + minute * 60 + second)
         | _ \<Rightarrow> Inl (InvalidLocalTimeText b))"

definition local_seconds :: "date_time_value \<Rightarrow> int option" where
  "local_seconds v =
     (if \<not> dv_available v then None
      else case (dv_hour v, dv_minute v, dv_second v) of
        (Some h, Some m, Some s) \<Rightarrow> Some (uint h * 3600 + uint m * 60 + uint s)
      | _ \<Rightarrow> None)"

definition compare_date_time_values ::
  "compare_operand \<Rightarrow> compare_operand \<Rightarrow> (int \<Rightarrow> int \<Rightarrow> bool) \<Rightarrow> bool" where
  "compare_date_time_values left right compare =
     (case (left, right) of
        (OperandDateTime l, OperandDateTime r) \<Rightarrow>
          (case (dv_instant l, dv_instant r) of
             (Some a, Some b) \<Rightarrow> compare a b
           | _ \<Rightarrow> False)
      | _ \<Rightarrow> False)"

fun operand_seconds :: "compare_operand \<Rightarrow> int option" where
  "operand_seconds (OperandDateTime v) = local_seconds v"
| "operand_seconds _ = None"

fun is_userdata :: "compare_operand \<Rightarrow> bool" where
  "is_userdata (OperandDateTime _) = True"
| "is_userdata OperandOtherUserdata = True"
| "is_userdata _ = False"

definition compare_date_time_lua_values ::
  "compare_operand \<Rightarrow> compare_operand \<Rightarrow> (int \<Rightarrow> int \<Rightarrow> bool) \<Rightarrow> local_time_error + bool" where
  "compare_date_time_lua_values left right compare =
     (case (left, right) of
        (OperandString l, OperandString _) \<Rightarrow> Inr False
      | (l, OperandString r) \<Rightarrow>
          if \<not> is_userdata l then Inr False
          else (case operand_seconds l of
             None \<Rightarrow> Inr False
           | Some s \<Rightarrow> result_bind (parse_local_time_string r) (\<lambda>t. Inr (compare s t)))
      | (OperandString l, r) \<Rightarrow>
          if \<not> is_userdata r then Inr False
          else (case operand_seconds r of
             None \<Rightarrow> Inr False
           | Some s \<Rightarrow> result_bind (parse_local_time_string l) (\<lambda>t. Inr (compare t s)))
      | (l, r) \<Rightarrow>
          if is_userdata l \<and> is_userdata r
          then Inr (compare_date_time_values l r compare) else Inr False)"

text \<open>The three metamethods.\<close>

definition date_time_eq :: "compare_operand \<Rightarrow> compare_operand \<Rightarrow> bool" where
  "date_time_eq left right = compare_date_time_values left right (=)"

definition date_time_lt :: "compare_operand \<Rightarrow> compare_operand \<Rightarrow> local_time_error + bool" where
  "date_time_lt left right = compare_date_time_lua_values left right (<)"

definition date_time_le :: "compare_operand \<Rightarrow> compare_operand \<Rightarrow> local_time_error + bool" where
  "date_time_le left right = compare_date_time_lua_values left right (\<le>)"

subsection \<open>Schedule requests, statuses and cursors\<close>

datatype schedule_status_kind =
    StatusActive | StatusPaused | StatusUnavailable rstring | StatusClockError

record schedule_status =
  ss_block_id :: block_id
  ss_name :: schedule_name
  ss_enabled :: bool
  ss_status :: schedule_status_kind
  ss_next_occurrence_utc_ms :: "int option"

datatype time_error =
    ClockUnavailable
  | MonotonicWentBackwards monotonic_ms monotonic_ms
  | TimeUnknownBlock block_id
  | TimeInvariant rstring

record schedule_cursor =
  cur_last_delivered_utc_ms :: "int option"
  cur_next_occurrence_utc_ms :: "int option"
  cur_structural_revision :: u64
  cur_needs_rebaseline :: bool

subsection \<open>Local-time strings\<close>

definition two_digits :: "nat \<Rightarrow> rstring" where
  "two_digits n = zero_pad 2 (decimal n)"

lemma zero_digit: "CHR ''0'' = digit_char 0"
  by code_simp

lemma two_digits_eq: "n < 100 \<Longrightarrow> two_digits n = [digit_char (n div 10), digit_char (n mod 10)]"
  by (cases "n < 10") (simp_all add: two_digits_def zero_pad_def decimal.simps [of n]
      decimal.simps [of "n div 10"] decimal.simps [of 0] zero_digit)

lemma parse_two_digits_round:
  assumes "n < 100"
  shows "parse_two_digits [digit_char (n div 10), digit_char (n mod 10)] = Some (int n)"
proof -
  have d: "n div 10 < 10" "n mod 10 < 10" using assms by simp_all
  have "int (n div 10) * 10 + int (n mod 10) = int n" by (metis of_nat_add of_nat_mult of_nat_numeral div_mult_mod_eq)
  with d show ?thesis
    by (simp add: parse_two_digits_def is_ascii_digit_digit_char byte_digit_char)
qed

text \<open>
  Local-time strings round trip: a time of day written canonically as \<open>HH:MM:SS\<close>, or as
  \<open>HH:MM\<close> on a whole minute, parses to its second of the day.
\<close>

theorem local_time_roundtrip:
  assumes "h < 24" and "m < 60" and "s < 60"
  shows "parse_local_time_string (two_digits h @ '':'' @ two_digits m @ '':'' @ two_digits s)
      = Inr (int h * 3600 + int m * 60 + int s) \<and>
    parse_local_time_string (two_digits h @ '':'' @ two_digits m)
      = Inr (int h * 3600 + int m * 60)"
  using assms parse_two_digits_round [of h] parse_two_digits_round [of m]
    parse_two_digits_round [of s]
  by (simp_all add: parse_local_time_string_def local_time_fields_def two_digits_eq byte_at_def
      numeral_2_eq_2 Let_def)

theorem local_time_roundtrip_witness:
  "parse_local_time_string (two_digits 23 @ '':'' @ two_digits 5 @ '':'' @ two_digits 9)
      = Inr (int 23 * 3600 + int 5 * 60 + int 9) \<and>
   parse_local_time_string (two_digits 23 @ '':'' @ two_digits 5)
      = Inr (int 23 * 3600 + int 5 * 60)"
  by (rule local_time_roundtrip) simp_all

lemma parse_two_digits_range:
  "parse_two_digits b = Some n \<Longrightarrow> 0 \<le> n \<and> n < 100"
  by (auto simp: parse_two_digits_def is_ascii_digit_def split: if_splits)

lemma parse_local_time_range:
  assumes "parse_local_time_string b = Inr t"
  shows "0 \<le> t" and "t < 86400"
  using assms
  by (auto simp: parse_local_time_string_def Let_def local_time_fields_def
      dest!: parse_two_digits_range split: list.splits option.splits if_splits)

text \<open>
  An unavailable date-time value never compares: with a sentinel on either side, equality
  is false and both orderings return false without an error, whatever stands on the other
  side and even when that is a malformed time string.
\<close>

theorem unavailable_never_compares:
  "date_time_eq (OperandDateTime date_time_unavailable) x = False \<and>
   date_time_eq x (OperandDateTime date_time_unavailable) = False \<and>
   date_time_lt (OperandDateTime date_time_unavailable) x = Inr False \<and>
   date_time_lt x (OperandDateTime date_time_unavailable) = Inr False \<and>
   date_time_le (OperandDateTime date_time_unavailable) x = Inr False \<and>
   date_time_le x (OperandDateTime date_time_unavailable) = Inr False"
  by (cases x)
    (auto simp: date_time_eq_def date_time_lt_def date_time_le_def compare_date_time_values_def
      compare_date_time_lua_values_def local_seconds_def date_time_unavailable_def
      split: option.splits)

text \<open>
  Captured contexts are consistent: a context is available exactly when the clock, the time
  zone and the civil conversion all are; an available one carries the sampled instant itself,
  an unavailable one no instant; and a site without coordinates has no sun.
\<close>

theorem capture_consistent:
  "(dv_available (tc_now (time_context_capture ts site utc)) \<longleftrightarrow>
     (\<exists>ms tz dt. utc = Some ms \<and> timezone_for ts (site_timezone site) = Some tz
        \<and> tz_local ts tz ms = Some dt)) \<and>
   dv_instant (tc_now (time_context_capture ts site utc)) =
     (if dv_available (tc_now (time_context_capture ts site utc)) then utc else None) \<and>
   tc_sun (time_context_capture ts (site\<lparr>site_coordinates := None\<rparr>) utc) = sun_unavailable"
  by (auto simp: time_context_capture_def time_context_unavailable_def date_time_unavailable_def
      date_time_of_def capture_sun_def split: option.splits)

lemma capture_no_clock [simp]: "time_context_capture ts site None = time_context_unavailable"
  by (simp add: time_context_capture_def)

end
