(* ===== verification/Logic_Programs.thy ===== *)
theory Logic_Programs
  imports Logic_Errors Time_Context
begin

text \<open>
  \<open>program.rs\<close>, \<open>engine_config.rs\<close> and \<open>lua_sandbox.rs\<close>: source programs and their content
  revisions, the restricted environment a program is loaded in, the budget hook, the
  validation of a source, and the error types of the engine's interface.  The Lua virtual
  machine is the record \<open>lua_vm\<close> of functions the definitions take as an argument.
\<close>

subsection \<open>Lua values\<close>

text \<open>
  A table is what iterating it with \<open>pairs\<close> yields, in the iteration order of the machine.
\<close>

datatype lua_value =
    LNil
  | LBool bool
  | LInteger int \<comment> \<open>\<open>i64\<close>\<close>
  | LNumber f64
  | LString rstring
  | LTable "(mlua_error + lua_value \<times> lua_value) list"
  | LFunction
  | LOther rstring \<comment> \<open>any other type, by its name\<close>

fun lua_type_name :: "lua_value \<Rightarrow> rstring" where
  "lua_type_name LNil = ''nil''"
| "lua_type_name (LBool _) = ''boolean''"
| "lua_type_name (LInteger _) = ''integer''"
| "lua_type_name (LNumber _) = ''number''"
| "lua_type_name (LString _) = ''string''"
| "lua_type_name (LTable _) = ''table''"
| "lua_type_name LFunction = ''function''"
| "lua_type_name (LOther name) = name"

text \<open>
  The machine: creating it under a memory limit, preparing its environment, compiling a
  source, running the chunk, reading the global \<open>handle\<close>, building the arguments of type
  \<open>'a\<close> and calling the handler.  \<open>hook\<close> is what the instruction hook answers to its n-th call.
\<close>

type_synonym hook = "nat \<Rightarrow> mlua_error option"

record 'a lua_vm =
  vm_new :: "runtime_limits \<Rightarrow> mlua_error option"
  vm_environment :: "runtime_limits \<Rightarrow> mlua_error option"
  vm_compile :: "runtime_limits \<Rightarrow> rstring \<Rightarrow> mlua_error option"
  vm_run :: "runtime_limits \<Rightarrow> hook \<Rightarrow> rstring \<Rightarrow> mlua_error option"
  vm_handle :: "runtime_limits \<Rightarrow> hook \<Rightarrow> rstring \<Rightarrow> mlua_error + lua_value"
  vm_arguments :: "runtime_limits \<Rightarrow> 'a \<Rightarrow> mlua_error option"
  vm_call :: "runtime_limits \<Rightarrow> hook \<Rightarrow> rstring \<Rightarrow> 'a \<Rightarrow> mlua_error + lua_value list"
  vm_utf8_error :: "rstring \<Rightarrow> mlua_error"

definition vm_check :: "mlua_error option \<Rightarrow> lua_phase \<Rightarrow> logic_error + unit" where
  "vm_check r phase = (case r of None \<Rightarrow> Inr () | Some e \<Rightarrow> Inl (map_lua_error e phase))"

subsection \<open>The sandbox\<close>

text \<open>\<open>u64 as f64\<close>, \<open>u32::MAX as f64\<close>\<close>

definition u32_max_f64 :: f64 where "u32_max_f64 = F64 4294967295"

definition duration_helper :: "u64 \<Rightarrow> lua_value \<Rightarrow> mlua_error + int" where
  "duration_helper factor v =
     result_bind
       (case v of
          LInteger n \<Rightarrow> Inr (f64_of_int n)
        | LNumber x \<Rightarrow> Inr x
        | other \<Rightarrow> Inl (OtherLuaError
            (''duration helper expects a positive finite number, got '' @ lua_type_name other)))
       (\<lambda>number.
         if \<not> f64_is_finite number \<or> f64_le number (F64 0)
         then Inl (OtherLuaError ''duration helper expects a positive finite number'')
         else
           let milliseconds = f64_mul number (f64_of_int (uint factor))
           in if \<not> f64_is_finite milliseconds \<or> f64_lt milliseconds (F64 1)
                 \<or> f64_has_fract milliseconds \<or> f64_lt u32_max_f64 milliseconds
              then Inl (OtherLuaError
                ''duration helper result must be a whole millisecond in range 1..=u32::MAX'')
              else Inr (f64_as_int i64_min i64_max milliseconds))"

datatype sandbox_entry =
    SandboxGlobal rstring
  | SandboxSafeNext
  | SandboxDuration u64
  | SandboxReadonly "(lua_value \<times> lua_value) list"

definition safe_base :: "rstring list" where
  "safe_base = [''assert'', ''error'', ''ipairs'', ''pairs'', ''select'', ''tonumber'',
     ''tostring'', ''type'']"

definition restricted_environment :: "(rstring \<times> sandbox_entry) list" where
  "restricted_environment =
     map (\<lambda>n. (n, SandboxGlobal n)) safe_base
     @ map (\<lambda>n. (n, SandboxGlobal n)) [''math'', ''string'', ''table'', ''utf8'']
     @ [(''next'', SandboxSafeNext),
        (''seconds'', SandboxDuration 1000), (''minutes'', SandboxDuration 60000),
        (''hours'', SandboxDuration 3600000), (''days'', SandboxDuration 86400000),
        (''weekdays'', SandboxReadonly (concat (map
           (\<lambda>w. [(LInteger (int (weekday_index w) + 1), LString (weekday_display w)),
                 (LString (weekday_display w), LString (weekday_display w))])
           weekdays_all)))]"

text \<open>
  The n-th call of the instruction hook (from 0) sees the saturating 32-bit counter at
  \<open>n + 1\<close>; the time probe is read only when the instruction budget is not exhausted.
\<close>

definition instruction_hook :: "runtime_limits \<Rightarrow> budget_probe option \<Rightarrow> hook" where
  "instruction_hook limits probe n =
     (let next_count = min (n + 1) (2 ^ 32 - 1)
      in if max_logic_instructions limits \<le> next_count
           then Some (OtherLuaError instruction_limit_marker)
         else case (logic_handler_time_budget_ms limits, probe) of
           (Some limit, Some p) \<Rightarrow>
             if limit \<le> p n then Some (OtherLuaError handler_time_limit_marker) else None
         | _ \<Rightarrow> None)"

definition check_source_size_with_limits :: "rstring \<Rightarrow> runtime_limits \<Rightarrow> logic_error + unit" where
  "check_source_size_with_limits source limits =
     (if trim_is_empty source then Inl EmptySource
      else if max_logic_source_bytes_per_block limits < length source
        then Inl (SourceTooLarge (length source) (max_logic_source_bytes_per_block limits))
      else Inr ())"

definition missing_handle :: "lua_value \<Rightarrow> logic_error" where
  "missing_handle v =
     LogicLoad (MsgFormat ''logic.source must define callable handle, got {}''
       [ArgStr (lua_type_name v)]) None"

text \<open>
  \<open>phase\<close> is the one creating the machine is charged to: \<open>Load\<close> when a source is validated,
  \<open>Runtime\<close> when it is executed.
\<close>

definition load_handle ::
  "'a lua_vm \<Rightarrow> lua_phase \<Rightarrow> rstring \<Rightarrow> runtime_limits \<Rightarrow> budget_probe option
     \<Rightarrow> logic_error + unit" where
  "load_handle vm phase source limits probe =
     result_bind (check_source_size_with_limits source limits) (\<lambda>_.
     result_bind (vm_check (vm_new vm limits) phase) (\<lambda>_.
     result_bind (vm_check (vm_environment vm limits) phase) (\<lambda>_.
     result_bind (vm_check (vm_compile vm limits source) PhaseSyntax) (\<lambda>_.
     result_bind (vm_check (vm_run vm limits (instruction_hook limits probe) source) PhaseLoad)
       (\<lambda>_.
     result_bind
       (map_err (\<lambda>e. map_lua_error e PhaseLoad)
          (vm_handle vm limits (instruction_hook limits probe) source))
       (\<lambda>v. case v of LFunction \<Rightarrow> Inr () | _ \<Rightarrow> Inl (missing_handle v)))))))"

definition validate_logic_source_with_limits ::
  "'a lua_vm \<Rightarrow> rstring \<Rightarrow> runtime_limits \<Rightarrow> budget_probe option \<Rightarrow> logic_error + unit" where
  "validate_logic_source_with_limits vm source limits probe =
     load_handle vm PhaseLoad source limits probe"

subsection \<open>Programs\<close>

record logic_program =
  lp_source :: rstring
  lp_revision :: logic_revision

text \<open>FNV-1a over the bytes of the source.\<close>

definition fnv_step :: "u64 \<Rightarrow> char \<Rightarrow> u64" where
  "fnv_step hash b = xor hash (of_nat (byte b)) * 0x100000001b3"

definition revision_for :: "rstring \<Rightarrow> logic_revision" where
  "revision_for source = foldl fnv_step 0xcbf29ce484222325 source"

definition logic_program_new :: "rstring \<Rightarrow> logic_program" where
  "logic_program_new source = \<lparr>lp_source = source, lp_revision = revision_for source\<rparr>"

definition logic_program_try_new_with_limits ::
  "'a lua_vm \<Rightarrow> rstring \<Rightarrow> runtime_limits \<Rightarrow> logic_error + logic_program" where
  "logic_program_try_new_with_limits vm source limits =
     result_bind
       (validate_logic_source_with_limits vm (lp_source (logic_program_new source)) limits None)
       (\<lambda>_. Inr (logic_program_new source))"

subsection \<open>Configuration of one engine\<close>

datatype config_error =
    TooManyEndpoints nat nat
  | DuplicateEndpoint endpoint_name
  | UnsupportedEndpointDpt endpoint_name dpt
  | InvalidLogic logic_error

record engine_config =
  ec_endpoints :: "endpoint list"
  ec_logic :: logic_program

text \<open>The endpoint loop; \<open>seen\<close> are the endpoints before the current one.\<close>

fun validate_endpoints :: "endpoint list \<Rightarrow> endpoint list \<Rightarrow> config_error + unit" where
  "validate_endpoints seen [] = Inr ()"
| "validate_endpoints seen (e # es) =
     (if \<exists>other \<in> set seen. ep_name other = ep_name e then Inl (DuplicateEndpoint (ep_name e))
      else if \<not> dpt_is_supported (ep_dpt e)
        then Inl (UnsupportedEndpointDpt (ep_name e) (ep_dpt e))
      else validate_endpoints (seen @ [e]) es)"

definition revision_mismatch :: logic_error where
  "revision_mismatch =
     LogicLoad (MsgText ''logic source revision does not match its source bytes'') None"

definition engine_config_validate_with_limits ::
  "'a lua_vm \<Rightarrow> engine_config \<Rightarrow> runtime_limits \<Rightarrow> config_error + unit" where
  "engine_config_validate_with_limits vm config limits =
     (if max_endpoints_per_block limits < length (ec_endpoints config)
      then Inl (TooManyEndpoints (length (ec_endpoints config)) (max_endpoints_per_block limits))
      else result_bind (validate_endpoints [] (ec_endpoints config)) (\<lambda>_.
        if lp_revision (ec_logic config) \<noteq> revision_for (lp_source (ec_logic config))
        then Inl (InvalidLogic revision_mismatch)
        else map_err InvalidLogic
          (validate_logic_source_with_limits vm (lp_source (ec_logic config)) limits None)))"

subsection \<open>Errors of the engine's interface\<close>

datatype event_error =
    UnknownEndpoint endpoint_name
  | EndpointNotInput endpoint_name endpoint_direction
  | EventDptMismatch endpoint_name dpt dpt
  | EventInvalidValue value_error
  | TimeWentBackwards monotonic_ms monotonic_ms
  | StaleTimer timer_name logic_revision logic_revision
  | EventPanic rstring \<comment> \<open>a panic of the code, which the callers never see as a value\<close>

record simulation_trigger =
  sim_endpoint :: endpoint_name
  sim_value :: typed_value
  sim_previous :: "typed_value option"

record simulation_input =
  si_endpoint :: endpoint_name
  si_value :: "typed_value option"
  si_valid :: bool
  si_age_ms :: "u64 option"

record simulation_scenario =
  sc_trigger :: simulation_trigger
  sc_inputs :: "simulation_input list"

record timer_simulation_scenario =
  tsc_timer :: timer_name
  tsc_fired_at :: monotonic_ms
  tsc_inputs :: "simulation_input list"
  tsc_state :: transient_state
  tsc_pending_timers :: "pending_timer list"

datatype simulation_error =
    InvalidSource logic_error
  | SimUnknownEndpoint endpoint_name
  | SimEndpointNotInput endpoint_name endpoint_direction
  | DuplicateInput endpoint_name
  | MissingInput endpoint_name
  | SimDptMismatch endpoint_name dpt dpt
  | SimInvalidValue value_error
  | MissingValue endpoint_name
  | UnexpectedValue endpoint_name
  | MissingAge endpoint_name
  | UnexpectedAge endpoint_name
  | TriggerValueMismatch endpoint_name typed_value typed_value
  | TriggerAgeMismatch endpoint_name "u64 option"
  | UnknownTimer timer_name
  | DuplicateTimer timer_name
  | TimerRevisionMismatch timer_name logic_revision logic_revision
  | InvalidState state_error
  | SimTimeWentBackwards monotonic_ms monotonic_ms
  | SimPanic rstring \<comment> \<open>a panic of the code, as above\<close>

text \<open>The pending-timer checks of \<open>state.rs\<close>, which report simulation errors.\<close>

definition validate_pending_timer_map_with_limits ::
  "pending_map \<Rightarrow> logic_revision \<Rightarrow> runtime_limits \<Rightarrow> simulation_error + unit" where
  "validate_pending_timer_map_with_limits timers active limits =
     (if max_pending_timers_per_block limits < length timers
      then Inl (InvalidState
        (TooManyEntries (length timers) (max_pending_timers_per_block limits)))
      else check_all
        (\<lambda>timer.
           if pt_scheduled_logic_revision timer \<noteq> active
           then Inl (TimerRevisionMismatch (pt_name timer) (pt_scheduled_logic_revision timer) active)
           else Inr ())
        (btm_values timers))"

text \<open>The loop that collects timers by name and rejects a second one of a name.\<close>

definition collect_timers :: "pending_timer list \<Rightarrow> simulation_error + pending_map" where
  "collect_timers timers =
     try_fold
       (\<lambda>m timer.
          if btm_contains m (pt_name timer) then Inl (DuplicateTimer (pt_name timer))
          else Inr (btm_insert (pt_name timer) timer m))
       [] timers"

definition validate_pending_timers_with_limits ::
  "pending_timer list \<Rightarrow> logic_revision \<Rightarrow> runtime_limits \<Rightarrow> simulation_error + unit" where
  "validate_pending_timers_with_limits timers active limits =
     result_bind (collect_timers timers)
       (\<lambda>m. validate_pending_timer_map_with_limits m active limits)"

subsection \<open>Revisions\<close>

text \<open>The FNV prime is odd: its inverse modulo \<open>2 ^ 64\<close> makes a step injective.\<close>

lemma fnv_prime_inverse: "(0x100000001b3 :: u64) * 0xce965057aff6957b = 1"
  by simp

lemma fnv_mult_cancel:
  assumes "(x :: u64) * 0x100000001b3 = y * 0x100000001b3"
  shows "x = y"
proof -
  have "x * 0x100000001b3 * 0xce965057aff6957b = y * 0x100000001b3 * 0xce965057aff6957b"
    using assms by (rule arg_cong)
  then show ?thesis by (simp only: mult.assoc fnv_prime_inverse mult_1_right)
qed

lemma xor_cancel_left:
  assumes "xor (h :: u64) a = xor h b"
  shows "a = b"
proof -
  have "xor h (xor h a) = xor h (xor h b)" using assms by simp
  then show ?thesis by (simp flip: xor.assoc)
qed

lemma xor_cancel_right: "xor h (a :: u64) = xor k a \<Longrightarrow> h = k"
  by (rule xor_cancel_left [of a]) (simp add: xor.commute)

lemma fnv_step_inj_hash: "fnv_step h c = fnv_step k c \<Longrightarrow> h = k"
  unfolding fnv_step_def by (rule xor_cancel_right, rule fnv_mult_cancel)

lemma fnv_step_inj_byte:
  assumes "fnv_step h a = fnv_step h b"
  shows "a = b"
proof -
  have "(of_nat (byte a) :: u64) = of_nat (byte b)"
    using assms xor_cancel_left unfolding fnv_step_def by (blast dest: fnv_mult_cancel)
  then have "unat (of_nat (byte a) :: u64) = unat (of_nat (byte b) :: u64)" by simp
  moreover have "byte c < 256" for c by simp
  then have "unat (of_nat (byte c) :: u64) = byte c" for c
    by (simp add: unat_of_nat order_less_trans [of "byte c" 256])
  ultimately show ?thesis by (simp add: of_char_eq_iff)
qed

lemma fnv_fold_inj: "foldl fnv_step h s = foldl fnv_step k s \<Longrightarrow> h = k"
  by (induction s arbitrary: h k) (auto dest: fnv_step_inj_hash)

text \<open>
  An edit of one byte is always noticed: two sources that differ in exactly one byte have
  different content revisions (so the stale-write and activation checks that compare revisions
  cannot confuse them).
\<close>

theorem single_byte_edit_changes_revision:
  assumes "a \<noteq> b"
  shows "revision_for (before @ a # after) \<noteq> revision_for (before @ b # after)"
  using assms fnv_fold_inj fnv_step_inj_byte by (fastforce simp: revision_for_def)

theorem single_byte_edit_changes_revision_witness:
  "revision_for (''x = '' @ CHR ''1'' # '' y'') \<noteq> revision_for (''x = '' @ CHR ''2'' # '' y'')"
  by (rule single_byte_edit_changes_revision) simp

subsection \<open>Budgets\<close>

text \<open>
  The instruction budget is hard: with a budget that fits its 32-bit counter, the hook's
  answer to its n-th call (from 0) is the instruction-limit error exactly when n + 1 has
  reached the budget, whatever the time probe reads; and before that it stops the handler
  exactly when a configured time budget has elapsed.
\<close>

theorem instruction_hook_budget:
  assumes "max_logic_instructions limits < 2 ^ 32"
  shows "instruction_hook limits probe n =
    (if max_logic_instructions limits \<le> n + 1
       then Some (OtherLuaError instruction_limit_marker)
     else if \<exists>limit p. logic_handler_time_budget_ms limits = Some limit \<and> probe = Some p
         \<and> limit \<le> p n
       then Some (OtherLuaError handler_time_limit_marker)
     else None)"
  using assms by (auto simp: instruction_hook_def Let_def min_def split: option.splits)

theorem instruction_hook_budget_witness:
  "instruction_hook embedded_baseline_limits (Some (\<lambda>n. of_nat n)) 2 = None"
  using instruction_hook_budget [of embedded_baseline_limits "Some (\<lambda>n. of_nat n)" 2]
  by (simp add: embedded_baseline_limits_def)

text \<open>
  The sandbox's duration helpers return whole milliseconds in the range of a timer delay:
  every value a helper returns is between 1 and \<open>u32::MAX\<close>.
\<close>

theorem duration_helper_range:
  assumes "duration_helper factor v = Inr ms"
  shows "1 \<le> ms \<and> ms \<le> 4294967295"
proof -
  obtain x where x: "ms = f64_as_int i64_min i64_max x" "f64_is_finite x" "\<not> f64_lt x (F64 1)"
    "\<not> f64_has_fract x" "\<not> f64_lt u32_max_f64 x"
    using assms by (auto simp: duration_helper_def result_simps Let_def split: if_splits)
  then obtain q where q: "x = F64 q" by (cases x) (auto simp: f64_is_finite_def)
  have "of_int \<lfloor>q\<rfloor> = q" using x(4) by (simp add: q f64_has_fract_def)
  then obtain n where n: "q = of_int n" by metis
  have "1 \<le> n" and "n \<le> 4294967295"
    using x(3,5) by (simp_all add: q n u32_max_f64_def not_less)
  then show ?thesis
    using x(1) by (simp add: q n f64_as_int_def truncate_rat_def i64_bounds)
qed

theorem duration_helper_range_witness: "1 \<le> (90000 :: int) \<and> (90000 :: int) \<le> 4294967295"
  by (rule duration_helper_range [of 60000 "LNumber (F64 (3 / 2))"]) code_simp

lemma duration_helper_integer:
  assumes "1 \<le> n" and "n * uint factor \<le> 4294967295" and "factor \<noteq> 0"
  shows "duration_helper factor (LInteger n) = Inr (n * uint factor)"
proof -
  define f where "f = uint factor"
  have "0 < f" using assms(3) by (simp add: f_def order_less_le unsigned_eq_0_iff)
  then have f: "1 \<le> f" by simp
  have one: "1 \<le> n * f" using mult_mono [of 1 n 1 f] assms(1) f by simp
  have "n * 1 \<le> n * f" "1 * f \<le> n * f"
    using assms(1) f by (auto intro: mult_left_mono mult_right_mono)
  moreover have "n * f \<le> 4294967295" using assms(2) by (simp add: f_def)
  ultimately have "n < 9007199254740992" "f < 9007199254740992" "n * f < 9007199254740992"
    by linarith+
  then have "\<bar>n\<bar> < 2 ^ 53" "\<bar>f\<bar> < 2 ^ 53" "\<bar>n * f\<bar> < 2 ^ 53" using assms(1) f one by simp_all
  then have "f64_of_int n = F64 (of_int n)" "f64_of_int f = F64 (of_int f)"
    "f64_round (of_int n * of_int f) = F64 (of_int (n * f))"
    using f64_round_of_int [of "n * f"] by (simp_all add: f64_of_int_def f64_round_of_int)
  then have "duration_helper factor (LInteger n) = Inr (f64_as_int i64_min i64_max (F64 (of_int (n * f))))"
    using assms(1) one assms(2)
    by (simp add: duration_helper_def f64_le_def f64_is_finite_def u32_max_f64_def Let_def
        f64_has_fract_def not_less flip: f_def of_int_mult)
  also have "f64_as_int i64_min i64_max (F64 (of_int (n * f))) = n * f"
    using one assms(2) by (simp add: f64_as_int_def truncate_rat_def i64_bounds flip: f_def of_int_mult)
  finally show ?thesis by (simp add: f_def)
qed

subsection \<open>Validated configurations\<close>

lemma validate_endpoints_ok:
  "validate_endpoints seen es = Inr u \<longleftrightarrow>
   distinct (map ep_name es) \<and> (\<forall>e \<in> set es. \<forall>d \<in> set seen. ep_name d \<noteq> ep_name e)
   \<and> (\<forall>e \<in> set es. dpt_is_supported (ep_dpt e))"
  by (induction es arbitrary: seen) (auto simp: image_iff)

text \<open>The well-formedness a validated engine configuration guarantees.\<close>

definition engine_config_wf :: "engine_config \<Rightarrow> runtime_limits \<Rightarrow> bool" where
  "engine_config_wf config limits \<longleftrightarrow>
     length (ec_endpoints config) \<le> max_endpoints_per_block limits
     \<and> distinct (map ep_name (ec_endpoints config))
     \<and> (\<forall>e \<in> set (ec_endpoints config). dpt_is_supported (ep_dpt e))
     \<and> lp_revision (ec_logic config) = revision_for (lp_source (ec_logic config))"

lemma engine_config_validate_ok:
  "engine_config_validate_with_limits vm config limits = Inr u \<longleftrightarrow>
   engine_config_wf config limits
   \<and> validate_logic_source_with_limits vm (lp_source (ec_logic config)) limits None = Inr ()"
  by (auto simp: engine_config_validate_with_limits_def engine_config_wf_def result_simps
      validate_endpoints_ok)

lemma logic_program_try_new_ok:
  "logic_program_try_new_with_limits vm source limits = Inr p \<longleftrightarrow>
   p = logic_program_new source \<and> validate_logic_source_with_limits vm source limits None = Inr ()"
  by (auto simp: logic_program_try_new_with_limits_def logic_program_new_def result_simps)

lemma load_handle_size:
  "load_handle vm phase source limits probe = Inr u \<Longrightarrow>
   \<not> trim_is_empty source \<and> length source \<le> max_logic_source_bytes_per_block limits"
  by (auto simp: load_handle_def check_source_size_with_limits_def result_simps split: if_splits)

subsection \<open>Supplied timers\<close>

lemma collect_timers_from:
  assumes "try_fold
      (\<lambda>m timer.
         if btm_contains m (pt_name timer) then Inl (DuplicateTimer (pt_name timer))
         else Inr (btm_insert (pt_name timer) timer m)) m0 timers = Inr m"
    and "btm_sorted m0" and "\<forall>(k, t) \<in> set m0. pt_name t = k"
  shows "btm_sorted m \<and> (\<forall>(k, t) \<in> set m. pt_name t = k) \<and> distinct (map pt_name timers)
    \<and> length m = length m0 + length timers
    \<and> (\<forall>k. btm_get m k = (case find (\<lambda>t. pt_name t = k) timers of
          None \<Rightarrow> btm_get m0 k | Some t \<Rightarrow> Some t))
    \<and> (\<forall>t \<in> set timers. btm_get m0 (pt_name t) = None)"
  using assms
proof (induction timers arbitrary: m0)
  case (Cons t ts)
  have fresh: "\<not> btm_contains m0 (pt_name t)"
    using Cons.prems(1) by (auto split: if_splits)
  let ?m1 = "btm_insert (pt_name t) t m0"
  have wf: "\<forall>(k, t) \<in> set ?m1. pt_name t = k"
    using Cons.prems(3) set_btm_insert_subset [of "pt_name t" t m0] by auto
  note IH = Cons.IH [OF _ btm_sorted_insert [OF Cons.prems(2)] wf]
  have IH': "btm_sorted m \<and> (\<forall>(k, t) \<in> set m. pt_name t = k) \<and> distinct (map pt_name ts)
    \<and> length m = length ?m1 + length ts
    \<and> (\<forall>k. btm_get m k = (case find (\<lambda>t. pt_name t = k) ts of
          None \<Rightarrow> btm_get ?m1 k | Some t \<Rightarrow> Some t))
    \<and> (\<forall>t \<in> set ts. btm_get ?m1 (pt_name t) = None)"
    using Cons.prems(1) fresh by (intro IH) simp
  have "pt_name t \<notin> pt_name ` set ts" using IH' by (auto simp: btm_get_insert image_iff)
  moreover from this have "find (\<lambda>u. pt_name u = pt_name t) ts = None"
    unfolding find_None_iff by (metis imageI)
  ultimately show ?case
    using IH' fresh length_btm_insert [OF Cons.prems(2), of "pt_name t" t]
    by (auto simp: btm_get_insert btm_contains_def split: option.splits if_splits)
qed auto

lemma collect_timers_ok:
  assumes "collect_timers timers = Inr m"
  shows "btm_sorted m" and "\<forall>(k, t) \<in> set m. pt_name t = k" and "distinct (map pt_name timers)"
    and "length m = length timers"
    and "btm_get m k = find (\<lambda>t. pt_name t = k) timers"
  using collect_timers_from [OF assms [unfolded collect_timers_def]]
  by (auto split: option.splits)

lemma validate_pending_timer_map_ok:
  "validate_pending_timer_map_with_limits m active limits = Inr u \<longleftrightarrow>
   length m \<le> max_pending_timers_per_block limits
   \<and> (\<forall>t \<in> set (btm_values m). pt_scheduled_logic_revision t = active)"
  by (auto simp: validate_pending_timer_map_with_limits_def result_simps)

lemma collected_pending_ok:
  assumes "collect_timers timers = Inr m"
    and "validate_pending_timer_map_with_limits m active limits = Inr ()"
  shows "pending_ok active m" and "length m \<le> max_pending_timers_per_block limits"
  using collect_timers_ok(1,2) [OF assms(1)] assms(2)
  by (auto simp: pending_ok_def validate_pending_timer_map_ok btm_values_def)

end
