(* ===== verification/Lua_Conversion.thy ===== *)
theory Lua_Conversion
  imports Logic_Programs
begin

text \<open>
  \<open>lua_conversion.rs\<close>: the checked conversion of the value a handler returns into a
  transition.  Every field is validated before any effect is possible: the state patch, the
  outputs by endpoint, the timers by name, and the limits on each and on their sum.
\<close>

type_synonym lua_table = "(mlua_error + lua_value \<times> lua_value) list"

subsection \<open>Scalars\<close>

definition typed_value_to_lua :: "typed_value \<Rightarrow> lua_value" where
  "typed_value_to_lua tv =
     (case tv_value tv of
        VBool b \<Rightarrow> LBool b
      | VPercent p \<Rightarrow> LInteger (uint p)
      | VTemperature c \<Rightarrow> LNumber (centi_to_f64 c))"

fun state_value_to_lua :: "state_value \<Rightarrow> lua_value" where
  "state_value_to_lua (SBool b) = LBool b"
| "state_value_to_lua (SInteger n) = LInteger n"
| "state_value_to_lua (SNumber x) = LNumber x"
| "state_value_to_lua (SString s) = LString s"

definition lua_scalar_to_state :: "'a lua_vm \<Rightarrow> rstring \<Rightarrow> lua_value \<Rightarrow> logic_error + state_value"
  where
  "lua_scalar_to_state vm key v =
     (case v of
        LBool b \<Rightarrow> Inr (SBool b)
      | LInteger n \<Rightarrow> Inr (SInteger n)
      | LNumber x \<Rightarrow>
          if f64_is_finite x then Inr (SNumber x)
          else Inl (invalid_result ''state value {:?} must be finite'' [ArgStr key])
      | LString s \<Rightarrow>
          if utf8_valid s then Inr (SString s)
          else Inl (invalid_result ''state string {:?} is not valid UTF-8: {}''
            [ArgStr key, ArgStr (mlua_display (vm_utf8_error vm s))])
      | other \<Rightarrow> Inl (invalid_result
          ''state value {:?} must be boolean, integer, finite number, or string, got {}''
          [ArgStr key, ArgStr (lua_type_name other)]))"

definition convert_state_value :: "'a lua_vm \<Rightarrow> rstring \<Rightarrow> lua_value \<Rightarrow> logic_error + state_value"
  where
  "convert_state_value vm key v =
     result_bind (lua_scalar_to_state vm key v) (\<lambda>sv.
     result_bind
       (map_err (\<lambda>e. invalid_result ''{}'' [ArgStateError e]) (validate_state_entry key sv))
       (\<lambda>_. Inr sv))"

definition whole_milliseconds :: "f64 \<Rightarrow> logic_error + u32" where
  "whole_milliseconds number =
     (if \<not> f64_is_finite number \<or> f64_le number (F64 0) \<or> f64_has_fract number
         \<or> f64_lt u32_max_f64 number
      then Inl (invalid_result
        ''timer after must be a positive finite whole millisecond in range 1..=u32::MAX'' [])
      else Inr (word_of_int (f64_as_int 0 4294967295 number)))"

definition lua_duration_ms :: "lua_value \<Rightarrow> logic_error + u32" where
  "lua_duration_ms v =
     (case v of
        LInteger n \<Rightarrow>
          if 1 \<le> n \<and> n \<le> 4294967295 then Inr (word_of_int n)
          else whole_milliseconds (f64_of_int n)
      | LNumber x \<Rightarrow> whole_milliseconds x
      | other \<Rightarrow> Inl (invalid_result
          ''timer after must be a positive finite whole millisecond, got {}''
          [ArgStr (lua_type_name other)]))"

text \<open>
  The branch after \<open>typed_percent\<close> stands for the panic of \<open>expect\<close>; it is unreachable, see
  \<open>lua_to_typed_value_ok\<close> below.
\<close>

definition lua_to_percent :: "endpoint \<Rightarrow> lua_value \<Rightarrow> logic_error + typed_value" where
  "lua_to_percent e v =
     (case v of
        LInteger n \<Rightarrow>
          if 0 \<le> n \<and> n \<le> 100
          then map_err (\<lambda>_. invalid_result ''panic: bounded percentage'' [])
            (typed_percent (word_of_int n))
          else Inl (invalid_result ''output {} percentage {} must be in range 0..=100''
            [ArgStr (endpoint_str (ep_name e)), ArgInt n])
      | LNumber x \<Rightarrow>
          if f64_is_nan x \<or> f64_is_infinite x
          then Inl (invalid_result ''output {} percentage must be finite, got {}''
            [ArgStr (endpoint_str (ep_name e)), ArgFloat x])
          else Inl (invalid_result
            ''output {} percentage must be an integer Lua number, got {}''
            [ArgStr (endpoint_str (ep_name e)), ArgFloat x])
      | other \<Rightarrow> Inl (invalid_result ''output {} expects an integer percentage, got {}''
          [ArgStr (endpoint_str (ep_name e)), ArgStr (lua_type_name other)]))"

definition lua_to_temperature :: "endpoint \<Rightarrow> lua_value \<Rightarrow> logic_error + typed_value" where
  "lua_to_temperature e v =
     (let wrap = map_err (\<lambda>err. invalid_result ''output {} temperature: {}''
            [ArgStr (endpoint_str (ep_name e)), ArgValueError err])
      in case v of
        LInteger n \<Rightarrow> wrap (temperature (f64_of_int n))
      | LNumber x \<Rightarrow> wrap (temperature x)
      | other \<Rightarrow> Inl (invalid_result ''output {} expects a finite temperature number, got {}''
          [ArgStr (endpoint_str (ep_name e)), ArgStr (lua_type_name other)]))"

definition lua_to_typed_value :: "endpoint \<Rightarrow> lua_value \<Rightarrow> logic_error + typed_value" where
  "lua_to_typed_value e v =
     (if is_bool_dpt (ep_dpt e) then
        (case v of
           LBool b \<Rightarrow> Inr (typed_bool b)
         | other \<Rightarrow> Inl (invalid_result ''output {} expects a boolean, got {}''
             [ArgStr (endpoint_str (ep_name e)), ArgStr (lua_type_name other)]))
      else if is_percent_dpt (ep_dpt e) then lua_to_percent e v
      else if is_temperature_dpt (ep_dpt e) then lua_to_temperature e v
      else Inl (invalid_result ''output {} uses unsupported DPT {}''
        [ArgStr (endpoint_str (ep_name e)), ArgDpt (ep_dpt e)]))"

subsection \<open>Tables\<close>

text \<open>One pair of an iteration, and a key that has to be a UTF-8 string.\<close>

definition table_pair ::
  "mlua_error + lua_value \<times> lua_value \<Rightarrow> logic_error + lua_value \<times> lua_value" where
  "table_pair pair = map_err (\<lambda>e. map_lua_error e PhaseInvalidResult) pair"

definition string_key ::
  "'a lua_vm \<Rightarrow> string \<Rightarrow> message_arg list \<Rightarrow> lua_value \<Rightarrow> logic_error + rstring" where
  "string_key vm template arguments key =
     (case key of
        LString s \<Rightarrow>
          if utf8_valid s then Inr s
          else Inl (map_lua_error (vm_utf8_error vm s) PhaseInvalidResult)
      | other \<Rightarrow> Inl (invalid_result template (arguments @ [ArgStr (lua_type_name other)])))"

record result_fields =
  rf_state :: "lua_table option"
  rf_outputs :: "lua_table option"
  rf_timers :: "lua_table option"

definition result_field_step ::
  "'a lua_vm \<Rightarrow> result_fields \<Rightarrow> mlua_error + lua_value \<times> lua_value \<Rightarrow> logic_error + result_fields"
  where
  "result_field_step vm acc pair =
     result_bind (table_pair pair) (\<lambda>(k, v).
     result_bind (string_key vm ''unsupported result field key of type {}'' [] k) (\<lambda>key.
       if key \<notin> {''state'', ''outputs'', ''timers''}
       then Inl (invalid_result
         ''unsupported result field {:?}; only state, outputs, and timers are allowed''
         [ArgStr key])
       else case v of
         LTable t \<Rightarrow>
           if key = ''state'' \<and> rf_state acc = None
             then Inr (acc\<lparr>rf_state := Some t\<rparr>)
           else if key = ''outputs'' \<and> rf_outputs acc = None
             then Inr (acc\<lparr>rf_outputs := Some t\<rparr>)
           else if key = ''timers'' \<and> rf_timers acc = None
             then Inr (acc\<lparr>rf_timers := Some t\<rparr>)
           else Inl (invalid_result ''result contains duplicate {} fields'' [ArgStr key])
       | other \<Rightarrow> Inl (invalid_result ''{} must be a table, got {}''
           [ArgStr key, ArgStr (lua_type_name other)])))"

definition state_patch_step ::
  "'a lua_vm \<Rightarrow> state_patch \<Rightarrow> mlua_error + lua_value \<times> lua_value \<Rightarrow> logic_error + state_patch"
  where
  "state_patch_step vm patch pair =
     result_bind (table_pair pair) (\<lambda>(k, v).
     result_bind (string_key vm ''state key must be a string, got {}'' [] k) (\<lambda>key.
     result_bind (convert_state_value vm key v) (\<lambda>sv.
       if btm_contains patch key
       then Inl (invalid_result ''state key {:?} was returned more than once'' [ArgStr key])
       else Inr (btm_insert key sv patch))))"

definition convert_state ::
  "'a lua_vm \<Rightarrow> lua_table option \<Rightarrow> transient_state \<Rightarrow> runtime_limits \<Rightarrow> logic_error + state_patch"
  where
  "convert_state vm table current limits =
     result_bind
       (case table of None \<Rightarrow> Inr [] | Some t \<Rightarrow> try_fold (state_patch_step vm) [] t)
       (\<lambda>patch.
         if max_state_patch_entries_per_execution limits < length patch
         then Inl (invalid_result ''state patch has {}; maximum is {}''
           [ArgInt (int (length patch)),
            ArgInt (int (max_state_patch_entries_per_execution limits))])
         else result_bind
           (map_err (\<lambda>e. invalid_result ''{}'' [ArgStateError e])
             (merge_state_with_limits current patch limits))
           (\<lambda>_. Inr patch))"

definition output_step ::
  "'a lua_vm \<Rightarrow> endpoint list \<Rightarrow> typed_value option list \<Rightarrow> mlua_error + lua_value \<times> lua_value
     \<Rightarrow> logic_error + typed_value option list" where
  "output_step vm endpoints slots pair =
     result_bind (table_pair pair) (\<lambda>(k, v).
     result_bind (string_key vm ''output name must be a string, got {}'' [] k) (\<lambda>key.
     result_bind
       (ok_or (invalid_result ''unknown output endpoint {}'' [ArgStr key])
         (position (\<lambda>e. ep_direction e = Output \<and> endpoint_str (ep_name e) = key) endpoints))
       (\<lambda>index.
     result_bind (lua_to_typed_value (endpoints ! index) v) (\<lambda>typed.
       if slots ! index \<noteq> None
       then Inl (invalid_result ''output endpoint {} was returned more than once'' [ArgStr key])
       else Inr (slots[index := Some typed])))))"

definition collect_outputs :: "endpoint list \<Rightarrow> typed_value option list \<Rightarrow> output_effect list" where
  "collect_outputs endpoints slots =
     concat (map
       (\<lambda>(e, slot).
          if ep_direction e = Output
          then (case slot of
             None \<Rightarrow> []
           | Some v \<Rightarrow> [\<lparr>oe_endpoint = ep_name e, oe_value = v\<rparr>])
          else [])
       (zip endpoints slots))"

subsection \<open>Timers\<close>

definition timer_field_step ::
  "'a lua_vm \<Rightarrow> timer_name \<Rightarrow> u32 option \<Rightarrow> mlua_error + lua_value \<times> lua_value
     \<Rightarrow> logic_error + u32 option" where
  "timer_field_step vm name after pair =
     result_bind (table_pair pair) (\<lambda>(k, v).
     result_bind
       (string_key vm ''timer {} field must be a string, got {}'' [ArgStr (timer_str name)] k)
       (\<lambda>field.
         if field \<noteq> ''after''
         then Inl (invalid_result ''timer {} schedule only accepts after, got {:?}''
           [ArgStr (timer_str name), ArgStr field])
         else result_bind (lua_duration_ms v) (\<lambda>ms.
           if after \<noteq> None
           then Inl (invalid_result ''timer {} contains duplicate after fields''
             [ArgStr (timer_str name)])
           else Inr (Some ms))))"

definition timer_action_of ::
  "'a lua_vm \<Rightarrow> pending_map \<Rightarrow> monotonic_ms \<Rightarrow> timer_name \<Rightarrow> lua_value \<Rightarrow> logic_error + timer_action"
  where
  "timer_action_of vm pending now name v =
     (case v of
        LBool False \<Rightarrow>
          (case btm_get pending name of
             Some timer \<Rightarrow> Inr (TimerCancelled (pt_due_at timer))
           | None \<Rightarrow> Inr TimerCancelNoop)
      | LTable schedule \<Rightarrow>
          result_bind (try_fold (timer_field_step vm name) None schedule) (\<lambda>after.
          result_bind
            (ok_or (invalid_result ''timer {} schedule requires after''
              [ArgStr (timer_str name)]) after) (\<lambda>after_ms.
          result_bind
            (ok_or (invalid_result ''timer {} deadline overflows MonotonicMs''
              [ArgStr (timer_str name)]) (monotonic_checked_add now after_ms)) (\<lambda>due_at.
            case btm_get pending name of
              Some timer \<Rightarrow> Inr (TimerReplaced (pt_due_at timer) after_ms due_at)
            | None \<Rightarrow> Inr (TimerScheduled after_ms due_at))))
      | other \<Rightarrow> Inl (invalid_result ''timer {} must be false or a schedule table, got {}''
          [ArgStr (timer_str name), ArgStr (lua_type_name other)]))"

definition timer_step ::
  "'a lua_vm \<Rightarrow> pending_map \<Rightarrow> monotonic_ms \<Rightarrow> timer_effect list
     \<Rightarrow> mlua_error + lua_value \<times> lua_value \<Rightarrow> logic_error + timer_effect list" where
  "timer_step vm pending now raw pair =
     result_bind (table_pair pair) (\<lambda>(k, v).
     result_bind (string_key vm ''timer name must be a string, got {}'' [] k) (\<lambda>key.
     result_bind
       (map_err (\<lambda>e. invalid_result ''invalid timer name {:?}: {}'' [ArgStr key, ArgNameError e])
         (timer_name_new key)) (\<lambda>name.
     result_bind (timer_action_of vm pending now name v) (\<lambda>action.
       Inr (raw @ [\<lparr>te_name = name, te_action = action\<rparr>])))))"

text \<open>The candidate map of the limit check stores revision 0.\<close>

definition convert_timers ::
  "'a lua_vm \<Rightarrow> lua_table option \<Rightarrow> pending_map \<Rightarrow> monotonic_ms \<Rightarrow> runtime_limits
     \<Rightarrow> logic_error + timer_effect list" where
  "convert_timers vm table pending now limits =
     (case table of
        None \<Rightarrow> Inr []
      | Some t \<Rightarrow>
          result_bind (try_fold (timer_step vm pending now) [] t) (\<lambda>unsorted.
            let raw = sort_key te_name unsorted;
                candidate = apply_timer_effects pending raw now 0
            in if max_timer_effects_per_execution limits < length raw
                 then Inl (invalid_result ''timer effects exceed maximum of {}''
                   [ArgInt (int (max_timer_effects_per_execution limits))])
               else if max_pending_timers_per_block limits < length candidate
                 then Inl (invalid_result ''pending timers exceed maximum of {}''
                   [ArgInt (int (max_pending_timers_per_block limits))])
               else Inr raw))"

definition check_combined_effects ::
  "nat \<Rightarrow> nat \<Rightarrow> nat \<Rightarrow> runtime_limits \<Rightarrow> logic_error + unit" where
  "check_combined_effects state outputs timers limits =
     (if max_output_effects_per_execution limits < outputs
        then Inl (invalid_result ''output effects exceed maximum of {}''
          [ArgInt (int (max_output_effects_per_execution limits))])
      else if max_combined_effects_per_execution limits < state + outputs + timers
        then Inl (invalid_result ''combined effects exceed maximum of {}''
          [ArgInt (int (max_combined_effects_per_execution limits))])
      else Inr ())"

subsection \<open>The result of a handler\<close>

definition convert_outputs ::
  "'a lua_vm \<Rightarrow> endpoint list \<Rightarrow> lua_table option \<Rightarrow> logic_error + output_effect list" where
  "convert_outputs vm endpoints table =
     (case table of
        None \<Rightarrow> Inr []
      | Some t \<Rightarrow>
          result_bind
            (try_fold (output_step vm endpoints) (replicate (length endpoints) None) t)
            (\<lambda>slots. Inr (collect_outputs endpoints slots)))"

definition convert_result ::
  "'a lua_vm \<Rightarrow> endpoint list \<Rightarrow> lua_value \<Rightarrow> transient_state \<Rightarrow> pending_map \<Rightarrow> monotonic_ms
     \<Rightarrow> runtime_limits \<Rightarrow> logic_error + transition" where
  "convert_result vm endpoints result current pending now limits =
     (case result of
        LNil \<Rightarrow> Inr default_transition
      | LTable t \<Rightarrow>
          result_bind
            (try_fold (result_field_step vm)
              \<lparr>rf_state = None, rf_outputs = None, rf_timers = None\<rparr> t) (\<lambda>acc.
          result_bind (convert_state vm (rf_state acc) current limits) (\<lambda>patch.
          result_bind (convert_outputs vm endpoints (rf_outputs acc)) (\<lambda>outputs.
          result_bind (convert_timers vm (rf_timers acc) pending now limits) (\<lambda>timers.
          result_bind
            (check_combined_effects (length patch) (length outputs) (length timers) limits)
            (\<lambda>_. Inr \<lparr>tr_state = patch, tr_outputs = outputs, tr_timers = timers\<rparr>)))))
      | other \<Rightarrow> Inl (invalid_result ''handle result must be nil or a table, got {}''
          [ArgStr (lua_type_name other)]))"

end
