(* ===== verification/Handler_Results.thy ===== *)
theory Handler_Results
  imports Lua_Conversion "HOL-Library.Sublist"
begin

text \<open>
  What a converted handler result guarantees: the bounds, the typing of its outputs, the
  consistency of its timer effects with the pending timers, that its state patch merges, and
  that it does not depend on the iteration order of the Lua tables.
\<close>

subsection \<open>Scalars\<close>

lemma lua_to_typed_value_ok:
  assumes "lua_to_typed_value e v = Inr tv"
  shows "typed_value_wf tv" and "tv_dpt tv = ep_dpt e"
proof -
  have percent: "typed_value_wf tv \<and> tv_dpt tv = dpt_percent" if pv: "lua_to_percent e v = Inr tv"
  proof -
    obtain n where n: "0 \<le> n" "n \<le> 100" "typed_percent (word_of_int n) = Inr tv"
      using pv by (auto simp: lua_to_percent_def result_simps split: lua_value.splits if_splits)
    then have "(word_of_int n :: u8) \<le> 100"
      by (simp add: word_le_nat_alt unat_eq_nat_uint uint_word_of_int)
    with n(3) show ?thesis
      by (auto simp: typed_percent_ok typed_value_wf_def dpt_class_iff)
  qed
  have temp: "typed_value_wf tv \<and> tv_dpt tv = dpt_temperature" if "lua_to_temperature e v = Inr tv"
    using that temperature_wf
    by (auto simp: lua_to_temperature_def Let_def result_simps split: lua_value.splits)
  show "typed_value_wf tv" and "tv_dpt tv = ep_dpt e"
    using assms percent temp
    by (auto simp: lua_to_typed_value_def dpt_class_iff split: lua_value.splits if_splits)
qed

text \<open>The panic of \<open>expect("bounded percentage")\<close> cannot happen.\<close>

lemma percent_never_panics:
  "lua_to_percent e v \<noteq> Inl (invalid_result ''panic: bounded percentage'' [])"
proof -
  have "(word_of_int n :: u8) \<le> 100" if "0 \<le> n" "n \<le> 100" for n :: int
    using that by (simp add: word_le_nat_alt unat_eq_nat_uint uint_word_of_int)
  then show ?thesis
    by (auto simp: lua_to_percent_def invalid_result_def typed_percent_ok split: lua_value.splits)
qed

lemma lua_duration_nonzero:
  assumes "lua_duration_ms v = Inr ms"
  shows "ms \<noteq> 0"
proof -
  have small: "(word_of_int n :: u32) \<noteq> 0" if "1 \<le> n" "n \<le> 4294967295" for n :: int
    using that by (simp add: word_of_int_eq_0_iff zdvd_not_zless)
  have "(word_of_int (f64_as_int 0 4294967295 x) :: u32) \<noteq> 0"
    if x: "f64_is_finite x" "\<not> f64_le x (F64 0)" "\<not> f64_has_fract x" "\<not> f64_lt u32_max_f64 x" for x
  proof -
    obtain q where q: "x = F64 q" using x(1) by (cases x) (auto simp: f64_is_finite_def)
    then have "of_int \<lfloor>q\<rfloor> = q" using x(3) by (simp add: f64_has_fract_def)
    then obtain n where n: "q = of_int n" by metis
    have "1 \<le> n" "n \<le> 4294967295"
      using x(2,4) by (auto simp: q n f64_le_def u32_max_f64_def not_less)
    then show ?thesis using small [of n] by (simp add: q n f64_as_int_def truncate_rat_def)
  qed
  with small assms show ?thesis
    by (auto simp: lua_duration_ms_def whole_milliseconds_def split: lua_value.splits if_splits)
qed

subsection \<open>State patches\<close>

lemma state_patch_step_sorted:
  "state_patch_step vm patch pair = Inr q \<Longrightarrow> btm_sorted patch \<Longrightarrow> btm_sorted q"
  by (auto simp: state_patch_step_def result_simps btm_sorted_insert split: if_splits)

lemma convert_state_ok:
  assumes "convert_state vm table current limits = Inr patch"
  shows "btm_sorted patch" and "length patch \<le> max_state_patch_entries_per_execution limits"
    and "\<exists>merged. merge_state_with_limits current patch limits = Inr merged"
proof -
  have "(case table of None \<Rightarrow> Inr [] | Some t \<Rightarrow> try_fold (state_patch_step vm) [] t) = Inr patch"
    and rest: "length patch \<le> max_state_patch_entries_per_execution limits"
      "\<exists>merged. merge_state_with_limits current patch limits = Inr merged"
    using assms by (auto simp: convert_state_def result_simps split: if_splits)
  then show "btm_sorted patch"
    by (cases table)
      (auto intro: try_fold_invariant [where I = btm_sorted] dest: state_patch_step_sorted)
  show "length patch \<le> max_state_patch_entries_per_execution limits"
    and "\<exists>merged. merge_state_with_limits current patch limits = Inr merged" by fact+
qed

lemma merge_empty_patch:
  assumes "state_ok limits current"
  shows "merge_state_with_limits current [] limits = Inr current"
  using assms
  by (simp add: merge_state_with_limits_def Let_def result_simps validate_state_map_ok state_ok_def)

subsection \<open>Outputs\<close>

definition output_effect_ok :: "endpoint list \<Rightarrow> output_effect \<Rightarrow> bool" where
  "output_effect_ok endpoints eff \<longleftrightarrow>
     (\<exists>e \<in> set endpoints. ep_direction e = Output \<and> ep_name e = oe_endpoint eff
        \<and> tv_dpt (oe_value eff) = ep_dpt e \<and> typed_value_wf (oe_value eff))"

definition slots_ok :: "endpoint list \<Rightarrow> typed_value option list \<Rightarrow> bool" where
  "slots_ok endpoints slots \<longleftrightarrow>
     list_all2 (\<lambda>e slot. \<forall>v. slot = Some v \<longrightarrow> ep_direction e = Output
       \<and> tv_dpt v = ep_dpt e \<and> typed_value_wf v) endpoints slots"

lemma slots_ok_replicate: "slots_ok endpoints (replicate (length endpoints) None)"
  by (simp add: slots_ok_def list_all2_conv_all_nth)

lemma output_step_cases:
  assumes "output_step vm endpoints slots pair = Inr slots'"
  obtains i key v tv e where
    "position (\<lambda>e. ep_direction e = Output \<and> endpoint_str (ep_name e) = key) endpoints = Some i"
    "lua_to_typed_value (endpoints ! i) v = Inr tv"
    "\<And>s. output_step vm endpoints s pair =
       (if s ! i \<noteq> None then Inl e else Inr (s[i := Some tv]))"
proof -
  obtain k v where pair: "table_pair pair = Inr (k, v)"
    using assms by (auto simp: output_step_def result_bind_eq_Inr)
  obtain key where key: "string_key vm ''output name must be a string, got {}'' [] k = Inr key"
    using assms by (auto simp: output_step_def pair result_bind_eq_Inr)
  obtain i where i:
    "position (\<lambda>e. ep_direction e = Output \<and> endpoint_str (ep_name e) = key) endpoints = Some i"
    using assms by (auto simp: output_step_def pair key result_bind_eq_Inr ok_or_eq_Inr)
  obtain tv where tv: "lua_to_typed_value (endpoints ! i) v = Inr tv"
    using assms by (auto simp: output_step_def pair key i result_bind_eq_Inr)
  show ?thesis by (rule that [OF i tv]) (simp add: output_step_def pair key i tv)
qed

lemma output_step_ok:
  assumes "output_step vm endpoints slots pair = Inr slots'" and "slots_ok endpoints slots"
  shows "slots_ok endpoints slots'"
  using assms(1)
proof (cases rule: output_step_cases)
  case (1 i key v tv e)
  then have upd: "slots' = slots[i := Some tv]" using assms(1) by (simp split: if_splits)
  have ok: "ep_direction (endpoints ! i) = Output" "i < length endpoints"
    using position_SomeD [OF 1(1)] by simp_all
  show ?thesis
    using assms(2) ok lua_to_typed_value_ok [OF 1(2)]
    unfolding slots_ok_def upd list_all2_conv_all_nth by (simp add: nth_list_update)
qed

lemma collect_outputs_Cons:
  "collect_outputs (e # es) (slot # slots) =
     (if ep_direction e = Output
      then (case slot of None \<Rightarrow> [] | Some v \<Rightarrow> [\<lparr>oe_endpoint = ep_name e, oe_value = v\<rparr>])
      else []) @ collect_outputs es slots"
  by (simp add: collect_outputs_def)

lemma collect_outputs_ok:
  assumes "slots_ok endpoints slots"
  shows "(\<forall>eff \<in> set (collect_outputs endpoints slots). output_effect_ok endpoints eff) \<and>
    subseq (map oe_endpoint (collect_outputs endpoints slots))
      (map ep_name (filter (\<lambda>e. ep_direction e = Output) endpoints))"
  using assms unfolding slots_ok_def
proof (induction rule: list_all2_induct)
  case (Cons e es slot slots)
  have rest: "\<forall>eff \<in> set (collect_outputs es slots). output_effect_ok (e # es) eff"
    using Cons(3) by (auto simp: output_effect_ok_def)
  show ?case
  proof (cases slot)
    case None
    then have "collect_outputs (e # es) (slot # slots) = collect_outputs es slots"
      by (simp add: collect_outputs_Cons)
    with rest Cons(3) show ?thesis by (cases "ep_direction e = Output") (auto intro: list_emb_Cons)
  next
    case (Some v)
    then have "output_effect_ok (e # es) \<lparr>oe_endpoint = ep_name e, oe_value = v\<rparr>"
      and "ep_direction e = Output"
      using Cons(1) by (auto simp: output_effect_ok_def)
    with Some rest Cons(3) show ?thesis by (simp add: collect_outputs_Cons)
  qed
qed (simp add: collect_outputs_def)

lemma convert_outputs_ok:
  assumes "convert_outputs vm endpoints table = Inr outputs"
  shows "\<forall>eff \<in> set outputs. output_effect_ok endpoints eff"
    and "subseq (map oe_endpoint outputs)
      (map ep_name (filter (\<lambda>e. ep_direction e = Output) endpoints))"
proof -
  consider (table) slots where "outputs = collect_outputs endpoints slots" "slots_ok endpoints slots"
    | (none) "outputs = []"
  proof (cases table)
    case None
    then show ?thesis using assms that(2) by (simp add: convert_outputs_def)
  next
    case (Some t)
    then obtain slots where s: "outputs = collect_outputs endpoints slots"
      "try_fold (output_step vm endpoints) (replicate (length endpoints) None) t = Inr slots"
      using assms by (auto simp: convert_outputs_def result_simps)
    have "slots_ok endpoints slots"
      by (rule try_fold_invariant [where I = "slots_ok endpoints", OF s(2) slots_ok_replicate])
        (rule output_step_ok)
    with s that(1) show ?thesis by blast
  qed
  note shape = this
  from shape show "\<forall>eff \<in> set outputs. output_effect_ok endpoints eff"
    and "subseq (map oe_endpoint outputs)
      (map ep_name (filter (\<lambda>e. ep_direction e = Output) endpoints))"
    using collect_outputs_ok by (cases; simp)+
qed

subsection \<open>Timer effects\<close>

text \<open>An effect agrees with the pending timers it was computed from.\<close>

definition timer_effect_ok :: "pending_map \<Rightarrow> monotonic_ms \<Rightarrow> timer_effect \<Rightarrow> bool" where
  "timer_effect_ok pending now eff \<longleftrightarrow>
     validate_endpoint_name (timer_str (te_name eff)) = Inr () \<and>
     (case te_action eff of
        TimerScheduled after due \<Rightarrow> btm_get pending (te_name eff) = None
          \<and> after \<noteq> 0 \<and> unat due = unat now + unat after
      | TimerReplaced previous after due \<Rightarrow>
          map_option pt_due_at (btm_get pending (te_name eff)) = Some previous
          \<and> after \<noteq> 0 \<and> unat due = unat now + unat after
      | TimerCancelled previous \<Rightarrow>
          map_option pt_due_at (btm_get pending (te_name eff)) = Some previous
      | TimerCancelNoop \<Rightarrow> btm_get pending (te_name eff) = None)"

lemma timer_field_nonzero:
  assumes "try_fold (timer_field_step vm name) None schedule = Inr (Some ms)"
  shows "ms \<noteq> 0"
proof -
  have step: "t \<noteq> Some 0" if "timer_field_step vm name s x = Inr t" for s x t
    using that by (auto simp: timer_field_step_def result_simps dest: lua_duration_nonzero
        split: if_splits)
  have "Some ms \<noteq> Some 0"
    by (rule try_fold_invariant [OF assms]) (simp, rule step)
  then show ?thesis by simp
qed

lemma timer_field_not_zero [simp]:
  "try_fold (timer_field_step vm name) None schedule \<noteq> Inr (Some 0)"
  using timer_field_nonzero by blast

lemma timer_action_ok:
  assumes "timer_action_of vm pending now name v = Inr action"
    and "validate_endpoint_name (timer_str name) = Inr ()"
  shows "timer_effect_ok pending now \<lparr>te_name = name, te_action = action\<rparr>"
proof -
  have due: "unat d = unat now + unat ms" if "monotonic_checked_add now ms = Some d" for ms d
    using that by (rule monotonic_checked_add_Some)
  show ?thesis
    using assms
    by (auto simp: timer_action_of_def timer_effect_ok_def result_simps due
        split: lua_value.splits bool.splits option.splits)
qed

lemma timer_step_ok:
  assumes "timer_step vm pending now raw pair = Inr raw'"
    and "\<forall>eff \<in> set raw. timer_effect_ok pending now eff"
  shows "\<forall>eff \<in> set raw'. timer_effect_ok pending now eff"
proof -
  obtain name v action where name: "validate_endpoint_name (timer_str name) = Inr ()"
    and action: "timer_action_of vm pending now name v = Inr action"
    and raw': "raw' = raw @ [\<lparr>te_name = name, te_action = action\<rparr>]"
    using assms(1) by (fastforce simp: timer_step_def timer_name_new_def result_simps)
  show ?thesis using assms(2) timer_action_ok [OF action name] by (simp add: raw')
qed

lemma convert_timers_ok:
  assumes "convert_timers vm table pending now limits = Inr timers"
    and "length pending \<le> max_pending_timers_per_block limits"
  shows "\<forall>eff \<in> set timers. timer_effect_ok pending now eff"
    and "sorted (map te_name timers)"
    and "length timers \<le> max_timer_effects_per_execution limits"
    and "length (apply_timer_effects pending timers now 0) \<le> max_pending_timers_per_block limits"
proof -
  have "(\<forall>eff \<in> set timers. timer_effect_ok pending now eff) \<and> sorted (map te_name timers)
    \<and> length timers \<le> max_timer_effects_per_execution limits
    \<and> length (apply_timer_effects pending timers now 0) \<le> max_pending_timers_per_block limits"
  proof (cases table)
    case None
    then show ?thesis using assms by (simp add: convert_timers_def apply_timer_effects_def)
  next
    case (Some t)
    then obtain raw where raw: "try_fold (timer_step vm pending now) [] t = Inr raw"
      "timers = sort_key te_name raw" "length timers \<le> max_timer_effects_per_execution limits"
      "length (apply_timer_effects pending timers now 0) \<le> max_pending_timers_per_block limits"
      using assms(1) by (auto simp: convert_timers_def result_simps Let_def split: if_splits)
    have "\<forall>eff \<in> set raw. timer_effect_ok pending now eff"
      by (rule try_fold_invariant [OF raw(1)]) (auto intro: timer_step_ok [rule_format])
    with raw show ?thesis by simp
  qed
  then show "\<forall>eff \<in> set timers. timer_effect_ok pending now eff"
    and "sorted (map te_name timers)"
    and "length timers \<le> max_timer_effects_per_execution limits"
    and "length (apply_timer_effects pending timers now 0) \<le> max_pending_timers_per_block limits"
    by blast+
qed

text \<open>The names that end up pending do not depend on the revision stored with them.\<close>

lemma btm_insert_keys_cong:
  "map fst m = map fst n \<Longrightarrow> map fst (btm_insert k v m) = map fst (btm_insert k w n)"
proof (induction m arbitrary: n)
  case (Cons e m)
  then obtain d n' where n: "n = d # n'" "fst d = fst e" "map fst m = map fst n'" by (cases n) auto
  show ?case using Cons.IH [OF n(3)] n by simp
qed simp

lemma btm_remove_keys: "map fst (btm_remove k m) = filter (\<lambda>j. j \<noteq> k) (map fst m)"
  by (simp add: btm_remove_def filter_map comp_def)

lemma apply_timer_effects_keys:
  "map fst m = map fst n \<Longrightarrow>
   map fst (apply_timer_effects m effects now r) = map fst (apply_timer_effects n effects now q)"
proof (induction effects arbitrary: m n)
  case (Cons eff effects)
  show ?case
    unfolding apply_timer_effects_Cons
    by (rule Cons.IH, cases "te_action eff")
      (auto intro: btm_insert_keys_cong [OF Cons.prems] simp: btm_remove_keys Cons.prems)
qed (simp add: apply_timer_effects_def)

lemma apply_timer_effects_length:
  "length (apply_timer_effects m effects now r) = length (apply_timer_effects m effects now q)"
  using apply_timer_effects_keys [of m m effects now r q] by (metis length_map)

subsection \<open>Transitions\<close>

text \<open>Everything the engine and its host may rely on in a converted transition.\<close>

definition transition_ok ::
  "endpoint list \<Rightarrow> transient_state \<Rightarrow> pending_map \<Rightarrow> monotonic_ms \<Rightarrow> runtime_limits
     \<Rightarrow> transition \<Rightarrow> bool" where
  "transition_ok endpoints current pending now limits tr \<longleftrightarrow>
     (\<exists>merged. merge_state_with_limits current (tr_state tr) limits = Inr merged)
     \<and> (\<forall>eff \<in> set (tr_outputs tr). output_effect_ok endpoints eff)
     \<and> subseq (map oe_endpoint (tr_outputs tr))
          (map ep_name (filter (\<lambda>e. ep_direction e = Output) endpoints))
     \<and> (\<forall>eff \<in> set (tr_timers tr). timer_effect_ok pending now eff)
     \<and> sorted (map te_name (tr_timers tr))
     \<and> length (tr_state tr) \<le> max_state_patch_entries_per_execution limits
     \<and> length (tr_outputs tr) \<le> max_output_effects_per_execution limits
     \<and> length (tr_timers tr) \<le> max_timer_effects_per_execution limits
     \<and> length (tr_state tr) + length (tr_outputs tr) + length (tr_timers tr)
          \<le> max_combined_effects_per_execution limits
     \<and> (\<forall>revision. length (apply_timer_effects pending (tr_timers tr) now revision)
          \<le> max_pending_timers_per_block limits)"

lemma check_combined_effects_ok:
  "check_combined_effects s n t limits = Inr u \<longleftrightarrow>
   n \<le> max_output_effects_per_execution limits
   \<and> s + n + t \<le> max_combined_effects_per_execution limits"
  by (auto simp: check_combined_effects_def)

lemma convert_result_cases:
  assumes "convert_result vm endpoints result current pending now limits = Inr tr"
  obtains (nil) "result = LNil" "tr = default_transition"
  | (table) t acc where "result = LTable t"
      "try_fold (result_field_step vm)
         \<lparr>rf_state = None, rf_outputs = None, rf_timers = None\<rparr> t = Inr acc"
      "convert_state vm (rf_state acc) current limits = Inr (tr_state tr)"
      "convert_outputs vm endpoints (rf_outputs acc) = Inr (tr_outputs tr)"
      "convert_timers vm (rf_timers acc) pending now limits = Inr (tr_timers tr)"
      "check_combined_effects (length (tr_state tr)) (length (tr_outputs tr))
         (length (tr_timers tr)) limits = Inr ()"
  using assms by (auto simp: convert_result_def result_simps split: lua_value.splits)

lemma convert_result_ok:
  assumes "convert_result vm endpoints result current pending now limits = Inr tr"
    and "state_ok limits current" and "length pending \<le> max_pending_timers_per_block limits"
  shows "transition_ok endpoints current pending now limits tr"
  using assms(1)
proof (cases rule: convert_result_cases)
  case nil
  then show ?thesis
    using assms(3) merge_empty_patch [OF assms(2)]
    by (simp add: transition_ok_def default_transition_def apply_timer_effects_def)
next
  case (table t acc)
  note s = convert_state_ok [OF table(3)] and p = convert_outputs_ok [OF table(4)]
    and m = convert_timers_ok [OF table(5) assms(3)]
  have "length (apply_timer_effects pending (tr_timers tr) now r)
    \<le> max_pending_timers_per_block limits" for r
    using m(4) apply_timer_effects_length by metis
  with s p m table(6) show ?thesis
    unfolding transition_ok_def check_combined_effects_ok by blast
qed

lemma convert_result_sorted:
  assumes "convert_result vm endpoints result current pending now limits = Inr tr"
  shows "btm_sorted (tr_state tr)"
  using assms
  by (cases rule: convert_result_cases)
    (auto simp: default_transition_def dest: convert_state_ok(1))

subsection \<open>Iteration order\<close>

text \<open>The loops over the tables are instances of the commuting loop.\<close>

lemma btm_insert_commute:
  "k \<noteq> j \<Longrightarrow> btm_insert k v (btm_insert j w m) = btm_insert j w (btm_insert k v m)"
  by (induction m) auto

interpretation patch_loop: commuting_loop "state_patch_step vm" "(=)"
proof
  fix s t u :: state_patch and x y
  assume "state_patch_step vm s x = Inr t" and "state_patch_step vm t y = Inr u"
  then obtain kx vx ky vy where
    x: "\<And>s. state_patch_step vm s x = (if btm_contains s kx
        then Inl (invalid_result ''state key {:?} was returned more than once'' [ArgStr kx])
        else Inr (btm_insert kx vx s))"
    and y: "\<And>s. state_patch_step vm s y = (if btm_contains s ky
        then Inl (invalid_result ''state key {:?} was returned more than once'' [ArgStr ky])
        else Inr (btm_insert ky vy s))"
    by (auto simp: state_patch_step_def result_simps)
  assume "state_patch_step vm s x = Inr t" and "state_patch_step vm t y = Inr u"
  then show "\<exists>v w. state_patch_step vm s y = Inr v \<and> state_patch_step vm v x = Inr w \<and> u = w"
    unfolding x y
    by (auto simp: btm_contains_def btm_get_insert btm_insert_commute split: if_splits)
qed auto

interpretation output_loop: commuting_loop "output_step vm endpoints" "(=)"
proof
  fix s t u :: "typed_value option list" and x y
  assume xs: "output_step vm endpoints s x = Inr t" and ys: "output_step vm endpoints t y = Inr u"
  obtain i p e where
    x: "\<And>s. output_step vm endpoints s x = (if s ! i \<noteq> None then Inl e else Inr (s[i := Some p]))"
    using output_step_cases [OF xs] by metis
  obtain j q d where
    y: "\<And>s. output_step vm endpoints s y = (if s ! j \<noteq> None then Inl d else Inr (s[j := Some q]))"
    using output_step_cases [OF ys] by metis
  show "\<exists>v w. output_step vm endpoints s y = Inr v \<and> output_step vm endpoints v x = Inr w \<and> u = w"
  proof (cases "i = j")
    case True
    then show ?thesis using xs ys unfolding x y
      by (cases "j < length s") (auto simp: not_less list_update_beyond split: if_splits)
  next
    case False
    then show ?thesis using xs ys unfolding x y by (auto simp: list_update_swap split: if_splits)
  qed
qed auto

interpretation timer_loop: commuting_loop "timer_step vm pending now" "\<lambda>a b. mset a = mset b"
proof
  fix s t u :: "timer_effect list" and x y
  assume xs: "timer_step vm pending now s x = Inr t" and ys: "timer_step vm pending now t y = Inr u"
  then obtain p q where x: "\<And>s. timer_step vm pending now s x = Inr (s @ [p])"
    and y: "\<And>s. timer_step vm pending now s y = Inr (s @ [q])"
    by (auto simp: timer_step_def result_simps)
  show "\<exists>v w. timer_step vm pending now s y = Inr v \<and> timer_step vm pending now v x = Inr w
    \<and> mset u = mset w"
    using xs ys unfolding x y by auto
next
  fix s s' t :: "timer_effect list" and x
  assume "mset s = mset s'" and "timer_step vm pending now s x = Inr t"
  then show "\<exists>t'. timer_step vm pending now s' x = Inr t' \<and> mset t = mset t'"
    by (auto simp: timer_step_def result_simps)
qed auto

lemma result_field_step_cases:
  assumes "result_field_step vm acc pair = Inr acc'"
  obtains t where "pair = Inr (LString ''state'', LTable t)" "rf_state acc = None"
      "acc' = acc\<lparr>rf_state := Some t\<rparr>"
  | t where "pair = Inr (LString ''outputs'', LTable t)" "rf_outputs acc = None"
      "acc' = acc\<lparr>rf_outputs := Some t\<rparr>"
  | t where "pair = Inr (LString ''timers'', LTable t)" "rf_timers acc = None"
      "acc' = acc\<lparr>rf_timers := Some t\<rparr>"
proof -
  obtain k v where pair: "pair = Inr (k, v)"
    using assms by (auto simp: result_field_step_def table_pair_def result_simps)
  obtain key where k: "k = LString key" "utf8_valid key"
    using assms by (auto simp: pair result_field_step_def table_pair_def string_key_def
        split: lua_value.splits if_splits)
  have key: "key \<in> {''state'', ''outputs'', ''timers''}"
    using assms k by (auto simp: pair result_field_step_def table_pair_def string_key_def
        split: if_splits)
  obtain t where v: "v = LTable t"
    using assms k key by (cases v) (auto simp: pair result_field_step_def table_pair_def
        string_key_def)
  show ?thesis
    using assms k key that
    by (auto simp: pair v result_field_step_def table_pair_def string_key_def split: if_splits)
qed

lemma field_names_utf8: "utf8_valid ''state''" "utf8_valid ''outputs''" "utf8_valid ''timers''"
  by code_simp+

lemma result_field_step_table:
  "result_field_step vm acc (Inr (LString ''state'', LTable t)) =
     (if rf_state acc = None then Inr (acc\<lparr>rf_state := Some t\<rparr>)
      else Inl (invalid_result ''result contains duplicate {} fields'' [ArgStr ''state'']))"
  "result_field_step vm acc (Inr (LString ''outputs'', LTable t)) =
     (if rf_outputs acc = None then Inr (acc\<lparr>rf_outputs := Some t\<rparr>)
      else Inl (invalid_result ''result contains duplicate {} fields'' [ArgStr ''outputs'']))"
  "result_field_step vm acc (Inr (LString ''timers'', LTable t)) =
     (if rf_timers acc = None then Inr (acc\<lparr>rf_timers := Some t\<rparr>)
      else Inl (invalid_result ''result contains duplicate {} fields'' [ArgStr ''timers'']))"
  by (simp_all add: result_field_step_def table_pair_def string_key_def field_names_utf8)

interpretation field_loop: commuting_loop "result_field_step vm" "(=)"
proof
  fix s t u :: result_fields and x y
  assume x: "result_field_step vm s x = Inr t" and y: "result_field_step vm t y = Inr u"
  show "\<exists>v w. result_field_step vm s y = Inr v \<and> result_field_step vm v x = Inr w \<and> u = w"
    by (cases rule: result_field_step_cases [OF x]; cases rule: result_field_step_cases [OF y])
      (auto simp: result_field_step_table)
qed auto

text \<open>
  The same result seen in another iteration order: the entries permuted, and those of the
  tables in it.
\<close>

definition table_perm :: "lua_value \<Rightarrow> lua_value \<Rightarrow> bool" where
  "table_perm v w \<longleftrightarrow> v = w \<or> (\<exists>s t. v = LTable s \<and> w = LTable t \<and> mset s = mset t)"

definition entry_perm ::
  "mlua_error + lua_value \<times> lua_value \<Rightarrow> mlua_error + lua_value \<times> lua_value \<Rightarrow> bool" where
  "entry_perm p q \<longleftrightarrow> p = q \<or> (\<exists>k v w. p = Inr (k, v) \<and> q = Inr (k, w) \<and> table_perm v w)"

definition result_perm :: "lua_value \<Rightarrow> lua_value \<Rightarrow> bool" where
  "result_perm v w \<longleftrightarrow> v = w \<or>
     (\<exists>s t u. v = LTable s \<and> w = LTable t \<and> list_all2 entry_perm s u \<and> mset u = mset t)"

definition fields_perm :: "result_fields \<Rightarrow> result_fields \<Rightarrow> bool" where
  "fields_perm a b \<longleftrightarrow>
     map_option mset (rf_state a) = map_option mset (rf_state b)
     \<and> map_option mset (rf_outputs a) = map_option mset (rf_outputs b)
     \<and> map_option mset (rf_timers a) = map_option mset (rf_timers b)"

lemma entry_perm_table:
  "entry_perm (Inr (k, LTable s)) q \<Longrightarrow> \<exists>t. q = Inr (k, LTable t) \<and> mset s = mset t"
  by (auto simp: entry_perm_def table_perm_def)

lemma field_step_perm:
  assumes "result_field_step vm a p = Inr a'" and "entry_perm p q" and "fields_perm a b"
  shows "\<exists>b'. result_field_step vm b q = Inr b' \<and> fields_perm a' b'"
  using assms(1)
  by (cases rule: result_field_step_cases)
    (use assms(2,3) in \<open>auto dest!: entry_perm_table simp: result_field_step_table fields_perm_def\<close>)

lemma field_fold_perm:
  assumes "list_all2 entry_perm s u" and "try_fold (result_field_step vm) a s = Inr r"
    and "fields_perm a b"
  shows "\<exists>r'. try_fold (result_field_step vm) b u = Inr r' \<and> fields_perm r r'"
  using assms
proof (induction arbitrary: a b rule: list_all2_induct)
  case (Cons p s q u)
  then obtain a' where a': "result_field_step vm a p = Inr a'"
    "try_fold (result_field_step vm) a' s = Inr r" by (auto simp: result_simps)
  obtain b' where "result_field_step vm b q = Inr b'" "fields_perm a' b'"
    using field_step_perm [OF a'(1) Cons.hyps(1) Cons.prems(2)] by blast
  with Cons.IH [OF a'(2)] show ?case by simp
qed auto

lemma convert_state_perm:
  assumes "convert_state vm t current limits = Inr patch"
    and "map_option mset t = map_option mset t'"
  shows "convert_state vm t' current limits = Inr patch"
proof (cases t)
  case (Some x)
  then obtain y where y: "t' = Some y" "mset x = mset y" using assms(2) by (cases t') auto
  have "try_fold (state_patch_step vm) [] x = Inr patch"
    using assms(1) Some by (auto simp: convert_state_def result_simps split: if_splits)
  with patch_loop.loop_permute [OF y(2)]
  have "try_fold (state_patch_step vm) [] y = try_fold (state_patch_step vm) [] x" by metis
  then show ?thesis using assms(1) Some y(1) by (simp add: convert_state_def)
qed (use assms in \<open>cases t'; simp\<close>)

lemma convert_outputs_perm:
  assumes "convert_outputs vm endpoints t = Inr outputs"
    and "map_option mset t = map_option mset t'"
  shows "convert_outputs vm endpoints t' = Inr outputs"
proof (cases t)
  case (Some x)
  then obtain y where y: "t' = Some y" "mset x = mset y" using assms(2) by (cases t') auto
  obtain slots where
    "try_fold (output_step vm endpoints) (replicate (length endpoints) None) x = Inr slots"
    using assms(1) Some by (auto simp: convert_outputs_def result_simps)
  with output_loop.loop_permute [OF y(2)]
  have "try_fold (output_step vm endpoints) (replicate (length endpoints) None) y =
    try_fold (output_step vm endpoints) (replicate (length endpoints) None) x" by metis
  then show ?thesis using assms(1) Some y(1) by (simp add: convert_outputs_def)
qed (use assms in \<open>cases t'; simp\<close>)

lemma filter_key_single:
  assumes "distinct (map f xs)" and "k \<in> set xs"
  shows "filter (\<lambda>x. f k = f x) xs = [k]"
  using assms by (induction xs) (auto simp: filter_empty_conv image_iff)

lemma sort_key_perm:
  assumes "mset xs = mset ys" and "distinct (map f xs)"
  shows "sort_key f xs = sort_key f ys"
proof -
  have "mset (map f xs) = mset (map f (sort_key f ys))" using assms(1) by simp
  then have d: "distinct (map f (sort_key f ys))"
    using assms(2) mset_eq_imp_distinct_iff by blast
  show ?thesis
  proof (rule properties_for_sort_key)
    show "mset (sort_key f ys) = mset xs" using assms(1) by simp
    fix k
    assume k: "k \<in> set (sort_key f ys)"
    then have "k \<in> set xs" using assms(1) by (metis mset_eq_setD set_sort)
    then show "filter (\<lambda>x. f k = f x) (sort_key f ys) = filter (\<lambda>x. f k = f x) xs"
      using filter_key_single [OF d k] filter_key_single [OF assms(2)] by simp
  qed simp
qed

lemma convert_timers_perm:
  assumes "convert_timers vm t pending now limits = Inr timers"
    and "map_option mset t = map_option mset t'" and "distinct (map te_name timers)"
  shows "convert_timers vm t' pending now limits = Inr timers"
proof (cases t)
  case (Some x)
  then obtain y where y: "t' = Some y" "mset x = mset y" using assms(2) by (cases t') auto
  obtain raw where raw: "try_fold (timer_step vm pending now) [] x = Inr raw"
    "timers = sort_key te_name raw"
    using assms(1) Some by (auto simp: convert_timers_def result_simps Let_def split: if_splits)
  obtain raw' where raw': "try_fold (timer_step vm pending now) [] y = Inr raw'"
    "mset raw = mset raw'" using timer_loop.loop_permute [OF y(2) raw(1)] by blast
  have "distinct (map te_name raw)"
    using assms(3) raw(2) by (metis mset_map mset_eq_imp_distinct_iff mset_sort)
  with sort_key_perm [OF raw'(2)] have "sort_key te_name raw' = timers" using raw(2) by metis
  moreover have "length raw' = length raw" using raw'(2) by (metis size_mset)
  ultimately show ?thesis
    using assms(1) Some raw(1) raw'(1)
    by (simp add: y(1) convert_timers_def raw(2) Let_def split: if_splits)
qed (use assms in \<open>cases t'; simp add: convert_timers_def\<close>)

text \<open>
  The transition of a handler does not depend on the order in which the Lua machine
  iterates tables: if the result converts, every permutation of the result table and of the
  state, outputs and timers tables in it converts to the same transition.  The timer names are
  assumed distinct, as the keys of a Lua table are.
\<close>

theorem transition_order_independent:
  assumes "convert_result vm endpoints v current pending now limits = Inr tr"
    and "result_perm v w" and "distinct (map te_name (tr_timers tr))"
  shows "convert_result vm endpoints w current pending now limits = Inr tr"
  using assms(1)
proof (cases rule: convert_result_cases)
  case nil
  with assms show ?thesis by (auto simp: result_perm_def)
next
  case (table s acc)
  show ?thesis
  proof (cases "v = w")
    case False
    then obtain t u where w: "w = LTable t" "list_all2 entry_perm s u" "mset u = mset t"
      using assms(2) table(1) by (auto simp: result_perm_def)
    obtain acc1 where "try_fold (result_field_step vm)
        \<lparr>rf_state = None, rf_outputs = None, rf_timers = None\<rparr> u = Inr acc1"
      and acc1: "fields_perm acc acc1"
      using field_fold_perm [OF w(2) table(2), of "\<lparr>rf_state = None, rf_outputs = None, rf_timers = None\<rparr>"]
      by (auto simp: fields_perm_def)
    then have fold: "try_fold (result_field_step vm)
        \<lparr>rf_state = None, rf_outputs = None, rf_timers = None\<rparr> t = Inr acc1"
      using field_loop.loop_permute [OF w(3)] by blast
    have "convert_state vm (rf_state acc1) current limits = Inr (tr_state tr)"
      "convert_outputs vm endpoints (rf_outputs acc1) = Inr (tr_outputs tr)"
      "convert_timers vm (rf_timers acc1) pending now limits = Inr (tr_timers tr)"
      using convert_state_perm [OF table(3)] convert_outputs_perm [OF table(4)]
        convert_timers_perm [OF table(5) _ assms(3)] acc1
      by (simp_all add: fields_perm_def)
    with fold table(6) show ?thesis by (simp add: w(1) convert_result_def)
  qed (use assms(1) in simp)
qed

end
