(* ===== verification/Lua_Execution.thy ===== *)
theory Lua_Execution
  imports Handler_Results
begin

text \<open>
  \<open>lua_execution.rs\<close>: one handler call.  The source is checked and loaded in a fresh
  restricted machine, the five read-only arguments are built from the trigger, the input
  snapshots, the state and the time context, and the returned values are converted.
\<close>

datatype trigger =
    TrigInput input_trigger
  | TrigTimer timer_trigger
  | TrigSchedule schedule_trigger

subsection \<open>Arguments\<close>

text \<open>
  A backing table under its string keys; setting \<open>nil\<close> removes the key.  Unsigned 64-bit
  numbers become Lua integers when they fit and floats otherwise, as the binding converts them.
\<close>

type_synonym backing = "(rstring, lua_value) btree_map"

definition lua_set :: "rstring \<Rightarrow> lua_value \<Rightarrow> backing \<Rightarrow> backing" where
  "lua_set k v t = (if v = LNil then btm_remove k t else btm_insert k v t)"

definition lua_table_of :: "(rstring \<times> lua_value) list \<Rightarrow> backing" where
  "lua_table_of kvs = foldl (\<lambda>t (k, v). lua_set k v t) [] kvs"

definition u64_to_lua :: "u64 \<Rightarrow> lua_value" where
  "u64_to_lua n =
     (if uint n \<le> i64_max then LInteger (uint n) else LNumber (f64_of_int (uint n)))"

fun event_fields :: "trigger \<Rightarrow> (rstring \<times> lua_value) list" where
  "event_fields (TrigInput t) =
     [(''type'', LString ''input''),
      (''input'', LString (endpoint_str (it_endpoint t))),
      (''value'', typed_value_to_lua (it_value t)),
      (''previous'', case it_previous t of None \<Rightarrow> LNil | Some p \<Rightarrow> typed_value_to_lua p),
      (''changed'', LBool (it_changed t)),
      (''rising'', LBool (it_rising t)),
      (''falling'', LBool (it_falling t))]"
| "event_fields (TrigTimer t) =
     [(''type'', LString ''input''),
      (''type'', LString ''timer''),
      (''timer'', LString (timer_str (tt_name t))),
      (''scheduled_at'', u64_to_lua (tt_scheduled_at t)),
      (''due_at'', u64_to_lua (tt_due_at t)),
      (''fired_at'', u64_to_lua (tt_fired_at t))]"
| "event_fields (TrigSchedule t) =
     [(''type'', LString ''input''),
      (''type'', LString ''schedule''),
      (''block_id'', LString (block_str (st_block_id t))),
      (''schedule'', LString (schedule_str (st_name t))),
      (''kind'', LString (schedule_kind_display (st_kind t))),
      (''scheduled_for_utc_ms'', LInteger (st_scheduled_for_utc_ms t)),
      (''detected_at_utc_ms'', LInteger (st_detected_at_utc_ms t)),
      (''coalesced_count'', LInteger (sint (st_coalesced_count t))),
      (''structural_revision'', LInteger (sint (st_structural_revision t)))]"

definition input_fields :: "input_snapshot list \<Rightarrow> (rstring \<times> lua_value) list" where
  "input_fields snapshots =
     concat (map
       (\<lambda>s. case is_value s of
          None \<Rightarrow> []
        | Some v \<Rightarrow> [(endpoint_str (is_endpoint s), typed_value_to_lua v)])
       snapshots)"

definition metadata_fields :: "input_snapshot \<Rightarrow> (rstring \<times> lua_value) list" where
  "metadata_fields s =
     (''valid'', LBool (is_valid s)) #
     (case is_age_ms s of None \<Rightarrow> [] | Some age \<Rightarrow> [(''age_ms'', u64_to_lua age)])"

definition sun_fields :: "sun_context \<Rightarrow> (rstring \<times> lua_value) list" where
  "sun_fields sun =
     (case sun_elevation_degrees sun of
        None \<Rightarrow> []
      | Some e \<Rightarrow> [(''elevation'', LNumber e), (''elevation_degrees'', LNumber e)]) @
     (case sun_azimuth_degrees sun of
        None \<Rightarrow> []
      | Some a \<Rightarrow> [(''azimuth'', LNumber a), (''azimuth_degrees'', LNumber a)])"

text \<open>
  The handler's arguments \<open>event, input, meta, state, ctx\<close>.  Every table reaches Lua behind a
  read-only proxy; \<open>now\<close> and the four solar events are userdata.
\<close>

record handler_arguments =
  ha_event :: backing
  ha_input :: backing
  ha_meta :: "(rstring, backing) btree_map"
  ha_state :: backing
  ha_now :: date_time_value
  ha_sun_events :: "(rstring \<times> date_time_value) list"
  ha_sun :: backing

definition handler_arguments_of ::
  "trigger \<Rightarrow> input_snapshot list \<Rightarrow> transient_state \<Rightarrow> time_context \<Rightarrow> handler_arguments" where
  "handler_arguments_of trigger snapshots state tc =
     \<lparr>ha_event = lua_table_of (event_fields trigger),
      ha_input = lua_table_of (input_fields snapshots),
      ha_meta = foldl
        (\<lambda>m s. btm_insert (endpoint_str (is_endpoint s)) (lua_table_of (metadata_fields s)) m)
        [] snapshots,
      ha_state = lua_table_of (map (\<lambda>(k, v). (k, state_value_to_lua v)) state),
      ha_now = tc_now tc,
      ha_sun_events =
        [(''dawn'', sun_dawn (tc_sun tc)), (''sunrise'', sun_sunrise (tc_sun tc)),
         (''sunset'', sun_sunset (tc_sun tc)), (''dusk'', sun_dusk (tc_sun tc))],
      ha_sun = lua_table_of (sun_fields (tc_sun tc))\<rparr>"

subsection \<open>The call\<close>

type_synonym machine = "handler_arguments lua_vm"

definition single_result :: "lua_value list \<Rightarrow> logic_error + lua_value" where
  "single_result vs =
     (case vs of
        [] \<Rightarrow> Inr LNil
      | [v] \<Rightarrow> Inr v
      | _ \<Rightarrow> Inl (LogicInvalidResult
          (MsgText ''handle must return nil or one result table'') None))"

definition execute_logic ::
  "machine \<Rightarrow> endpoint list \<Rightarrow> logic_program \<Rightarrow> input_snapshot list \<Rightarrow> trigger \<Rightarrow> transient_state
     \<Rightarrow> pending_map \<Rightarrow> monotonic_ms \<Rightarrow> time_context \<Rightarrow> runtime_limits \<Rightarrow> budget_probe option
     \<Rightarrow> logic_error + transition" where
  "execute_logic vm endpoints program snapshots trigger state pending now tc limits probe =
     (let arguments = handler_arguments_of trigger snapshots state tc;
          hook = instruction_hook limits probe
      in
        result_bind (load_handle vm PhaseRuntime (lp_source program) limits probe) (\<lambda>_.
        result_bind (vm_check (vm_arguments vm limits arguments) PhaseRuntime) (\<lambda>_.
        result_bind
          (map_err (\<lambda>e. map_lua_error e PhaseRuntime)
            (vm_call vm limits hook (lp_source program) arguments)) (\<lambda>returned.
        result_bind (single_result returned) (\<lambda>result.
          convert_result vm endpoints result state pending now limits)))))"

subsection \<open>What an execution guarantees\<close>

lemma execute_logic_converts:
  assumes "execute_logic vm endpoints program snapshots trigger state pending now tc limits probe
    = Inr tr"
  obtains result where "convert_result vm endpoints result state pending now limits = Inr tr"
  using assms by (auto simp: execute_logic_def Let_def result_simps)

lemma execute_logic_ok:
  assumes "execute_logic vm endpoints program snapshots trigger state pending now tc limits probe
      = Inr tr"
    and "state_ok limits state" and "length pending \<le> max_pending_timers_per_block limits"
  shows "transition_ok endpoints state pending now limits tr" and "btm_sorted (tr_state tr)"
  using execute_logic_converts [OF assms(1)] convert_result_ok [OF _ assms(2,3)]
    convert_result_sorted by metis+

text \<open>
  A successful handler call returns a transition the engine can commit as it stands,
  whatever the Lua machine does: its state patch merges within the limits of the block, each
  output is a well-formed value of the datapoint type of a declared output endpoint and they
  come in declaration order, each timer effect agrees with the pending timers and has a
  deadline strictly in the future that did not overflow, every count respects its limit, and
  applying the timer effects keeps the block within its pending-timer limit.
\<close>

theorem execute_logic_transition_ok:
  assumes "execute_logic vm endpoints program snapshots trigger state pending now tc limits probe
      = Inr tr"
    and "state_ok limits state" and "length pending \<le> max_pending_timers_per_block limits"
  shows "transition_ok endpoints state pending now limits tr"
  using assms by (rule execute_logic_ok(1))

subsection \<open>A concrete machine\<close>

text \<open>
  A machine for the instances of the theorems: it loads every source, and its handler returns
  a fixed list of values.
\<close>

definition no_error :: "'b \<Rightarrow> mlua_error option" where "no_error _ = None"
definition no_error2 :: "'b \<Rightarrow> 'c \<Rightarrow> mlua_error option" where "no_error2 _ _ = None"
definition no_error3 :: "'b \<Rightarrow> 'c \<Rightarrow> 'd \<Rightarrow> mlua_error option" where "no_error3 _ _ _ = None"
definition handle_function :: "runtime_limits \<Rightarrow> hook \<Rightarrow> rstring \<Rightarrow> mlua_error + lua_value" where
  "handle_function _ _ _ = Inr LFunction"
definition returns ::
  "lua_value list \<Rightarrow> runtime_limits \<Rightarrow> hook \<Rightarrow> rstring \<Rightarrow> handler_arguments
     \<Rightarrow> mlua_error + lua_value list" where
  "returns vs _ _ _ _ = Inr vs"
definition utf8_failure :: "rstring \<Rightarrow> mlua_error" where
  "utf8_failure _ = OtherLuaError ''invalid utf-8''"

definition constant_machine :: "lua_value list \<Rightarrow> machine" where
  "constant_machine vs =
     \<lparr>vm_new = no_error, vm_environment = no_error, vm_compile = no_error2, vm_run = no_error3,
      vm_handle = handle_function, vm_arguments = no_error2, vm_call = returns vs,
      vm_utf8_error = utf8_failure\<rparr>"

text \<open>A result that sets a state entry, switches an output on and schedules a timer.\<close>

definition sample_entries :: lua_table where
  "sample_entries =
     [Inr (LString ''state'', LTable [Inr (LString ''count'', LInteger 1)]),
      Inr (LString ''outputs'', LTable [Inr (LString ''lamp'', LBool True)]),
      Inr (LString ''timers'',
        LTable [Inr (LString ''off'', LTable [Inr (LString ''after'', LInteger 5000)])])]"

definition sample_result :: lua_value where
  "sample_result = LTable sample_entries"

definition sample_endpoints :: "endpoint list" where
  "sample_endpoints =
     [\<lparr>ep_name = EndpointName ''switch'', ep_direction = Input, ep_dpt = dpt_bool\<rparr>,
      \<lparr>ep_name = EndpointName ''lamp'', ep_direction = Output, ep_dpt = dpt_bool\<rparr>]"

definition sample_transition :: transition where
  "sample_transition =
     \<lparr>tr_state = [(''count'', SInteger 1)],
      tr_outputs = [\<lparr>oe_endpoint = EndpointName ''lamp'', oe_value = typed_bool True\<rparr>],
      tr_timers = [\<lparr>te_name = TimerName ''off'', te_action = TimerScheduled 5000 6000\<rparr>]\<rparr>"

definition sample_program :: logic_program where
  "sample_program = logic_program_new ''function handle() end''"

definition sample_input_trigger :: trigger where
  "sample_input_trigger =
     TrigInput (make_input_trigger (EndpointName ''switch'') (typed_bool True) None)"

text \<open>Small limits keep the evaluation of the instances cheap.\<close>

definition sample_limits :: runtime_limits where
  "sample_limits =
     \<lparr>max_logic_blocks = 4, max_signals = 4, max_signal_bindings = 8,
      max_endpoints_per_block = 4, max_schedules_per_block = 2,
      max_logic_source_bytes_per_block = 40, max_logic_source_bytes_total = 99,
      max_logic_instructions = 99, max_logic_memory_bytes = 99,
      logic_handler_time_budget_ms = None, signal_cascade_time_budget_ms = None,
      openknx_loop_warning_threshold_ms = None,
      max_state_entries_per_block = 2, max_state_bytes_per_block = 20,
      max_state_bytes_total = 40, max_pending_timers_per_block = 2,
      max_pending_timers_total = 4, max_output_effects_per_execution = 2,
      max_timer_effects_per_execution = 2, max_state_patch_entries_per_execution = 2,
      max_combined_effects_per_execution = 6, max_cascade_executions = 4,
      max_live_executions_per_block_per_second = 3\<rparr>"

lemma sample_names:
  "utf8_valid ''count''" "utf8_valid ''lamp''" "utf8_valid ''off''" "utf8_valid ''after''"
  "timer_name_new ''off'' = Inr (TimerName ''off'')"
  by code_simp+

lemma sample_deadline: "monotonic_checked_add 1000 5000 = Some 6000"
  by (simp add: monotonic_checked_add_def checked_add_word_def)

lemma sample_state:
  "convert_state vm (Some [Inr (LString ''count'', LInteger 1)]) [] sample_limits
     = Inr [(''count'', SInteger 1)]"
  by (simp add: convert_state_def state_patch_step_def table_pair_def string_key_def sample_names
      convert_state_value_def lua_scalar_to_state_def validate_state_entry_def sample_limits_def
      max_state_key_bytes_def btm_contains_def merge_state_with_limits_def Let_def
      validate_state_map_with_limits_def state_entry_bytes_def)

lemma sample_outputs:
  "convert_outputs vm sample_endpoints (Some [Inr (LString ''lamp'', LBool True)])
     = Inr [\<lparr>oe_endpoint = EndpointName ''lamp'', oe_value = typed_bool True\<rparr>]"
  by (simp add: convert_outputs_def output_step_def table_pair_def string_key_def sample_names
      sample_endpoints_def lua_to_typed_value_def dpt_class_iff collect_outputs_def)

lemma sample_timers:
  "convert_timers vm
     (Some [Inr (LString ''off'', LTable [Inr (LString ''after'', LInteger 5000)])]) [] 1000
     sample_limits
     = Inr [\<lparr>te_name = TimerName ''off'', te_action = TimerScheduled 5000 6000\<rparr>]"
  by (simp add: convert_timers_def timer_step_def table_pair_def string_key_def sample_names
      timer_action_of_def timer_field_step_def lua_duration_ms_def sample_deadline Let_def
      sample_limits_def apply_timer_effects_def)

lemma sample_combined:
  "check_combined_effects (Suc 0) (Suc 0) (Suc 0) sample_limits = Inr ()"
  by (simp add: check_combined_effects_def sample_limits_def)

lemma sample_convert:
  "convert_result vm sample_endpoints sample_result [] [] 1000 sample_limits
     = Inr sample_transition"
  by (simp add: convert_result_def sample_result_def sample_entries_def result_field_step_table sample_state
      sample_outputs sample_timers sample_combined sample_transition_def)

lemma sample_source: "\<not> trim_is_empty ''function handle() end''"
  by (simp add: trim_is_empty_def utf8_width_def utf8_code_def is_whitespace_code_def)

lemma sample_source_size:
  "check_source_size_with_limits (lp_source sample_program) sample_limits = Inr ()"
  by (simp add: check_source_size_with_limits_def sample_source sample_limits_def
      sample_program_def logic_program_new_def)

lemma sample_load:
  "load_handle (constant_machine vs) phase (lp_source sample_program) sample_limits probe = Inr ()"
  by (simp add: load_handle_def constant_machine_def no_error_def no_error2_def no_error3_def
      handle_function_def vm_check_def sample_source_size)

lemma sample_execute:
  "execute_logic (constant_machine [sample_result]) sample_endpoints sample_program []
     sample_input_trigger [] [] 1000 time_context_unavailable sample_limits None
     = Inr sample_transition"
proof -
  have "vm_arguments (constant_machine vs) limits arguments = None"
    and "vm_call (constant_machine vs) limits hook source arguments = Inr vs"
    for vs limits hook source arguments
    by (simp_all add: constant_machine_def no_error2_def returns_def)
  then show ?thesis
    by (simp add: execute_logic_def Let_def sample_load sample_convert single_result_def
        vm_check_def)
qed

theorem execute_logic_transition_ok_witness:
  "transition_ok sample_endpoints [] [] 1000 sample_limits sample_transition"
  by (rule execute_logic_transition_ok [OF sample_execute])
    (simp_all add: state_ok_def state_bytes_def)

theorem transition_order_independent_witness:
  "convert_result (constant_machine []) sample_endpoints (LTable (rev sample_entries)) [] [] 1000
     sample_limits = Inr sample_transition"
proof (rule transition_order_independent [OF sample_convert])
  show "distinct (map te_name (tr_timers sample_transition))"
    by (simp add: sample_transition_def)
  have "list_all2 entry_perm sample_entries sample_entries"
    by (rule list_all2_refl) (simp add: entry_perm_def)
  moreover have "mset sample_entries = mset (rev sample_entries)" by simp
  ultimately show "result_perm sample_result (LTable (rev sample_entries))"
    unfolding result_perm_def sample_result_def by blast
qed

end
