(* ===== verification/Engine.thy ===== *)
theory Engine
  imports Lua_Execution
begin

text \<open>
  \<open>engine.rs\<close> with its included files and \<open>support.rs\<close>: the event engine of one logic block.
  Every operation that mutates the engine returns its result with the engine after it, so a
  change made before an error is visible.  A panic of the code (an \<open>expect\<close> on a value the
  code believes to be present) is a value of the error type here, and is proved unreachable.
\<close>

subsection \<open>Signal identities and executions\<close>

type_synonym execution_id = u64

record signal_endpoint_id =
  se_block_id :: block_id
  se_endpoint :: endpoint_name

record signal_effect =
  sx_signal :: signal_name
  sx_value :: typed_value
  sx_changed :: bool
  sx_producer :: signal_endpoint_id
  sx_producing_execution :: "execution_id option"
  sx_consumers :: "signal_endpoint_id list"

record execution =
  ex_id :: "execution_id option"
  ex_causal_producer :: "execution_id option"
  ex_logic_revision :: logic_revision
  ex_trigger :: trigger
  ex_inputs :: "input_snapshot list"
  ex_state_before :: transient_state
  ex_state_after :: transient_state
  ex_pending_timers :: "pending_timer list"
  ex_outcome :: "logic_error + transition"
  ex_signal_effects :: "signal_effect list"
  ex_eligible_consumers :: "signal_endpoint_id list"
  ex_time_context :: time_context

text \<open>The services outside the core: the Lua machine and the time library.\<close>

record environment =
  env_vm :: machine
  env_time :: time_services

definition execution_with_now ::
  "environment \<Rightarrow> logic_revision \<Rightarrow> trigger \<Rightarrow> input_snapshot list \<Rightarrow> transient_state
     \<Rightarrow> transient_state \<Rightarrow> pending_timer list \<Rightarrow> logic_error + transition \<Rightarrow> site_time_config
     \<Rightarrow> int option \<Rightarrow> execution" where
  "execution_with_now env revision trigger inputs state_before state_after pending outcome site utc =
     \<lparr>ex_id = None, ex_causal_producer = None, ex_logic_revision = revision,
      ex_trigger = trigger, ex_inputs = inputs, ex_state_before = state_before,
      ex_state_after = state_after, ex_pending_timers = pending, ex_outcome = outcome,
      ex_signal_effects = [], ex_eligible_consumers = [],
      ex_time_context = time_context_capture (env_time env) site utc\<rparr>"

subsection \<open>The engine\<close>

record input_state =
  in_value :: "typed_value option"
  in_observed_at :: "monotonic_ms option"

definition input_unknown :: input_state where
  "input_unknown = \<lparr>in_value = None, in_observed_at = None\<rparr>"

record engine =
  eng_config :: engine_config
  eng_limits :: runtime_limits
  eng_inputs :: "input_state list"
  eng_state :: transient_state
  eng_pending_timers :: pending_map
  eng_last_accepted_at :: "monotonic_ms option"

definition engine_try_new_with_limits ::
  "environment \<Rightarrow> engine_config \<Rightarrow> runtime_limits \<Rightarrow> config_error + engine" where
  "engine_try_new_with_limits env config limits =
     result_bind (engine_config_validate_with_limits (env_vm env) config limits) (\<lambda>_.
       Inr \<lparr>eng_config = config, eng_limits = limits,
            eng_inputs = replicate (length (ec_endpoints config)) input_unknown,
            eng_state = [], eng_pending_timers = [], eng_last_accepted_at = None\<rparr>)"

abbreviation eng_endpoints :: "engine \<Rightarrow> endpoint list" where
  "eng_endpoints eng \<equiv> ec_endpoints (eng_config eng)"

definition active_logic_revision :: "engine \<Rightarrow> logic_revision" where
  "active_logic_revision eng = lp_revision (ec_logic (eng_config eng))"

record source_activation =
  sa_logic_revision :: logic_revision
  sa_cancelled_timers :: "timer_name list"
  sa_changed :: bool

definition activate_source ::
  "environment \<Rightarrow> rstring \<Rightarrow> engine \<Rightarrow> (logic_error + source_activation) \<times> engine" where
  "activate_source env source eng =
     (case logic_program_try_new_with_limits (env_vm env) source (eng_limits eng) of
        Inl e \<Rightarrow> (Inl e, eng)
      | Inr program \<Rightarrow>
          let revision = lp_revision program
          in if revision = active_logic_revision eng
             then (Inr \<lparr>sa_logic_revision = revision, sa_cancelled_timers = [],
                         sa_changed = False\<rparr>, eng)
             else (Inr \<lparr>sa_logic_revision = revision,
                         sa_cancelled_timers = btm_keys (eng_pending_timers eng),
                         sa_changed = True\<rparr>,
                   eng\<lparr>eng_pending_timers := [],
                       eng_config := (eng_config eng)\<lparr>ec_logic := program\<rparr>\<rparr>))"

definition replace_logic ::
  "environment \<Rightarrow> rstring \<Rightarrow> logic_revision \<Rightarrow> engine \<Rightarrow> (logic_error + unit) \<times> engine" where
  "replace_logic env source revision eng =
     (case logic_program_try_new_with_limits (env_vm env) source (eng_limits eng) of
        Inl e \<Rightarrow> (Inl e, eng)
      | Inr program \<Rightarrow>
          if lp_revision program \<noteq> revision then (Inl revision_mismatch, eng)
          else if lp_revision program \<noteq> active_logic_revision eng
            then (Inr (), eng\<lparr>eng_pending_timers := [],
                              eng_config := (eng_config eng)\<lparr>ec_logic := program\<rparr>\<rparr>)
          else (Inr (), eng))"

definition replace_logic_with_cancellations ::
  "environment \<Rightarrow> rstring \<Rightarrow> logic_revision \<Rightarrow> engine
     \<Rightarrow> (logic_error + source_activation) \<times> engine" where
  "replace_logic_with_cancellations env source revision eng =
     (case logic_program_try_new_with_limits (env_vm env) source (eng_limits eng) of
        Inl e \<Rightarrow> (Inl e, eng)
      | Inr program \<Rightarrow>
          if lp_revision program \<noteq> revision then (Inl revision_mismatch, eng)
          else activate_source env source eng)"

subsection \<open>Validation of events\<close>

definition validate_endpoint :: "engine \<Rightarrow> endpoint_name \<Rightarrow> event_error + nat" where
  "validate_endpoint eng name =
     (case position (\<lambda>e. ep_name e = name) (eng_endpoints eng) of
        None \<Rightarrow> Inl (UnknownEndpoint name)
      | Some index \<Rightarrow>
          if ep_direction (eng_endpoints eng ! index) \<noteq> Input
          then Inl (EndpointNotInput name (ep_direction (eng_endpoints eng ! index)))
          else Inr index)"

definition validate_input :: "engine \<Rightarrow> endpoint_name \<Rightarrow> typed_value \<Rightarrow> event_error + nat" where
  "validate_input eng name v =
     result_bind (validate_endpoint eng name) (\<lambda>index.
       if ep_dpt (eng_endpoints eng ! index) \<noteq> tv_dpt v
       then Inl (EventDptMismatch name (ep_dpt (eng_endpoints eng ! index)) (tv_dpt v))
       else Inr index)"

definition accept_time :: "monotonic_ms \<Rightarrow> engine \<Rightarrow> (event_error + unit) \<times> engine" where
  "accept_time now eng =
     (case eng_last_accepted_at eng of
        Some previous \<Rightarrow>
          if now < previous then (Inl (TimeWentBackwards previous now), eng)
          else (Inr (), eng\<lparr>eng_last_accepted_at := Some now\<rparr>)
      | None \<Rightarrow> (Inr (), eng\<lparr>eng_last_accepted_at := Some now\<rparr>))"

definition snapshot_of :: "monotonic_ms \<Rightarrow> endpoint \<Rightarrow> input_state \<Rightarrow> input_snapshot" where
  "snapshot_of now e s =
     \<lparr>is_endpoint = ep_name e, is_dpt = ep_dpt e, is_value = in_value s,
      is_valid = (in_value s \<noteq> None \<and> in_observed_at s \<noteq> None),
      is_age_ms = map_option (\<lambda>t. saturating_sub_word now t) (in_observed_at s)\<rparr>"

definition input_snapshots :: "engine \<Rightarrow> monotonic_ms \<Rightarrow> input_snapshot list" where
  "input_snapshots eng now =
     map (\<lambda>(e, s). snapshot_of now e s)
       (filter (\<lambda>(e, s). ep_direction e = Input) (zip (eng_endpoints eng) (eng_inputs eng)))"

definition known_input_values :: "engine \<Rightarrow> (endpoint_name \<times> typed_value) list" where
  "known_input_values eng =
     concat (map
       (\<lambda>(e, s). if ep_direction e = Input
          then (case in_value s of None \<Rightarrow> [] | Some v \<Rightarrow> [(ep_name e, v)]) else [])
       (zip (eng_endpoints eng) (eng_inputs eng)))"

definition next_timer_deadline :: "engine \<Rightarrow> monotonic_ms option" where
  "next_timer_deadline eng =
     (case map pt_due_at (btm_values (eng_pending_timers eng)) of
        [] \<Rightarrow> None
      | due # dues \<Rightarrow> Some (fold min dues due))"

subsection \<open>Live execution\<close>

text \<open>
  The part the three live entry points share: run the handler on the current snapshots and
  commit a successful transition.
\<close>

definition execute_and_commit ::
  "environment \<Rightarrow> trigger \<Rightarrow> monotonic_ms \<Rightarrow> site_time_config \<Rightarrow> int option \<Rightarrow> budget_probe option
     \<Rightarrow> engine \<Rightarrow> (event_error + execution) \<times> engine" where
  "execute_and_commit env trigger now site utc probe eng =
     (let snapshots = input_snapshots eng now;
          state_before = eng_state eng;
          outcome = execute_logic (env_vm env) (eng_endpoints eng) (ec_logic (eng_config eng))
            snapshots trigger state_before (eng_pending_timers eng) now
            (time_context_capture (env_time env) site utc) (eng_limits eng) probe
      in case outcome of
           Inl _ \<Rightarrow>
             (Inr (execution_with_now env (active_logic_revision eng) trigger snapshots
                state_before state_before (btm_values (eng_pending_timers eng)) outcome site utc),
              eng)
         | Inr tr \<Rightarrow>
             (case merge_state_with_limits state_before (tr_state tr) (eng_limits eng) of
                Inl _ \<Rightarrow> (Inl (EventPanic ''validated transition state must merge''), eng)
              | Inr state_after \<Rightarrow>
                  let candidate = apply_timer_effects (eng_pending_timers eng) (tr_timers tr) now
                        (active_logic_revision eng)
                  in (Inr (execution_with_now env (active_logic_revision eng) trigger snapshots
                        state_before state_after (btm_values candidate) outcome site utc),
                      eng\<lparr>eng_state := state_after, eng_pending_timers := candidate\<rparr>)))"

definition process_input_update_with_context ::
  "environment \<Rightarrow> endpoint_name \<Rightarrow> input_update \<Rightarrow> monotonic_ms \<Rightarrow> site_time_config \<Rightarrow> int option
     \<Rightarrow> budget_probe option \<Rightarrow> engine \<Rightarrow> (event_error + execution option) \<times> engine" where
  "process_input_update_with_context env name update now site utc probe eng =
     (case (case update of
              Observe v \<Rightarrow> validate_input eng name v
            | UpdTrigger v \<Rightarrow> validate_input eng name v
            | Invalidate \<Rightarrow> validate_endpoint eng name) of
        Inl e \<Rightarrow> (Inl e, eng)
      | Inr index \<Rightarrow>
          (case accept_time now eng of
             (Inl e, eng) \<Rightarrow> (Inl e, eng)
           | (Inr _, eng) \<Rightarrow>
               (case update of
                  Observe v \<Rightarrow>
                    (Inr None, eng\<lparr>eng_inputs := (eng_inputs eng)
                       [index := \<lparr>in_value = Some v, in_observed_at = Some now\<rparr>]\<rparr>)
                | Invalidate \<Rightarrow>
                    (Inr None, eng\<lparr>eng_inputs := (eng_inputs eng)[index := input_unknown]\<rparr>)
                | UpdTrigger v \<Rightarrow>
                    let previous = in_value (eng_inputs eng ! index);
                        eng = eng\<lparr>eng_inputs := (eng_inputs eng)
                          [index := \<lparr>in_value = Some v, in_observed_at = Some now\<rparr>]\<rparr>
                    in (case execute_and_commit env
                             (TrigInput (make_input_trigger name v previous)) now site utc probe eng of
                          (Inl e, eng) \<Rightarrow> (Inl e, eng)
                        | (Inr execution, eng) \<Rightarrow> (Inr (Some execution), eng)))))"

text \<open>The earliest due timer, ties broken by name.\<close>

definition timer_order :: "pending_timer \<Rightarrow> monotonic_ms \<times> timer_name" where
  "timer_order t = (pt_due_at t, pt_name t)"

definition next_due_timer :: "monotonic_ms \<Rightarrow> pending_map \<Rightarrow> pending_timer option" where
  "next_due_timer now pending =
     min_by (\<lambda>a b. timer_order a < timer_order b)
       (filter (\<lambda>t. pt_due_at t \<le> now) (btm_values pending))"

definition process_next_due_timer_with_context ::
  "environment \<Rightarrow> monotonic_ms \<Rightarrow> site_time_config \<Rightarrow> int option \<Rightarrow> budget_probe option
     \<Rightarrow> engine \<Rightarrow> (event_error + execution option) \<times> engine" where
  "process_next_due_timer_with_context env now site utc probe eng =
     (case accept_time now eng of
        (Inl e, eng) \<Rightarrow> (Inl e, eng)
      | (Inr _, eng) \<Rightarrow>
          (case next_due_timer now (eng_pending_timers eng) of
             None \<Rightarrow> (Inr None, eng)
           | Some timer \<Rightarrow>
               let eng = eng\<lparr>eng_pending_timers :=
                     btm_remove (pt_name timer) (eng_pending_timers eng)\<rparr>
               in if pt_scheduled_logic_revision timer \<noteq> active_logic_revision eng
                  then (Inl (StaleTimer (pt_name timer) (pt_scheduled_logic_revision timer)
                          (active_logic_revision eng)), eng)
                  else
                    let trigger = TrigTimer
                          \<lparr>tt_name = pt_name timer, tt_scheduled_at = pt_scheduled_at timer,
                           tt_due_at = pt_due_at timer, tt_fired_at = now,
                           tt_scheduled_logic_revision = pt_scheduled_logic_revision timer\<rparr>
                    in (case execute_and_commit env trigger now site utc probe eng of
                          (Inl e, eng) \<Rightarrow> (Inl e, eng)
                        | (Inr execution, eng) \<Rightarrow> (Inr (Some execution), eng))))"

definition process_schedule_trigger_with_budget_probe ::
  "environment \<Rightarrow> schedule_trigger \<Rightarrow> site_time_config \<Rightarrow> int option \<Rightarrow> monotonic_ms
     \<Rightarrow> budget_probe option \<Rightarrow> engine \<Rightarrow> (event_error + execution) \<times> engine" where
  "process_schedule_trigger_with_budget_probe env trigger site utc now probe eng =
     execute_and_commit env (TrigSchedule trigger) now site utc probe eng"

end
