(* ===== verification/Engine_Invariants.thy ===== *)
theory Engine_Invariants
  imports Engine
begin

text \<open>
  The invariant of a block's engine, its preservation by every live operation, and what the
  operations do: no panic and no stale timer, errors without mutation, failed handlers without
  effects, the choice of the next timer, and atomic source activation.
\<close>

subsection \<open>The invariant\<close>

text \<open>
  An input is known exactly when it was observed; only inputs are, with a value of the
  endpoint's datapoint type, at a time the engine has accepted.
\<close>

definition input_ok :: "monotonic_ms option \<Rightarrow> endpoint \<Rightarrow> input_state \<Rightarrow> bool" where
  "input_ok accepted e s \<longleftrightarrow>
     (in_value s = None \<longleftrightarrow> in_observed_at s = None)
     \<and> (\<forall>v. in_value s = Some v \<longrightarrow> ep_direction e = Input \<and> tv_dpt v = ep_dpt e)
     \<and> (\<forall>t. in_observed_at s = Some t \<longrightarrow> (\<exists>l. accepted = Some l \<and> t \<le> l))"

text \<open>A pending timer is due strictly after it was scheduled.\<close>

definition timers_future :: "pending_map \<Rightarrow> bool" where
  "timers_future pending \<longleftrightarrow> (\<forall>t \<in> set (btm_values pending). pt_scheduled_at t < pt_due_at t)"

definition engine_ok :: "engine \<Rightarrow> bool" where
  "engine_ok eng \<longleftrightarrow>
     engine_config_wf (eng_config eng) (eng_limits eng)
     \<and> list_all2 (input_ok (eng_last_accepted_at eng)) (eng_endpoints eng) (eng_inputs eng)
     \<and> state_ok (eng_limits eng) (eng_state eng)
     \<and> pending_ok (active_logic_revision eng) (eng_pending_timers eng)
     \<and> length (eng_pending_timers eng) \<le> max_pending_timers_per_block (eng_limits eng)
     \<and> timers_future (eng_pending_timers eng)"

lemma engine_okI [wf_intros]:
  assumes "engine_config_wf (eng_config eng) (eng_limits eng)"
    and "list_all2 (input_ok (eng_last_accepted_at eng)) (eng_endpoints eng) (eng_inputs eng)"
    and "state_ok (eng_limits eng) (eng_state eng)"
    and "pending_ok (active_logic_revision eng) (eng_pending_timers eng)"
    and "length (eng_pending_timers eng) \<le> max_pending_timers_per_block (eng_limits eng)"
    and "timers_future (eng_pending_timers eng)"
  shows "engine_ok eng"
  using assms by (simp add: engine_ok_def)

lemma engine_okD:
  assumes "engine_ok eng"
  shows "engine_config_wf (eng_config eng) (eng_limits eng)"
    and "list_all2 (input_ok (eng_last_accepted_at eng)) (eng_endpoints eng) (eng_inputs eng)"
    and "state_ok (eng_limits eng) (eng_state eng)"
    and "pending_ok (active_logic_revision eng) (eng_pending_timers eng)"
    and "length (eng_pending_timers eng) \<le> max_pending_timers_per_block (eng_limits eng)"
    and "timers_future (eng_pending_timers eng)"
  using assms by (simp_all add: engine_ok_def)

lemma timers_future_Nil [simp]: "timers_future []"
  by (simp add: timers_future_def btm_values_def)

lemma timers_future_remove: "timers_future m \<Longrightarrow> timers_future (btm_remove k m)"
  by (auto simp: timers_future_def btm_values_def btm_remove_def)

lemma timers_future_insert:
  "timers_future m \<Longrightarrow> pt_scheduled_at t < pt_due_at t \<Longrightarrow> timers_future (btm_insert k t m)"
  using set_btm_insert_subset [of k t m] by (fastforce simp: timers_future_def btm_values_def)

lemma timers_future_effects:
  assumes "timers_future m" and "\<forall>eff \<in> set effects. timer_effect_ok pending now eff"
  shows "timers_future (apply_timer_effects m effects now r)"
  using assms
proof (induction effects arbitrary: m)
  case (Cons eff effects)
  have "now < due" if "unat due = unat now + unat after" "after \<noteq> (0 :: u32)" for due after
    using that by (simp add: word_less_nat_alt unat_gt_0)
  then have "timers_future (case snd (effect_edit now r eff) of
      None \<Rightarrow> btm_remove (te_name eff) m | Some t \<Rightarrow> btm_insert (te_name eff) t m)"
    using Cons.prems
    by (cases "te_action eff")
      (auto simp: timer_effect_ok_def intro!: timers_future_remove timers_future_insert)
  then show ?case using Cons.IH Cons.prems(2) unfolding apply_timer_effects_Cons by simp
qed (simp add: apply_timer_effects_def)

lemma input_ok_later:
  assumes "input_ok accepted e s" and "\<And>l. accepted = Some l \<Longrightarrow> l \<le> now"
  shows "input_ok (Some now) e s"
  using assms by (fastforce simp: input_ok_def)

subsection \<open>Steps of the live operations\<close>

lemma engine_try_new_ok:
  assumes "engine_try_new_with_limits env config limits = Inr eng"
  shows "engine_ok eng" and "eng_config eng = config" and "eng_limits eng = limits"
proof -
  have eng: "eng = \<lparr>eng_config = config, eng_limits = limits,
      eng_inputs = replicate (length (ec_endpoints config)) input_unknown,
      eng_state = [], eng_pending_timers = [], eng_last_accepted_at = None\<rparr>"
    and wf: "engine_config_wf config limits"
    using assms by (auto simp: engine_try_new_with_limits_def result_simps engine_config_validate_ok)
  show "engine_ok eng" and "eng_config eng = config" and "eng_limits eng = limits"
    using wf by (auto simp: eng engine_ok_def list_all2_conv_all_nth input_ok_def input_unknown_def
        state_ok_def state_bytes_def)
qed

lemma accept_time_cases:
  obtains (rejected) previous where "eng_last_accepted_at eng = Some previous" "now < previous"
      "accept_time now eng = (Inl (TimeWentBackwards previous now), eng)"
  | (accepted) "\<And>l. eng_last_accepted_at eng = Some l \<Longrightarrow> l \<le> now"
      "accept_time now eng = (Inr (), eng\<lparr>eng_last_accepted_at := Some now\<rparr>)"
proof (cases "\<exists>l. eng_last_accepted_at eng = Some l \<and> now < l")
  case True
  then show ?thesis using rejected by (auto simp: accept_time_def)
next
  case False
  then have "accept_time now eng = (Inr (), eng\<lparr>eng_last_accepted_at := Some now\<rparr>)"
    by (auto simp: accept_time_def split: option.splits)
  with False show ?thesis by (intro accepted) (auto simp: not_less)
qed

lemma engine_ok_accept:
  assumes "engine_ok eng" and "\<And>l. eng_last_accepted_at eng = Some l \<Longrightarrow> l \<le> now"
  shows "engine_ok (eng\<lparr>eng_last_accepted_at := Some now\<rparr>)"
proof -
  have "list_all2 (input_ok (Some now)) (eng_endpoints eng) (eng_inputs eng)"
    using engine_okD(2) [OF assms(1)] by (rule list_all2_mono) (blast intro: input_ok_later assms(2))
  then show ?thesis using assms(1) by (simp add: engine_ok_def active_logic_revision_def)
qed

text \<open>Running a handler: it never panics, and commits all of a transition or nothing.\<close>

lemma execute_and_commit_spec:
  assumes "engine_ok eng" and "execute_and_commit env trigger now site utc probe eng = (r, eng')"
  obtains ex where "r = Inr ex" and "engine_ok eng'"
    and "eng_config eng' = eng_config eng" and "eng_limits eng' = eng_limits eng"
    and "eng_inputs eng' = eng_inputs eng" and "eng_last_accepted_at eng' = eng_last_accepted_at eng"
    and "ex_trigger ex = trigger" and "ex_logic_revision ex = active_logic_revision eng"
    and "ex_inputs ex = input_snapshots eng now" and "ex_state_before ex = eng_state eng"
    and "ex_state_after ex = eng_state eng'"
    and "ex_pending_timers ex = btm_values (eng_pending_timers eng')"
    and "\<And>e. ex_outcome ex = Inl e \<Longrightarrow> eng' = eng"
    and "\<And>tr. ex_outcome ex = Inr tr \<Longrightarrow>
      transition_ok (eng_endpoints eng) (eng_state eng) (eng_pending_timers eng) now
        (eng_limits eng) tr
      \<and> merge_state_with_limits (eng_state eng) (tr_state tr) (eng_limits eng) = Inr (eng_state eng')
      \<and> eng_pending_timers eng' = apply_timer_effects (eng_pending_timers eng) (tr_timers tr) now
          (active_logic_revision eng)"
proof -
  note ok = engine_okD [OF assms(1)]
  define outcome where "outcome =
    execute_logic (env_vm env) (eng_endpoints eng) (ec_logic (eng_config eng))
      (input_snapshots eng now) trigger (eng_state eng) (eng_pending_timers eng) now
      (time_context_capture (env_time env) site utc) (eng_limits eng) probe"
  show ?thesis
  proof (cases outcome)
    case (Inl e)
    define ex where "ex = execution_with_now env (active_logic_revision eng) trigger
        (input_snapshots eng now) (eng_state eng) (eng_state eng)
        (btm_values (eng_pending_timers eng)) outcome site utc"
    have r: "r = Inr ex" and eng': "eng' = eng"
      using assms(2) Inl by (auto simp: execute_and_commit_def Let_def ex_def simp flip: outcome_def)
    have "ex_outcome ex = Inl e" by (simp add: ex_def execution_with_now_def Inl)
    then show ?thesis
      using assms(1) by (intro that [OF r]) (simp_all add: eng' ex_def execution_with_now_def)
  next
    case (Inr tr)
    have tr: "transition_ok (eng_endpoints eng) (eng_state eng) (eng_pending_timers eng) now
        (eng_limits eng) tr"
      using execute_logic_ok(1) [OF Inr [unfolded outcome_def] ok(3,5)] .
    then obtain merged where merged:
      "merge_state_with_limits (eng_state eng) (tr_state tr) (eng_limits eng) = Inr merged"
      by (auto simp: transition_ok_def)
    define candidate where "candidate =
      apply_timer_effects (eng_pending_timers eng) (tr_timers tr) now (active_logic_revision eng)"
    have r: "r = Inr (execution_with_now env (active_logic_revision eng) trigger
        (input_snapshots eng now) (eng_state eng) merged (btm_values candidate) outcome site utc)"
      and eng': "eng' = eng\<lparr>eng_state := merged, eng_pending_timers := candidate\<rparr>"
      using assms(2) Inr merged
      by (simp_all add: execute_and_commit_def Let_def candidate_def flip: outcome_def)
    have "state_ok (eng_limits eng) merged"
      using merge_state_ok [OF merged] ok(3) by (simp add: state_ok_def)
    moreover have "pending_ok (active_logic_revision eng) candidate"
      unfolding candidate_def using ok(4) by (rule apply_timer_effects_ok)
    moreover have "length candidate \<le> max_pending_timers_per_block (eng_limits eng)"
      using tr by (simp add: candidate_def transition_ok_def)
    moreover have "timers_future candidate"
      unfolding candidate_def using ok(6) tr
      by (intro timers_future_effects) (auto simp: transition_ok_def)
    ultimately have "engine_ok eng'"
      using ok by (simp add: eng' engine_ok_def active_logic_revision_def)
    then show ?thesis
      using tr merged Inr
      by (intro that [OF r]) (simp_all add: eng' execution_with_now_def candidate_def)
  qed
qed

lemma engine_ok_set_input:
  assumes "engine_ok eng" and "i < length (eng_endpoints eng)"
    and "input_ok (eng_last_accepted_at eng) (eng_endpoints eng ! i) s"
  shows "engine_ok (eng\<lparr>eng_inputs := (eng_inputs eng)[i := s]\<rparr>)"
  using assms
  by (auto simp: engine_ok_def active_logic_revision_def list_all2_conv_all_nth nth_list_update)

lemma validate_endpoint_ok:
  "validate_endpoint eng name = Inr i \<Longrightarrow>
   i < length (eng_endpoints eng) \<and> ep_name (eng_endpoints eng ! i) = name
   \<and> ep_direction (eng_endpoints eng ! i) = Input"
  by (auto simp: validate_endpoint_def dest: position_SomeD split: option.splits if_splits)

lemma validate_input_ok:
  "validate_input eng name v = Inr i \<Longrightarrow>
   i < length (eng_endpoints eng) \<and> ep_name (eng_endpoints eng ! i) = name
   \<and> ep_direction (eng_endpoints eng ! i) = Input \<and> tv_dpt v = ep_dpt (eng_endpoints eng ! i)"
  by (auto simp: validate_input_def result_simps dest: validate_endpoint_ok split: if_splits)

end
