(* ===== verification/Engine_Correctness.thy ===== *)
theory Engine_Correctness
  imports Engine_Invariants
begin

text \<open>
  What the live operations of an engine do: one lemma per operation that gives its cases, the
  reachable states, and the properties a host relies on.
\<close>

subsection \<open>The operations case by case\<close>

lemma validate_update_ok:
  assumes "(case update of
      Observe v \<Rightarrow> validate_input eng name v
    | UpdTrigger v \<Rightarrow> validate_input eng name v
    | Invalidate \<Rightarrow> validate_endpoint eng name) = Inr i"
  shows "i < length (eng_endpoints eng)" and "ep_name (eng_endpoints eng ! i) = name"
    and "ep_direction (eng_endpoints eng ! i) = Input"
    and "update = Observe v \<or> update = UpdTrigger v \<Longrightarrow> tv_dpt v = ep_dpt (eng_endpoints eng ! i)"
  using assms
  by (auto dest: validate_input_ok validate_endpoint_ok split: input_update.splits)

lemma engine_ok_observe:
  assumes "engine_ok eng" and "\<And>l. eng_last_accepted_at eng = Some l \<Longrightarrow> l \<le> now"
    and "i < length (eng_endpoints eng)" and "ep_direction (eng_endpoints eng ! i) = Input"
    and "tv_dpt v = ep_dpt (eng_endpoints eng ! i)"
  shows "engine_ok (eng\<lparr>eng_last_accepted_at := Some now, eng_inputs := (eng_inputs eng)
    [i := \<lparr>in_value = Some v, in_observed_at = Some now\<rparr>]\<rparr>)"
  using engine_ok_set_input [OF engine_ok_accept [OF assms(1,2)], of i
      "\<lparr>in_value = Some v, in_observed_at = Some now\<rparr>"] assms(3-)
  by (simp add: input_ok_def)

lemma engine_ok_invalidate:
  assumes "engine_ok eng" and "\<And>l. eng_last_accepted_at eng = Some l \<Longrightarrow> l \<le> now"
    and "i < length (eng_endpoints eng)"
  shows "engine_ok (eng\<lparr>eng_last_accepted_at := Some now,
    eng_inputs := (eng_inputs eng)[i := input_unknown]\<rparr>)"
  using engine_ok_set_input [OF engine_ok_accept [OF assms(1,2)], of i input_unknown] assms(3)
  by (simp add: input_ok_def input_unknown_def)

text \<open>The engine that a triggering update hands to the handler.\<close>

definition observed :: "monotonic_ms \<Rightarrow> nat \<Rightarrow> typed_value \<Rightarrow> engine \<Rightarrow> engine" where
  "observed now i v eng = eng\<lparr>eng_last_accepted_at := Some now, eng_inputs := (eng_inputs eng)
     [i := \<lparr>in_value = Some v, in_observed_at = Some now\<rparr>]\<rparr>"

lemma observed_simps [simp]:
  "eng_config (observed now i v eng) = eng_config eng"
  "eng_limits (observed now i v eng) = eng_limits eng"
  "eng_state (observed now i v eng) = eng_state eng"
  "eng_pending_timers (observed now i v eng) = eng_pending_timers eng"
  "eng_last_accepted_at (observed now i v eng) = Some now"
  "eng_inputs (observed now i v eng) =
     (eng_inputs eng)[i := \<lparr>in_value = Some v, in_observed_at = Some now\<rparr>]"
  "active_logic_revision (observed now i v eng) = active_logic_revision eng"
  by (simp_all add: observed_def active_logic_revision_def)

lemma process_input_update_cases:
  assumes "process_input_update_with_context env name update now site utc probe eng = (r, eng')"
  obtains
    (rejected) e where "r = Inl e" "eng' = eng" "\<And>m. e \<noteq> EventPanic m"
  | (quiet) i s where "r = Inr None"
      "eng' = eng\<lparr>eng_last_accepted_at := Some now, eng_inputs := (eng_inputs eng)[i := s]\<rparr>"
      "\<And>l. eng_last_accepted_at eng = Some l \<Longrightarrow> l \<le> now" "i < length (eng_endpoints eng)"
      "input_ok (Some now) (eng_endpoints eng ! i) s"
  | (triggered) i v r' where "update = UpdTrigger v"
      "validate_input eng name v = Inr i"
      "\<And>l. eng_last_accepted_at eng = Some l \<Longrightarrow> l \<le> now"
      "execute_and_commit env
         (TrigInput (make_input_trigger name v (in_value (eng_inputs eng ! i)))) now site utc probe
         (observed now i v eng) = (r', eng')"
      "r = (case r' of Inl e \<Rightarrow> Inl e | Inr ex \<Rightarrow> Inr (Some ex))"
proof (cases "case update of
      Observe v \<Rightarrow> validate_input eng name v
    | UpdTrigger v \<Rightarrow> validate_input eng name v
    | Invalidate \<Rightarrow> validate_endpoint eng name")
  case (Inl e)
  moreover from this have "e \<noteq> EventPanic m" for m
    by (auto simp: validate_input_def validate_endpoint_def result_simps
        split: input_update.splits option.splits if_splits)
  ultimately show ?thesis
    using assms rejected by (auto simp: process_input_update_with_context_def)
next
  case (Inr i)
  note i = validate_update_ok [OF Inr]
  show ?thesis
  proof (cases now eng rule: accept_time_cases)
    case (rejected previous)
    then show ?thesis
      using assms Inr that(1) by (auto simp: process_input_update_with_context_def)
  next
    case accepted
    show ?thesis
    proof (cases update)
      case (Observe v)
      show ?thesis
        using assms Inr accepted(2) Observe i
        by (intro quiet [OF _ _ accepted(1) i(1), of "\<lparr>in_value = Some v, in_observed_at = Some now\<rparr>"])
          (auto simp: process_input_update_with_context_def input_ok_def)
    next
      case Invalidate
      show ?thesis
        using assms Inr accepted(2) Invalidate i
        by (intro quiet [OF _ _ accepted(1) i(1), of input_unknown])
          (auto simp: process_input_update_with_context_def input_ok_def input_unknown_def)
    next
      case (UpdTrigger v)
      obtain r' eng'' where run: "execute_and_commit env
         (TrigInput (make_input_trigger name v (in_value (eng_inputs eng ! i)))) now site utc probe
         (observed now i v eng) = (r', eng'')" by fastforce
      then have "r = (case r' of Inl e \<Rightarrow> Inl e | Inr ex \<Rightarrow> Inr (Some ex))" and "eng'' = eng'"
        using assms Inr accepted(2) UpdTrigger
        by (auto simp: process_input_update_with_context_def observed_def Let_def split: sum.splits)
      with run show ?thesis
        using triggered [OF UpdTrigger _ accepted(1)] Inr UpdTrigger by simp
    qed
  qed
qed

lemma process_input_update_ok:
  assumes "engine_ok eng"
    and "process_input_update_with_context env name update now site utc probe eng = (r, eng')"
  shows "engine_ok eng'" and "eng_endpoints eng' = eng_endpoints eng"
    and "eng_limits eng' = eng_limits eng" and "r \<noteq> Inl (EventPanic m)"
    and "r = Inl e \<Longrightarrow> eng' = eng"
proof -
  from assms(2) have "engine_ok eng' \<and> eng_endpoints eng' = eng_endpoints eng
    \<and> eng_limits eng' = eng_limits eng \<and> r \<noteq> Inl (EventPanic m) \<and> (r = Inl e \<longrightarrow> eng' = eng)"
  proof (cases rule: process_input_update_cases)
    case (quiet i s)
    then show ?thesis
      using engine_ok_set_input [OF engine_ok_accept [OF assms(1) quiet(3)], of i s] by simp
  next
    case (triggered i v r')
    have "engine_ok (observed now i v eng)"
      using validate_input_ok [OF triggered(2)] engine_ok_observe [OF assms(1) triggered(3)]
      by (simp add: observed_def)
    from execute_and_commit_spec [OF this triggered(4)] show ?thesis
      using triggered(5) by (metis observed_simps(1,2) sum.case(2) sum.distinct(1))
  qed (use assms(1) in auto)
  then show "engine_ok eng'" and "eng_endpoints eng' = eng_endpoints eng"
    and "eng_limits eng' = eng_limits eng" and "r \<noteq> Inl (EventPanic m)"
    and "r = Inl e \<Longrightarrow> eng' = eng" by auto
qed

subsection \<open>Timers\<close>

lemma next_due_timer_spec:
  "next_due_timer now pending = Some t \<Longrightarrow>
   t \<in> set (btm_values pending) \<and> pt_due_at t \<le> now
   \<and> (\<forall>u \<in> set (btm_values pending). pt_due_at u \<le> now \<longrightarrow> timer_order t \<le> timer_order u)"
  using min_by_in_set [of "\<lambda>a b. timer_order a < timer_order b" _ t]
    min_by_key_least [of timer_order _ t]
  by (fastforce simp: next_due_timer_def)

lemma next_due_timer_None:
  "next_due_timer now pending = None \<longleftrightarrow> (\<forall>t \<in> set (btm_values pending). now < pt_due_at t)"
  by (auto simp: next_due_timer_def filter_empty_conv not_le)

lemma pending_ok_values:
  "pending_ok r pending \<Longrightarrow> t \<in> set (btm_values pending) \<Longrightarrow>
   (pt_name t, t) \<in> set pending \<and> pt_scheduled_logic_revision t = r"
  by (auto simp: pending_ok_def btm_values_def)

text \<open>The engine that a due timer's handler sees: the time accepted and the timer removed.\<close>

definition timer_taken :: "monotonic_ms \<Rightarrow> pending_timer \<Rightarrow> engine \<Rightarrow> engine" where
  "timer_taken now t eng = eng\<lparr>eng_last_accepted_at := Some now,
     eng_pending_timers := btm_remove (pt_name t) (eng_pending_timers eng)\<rparr>"

lemma timer_taken_simps [simp]:
  "eng_config (timer_taken now t eng) = eng_config eng"
  "eng_limits (timer_taken now t eng) = eng_limits eng"
  "eng_state (timer_taken now t eng) = eng_state eng"
  "eng_inputs (timer_taken now t eng) = eng_inputs eng"
  "eng_last_accepted_at (timer_taken now t eng) = Some now"
  "eng_pending_timers (timer_taken now t eng) = btm_remove (pt_name t) (eng_pending_timers eng)"
  "active_logic_revision (timer_taken now t eng) = active_logic_revision eng"
  by (simp_all add: timer_taken_def active_logic_revision_def)

lemma engine_ok_timer_taken:
  assumes "engine_ok eng" and "\<And>l. eng_last_accepted_at eng = Some l \<Longrightarrow> l \<le> now"
  shows "engine_ok (timer_taken now t eng)"
proof -
  note ok = engine_okD [OF engine_ok_accept [OF assms]]
  have "length (btm_remove k m) \<le> length m" for k and m :: pending_map
    by (simp add: btm_remove_def)
  then show ?thesis
    using ok pending_ok_remove timers_future_remove order_trans
    by (intro engine_okI) (fastforce simp: active_logic_revision_def)+
qed

definition timer_trigger_of :: "monotonic_ms \<Rightarrow> pending_timer \<Rightarrow> trigger" where
  "timer_trigger_of now t = TrigTimer
     \<lparr>tt_name = pt_name t, tt_scheduled_at = pt_scheduled_at t, tt_due_at = pt_due_at t,
      tt_fired_at = now, tt_scheduled_logic_revision = pt_scheduled_logic_revision t\<rparr>"

text \<open>The branch of a stale timer is not among the cases.\<close>

lemma process_next_due_timer_cases:
  assumes "engine_ok eng"
    and "process_next_due_timer_with_context env now site utc probe eng = (r, eng')"
  obtains
    (rejected) previous where "r = Inl (TimeWentBackwards previous now)" "eng' = eng"
      "eng_last_accepted_at eng = Some previous" "now < previous"
  | (none_due) "r = Inr None" "eng' = eng\<lparr>eng_last_accepted_at := Some now\<rparr>"
      "\<And>l. eng_last_accepted_at eng = Some l \<Longrightarrow> l \<le> now"
      "next_due_timer now (eng_pending_timers eng) = None"
  | (fired) t r' where "next_due_timer now (eng_pending_timers eng) = Some t"
      "\<And>l. eng_last_accepted_at eng = Some l \<Longrightarrow> l \<le> now"
      "execute_and_commit env (timer_trigger_of now t) now site utc probe (timer_taken now t eng)
         = (r', eng')"
      "r = (case r' of Inl e \<Rightarrow> Inl e | Inr ex \<Rightarrow> Inr (Some ex))"
proof (cases now eng rule: accept_time_cases)
  case (rejected previous)
  then show ?thesis
    using assms(2) that(1) by (auto simp: process_next_due_timer_with_context_def)
next
  case accepted
  show ?thesis
  proof (cases "next_due_timer now (eng_pending_timers eng)")
    case None
    then show ?thesis
      using assms(2) accepted that(2) by (auto simp: process_next_due_timer_with_context_def)
  next
    case (Some t)
    then have rev: "pt_scheduled_logic_revision t = active_logic_revision eng"
      using next_due_timer_spec pending_ok_values [OF engine_okD(4) [OF assms(1)]] by blast
    obtain r' eng'' where run: "execute_and_commit env (timer_trigger_of now t) now site utc probe
        (timer_taken now t eng) = (r', eng'')" by fastforce
    then have "r = (case r' of Inl e \<Rightarrow> Inl e | Inr ex \<Rightarrow> Inr (Some ex))" and "eng'' = eng'"
      using assms(2) accepted(2) Some rev
      by (auto simp: process_next_due_timer_with_context_def timer_taken_def timer_trigger_of_def
          active_logic_revision_def Let_def split: sum.splits)
    with run Some show ?thesis using that(3) [OF Some accepted(1)] by simp
  qed
qed

lemma process_next_due_timer_ok:
  assumes "engine_ok eng"
    and "process_next_due_timer_with_context env now site utc probe eng = (r, eng')"
  shows "engine_ok eng'" and "eng_endpoints eng' = eng_endpoints eng"
    and "eng_limits eng' = eng_limits eng"
    and "r = Inl e \<Longrightarrow> eng' = eng \<and> (\<exists>previous. e = TimeWentBackwards previous now)"
proof -
  from assms have "engine_ok eng' \<and> eng_endpoints eng' = eng_endpoints eng
    \<and> eng_limits eng' = eng_limits eng
    \<and> (r = Inl e \<longrightarrow> eng' = eng \<and> (\<exists>previous. e = TimeWentBackwards previous now))"
  proof (cases rule: process_next_due_timer_cases)
    case none_due
    then show ?thesis using engine_ok_accept [OF assms(1) none_due(3)] by simp
  next
    case (fired t r')
    from execute_and_commit_spec [OF engine_ok_timer_taken [OF assms(1) fired(2)] fired(3)]
    show ?thesis using fired(4) by (metis timer_taken_simps(1,2) sum.case(2) sum.distinct(1))
  qed (use assms(1) in auto)
  then show "engine_ok eng'" and "eng_endpoints eng' = eng_endpoints eng"
    and "eng_limits eng' = eng_limits eng"
    and "r = Inl e \<Longrightarrow> eng' = eng \<and> (\<exists>previous. e = TimeWentBackwards previous now)" by auto
qed

subsection \<open>Activation\<close>

lemma activate_source_cases:
  assumes "activate_source env source eng = (r, eng')"
  obtains
    (failed) e where "r = Inl e" "eng' = eng"
      "logic_program_try_new_with_limits (env_vm env) source (eng_limits eng) = Inl e"
  | (same) "revision_for source = active_logic_revision eng" "eng' = eng"
      "r = Inr \<lparr>sa_logic_revision = active_logic_revision eng, sa_cancelled_timers = [],
        sa_changed = False\<rparr>"
  | (changed) "revision_for source \<noteq> active_logic_revision eng"
      "r = Inr \<lparr>sa_logic_revision = revision_for source,
        sa_cancelled_timers = btm_keys (eng_pending_timers eng), sa_changed = True\<rparr>"
      "eng' = eng\<lparr>eng_pending_timers := [],
        eng_config := (eng_config eng)\<lparr>ec_logic := logic_program_new source\<rparr>\<rparr>"
proof (cases "logic_program_try_new_with_limits (env_vm env) source (eng_limits eng)")
  case (Inl e)
  with assms show ?thesis by (intro failed) (auto simp: activate_source_def)
next
  case (Inr p)
  moreover from this have "p = logic_program_new source" by (simp add: logic_program_try_new_ok)
  ultimately show ?thesis
    using assms same changed
    by (auto simp: activate_source_def Let_def logic_program_new_def split: if_splits)
qed

lemma engine_ok_new_program:
  assumes "engine_ok eng"
  shows "engine_ok (eng\<lparr>eng_pending_timers := [],
    eng_config := (eng_config eng)\<lparr>ec_logic := logic_program_new source\<rparr>\<rparr>)"
  using engine_okD [OF assms]
  by (intro engine_okI) (auto simp: engine_config_wf_def logic_program_new_def)

lemma activate_source_ok:
  assumes "engine_ok eng" and "activate_source env source eng = (r, eng')"
  shows "engine_ok eng'" and "eng_endpoints eng' = eng_endpoints eng"
    and "eng_limits eng' = eng_limits eng"
    and "eng_last_accepted_at eng' = eng_last_accepted_at eng"
  using assms(2) assms(1) engine_ok_new_program [OF assms(1)]
  by (cases rule: activate_source_cases; simp)+

text \<open>The other two entry points either fail without effect or do what activation does.\<close>

lemma replace_logic_cases:
  assumes "replace_logic env source revision eng = (r, eng')"
  shows "eng' = eng \<or> (r = Inr () \<and> snd (activate_source env source eng) = eng')"
  using assms
  by (auto simp: replace_logic_def activate_source_def Let_def split: sum.splits if_splits)

lemma replace_logic_with_cancellations_cases:
  assumes "replace_logic_with_cancellations env source revision eng = (r, eng')"
  shows "eng' = eng \<or> activate_source env source eng = (r, eng')"
  using assms by (auto simp: replace_logic_with_cancellations_def split: sum.splits if_splits)

subsection \<open>Reachable engines\<close>

inductive engine_step :: "environment \<Rightarrow> engine \<Rightarrow> engine \<Rightarrow> bool" for env eng where
  step_input: "process_input_update_with_context env name update now site utc probe eng = (r, eng')
    \<Longrightarrow> engine_step env eng eng'"
| step_timer: "process_next_due_timer_with_context env now site utc probe eng = (r, eng')
    \<Longrightarrow> engine_step env eng eng'"
| step_schedule:
    "process_schedule_trigger_with_budget_probe env trigger site utc now probe eng = (r, eng')
     \<Longrightarrow> engine_step env eng eng'"
| step_activate: "activate_source env source eng = (a, eng') \<Longrightarrow> engine_step env eng eng'"
| step_replace: "replace_logic env source revision eng = (u, eng') \<Longrightarrow> engine_step env eng eng'"
| step_replace_cancelling: "replace_logic_with_cancellations env source revision eng = (a, eng')
    \<Longrightarrow> engine_step env eng eng'"

inductive engine_reachable :: "environment \<Rightarrow> engine_config \<Rightarrow> runtime_limits \<Rightarrow> engine \<Rightarrow> bool"
  for env config limits where
  engine_started:
    "engine_try_new_with_limits env config limits = Inr eng
     \<Longrightarrow> engine_reachable env config limits eng"
| engine_stepped:
    "engine_reachable env config limits eng \<Longrightarrow> engine_step env eng eng'
     \<Longrightarrow> engine_reachable env config limits eng'"

lemma execute_and_commit_ok:
  assumes "engine_ok eng" and "execute_and_commit env trigger now site utc probe eng = (r, eng')"
  shows "engine_ok eng'" and "eng_config eng' = eng_config eng" and "eng_limits eng' = eng_limits eng"
    and "eng_last_accepted_at eng' = eng_last_accepted_at eng" and "\<exists>ex. r = Inr ex"
  using execute_and_commit_spec [OF assms] by metis+

lemma engine_step_ok:
  assumes "engine_step env eng eng'" and "engine_ok eng"
  shows "engine_ok eng' \<and> eng_endpoints eng' = eng_endpoints eng \<and> eng_limits eng' = eng_limits eng"
  using assms(1)
proof cases
  case (step_input name update now site utc probe r)
  from process_input_update_ok(1-3) [OF assms(2) this] show ?thesis by simp
next
  case (step_timer now site utc probe r)
  from process_next_due_timer_ok(1-3) [OF assms(2) this] show ?thesis by simp
next
  case (step_activate source a)
  from activate_source_ok(1-3) [OF assms(2) this] show ?thesis by simp
next
  case (step_schedule trigger site utc now probe r)
  then show ?thesis
    using execute_and_commit_ok [OF assms(2)]
    by (simp add: process_schedule_trigger_with_budget_probe_def)
next
  case (step_replace source revision u)
  from replace_logic_cases [OF this] show ?thesis
    using activate_source_ok [OF assms(2), of env source] assms(2) by (metis prod.collapse)
next
  case (step_replace_cancelling source revision a)
  from replace_logic_with_cancellations_cases [OF this] show ?thesis
    using activate_source_ok [OF assms(2)] assms(2) by blast
qed

lemma engine_reachable_invariant:
  assumes "engine_reachable env config limits eng"
  shows "engine_ok eng \<and> eng_endpoints eng = ec_endpoints config \<and> eng_limits eng = limits"
  using assms
  by induction (auto simp: engine_try_new_ok dest: engine_step_ok)

text \<open>
  C36. The invariant of a block's engine holds in every state that its operations can reach from a
  validated configuration, whatever the Lua handlers and the time services do: the configuration
  stays well-formed with the program's revision that of its source, every input is known exactly
  when it was observed and then has the endpoint's datapoint type, the state respects its entry,
  key, string and byte limits, the pending timers are sorted by name, all of the active
  revision, within their limit and due strictly after they were scheduled.
\<close>

theorem reachable_engine_ok:
  assumes "engine_reachable env config limits eng"
  shows "engine_ok eng \<and> eng_endpoints eng = ec_endpoints config \<and> eng_limits eng = limits"
  using assms by (rule engine_reachable_invariant)

text \<open>
  A site without a clock and a machine whose handler always returns the sample result, as the
  environment of the instances.
\<close>

definition sample_environment :: environment where
  "sample_environment =
     \<lparr>env_vm = constant_machine [sample_result], env_time = utc_services\<rparr>"

definition sample_config :: engine_config where
  "sample_config = \<lparr>ec_endpoints = sample_endpoints, ec_logic = sample_program\<rparr>"

definition sample_engine :: engine where
  "sample_engine = \<lparr>eng_config = sample_config, eng_limits = sample_limits,
     eng_inputs = replicate (length sample_endpoints) input_unknown,
     eng_state = [], eng_pending_timers = [], eng_last_accepted_at = None\<rparr>"

lemma sample_engine_new:
  "engine_try_new_with_limits sample_environment sample_config sample_limits = Inr sample_engine"
proof -
  have "validate_logic_source_with_limits (constant_machine vs) (lp_source sample_program)
      sample_limits None = Inr ()" for vs
    by (simp add: validate_logic_source_with_limits_def sample_load)
  then have "engine_config_validate_with_limits (env_vm sample_environment) sample_config sample_limits
      = Inr ()"
    by (simp add: engine_config_validate_ok engine_config_wf_def sample_config_def
        sample_environment_def sample_limits_def sample_endpoints_def dpt_is_supported_def
        dpt_class_iff sample_program_def logic_program_new_def)
  then show ?thesis
    by (simp add: engine_try_new_with_limits_def sample_engine_def sample_config_def)
qed

lemma sample_engine_ok: "engine_ok sample_engine"
  using engine_try_new_ok(1) [OF sample_engine_new] .

theorem reachable_engine_ok_witness:
  "engine_ok sample_engine \<and> eng_endpoints sample_engine = ec_endpoints sample_config
   \<and> eng_limits sample_engine = sample_limits"
  by (rule reachable_engine_ok [OF engine_started [OF sample_engine_new]])

subsection \<open>Safety\<close>

text \<open>
  On a reachable engine no live operation panics, and the stale-timer error is never
  reported: the checks of conversion make the later merge of the state succeed, and activation
  leaves no timer of another revision behind.  A schedule trigger always yields an execution.
\<close>

theorem live_operations_never_panic:
  assumes "engine_reachable env config limits eng"
  shows "fst (process_input_update_with_context env name update now site utc probe eng)
      \<noteq> Inl (EventPanic m)
    \<and> fst (process_next_due_timer_with_context env now site utc probe eng)
      \<notin> {Inl (EventPanic m), Inl (StaleTimer timer scheduled active)}
    \<and> (\<exists>ex. fst (process_schedule_trigger_with_budget_probe env trigger site utc now probe eng)
      = Inr ex)"
proof -
  have ok: "engine_ok eng" using engine_reachable_invariant [OF assms] by simp
  have "fst (process_next_due_timer_with_context env now site utc probe eng) \<noteq> Inl e"
    if "\<And>previous. e \<noteq> TimeWentBackwards previous now" for e
    using process_next_due_timer_ok(4) [OF ok, of env now site utc probe] that
    by (metis prod.collapse)
  moreover have "fst (process_input_update_with_context env name update now site utc probe eng)
      \<noteq> Inl (EventPanic m)"
    using process_input_update_ok(4) [OF ok] by (metis prod.collapse)
  moreover have
    "\<exists>ex. fst (process_schedule_trigger_with_budget_probe env trigger site utc now probe eng) = Inr ex"
    unfolding process_schedule_trigger_with_budget_probe_def
    using execute_and_commit_ok(5) [OF ok] by (metis prod.collapse)
  ultimately show ?thesis by auto
qed

theorem live_operations_never_panic_witness:
  "fst (process_input_update_with_context sample_environment (EndpointName ''switch'')
      (UpdTrigger (typed_bool True)) 1000 default_site None None sample_engine)
     \<noteq> Inl (EventPanic ''validated transition state must merge'')"
  using live_operations_never_panic [OF engine_started [OF sample_engine_new]] by blast

text \<open>
  A rejected event changes nothing: when an input update or a timer poll returns an error,
  the engine after it is the engine before it, so neither the accepted time nor an input, the
  state or a timer moved.
\<close>

theorem rejected_event_changes_nothing:
  assumes "engine_reachable env config limits eng"
    and "process_input_update_with_context env name update now site utc probe eng = (Inl e, eng')
      \<or> process_next_due_timer_with_context env now site utc probe eng = (Inl e, eng')"
  shows "eng' = eng"
proof -
  have ok: "engine_ok eng" using engine_reachable_invariant [OF assms(1)] by simp
  show ?thesis
    using assms(2) process_input_update_ok(5) [OF ok] process_next_due_timer_ok(4) [OF ok] by blast
qed

lemma sample_unknown_endpoint:
  "process_input_update_with_context sample_environment (EndpointName ''lamp'')
     (UpdTrigger (typed_bool True)) 1000 default_site None None sample_engine
   = (Inl (EndpointNotInput (EndpointName ''lamp'') Output), sample_engine)"
  by (simp add: process_input_update_with_context_def validate_input_def validate_endpoint_def
      sample_engine_def sample_config_def sample_endpoints_def)

theorem rejected_event_changes_nothing_witness:
  "snd (process_input_update_with_context sample_environment (EndpointName ''lamp'')
     (UpdTrigger (typed_bool True)) 1000 default_site None None sample_engine) = sample_engine"
  using rejected_event_changes_nothing [OF engine_started [OF sample_engine_new]
      disjI1 [OF sample_unknown_endpoint]]
  by (simp add: sample_unknown_endpoint)

subsection \<open>Functional behaviour\<close>

text \<open>
  A triggering input commits all of its handler's transition or none of it.  The handler
  ran on the snapshots that already contain the new value; if it failed, the state and the
  pending timers are exactly those before and the recorded state after is the state before; if
  it succeeded, the new state is the old one with the returned patch merged in and the pending
  timers are the old ones with the returned effects applied.
\<close>

theorem handler_commits_all_or_nothing:
  assumes "engine_reachable env config limits eng"
    and "process_input_update_with_context env name (UpdTrigger v) now site utc probe eng
      = (Inr (Some ex), eng')"
  shows "\<exists>i. validate_input eng name v = Inr i
    \<and> eng_inputs eng' = (eng_inputs eng)[i := \<lparr>in_value = Some v, in_observed_at = Some now\<rparr>]
    \<and> ex_trigger ex = TrigInput (make_input_trigger name v (in_value (eng_inputs eng ! i)))
    \<and> ex_inputs ex = input_snapshots eng' now
    \<and> ex_state_before ex = eng_state eng \<and> ex_state_after ex = eng_state eng'
    \<and> (case ex_outcome ex of
         Inl e \<Rightarrow> eng_state eng' = eng_state eng
           \<and> eng_pending_timers eng' = eng_pending_timers eng
       | Inr tr \<Rightarrow>
           merge_state_with_limits (eng_state eng) (tr_state tr) limits = Inr (eng_state eng')
           \<and> eng_pending_timers eng' = apply_timer_effects (eng_pending_timers eng) (tr_timers tr)
               now (active_logic_revision eng))"
proof -
  have ok: "engine_ok eng" and limits: "eng_limits eng = limits"
    using engine_reachable_invariant [OF assms(1)] by simp_all
  from assms(2) show ?thesis
  proof (cases rule: process_input_update_cases)
    case (triggered i w r')
    have v: "w = v" using triggered(1) by simp
    have "engine_ok (observed now i v eng)"
      using validate_input_ok [OF triggered(2)] engine_ok_observe [OF ok triggered(3)]
      by (simp add: observed_def v)
    from execute_and_commit_spec [OF this triggered(4) [unfolded v]] obtain ex' where ex':
      "r' = Inr ex'" "eng_config eng' = eng_config eng"
      "eng_inputs eng' = eng_inputs (observed now i v eng)"
      "ex_trigger ex' = TrigInput (make_input_trigger name v (in_value (eng_inputs eng ! i)))"
      "ex_inputs ex' = input_snapshots (observed now i v eng) now"
      "ex_state_before ex' = eng_state eng" "ex_state_after ex' = eng_state eng'"
      "\<And>e. ex_outcome ex' = Inl e \<Longrightarrow> eng' = observed now i v eng"
      "\<And>tr. ex_outcome ex' = Inr tr \<Longrightarrow>
        merge_state_with_limits (eng_state eng) (tr_state tr) limits = Inr (eng_state eng')
        \<and> eng_pending_timers eng' = apply_timer_effects (eng_pending_timers eng) (tr_timers tr) now
            (active_logic_revision eng)"
      unfolding observed_simps limits by metis
    moreover have "ex = ex'" using triggered(5) ex'(1) by simp
    moreover have "input_snapshots (observed now i v eng) now = input_snapshots eng' now"
      using ex'(2,3) by (simp add: input_snapshots_def)
    moreover have "eng_state eng' = eng_state eng
        \<and> eng_pending_timers eng' = eng_pending_timers eng" if "ex_outcome ex' = Inl e" for e
      using ex'(8) [OF that] by simp
    ultimately show ?thesis
      using triggered(2) by (auto simp: v split: sum.splits intro!: exI [of _ i])
  qed auto
qed

text \<open>
  A timer poll fires the earliest due timer.  If it runs a handler, then for a timer that was
  pending and due, no due timer comes before it in the order of deadline and then name; the
  handler saw the engine without that timer, and if it failed the timer is still consumed while
  all others and the state are untouched.
\<close>

theorem earliest_due_timer_fires:
  assumes "engine_reachable env config limits eng"
    and "process_next_due_timer_with_context env now site utc probe eng = (Inr (Some ex), eng')"
  shows "\<exists>t \<in> set (btm_values (eng_pending_timers eng)).
    pt_due_at t \<le> now
    \<and> (\<forall>u \<in> set (btm_values (eng_pending_timers eng)).
         pt_due_at u \<le> now \<longrightarrow> (pt_due_at t, pt_name t) \<le> (pt_due_at u, pt_name u))
    \<and> ex_trigger ex = timer_trigger_of now t
    \<and> (\<forall>e. ex_outcome ex = Inl e \<longrightarrow>
         eng_state eng' = eng_state eng
         \<and> eng_pending_timers eng' = btm_remove (pt_name t) (eng_pending_timers eng))"
proof -
  have ok: "engine_ok eng" using engine_reachable_invariant [OF assms(1)] by simp
  from ok assms(2) show ?thesis
  proof (cases rule: process_next_due_timer_cases)
    case (fired t r')
    from execute_and_commit_spec [OF engine_ok_timer_taken [OF ok fired(2)] fired(3)]
    obtain ex' where ex': "r' = Inr ex'" "ex_trigger ex' = timer_trigger_of now t"
      "\<And>e. ex_outcome ex' = Inl e \<Longrightarrow> eng' = timer_taken now t eng" by metis
    then show ?thesis
      using fired(4) next_due_timer_spec [OF fired(1)]
      by (intro bexI [of _ t]) (auto simp: timer_order_def)
  qed auto
qed

lemma engine_step_time:
  assumes "engine_step env eng eng'" and "engine_ok eng" and "eng_last_accepted_at eng = Some l"
  shows "\<exists>l'. eng_last_accepted_at eng' = Some l' \<and> l \<le> l'"
  using assms(1)
proof cases
  case (step_input name update now site utc probe r)
  then show ?thesis
  proof (cases rule: process_input_update_cases)
    case (triggered i v r')
    have "engine_ok (observed now i v eng)"
      using validate_input_ok [OF triggered(2)] engine_ok_observe [OF assms(2) triggered(3)]
      by (simp add: observed_def)
    from execute_and_commit_ok(4) [OF this triggered(4)] show ?thesis
      using triggered(3) assms(3) by simp
  qed (use assms(3) in auto)
next
  case (step_timer now site utc probe r)
  with assms(2) show ?thesis
  proof (cases rule: process_next_due_timer_cases)
    case (fired t r')
    from execute_and_commit_ok(4) [OF engine_ok_timer_taken [OF assms(2) fired(2)] fired(3)]
    show ?thesis using fired(2) assms(3) by simp
  qed (use assms(3) in auto)
next
  case (step_schedule trigger site utc now probe r)
  then show ?thesis
    using execute_and_commit_ok(4) [OF assms(2)] assms(3)
    by (simp add: process_schedule_trigger_with_budget_probe_def)
next
  case (step_activate source a)
  from activate_source_ok(4) [OF assms(2) this] show ?thesis using assms(3) by simp
next
  case (step_replace source revision u)
  from replace_logic_cases [OF this] show ?thesis
    using activate_source_ok(4) [OF assms(2), of env source] assms(3) by (metis order_refl prod.collapse)
next
  case (step_replace_cancelling source revision a)
  from replace_logic_with_cancellations_cases [OF this] show ?thesis
    using activate_source_ok(4) [OF assms(2)] assms(3) by auto
qed

text \<open>
  Accepted time never goes back, over any sequence of operations on a reachable engine.
\<close>

theorem accepted_time_monotone:
  assumes "(engine_step env)\<^sup>*\<^sup>* eng eng'" and "engine_reachable env config limits eng"
    and "eng_last_accepted_at eng = Some l"
  shows "\<exists>l'. eng_last_accepted_at eng' = Some l' \<and> l \<le> l'"
proof -
  have "engine_ok eng' \<and> (\<exists>l'. eng_last_accepted_at eng' = Some l' \<and> l \<le> l')"
    using assms(1)
  proof induction
    case base
    show ?case using engine_reachable_invariant [OF assms(2)] assms(3) by simp
  next
    case (step mid final)
    then obtain l' where l': "eng_last_accepted_at mid = Some l'" "l \<le> l'" by blast
    show ?case
      using engine_step_time [OF step.hyps(2) _ l'(1)] engine_step_ok [OF step.hyps(2)] step.IH l'(2)
      by (meson order_trans)
  qed
  then show ?thesis by blast
qed

subsection \<open>A concrete run\<close>

text \<open>The sample engine after a triggering input at 1000: one state entry and one timer.\<close>

definition sample_timer :: pending_timer where
  "sample_timer = \<lparr>pt_name = TimerName ''off'', pt_scheduled_at = 1000, pt_due_at = 6000,
     pt_scheduled_logic_revision = lp_revision sample_program\<rparr>"

definition sample_triggered :: engine where
  "sample_triggered = sample_engine\<lparr>eng_last_accepted_at := Some 1000,
     eng_inputs := [\<lparr>in_value = Some (typed_bool True), in_observed_at = Some 1000\<rparr>, input_unknown],
     eng_state := [(''count'', SInteger 1)],
     eng_pending_timers := [(TimerName ''off'', sample_timer)]\<rparr>"

lemma sample_execute_any:
  "execute_logic (constant_machine [sample_result]) sample_endpoints sample_program snapshots
     trigger [] [] 1000 tc sample_limits probe = Inr sample_transition"
proof -
  have "vm_arguments (constant_machine vs) limits arguments = None"
    and "vm_call (constant_machine vs) limits hook source arguments = Inr vs"
    for vs limits hook source arguments
    by (simp_all add: constant_machine_def no_error2_def returns_def)
  then show ?thesis
    by (simp add: execute_logic_def Let_def sample_load sample_convert single_result_def
        vm_check_def)
qed

lemma sample_merge:
  "merge_state_with_limits [] [(''count'', SInteger 1)] sample_limits = Inr [(''count'', SInteger 1)]"
  by (simp add: merge_state_with_limits_def Let_def validate_state_map_with_limits_def
      validate_state_entry_def state_entry_bytes_def sample_limits_def max_state_key_bytes_def)

lemma sample_commit:
  assumes "eng_config eng = sample_config" "eng_limits eng = sample_limits" "eng_state eng = []"
    "eng_pending_timers eng = []"
  shows "\<exists>ex. execute_and_commit sample_environment trigger 1000 site utc probe eng =
    (Inr ex, eng\<lparr>eng_state := [(''count'', SInteger 1)],
      eng_pending_timers := [(TimerName ''off'', sample_timer)]\<rparr>)
    \<and> ex_outcome ex = Inr sample_transition"
proof -
  have run: "execute_logic (env_vm sample_environment) (eng_endpoints eng)
      (ec_logic (eng_config eng)) snapshots trigger (eng_state eng) (eng_pending_timers eng) 1000 tc
      (eng_limits eng) probe = Inr sample_transition" for snapshots tc
    using assms sample_execute_any by (simp add: sample_environment_def sample_config_def)
  have effects: "apply_timer_effects (eng_pending_timers eng) (tr_timers sample_transition) 1000
      (active_logic_revision eng) = [(TimerName ''off'', sample_timer)]"
    using assms by (simp add: apply_timer_effects_def sample_transition_def sample_timer_def
        active_logic_revision_def sample_config_def)
  have merge: "merge_state_with_limits (eng_state eng) (tr_state sample_transition) (eng_limits eng)
      = Inr [(''count'', SInteger 1)]"
    using assms sample_merge by (simp add: sample_transition_def)
  show ?thesis
    unfolding execute_and_commit_def Let_def run sum.case merge effects
    by (simp add: execution_with_now_def)
qed

lemma sample_trigger_step:
  "\<exists>ex. process_input_update_with_context sample_environment (EndpointName ''switch'')
     (UpdTrigger (typed_bool True)) 1000 default_site None None sample_engine
     = (Inr (Some ex), sample_triggered) \<and> ex_outcome ex = Inr sample_transition"
proof -
  have valid: "validate_input sample_engine (EndpointName ''switch'') (typed_bool True) = Inr 0"
    by (simp add: validate_input_def validate_endpoint_def sample_engine_def sample_config_def
        sample_endpoints_def typed_bool_def)
  have accepted: "accept_time 1000 sample_engine =
      (Inr (), sample_engine\<lparr>eng_last_accepted_at := Some 1000\<rparr>)"
    by (simp add: accept_time_def sample_engine_def)
  let ?eng = "observed 1000 0 (typed_bool True) sample_engine"
  let ?trigger = "TrigInput (make_input_trigger (EndpointName ''switch'') (typed_bool True)
      (in_value (eng_inputs sample_engine ! 0)))"
  obtain ex where ex: "execute_and_commit sample_environment ?trigger 1000 default_site None None ?eng
      = (Inr ex, ?eng\<lparr>eng_state := [(''count'', SInteger 1)],
          eng_pending_timers := [(TimerName ''off'', sample_timer)]\<rparr>)"
    "ex_outcome ex = Inr sample_transition"
    using sample_commit [of ?eng ?trigger default_site None None] by (auto simp: sample_engine_def)
  have "?eng\<lparr>eng_state := [(''count'', SInteger 1)],
      eng_pending_timers := [(TimerName ''off'', sample_timer)]\<rparr> = sample_triggered"
    by (simp add: observed_def sample_triggered_def sample_engine_def sample_endpoints_def)
  with ex valid accepted show ?thesis
    by (simp add: process_input_update_with_context_def Let_def observed_def)
qed

lemma sample_triggered_reachable:
  "engine_reachable sample_environment sample_config sample_limits sample_triggered"
  using sample_trigger_step engine_stepped [OF engine_started [OF sample_engine_new]] step_input
  by blast

theorem handler_commits_all_or_nothing_witness:
  "\<exists>ex. process_input_update_with_context sample_environment (EndpointName ''switch'')
     (UpdTrigger (typed_bool True)) 1000 default_site None None sample_engine
     = (Inr (Some ex), sample_triggered)
   \<and> ex_state_before ex = [] \<and> ex_state_after ex = [(''count'', SInteger 1)]"
proof -
  obtain ex where ex: "process_input_update_with_context sample_environment (EndpointName ''switch'')
     (UpdTrigger (typed_bool True)) 1000 default_site None None sample_engine
     = (Inr (Some ex), sample_triggered)" using sample_trigger_step by blast
  from handler_commits_all_or_nothing [OF engine_started [OF sample_engine_new] ex]
  have "ex_state_before ex = eng_state sample_engine" "ex_state_after ex = eng_state sample_triggered"
    by blast+
  with ex show ?thesis by (simp add: sample_engine_def sample_triggered_def)
qed

theorem earliest_due_timer_fires_witness:
  "\<exists>ex eng'. process_next_due_timer_with_context sample_environment 6000 default_site None None
     sample_triggered = (Inr (Some ex), eng') \<and> ex_trigger ex = timer_trigger_of 6000 sample_timer"
proof -
  note reach = sample_triggered_reachable
  have ok: "engine_ok sample_triggered" using engine_reachable_invariant [OF reach] by simp
  have due: "next_due_timer 6000 (eng_pending_timers sample_triggered) = Some sample_timer"
    by (simp add: next_due_timer_def sample_triggered_def btm_values_def sample_timer_def)
  obtain r eng' where run: "process_next_due_timer_with_context sample_environment 6000 default_site
    None None sample_triggered = (r, eng')" by fastforce
  obtain ex where r: "r = Inr (Some ex)"
    using ok run
  proof (cases rule: process_next_due_timer_cases)
    case (fired t r')
    then show ?thesis
      using execute_and_commit_ok(5) [OF engine_ok_timer_taken [OF ok fired(2)] fired(3)] that
      by auto
  qed (use due in \<open>auto simp: sample_triggered_def\<close>)
  with earliest_due_timer_fires [OF reach run [unfolded r]] run show ?thesis
    by (auto simp: sample_triggered_def btm_values_def)
qed

theorem accepted_time_monotone_witness:
  "\<exists>eng' l'. (engine_step sample_environment)\<^sup>*\<^sup>* sample_triggered eng'
     \<and> eng_last_accepted_at eng' = Some l' \<and> 1000 \<le> l'"
proof -
  have "(engine_step sample_environment)\<^sup>*\<^sup>* sample_triggered
      (snd (process_next_due_timer_with_context sample_environment 6000 default_site None None
         sample_triggered))"
    by (intro r_into_rtranclp step_timer) (rule prod.collapse [symmetric])
  from accepted_time_monotone [OF this sample_triggered_reachable, of 1000] this
  show ?thesis by (auto simp: sample_triggered_def)
qed

subsection \<open>Atomic activation\<close>

text \<open>
  Source activation is atomic.  A source that does not validate leaves the engine as it was;
  a source with the active revision is accepted without any effect; any other source becomes
  the active program, every pending timer is cancelled and reported, and the endpoints, inputs,
  state and accepted time are kept.
\<close>

theorem activation_is_atomic:
  "case activate_source env source eng of
     (Inl e, eng') \<Rightarrow> eng' = eng
       \<and> logic_program_try_new_with_limits (env_vm env) source (eng_limits eng) = Inl e
   | (Inr a, eng') \<Rightarrow>
       sa_logic_revision a = revision_for source
       \<and> active_logic_revision eng' = revision_for source
       \<and> sa_changed a = (revision_for source \<noteq> active_logic_revision eng)
       \<and> (if sa_changed a
          then sa_cancelled_timers a = btm_keys (eng_pending_timers eng)
            \<and> eng' = eng\<lparr>eng_pending_timers := [],
                 eng_config := (eng_config eng)\<lparr>ec_logic := logic_program_new source\<rparr>\<rparr>
          else sa_cancelled_timers a = [] \<and> eng' = eng)"
proof -
  obtain r eng' where run: "activate_source env source eng = (r, eng')" by fastforce
  then show ?thesis
    by (cases rule: activate_source_cases)
      (auto simp: run active_logic_revision_def logic_program_new_def)
qed

subsection \<open>Draining the due timers\<close>

definition due_count :: "monotonic_ms \<Rightarrow> pending_map \<Rightarrow> nat" where
  "due_count now pending = length (filter (\<lambda>t. pt_due_at t \<le> now) (btm_values pending))"

lemma due_count_insert:
  "now < pt_due_at t \<Longrightarrow> due_count now (btm_insert k t m) \<le> due_count now m"
  by (induction m) (auto simp: due_count_def btm_values_def)

lemma due_count_remove: "due_count now (btm_remove k m) \<le> due_count now m"
  by (induction m) (auto simp: due_count_def btm_values_def btm_remove_def)

lemma due_count_remove_due:
  "(k, t) \<in> set m \<Longrightarrow> pt_due_at t \<le> now \<Longrightarrow> due_count now (btm_remove k m) < due_count now m"
proof (induction m)
  case (Cons e m)
  then show ?case
    using due_count_remove [of now k m]
    by (auto simp: due_count_def btm_values_def btm_remove_def less_Suc_eq_le)
qed simp

lemma due_count_effects:
  assumes "\<forall>eff \<in> set effects. timer_effect_ok pending now eff"
  shows "due_count now (apply_timer_effects m effects now r) \<le> due_count now m"
  using assms
proof (induction effects arbitrary: m)
  case (Cons eff effects)
  have "now < due" if "unat due = unat now + unat after" "after \<noteq> (0 :: u32)" for due after
    using that by (simp add: word_less_nat_alt unat_gt_0)
  then have "due_count now (case snd (effect_edit now r eff) of
      None \<Rightarrow> btm_remove (te_name eff) m | Some t \<Rightarrow> btm_insert (te_name eff) t m) \<le> due_count now m"
    using Cons.prems
    by (cases "te_action eff")
      (auto simp: timer_effect_ok_def due_count_remove intro!: due_count_insert)
  with Cons show ?case
    unfolding apply_timer_effects_Cons by (meson list.set_intros(2) order_trans)
qed (simp add: apply_timer_effects_def)

lemma execute_and_commit_due:
  assumes "engine_ok eng" and "execute_and_commit env trigger now site utc probe eng = (r, eng')"
  shows "due_count now (eng_pending_timers eng') \<le> due_count now (eng_pending_timers eng)"
proof (rule execute_and_commit_spec [OF assms])
  fix ex
  assume "\<And>e. ex_outcome ex = Inl e \<Longrightarrow> eng' = eng"
    and "\<And>tr. ex_outcome ex = Inr tr \<Longrightarrow>
      transition_ok (eng_endpoints eng) (eng_state eng) (eng_pending_timers eng) now
        (eng_limits eng) tr
      \<and> merge_state_with_limits (eng_state eng) (tr_state tr) (eng_limits eng) = Inr (eng_state eng')
      \<and> eng_pending_timers eng' = apply_timer_effects (eng_pending_timers eng) (tr_timers tr) now
          (active_logic_revision eng)"
  then show ?thesis
    by (cases "ex_outcome ex") (auto simp: transition_ok_def dest!: due_count_effects)
qed

lemma poll_consumes:
  assumes "engine_ok eng" and "\<And>l. eng_last_accepted_at eng = Some l \<Longrightarrow> l \<le> now"
    and "process_next_due_timer_with_context env now site utc probe eng = (r, eng')"
  shows "engine_ok eng'" and "eng_last_accepted_at eng' = Some now"
    and "due_count now (eng_pending_timers eng') \<le> due_count now (eng_pending_timers eng) - 1"
proof -
  note ok = assms(1)
  have "eng_last_accepted_at eng' = Some now
    \<and> due_count now (eng_pending_timers eng') \<le> due_count now (eng_pending_timers eng) - 1"
    using ok assms(3)
  proof (cases rule: process_next_due_timer_cases)
    case (rejected previous)
    then show ?thesis using assms(2) by fastforce
  next
    case none_due
    then have "due_count now (eng_pending_timers eng) = 0"
      by (simp add: next_due_timer_None due_count_def filter_empty_conv not_le)
    with none_due show ?thesis by simp
  next
    case (fired t r')
    have taken: "engine_ok (timer_taken now t eng)" by (rule engine_ok_timer_taken [OF ok fired(2)])
    have "(pt_name t, t) \<in> set (eng_pending_timers eng)" and "pt_due_at t \<le> now"
      using next_due_timer_spec [OF fired(1)] pending_ok_values [OF engine_okD(4) [OF ok]] by blast+
    then have "due_count now (eng_pending_timers (timer_taken now t eng))
        < due_count now (eng_pending_timers eng)"
      by (simp add: due_count_remove_due)
    with execute_and_commit_due [OF taken fired(3)] execute_and_commit_ok(4) [OF taken fired(3)]
    show ?thesis by simp
  qed
  then show "eng_last_accepted_at eng' = Some now"
    and "due_count now (eng_pending_timers eng') \<le> due_count now (eng_pending_timers eng) - 1"
    by simp_all
  show "engine_ok eng'" by (rule process_next_due_timer_ok(1) [OF ok assms(3)])
qed

text \<open>Polling again and again at one time, as the host does until nothing is due.\<close>

fun poll_times :: "environment \<Rightarrow> monotonic_ms \<Rightarrow> site_time_config \<Rightarrow> int option
     \<Rightarrow> budget_probe option \<Rightarrow> nat \<Rightarrow> engine \<Rightarrow> engine" where
  "poll_times env now site utc probe 0 eng = eng"
| "poll_times env now site utc probe (Suc n) eng =
     poll_times env now site utc probe n
       (snd (process_next_due_timer_with_context env now site utc probe eng))"

lemma poll_times_drains:
  assumes "engine_ok eng" and "\<And>l. eng_last_accepted_at eng = Some l \<Longrightarrow> l \<le> now"
    and "due_count now (eng_pending_timers eng) \<le> n"
  shows "due_count now (eng_pending_timers (poll_times env now site utc probe n eng)) = 0"
  using assms
proof (induction n arbitrary: eng)
  case (Suc n)
  obtain r eng' where run: "process_next_due_timer_with_context env now site utc probe eng = (r, eng')"
    by fastforce
  note step = poll_consumes [OF Suc.prems(1,2) run]
  have "due_count now (eng_pending_timers eng') \<le> n" using step(3) Suc.prems(3) by simp
  from Suc.IH [OF step(1) _ this] show ?case using step(2) by (simp add: run)
qed simp

text \<open>
  C37. A handler cannot starve the timer loop.  Every poll at one time takes a due timer and every
  deadline a handler sets lies strictly later, so polling a reachable engine as often as it has
  due timers leaves none due, whatever the handlers schedule, cancel or replace meanwhile.
\<close>

theorem polling_drains_due_timers:
  assumes "engine_reachable env config limits eng"
    and "\<And>l. eng_last_accepted_at eng = Some l \<Longrightarrow> l \<le> now"
    and "due_count now (eng_pending_timers eng) \<le> n"
  shows "next_due_timer now (eng_pending_timers (poll_times env now site utc probe n eng)) = None"
  using poll_times_drains [OF _ assms(2,3)] engine_reachable_invariant [OF assms(1)]
  by (simp add: next_due_timer_None due_count_def filter_empty_conv not_le)

theorem polling_drains_due_timers_witness:
  "next_due_timer 6000 (eng_pending_timers
     (poll_times sample_environment 6000 default_site None None 1 sample_triggered)) = None"
  by (rule polling_drains_due_timers [OF sample_triggered_reachable])
    (auto simp: sample_triggered_def due_count_def btm_values_def sample_timer_def)

end
