(* ===== verification/Engine_Simulation.thy ===== *)
theory Engine_Simulation
  imports Engine_Correctness
begin

text \<open>
  Simulation of one block: \<open>engine_simulation.rs\<close>, the simulation checks of \<open>support.rs\<close> and the
  \<open>simulate_*\<close> methods of \<open>engine.rs\<close>.  A simulation runs the handler on supplied data and never
  changes the engine; it is shown to predict exactly what the live engine does.
\<close>

subsection \<open>Supplied inputs\<close>

definition validate_simulation_value :: "endpoint \<Rightarrow> typed_value \<Rightarrow> simulation_error + unit" where
  "validate_simulation_value e v =
     (if ep_dpt e \<noteq> tv_dpt v then Inl (SimDptMismatch (ep_name e) (ep_dpt e) (tv_dpt v))
      else Inr ())"

definition validate_simulation_input :: "endpoint \<Rightarrow> simulation_input \<Rightarrow> simulation_error + unit"
  where
  "validate_simulation_input e i =
     (if si_valid i then
        (case si_value i of
           None \<Rightarrow> Inl (MissingValue (si_endpoint i))
         | Some v \<Rightarrow>
             if si_age_ms i = None then Inl (MissingAge (si_endpoint i))
             else validate_simulation_value e v)
      else if si_value i \<noteq> None then Inl (UnexpectedValue (si_endpoint i))
      else if si_age_ms i \<noteq> None then Inl (UnexpectedAge (si_endpoint i))
      else Inr ())"

text \<open>One turn of the loop that files the inputs by endpoint index.\<close>

definition supply_step ::
  "endpoint list \<Rightarrow> simulation_input option list \<Rightarrow> simulation_input
     \<Rightarrow> simulation_error + simulation_input option list" where
  "supply_step endpoints supplied input =
     (case position (\<lambda>e. ep_name e = si_endpoint input) endpoints of
        None \<Rightarrow> Inl (SimUnknownEndpoint (si_endpoint input))
      | Some index \<Rightarrow>
          let e = endpoints ! index
          in if ep_direction e \<noteq> Input
               then Inl (SimEndpointNotInput (si_endpoint input) (ep_direction e))
             else if supplied ! index \<noteq> None then Inl (DuplicateInput (si_endpoint input))
             else result_bind (validate_simulation_input e input)
               (\<lambda>_. Inr (supplied[index := Some input])))"

definition supply_inputs ::
  "endpoint list \<Rightarrow> simulation_input list \<Rightarrow> simulation_error + simulation_input option list" where
  "supply_inputs endpoints inputs =
     try_fold (supply_step endpoints) (replicate (length endpoints) None) inputs"

definition snapshot_of_input :: "endpoint \<Rightarrow> simulation_input \<Rightarrow> input_snapshot" where
  "snapshot_of_input e i =
     \<lparr>is_endpoint = ep_name e, is_dpt = ep_dpt e, is_value = si_value i, is_valid = si_valid i,
      is_age_ms = si_age_ms i\<rparr>"

text \<open>Collecting the snapshots in declaration order stops at the first missing input.\<close>

fun supplied_snapshots ::
  "(endpoint \<times> simulation_input option) list \<Rightarrow> simulation_error + input_snapshot list" where
  "supplied_snapshots [] = Inr []"
| "supplied_snapshots ((e, s) # rest) =
     (if ep_direction e \<noteq> Input then supplied_snapshots rest
      else case s of
        None \<Rightarrow> Inl (MissingInput (ep_name e))
      | Some i \<Rightarrow> result_bind (supplied_snapshots rest) (\<lambda>ss. Inr (snapshot_of_input e i # ss)))"

definition validate_and_build_snapshots ::
  "engine \<Rightarrow> simulation_input list \<Rightarrow> simulation_error + input_snapshot list" where
  "validate_and_build_snapshots eng inputs =
     result_bind (supply_inputs (eng_endpoints eng) inputs)
       (\<lambda>supplied. supplied_snapshots (zip (eng_endpoints eng) supplied))"

text \<open>The checks of the trigger against its endpoint.\<close>

definition check_trigger_endpoint ::
  "engine \<Rightarrow> simulation_trigger \<Rightarrow> simulation_error + nat" where
  "check_trigger_endpoint eng t =
     (case position (\<lambda>e. ep_name e = sim_endpoint t) (eng_endpoints eng) of
        None \<Rightarrow> Inl (SimUnknownEndpoint (sim_endpoint t))
      | Some index \<Rightarrow>
          let e = eng_endpoints eng ! index
          in if ep_direction e \<noteq> Input
             then Inl (SimEndpointNotInput (sim_endpoint t) (ep_direction e))
             else result_bind (validate_simulation_value e (sim_value t)) (\<lambda>_.
               case sim_previous t of
                 None \<Rightarrow> Inr index
               | Some previous \<Rightarrow>
                   result_bind (validate_simulation_value e previous) (\<lambda>_. Inr index)))"

subsection \<open>Simulated executions\<close>

text \<open>
  What the simulations share: run the handler, and report the state and timers it would leave.
  A merge error falls back to the state before.
\<close>

definition simulate_execution ::
  "environment \<Rightarrow> engine \<Rightarrow> trigger \<Rightarrow> input_snapshot list \<Rightarrow> transient_state \<Rightarrow> pending_map
     \<Rightarrow> monotonic_ms \<Rightarrow> site_time_config \<Rightarrow> int option \<Rightarrow> time_context \<Rightarrow> execution" where
  "simulate_execution env eng trigger snapshots state_before timers now site utc tc =
     (let outcome = execute_logic (env_vm env) (eng_endpoints eng) (ec_logic (eng_config eng))
            snapshots trigger state_before timers now tc (eng_limits eng) None;
          state_after =
            (case outcome of
               Inl _ \<Rightarrow> state_before
             | Inr tr \<Rightarrow>
                 (case merge_state_with_limits state_before (tr_state tr) (eng_limits eng) of
                    Inl _ \<Rightarrow> state_before
                  | Inr merged \<Rightarrow> merged));
          pending =
            (case outcome of
               Inl _ \<Rightarrow> btm_values timers
             | Inr tr \<Rightarrow> btm_values
                 (apply_timer_effects timers (tr_timers tr) now (active_logic_revision eng)))
      in execution_with_now env (active_logic_revision eng) trigger snapshots state_before
           state_after pending outcome site utc)"

definition simulate_input ::
  "environment \<Rightarrow> engine \<Rightarrow> simulation_scenario \<Rightarrow> simulation_error + execution" where
  "simulate_input env eng scenario =
     (let t = sc_trigger scenario in
      result_bind (supply_inputs (eng_endpoints eng) (sc_inputs scenario)) (\<lambda>supplied.
      result_bind
        (check_all
           (\<lambda>(e, s). if ep_direction e = Input \<and> s = None then Inl (MissingInput (ep_name e))
              else Inr ())
           (zip (eng_endpoints eng) supplied)) (\<lambda>_.
      result_bind (check_trigger_endpoint eng t) (\<lambda>index.
        case supplied ! index of
          None \<Rightarrow> Inl (SimPanic ''configured input presence was validated above'')
        | Some input \<Rightarrow>
            if \<not> si_valid input then Inl (MissingValue (sim_endpoint t))
            else case si_value input of
              None \<Rightarrow> Inl (SimPanic ''valid trigger input value was validated above'')
            | Some v \<Rightarrow>
                if v \<noteq> sim_value t
                  then Inl (TriggerValueMismatch (sim_endpoint t) (sim_value t) v)
                else if si_age_ms input \<noteq> Some 0
                  then Inl (TriggerAgeMismatch (sim_endpoint t) (si_age_ms input))
                else result_bind
                  (map_err (\<lambda>_. SimPanic ''configured input presence was validated above'')
                    (supplied_snapshots (zip (eng_endpoints eng) supplied))) (\<lambda>snapshots.
                  Inr (simulate_execution env eng
                    (TrigInput (make_input_trigger (sim_endpoint t) (sim_value t) (sim_previous t)))
                    snapshots (eng_state eng) (eng_pending_timers eng) 0 default_site None
                    (unavailable_time_context (env_time env))))))))"

definition simulate_input_against ::
  "environment \<Rightarrow> engine \<Rightarrow> simulation_scenario \<Rightarrow> transient_state \<Rightarrow> pending_timer list
     \<Rightarrow> monotonic_ms \<Rightarrow> simulation_error + execution" where
  "simulate_input_against env eng scenario state pending now =
     (let t = sc_trigger scenario in
      result_bind (validate_and_build_snapshots eng (sc_inputs scenario)) (\<lambda>snapshots.
      result_bind (check_trigger_endpoint eng t) (\<lambda>_.
        case find (\<lambda>s. is_endpoint s = sim_endpoint t) snapshots of
          None \<Rightarrow> Inl (MissingInput (sim_endpoint t))
        | Some supplied \<Rightarrow>
            if \<not> is_valid supplied then Inl (MissingValue (sim_endpoint t))
            else if is_value supplied \<noteq> Some (sim_value t)
              then Inl (TriggerValueMismatch (sim_endpoint t) (sim_value t)
                (case is_value supplied of None \<Rightarrow> sim_value t | Some v \<Rightarrow> v))
            else if is_age_ms supplied \<noteq> Some 0
              then Inl (TriggerAgeMismatch (sim_endpoint t) (is_age_ms supplied))
            else result_bind (collect_timers pending) (\<lambda>timers.
              Inr (simulate_execution env eng
                (TrigInput (make_input_trigger (sim_endpoint t) (sim_value t) (sim_previous t)))
                snapshots state timers now default_site None
                (unavailable_time_context (env_time env)))))))"

definition simulate_input_with_state ::
  "environment \<Rightarrow> engine \<Rightarrow> simulation_scenario \<Rightarrow> transient_state \<Rightarrow> pending_timer list
     \<Rightarrow> monotonic_ms \<Rightarrow> simulation_error + execution" where
  "simulate_input_with_state env eng scenario state pending now =
     result_bind (map_err InvalidState (validate_state_map_with_limits state (eng_limits eng)))
       (\<lambda>_. result_bind
         (validate_pending_timers_with_limits pending (active_logic_revision eng) (eng_limits eng))
         (\<lambda>_. simulate_input_against env eng scenario state pending now))"

definition simulate_timer ::
  "environment \<Rightarrow> engine \<Rightarrow> timer_simulation_scenario \<Rightarrow> simulation_error + execution" where
  "simulate_timer env eng scenario =
     result_bind
       (map_err InvalidState
         (validate_state_map_with_limits (tsc_state scenario) (eng_limits eng))) (\<lambda>_.
     result_bind (collect_timers (tsc_pending_timers scenario)) (\<lambda>supplied.
     result_bind
       (validate_pending_timer_map_with_limits supplied (active_logic_revision eng)
         (eng_limits eng)) (\<lambda>_.
       case btm_get supplied (tsc_timer scenario) of
         None \<Rightarrow> Inl (UnknownTimer (tsc_timer scenario))
       | Some timer \<Rightarrow>
           if pt_scheduled_logic_revision timer \<noteq> active_logic_revision eng
           then Inl (TimerRevisionMismatch (tsc_timer scenario)
             (pt_scheduled_logic_revision timer) (active_logic_revision eng))
           else result_bind (validate_and_build_snapshots eng (tsc_inputs scenario)) (\<lambda>snapshots.
             Inr (simulate_execution env eng (timer_trigger_of (tsc_fired_at scenario) timer)
               snapshots (tsc_state scenario) (btm_remove (tsc_timer scenario) supplied)
               (tsc_fired_at scenario) default_site None
               (unavailable_time_context (env_time env)))))))"

definition simulate_schedule_trigger ::
  "environment \<Rightarrow> engine \<Rightarrow> schedule_trigger \<Rightarrow> site_time_config \<Rightarrow> int option \<Rightarrow> execution" where
  "simulate_schedule_trigger env eng trigger site utc =
     simulate_execution env eng (TrigSchedule trigger) (input_snapshots eng 0) (eng_state eng)
       (eng_pending_timers eng) 0 site utc (time_context_capture (env_time env) site utc)"

subsection \<open>Simulating another source\<close>

definition simulate_input_with_source ::
  "environment \<Rightarrow> engine \<Rightarrow> rstring \<Rightarrow> simulation_scenario \<Rightarrow> transient_state
     \<Rightarrow> pending_timer list \<Rightarrow> monotonic_ms \<Rightarrow> simulation_error + execution" where
  "simulate_input_with_source env eng source scenario state pending now =
     (case activate_source env source eng of
        (Inl e, _) \<Rightarrow> Inl (InvalidSource e)
      | (Inr _, candidate) \<Rightarrow> simulate_input_with_state env candidate scenario state pending now)"

definition simulate_timer_with_source ::
  "environment \<Rightarrow> engine \<Rightarrow> rstring \<Rightarrow> timer_simulation_scenario \<Rightarrow> simulation_error + execution"
  where
  "simulate_timer_with_source env eng source scenario =
     (case activate_source env source eng of
        (Inl e, _) \<Rightarrow> Inl (InvalidSource e)
      | (Inr _, candidate) \<Rightarrow> simulate_timer env candidate scenario)"

definition simulate_schedule_trigger_with_source ::
  "environment \<Rightarrow> engine \<Rightarrow> rstring \<Rightarrow> schedule_trigger \<Rightarrow> site_time_config \<Rightarrow> int option
     \<Rightarrow> logic_error + execution" where
  "simulate_schedule_trigger_with_source env eng source trigger site utc =
     (case activate_source env source eng of
        (Inl e, _) \<Rightarrow> Inl e
      | (Inr _, candidate) \<Rightarrow> Inr (simulate_schedule_trigger env candidate trigger site utc))"

subsection \<open>Filing inputs that describe an engine\<close>

definition input_of_snapshot :: "input_snapshot \<Rightarrow> simulation_input" where
  "input_of_snapshot s = \<lparr>si_endpoint = is_endpoint s, si_value = is_value s,
     si_valid = is_valid s, si_age_ms = is_age_ms s\<rparr>"

lemma snapshot_of_input_inverse [simp]:
  "snapshot_of_input e (input_of_snapshot (snapshot_of now e s)) = snapshot_of now e s"
  by (simp add: snapshot_of_input_def input_of_snapshot_def snapshot_of_def)

lemma validate_live_input:
  assumes "input_ok accepted e s"
  shows "validate_simulation_input e (input_of_snapshot (snapshot_of now e s)) = Inr ()"
  using assms
  by (auto simp: validate_simulation_input_def input_of_snapshot_def snapshot_of_def input_ok_def
      validate_simulation_value_def split: option.splits)

text \<open>The slots that the inputs of a list of endpoints fill.\<close>

definition live_slots ::
  "monotonic_ms \<Rightarrow> (endpoint \<times> input_state) list \<Rightarrow> simulation_input option list" where
  "live_slots now ps = map (\<lambda>(e, s). if ep_direction e = Input
     then Some (input_of_snapshot (snapshot_of now e s)) else None) ps"

definition live_inputs ::
  "monotonic_ms \<Rightarrow> (endpoint \<times> input_state) list \<Rightarrow> simulation_input list" where
  "live_inputs now ps = map (\<lambda>(e, s). input_of_snapshot (snapshot_of now e s))
     (filter (\<lambda>(e, s). ep_direction e = Input) ps)"

lemma position_middle:
  assumes "distinct (map ep_name (map fst (pre @ (e, s) # post)))"
  shows "position (\<lambda>d. ep_name d = ep_name e) (map fst (pre @ (e, s) # post)) = Some (length pre)"
  using position_unique [OF assms, of "length pre"]
    nth_append_length [of "map fst pre" e "map fst post"] by simp

lemma supply_live_suffix:
  assumes "distinct (map ep_name (map fst (pre @ post)))"
    and "\<forall>(e, s) \<in> set post. input_ok accepted e s"
  shows "try_fold (supply_step (map fst (pre @ post)))
      (live_slots now pre @ replicate (length post) None) (live_inputs now post)
    = Inr (live_slots now (pre @ post))"
  using assms
proof (induction post arbitrary: pre)
  case Nil
  then show ?case by (simp add: live_inputs_def live_slots_def)
next
  case (Cons p post)
  obtain e s where p: "p = (e, s)" by fastforce
  have IH: "try_fold (supply_step (map fst ((pre @ [p]) @ post)))
      (live_slots now (pre @ [p]) @ replicate (length post) None) (live_inputs now post)
    = Inr (live_slots now ((pre @ [p]) @ post))"
    using Cons.prems by (intro Cons.IH) simp_all
  show ?case
  proof (cases "ep_direction e = Input")
    case True
    have len: "length (live_slots now pre) = length pre" by (simp add: live_slots_def)
    have ok: "validate_simulation_input e (input_of_snapshot (snapshot_of now e s)) = Inr ()"
      using Cons.prems(2) by (intro validate_live_input [of accepted]) (simp add: p)
    have pos: "position (\<lambda>d. ep_name d = ep_name e) (map fst pre @ e # map fst post)
        = Some (length pre)"
      using position_middle [of pre e s post] Cons.prems(1) by (simp add: p)
    have name: "si_endpoint (input_of_snapshot (snapshot_of now e s)) = ep_name e"
      by (simp add: input_of_snapshot_def snapshot_of_def)
    have nth: "(map fst pre @ e # map fst post) ! length pre = e"
      using nth_append_length [of "map fst pre" e "map fst post"] by simp
    have "supply_step (map fst pre @ e # map fst post)
        (live_slots now pre @ None # replicate (length post) None)
        (input_of_snapshot (snapshot_of now e s))
      = Inr (live_slots now (pre @ [p]) @ replicate (length post) None)"
      using True ok
      by (simp add: supply_step_def name pos nth Let_def p live_slots_def nth_append
          list_update_append)
    with IH True show ?thesis by (simp add: p live_inputs_def)
  next
    case False
    then have "live_inputs now (p # post) = live_inputs now post"
      and "live_slots now (pre @ [p]) = live_slots now pre @ [None]"
      by (simp_all add: p live_inputs_def live_slots_def)
    with IH show ?thesis by simp
  qed
qed

lemma supplied_live:
  "supplied_snapshots (zip (map fst ps) (live_slots now ps)) =
   Inr (map (\<lambda>(e, s). snapshot_of now e s) (filter (\<lambda>(e, s). ep_direction e = Input) ps))"
  by (induction ps) (auto simp: live_slots_def)

lemma live_snapshots:
  assumes "engine_ok eng"
  shows "validate_and_build_snapshots eng (map input_of_snapshot (input_snapshots eng now))
    = Inr (input_snapshots eng now)"
proof -
  define ps where "ps = zip (eng_endpoints eng) (eng_inputs eng)"
  note ok = engine_okD [OF assms]
  have es: "eng_endpoints eng = map fst ps" and len: "length ps = length (eng_endpoints eng)"
    using list_all2_lengthD [OF ok(2)] by (simp_all add: ps_def)
  have ins: "map input_of_snapshot (input_snapshots eng now) = live_inputs now ps"
    by (simp add: input_snapshots_def live_inputs_def ps_def case_prod_unfold comp_def)
  have "distinct (map ep_name (map fst ps))"
    using ok(1) by (simp only: engine_config_wf_def es)
  moreover have "\<forall>(e, s) \<in> set ps. input_ok (eng_last_accepted_at eng) e s"
    using ok(2) by (auto simp: ps_def list_all2_iff)
  ultimately have "supply_inputs (eng_endpoints eng) (live_inputs now ps) = Inr (live_slots now ps)"
    using supply_live_suffix [of "[]" ps _ now]
    by (simp add: supply_inputs_def es live_slots_def [of now "[]"])
  moreover have "input_snapshots eng now =
      map (\<lambda>(e, s). snapshot_of now e s) (filter (\<lambda>(e, s). ep_direction e = Input) ps)"
    by (simp add: input_snapshots_def ps_def)
  ultimately show ?thesis
    unfolding validate_and_build_snapshots_def ins
    using supplied_live [of ps now] by (simp add: es)
qed

lemma btm_insert_append:
  "\<forall>e \<in> set m. fst e < k \<Longrightarrow> btm_insert k v m = m @ [(k, v)]"
  by (induction m) auto

lemma collect_timers_suffix:
  assumes "btm_sorted (pre @ post)" and "\<forall>(k, t) \<in> set post. pt_name t = k"
  shows "try_fold (\<lambda>m timer.
      if btm_contains m (pt_name timer) then Inl (DuplicateTimer (pt_name timer))
      else Inr (btm_insert (pt_name timer) timer m)) pre (btm_values post) = Inr (pre @ post)"
  using assms
proof (induction post arbitrary: pre)
  case (Cons p post)
  obtain k t where p: "p = (k, t)" and k: "pt_name t = k" using Cons.prems(2) by (cases p) auto
  have less: "\<forall>e \<in> set pre. fst e < k"
    using Cons.prems(1) by (auto simp: btm_sorted_def btm_keys_def sorted_wrt_append p)
  then have "\<not> btm_contains pre k" by (auto simp: btm_contains_def btm_get_def find_None_iff)
  moreover have "try_fold (\<lambda>m timer.
      if btm_contains m (pt_name timer) then Inl (DuplicateTimer (pt_name timer))
      else Inr (btm_insert (pt_name timer) timer m)) (pre @ [p]) (btm_values post)
    = Inr ((pre @ [p]) @ post)"
    using Cons.prems by (intro Cons.IH) simp_all
  ultimately show ?case using btm_insert_append [OF less] by (simp add: btm_values_def p k)
qed (simp add: btm_values_def)

lemma collect_timers_values:
  assumes "pending_ok r pending"
  shows "collect_timers (btm_values pending) = Inr pending"
  using collect_timers_suffix [of "[]" pending] assms
  by (fastforce simp: collect_timers_def pending_ok_def)

subsection \<open>Simulation predicts the live engine\<close>

text \<open>
  The scenario that describes a triggering input of a live engine: its input snapshots as they
  are when the handler runs, and the value the input had before.
\<close>

definition live_scenario ::
  "engine \<Rightarrow> endpoint_name \<Rightarrow> nat \<Rightarrow> typed_value \<Rightarrow> monotonic_ms \<Rightarrow> simulation_scenario" where
  "live_scenario eng name i v now =
     \<lparr>sc_trigger = \<lparr>sim_endpoint = name, sim_value = v,
        sim_previous = in_value (eng_inputs eng ! i)\<rparr>,
      sc_inputs = map input_of_snapshot (input_snapshots (observed now i v eng) now)\<rparr>"

lemma find_live_snapshot:
  assumes "engine_ok eng" and "i < length (eng_endpoints eng)"
    and "ep_direction (eng_endpoints eng ! i) = Input"
  shows "find (\<lambda>s. is_endpoint s = ep_name (eng_endpoints eng ! i)) (input_snapshots eng now)
    = Some (snapshot_of now (eng_endpoints eng ! i) (eng_inputs eng ! i))"
proof -
  note ok = engine_okD [OF assms(1)]
  define ps where "ps = filter (\<lambda>(e, s). ep_direction e = Input)
    (zip (eng_endpoints eng) (eng_inputs eng))"
  have len: "length (eng_inputs eng) = length (eng_endpoints eng)"
    using list_all2_lengthD [OF ok(2)] by simp
  have names: "map is_endpoint (input_snapshots eng now) = map (ep_name \<circ> fst) ps"
    by (simp add: input_snapshots_def ps_def snapshot_of_def case_prod_unfold)
  have "distinct (map (ep_name \<circ> fst) (zip (eng_endpoints eng) (eng_inputs eng)))"
    using ok(1) len by (simp add: engine_config_wf_def flip: map_map)
  then have dist: "distinct (map is_endpoint (input_snapshots eng now))"
    unfolding names ps_def by (rule distinct_map_filter)
  have "(eng_endpoints eng ! i, eng_inputs eng ! i) \<in> set ps"
    using assms(2,3) len by (auto simp: ps_def set_zip)
  then have "snapshot_of now (eng_endpoints eng ! i) (eng_inputs eng ! i)
      \<in> set (input_snapshots eng now)"
    by (force simp: input_snapshots_def ps_def)
  from find_distinct [OF dist this] show ?thesis by (simp add: snapshot_of_def)
qed

lemma simulate_execution_live:
  assumes "execute_and_commit env trigger now site utc None eng = (Inr ex, eng')"
  shows "simulate_execution env eng trigger (input_snapshots eng now) (eng_state eng)
    (eng_pending_timers eng) now site utc (time_context_capture (env_time env) site utc) = ex"
  using assms
  by (auto simp: simulate_execution_def execute_and_commit_def Let_def split: sum.splits)

lemma simulate_execution_observed [frame_simps]:
  "simulate_execution env (observed now i v eng) = simulate_execution env eng"
  by (intro ext) (simp only: simulate_execution_def observed_simps)

lemma simulate_against_live:
  assumes ok: "engine_ok eng" and valid: "validate_input eng name v = Inr i"
    and now: "\<And>l. eng_last_accepted_at eng = Some l \<Longrightarrow> l \<le> now"
    and run: "execute_and_commit env
      (TrigInput (make_input_trigger name v (in_value (eng_inputs eng ! i)))) now default_site None
      None (observed now i v eng) = (Inr ex, eng')"
  shows "simulate_input_against env eng (live_scenario eng name i v now) (eng_state eng)
    (btm_values (eng_pending_timers eng)) now = Inr ex"
proof -
  let ?eng = "observed now i v eng"
  have i: "i < length (eng_endpoints eng)" "ep_name (eng_endpoints eng ! i) = name"
    "ep_direction (eng_endpoints eng ! i) = Input" "tv_dpt v = ep_dpt (eng_endpoints eng ! i)"
    using validate_input_ok [OF valid] by auto
  have ok': "engine_ok ?eng"
    using engine_ok_observe [OF ok now] i by (simp add: observed_def)
  have len: "length (eng_inputs eng) = length (eng_endpoints eng)"
    using list_all2_lengthD [OF engine_okD(2) [OF ok]] by simp
  have snaps: "validate_and_build_snapshots eng (map input_of_snapshot (input_snapshots ?eng now))
      = Inr (input_snapshots ?eng now)"
    using live_snapshots [OF ok', of now] by (simp add: validate_and_build_snapshots_def)
  have found: "find (\<lambda>s. is_endpoint s = name) (input_snapshots ?eng now)
      = Some (snapshot_of now (eng_endpoints eng ! i)
          \<lparr>in_value = Some v, in_observed_at = Some now\<rparr>)"
    using find_live_snapshot [OF ok', of i now] i len by simp
  have "input_ok (eng_last_accepted_at eng) (eng_endpoints eng ! i) (eng_inputs eng ! i)"
    using engine_okD(2) [OF ok] i(1) by (simp add: list_all2_conv_all_nth)
  then have previous: "tv_dpt p = ep_dpt (eng_endpoints eng ! i)"
    if "in_value (eng_inputs eng ! i) = Some p" for p
    using that by (simp add: input_ok_def)
  have "distinct (map ep_name (eng_endpoints eng))"
    using engine_okD(1) [OF ok] by (simp add: engine_config_wf_def)
  from position_unique [OF this i(1)]
  have position: "position (\<lambda>e. ep_name e = name) (eng_endpoints eng) = Some i"
    by (simp add: i(2))
  have trigger: "check_trigger_endpoint eng (sc_trigger (live_scenario eng name i v now)) = Inr i"
    using i previous
    by (auto simp: check_trigger_endpoint_def live_scenario_def position Let_def
        validate_simulation_value_def split: option.splits)
  have "collect_timers (btm_values (eng_pending_timers eng)) = Inr (eng_pending_timers eng)"
    by (rule collect_timers_values [OF engine_okD(4) [OF ok]])
  moreover have "simulate_execution env eng
      (TrigInput (make_input_trigger name v (in_value (eng_inputs eng ! i))))
      (input_snapshots ?eng now) (eng_state eng) (eng_pending_timers eng) now default_site None
      (unavailable_time_context (env_time env)) = ex"
    unfolding unavailable_time_context_def
    using simulate_execution_live [OF run] by (simp only: simulate_execution_observed observed_simps)
  ultimately show ?thesis
    using snaps trigger
    by (simp add: simulate_input_against_def live_scenario_def Let_def found snapshot_of_def
        saturating_sub_word_def)
qed

text \<open>
  C39. Simulation predicts the live engine, for handlers that are deterministic and an event at the
  default site without a wall clock and without a budget probe.  Feeding the input snapshots, the state
  and the pending timers of a reachable engine to \<open>simulate_input_with_state\<close> is accepted, and the
  execution it returns is the very execution that the live engine produces for the same triggering
  input: same snapshots, outcome, state after and remaining timers.  Deterministic means that the
  machine is a function of what it is given, as the machine of the model is; a handler that calls
  \<open>math.random\<close>, which the sandbox leaves in place, is not.
\<close>

theorem simulation_predicts_live:
  assumes "engine_reachable env config limits eng"
    and "process_input_update_with_context env name (UpdTrigger v) now default_site None None eng
      = (Inr (Some ex), eng')"
    and "validate_input eng name v = Inr i"
  shows "simulate_input_with_state env eng (live_scenario eng name i v now) (eng_state eng)
    (btm_values (eng_pending_timers eng)) now = Inr ex"
proof -
  have ok: "engine_ok eng" using engine_reachable_invariant [OF assms(1)] by simp
  have state: "validate_state_map_with_limits (eng_state eng) (eng_limits eng) = Inr ()"
    using engine_okD(3) [OF ok] by (simp add: validate_state_map_ok state_ok_def)
  have "collect_timers (btm_values (eng_pending_timers eng)) = Inr (eng_pending_timers eng)"
    by (rule collect_timers_values [OF engine_okD(4) [OF ok]])
  then have timers: "validate_pending_timers_with_limits (btm_values (eng_pending_timers eng))
      (active_logic_revision eng) (eng_limits eng) = Inr ()"
    using engine_okD(5) [OF ok] pending_ok_values [OF engine_okD(4) [OF ok]]
    by (simp add: validate_pending_timers_with_limits_def validate_pending_timer_map_ok)
  from assms(2) show ?thesis
  proof (cases rule: process_input_update_cases)
    case (triggered j w r')
    then have "w = v" and "j = i" and "r' = Inr ex"
      using assms(3) by (auto split: sum.splits)
    with simulate_against_live [OF ok assms(3) triggered(3)] triggered(4) show ?thesis
      by (simp add: simulate_input_with_state_def state timers)
  qed auto
qed

theorem simulation_predicts_live_witness:
  "\<exists>ex. simulate_input_with_state sample_environment sample_engine
     (live_scenario sample_engine (EndpointName ''switch'') 0 (typed_bool True) 1000) [] [] 1000
     = Inr ex \<and> ex_outcome ex = Inr sample_transition"
proof -
  obtain ex where ex: "process_input_update_with_context sample_environment (EndpointName ''switch'')
     (UpdTrigger (typed_bool True)) 1000 default_site None None sample_engine
     = (Inr (Some ex), sample_triggered)" "ex_outcome ex = Inr sample_transition"
    using sample_trigger_step by blast
  have "validate_input sample_engine (EndpointName ''switch'') (typed_bool True) = Inr 0"
    by (simp add: validate_input_def validate_endpoint_def sample_engine_def sample_config_def
        sample_endpoints_def typed_bool_def)
  from simulation_predicts_live [OF engine_started [OF sample_engine_new] ex(1) this] ex(2)
  show ?thesis by (simp add: sample_engine_def btm_values_def)
qed

end
