(* ===== verification/Block_Config.thy ===== *)
theory Block_Config
  imports Engine_Simulation
begin

text \<open>
  \<open>blocks.rs\<close> and \<open>block_health.rs\<close>: the configuration of logic blocks and of the signals that
  connect them, and its validation: the checks of one block, the resolution of producers and
  consumers, the search for a signal cycle and the bound on a cascade.
\<close>

subsection \<open>Data\<close>

record signal_config =
  sgc_name :: signal_name
  sgc_dpt :: dpt

record signal_binding =
  sb_endpoint :: endpoint_name
  sb_signal :: signal_name

record block_config =
  bc_id :: block_id
  bc_enabled :: bool
  bc_endpoints :: "endpoint list"
  bc_logic :: logic_program
  bc_schedules :: "block_schedule list"
  bc_signal_bindings :: "signal_binding list"

datatype block_config_error =
    BcTooManyEndpoints nat nat
  | LogicSourceTooLarge nat nat
  | TooManySchedules nat nat
  | DuplicateSchedule schedule_name
  | InvalidSchedule schedule_name schedule_error
  | DuplicateSignalBinding endpoint_name
  | UnknownSignalBindingEndpoint endpoint_name
  | BcEngine config_error

record runtime_config =
  rc_blocks :: "block_config list"
  rc_signals :: "signal_config list"
  rc_site :: site_time_config

datatype runtime_config_error =
    RcEmpty
  | RcTooMany nat nat
  | DuplicateId block_id
  | TooManySignals nat nat
  | DuplicateSignal signal_name
  | UnsupportedSignalDpt signal_name dpt
  | TooManySignalBindings nat nat
  | TooMuchLogicSource nat nat
  | RcCascadeLimit nat nat
  | UnknownSignal block_id endpoint_name signal_name
  | SignalDptMismatch block_id endpoint_name signal_name dpt dpt
  | DuplicateSignalProducer signal_name signal_endpoint_id signal_endpoint_id
  | SignalCycle "block_id list"
  | InvalidBlock block_id block_config_error
  | RcPanic rstring \<comment> \<open>a panic of the code\<close>

datatype block_health = Disabled | Active | SuspendedScriptFailures | SuspendedEventRate

datatype block_suspension = ScriptFailures | EventRate

fun health_as_str :: "block_health \<Rightarrow> rstring" where
  "health_as_str Disabled = ''disabled''"
| "health_as_str Active = ''active''"
| "health_as_str SuspendedScriptFailures = ''suspended_script_failures''"
| "health_as_str SuspendedEventRate = ''suspended_event_rate''"

datatype signal_status = SignalUnknown | SignalValid | SignalProducerDisabled

fun signal_status_as_str :: "signal_status \<Rightarrow> rstring" where
  "signal_status_as_str SignalUnknown = ''unknown''"
| "signal_status_as_str SignalValid = ''valid''"
| "signal_status_as_str SignalProducerDisabled = ''producer_disabled''"

subsection \<open>Validation of one block\<close>

text \<open>A loop whose check of an element looks at the elements before it.\<close>

fun check_with_earlier :: "('a list \<Rightarrow> 'a \<Rightarrow> 'e + unit) \<Rightarrow> 'a list \<Rightarrow> 'a list \<Rightarrow> 'e + unit" where
  "check_with_earlier f seen [] = Inr ()"
| "check_with_earlier f seen (x # xs) =
     result_bind (f seen x) (\<lambda>_. check_with_earlier f (seen @ [x]) xs)"

definition check_schedule ::
  "compiled_features \<Rightarrow> block_schedule list \<Rightarrow> block_schedule \<Rightarrow> block_config_error + unit" where
  "check_schedule features earlier s =
     (if \<exists>other \<in> set earlier. sch_name other = sch_name s
      then Inl (DuplicateSchedule (sch_name s))
      else map_err (InvalidSchedule (sch_name s)) (schedule_rule_validate features (sch_rule s)))"

definition check_binding ::
  "endpoint list \<Rightarrow> signal_binding list \<Rightarrow> signal_binding \<Rightarrow> block_config_error + unit" where
  "check_binding endpoints earlier b =
     (if \<exists>other \<in> set earlier. sb_endpoint other = sb_endpoint b
      then Inl (DuplicateSignalBinding (sb_endpoint b))
      else case find (\<lambda>e. ep_name e = sb_endpoint b) endpoints of
        None \<Rightarrow> Inl (UnknownSignalBindingEndpoint (sb_endpoint b))
      | Some _ \<Rightarrow> Inr ())"

definition block_config_validate_with_limits ::
  "environment \<Rightarrow> block_config \<Rightarrow> runtime_limits \<Rightarrow> block_config_error + unit" where
  "block_config_validate_with_limits env block limits =
     (if max_endpoints_per_block limits < length (bc_endpoints block)
        then Inl (BcTooManyEndpoints (length (bc_endpoints block)) (max_endpoints_per_block limits))
      else if max_logic_source_bytes_per_block limits < length (lp_source (bc_logic block))
        then Inl (LogicSourceTooLarge (length (lp_source (bc_logic block)))
          (max_logic_source_bytes_per_block limits))
      else if max_schedules_per_block limits < length (bc_schedules block)
        then Inl (TooManySchedules (length (bc_schedules block)) (max_schedules_per_block limits))
      else result_bind
        (check_with_earlier (check_schedule (ts_features (env_time env))) [] (bc_schedules block))
        (\<lambda>_.
        result_bind
          (check_with_earlier (check_binding (bc_endpoints block)) [] (bc_signal_bindings block))
          (\<lambda>_. map_err BcEngine
            (engine_config_validate_with_limits (env_vm env)
              \<lparr>ec_endpoints = bc_endpoints block, ec_logic = bc_logic block\<rparr> limits))))"

subsection \<open>The signal graph\<close>

definition check_signal :: "signal_config list \<Rightarrow> signal_config \<Rightarrow> runtime_config_error + unit" where
  "check_signal earlier s =
     (if \<exists>other \<in> set earlier. sgc_name other = sgc_name s then Inl (DuplicateSignal (sgc_name s))
      else if \<not> dpt_is_supported (sgc_dpt s)
        then Inl (UnsupportedSignalDpt (sgc_name s) (sgc_dpt s))
      else Inr ())"

definition check_block ::
  "environment \<Rightarrow> runtime_limits \<Rightarrow> block_config list \<Rightarrow> block_config \<Rightarrow> runtime_config_error + unit"
  where
  "check_block env limits earlier block =
     (if \<exists>other \<in> set earlier. bc_id other = bc_id block then Inl (DuplicateId (bc_id block))
      else map_err (InvalidBlock (bc_id block)) (block_config_validate_with_limits env block limits))"

type_synonym producer_map = "(signal_name, signal_endpoint_id) btree_map"
type_synonym edge_map = "(block_id, block_id list) btree_map"

definition bindings_of :: "block_config list \<Rightarrow> (block_config \<times> signal_binding) list" where
  "bindings_of blocks = concat (map (\<lambda>b. map (Pair b) (bc_signal_bindings b)) blocks)"

definition producer_step ::
  "signal_config list \<Rightarrow> producer_map \<Rightarrow> block_config \<times> signal_binding
     \<Rightarrow> runtime_config_error + producer_map" where
  "producer_step signals producers bb =
     (let block = fst bb; binding = snd bb in
      result_bind
        (ok_or (UnknownSignal (bc_id block) (sb_endpoint binding) (sb_signal binding))
          (find (\<lambda>s. sgc_name s = sb_signal binding) signals)) (\<lambda>signal.
      result_bind
        (ok_or (RcPanic ''BlockConfig validates signal endpoint references'')
          (find (\<lambda>e. ep_name e = sb_endpoint binding) (bc_endpoints block))) (\<lambda>e.
        if ep_dpt e \<noteq> sgc_dpt signal
        then Inl (SignalDptMismatch (bc_id block) (ep_name e) (sgc_name signal) (ep_dpt e)
          (sgc_dpt signal))
        else
          let identity = \<lparr>se_block_id = bc_id block, se_endpoint = ep_name e\<rparr>
          in if ep_direction e = Output
             then (case btm_get producers (sgc_name signal) of
                 Some previous \<Rightarrow>
                   Inl (DuplicateSignalProducer (sgc_name signal) previous identity)
               | None \<Rightarrow> Inr (btm_insert (sgc_name signal) identity producers))
             else Inr producers)))"

definition edge_step ::
  "producer_map \<Rightarrow> edge_map \<Rightarrow> block_config \<times> signal_binding \<Rightarrow> runtime_config_error + edge_map" where
  "edge_step producers edges bb =
     (let block = fst bb; binding = snd bb in
      result_bind
        (ok_or (RcPanic ''called Option::unwrap() on a None value'')
          (find (\<lambda>e. ep_name e = sb_endpoint binding) (bc_endpoints block))) (\<lambda>e.
        if ep_direction e = Input
        then (case btm_get producers (sb_signal binding) of
            None \<Rightarrow> Inr edges
          | Some producer \<Rightarrow>
              let from = se_block_id producer;
                  old = (case btm_get edges from of None \<Rightarrow> [] | Some children \<Rightarrow> children)
              in Inr (btm_insert from (old @ [bc_id block]) edges))
        else Inr edges))"

definition children_of :: "edge_map \<Rightarrow> block_id \<Rightarrow> block_id list" where
  "children_of edges x = (case btm_get edges x of None \<Rightarrow> [] | Some children \<Rightarrow> children)"

subsection \<open>Cycles\<close>

text \<open>
  The depth-first search.  The recursion of the code has no fuel; \<open>detect_signal_cycle\<close> starts
  with one more than the number of blocks, which is shown never to run out.
\<close>

record dfs_state =
  dfs_visiting :: "block_id set"
  dfs_visited :: "block_id set"
  dfs_path :: "block_id list"

datatype dfs_error = Cycle "block_id list" | OutOfFuel

definition cycle_of :: "block_id list \<Rightarrow> block_id \<Rightarrow> block_id list" where
  "cycle_of path x =
     (let start = (case position (\<lambda>item. item = x) path of None \<Rightarrow> 0 | Some i \<Rightarrow> i)
      in drop start path @ [x])"

fun visit :: "edge_map \<Rightarrow> nat \<Rightarrow> block_id \<Rightarrow> dfs_state \<Rightarrow> (dfs_error + unit) \<times> dfs_state" where
  "visit edges 0 x s = (Inl OutOfFuel, s)"
| "visit edges (Suc fuel) x s =
     (if x \<in> dfs_visiting s then (Inl (Cycle (cycle_of (dfs_path s) x)), s)
      else if x \<in> dfs_visited s then (Inr (), s)
      else
        let s1 = s\<lparr>dfs_visited := insert x (dfs_visited s),
                   dfs_visiting := insert x (dfs_visiting s), dfs_path := dfs_path s @ [x]\<rparr>
        in (case for_each (\<lambda>child. visit edges fuel child) (children_of edges x) s1 of
              (Inl e, s2) \<Rightarrow> (Inl e, s2)
            | (Inr _, s2) \<Rightarrow>
                (Inr (), s2\<lparr>dfs_path := butlast (dfs_path s2),
                            dfs_visiting := dfs_visiting s2 - {x}\<rparr>)))"

definition detect_step ::
  "edge_map \<Rightarrow> nat \<Rightarrow> block_config \<Rightarrow> dfs_state \<Rightarrow> (dfs_error + unit) \<times> dfs_state" where
  "detect_step edges fuel block s =
     (if bc_id block \<in> dfs_visited s then (Inr (), s) else visit edges fuel (bc_id block) s)"

definition detect_signal_cycle :: "block_config list \<Rightarrow> edge_map \<Rightarrow> runtime_config_error + unit" where
  "detect_signal_cycle blocks edges =
     map_err (\<lambda>e. case e of Cycle path \<Rightarrow> SignalCycle path
                 | OutOfFuel \<Rightarrow> RcPanic ''out of fuel'')
       (fst (for_each (detect_step edges (Suc (length blocks))) blocks
         \<lparr>dfs_visiting = {}, dfs_visited = {}, dfs_path = []\<rparr>))"

subsection \<open>Cascades\<close>

text \<open>
  The memoised count of the executions a cascade can have.  The sum over the children wraps
  (as in a build without overflow checks), the final addition saturates.
\<close>

type_synonym cascade_memo = "(block_id, u64) btree_map"

fun cascade_size :: "edge_map \<Rightarrow> nat \<Rightarrow> block_id \<Rightarrow> cascade_memo \<Rightarrow> (u64 \<times> cascade_memo) option"
  where
  "cascade_size edges 0 x memo = None"
| "cascade_size edges (Suc fuel) x memo =
     (case btm_get memo x of
        Some n \<Rightarrow> Some (n, memo)
      | None \<Rightarrow>
          (case foldl
              (\<lambda>acc child. case acc of
                 None \<Rightarrow> None
               | Some (subtotal, memo) \<Rightarrow>
                   map_option (\<lambda>(n, memo). (subtotal + n, memo))
                     (cascade_size edges fuel child memo))
              (Some (0, memo)) (children_of edges x) of
             None \<Rightarrow> None
           | Some (subtotal, memo) \<Rightarrow>
               let n = saturating_add_word 1 subtotal
               in Some (n, btm_insert x n memo)))"

text \<open>The largest cascade; each block starts with an empty memo.\<close>

fun max_cascade :: "edge_map \<Rightarrow> nat \<Rightarrow> block_config list \<Rightarrow> u64 option" where
  "max_cascade edges fuel [] = Some 0"
| "max_cascade edges fuel (block # blocks) =
     (case (cascade_size edges fuel (bc_id block) [], max_cascade edges fuel blocks) of
        (Some (n, _), Some rest) \<Rightarrow> Some (max n rest)
      | _ \<Rightarrow> None)"

definition check_cascades ::
  "edge_map \<Rightarrow> block_config list \<Rightarrow> runtime_limits \<Rightarrow> runtime_config_error + unit" where
  "check_cascades edges blocks limits =
     (case max_cascade edges (Suc (length blocks)) blocks of
        None \<Rightarrow> Inl (RcPanic ''out of fuel'')
      | Some n \<Rightarrow>
          if max_cascade_executions limits < unat n
          then Inl (RcCascadeLimit (unat n) (max_cascade_executions limits))
          else Inr ())"

subsection \<open>Validation of the whole configuration\<close>

definition runtime_config_validate_with_limits ::
  "environment \<Rightarrow> runtime_config \<Rightarrow> runtime_limits \<Rightarrow> runtime_config_error + unit" where
  "runtime_config_validate_with_limits env config limits =
     (let blocks = rc_blocks config; signals = rc_signals config;
          binding_count = sum_list (map (\<lambda>b. length (bc_signal_bindings b)) blocks);
          source_bytes = sum_list (map (\<lambda>b. length (lp_source (bc_logic b))) blocks)
      in if blocks = [] then Inl RcEmpty
      else if max_logic_blocks limits < length blocks
        then Inl (RcTooMany (length blocks) (max_logic_blocks limits))
      else if max_signals limits < length signals
        then Inl (TooManySignals (length signals) (max_signals limits))
      else result_bind (check_with_earlier check_signal [] signals) (\<lambda>_.
        if max_signal_bindings limits < binding_count
        then Inl (TooManySignalBindings binding_count (max_signal_bindings limits))
        else result_bind (check_with_earlier (check_block env limits) [] blocks) (\<lambda>_.
          if max_logic_source_bytes_total limits < source_bytes
          then Inl (TooMuchLogicSource source_bytes (max_logic_source_bytes_total limits))
          else
            result_bind (try_fold (producer_step signals) [] (bindings_of blocks)) (\<lambda>producers.
            result_bind (try_fold (edge_step producers) [] (bindings_of blocks)) (\<lambda>edges.
            result_bind (detect_signal_cycle blocks edges) (\<lambda>_.
              check_cascades edges blocks limits))))))"

end
