(* ===== verification/Signal_Graph.thy ===== *)
theory Signal_Graph
  imports Block_Config
begin

text \<open>
  The signal graph of a validated configuration: the depth-first search finds a cycle exactly
  when there is one and never runs out of fuel, and the cascade bound is exact although the sum
  behind it may wrap.
\<close>

subsection \<open>The depth-first search\<close>

definition graph_of :: "edge_map \<Rightarrow> (block_id \<times> block_id) set" where
  "graph_of edges = {(x, y). y \<in> set (children_of edges x)}"

definition is_cycle :: "(block_id \<times> block_id) set \<Rightarrow> block_id list \<Rightarrow> bool" where
  "is_cycle E c \<longleftrightarrow> 2 \<le> length c \<and> hd c = last c \<and> successively (\<lambda>a b. (a, b) \<in> E) c"

text \<open>The blocks whose search is complete.\<close>

definition dfs_finished :: "dfs_state \<Rightarrow> block_id set" where
  "dfs_finished s = dfs_visited s - dfs_visiting s"

definition dfs_ok :: "edge_map \<Rightarrow> block_id set \<Rightarrow> dfs_state \<Rightarrow> bool" where
  "dfs_ok edges N s \<longleftrightarrow>
     dfs_visiting s = set (dfs_path s) \<and> distinct (dfs_path s)
     \<and> dfs_visiting s \<subseteq> dfs_visited s \<and> dfs_visited s \<subseteq> N
     \<and> successively (\<lambda>a b. (a, b) \<in> graph_of edges) (dfs_path s)
     \<and> (\<forall>x \<in> dfs_finished s. set (children_of edges x) \<subseteq> dfs_finished s
          \<and> (x, x) \<notin> (graph_of edges)\<^sup>+)"

text \<open>What a search from the blocks \<open>X\<close> leaves behind.\<close>

definition dfs_post ::
  "edge_map \<Rightarrow> block_id set \<Rightarrow> dfs_state \<Rightarrow> block_id set \<Rightarrow> dfs_error + unit \<Rightarrow> dfs_state \<Rightarrow> bool"
  where
  "dfs_post edges N s X r s' \<longleftrightarrow>
     (case r of
        Inl (Cycle c) \<Rightarrow> is_cycle (graph_of edges) c
      | Inl OutOfFuel \<Rightarrow> False
      | Inr _ \<Rightarrow> dfs_ok edges N s' \<and> dfs_path s' = dfs_path s
          \<and> dfs_visited s \<subseteq> dfs_visited s' \<and> X \<subseteq> dfs_finished s')"

lemma dfs_post_Inl [simp]:
  "dfs_post edges N s X (Inl e) s' \<longleftrightarrow> (\<exists>c. e = Cycle c \<and> is_cycle (graph_of edges) c)"
  by (cases e) (simp_all add: dfs_post_def)

lemma dfs_post_Inr [simp]:
  "dfs_post edges N s X (Inr u) s' \<longleftrightarrow> dfs_ok edges N s' \<and> dfs_path s' = dfs_path s
     \<and> dfs_visited s \<subseteq> dfs_visited s' \<and> X \<subseteq> dfs_finished s'"
  by (simp add: dfs_post_def)

lemma dfs_okD:
  assumes "dfs_ok edges N s"
  shows "dfs_visiting s = set (dfs_path s)" and "distinct (dfs_path s)"
    and "dfs_visiting s \<subseteq> dfs_visited s" and "dfs_visited s \<subseteq> N"
    and "successively (\<lambda>a b. (a, b) \<in> graph_of edges) (dfs_path s)"
    and "x \<in> dfs_finished s \<Longrightarrow> set (children_of edges x) \<subseteq> dfs_finished s"
    and "x \<in> dfs_finished s \<Longrightarrow> (x, x) \<notin> (graph_of edges)\<^sup>+"
  using assms unfolding dfs_ok_def by blast+

lemma closed_rtrancl:
  assumes "(x, y) \<in> E\<^sup>*" and "x \<in> F" and "\<And>u v. u \<in> F \<Longrightarrow> (u, v) \<in> E \<Longrightarrow> v \<in> F"
  shows "y \<in> F"
  using assms by induction auto

lemma cycle_of_is_cycle:
  assumes "dfs_ok edges N s" and "x \<in> dfs_visiting s"
    and "(last (dfs_path s), x) \<in> graph_of edges"
  shows "is_cycle (graph_of edges) (cycle_of (dfs_path s) x)"
proof -
  let ?p = "dfs_path s" and ?R = "\<lambda>a b. (a, b) \<in> graph_of edges"
  obtain i where pos: "position (\<lambda>item. item = x) ?p = Some i"
    using assms(2) dfs_okD(1) [OF assms(1)] position_None_iff [of "\<lambda>item. item = x" ?p]
    by (cases "position (\<lambda>item. item = x) ?p") auto
  note i = position_SomeD [OF pos]
  have "successively ?R (take i ?p @ drop i ?p)" using dfs_okD(5) [OF assms(1)] by simp
  then have "successively ?R (drop i ?p)" unfolding successively_append_iff by blast
  moreover have "drop i ?p \<noteq> []" "hd (drop i ?p) = x" "last (drop i ?p) = last ?p"
    using i by (simp_all add: hd_drop_conv_nth)
  ultimately show ?thesis
    using assms(3) i
    by (auto simp: is_cycle_def cycle_of_def pos successively_append_iff Let_def Suc_le_eq)
qed

lemma dfs_enter:
  assumes "dfs_ok edges N s" and "x \<in> N" and "x \<notin> dfs_visited s"
    and "dfs_path s = [] \<or> (last (dfs_path s), x) \<in> graph_of edges"
  shows "dfs_ok edges N (s\<lparr>dfs_visited := insert x (dfs_visited s),
    dfs_visiting := insert x (dfs_visiting s), dfs_path := dfs_path s @ [x]\<rparr>)" (is "dfs_ok _ _ ?s")
proof -
  have "dfs_finished ?s = dfs_finished s" using assms(3) by (auto simp: dfs_finished_def)
  then show ?thesis
    using assms dfs_okD(1-5) [OF assms(1)] dfs_okD(6,7) [OF assms(1)]
    by (auto simp: dfs_ok_def successively_append_iff)
qed

lemma dfs_leave:
  assumes "dfs_ok edges N s" and "dfs_path s = p @ [x]"
    and "set (children_of edges x) \<subseteq> dfs_finished s"
  shows "dfs_ok edges N (s\<lparr>dfs_path := butlast (dfs_path s),
      dfs_visiting := dfs_visiting s - {x}\<rparr>)" (is "dfs_ok _ _ ?s")
    and "dfs_finished (s\<lparr>dfs_path := butlast (dfs_path s),
      dfs_visiting := dfs_visiting s - {x}\<rparr>) = insert x (dfs_finished s)"
proof -
  note ok = dfs_okD [OF assms(1)]
  have x: "x \<in> dfs_visiting s" "x \<notin> set p" using ok(1,2) assms(2) by auto
  define t where "t = ?s"
  have t: "dfs_visiting t = set p" "dfs_path t = p" "dfs_visited t = dfs_visited s"
    using ok(1,2) assms(2) by (auto simp: t_def)
  have fin: "dfs_finished t = insert x (dfs_finished s)"
    using x ok(1,3) assms(2) by (auto simp: dfs_finished_def t)
  then show "dfs_finished ?s = insert x (dfs_finished s)" by (simp only: t_def)
  have "(x, x) \<notin> (graph_of edges)\<^sup>+"
  proof
    assume "(x, x) \<in> (graph_of edges)\<^sup>+"
    then obtain c where "(x, c) \<in> graph_of edges" "(c, x) \<in> (graph_of edges)\<^sup>*"
      by (meson tranclD)
    then have "x \<in> dfs_finished s"
      using closed_rtrancl [of c x "graph_of edges" "dfs_finished s"] ok(6) assms(3)
      by (auto simp: graph_of_def)
    then show False using x(1) by (simp add: dfs_finished_def)
  qed
  then have "dfs_ok edges N t"
    unfolding dfs_ok_def fin t using ok assms(2,3)
    by (auto simp: successively_append_iff)
  then show "dfs_ok edges N ?s" by (simp only: t_def)
qed

lemma visit_spec:
  assumes "finite N" and "\<And>y. y \<in> N \<Longrightarrow> set (children_of edges y) \<subseteq> N"
    and "visit edges fuel x s = (r, s')" and "dfs_ok edges N s" and "x \<in> N"
    and "card (N - dfs_visiting s) < fuel"
    and "dfs_path s = [] \<or> (last (dfs_path s), x) \<in> graph_of edges"
  shows "dfs_post edges N s {x} r s'"
  using assms(3-)
proof (induction fuel arbitrary: x s r s')
  case (Suc fuel)
  note N = assms(1,2)
  show ?case
  proof (cases "x \<in> dfs_visited s")
    case True
    show ?thesis
    proof (cases "x \<in> dfs_visiting s")
      case visiting: True
      then have "dfs_path s \<noteq> []" using dfs_okD(1) [OF Suc.prems(2)] by auto
      with visiting show ?thesis
        using Suc.prems(1,2,5) cycle_of_is_cycle [OF Suc.prems(2) visiting] by auto
    qed (use True Suc.prems in \<open>auto simp: dfs_finished_def\<close>)
  next
    case False
    then have new: "x \<notin> dfs_visiting s" using dfs_okD(3) [OF Suc.prems(2)] by blast
    define s1 where "s1 = s\<lparr>dfs_visited := insert x (dfs_visited s),
      dfs_visiting := insert x (dfs_visiting s), dfs_path := dfs_path s @ [x]\<rparr>"
    have ok1: "dfs_ok edges N s1"
      unfolding s1_def by (rule dfs_enter [OF Suc.prems(2,3) False Suc.prems(5)])
    have "N - dfs_visiting s1 = (N - dfs_visiting s) - {x}" by (auto simp: s1_def)
    then have fuel: "card (N - dfs_visiting s1) < fuel"
      using Suc.prems(3,4) new N(1) card_Diff1_less [of "N - dfs_visiting s" x] by simp
    have loop: "dfs_post edges N t (set cs) q t'"
      if "for_each (\<lambda>child. visit edges fuel child) cs t = (q, t')" "dfs_ok edges N t"
        "dfs_path t = dfs_path s1" "set cs \<subseteq> set (children_of edges x)" for cs t q t'
      using that
    proof (induction cs arbitrary: t)
      case (Cons c cs)
      obtain q1 t1 where visit: "visit edges fuel c t = (q1, t1)" by fastforce
      have same: "dfs_visiting t = dfs_visiting s1"
        using dfs_okD(1) [OF Cons.prems(2)] dfs_okD(1) [OF ok1] Cons.prems(3) by simp
      have post: "dfs_post edges N t {c} q1 t1"
        using Cons.prems(2-4) N(2) [OF Suc.prems(3)] fuel
        by (intro Suc.IH [OF visit]) (auto simp: same graph_of_def s1_def)
      show ?case
      proof (cases q1)
        case (Inl e)
        with Cons.prems(1) visit post show ?thesis by auto
      next
        case (Inr u)
        with Cons.prems(1) visit
        have rest: "for_each (\<lambda>child. visit edges fuel child) cs t1 = (q, t')" by simp
        have t1: "dfs_ok edges N t1" "dfs_path t1 = dfs_path s1" "dfs_visited t \<subseteq> dfs_visited t1"
          "c \<in> dfs_finished t1"
          using post Inr Cons.prems(3) by auto
        have "dfs_post edges N t1 (set cs) q t'"
          using Cons.prems(4) by (intro Cons.IH [OF rest t1(1,2)]) auto
        then show ?thesis
          using t1 Cons.prems(3) dfs_okD(1) [OF t1(1)] dfs_okD(1) [of edges N t']
          by (cases q) (auto simp: dfs_finished_def)
      qed
    qed auto
    obtain q s2 where run: "for_each (\<lambda>child. visit edges fuel child) (children_of edges x) s1
      = (q, s2)" by fastforce
    have post: "dfs_post edges N s1 (set (children_of edges x)) q s2"
      by (rule loop [OF run ok1]) simp_all
    show ?thesis
    proof (cases q)
      case (Inl e)
      with post run Suc.prems(1) False new show ?thesis by (auto simp: Let_def s1_def)
    next
      case (Inr u)
      with post have s2: "dfs_ok edges N s2" "dfs_path s2 = dfs_path s @ [x]"
        "insert x (dfs_visited s) \<subseteq> dfs_visited s2" "set (children_of edges x) \<subseteq> dfs_finished s2"
        by (auto simp: s1_def)
      have "r = Inr ()" "s' = s2\<lparr>dfs_path := butlast (dfs_path s2),
          dfs_visiting := dfs_visiting s2 - {x}\<rparr>"
        using Suc.prems(1) False new run Inr by (auto simp: Let_def s1_def)
      then show ?thesis using dfs_leave [OF s2(1,2,4)] s2(2,3) by auto
    qed
  qed
qed simp

text \<open>The outer loop over the blocks.\<close>

lemma detect_loop:
  assumes "finite N" and "\<And>y. y \<in> N \<Longrightarrow> set (children_of edges y) \<subseteq> N" and "card N < fuel"
    and "for_each (detect_step edges fuel) blocks s = (r, s')" and "dfs_ok edges N s"
    and "dfs_path s = []" and "bc_id ` set blocks \<subseteq> N"
  shows "dfs_post edges N s (bc_id ` set blocks) r s'"
  using assms(4-)
proof (induction blocks arbitrary: s)
  case (Cons b blocks)
  obtain q t where step: "detect_step edges fuel b s = (q, t)" by fastforce
  have nov: "dfs_visiting s = {}" using dfs_okD(1) [OF Cons.prems(2)] Cons.prems(3) by simp
  have post: "dfs_post edges N s {bc_id b} q t"
  proof (cases "bc_id b \<in> dfs_visited s")
    case True
    then show ?thesis
      using step Cons.prems(2) nov by (auto simp: detect_step_def dfs_finished_def)
  next
    case False
    then have "visit edges fuel (bc_id b) s = (q, t)" using step by (simp add: detect_step_def)
    from visit_spec [OF assms(1,2) this Cons.prems(2)] show ?thesis
      using Cons.prems(3,4) assms(3) nov by simp
  qed
  show ?case
  proof (cases q)
    case (Inl e)
    with post Cons.prems(1) step show ?thesis by auto
  next
    case (Inr u)
    with Cons.prems(1) step have rest: "for_each (detect_step edges fuel) blocks t = (r, s')" by simp
    have t: "dfs_ok edges N t" "dfs_path t = []" "dfs_visited s \<subseteq> dfs_visited t"
      "bc_id b \<in> dfs_finished t"
      using post Inr Cons.prems(3) by auto
    have "dfs_post edges N t (bc_id ` set blocks) r s'"
      using Cons.prems(4) by (intro Cons.IH [OF rest t(1,2)]) auto
    then show ?thesis
      using t Cons.prems(3) dfs_okD(1) [OF t(1)] dfs_okD(1) [of edges N s']
      by (cases r) (auto simp: dfs_finished_def)
  qed
qed auto

lemma successively_rtrancl:
  "successively (\<lambda>a b. (a, b) \<in> E) c \<Longrightarrow> c \<noteq> [] \<Longrightarrow> (hd c, last c) \<in> E\<^sup>*"
proof (induction c rule: induct_list012)
  case (3 x y zs)
  then show ?case by (auto intro: converse_rtrancl_into_rtrancl)
qed auto

lemma is_cycle_not_acyclic:
  assumes "is_cycle E c"
  shows "\<not> acyclic E"
proof -
  obtain x y zs where c: "c = x # y # zs"
    using assms by (cases c rule: list.exhaust [case_product list.exhaust])
      (auto simp: is_cycle_def Suc_le_length_iff numeral_2_eq_2)
  then have "(x, y) \<in> E" "(y, last c) \<in> E\<^sup>*" "last c = x"
    using assms successively_rtrancl [of E "y # zs"] by (auto simp: is_cycle_def)
  then have "(x, x) \<in> E\<^sup>+" by (metis rtrancl_into_trancl2)
  then show ?thesis by (auto simp: acyclic_def)
qed

lemma detect_signal_cycle_spec:
  assumes "\<And>x. set (children_of edges x) \<subseteq> bc_id ` set blocks"
    and "\<And>x. children_of edges x \<noteq> [] \<Longrightarrow> x \<in> bc_id ` set blocks"
  shows "(detect_signal_cycle blocks edges = Inr () \<and> acyclic (graph_of edges))
    \<or> (\<exists>c. detect_signal_cycle blocks edges = Inl (SignalCycle c) \<and> is_cycle (graph_of edges) c)"
proof -
  let ?N = "bc_id ` set blocks"
  let ?s = "\<lparr>dfs_visiting = {}, dfs_visited = {}, dfs_path = []\<rparr>"
  obtain r s' where run: "for_each (detect_step edges (Suc (length blocks))) blocks ?s = (r, s')"
    by fastforce
  have "card ?N < Suc (length blocks)"
    using card_image_le [of "set blocks" bc_id] card_length [of blocks] by simp
  moreover have "dfs_ok edges ?N ?s" by (simp add: dfs_ok_def dfs_finished_def)
  ultimately have post: "dfs_post edges ?N ?s ?N r s'"
    using assms(1) by (intro detect_loop [OF _ _ _ run]) auto
  show ?thesis
  proof (cases r)
    case (Inl e)
    then show ?thesis using post run by (auto simp: detect_signal_cycle_def)
  next
    case (Inr u)
    then have ok: "dfs_ok edges ?N s'" and all: "?N \<subseteq> dfs_finished s'" using post by auto
    have "acyclic (graph_of edges)"
      unfolding acyclic_def
    proof (intro allI notI)
      fix x assume cyc: "(x, x) \<in> (graph_of edges)\<^sup>+"
      then obtain y where "(x, y) \<in> graph_of edges" by (meson tranclD)
      then have "children_of edges x \<noteq> []" by (auto simp: graph_of_def)
      then have "x \<in> dfs_finished s'" using assms(2) all by blast
      from dfs_okD(7) [OF ok this] cyc show False by simp
    qed
    with Inr run show ?thesis by (simp add: detect_signal_cycle_def)
  qed
qed

subsection \<open>Cascades\<close>

text \<open>
  The number of executions a cascade from a block can have: the size of the tree of all
  signal paths that start there.
\<close>

inductive cascades :: "(block_id \<Rightarrow> block_id list) \<Rightarrow> block_id \<Rightarrow> nat \<Rightarrow> bool" for children where
  "list_all2 (cascades children) (children x) ns \<Longrightarrow> cascades children x (Suc (sum_list ns))"

text \<open>The same with the arithmetic of the code.\<close>

inductive cascade_word :: "(block_id \<Rightarrow> block_id list) \<Rightarrow> block_id \<Rightarrow> u64 \<Rightarrow> bool" for children where
  "list_all2 (cascade_word children) (children x) ws
   \<Longrightarrow> cascade_word children x (saturating_add_word 1 (sum_list ws))"

inductive_cases cascades_elim: "cascades children x n"
inductive_cases cascade_word_elim: "cascade_word children x w"

lemma cascades_total:
  assumes "wf {(y, x). y \<in> set (children x)}"
  shows "\<exists>n. cascades children x n"
  using assms
proof (induction x rule: wf_induct_rule)
  case (less x)
  then have "\<exists>ns. list_all2 (cascades children) (children x) ns"
    by (intro exI [of _ "map (\<lambda>y. SOME n. cascades children y n) (children x)"])
      (auto simp: list_all2_map2 list_all2_same intro: someI_ex)
  then show ?case by (auto intro: cascades.intros)
qed

lemma cascade_word_unique:
  "cascade_word children x w \<Longrightarrow> cascade_word children x v \<Longrightarrow> w = v"
proof (induction arbitrary: v rule: cascade_word.induct)
  case (1 x ws)
  obtain vs where vs: "v = saturating_add_word 1 (sum_list vs)"
    "list_all2 (cascade_word children) (children x) vs"
    using 1(2) by (elim cascade_word_elim) auto
  have "ws = vs"
    using 1(1) vs(2) by (auto simp: list_all2_conv_all_nth list_eq_iff_nth_eq)
  with vs(1) show ?case by simp
qed

lemma saturating_add_one:
  assumes "n < 2 ^ 64"
  shows "saturating_add_word 1 (of_nat (n - 1) :: u64) = (if n = 0 then 1 else of_nat n)"
  using assms
  by (cases n) (auto simp: saturating_add_word_def word_eq_iff_unsigned unat_of_nat)

lemma of_nat_sum_list_map: "of_nat (sum_list ns) = sum_list (map of_nat ns)"
  by (induction ns) simp_all

text \<open>Below \<open>2 ^ 64\<close> the count of the code is the true count.\<close>

lemma cascades_word:
  "cascades children x n \<Longrightarrow> n < 2 ^ 64 \<Longrightarrow> cascade_word children x (of_nat n)"
proof (induction rule: cascades.induct)
  case (1 x ns)
  have small: "m < 2 ^ 64" if "m \<in> set ns" for m
    using member_le_sum_list [OF that] 1(2) by simp
  have "list_all2 (cascade_word children) (children x) (map of_nat ns)"
    using 1(1) small by (auto simp: list_all2_conv_all_nth)
  from cascade_word.intros [OF this] saturating_add_one [of "Suc (sum_list ns)"] 1(2)
  show ?case by (simp flip: of_nat_sum_list_map)
qed

text \<open>The memoised recursion computes it.\<close>

definition memo_ok :: "edge_map \<Rightarrow> cascade_memo \<Rightarrow> bool" where
  "memo_ok edges memo \<longleftrightarrow> (\<forall>(x, w) \<in> set memo. cascade_word (children_of edges) x w)"

definition descendants :: "edge_map \<Rightarrow> block_id \<Rightarrow> block_id set" where
  "descendants edges x = {y. (x, y) \<in> (graph_of edges)\<^sup>+}"

lemma descendants_child:
  assumes "acyclic (graph_of edges)" and "c \<in> set (children_of edges x)"
    and "finite (descendants edges x)"
  shows "card (descendants edges c) < card (descendants edges x)" and "finite (descendants edges c)"
proof -
  have edge: "(x, c) \<in> graph_of edges" using assms(2) by (simp add: graph_of_def)
  then have "descendants edges c \<subseteq> descendants edges x"
    by (auto simp: descendants_def intro: trancl_into_trancl2)
  moreover have "c \<in> descendants edges x" "c \<notin> descendants edges c"
    using edge assms(1) by (auto simp: descendants_def acyclic_def)
  ultimately have "descendants edges c \<subset> descendants edges x" by blast
  then show "card (descendants edges c) < card (descendants edges x)" "finite (descendants edges c)"
    using assms(3) by (auto intro: psubset_card_mono finite_subset)
qed

lemma cascade_size_spec:
  assumes "acyclic (graph_of edges)" and "finite (descendants edges x)"
    and "card (descendants edges x) < fuel" and "memo_ok edges memo"
  shows "\<exists>w memo'. cascade_size edges fuel x memo = Some (w, memo')
    \<and> cascade_word (children_of edges) x w \<and> memo_ok edges memo'"
  using assms(2-)
proof (induction fuel arbitrary: x memo)
  case (Suc fuel)
  show ?case
  proof (cases "btm_get memo x")
    case (Some w)
    then have "cascade_word (children_of edges) x w"
      using Suc.prems(3) btm_get_in_set [OF Some] by (auto simp: memo_ok_def)
    with Some Suc.prems(3) show ?thesis by auto
  next
    case None
    let ?step = "\<lambda>acc child. case acc of None \<Rightarrow> None
      | Some (subtotal, memo) \<Rightarrow> map_option (\<lambda>(n, memo). (subtotal + n, memo))
          (cascade_size edges fuel child memo)"
    have loop: "\<exists>ws memo'. foldl ?step (Some (n, memo)) cs = Some (n + sum_list ws, memo')
        \<and> list_all2 (cascade_word (children_of edges)) cs ws \<and> memo_ok edges memo'"
      if "set cs \<subseteq> set (children_of edges x)" "memo_ok edges memo" for cs n memo
      using that
    proof (induction cs arbitrary: n memo)
      case (Cons c cs)
      have "card (descendants edges c) < fuel" "finite (descendants edges c)"
        using descendants_child [OF assms(1) _ Suc.prems(1), of c] Cons.prems(1) Suc.prems(2) by auto
      from Suc.IH [OF this(2,1) Cons.prems(2)] obtain w m1 where
        m1: "cascade_size edges fuel c memo = Some (w, m1)" "memo_ok edges m1"
        and w: "cascade_word (children_of edges) c w" by blast
      obtain ws memo' where
        "foldl ?step (Some (n + w, m1)) cs = Some (n + w + sum_list ws, memo')"
        "list_all2 (cascade_word (children_of edges)) cs ws" "memo_ok edges memo'"
        using Cons.IH [of m1 "n + w"] Cons.prems(1) m1(2) by auto
      with m1 w show ?case
        by (intro exI [of _ "w # ws"] exI [of _ memo']) (simp add: add.assoc)
    qed simp
    obtain ws m1 where ws: "foldl ?step (Some (0, memo)) (children_of edges x)
        = Some (sum_list ws, m1)" "list_all2 (cascade_word (children_of edges)) (children_of edges x) ws"
      and m1: "memo_ok edges m1"
      using loop [of "children_of edges x" memo 0] Suc.prems(3) by auto
    have w: "cascade_word (children_of edges) x (saturating_add_word 1 (sum_list ws))"
      by (rule cascade_word.intros [OF ws(2)])
    then have "memo_ok edges (btm_insert x (saturating_add_word 1 (sum_list ws)) m1)"
      using m1 set_btm_insert_subset [of x "saturating_add_word 1 (sum_list ws)" m1]
      by (fastforce simp: memo_ok_def)
    with None ws(1) w show ?thesis by (simp add: Let_def)
  qed
qed simp

lemma max_cascade_spec:
  assumes "acyclic (graph_of edges)" and "\<And>x. finite (descendants edges x)"
    and "\<And>x. card (descendants edges x) < fuel"
  shows "\<exists>w. max_cascade edges fuel blocks = Some w
    \<and> (\<forall>b \<in> set blocks. \<exists>v \<le> w. cascade_word (children_of edges) (bc_id b) v)
    \<and> (blocks \<noteq> [] \<longrightarrow> (\<exists>b \<in> set blocks. cascade_word (children_of edges) (bc_id b) w))"
proof (induction blocks)
  case (Cons b blocks)
  have "memo_ok edges []" by (simp add: memo_ok_def)
  from cascade_size_spec [OF assms(1) assms(2) assms(3) this] obtain v m where v:
    "cascade_size edges fuel (bc_id b) [] = Some (v, m)"
    "cascade_word (children_of edges) (bc_id b) v" by blast
  obtain w where w: "max_cascade edges fuel blocks = Some w"
    "\<forall>b \<in> set blocks. \<exists>v \<le> w. cascade_word (children_of edges) (bc_id b) v"
    "blocks \<noteq> [] \<longrightarrow> (\<exists>b \<in> set blocks. cascade_word (children_of edges) (bc_id b) w)"
    using Cons.IH by blast
  have "\<forall>b' \<in> set (b # blocks). \<exists>u \<le> max v w. cascade_word (children_of edges) (bc_id b') u"
    using v(2) w(2) by (auto simp: le_max_iff_disj)
  moreover have "\<exists>b' \<in> set (b # blocks). cascade_word (children_of edges) (bc_id b') (max v w)"
    using v(2) w(1,3) by (cases "blocks = []") (auto simp: max_def)
  ultimately show ?case using v(1) w(1) by simp
qed simp

text \<open>
  The verdict of the bound is exact.  A block whose true count is over the limit has, somewhere
  below it, a first one whose count is; that count did not wrap, so the check sees it.
\<close>

lemma cascades_unique:
  "cascades children x n \<Longrightarrow> cascades children x m \<Longrightarrow> n = m"
proof (induction arbitrary: m rule: cascades.induct)
  case (1 x ns)
  obtain ms where ms: "m = Suc (sum_list ms)" "list_all2 (cascades children) (children x) ms"
    using 1(2) by (elim cascades_elim) auto
  have "ns = ms"
    using 1(1) ms(2) by (auto simp: list_all2_conv_all_nth list_eq_iff_nth_eq)
  with ms(1) show ?case by simp
qed

lemma sum_list_bound: "\<forall>m \<in> set ns. m \<le> (L :: nat) \<Longrightarrow> sum_list ns \<le> length ns * L"
  by (induction ns) auto

lemma first_over_limit:
  assumes "cascades children x n" and "L < n"
  shows "\<exists>y m. ((x, y) \<in> {(u, v). v \<in> set (children u)}\<^sup>*) \<and> cascades children y m \<and> L < m
    \<and> m \<le> Suc (length (children y) * L)"
  using assms
proof (induction rule: cascades.induct)
  case (1 x ns)
  note len = list_all2_lengthD [OF 1(1)]
  show ?case
  proof (cases "\<exists>m \<in> set ns. L < m")
    case True
    then obtain i where i: "i < length ns" "L < ns ! i" by (auto simp: in_set_conv_nth)
    with 1(1) len obtain y m where y: "((children x ! i, y) \<in> {(u, v). v \<in> set (children u)}\<^sup>*)"
      "cascades children y m" "L < m" "m \<le> Suc (length (children y) * L)"
      by (auto simp: list_all2_conv_all_nth)
    have "(x, children x ! i) \<in> {(u, v). v \<in> set (children u)}" using i(1) len by simp
    with y show ?thesis by (meson converse_rtrancl_into_rtrancl)
  next
    case False
    have "cascades children x (Suc (sum_list ns))"
      using 1(1) by (intro cascades.intros) (auto elim: list_all2_mono)
    moreover have "sum_list ns \<le> length (children x) * L"
      using False sum_list_bound [of ns L] len by (auto simp: not_less)
    ultimately show ?thesis using 1(2) by (intro exI [of _ x] exI) (auto simp: )
  qed
qed

lemma check_cascades_spec:
  assumes "acyclic (graph_of edges)" and "blocks \<noteq> []"
    and "\<And>x. set (children_of edges x) \<subseteq> bc_id ` set blocks"
    and "\<And>x. children_of edges x \<noteq> [] \<Longrightarrow> x \<in> bc_id ` set blocks"
    and "\<And>x. length (children_of edges x) * max_cascade_executions limits < 2 ^ 64 - 1"
  shows "check_cascades edges blocks limits = Inr ()
      \<longleftrightarrow> (\<forall>b \<in> set blocks. \<exists>n \<le> max_cascade_executions limits. cascades (children_of edges) (bc_id b) n)"
    and "check_cascades edges blocks limits \<noteq> Inl (RcPanic m)"
proof -
  let ?N = "bc_id ` set blocks" and ?L = "max_cascade_executions limits" and ?ch = "children_of edges"
  have desc: "descendants edges x \<subseteq> ?N" for x
    using assms(3) by (fastforce simp: descendants_def graph_of_def elim: tranclE)
  have fin: "finite (descendants edges x)" for x using desc by (rule finite_subset) simp
  have "card (descendants edges x) \<le> card ?N" for x using desc by (intro card_mono) simp_all
  moreover have "card ?N \<le> length blocks"
    using card_image_le [of "set blocks" bc_id] card_length [of blocks] by simp
  ultimately have fuel: "card (descendants edges x) < Suc (length blocks)" for x
    by (meson le_imp_less_Suc order_trans)
  obtain w where w: "max_cascade edges (Suc (length blocks)) blocks = Some w"
    "\<forall>b \<in> set blocks. \<exists>v \<le> w. cascade_word ?ch (bc_id b) v"
    "\<exists>b \<in> set blocks. cascade_word ?ch (bc_id b) w"
    using max_cascade_spec [OF assms(1) fin fuel, of blocks] assms(2) by blast
  show "check_cascades edges blocks limits \<noteq> Inl (RcPanic m)"
    by (simp add: check_cascades_def w(1))
  have E: "graph_of edges = {(u, v). v \<in> set (?ch u)}" by (simp add: graph_of_def)
  have "finite (graph_of edges)"
    using assms(3,4) by (intro finite_subset [of "graph_of edges" "?N \<times> ?N"])
      (force simp: graph_of_def)+
  then have "wf ((graph_of edges)\<inverse>)" using assms(1) by (rule finite_acyclic_wf_converse)
  then have wf: "wf {(y, x). y \<in> set (?ch x)}" by (simp add: graph_of_def converse_unfold)
  have "unat w \<le> ?L \<longleftrightarrow> (\<forall>b \<in> set blocks. \<exists>n \<le> ?L. cascades ?ch (bc_id b) n)"
  proof
    assume le: "unat w \<le> ?L"
    show "\<forall>b \<in> set blocks. \<exists>n \<le> ?L. cascades ?ch (bc_id b) n"
    proof (rule ballI, rule ccontr)
      fix b assume b: "b \<in> set blocks" and no: "\<not> (\<exists>n \<le> ?L. cascades ?ch (bc_id b) n)"
      obtain n where n: "cascades ?ch (bc_id b) n" using cascades_total [OF wf] by blast
      with no have "?L < n" by (meson not_less)
      from first_over_limit [OF n this] obtain y k where y:
        "(bc_id b, y) \<in> (graph_of edges)\<^sup>*" "cascades ?ch y k" "?L < k"
        "k \<le> Suc (length (?ch y) * ?L)"
        unfolding E by blast
      have "y \<in> ?N" using y(1) b desc by (auto simp: descendants_def rtrancl_eq_or_trancl)
      then obtain c v where v: "v \<le> w" "cascade_word ?ch y v" using w(2) by auto
      have "k < 2 ^ 64" using y(4) assms(5) [of y] by simp
      with cascade_word_unique [OF v(2) cascades_word [OF y(2)]]
      have "unat v = k" by (simp add: unat_of_nat)
      with v(1) y(3) le show False by (simp add: word_le_nat_alt)
    qed
  next
    assume all: "\<forall>b \<in> set blocks. \<exists>n \<le> ?L. cascades ?ch (bc_id b) n"
    obtain b where b: "b \<in> set blocks" "cascade_word ?ch (bc_id b) w" using w(3) by blast
    obtain n where n: "n \<le> ?L" "cascades ?ch (bc_id b) n" using all b(1) by blast
    show "unat w \<le> ?L"
    proof (cases "n < 2 ^ 64")
      case True
      then have "w = of_nat n" by (rule cascade_word_unique [OF b(2) cascades_word [OF n(2)]])
      with True n(1) show ?thesis by (simp add: unat_of_nat)
    next
      case False
      then have "unat w \<le> n" using unat_bound [of w] by (simp add: not_less)
      with n(1) show ?thesis by simp
    qed
  qed
  then show "check_cascades edges blocks limits = Inr ()
      \<longleftrightarrow> (\<forall>b \<in> set blocks. \<exists>n \<le> ?L. cascades ?ch (bc_id b) n)"
    by (auto simp: check_cascades_def w(1) not_less)
qed

end
