(* ===== verification/Config_Correctness.thy ===== *)
theory Config_Correctness
  imports Signal_Graph
begin

text \<open>
  What a validated configuration guarantees: well-formed blocks, resolved and typed signal
  bindings, one producer per signal, an acyclic signal graph and bounded cascades.
\<close>

subsection \<open>One block\<close>

lemma check_with_earlier_ok:
  "check_with_earlier f seen xs = Inr u \<longleftrightarrow>
   (\<forall>i < length xs. f (seen @ take i xs) (xs ! i) = Inr ())"
proof (induction xs arbitrary: seen)
  case (Cons x xs)
  have "(\<forall>i < length (x # xs). f (seen @ take i (x # xs)) ((x # xs) ! i) = Inr ())
    \<longleftrightarrow> f seen x = Inr () \<and> (\<forall>i < length xs. f ((seen @ [x]) @ take i xs) (xs ! i) = Inr ())"
    by (auto simp: less_Suc_eq_0_disj nth_Cons split: nat.splits)
  with Cons.IH [of "seen @ [x]"] show ?case by (simp add: result_simps)
qed simp

lemma check_with_earlier_not:
  assumes "\<And>seen x. f seen x \<noteq> Inl e"
  shows "check_with_earlier f seen xs \<noteq> Inl e"
  using assms by (induction xs arbitrary: seen) (auto simp: result_simps)

lemma try_fold_not:
  assumes "\<And>s x. f s x \<noteq> Inl e"
  shows "try_fold f s xs \<noteq> Inl e"
  using assms by (induction xs arbitrary: s) (auto simp: result_simps)

lemma distinct_earlier:
  "(\<forall>i < length xs. k (xs ! i) \<notin> k ` set (take i xs)) \<longleftrightarrow> distinct (map k xs)"
proof (induction xs rule: rev_induct)
  case (snoc x xs)
  have "(\<forall>i < length (xs @ [x]). k ((xs @ [x]) ! i) \<notin> k ` set (take i (xs @ [x])))
    \<longleftrightarrow> (\<forall>i < length xs. k (xs ! i) \<notin> k ` set (take i xs)) \<and> k x \<notin> k ` set xs"
    by (auto simp: nth_append less_Suc_eq)
  with snoc show ?case by auto
qed simp

text \<open>A loop that rejects duplicates of a key and checks each element.\<close>

lemma check_distinct_ok:
  assumes "\<And>seen x. f seen x = Inr () \<longleftrightarrow> k x \<notin> k ` set seen \<and> P x"
  shows "check_with_earlier f [] xs = Inr u \<longleftrightarrow> distinct (map k xs) \<and> (\<forall>x \<in> set xs. P x)"
  unfolding check_with_earlier_ok assms distinct_earlier [symmetric] all_set_conv_all_nth
  by auto

lemma earlier_iff: "(\<exists>other \<in> set xs. k other = y) \<longleftrightarrow> y \<in> k ` set xs"
  by auto

lemma names_found: "y \<in> k ` set xs \<longleftrightarrow> find (\<lambda>x. k x = y) xs \<noteq> None"
  by (auto simp: find_None_iff)

definition block_config_wf :: "compiled_features \<Rightarrow> block_config \<Rightarrow> runtime_limits \<Rightarrow> bool" where
  "block_config_wf features block limits \<longleftrightarrow>
     engine_config_wf \<lparr>ec_endpoints = bc_endpoints block, ec_logic = bc_logic block\<rparr> limits
     \<and> length (lp_source (bc_logic block)) \<le> max_logic_source_bytes_per_block limits
     \<and> length (bc_schedules block) \<le> max_schedules_per_block limits
     \<and> distinct (map sch_name (bc_schedules block))
     \<and> (\<forall>s \<in> set (bc_schedules block). schedule_rule_validate features (sch_rule s) = Inr ())
     \<and> distinct (map sb_endpoint (bc_signal_bindings block))
     \<and> sb_endpoint ` set (bc_signal_bindings block) \<subseteq> ep_name ` set (bc_endpoints block)"

lemma block_config_validate_ok:
  assumes "block_config_validate_with_limits env block limits = Inr u"
  shows "block_config_wf (ts_features (env_time env)) block limits"
proof -
  have schedules: "check_schedule features seen s = Inr () \<longleftrightarrow>
      sch_name s \<notin> sch_name ` set seen \<and> schedule_rule_validate features (sch_rule s) = Inr ()"
    for features seen s
    by (auto simp: check_schedule_def result_simps earlier_iff)
  have bindings: "check_binding endpoints seen b = Inr () \<longleftrightarrow>
      sb_endpoint b \<notin> sb_endpoint ` set seen \<and> sb_endpoint b \<in> ep_name ` set endpoints"
    for endpoints seen b
    by (auto simp: check_binding_def earlier_iff names_found split: option.splits)
  show ?thesis
    using assms
    by (auto simp: block_config_validate_with_limits_def block_config_wf_def result_simps
        engine_config_validate_ok check_distinct_ok [OF schedules] check_distinct_ok [OF bindings]
        image_subset_iff split: if_splits)
qed

subsection \<open>Producers and edges\<close>

definition bound_endpoint :: "block_config \<times> signal_binding \<Rightarrow> endpoint option" where
  "bound_endpoint bb = find (\<lambda>e. ep_name e = sb_endpoint (snd bb)) (bc_endpoints (fst bb))"

definition publishes :: "block_config \<times> signal_binding \<Rightarrow> bool" where
  "publishes bb \<longleftrightarrow> map_option ep_direction (bound_endpoint bb) = Some Output"

definition consumes :: "block_config \<times> signal_binding \<Rightarrow> bool" where
  "consumes bb \<longleftrightarrow> map_option ep_direction (bound_endpoint bb) = Some Input"

definition binding_identity :: "block_config \<times> signal_binding \<Rightarrow> signal_endpoint_id" where
  "binding_identity bb = \<lparr>se_block_id = bc_id (fst bb), se_endpoint = sb_endpoint (snd bb)\<rparr>"

text \<open>A binding that names a declared signal of the endpoint's datapoint type.\<close>

definition binding_typed :: "signal_config list \<Rightarrow> block_config \<times> signal_binding \<Rightarrow> bool" where
  "binding_typed signals bb \<longleftrightarrow>
     (\<exists>signal e. find (\<lambda>s. sgc_name s = sb_signal (snd bb)) signals = Some signal
        \<and> bound_endpoint bb = Some e \<and> ep_dpt e = sgc_dpt signal)"

lemma producer_step_ok:
  assumes "producer_step signals producers bb = Inr producers'"
  shows "binding_typed signals bb"
    and "publishes bb \<Longrightarrow> btm_get producers (sb_signal (snd bb)) = None"
    and "producers' = (if publishes bb
      then btm_insert (sb_signal (snd bb)) (binding_identity bb) producers else producers)"
proof -
  obtain signal e where s: "find (\<lambda>s. sgc_name s = sb_signal (snd bb)) signals = Some signal"
    and e: "find (\<lambda>e. ep_name e = sb_endpoint (snd bb)) (bc_endpoints (fst bb)) = Some e"
    using assms by (auto simp: producer_step_def result_simps Let_def)
  have "sgc_name signal = sb_signal (snd bb)" "ep_name e = sb_endpoint (snd bb)"
    using find_SomeD [OF s] find_SomeD [OF e] by simp_all
  with assms s e show "binding_typed signals bb"
    and "publishes bb \<Longrightarrow> btm_get producers (sb_signal (snd bb)) = None"
    and "producers' = (if publishes bb
      then btm_insert (sb_signal (snd bb)) (binding_identity bb) producers else producers)"
    by (auto simp: producer_step_def result_simps Let_def binding_typed_def bound_endpoint_def
        publishes_def binding_identity_def split: if_splits option.splits)
qed

lemma producers_spec:
  assumes "try_fold (producer_step signals) producers bbs = Inr producers'"
  shows "(\<forall>bb \<in> set bbs. binding_typed signals bb)
    \<and> distinct (map (sb_signal \<circ> snd) (filter publishes bbs))
    \<and> (\<forall>bb \<in> set (filter publishes bbs). btm_get producers (sb_signal (snd bb)) = None)
    \<and> (\<forall>s. btm_get producers' s =
        (case find (\<lambda>bb. sb_signal (snd bb) = s) (filter publishes bbs) of
           None \<Rightarrow> btm_get producers s | Some bb \<Rightarrow> Some (binding_identity bb)))"
  using assms
proof (induction bbs arbitrary: producers)
  case (Cons bb bbs)
  then obtain mid where step: "producer_step signals producers bb = Inr mid"
    and rest: "try_fold (producer_step signals) mid bbs = Inr producers'"
    by (auto simp: result_simps)
  note ok = producer_step_ok [OF step] and IH = Cons.IH [OF rest]
  show ?case
  proof (cases "publishes bb")
    case True
    then have mid: "mid = btm_insert (sb_signal (snd bb)) (binding_identity bb) producers"
      and fresh: "btm_get producers (sb_signal (snd bb)) = None"
      using ok by simp_all
    have out: "sb_signal (snd bb') \<noteq> sb_signal (snd bb)" if "bb' \<in> set (filter publishes bbs)" for bb'
      using IH [THEN conjunct2, THEN conjunct2, THEN conjunct1, rule_format, OF that]
      by (auto simp: mid btm_get_insert split: if_splits)
    have "find (\<lambda>b. sb_signal (snd b) = sb_signal (snd bb)) (filter publishes bbs) = None"
      using out
      unfolding find_None_iff by blast
    moreover have "sb_signal (snd bb) \<notin> (\<lambda>b. sb_signal (snd b)) ` (set bbs \<inter> {b. publishes b})"
      using out by force
    ultimately show ?thesis
      using IH ok(1) True fresh
      by (auto simp: mid btm_get_insert split: option.splits if_splits)
  next
    case False
    then have mid: "mid = producers" using ok by simp
    show ?thesis using IH ok(1) False unfolding mid by simp
  qed
qed auto

lemma edge_step_ok:
  assumes "edge_step producers edges bb = Inr edges'"
  shows "children_of edges' x = children_of edges x @
    (if consumes bb \<and> map_option se_block_id (btm_get producers (sb_signal (snd bb))) = Some x
     then [bc_id (fst bb)] else [])"
proof -
  obtain e where e: "find (\<lambda>e. ep_name e = sb_endpoint (snd bb)) (bc_endpoints (fst bb)) = Some e"
    using assms by (auto simp: edge_step_def result_simps Let_def)
  note unfold = edge_step_def Let_def consumes_def bound_endpoint_def e
  show ?thesis
  proof (cases "ep_direction e = Input \<and> btm_get producers (sb_signal (snd bb)) \<noteq> None")
    case True
    then obtain p where p: "ep_direction e = Input" "btm_get producers (sb_signal (snd bb)) = Some p"
      by auto
    then have "edges' = btm_insert (se_block_id p)
        (children_of edges (se_block_id p) @ [bc_id (fst bb)]) edges"
      using assms by (simp add: unfold children_of_def)
    with p show ?thesis
      by (simp add: consumes_def bound_endpoint_def e children_of_def btm_get_insert)
  next
    case False
    with assms show ?thesis by (auto simp: unfold split: if_splits option.splits)
  qed
qed

lemma edges_spec:
  assumes "try_fold (edge_step producers) edges bbs = Inr edges'"
  shows "children_of edges' x = children_of edges x @ map (bc_id \<circ> fst) (filter (\<lambda>bb. consumes bb
    \<and> map_option se_block_id (btm_get producers (sb_signal (snd bb))) = Some x) bbs)"
  using assms by (induction bbs arbitrary: edges) (auto simp: result_simps edge_step_ok)

text \<open>
  The blocks that a block feeds through its signals, once for every input endpoint bound to a
  signal that the block publishes, in declaration order.
\<close>

definition feeds :: "runtime_config \<Rightarrow> block_id \<Rightarrow> signal_name \<Rightarrow> bool" where
  "feeds config x s \<longleftrightarrow> (\<exists>bb \<in> set (bindings_of (rc_blocks config)).
     publishes bb \<and> sb_signal (snd bb) = s \<and> bc_id (fst bb) = x)"

definition fed_blocks :: "runtime_config \<Rightarrow> block_id \<Rightarrow> block_id list" where
  "fed_blocks config x = map (bc_id \<circ> fst)
     (filter (\<lambda>bb. consumes bb \<and> feeds config x (sb_signal (snd bb)))
       (bindings_of (rc_blocks config)))"

definition signal_graph :: "runtime_config \<Rightarrow> (block_id \<times> block_id) set" where
  "signal_graph config = {(x, y). y \<in> set (fed_blocks config x)}"

lemma bindings_of_block:
  "bb \<in> set (bindings_of blocks) \<Longrightarrow>
   fst bb \<in> set blocks \<and> snd bb \<in> set (bc_signal_bindings (fst bb))"
  by (auto simp: bindings_of_def)

lemma edges_are_fed_blocks:
  assumes "try_fold (producer_step signals) [] (bindings_of (rc_blocks config)) = Inr producers"
    and "try_fold (edge_step producers) [] (bindings_of (rc_blocks config)) = Inr edges"
  shows "children_of edges x = fed_blocks config x"
proof -
  let ?bbs = "bindings_of (rc_blocks config)"
  note p = producers_spec [OF assms(1)]
  have inj: "inj_on (sb_signal \<circ> snd) (set (filter publishes ?bbs))"
    using p [THEN conjunct2, THEN conjunct1] unfolding distinct_map by blast
  have "map_option se_block_id (btm_get producers s) = Some x \<longleftrightarrow> feeds config x s" for s
  proof (cases "find (\<lambda>bb. sb_signal (snd bb) = s) (filter publishes ?bbs)")
    case None
    then have "btm_get producers s = None" using p by simp
    moreover have "\<not> feeds config x s"
    proof
      assume "feeds config x s"
      then obtain bb where "bb \<in> set (filter publishes ?bbs)" "sb_signal (snd bb) = s"
        by (auto simp: feeds_def)
      with None show False unfolding find_None_iff by blast
    qed
    ultimately show ?thesis by simp
  next
    case (Some bb)
    then have bb: "bb \<in> set ?bbs" "publishes bb" "sb_signal (snd bb) = s"
      using find_SomeD [OF Some] by auto
    have uniq: "bb' = bb" if "bb' \<in> set ?bbs" "publishes bb'" "sb_signal (snd bb') = s" for bb'
      using inj_onD [OF inj, of bb' bb] bb that by simp
    have "feeds config x s \<longleftrightarrow> bc_id (fst bb) = x" unfolding feeds_def using bb uniq by blast
    moreover have "btm_get producers s = Some (binding_identity bb)" using p Some by simp
    ultimately show ?thesis by (simp add: binding_identity_def)
  qed
  then show ?thesis
    using edges_spec [OF assms(2), of x] by (simp add: fed_blocks_def children_of_def)
qed

lemma fed_blocks_ids:
  "set (fed_blocks config x) \<subseteq> bc_id ` set (rc_blocks config)"
  "fed_blocks config x \<noteq> [] \<Longrightarrow> x \<in> bc_id ` set (rc_blocks config)"
  by (auto simp: fed_blocks_def feeds_def filter_empty_conv dest!: bindings_of_block)

subsection \<open>The whole configuration\<close>

definition runtime_config_wf :: "compiled_features \<Rightarrow> runtime_config \<Rightarrow> runtime_limits \<Rightarrow> bool" where
  "runtime_config_wf features config limits \<longleftrightarrow>
     rc_blocks config \<noteq> [] \<and> length (rc_blocks config) \<le> max_logic_blocks limits
     \<and> length (rc_signals config) \<le> max_signals limits
     \<and> length (bindings_of (rc_blocks config)) \<le> max_signal_bindings limits
     \<and> sum_list (map (\<lambda>b. length (lp_source (bc_logic b))) (rc_blocks config))
         \<le> max_logic_source_bytes_total limits
     \<and> distinct (map sgc_name (rc_signals config))
     \<and> (\<forall>s \<in> set (rc_signals config). dpt_is_supported (sgc_dpt s))
     \<and> distinct (map bc_id (rc_blocks config))
     \<and> (\<forall>b \<in> set (rc_blocks config). block_config_wf features b limits)
     \<and> (\<forall>bb \<in> set (bindings_of (rc_blocks config)). binding_typed (rc_signals config) bb)
     \<and> distinct (map (sb_signal \<circ> snd) (filter publishes (bindings_of (rc_blocks config))))
     \<and> acyclic (signal_graph config)"

lemma length_bindings_of:
  "length (bindings_of blocks) = sum_list (map (\<lambda>b. length (bc_signal_bindings b)) blocks)"
  by (induction blocks) (simp_all add: bindings_of_def)

lemma check_signals_ok:
  "check_with_earlier check_signal [] signals = Inr u \<longleftrightarrow>
   distinct (map sgc_name signals) \<and> (\<forall>s \<in> set signals. dpt_is_supported (sgc_dpt s))"
  by (rule check_distinct_ok) (simp add: check_signal_def earlier_iff)

lemma check_blocks_ok:
  "check_with_earlier (check_block env limits) [] blocks = Inr u \<longleftrightarrow>
   distinct (map bc_id blocks)
   \<and> (\<forall>b \<in> set blocks. block_config_validate_with_limits env b limits = Inr ())"
  by (rule check_distinct_ok) (simp add: check_block_def earlier_iff result_simps)

text \<open>The checks before the signal graph, and the graph the last two look at.\<close>

lemma validate_stages:
  assumes "runtime_config_validate_with_limits env config limits = r"
    and "r = Inr () \<or> (\<exists>c. r = Inl (SignalCycle c)) \<or> (\<exists>n m. r = Inl (RcCascadeLimit n m))"
  shows "\<exists>producers edges.
    try_fold (producer_step (rc_signals config)) [] (bindings_of (rc_blocks config)) = Inr producers
    \<and> try_fold (edge_step producers) [] (bindings_of (rc_blocks config)) = Inr edges
    \<and> r = result_bind (detect_signal_cycle (rc_blocks config) edges)
        (\<lambda>_. check_cascades edges (rc_blocks config) limits)
    \<and> rc_blocks config \<noteq> [] \<and> length (rc_blocks config) \<le> max_logic_blocks limits
    \<and> length (rc_signals config) \<le> max_signals limits
    \<and> check_with_earlier check_signal [] (rc_signals config) = Inr ()
    \<and> length (bindings_of (rc_blocks config)) \<le> max_signal_bindings limits
    \<and> check_with_earlier (check_block env limits) [] (rc_blocks config) = Inr ()
    \<and> sum_list (map (\<lambda>b. length (lp_source (bc_logic b))) (rc_blocks config))
        \<le> max_logic_source_bytes_total limits"
proof -
  have signals: "check_with_earlier check_signal [] (rc_signals config) \<noteq> Inl (SignalCycle c)"
    "check_with_earlier check_signal [] (rc_signals config) \<noteq> Inl (RcCascadeLimit n m)" for c n m
    by (rule check_with_earlier_not; auto simp: check_signal_def)+
  have blocks: "check_with_earlier (check_block env limits) [] (rc_blocks config) \<noteq> Inl (SignalCycle c)"
    "check_with_earlier (check_block env limits) [] (rc_blocks config) \<noteq> Inl (RcCascadeLimit n m)"
    for c n m
    by (rule check_with_earlier_not; auto simp: check_block_def result_simps)+
  have producers: "try_fold (producer_step sg) ps bbs \<noteq> Inl (SignalCycle c)"
    "try_fold (producer_step sg) ps bbs \<noteq> Inl (RcCascadeLimit n m)" for sg ps bbs c n m
    by (rule try_fold_not; auto simp: producer_step_def result_simps Let_def split: option.splits)+
  have edges: "try_fold (edge_step pr) es bbs \<noteq> Inl (SignalCycle c)"
    "try_fold (edge_step pr) es bbs \<noteq> Inl (RcCascadeLimit n m)" for pr es bbs c n m
    by (rule try_fold_not; auto simp: edge_step_def result_simps Let_def split: option.splits)+
  show ?thesis
    using assms signals blocks producers edges
    by (auto simp: runtime_config_validate_with_limits_def Let_def result_simps
        length_bindings_of not_less split: if_splits)
qed

lemma validate_graph:
  assumes "runtime_config_validate_with_limits env config limits = r"
    and "r = Inr () \<or> (\<exists>c. r = Inl (SignalCycle c)) \<or> (\<exists>n m. r = Inl (RcCascadeLimit n m))"
  obtains edges where "children_of edges = fed_blocks config"
    and "graph_of edges = signal_graph config"
    and "r = result_bind (detect_signal_cycle (rc_blocks config) edges)
        (\<lambda>_. check_cascades edges (rc_blocks config) limits)"
    and "(detect_signal_cycle (rc_blocks config) edges = Inr () \<and> acyclic (signal_graph config))
      \<or> (\<exists>c. detect_signal_cycle (rc_blocks config) edges = Inl (SignalCycle c)
           \<and> is_cycle (signal_graph config) c)"
    and "rc_blocks config \<noteq> []"
    and "\<And>x. length (fed_blocks config x) \<le> max_signal_bindings limits"
proof -
  obtain producers edges where
    p: "try_fold (producer_step (rc_signals config)) [] (bindings_of (rc_blocks config)) = Inr producers"
    and e: "try_fold (edge_step producers) [] (bindings_of (rc_blocks config)) = Inr edges"
    and r: "r = result_bind (detect_signal_cycle (rc_blocks config) edges)
        (\<lambda>_. check_cascades edges (rc_blocks config) limits)"
    and ne: "rc_blocks config \<noteq> []"
    and len: "length (bindings_of (rc_blocks config)) \<le> max_signal_bindings limits"
    using validate_stages [OF assms] by blast
  have children: "children_of edges = fed_blocks config"
    using edges_are_fed_blocks [OF p e] by (intro ext)
  have graph: "graph_of edges = signal_graph config"
    by (simp add: graph_of_def signal_graph_def children)
  have "length (fed_blocks config x) \<le> length (bindings_of (rc_blocks config))" for x
    by (simp add: fed_blocks_def)
  then have "length (fed_blocks config x) \<le> max_signal_bindings limits" for x
    using len order_trans by blast
  with children graph r ne show ?thesis
    using detect_signal_cycle_spec [of edges "rc_blocks config"] fed_blocks_ids [of config]
    by (intro that [OF children graph r]) (simp_all add: children graph)
qed

lemma validated_wf:
  assumes "runtime_config_validate_with_limits env config limits = Inr ()"
  shows "runtime_config_wf (ts_features (env_time env)) config limits"
proof -
  obtain producers where
    p: "try_fold (producer_step (rc_signals config)) [] (bindings_of (rc_blocks config)) = Inr producers"
    and stages: "rc_blocks config \<noteq> []" "length (rc_blocks config) \<le> max_logic_blocks limits"
    "length (rc_signals config) \<le> max_signals limits"
    "check_with_earlier check_signal [] (rc_signals config) = Inr ()"
    "length (bindings_of (rc_blocks config)) \<le> max_signal_bindings limits"
    "check_with_earlier (check_block env limits) [] (rc_blocks config) = Inr ()"
    "sum_list (map (\<lambda>b. length (lp_source (bc_logic b))) (rc_blocks config))
       \<le> max_logic_source_bytes_total limits"
    using validate_stages [OF assms] by blast
  have "acyclic (signal_graph config)"
  proof (rule validate_graph [OF assms])
    fix edges
    assume "Inr () = result_bind (detect_signal_cycle (rc_blocks config) edges)
        (\<lambda>_. check_cascades edges (rc_blocks config) limits)"
      and "(detect_signal_cycle (rc_blocks config) edges = Inr () \<and> acyclic (signal_graph config))
      \<or> (\<exists>c. detect_signal_cycle (rc_blocks config) edges = Inl (SignalCycle c)
           \<and> is_cycle (signal_graph config) c)"
    then show ?thesis by auto
  qed simp
  moreover have "block_config_wf (ts_features (env_time env)) b limits" if "b \<in> set (rc_blocks config)" for b
    using stages(6) that block_config_validate_ok unfolding check_blocks_ok by blast
  moreover note stages(1-3,5,7)
  moreover note stages(4) [unfolded check_signals_ok]
  moreover note stages(6) [unfolded check_blocks_ok]
  moreover note producers_spec [OF p]
  ultimately show ?thesis unfolding runtime_config_wf_def by blast
qed

text \<open>
  A validated runtime configuration is well-formed: all counts and sizes are within the
  limits, block identifiers, signal names, endpoint names, schedule names and bound endpoints are
  distinct, every schedule rule is valid, every binding joins an existing endpoint to a declared
  signal of the same datapoint type, each signal has at most one producer, and the graph of
  signal dependencies between blocks is acyclic.
\<close>

theorem validated_config_wf:
  assumes "runtime_config_validate_with_limits env config limits = Inr ()"
  shows "runtime_config_wf (ts_features (env_time env)) config limits"
  using assms by (rule validated_wf)

text \<open>
  A reported signal cycle is real: the path the validation returns has at least one step,
  starts and ends at the same block, and each block on it publishes a signal that the next one
  consumes.
\<close>

theorem reported_cycle_is_real:
  assumes "runtime_config_validate_with_limits env config limits = Inl (SignalCycle c)"
  shows "2 \<le> length c \<and> hd c = last c
    \<and> successively (\<lambda>x y. y \<in> set (fed_blocks config x)) c"
proof -
  have no: "check_cascades edges blocks limits \<noteq> Inl (SignalCycle c)" for edges blocks
    by (auto simp: check_cascades_def split: option.splits)
  have "is_cycle (signal_graph config) c"
  proof (rule validate_graph [OF assms])
    fix edges
    assume "Inl (SignalCycle c) = result_bind (detect_signal_cycle (rc_blocks config) edges)
        (\<lambda>_. check_cascades edges (rc_blocks config) limits)"
      and "(detect_signal_cycle (rc_blocks config) edges = Inr () \<and> acyclic (signal_graph config))
      \<or> (\<exists>c. detect_signal_cycle (rc_blocks config) edges = Inl (SignalCycle c)
           \<and> is_cycle (signal_graph config) c)"
    with no [of edges "rc_blocks config"] show ?thesis by auto
  qed simp
  then show ?thesis by (simp add: is_cycle_def signal_graph_def)
qed

lemma cascade_check_exact:
  assumes "max_signal_bindings limits * max_cascade_executions limits < 2 ^ 64 - 1"
    and "runtime_config_validate_with_limits env config limits = Inr ()
      \<or> runtime_config_validate_with_limits env config limits = Inl (RcCascadeLimit k m)"
  shows "runtime_config_validate_with_limits env config limits = Inr () \<longleftrightarrow>
    (\<forall>b \<in> set (rc_blocks config). \<exists>n \<le> max_cascade_executions limits.
       cascades (fed_blocks config) (bc_id b) n)"
proof -
  let ?r = "runtime_config_validate_with_limits env config limits"
  have main: "acyclic (signal_graph config) \<and> (?r = Inr () \<longleftrightarrow>
      (\<forall>b \<in> set (rc_blocks config). \<exists>n \<le> max_cascade_executions limits.
         cascades (fed_blocks config) (bc_id b) n))"
  proof (rule validate_graph [OF refl])
    show "?r = Inr () \<or> (\<exists>c. ?r = Inl (SignalCycle c)) \<or> (\<exists>n m. ?r = Inl (RcCascadeLimit n m))"
      using assms(2) by blast
  next
    fix edges
    assume children: "children_of edges = fed_blocks config"
      and graph: "graph_of edges = signal_graph config"
      and r: "?r = result_bind (detect_signal_cycle (rc_blocks config) edges)
        (\<lambda>_. check_cascades edges (rc_blocks config) limits)"
      and detect: "(detect_signal_cycle (rc_blocks config) edges = Inr ()
          \<and> acyclic (signal_graph config))
        \<or> (\<exists>c. detect_signal_cycle (rc_blocks config) edges = Inl (SignalCycle c)
             \<and> is_cycle (signal_graph config) c)"
      and ne: "rc_blocks config \<noteq> []"
      and len: "\<And>x. length (fed_blocks config x) \<le> max_signal_bindings limits"
    have ok: "detect_signal_cycle (rc_blocks config) edges = Inr ()" "acyclic (signal_graph config)"
      using detect r assms(2) by auto
    have "length (fed_blocks config x) * max_cascade_executions limits < 2 ^ 64 - 1" for x
      using mult_le_mono1 [OF len] assms(1) by (rule order_le_less_trans)
    then have "check_cascades edges (rc_blocks config) limits = Inr () \<longleftrightarrow>
      (\<forall>b \<in> set (rc_blocks config). \<exists>n \<le> max_cascade_executions limits.
         cascades (fed_blocks config) (bc_id b) n)"
      using check_cascades_spec(1) [of edges "rc_blocks config" limits] fed_blocks_ids [of config]
        ok(2) ne by (simp add: children graph)
    with ok r show ?thesis by simp
  qed
  then show ?thesis by blast
qed

text \<open>
  C40. The bound on cascades is exact, although the sum behind it may overflow: provided the
  products of the limits fit 64 bits (as they do in both profiles), an accepted configuration has
  from every block at most \<open>max_cascade_executions\<close> executions along all signal paths, and a
  configuration rejected for this reason has a block that exceeds it.
\<close>

theorem cascade_bound_exact:
  assumes "max_signal_bindings limits * max_cascade_executions limits < 2 ^ 64 - 1"
  shows "(runtime_config_validate_with_limits env config limits = Inr () \<longrightarrow>
      (\<forall>b \<in> set (rc_blocks config). \<exists>n \<le> max_cascade_executions limits.
         cascades (fed_blocks config) (bc_id b) n))
    \<and> (runtime_config_validate_with_limits env config limits = Inl (RcCascadeLimit k m) \<longrightarrow>
      (\<exists>b \<in> set (rc_blocks config). \<forall>n.
         cascades (fed_blocks config) (bc_id b) n \<longrightarrow> max_cascade_executions limits < n))"
proof (intro conjI impI)
  assume "runtime_config_validate_with_limits env config limits = Inl (RcCascadeLimit k m)"
  with cascade_check_exact [OF assms, of env config k m] obtain b where "b \<in> set (rc_blocks config)"
    "\<not> (\<exists>n \<le> max_cascade_executions limits. cascades (fed_blocks config) (bc_id b) n)" by auto
  then show "\<exists>b \<in> set (rc_blocks config). \<forall>n.
      cascades (fed_blocks config) (bc_id b) n \<longrightarrow> max_cascade_executions limits < n"
    by (meson not_less)
qed (use cascade_check_exact [OF assms] in blast)

subsection \<open>Concrete configurations\<close>

definition sample_binding :: "rstring \<Rightarrow> rstring \<Rightarrow> signal_binding" where
  "sample_binding e s = \<lparr>sb_endpoint = EndpointName e, sb_signal = SignalName s\<rparr>"

definition sample_block :: "rstring \<Rightarrow> signal_binding list \<Rightarrow> block_config" where
  "sample_block name bindings =
     \<lparr>bc_id = BlockId name, bc_enabled = True, bc_endpoints = sample_endpoints,
      bc_logic = sample_program, bc_schedules = [], bc_signal_bindings = bindings\<rparr>"

text \<open>Block \<open>a\<close> publishes a signal that block \<open>b\<close> consumes.\<close>

definition chained_config :: runtime_config where
  "chained_config =
     \<lparr>rc_blocks = [sample_block ''a'' [sample_binding ''lamp'' ''p''],
        sample_block ''b'' [sample_binding ''switch'' ''p'']],
      rc_signals = [\<lparr>sgc_name = SignalName ''p'', sgc_dpt = dpt_bool\<rparr>],
      rc_site = default_site\<rparr>"

text \<open>The two blocks feed each other.\<close>

definition cyclic_config :: runtime_config where
  "cyclic_config =
     \<lparr>rc_blocks = [sample_block ''a'' [sample_binding ''lamp'' ''p'', sample_binding ''switch'' ''q''],
        sample_block ''b'' [sample_binding ''switch'' ''p'', sample_binding ''lamp'' ''q'']],
      rc_signals = [\<lparr>sgc_name = SignalName ''p'', sgc_dpt = dpt_bool\<rparr>,
        \<lparr>sgc_name = SignalName ''q'', sgc_dpt = dpt_bool\<rparr>],
      rc_site = default_site\<rparr>"

lemma sample_engine_valid:
  "engine_config_validate_with_limits (env_vm sample_environment)
     \<lparr>ec_endpoints = sample_endpoints, ec_logic = sample_program\<rparr> sample_limits = Inr ()"
  using sample_engine_new
  by (auto simp: engine_try_new_with_limits_def sample_config_def result_simps)

lemma sample_block_id [simp]: "bc_id (sample_block name bindings) = BlockId name"
  by (simp add: sample_block_def)

lemma sample_source_length: "length (lp_source sample_program) = 21"
  by (simp add: sample_program_def logic_program_new_def)

lemma sample_block_valid:
  assumes "check_with_earlier (check_binding sample_endpoints) [] bindings = Inr ()"
  shows "block_config_validate_with_limits sample_environment (sample_block name bindings)
    sample_limits = Inr ()"
  using assms sample_engine_valid
  by (simp add: block_config_validate_with_limits_def sample_block_def sample_source_length)
    (simp add: sample_limits_def sample_endpoints_def)

lemma sample_bindings_valid:
  "check_with_earlier (check_binding sample_endpoints) [] [sample_binding ''lamp'' s] = Inr ()"
  "check_with_earlier (check_binding sample_endpoints) [] [sample_binding ''switch'' s] = Inr ()"
  "check_with_earlier (check_binding sample_endpoints) []
     [sample_binding ''lamp'' s, sample_binding ''switch'' t] = Inr ()"
  "check_with_earlier (check_binding sample_endpoints) []
     [sample_binding ''switch'' s, sample_binding ''lamp'' t] = Inr ()"
  by (simp_all add: check_binding_def sample_binding_def sample_endpoints_def)

lemmas sample_config_simps = chained_config_def cyclic_config_def sample_block_def
  sample_binding_def sample_endpoints_def bindings_of_def producer_step_def edge_step_def
  children_of_def check_block_def check_signal_def dpt_is_supported_def dpt_class_iff

lemma sample_blocks_valid:
  "check_with_earlier (check_block sample_environment sample_limits) [] (rc_blocks chained_config)
     = Inr ()"
  "check_with_earlier (check_block sample_environment sample_limits) [] (rc_blocks cyclic_config)
     = Inr ()"
  unfolding check_blocks_ok
  using sample_block_valid [OF sample_bindings_valid(1)] sample_block_valid [OF sample_bindings_valid(2)]
    sample_block_valid [OF sample_bindings_valid(3)] sample_block_valid [OF sample_bindings_valid(4)]
  by (simp_all add: chained_config_def cyclic_config_def)

lemma sample_bindings:
  "bindings_of (rc_blocks chained_config) =
     [(sample_block ''a'' [sample_binding ''lamp'' ''p''], sample_binding ''lamp'' ''p''),
      (sample_block ''b'' [sample_binding ''switch'' ''p''], sample_binding ''switch'' ''p'')]"
  "bindings_of (rc_blocks cyclic_config) =
     (let a = sample_block ''a'' [sample_binding ''lamp'' ''p'', sample_binding ''switch'' ''q''];
          b = sample_block ''b'' [sample_binding ''switch'' ''p'', sample_binding ''lamp'' ''q'']
      in [(a, sample_binding ''lamp'' ''p''), (a, sample_binding ''switch'' ''q''),
          (b, sample_binding ''switch'' ''p''), (b, sample_binding ''lamp'' ''q'')])"
  by (simp_all add: bindings_of_def chained_config_def cyclic_config_def Let_def)
    (simp_all add: sample_block_def)

lemma sample_endpoint:
  "find (\<lambda>e. ep_name e = EndpointName ''lamp'') sample_endpoints =
     Some \<lparr>ep_name = EndpointName ''lamp'', ep_direction = Output, ep_dpt = dpt_bool\<rparr>"
  "find (\<lambda>e. ep_name e = EndpointName ''switch'') sample_endpoints =
     Some \<lparr>ep_name = EndpointName ''switch'', ep_direction = Input, ep_dpt = dpt_bool\<rparr>"
  by (simp_all add: sample_endpoints_def)

definition bool_signal :: "rstring \<Rightarrow> signal_config" where
  "bool_signal s = \<lparr>sgc_name = SignalName s, sgc_dpt = dpt_bool\<rparr>"

lemma bool_signal_name [simp]: "sgc_name (bool_signal s) = SignalName s"
  by (simp add: bool_signal_def)

lemma sample_steps:
  assumes "find (\<lambda>x. sgc_name x = SignalName s) signals = Some (bool_signal s)"
  shows "btm_get producers (SignalName s) = None \<Longrightarrow>
      producer_step signals producers (sample_block n bs, sample_binding ''lamp'' s) =
      Inr (btm_insert (SignalName s)
        \<lparr>se_block_id = BlockId n, se_endpoint = EndpointName ''lamp''\<rparr> producers)"
    and "producer_step signals producers (sample_block n bs, sample_binding ''switch'' s) =
      Inr producers"
  using assms
  by (simp_all add: producer_step_def sample_binding_def Let_def bool_signal_def)
    (simp_all add: sample_block_def sample_endpoint)

lemma sample_edge_steps:
  "edge_step producers edges (sample_block n bs, sample_binding ''lamp'' s) = Inr edges"
  "btm_get producers (SignalName s) = Some p \<Longrightarrow>
   edge_step producers edges (sample_block n bs, sample_binding ''switch'' s) =
   Inr (btm_insert (se_block_id p) (children_of edges (se_block_id p) @ [BlockId n]) edges)"
  by (simp_all add: edge_step_def sample_binding_def Let_def children_of_def)
    (simp_all add: sample_block_def sample_endpoint Let_def)

lemma sample_signals_valid:
  "check_with_earlier check_signal [] (rc_signals chained_config) = Inr ()"
  "check_with_earlier check_signal [] (rc_signals cyclic_config) = Inr ()"
  by (simp_all add: chained_config_def cyclic_config_def check_signal_def dpt_is_supported_def dpt_class_iff)

lemma sample_signals:
  "rc_signals chained_config = [bool_signal ''p'']"
  "rc_signals cyclic_config = [bool_signal ''p'', bool_signal ''q'']"
  by (simp_all add: chained_config_def cyclic_config_def bool_signal_def)

lemma chained_config_acyclic:
  "detect_signal_cycle (rc_blocks chained_config) [(BlockId ''a'', [BlockId ''b''])] = Inr ()"
  by (simp add: detect_signal_cycle_def detect_step_def chained_config_def children_of_def
      btm_get_def Let_def)

lemma chained_cascade_sizes:
  "cascade_size [(BlockId ''a'', [BlockId ''b''])] (Suc n) (BlockId ''b'') []
     = Some (1, [(BlockId ''b'', 1)])"
  "cascade_size [(BlockId ''a'', [BlockId ''b''])] (Suc (Suc n)) (BlockId ''a'') []
     = Some (2, [(BlockId ''a'', 2), (BlockId ''b'', 1)])"
proof -
  let ?es = "[(BlockId ''a'', [BlockId ''b''])]"
  show leaf: "cascade_size ?es (Suc n) (BlockId ''b'') [] = Some (1, [(BlockId ''b'', 1)])" for n
    by (simp add: children_of_def btm_get_def saturating_add_word_def)
  show "cascade_size ?es (Suc (Suc n)) (BlockId ''a'') []
      = Some (2, [(BlockId ''a'', 2), (BlockId ''b'', 1)])"
    unfolding cascade_size.simps(2) [of ?es "Suc n" "BlockId ''a''" "[]"]
    by (simp add: children_of_def btm_get_def saturating_add_word_def leaf less_block_id_def
        del: cascade_size.simps)
qed

lemma chained_config_cascades:
  "check_cascades [(BlockId ''a'', [BlockId ''b''])] (rc_blocks chained_config) sample_limits = Inr ()"
  by (simp add: check_cascades_def chained_config_def chained_cascade_sizes sample_limits_def
      max_def word_le_nat_alt del: cascade_size.simps)

lemma sample_limit_values:
  "max_logic_blocks sample_limits = 4" "max_signals sample_limits = 4"
  "max_signal_bindings sample_limits = 8" "max_logic_source_bytes_total sample_limits = 99"
  "max_cascade_executions sample_limits = 4"
  by (simp_all add: sample_limits_def)

lemma chained_config_sizes:
  "length (rc_blocks chained_config) = 2" "length (rc_signals chained_config) = 1"
  "sum_list (map (\<lambda>b. length (bc_signal_bindings b)) (rc_blocks chained_config)) = 2"
  "sum_list (map (\<lambda>b. length (lp_source (bc_logic b))) (rc_blocks chained_config)) = 42"
  "rc_blocks chained_config \<noteq> []"
  by (simp_all add: chained_config_def sample_block_def sample_source_length)

lemma cyclic_config_sizes:
  "length (rc_blocks cyclic_config) = 2" "length (rc_signals cyclic_config) = 2"
  "sum_list (map (\<lambda>b. length (bc_signal_bindings b)) (rc_blocks cyclic_config)) = 4"
  "sum_list (map (\<lambda>b. length (lp_source (bc_logic b))) (rc_blocks cyclic_config)) = 42"
  "rc_blocks cyclic_config \<noteq> []"
  by (simp_all add: cyclic_config_def sample_block_def sample_source_length)

lemma sample_stages:
  "try_fold (producer_step (rc_signals chained_config)) [] (bindings_of (rc_blocks chained_config))
     = Inr [(SignalName ''p'', \<lparr>se_block_id = BlockId ''a'', se_endpoint = EndpointName ''lamp''\<rparr>)]"
  "try_fold (edge_step
       [(SignalName ''p'', \<lparr>se_block_id = BlockId ''a'', se_endpoint = EndpointName ''lamp''\<rparr>)])
     [] (bindings_of (rc_blocks chained_config)) = Inr [(BlockId ''a'', [BlockId ''b''])]"
  by (simp_all add: sample_bindings sample_signals sample_steps sample_edge_steps btm_get_def children_of_def)
lemma cyclic_stages:
  "try_fold (producer_step (rc_signals cyclic_config)) [] (bindings_of (rc_blocks cyclic_config))
     = Inr [(SignalName ''p'', \<lparr>se_block_id = BlockId ''a'', se_endpoint = EndpointName ''lamp''\<rparr>),
            (SignalName ''q'', \<lparr>se_block_id = BlockId ''b'', se_endpoint = EndpointName ''lamp''\<rparr>)]"
  "try_fold (edge_step
       [(SignalName ''p'', \<lparr>se_block_id = BlockId ''a'', se_endpoint = EndpointName ''lamp''\<rparr>),
        (SignalName ''q'', \<lparr>se_block_id = BlockId ''b'', se_endpoint = EndpointName ''lamp''\<rparr>)])
     [] (bindings_of (rc_blocks cyclic_config))
     = Inr [(BlockId ''a'', [BlockId ''b'']), (BlockId ''b'', [BlockId ''a''])]"
  by (simp_all add: sample_bindings sample_signals sample_steps sample_edge_steps btm_get_def children_of_def Let_def
    less_signal_name_def less_block_id_def)
lemma chained_config_valid:
  "runtime_config_validate_with_limits sample_environment chained_config sample_limits = Inr ()"
  by (simp add: runtime_config_validate_with_limits_def Let_def sample_stages sample_blocks_valid
      chained_config_acyclic chained_config_cascades chained_config_sizes sample_limit_values sample_signals_valid)

lemma cyclic_config_graph:
  "detect_signal_cycle (rc_blocks cyclic_config)
     [(BlockId ''a'', [BlockId ''b'']), (BlockId ''b'', [BlockId ''a''])]
   = Inl (SignalCycle [BlockId ''a'', BlockId ''b'', BlockId ''a''])"
  by (simp add: detect_signal_cycle_def detect_step_def cyclic_config_def children_of_def
      btm_get_def numeral_2_eq_2 cycle_of_def Let_def)

lemma cyclic_config_rejected:
  "runtime_config_validate_with_limits sample_environment cyclic_config sample_limits
   = Inl (SignalCycle [BlockId ''a'', BlockId ''b'', BlockId ''a''])"
  by (simp add: runtime_config_validate_with_limits_def Let_def cyclic_stages sample_blocks_valid
      cyclic_config_graph cyclic_config_sizes sample_limit_values sample_signals_valid)

theorem validated_config_wf_witness:
  "runtime_config_wf (ts_features (env_time sample_environment)) chained_config sample_limits"
  by (rule validated_config_wf [OF chained_config_valid])

theorem cascade_bound_exact_witness:
  "\<exists>n \<le> 4. cascades (fed_blocks chained_config) (BlockId ''a'') n"
  using cascade_bound_exact [of sample_limits sample_environment chained_config] chained_config_valid
  by (simp add: sample_limit_values chained_config_def sample_block_def)

theorem reported_cycle_is_real_witness:
  "successively (\<lambda>x y. y \<in> set (fed_blocks cyclic_config x))
     [BlockId ''a'', BlockId ''b'', BlockId ''a'']"
  using reported_cycle_is_real [OF cyclic_config_rejected] by simp

end
