(* ===== verification/Runtime_Model.thy ===== *)
theory Runtime_Model
  imports Config_Correctness
begin

text \<open>
  \<open>runtime_model.rs\<close> and the core of \<open>runtime_impl.rs\<close>: a block with its health, the runtime that
  owns all blocks and signals, its resource accounting, and the single-block live operations.
  Operations that mutate return their result with the runtime after them.
\<close>

subsection \<open>Blocks and their health\<close>

definition block_failure_suspension_threshold :: u32 where
  "block_failure_suspension_threshold = 5"

record logic_block =
  lb_config :: block_config
  lb_engine :: engine
  lb_health :: block_health
  lb_consecutive_failures :: u32
  lb_live_execution_times :: "monotonic_ms list"
  lb_last_suspension :: "block_suspension option"

abbreviation lb_id :: "logic_block \<Rightarrow> block_id" where
  "lb_id b \<equiv> bc_id (lb_config b)"

abbreviation lb_enabled :: "logic_block \<Rightarrow> bool" where
  "lb_enabled b \<equiv> bc_enabled (lb_config b)"

definition initial_health :: "bool \<Rightarrow> block_health" where
  "initial_health enabled = (if enabled then Active else Disabled)"

definition logic_block_try_new ::
  "environment \<Rightarrow> block_config \<Rightarrow> runtime_limits \<Rightarrow> runtime_config_error + logic_block" where
  "logic_block_try_new env config limits =
     result_bind
       (map_err (InvalidBlock (bc_id config)) (block_config_validate_with_limits env config limits))
       (\<lambda>_. result_bind
         (map_err (\<lambda>e. InvalidBlock (bc_id config) (BcEngine e))
           (engine_try_new_with_limits env
             \<lparr>ec_endpoints = bc_endpoints config, ec_logic = bc_logic config\<rparr> limits))
         (\<lambda>eng. Inr \<lparr>lb_config = config, lb_engine = eng,
            lb_health = initial_health (bc_enabled config), lb_consecutive_failures = 0,
            lb_live_execution_times = [], lb_last_suspension = None\<rparr>))"

text \<open>The sliding window of one second.\<close>

definition outside_window :: "monotonic_ms \<Rightarrow> monotonic_ms \<Rightarrow> bool" where
  "outside_window now started \<longleftrightarrow> 1000 \<le> saturating_sub_word now started"

definition prune_live_execution_window :: "monotonic_ms \<Rightarrow> logic_block \<Rightarrow> logic_block" where
  "prune_live_execution_window now b =
     b\<lparr>lb_live_execution_times := dropWhile (outside_window now) (lb_live_execution_times b)\<rparr>"

definition clear_timers :: "engine \<Rightarrow> engine" where
  "clear_timers eng = eng\<lparr>eng_pending_timers := []\<rparr>"

definition admit_live_execution :: "monotonic_ms \<Rightarrow> nat \<Rightarrow> logic_block \<Rightarrow> bool \<times> logic_block" where
  "admit_live_execution now maximum b =
     (if lb_health b \<noteq> Active then (False, b)
      else
        let b = prune_live_execution_window now b
        in if maximum \<le> length (lb_live_execution_times b)
           then (False, b\<lparr>lb_health := SuspendedEventRate, lb_last_suspension := Some EventRate,
             lb_consecutive_failures := 0, lb_engine := clear_timers (lb_engine b)\<rparr>)
           else (True, b\<lparr>lb_live_execution_times := lb_live_execution_times b @ [now]\<rparr>))"

fun counts_as_failure :: "logic_error_kind \<Rightarrow> bool" where
  "counts_as_failure KindRuntime = True"
| "counts_as_failure KindInstructionLimit = True"
| "counts_as_failure KindMemoryLimit = True"
| "counts_as_failure KindHandlerTimeLimit = True"
| "counts_as_failure KindInvalidResult = True"
| "counts_as_failure _ = False"

definition record_live_execution :: "execution \<Rightarrow> logic_block \<Rightarrow> logic_block" where
  "record_live_execution ex b =
     (case ex_outcome ex of
        Inr _ \<Rightarrow> b\<lparr>lb_consecutive_failures := 0\<rparr>
      | Inl e \<Rightarrow>
          if counts_as_failure (logic_error_kind_of e)
          then
            let failures = saturating_add_word (lb_consecutive_failures b) 1;
                b = b\<lparr>lb_consecutive_failures := failures\<rparr>
            in if block_failure_suspension_threshold \<le> failures
               then b\<lparr>lb_health := SuspendedScriptFailures,
                 lb_last_suspension := Some ScriptFailures, lb_live_execution_times := [],
                 lb_engine := clear_timers (lb_engine b)\<rparr>
               else b
          else b)"

definition reset_health :: "logic_block \<Rightarrow> logic_block" where
  "reset_health b =
     b\<lparr>lb_health := initial_health (lb_enabled b), lb_consecutive_failures := 0,
       lb_live_execution_times := [], lb_last_suspension := None\<rparr>"

definition set_enabled :: "bool \<Rightarrow> logic_block \<Rightarrow> logic_block" where
  "set_enabled enabled b =
     (let b = b\<lparr>lb_config := (lb_config b)\<lparr>bc_enabled := enabled\<rparr>\<rparr>;
          b = (if enabled then b else b\<lparr>lb_engine := clear_timers (lb_engine b)\<rparr>)
      in reset_health b)"

record block_snapshot =
  bsn_id :: block_id
  bsn_enabled :: bool
  bsn_health :: block_health
  bsn_consecutive_failures :: u32
  bsn_live_executions_in_window :: nat
  bsn_last_suspension :: "block_suspension option"
  bsn_logic_revision :: logic_revision
  bsn_inputs :: "input_snapshot list"
  bsn_known_inputs :: "(endpoint_name \<times> typed_value) list"
  bsn_state :: transient_state
  bsn_pending_timers :: "pending_timer list"

definition block_snapshot_at :: "monotonic_ms \<Rightarrow> logic_block \<Rightarrow> block_snapshot" where
  "block_snapshot_at now b =
     \<lparr>bsn_id = lb_id b, bsn_enabled = lb_enabled b, bsn_health = lb_health b,
      bsn_consecutive_failures = lb_consecutive_failures b,
      bsn_live_executions_in_window =
        length (filter (\<lambda>started. \<not> outside_window now started) (lb_live_execution_times b)),
      bsn_last_suspension = lb_last_suspension b,
      bsn_logic_revision = active_logic_revision (lb_engine b),
      bsn_inputs = input_snapshots (lb_engine b) now,
      bsn_known_inputs = known_input_values (lb_engine b),
      bsn_state = eng_state (lb_engine b),
      bsn_pending_timers = btm_values (eng_pending_timers (lb_engine b))\<rparr>"

subsection \<open>The runtime\<close>

record signal_state =
  sg_config :: signal_config
  sg_value :: "typed_value option"
  sg_observed_at :: "monotonic_ms option"
  sg_changed_at :: "monotonic_ms option"
  sg_producer :: "signal_endpoint_id option"
  sg_producing_execution :: "execution_id option"
  sg_consumers :: "signal_endpoint_id list"

record runtime =
  rt_limits :: runtime_limits
  rt_blocks :: "logic_block list"
  rt_signals :: "signal_state list"
  rt_signal_indexes :: "(signal_name, nat) btree_map"
  rt_last_accepted_at :: "monotonic_ms option"
  rt_next_execution_id :: execution_id
  rt_site :: site_time_config
  rt_schedule_cursors :: "(block_id \<times> schedule_name, schedule_cursor) btree_map"
  rt_schedule_structural_revision :: "u64 option"
  rt_last_schedule_wall_clock_utc_ms :: "int option"

record block_execution =
  bx_block_id :: block_id
  bx_execution :: execution

datatype runtime_event_error =
    RtUnknownBlock block_id
  | RtBlock block_id event_error
  | RtTimeWentBackwards "block_id option" monotonic_ms monotonic_ms
  | CascadeLimit nat nat
  | ResourceLimit rstring nat nat
  | CascadeTimeLimit u64 u64
  | RtOutOfFuel \<comment> \<open>the recursion of the model ran out of fuel\<close>
  | RtPanic rstring \<comment> \<open>a panic of the code\<close>

text \<open>Construction: the blocks, then the producers and consumers of the signals.\<close>

definition new_signal :: "signal_config \<Rightarrow> signal_state" where
  "new_signal config =
     \<lparr>sg_config = config, sg_value = None, sg_observed_at = None, sg_changed_at = None,
      sg_producer = None, sg_producing_execution = None, sg_consumers = []\<rparr>"

definition index_signals :: "signal_config list \<Rightarrow> (signal_name, nat) btree_map" where
  "index_signals signals =
     foldl (\<lambda>m (index, signal). btm_insert (sgc_name signal) index m) []
       (enumerate 0 signals)"

definition connect_binding ::
  "(signal_name, nat) btree_map \<Rightarrow> signal_state list \<Rightarrow> block_config \<times> signal_binding
     \<Rightarrow> runtime_config_error + signal_state list" where
  "connect_binding indexes signals bb =
     (let block = fst bb; binding = snd bb in
      result_bind
        (ok_or (RcPanic ''validated signal endpoint'')
          (find (\<lambda>e. ep_name e = sb_endpoint binding) (bc_endpoints block))) (\<lambda>e.
        case btm_get indexes (sb_signal binding) of
          None \<Rightarrow> Inr signals
        | Some index \<Rightarrow>
            let identity = \<lparr>se_block_id = bc_id block, se_endpoint = ep_name e\<rparr>;
                signal = signals ! index
            in Inr (signals[index :=
                 (if ep_direction e = Output then signal\<lparr>sg_producer := Some identity\<rparr>
                  else signal\<lparr>sg_consumers := sg_consumers signal @ [identity]\<rparr>)])))"

definition logic_blocks_try_new ::
  "environment \<Rightarrow> runtime_limits \<Rightarrow> block_config list \<Rightarrow> runtime_config_error + logic_block list"
  where
  "logic_blocks_try_new env limits configs =
     try_fold
       (\<lambda>blocks config. result_bind (logic_block_try_new env config limits)
          (\<lambda>b. Inr (blocks @ [b])))
       [] configs"

definition runtime_try_new_with_limits ::
  "environment \<Rightarrow> runtime_config \<Rightarrow> runtime_limits \<Rightarrow> runtime_config_error + runtime" where
  "runtime_try_new_with_limits env config limits =
     result_bind (runtime_config_validate_with_limits env config limits) (\<lambda>_.
     result_bind (logic_blocks_try_new env limits (rc_blocks config)) (\<lambda>blocks.
     let indexes = index_signals (rc_signals config)
     in result_bind
          (try_fold (connect_binding indexes) (map new_signal (rc_signals config))
            (bindings_of (map lb_config blocks))) (\<lambda>signals.
          Inr \<lparr>rt_limits = limits, rt_blocks = blocks, rt_signals = signals,
               rt_signal_indexes = indexes, rt_last_accepted_at = None, rt_next_execution_id = 1,
               rt_site = rc_site config, rt_schedule_cursors = [],
               rt_schedule_structural_revision = None,
               rt_last_schedule_wall_clock_utc_ms = None\<rparr>)))"

definition runtime_config_of :: "runtime \<Rightarrow> runtime_config" where
  "runtime_config_of rt =
     \<lparr>rc_blocks = map lb_config (rt_blocks rt), rc_signals = map sg_config (rt_signals rt),
      rc_site = rt_site rt\<rparr>"

subsection \<open>Resource accounting\<close>

record runtime_usage =
  us_logic_blocks :: nat
  us_signals :: nat
  us_signal_bindings :: nat
  us_logic_source_bytes :: nat
  us_state_entries :: nat
  us_state_bytes :: nat
  us_pending_timers :: nat

definition usage :: "runtime \<Rightarrow> runtime_usage" where
  "usage rt =
     \<lparr>us_logic_blocks = length (rt_blocks rt), us_signals = length (rt_signals rt),
      us_signal_bindings =
        sum_list (map (\<lambda>b. length (bc_signal_bindings (lb_config b))) (rt_blocks rt)),
      us_logic_source_bytes =
        sum_list (map (\<lambda>b. length (lp_source (bc_logic (lb_config b)))) (rt_blocks rt)),
      us_state_entries = sum_list (map (\<lambda>b. length (eng_state (lb_engine b))) (rt_blocks rt)),
      us_state_bytes = sum_list (map (\<lambda>b. state_bytes (eng_state (lb_engine b))) (rt_blocks rt)),
      us_pending_timers =
        sum_list (map (\<lambda>b. length (eng_pending_timers (lb_engine b))) (rt_blocks rt))\<rparr>"

definition validate_usage :: "runtime \<Rightarrow> runtime_event_error + unit" where
  "validate_usage rt =
     (let u = usage rt; limits = rt_limits rt
      in check_all
        (\<lambda>(actual, maximum, resource).
           if maximum < actual then Inl (ResourceLimit resource actual maximum) else Inr ())
        [(us_logic_source_bytes u, max_logic_source_bytes_total limits, ''logic_source''),
         (us_state_bytes u, max_state_bytes_total limits, ''state''),
         (us_pending_timers u, max_pending_timers_total limits, ''pending_timers'')])"

text \<open>The check of the host's clock against the cascade budget, for one reading of the clock.\<close>

definition check_cascade_budget :: "runtime \<Rightarrow> u64 \<Rightarrow> runtime_event_error + unit" where
  "check_cascade_budget rt elapsed_ms =
     (case signal_cascade_time_budget_ms (rt_limits rt) of
        None \<Rightarrow> Inr ()
      | Some maximum_ms \<Rightarrow>
          if maximum_ms \<le> elapsed_ms then Inl (CascadeTimeLimit elapsed_ms maximum_ms)
          else Inr ())"

subsection \<open>Routing\<close>

definition find_block :: "runtime \<Rightarrow> block_id \<Rightarrow> logic_block option" where
  "find_block rt x = find (\<lambda>b. lb_id b = x) (rt_blocks rt)"

definition block_index :: "runtime \<Rightarrow> block_id \<Rightarrow> runtime_event_error + nat" where
  "block_index rt x = ok_or (RtUnknownBlock x) (position (\<lambda>b. lb_id b = x) (rt_blocks rt))"

definition set_block :: "nat \<Rightarrow> logic_block \<Rightarrow> runtime \<Rightarrow> runtime" where
  "set_block index b rt = rt\<lparr>rt_blocks := (rt_blocks rt)[index := b]\<rparr>"

definition set_engine :: "nat \<Rightarrow> engine \<Rightarrow> runtime \<Rightarrow> runtime" where
  "set_engine index eng rt = set_block index ((rt_blocks rt ! index)\<lparr>lb_engine := eng\<rparr>) rt"

definition accepted :: "monotonic_ms \<Rightarrow> runtime \<Rightarrow> runtime" where
  "accepted now rt = rt\<lparr>rt_last_accepted_at := Some now\<rparr>"

definition ensure_time ::
  "runtime \<Rightarrow> block_id option \<Rightarrow> monotonic_ms \<Rightarrow> runtime_event_error + unit" where
  "ensure_time rt block now =
     (case rt_last_accepted_at rt of
        None \<Rightarrow> Inr ()
      | Some previous \<Rightarrow>
          if now < previous then Inl (RtTimeWentBackwards block previous now) else Inr ())"

definition resume_block :: "block_id \<Rightarrow> runtime \<Rightarrow> (runtime_event_error + unit) \<times> runtime" where
  "resume_block x rt =
     (case block_index rt x of
        Inl e \<Rightarrow> (Inl e, rt)
      | Inr index \<Rightarrow> (Inr (), set_block index (reset_health (rt_blocks rt ! index)) rt))"

subsection \<open>Single-block live operations\<close>

text \<open>\<open>Engine::observe_input\<close> and \<open>Engine::process_input*\<close>.\<close>

definition engine_observe ::
  "environment \<Rightarrow> endpoint_name \<Rightarrow> typed_value \<Rightarrow> monotonic_ms \<Rightarrow> engine
     \<Rightarrow> (event_error + unit) \<times> engine" where
  "engine_observe env e v now eng =
     (case process_input_update_with_context env e (Observe v) now default_site None None eng of
        (Inl err, eng) \<Rightarrow> (Inl err, eng)
      | (Inr _, eng) \<Rightarrow> (Inr (), eng))"

definition engine_trigger ::
  "environment \<Rightarrow> endpoint_name \<Rightarrow> typed_value \<Rightarrow> monotonic_ms \<Rightarrow> site_time_config \<Rightarrow> int option
     \<Rightarrow> budget_probe option \<Rightarrow> engine \<Rightarrow> (event_error + execution) \<times> engine" where
  "engine_trigger env e v now site utc probe eng =
     (case process_input_update_with_context env e (UpdTrigger v) now site utc probe eng of
        (Inl err, eng) \<Rightarrow> (Inl err, eng)
      | (Inr None, eng) \<Rightarrow>
          (Inl (EventPanic ''trigger input always produces an execution''), eng)
      | (Inr (Some ex), eng) \<Rightarrow> (Inr ex, eng))"

definition observe_at ::
  "environment \<Rightarrow> nat \<Rightarrow> endpoint_name \<Rightarrow> typed_value \<Rightarrow> monotonic_ms \<Rightarrow> runtime
     \<Rightarrow> (runtime_event_error + unit) \<times> runtime" where
  "observe_at env index e v now rt =
     (case engine_observe env e v now (lb_engine (rt_blocks rt ! index)) of
        (Inl err, eng) \<Rightarrow> (Inl (RtBlock (lb_id (rt_blocks rt ! index)) err), set_engine index eng rt)
      | (Inr _, eng) \<Rightarrow> (Inr (), set_engine index eng rt))"

definition observe_input ::
  "environment \<Rightarrow> block_id \<Rightarrow> endpoint_name \<Rightarrow> typed_value \<Rightarrow> monotonic_ms \<Rightarrow> runtime
     \<Rightarrow> (runtime_event_error + unit) \<times> runtime" where
  "observe_input env x e v now rt =
     (case result_bind (block_index rt x) (\<lambda>index.
             result_bind
               (map_err (RtBlock x) (validate_input (lb_engine (rt_blocks rt ! index)) e v)) (\<lambda>_.
             result_bind (ensure_time rt (Some x) now) (\<lambda>_. Inr index))) of
        Inl err \<Rightarrow> (Inl err, rt)
      | Inr index \<Rightarrow>
          (case observe_at env index e v now rt of
             (Inl err, rt) \<Rightarrow> (Inl err, rt)
           | (Inr _, rt) \<Rightarrow> (Inr (), accepted now rt)))"

text \<open>Admission through the block's health and rate window.\<close>

definition admit_at :: "nat \<Rightarrow> monotonic_ms \<Rightarrow> runtime \<Rightarrow> bool \<times> runtime" where
  "admit_at index now rt =
     (case admit_live_execution now (max_live_executions_per_block_per_second (rt_limits rt))
             (rt_blocks rt ! index) of
        (ok, b) \<Rightarrow> (ok, set_block index b rt))"

definition assign_execution_id ::
  "execution \<Rightarrow> execution_id option \<Rightarrow> runtime \<Rightarrow> execution \<times> runtime" where
  "assign_execution_id ex causal rt =
     (ex\<lparr>ex_id := Some (rt_next_execution_id rt), ex_causal_producer := causal\<rparr>,
      rt\<lparr>rt_next_execution_id := saturating_add_word (rt_next_execution_id rt) 1\<rparr>)"

text \<open>Recording an execution of a block: its health, then the identifier.\<close>

definition finish_execution ::
  "nat \<Rightarrow> execution \<Rightarrow> execution_id option \<Rightarrow> runtime \<Rightarrow> block_execution \<times> runtime" where
  "finish_execution index ex causal rt =
     (let rt = set_block index (record_live_execution ex (rt_blocks rt ! index)) rt
      in case assign_execution_id ex causal rt of
           (ex, rt) \<Rightarrow>
             (\<lparr>bx_block_id = lb_id (rt_blocks rt ! index), bx_execution = ex\<rparr>, rt))"

text \<open>
  \<open>process_input\<close>, \<open>process_input_sampled\<close> and its probe variant differ in the site, the wall
  clock and the probe that they pass.
\<close>

definition process_input_at ::
  "environment \<Rightarrow> block_id \<Rightarrow> endpoint_name \<Rightarrow> typed_value \<Rightarrow> monotonic_ms \<Rightarrow> site_time_config
     \<Rightarrow> int option \<Rightarrow> budget_probe option \<Rightarrow> runtime
     \<Rightarrow> (runtime_event_error + block_execution option) \<times> runtime" where
  "process_input_at env x e v now site utc probe rt =
     (case result_bind (block_index rt x) (\<lambda>index.
             result_bind
               (map_err (RtBlock x) (validate_input (lb_engine (rt_blocks rt ! index)) e v)) (\<lambda>_.
             result_bind (ensure_time rt (Some x) now) (\<lambda>_. Inr index))) of
        Inl err \<Rightarrow> (Inl err, rt)
      | Inr index \<Rightarrow>
          (case (if \<not> lb_enabled (rt_blocks rt ! index) \<or> lb_health (rt_blocks rt ! index) \<noteq> Active
                 then (False, rt) else admit_at index now rt) of
             (False, rt) \<Rightarrow>
               (case observe_at env index e v now rt of
                  (Inl err, rt) \<Rightarrow> (Inl err, rt)
                | (Inr _, rt) \<Rightarrow> (Inr None, accepted now rt))
           | (True, rt) \<Rightarrow>
               (case engine_trigger env e v now site utc probe (lb_engine (rt_blocks rt ! index)) of
                  (Inl err, eng) \<Rightarrow> (Inl (RtBlock x err), set_engine index eng rt)
                | (Inr ex, eng) \<Rightarrow>
                    (case finish_execution index ex None (set_engine index eng rt) of
                       (bx, rt) \<Rightarrow> (Inr (Some bx), accepted now rt)))))"

definition process_input ::
  "environment \<Rightarrow> block_id \<Rightarrow> endpoint_name \<Rightarrow> typed_value \<Rightarrow> monotonic_ms \<Rightarrow> runtime
     \<Rightarrow> (runtime_event_error + block_execution option) \<times> runtime" where
  "process_input env x e v now rt = process_input_at env x e v now default_site None None rt"

definition process_input_sampled ::
  "environment \<Rightarrow> block_id \<Rightarrow> endpoint_name \<Rightarrow> typed_value \<Rightarrow> clock_sample \<Rightarrow> budget_probe option
     \<Rightarrow> runtime \<Rightarrow> (runtime_event_error + block_execution option) \<times> runtime" where
  "process_input_sampled env x e v sample probe rt =
     process_input_at env x e v (cs_monotonic_ms sample) (rt_site rt) (cs_utc_unix_ms sample) probe rt"

subsection \<open>Timers\<close>

definition block_runnable :: "logic_block \<Rightarrow> bool" where
  "block_runnable b \<longleftrightarrow> lb_enabled b \<and> lb_health b = Active"

definition runtime_next_timer_deadline :: "runtime \<Rightarrow> monotonic_ms option" where
  "runtime_next_timer_deadline rt =
     (case concat (map (\<lambda>b. map pt_due_at (btm_values (eng_pending_timers (lb_engine b))))
             (filter lb_enabled (rt_blocks rt))) of
        [] \<Rightarrow> None
      | due # dues \<Rightarrow> Some (fold min dues due))"

text \<open>All due timers with the index of their block, and the first by deadline, block and name.\<close>

definition due_timers :: "runtime \<Rightarrow> monotonic_ms \<Rightarrow> (nat \<times> pending_timer) list" where
  "due_timers rt now =
     concat (map
       (\<lambda>(index, b). map (Pair index)
          (filter (\<lambda>t. pt_due_at t \<le> now) (btm_values (eng_pending_timers (lb_engine b)))))
       (filter (\<lambda>(index, b). block_runnable b) (enumerate 0 (rt_blocks rt))))"

definition global_timer_order ::
  "runtime \<Rightarrow> nat \<times> pending_timer \<Rightarrow> monotonic_ms \<times> block_id \<times> timer_name" where
  "global_timer_order rt it =
     (pt_due_at (snd it), lb_id (rt_blocks rt ! fst it), pt_name (snd it))"

definition process_next_due_timer_at ::
  "environment \<Rightarrow> monotonic_ms \<Rightarrow> site_time_config \<Rightarrow> int option \<Rightarrow> budget_probe option \<Rightarrow> runtime
     \<Rightarrow> (runtime_event_error + block_execution option) \<times> runtime" where
  "process_next_due_timer_at env now site utc probe rt =
     (case ensure_time rt None now of
        Inl err \<Rightarrow> (Inl err, rt)
      | Inr _ \<Rightarrow>
          (case min_by (\<lambda>a b. global_timer_order rt a < global_timer_order rt b)
                  (due_timers rt now) of
             None \<Rightarrow> (Inr None, accepted now rt)
           | Some (index, _) \<Rightarrow>
               (case admit_at index now rt of
                  (False, rt) \<Rightarrow> (Inr None, accepted now rt)
                | (True, rt) \<Rightarrow>
                    (case process_next_due_timer_with_context env now site utc probe
                            (lb_engine (rt_blocks rt ! index)) of
                       (Inl err, eng) \<Rightarrow>
                         (Inl (RtBlock (lb_id (rt_blocks rt ! index)) err), set_engine index eng rt)
                     | (Inr None, eng) \<Rightarrow> (Inr None, accepted now (set_engine index eng rt))
                     | (Inr (Some ex), eng) \<Rightarrow>
                         (case finish_execution index ex None (set_engine index eng rt) of
                            (bx, rt) \<Rightarrow> (Inr (Some bx), accepted now rt))))))"

definition process_next_due_timer ::
  "environment \<Rightarrow> monotonic_ms \<Rightarrow> runtime
     \<Rightarrow> (runtime_event_error + block_execution option) \<times> runtime" where
  "process_next_due_timer env now rt =
     process_next_due_timer_at env now default_site None None rt"

definition process_next_due_timer_sampled ::
  "environment \<Rightarrow> clock_sample \<Rightarrow> budget_probe option \<Rightarrow> runtime
     \<Rightarrow> (runtime_event_error + block_execution option) \<times> runtime" where
  "process_next_due_timer_sampled env sample probe rt =
     process_next_due_timer_at env (cs_monotonic_ms sample) (rt_site rt) (cs_utc_unix_ms sample)
       probe rt"

end
