(* ===== verification/Runtime_Schedules.thy ===== *)
theory Runtime_Schedules
  imports Runtime_Model
begin

text \<open>
  The schedules of the runtime: the cursors of \<open>runtime_impl.rs\<close> and \<open>runtime_time_helpers.rs\<close>,
  the poll that delivers due occurrences, previews, statuses, and the execution of a delivered
  occurrence.
\<close>

subsection \<open>Cursors\<close>

type_synonym schedule_key = "block_id \<times> schedule_name"
type_synonym cursor_map = "(schedule_key, schedule_cursor) btree_map"

definition ensure_schedule_time :: "runtime \<Rightarrow> monotonic_ms \<Rightarrow> time_error + unit" where
  "ensure_schedule_time rt now =
     (case rt_last_accepted_at rt of
        None \<Rightarrow> Inr ()
      | Some previous \<Rightarrow>
          if now < previous then Inl (MonotonicWentBackwards previous now) else Inr ())"

definition structural_revision :: "runtime \<Rightarrow> u64" where
  "structural_revision rt =
     (case rt_schedule_structural_revision rt of None \<Rightarrow> 0 | Some revision \<Rightarrow> revision)"

text \<open>\<open>entry(key).or_insert_with(...)\<close>.\<close>

definition fresh_cursor :: "u64 \<Rightarrow> schedule_cursor" where
  "fresh_cursor revision =
     \<lparr>cur_last_delivered_utc_ms = None, cur_next_occurrence_utc_ms = None,
      cur_structural_revision = revision, cur_needs_rebaseline = True\<rparr>"

definition cursor_entry :: "cursor_map \<Rightarrow> schedule_key \<Rightarrow> u64 \<Rightarrow> schedule_cursor" where
  "cursor_entry cursors key revision =
     (case btm_get cursors key of None \<Rightarrow> fresh_cursor revision | Some cursor \<Rightarrow> cursor)"

definition block_schedules :: "logic_block \<Rightarrow> (block_id \<times> block_schedule) list" where
  "block_schedules b = map (Pair (lb_id b)) (bc_schedules (lb_config b))"

definition schedules_of :: "logic_block list \<Rightarrow> (block_id \<times> block_schedule) list" where
  "schedules_of bs = concat (map block_schedules bs)"

definition initial_cursor ::
  "time_services \<Rightarrow> site_time_config \<Rightarrow> u64 \<Rightarrow> int option \<Rightarrow> block_schedule \<Rightarrow> schedule_cursor"
  where
  "initial_cursor ts site revision utc s =
     (case utc of
        None \<Rightarrow> fresh_cursor revision
      | Some utc \<Rightarrow> (fresh_cursor revision)
          \<lparr>cur_next_occurrence_utc_ms := next_occurrence_after ts (sch_rule s) site utc,
           cur_needs_rebaseline := False\<rparr>)"

definition initialise_schedules ::
  "time_services \<Rightarrow> clock_sample \<Rightarrow> u64 \<Rightarrow> runtime \<Rightarrow> (time_error + unit) \<times> runtime" where
  "initialise_schedules ts sample revision rt =
     (case ensure_schedule_time rt (cs_monotonic_ms sample) of
        Inl e \<Rightarrow> (Inl e, rt)
      | Inr _ \<Rightarrow>
          (case cs_utc_unix_ms sample of None \<Rightarrow> Inl ClockUnavailable | Some _ \<Rightarrow> Inr (),
           rt\<lparr>rt_last_accepted_at := Some (cs_monotonic_ms sample),
              rt_schedule_structural_revision := Some revision,
              rt_last_schedule_wall_clock_utc_ms := cs_utc_unix_ms sample,
              rt_schedule_cursors :=
                foldl (\<lambda>cursors (x, s). btm_insert (x, sch_name s)
                    (initial_cursor ts (rt_site rt) revision (cs_utc_unix_ms sample) s) cursors)
                  [] (schedules_of (rt_blocks rt))\<rparr>))"

definition next_schedule_deadline :: "runtime \<Rightarrow> int option" where
  "next_schedule_deadline rt =
     foldl
       (\<lambda>earliest (x, s).
          if \<not> sch_enabled s then earliest
          else case btm_get (rt_schedule_cursors rt) (x, sch_name s) of
            None \<Rightarrow> earliest
          | Some cursor \<Rightarrow>
              (case cur_next_occurrence_utc_ms cursor of
                 None \<Rightarrow> earliest
               | Some occ \<Rightarrow>
                   Some (case earliest of None \<Rightarrow> occ | Some current \<Rightarrow> min current occ)))
       None (schedules_of (filter lb_enabled (rt_blocks rt)))"

text \<open>The cursor of one schedule, computed anew behind what was delivered already.\<close>

definition rebaselined ::
  "time_services \<Rightarrow> site_time_config \<Rightarrow> int \<Rightarrow> schedule_rule \<Rightarrow> schedule_cursor \<Rightarrow> schedule_cursor"
  where
  "rebaselined ts site now_utc rule cursor =
     cursor\<lparr>cur_next_occurrence_utc_ms := next_occurrence_after_not_before ts rule site now_utc
              (cur_last_delivered_utc_ms cursor),
            cur_needs_rebaseline := False\<rparr>"

definition recompute_step ::
  "time_services \<Rightarrow> site_time_config \<Rightarrow> u64 \<Rightarrow> int \<Rightarrow> cursor_map \<Rightarrow> block_id \<times> block_schedule
     \<Rightarrow> cursor_map" where
  "recompute_step ts site revision now_utc cursors bs =
     (let key = (fst bs, sch_name (snd bs));
          cursor = (cursor_entry cursors key revision)\<lparr>cur_structural_revision := revision\<rparr>
      in btm_insert key (rebaselined ts site now_utc (sch_rule (snd bs)) cursor) cursors)"

definition recompute_schedule_cursors :: "time_services \<Rightarrow> int \<Rightarrow> runtime \<Rightarrow> runtime" where
  "recompute_schedule_cursors ts now_utc rt =
     rt\<lparr>rt_schedule_cursors :=
          foldl (recompute_step ts (rt_site rt) (structural_revision rt) now_utc)
            (rt_schedule_cursors rt) (schedules_of (rt_blocks rt))\<rparr>"

definition rebaseline_step ::
  "time_services \<Rightarrow> site_time_config \<Rightarrow> u64 \<Rightarrow> int option \<Rightarrow> cursor_map
     \<Rightarrow> block_id \<times> block_schedule \<Rightarrow> cursor_map" where
  "rebaseline_step ts site revision utc cursors bs =
     (let key = (fst bs, sch_name (snd bs));
          cursor = (cursor_entry cursors key revision)
            \<lparr>cur_structural_revision := revision, cur_needs_rebaseline := True,
             cur_next_occurrence_utc_ms := None\<rparr>
      in btm_insert key
           (case utc of None \<Rightarrow> cursor
            | Some utc \<Rightarrow> rebaselined ts site utc (sch_rule (snd bs)) cursor) cursors)"

definition rebaseline_block_schedules ::
  "time_services \<Rightarrow> block_id \<Rightarrow> clock_sample \<Rightarrow> runtime \<Rightarrow> (time_error + unit) \<times> runtime" where
  "rebaseline_block_schedules ts x sample rt =
     (case ensure_schedule_time rt (cs_monotonic_ms sample) of
        Inl e \<Rightarrow> (Inl e, rt)
      | Inr _ \<Rightarrow>
          let rt = accepted (cs_monotonic_ms sample) rt
          in case find_block rt x of
               None \<Rightarrow> (Inl (TimeUnknownBlock x), rt)
             | Some b \<Rightarrow>
                 let rt = rt\<lparr>rt_schedule_cursors :=
                       foldl (rebaseline_step ts (rt_site rt) (structural_revision rt)
                           (cs_utc_unix_ms sample))
                         (rt_schedule_cursors rt) (map (Pair x) (bc_schedules (lb_config b)))\<rparr>
                 in (Inr (),
                     if cs_utc_unix_ms sample = None
                     then rt\<lparr>rt_last_schedule_wall_clock_utc_ms := None\<rparr> else rt))"

subsection \<open>Polling\<close>

text \<open>
  The walk over the occurrences that passed since the cursor.  It ends because every occurrence
  lies behind its baseline; where that fails it does not return, which is the value \<open>None\<close>.
\<close>

partial_function (option) coalesce ::
  "time_services \<Rightarrow> schedule_rule \<Rightarrow> site_time_config \<Rightarrow> int \<Rightarrow> int \<Rightarrow> u64 \<Rightarrow> (int \<times> u64) option"
  where
  "coalesce ts rule site now_utc newest passed =
     (case next_occurrence_after ts rule site newest of
        None \<Rightarrow> Some (newest, passed)
      | Some occ \<Rightarrow>
          if occ \<le> now_utc then coalesce ts rule site now_utc occ (passed + 1)
          else Some (newest, passed))"

definition delivered_trigger ::
  "block_id \<Rightarrow> block_schedule \<Rightarrow> int \<Rightarrow> int \<Rightarrow> u64 \<Rightarrow> schedule_cursor \<Rightarrow> schedule_trigger" where
  "delivered_trigger x s newest now_utc passed cursor =
     \<lparr>st_block_id = x, st_name = sch_name s, st_kind = rule_kind (sch_rule s),
      st_scheduled_for_utc_ms = newest, st_detected_at_utc_ms = now_utc,
      st_coalesced_count = passed - 1, st_structural_revision = cur_structural_revision cursor\<rparr>"

definition poll_step ::
  "time_services \<Rightarrow> site_time_config \<Rightarrow> u64 \<Rightarrow> int \<Rightarrow> block_id \<times> block_schedule
     \<Rightarrow> cursor_map \<times> schedule_trigger list \<Rightarrow> (cursor_map \<times> schedule_trigger list) option" where
  "poll_step ts site revision now_utc bs state =
     (let x = fst bs; s = snd bs; cursors = fst state; triggers = snd state;
          key = (x, sch_name s);
          cursor = cursor_entry cursors key revision;
          cursor = (if cur_needs_rebaseline cursor
            then rebaselined ts site now_utc (sch_rule s) cursor else cursor)
      in case cur_next_occurrence_utc_ms cursor of
           None \<Rightarrow> Some (btm_insert key cursor cursors, triggers)
         | Some due \<Rightarrow>
             if now_utc < due then Some (btm_insert key cursor cursors, triggers)
             else map_option
               (\<lambda>(newest, passed).
                  (btm_insert key (cursor
                     \<lparr>cur_last_delivered_utc_ms := Some newest,
                      cur_next_occurrence_utc_ms :=
                        next_occurrence_after ts (sch_rule s) site now_utc\<rparr>) cursors,
                   triggers @ [delivered_trigger x s newest now_utc passed cursor]))
               (coalesce ts (sch_rule s) site now_utc due 1))"

fun poll_loop ::
  "time_services \<Rightarrow> site_time_config \<Rightarrow> u64 \<Rightarrow> int \<Rightarrow> (block_id \<times> block_schedule) list
     \<Rightarrow> cursor_map \<times> schedule_trigger list \<Rightarrow> (cursor_map \<times> schedule_trigger list) option" where
  "poll_loop ts site revision now_utc [] state = Some state"
| "poll_loop ts site revision now_utc (bs # rest) state =
     (case poll_step ts site revision now_utc bs state of
        None \<Rightarrow> None
      | Some state \<Rightarrow> poll_loop ts site revision now_utc rest state)"

definition trigger_order :: "schedule_trigger \<Rightarrow> int \<times> block_id \<times> schedule_name" where
  "trigger_order t = (st_scheduled_for_utc_ms t, st_block_id t, st_name t)"

definition polled_schedules :: "runtime \<Rightarrow> (block_id \<times> block_schedule) list" where
  "polled_schedules rt =
     filter (\<lambda>(x, s). sch_enabled s) (schedules_of (filter lb_enabled (rt_blocks rt)))"

definition poll_schedules ::
  "time_services \<Rightarrow> clock_sample \<Rightarrow> runtime
     \<Rightarrow> ((time_error + schedule_trigger list) \<times> runtime) option" where
  "poll_schedules ts sample rt =
     (case ensure_schedule_time rt (cs_monotonic_ms sample) of
        Inl e \<Rightarrow> Some (Inl e, rt)
      | Inr _ \<Rightarrow>
          let rt = accepted (cs_monotonic_ms sample) rt
          in case cs_utc_unix_ms sample of
               None \<Rightarrow>
                 Some (Inr [], rt\<lparr>rt_last_schedule_wall_clock_utc_ms := None,
                   rt_schedule_cursors := btm_map_values
                     (\<lambda>_ cursor. cursor\<lparr>cur_next_occurrence_utc_ms := None,
                        cur_needs_rebaseline := True\<rparr>) (rt_schedule_cursors rt)\<rparr>)
             | Some now_utc \<Rightarrow>
                 let rt = (case rt_last_schedule_wall_clock_utc_ms rt of
                       None \<Rightarrow> recompute_schedule_cursors ts now_utc rt
                     | Some previous \<Rightarrow>
                         if now_utc < previous then recompute_schedule_cursors ts now_utc rt
                         else rt)
                 in map_option
                      (\<lambda>(cursors, triggers).
                         (Inr (sort_key trigger_order triggers),
                          rt\<lparr>rt_schedule_cursors := cursors,
                             rt_last_schedule_wall_clock_utc_ms := Some now_utc\<rparr>))
                      (poll_loop ts (rt_site rt) (structural_revision rt) now_utc
                        (polled_schedules rt) (rt_schedule_cursors rt, [])))"

subsection \<open>Previews and statuses\<close>

fun preview_from ::
  "time_services \<Rightarrow> schedule_rule \<Rightarrow> site_time_config \<Rightarrow> nat \<Rightarrow> int \<Rightarrow> int list" where
  "preview_from ts rule site 0 cursor = []"
| "preview_from ts rule site (Suc wanted) cursor =
     (case next_occurrence_after ts rule site cursor of
        None \<Rightarrow> []
      | Some occ \<Rightarrow> occ # preview_from ts rule site wanted occ)"

definition find_schedule ::
  "runtime \<Rightarrow> block_id \<Rightarrow> schedule_name \<Rightarrow> (logic_block \<times> block_schedule) option" where
  "find_schedule rt x name =
     (case find_block rt x of
        None \<Rightarrow> None
      | Some b \<Rightarrow>
          map_option (Pair b) (find (\<lambda>s. sch_name s = name) (bc_schedules (lb_config b))))"

definition preview_occurrences ::
  "time_services \<Rightarrow> runtime \<Rightarrow> block_id \<Rightarrow> schedule_name \<Rightarrow> int \<Rightarrow> nat \<Rightarrow> schedule_error + int list"
  where
  "preview_occurrences ts rt x name after_utc_ms wanted =
     (case find_schedule rt x name of
        None \<Rightarrow> Inl UnknownSchedule
      | Some (_, s) \<Rightarrow> Inr (preview_from ts (sch_rule s) (rt_site rt) wanted after_utc_ms))"

definition status_of ::
  "runtime \<Rightarrow> int option \<Rightarrow> logic_block \<Rightarrow> block_schedule \<Rightarrow> schedule_status" where
  "status_of rt utc b s =
     (let enabled = (sch_enabled s \<and> lb_enabled b);
          status =
            (if \<not> enabled then (StatusPaused, None)
             else if utc = None then (StatusClockError, None)
             else case btm_get (rt_schedule_cursors rt) (lb_id b, sch_name s) of
               None \<Rightarrow> (StatusPaused, None)
             | Some cursor \<Rightarrow>
                 (case cur_next_occurrence_utc_ms cursor of
                    Some occ \<Rightarrow> (StatusActive, Some occ)
                  | None \<Rightarrow> (StatusUnavailable
                      ''no occurrence found within the 370-day search window (polar day/night)'',
                      None)))
      in \<lparr>ss_block_id = lb_id b, ss_name = sch_name s, ss_enabled = enabled,
          ss_status = fst status, ss_next_occurrence_utc_ms = snd status\<rparr>)"

definition schedule_statuses :: "runtime \<Rightarrow> int option \<Rightarrow> schedule_status list" where
  "schedule_statuses rt utc =
     concat (map (\<lambda>b. map (status_of rt utc b) (bc_schedules (lb_config b))) (rt_blocks rt))"

subsection \<open>Executing a delivered occurrence\<close>

text \<open>
  The guards: the block exists and is enabled and active, the schedule exists and is enabled,
  and the trigger belongs to the current structure.  The index of the block, when all hold.
\<close>

definition schedule_target :: "runtime \<Rightarrow> schedule_trigger \<Rightarrow> nat option" where
  "schedule_target rt t =
     (case position (\<lambda>b. lb_id b = st_block_id t) (rt_blocks rt) of
        None \<Rightarrow> None
      | Some index \<Rightarrow>
          let b = rt_blocks rt ! index
          in if \<not> block_runnable b then None
             else case find (\<lambda>s. sch_name s = st_name t) (bc_schedules (lb_config b)) of
               None \<Rightarrow> None
             | Some s \<Rightarrow>
                 if \<not> sch_enabled s then None
                 else case btm_get (rt_schedule_cursors rt) (st_block_id t, st_name t) of
                   None \<Rightarrow> None
                 | Some cursor \<Rightarrow>
                     if cur_structural_revision cursor \<noteq> st_structural_revision t then None
                     else Some index)"

definition process_schedule_sampled ::
  "environment \<Rightarrow> schedule_trigger \<Rightarrow> clock_sample \<Rightarrow> budget_probe option \<Rightarrow> runtime
     \<Rightarrow> (runtime_event_error + block_execution option) \<times> runtime" where
  "process_schedule_sampled env t sample probe rt =
     (let now = cs_monotonic_ms sample in
      case ensure_time rt None now of
        Inl err \<Rightarrow> (Inl err, rt)
      | Inr _ \<Rightarrow>
          let rt = accepted now rt
          in case schedule_target rt t of
               None \<Rightarrow> (Inr None, rt)
             | Some index \<Rightarrow>
                 (case admit_at index now rt of
                    (False, rt) \<Rightarrow> (Inr None, rt)
                  | (True, rt) \<Rightarrow>
                      (case process_schedule_trigger_with_budget_probe env t (rt_site rt)
                              (Some (st_scheduled_for_utc_ms t)) now probe
                              (lb_engine (rt_blocks rt ! index)) of
                         (Inl err, eng) \<Rightarrow>
                           (Inl (RtBlock (lb_id (rt_blocks rt ! index)) err),
                            set_engine index eng rt)
                       | (Inr ex, eng) \<Rightarrow>
                           (case finish_execution index ex None (set_engine index eng rt) of
                              (bx, rt) \<Rightarrow> (Inr (Some bx), rt)))))"

definition process_schedule ::
  "environment \<Rightarrow> schedule_trigger \<Rightarrow> runtime
     \<Rightarrow> (runtime_event_error + block_execution option) \<times> runtime" where
  "process_schedule env t rt =
     process_schedule_sampled env t
       \<lparr>cs_monotonic_ms = (case rt_last_accepted_at rt of None \<Rightarrow> 0 | Some now \<Rightarrow> now),
        cs_utc_unix_ms = Some (st_scheduled_for_utc_ms t)\<rparr> None rt"

end
