(* ===== verification/Runtime_Signals.thy ===== *)
theory Runtime_Signals
  imports Runtime_Schedules
begin

text \<open>
  Signals: \<open>runtime_signals.rs\<close> and \<open>runtime_input_updates.rs\<close>.  An execution's outputs set the
  signals bound to them, a changed signal triggers its consumers depth first, and an event with
  its whole cascade either counts or is rolled back.
\<close>

subsection \<open>Snapshots\<close>

record signal_snapshot =
  ssn_name :: signal_name
  ssn_dpt :: dpt
  ssn_value :: "typed_value option"
  ssn_status :: signal_status
  ssn_observed_at :: "monotonic_ms option"
  ssn_changed_at :: "monotonic_ms option"
  ssn_producer :: "signal_endpoint_id option"
  ssn_producing_execution :: "execution_id option"
  ssn_consumers :: "signal_endpoint_id list"

definition signal_status_of :: "runtime \<Rightarrow> signal_state \<Rightarrow> signal_status" where
  "signal_status_of rt signal =
     (case sg_value signal of
        None \<Rightarrow> SignalUnknown
      | Some _ \<Rightarrow>
          (case sg_producer signal of
             None \<Rightarrow> SignalValid
           | Some producer \<Rightarrow>
               (case find_block rt (se_block_id producer) of
                  None \<Rightarrow> SignalValid
                | Some b \<Rightarrow> if lb_enabled b then SignalValid else SignalProducerDisabled)))"

definition signal_snapshots_at :: "runtime \<Rightarrow> monotonic_ms \<Rightarrow> signal_snapshot list" where
  "signal_snapshots_at rt now =
     map (\<lambda>signal.
         \<lparr>ssn_name = sgc_name (sg_config signal), ssn_dpt = sgc_dpt (sg_config signal),
          ssn_value = sg_value signal, ssn_status = signal_status_of rt signal,
          ssn_observed_at = sg_observed_at signal, ssn_changed_at = sg_changed_at signal,
          ssn_producer = sg_producer signal,
          ssn_producing_execution = sg_producing_execution signal,
          ssn_consumers = sg_consumers signal\<rparr>)
       (rt_signals rt)"

record runtime_snapshot =
  rsn_blocks :: "block_snapshot list"
  rsn_signals :: "signal_snapshot list"
  rsn_last_accepted_at :: "monotonic_ms option"

definition runtime_snapshot_at :: "runtime \<Rightarrow> monotonic_ms \<Rightarrow> runtime_snapshot" where
  "runtime_snapshot_at rt now =
     \<lparr>rsn_blocks = map (block_snapshot_at now) (rt_blocks rt),
      rsn_signals = signal_snapshots_at rt now,
      rsn_last_accepted_at = rt_last_accepted_at rt\<rparr>"

subsection \<open>The host's clock\<close>

text \<open>
  The budget probe of the host is one clock that the runtime and the instruction hooks read as
  the cascade goes on.  A scenario of its readings: before the root handler, before the outputs
  of the \<open>n\<close>-th execution are propagated, and by the hooks of the \<open>n\<close>-th handler.
\<close>

record host_probe =
  hp_start :: u64
  hp_propagate :: "nat \<Rightarrow> u64"
  hp_handler :: "nat \<Rightarrow> budget_probe"

definition handler_probe :: "host_probe option \<Rightarrow> nat \<Rightarrow> budget_probe option" where
  "handler_probe probe n = map_option (\<lambda>p. hp_handler p n) probe"

definition check_probe ::
  "runtime \<Rightarrow> host_probe option \<Rightarrow> (host_probe \<Rightarrow> u64) \<Rightarrow> runtime_event_error + unit" where
  "check_probe rt probe reading =
     (case probe of None \<Rightarrow> Inr () | Some p \<Rightarrow> check_cascade_budget rt (reading p))"

subsection \<open>Propagation\<close>

record cascade =
  cas_runtime :: runtime
  cas_executions :: "block_execution list"

definition on_runtime ::
  "(runtime \<Rightarrow> (runtime_event_error + unit) \<times> runtime) \<Rightarrow> cascade
     \<Rightarrow> (runtime_event_error + unit) \<times> cascade" where
  "on_runtime f c = (case f (cas_runtime c) of (r, rt) \<Rightarrow> (r, c\<lparr>cas_runtime := rt\<rparr>))"

text \<open>What propagation keeps fixed: the environment, the event's times and the probe.\<close>

record propagation =
  pg_env :: environment
  pg_now :: monotonic_ms
  pg_utc :: "int option"
  pg_probe :: "host_probe option"

definition set_signal ::
  "nat \<Rightarrow> typed_value \<Rightarrow> monotonic_ms \<Rightarrow> execution_id option \<Rightarrow> runtime \<Rightarrow> bool \<times> runtime" where
  "set_signal index v now producing rt =
     (let signal = rt_signals rt ! index;
          changed = (sg_value signal \<noteq> Some v)
      in (changed, rt\<lparr>rt_signals := (rt_signals rt)[index := signal
            \<lparr>sg_value := Some v, sg_observed_at := Some now,
             sg_changed_at := (if changed then Some now else sg_changed_at signal),
             sg_producing_execution := producing\<rparr>]\<rparr>))"

definition consumer_runnable :: "runtime \<Rightarrow> signal_endpoint_id \<Rightarrow> bool" where
  "consumer_runnable rt consumer =
     (case find_block rt (se_block_id consumer) of
        None \<Rightarrow> False
      | Some b \<Rightarrow> block_runnable b)"

definition note_effect ::
  "nat \<Rightarrow> signal_effect \<Rightarrow> signal_endpoint_id list \<Rightarrow> cascade \<Rightarrow> cascade" where
  "note_effect n effect eligible c =
     (let bx = cas_executions c ! n; ex = bx_execution bx
      in c\<lparr>cas_executions := (cas_executions c)[n := bx\<lparr>bx_execution :=
           ex\<lparr>ex_signal_effects := ex_signal_effects ex @ [effect],
              ex_eligible_consumers := ex_eligible_consumers ex @ eligible\<rparr>\<rparr>]\<rparr>)"

text \<open>An unchanged value is still a fresh observation for every consumer.\<close>

definition refresh_consumer ::
  "propagation \<Rightarrow> typed_value \<Rightarrow> signal_endpoint_id \<Rightarrow> cascade
     \<Rightarrow> (runtime_event_error + unit) \<times> cascade" where
  "refresh_consumer pg v consumer c =
     (case position (\<lambda>b. lb_id b = se_block_id consumer) (rt_blocks (cas_runtime c)) of
        None \<Rightarrow> (Inr (), c)
      | Some index \<Rightarrow>
          on_runtime (observe_at (pg_env pg) index (se_endpoint consumer) v (pg_now pg)) c)"

text \<open>
  A changed value triggers a consumer.  \<open>recurse\<close> propagates the outputs of the execution with
  the given index.  Without a wall clock the handler runs without site, clock and probe.
\<close>

definition trigger_consumer ::
  "(nat \<Rightarrow> cascade \<Rightarrow> (runtime_event_error + unit) \<times> cascade) \<Rightarrow> propagation \<Rightarrow> typed_value
     \<Rightarrow> execution_id option \<Rightarrow> signal_endpoint_id \<Rightarrow> cascade
     \<Rightarrow> (runtime_event_error + unit) \<times> cascade" where
  "trigger_consumer recurse pg v producing consumer c =
     (let rt = cas_runtime c; now = pg_now pg; name = se_endpoint consumer;
          maximum = max_cascade_executions (rt_limits rt);
          child = length (cas_executions c)
      in case position (\<lambda>b. lb_id b = se_block_id consumer) (rt_blocks rt) of
           None \<Rightarrow> (Inr (), c)
         | Some index \<Rightarrow>
             if find (\<lambda>e. ep_name e = name) (bc_endpoints (lb_config (rt_blocks rt ! index))) = None
               then (Inl (RtPanic ''validated signal consumer endpoint''), c)
             else if \<not> block_runnable (rt_blocks rt ! index)
               then on_runtime (observe_at (pg_env pg) index name v now) c
             else if maximum \<le> child then (Inl (CascadeLimit (child + 1) maximum), c)
             else
               (case admit_at index now rt of
                  (False, rt) \<Rightarrow>
                    on_runtime (observe_at (pg_env pg) index name v now) (c\<lparr>cas_runtime := rt\<rparr>)
                | (True, rt) \<Rightarrow>
                    (case (if pg_utc pg = None
                           then engine_trigger (pg_env pg) name v now default_site None None
                             (lb_engine (rt_blocks rt ! index))
                           else engine_trigger (pg_env pg) name v now (rt_site rt) (pg_utc pg)
                             (handler_probe (pg_probe pg) child) (lb_engine (rt_blocks rt ! index)))
                     of
                       (Inl err, eng) \<Rightarrow>
                         (Inl (RtBlock (se_block_id consumer) err),
                          c\<lparr>cas_runtime := set_engine index eng rt\<rparr>)
                     | (Inr ex, eng) \<Rightarrow>
                         (case finish_execution index ex producing
                                 (accepted now (set_engine index eng rt)) of
                            (bx, rt) \<Rightarrow>
                              recurse child
                                \<lparr>cas_runtime = rt, cas_executions = cas_executions c @ [bx]\<rparr>))))"

text \<open>The signal that an output of a block is bound to, with its index.\<close>

definition bound_signal :: "runtime \<Rightarrow> logic_block \<Rightarrow> endpoint_name \<Rightarrow> (signal_name \<times> nat) option"
  where
  "bound_signal rt b name =
     (case find (\<lambda>binding. sb_endpoint binding = name) (bc_signal_bindings (lb_config b)) of
        None \<Rightarrow> None
      | Some binding \<Rightarrow>
          map_option (Pair (sb_signal binding)) (btm_get (rt_signal_indexes rt) (sb_signal binding)))"

definition publish_output ::
  "(nat \<Rightarrow> cascade \<Rightarrow> (runtime_event_error + unit) \<times> cascade) \<Rightarrow> propagation \<Rightarrow> nat \<Rightarrow> block_id
     \<Rightarrow> execution_id option \<Rightarrow> output_effect \<Rightarrow> cascade
     \<Rightarrow> (runtime_event_error + unit) \<times> cascade" where
  "publish_output recurse pg n x producing output c =
     (let name = oe_endpoint output; v = oe_value output in
      case find_block (cas_runtime c) x of
        None \<Rightarrow> (Inl (RtPanic ''execution block is present in runtime''), c)
      | Some b \<Rightarrow>
          (case bound_signal (cas_runtime c) b name of
             None \<Rightarrow> (Inr (), c)
           | Some (signal_name, index) \<Rightarrow>
               (case set_signal index v (pg_now pg) producing (cas_runtime c) of
                  (changed, rt) \<Rightarrow>
                    let consumers = sg_consumers (rt_signals rt ! index);
                        effect = \<lparr>sx_signal = signal_name, sx_value = v, sx_changed = changed,
                          sx_producer = \<lparr>se_block_id = x, se_endpoint = name\<rparr>,
                          sx_producing_execution = producing, sx_consumers = consumers\<rparr>;
                        eligible =
                          (if changed then filter (consumer_runnable rt) consumers else []);
                        c = note_effect n effect eligible (c\<lparr>cas_runtime := rt\<rparr>)
                    in if changed
                       then for_each (trigger_consumer recurse pg v producing) consumers c
                       else for_each (refresh_consumer pg v) consumers c)))"

text \<open>
  The recursion of \<open>propagate_from_execution\<close>: every nested call follows one more execution, so
  the limit on a cascade's executions bounds its depth; \<open>RtOutOfFuel\<close> is never returned with
  as much fuel.
\<close>

fun propagate_from_execution ::
  "nat \<Rightarrow> propagation \<Rightarrow> nat \<Rightarrow> cascade \<Rightarrow> (runtime_event_error + unit) \<times> cascade" where
  "propagate_from_execution 0 pg n c = (Inl RtOutOfFuel, c)"
| "propagate_from_execution (Suc fuel) pg n c =
     (case check_probe (cas_runtime c) (pg_probe pg) (\<lambda>p. hp_propagate p n) of
        Inl e \<Rightarrow> (Inl e, c)
      | Inr _ \<Rightarrow>
          let bx = cas_executions c ! n; ex = bx_execution bx
          in case ex_outcome ex of
               Inl _ \<Rightarrow> (Inr (), c)
             | Inr tr \<Rightarrow>
                 for_each
                   (publish_output (propagate_from_execution fuel pg) pg n (bx_block_id bx) (ex_id ex))
                   (tr_outputs tr) c)"

definition cascade_fuel :: "runtime \<Rightarrow> nat" where
  "cascade_fuel rt = max_cascade_executions (rt_limits rt) + 1"

subsection \<open>Events with their cascades\<close>

fun should_rollback_after_propagation :: "runtime_event_error \<Rightarrow> bool" where
  "should_rollback_after_propagation (CascadeLimit _ _) = False"
| "should_rollback_after_propagation (CascadeTimeLimit _ _) = False"
| "should_rollback_after_propagation _ = True"

text \<open>From the root execution to the end of the event; the checkpoint is the runtime before it.\<close>

definition finish_cascade ::
  "propagation \<Rightarrow> runtime \<Rightarrow> block_execution \<Rightarrow> runtime
     \<Rightarrow> (runtime_event_error + block_execution list) \<times> runtime" where
  "finish_cascade pg checkpoint first rt =
     (case propagate_from_execution (cascade_fuel rt) pg 0
             \<lparr>cas_runtime = rt, cas_executions = [first]\<rparr> of
        (Inl err, c) \<Rightarrow>
          (Inl err, if should_rollback_after_propagation err then checkpoint else cas_runtime c)
      | (Inr _, c) \<Rightarrow>
          (case validate_usage (cas_runtime c) of
             Inl err \<Rightarrow> (Inl err, checkpoint)
           | Inr _ \<Rightarrow> (Inr (cas_executions c), cas_runtime c)))"

definition process_input_cascade ::
  "environment \<Rightarrow> block_id \<Rightarrow> endpoint_name \<Rightarrow> typed_value \<Rightarrow> monotonic_ms \<Rightarrow> runtime
     \<Rightarrow> (runtime_event_error + block_execution list) \<times> runtime" where
  "process_input_cascade env x name v now rt =
     (case process_input env x name v now rt of
        (Inl err, rt') \<Rightarrow> (Inl err, rt')
      | (Inr None, rt') \<Rightarrow> (Inr [], rt')
      | (Inr (Some first), rt') \<Rightarrow>
          finish_cascade \<lparr>pg_env = env, pg_now = now, pg_utc = None, pg_probe = None\<rparr> rt first rt')"

definition sampled_propagation ::
  "environment \<Rightarrow> clock_sample \<Rightarrow> host_probe option \<Rightarrow> propagation" where
  "sampled_propagation env sample probe =
     \<lparr>pg_env = env, pg_now = cs_monotonic_ms sample, pg_utc = cs_utc_unix_ms sample,
      pg_probe = probe\<rparr>"

definition process_input_cascade_sampled ::
  "environment \<Rightarrow> block_id \<Rightarrow> endpoint_name \<Rightarrow> typed_value \<Rightarrow> clock_sample \<Rightarrow> host_probe option
     \<Rightarrow> runtime \<Rightarrow> (runtime_event_error + block_execution list) \<times> runtime" where
  "process_input_cascade_sampled env x name v sample probe rt =
     (case check_probe rt probe hp_start of
        Inl err \<Rightarrow> (Inl err, rt)
      | Inr _ \<Rightarrow>
          (case process_input_sampled env x name v sample (handler_probe probe 0) rt of
             (Inl err, _) \<Rightarrow> (Inl err, rt)
           | (Inr None, rt') \<Rightarrow> (Inr [], rt')
           | (Inr (Some first), rt') \<Rightarrow>
               finish_cascade (sampled_propagation env sample probe) rt first rt'))"

definition process_next_due_timer_cascade ::
  "environment \<Rightarrow> monotonic_ms \<Rightarrow> runtime
     \<Rightarrow> (runtime_event_error + block_execution list) \<times> runtime" where
  "process_next_due_timer_cascade env now rt =
     (case process_next_due_timer env now rt of
        (Inl err, rt') \<Rightarrow> (Inl err, rt')
      | (Inr None, rt') \<Rightarrow> (Inr [], rt')
      | (Inr (Some first), rt') \<Rightarrow>
          finish_cascade \<lparr>pg_env = env, pg_now = now, pg_utc = None, pg_probe = None\<rparr> rt first rt')"

definition process_next_due_timer_cascade_sampled ::
  "environment \<Rightarrow> clock_sample \<Rightarrow> host_probe option \<Rightarrow> runtime
     \<Rightarrow> (runtime_event_error + block_execution list) \<times> runtime" where
  "process_next_due_timer_cascade_sampled env sample probe rt =
     (case process_next_due_timer_sampled env sample (handler_probe probe 0) rt of
        (Inl err, rt') \<Rightarrow> (Inl err, rt')
      | (Inr None, rt') \<Rightarrow> (Inr [], rt')
      | (Inr (Some first), rt') \<Rightarrow>
          finish_cascade (sampled_propagation env sample probe) rt first rt')"

definition process_schedule_cascade ::
  "environment \<Rightarrow> schedule_trigger \<Rightarrow> runtime
     \<Rightarrow> (runtime_event_error + block_execution list) \<times> runtime" where
  "process_schedule_cascade env t rt =
     (case process_schedule env t rt of
        (Inl err, rt') \<Rightarrow> (Inl err, rt')
      | (Inr None, rt') \<Rightarrow> (Inr [], rt')
      | (Inr (Some first), rt') \<Rightarrow>
          finish_cascade
            \<lparr>pg_env = env,
             pg_now = (case rt_last_accepted_at rt' of None \<Rightarrow> 0 | Some now \<Rightarrow> now),
             pg_utc = Some (st_scheduled_for_utc_ms t), pg_probe = None\<rparr> rt first rt')"

definition process_schedule_cascade_sampled ::
  "environment \<Rightarrow> schedule_trigger \<Rightarrow> clock_sample \<Rightarrow> host_probe option \<Rightarrow> runtime
     \<Rightarrow> (runtime_event_error + block_execution list) \<times> runtime" where
  "process_schedule_cascade_sampled env t sample probe rt =
     (case process_schedule_sampled env t sample (handler_probe probe 0) rt of
        (Inl err, rt') \<Rightarrow> (Inl err, rt')
      | (Inr None, rt') \<Rightarrow> (Inr [], rt')
      | (Inr (Some first), rt') \<Rightarrow>
          finish_cascade (sampled_propagation env sample probe) rt first rt')"

subsection \<open>Transport updates\<close>

definition validate_update :: "engine \<Rightarrow> endpoint_name \<Rightarrow> input_update \<Rightarrow> event_error + nat" where
  "validate_update eng name update =
     (case update of
        Observe v \<Rightarrow> validate_input eng name v
      | UpdTrigger v \<Rightarrow> validate_input eng name v
      | Invalidate \<Rightarrow> validate_endpoint eng name)"

text \<open>A trigger that the block's health or rate does not admit is only an observation.\<close>

definition admit_update ::
  "nat \<Rightarrow> monotonic_ms \<Rightarrow> input_update \<Rightarrow> runtime \<Rightarrow> input_update \<times> runtime" where
  "admit_update index now update rt =
     (case update of
        UpdTrigger v \<Rightarrow>
          if \<not> block_runnable (rt_blocks rt ! index) then (Observe v, rt)
          else (case admit_at index now rt of
                  (True, rt) \<Rightarrow> (UpdTrigger v, rt)
                | (False, rt) \<Rightarrow> (Observe v, rt))
      | _ \<Rightarrow> (update, rt))"

definition process_input_update_single ::
  "environment \<Rightarrow> block_id \<Rightarrow> endpoint_name \<Rightarrow> input_update \<Rightarrow> clock_sample \<Rightarrow> host_probe option
     \<Rightarrow> runtime \<Rightarrow> (runtime_event_error + block_execution option) \<times> runtime" where
  "process_input_update_single env x name update sample probe rt =
     (let now = cs_monotonic_ms sample in
      case result_bind (block_index rt x) (\<lambda>index.
             result_bind
               (map_err (RtBlock x) (validate_update (lb_engine (rt_blocks rt ! index)) name update))
               (\<lambda>_. result_bind (ensure_time rt (Some x) now) (\<lambda>_. Inr index))) of
        Inl err \<Rightarrow> (Inl err, rt)
      | Inr index \<Rightarrow>
          (case admit_update index now update rt of
             (update, rt) \<Rightarrow>
               (case process_input_update_with_context env name update now (rt_site rt)
                       (cs_utc_unix_ms sample) (handler_probe probe 0)
                       (lb_engine (rt_blocks rt ! index)) of
                  (Inl err, eng) \<Rightarrow> (Inl (RtBlock x err), set_engine index eng rt)
                | (Inr None, eng) \<Rightarrow> (Inr None, accepted now (set_engine index eng rt))
                | (Inr (Some ex), eng) \<Rightarrow>
                    (case finish_execution index ex None (accepted now (set_engine index eng rt)) of
                       (bx, rt) \<Rightarrow> (Inr (Some bx), rt)))))"

definition process_input_update_sampled ::
  "environment \<Rightarrow> block_id \<Rightarrow> endpoint_name \<Rightarrow> input_update \<Rightarrow> clock_sample \<Rightarrow> host_probe option
     \<Rightarrow> runtime \<Rightarrow> (runtime_event_error + block_execution list) \<times> runtime" where
  "process_input_update_sampled env x name update sample probe rt =
     (case process_input_update_single env x name update sample probe rt of
        (Inl err, _) \<Rightarrow> (Inl err, rt)
      | (Inr None, rt') \<Rightarrow> (Inr [], rt')
      | (Inr (Some first), rt') \<Rightarrow>
          finish_cascade (sampled_propagation env sample probe) rt first rt')"

definition process_input_update ::
  "environment \<Rightarrow> block_id \<Rightarrow> endpoint_name \<Rightarrow> input_update \<Rightarrow> monotonic_ms \<Rightarrow> runtime
     \<Rightarrow> (runtime_event_error + block_execution list) \<times> runtime" where
  "process_input_update env x name update now rt =
     process_input_update_sampled env x name update
       \<lparr>cs_monotonic_ms = now, cs_utc_unix_ms = None\<rparr> None rt"

end
