(* ===== verification/Runtime_Activation.thy ===== *)
theory Runtime_Activation
  imports Runtime_Signals
begin

text \<open>
  \<open>runtime_activation.rs\<close>: a batch of source and enablement changes, validated as a whole before
  any block changes.  \<open>runtime_simulation.rs\<close>: simulations of the runtime's blocks, which never
  change the runtime.
\<close>

subsection \<open>Activation\<close>

record block_activation =
  ba_block_id :: block_id
  ba_source :: "rstring option"
  ba_enabled :: "bool option"

record block_activation_result =
  bar_block_id :: block_id
  bar_logic_revision :: logic_revision
  bar_enabled :: bool
  bar_source_changed :: bool
  bar_enabled_changed :: bool
  bar_cancelled_timers :: "timer_name list"

datatype activation_error =
    ActUnknownBlock block_id
  | ActDuplicateBlock block_id
  | ActEmptyUpdate block_id
  | ActInvalidSource block_id logic_error

text \<open>The first pass: the index and the loaded program of every update.\<close>

definition prepare_step ::
  "environment \<Rightarrow> runtime \<Rightarrow> (nat \<times> logic_program option) list \<Rightarrow> block_activation
     \<Rightarrow> activation_error + (nat \<times> logic_program option) list" where
  "prepare_step env rt prepared update =
     (if ba_source update = None \<and> ba_enabled update = None
        then Inl (ActEmptyUpdate (ba_block_id update))
      else case position (\<lambda>b. lb_id b = ba_block_id update) (rt_blocks rt) of
        None \<Rightarrow> Inl (ActUnknownBlock (ba_block_id update))
      | Some index \<Rightarrow>
          if index \<in> fst ` set prepared then Inl (ActDuplicateBlock (ba_block_id update))
          else case ba_source update of
            None \<Rightarrow> Inr (prepared @ [(index, None)])
          | Some source \<Rightarrow>
              result_bind
                (map_err (ActInvalidSource (ba_block_id update))
                  (logic_program_try_new_with_limits (env_vm env) source (rt_limits rt)))
                (\<lambda>program. Inr (prepared @ [(index, Some program)])))"

text \<open>The second pass changes one block at a time and cannot fail.\<close>

definition install_program :: "logic_program \<Rightarrow> logic_block \<Rightarrow> logic_block" where
  "install_program program b =
     reset_health (b
       \<lparr>lb_engine := (lb_engine b)
          \<lparr>eng_config := (eng_config (lb_engine b))\<lparr>ec_logic := program\<rparr>,
           eng_pending_timers := []\<rparr>,
        lb_config := (lb_config b)\<lparr>bc_logic := program\<rparr>\<rparr>)"

definition apply_source ::
  "logic_program option \<Rightarrow> logic_block \<Rightarrow> bool \<times> timer_name list \<times> logic_block" where
  "apply_source program b =
     (case program of
        None \<Rightarrow> (False, [], b)
      | Some program \<Rightarrow>
          if lp_revision program = active_logic_revision (lb_engine b) then (False, [], b)
          else (True, btm_keys (eng_pending_timers (lb_engine b)), install_program program b))"

definition apply_enabled ::
  "bool option \<Rightarrow> timer_name list \<Rightarrow> logic_block \<Rightarrow> bool \<times> timer_name list \<times> logic_block" where
  "apply_enabled enabled cancelled b =
     (case enabled of
        None \<Rightarrow> (False, cancelled, b)
      | Some wanted \<Rightarrow>
          if wanted = lb_enabled b then (False, cancelled, b)
          else (True,
                (if wanted then cancelled
                 else cancelled @ btm_keys (eng_pending_timers (lb_engine b))),
                set_enabled wanted b))"

definition invalidate_cursors :: "block_id \<Rightarrow> cursor_map \<Rightarrow> cursor_map" where
  "invalidate_cursors x =
     btm_map_values (\<lambda>key cursor.
       if fst key = x
       then cursor\<lparr>cur_next_occurrence_utc_ms := None, cur_needs_rebaseline := True\<rparr>
       else cursor)"

text \<open>\<open>sort\<close> and \<open>dedup\<close>, which drops equal neighbours.\<close>

fun dedup :: "'a list \<Rightarrow> 'a list" where
  "dedup (x # y # xs) = (if x = y then dedup (y # xs) else x # dedup (y # xs))"
| "dedup xs = xs"

definition activate_block ::
  "block_activation \<times> nat \<times> logic_program option \<Rightarrow> block_activation_result list \<times> runtime
     \<Rightarrow> block_activation_result list \<times> runtime" where
  "activate_block step state =
     (let (update, index, program) = step; (results, rt) = state in
      case apply_source program (rt_blocks rt ! index) of
        (source_changed, cancelled, b) \<Rightarrow>
          (case apply_enabled (ba_enabled update) cancelled b of
             (enabled_changed, cancelled, b) \<Rightarrow>
               let rt = set_block index b rt;
                   rt = (if enabled_changed
                     then rt\<lparr>rt_schedule_cursors :=
                       invalidate_cursors (lb_id b) (rt_schedule_cursors rt)\<rparr>
                     else rt)
               in (results @
                    [\<lparr>bar_block_id = lb_id b,
                      bar_logic_revision = active_logic_revision (lb_engine b),
                      bar_enabled = lb_enabled b, bar_source_changed = source_changed,
                      bar_enabled_changed = enabled_changed,
                      bar_cancelled_timers = dedup (sort cancelled)\<rparr>],
                   rt)))"

definition activate ::
  "environment \<Rightarrow> block_activation list \<Rightarrow> runtime
     \<Rightarrow> (activation_error + block_activation_result list) \<times> runtime" where
  "activate env updates rt =
     (case try_fold (prepare_step env rt) [] updates of
        Inl e \<Rightarrow> (Inl e, rt)
      | Inr prepared \<Rightarrow>
          (case foldl (\<lambda>state step. activate_block step state) ([], rt) (zip updates prepared) of
             (results, rt) \<Rightarrow> (Inr results, rt)))"

subsection \<open>Simulation\<close>

datatype runtime_simulation_error =
    RsUnknownBlock block_id
  | RsBlock block_id simulation_error

datatype schedule_simulation_error =
    SsUnknownSchedule
  | SsNotOccurrence
  | SsStaleStructuralRevision
  | SsInvalidSource logic_error
  | SsInvalidInput simulation_error

record schedule_simulation_request =
  ssr_block_id :: block_id
  ssr_schedule :: schedule_name
  ssr_occurrence_at_utc_ms :: int
  ssr_expected_structural_revision :: u64
  ssr_expected_logic_revision :: logic_revision

text \<open>The signal effects that an execution would have.\<close>

definition simulated_effect ::
  "runtime \<Rightarrow> logic_block \<Rightarrow> output_effect \<Rightarrow> (signal_effect \<times> signal_endpoint_id list) list" where
  "simulated_effect rt b output =
     (case bound_signal rt b (oe_endpoint output) of
        None \<Rightarrow> []
      | Some (signal_name, index) \<Rightarrow>
          let signal = rt_signals rt ! index;
              changed = (sg_value signal \<noteq> Some (oe_value output))
          in [(\<lparr>sx_signal = signal_name, sx_value = oe_value output, sx_changed = changed,
                sx_producer = \<lparr>se_block_id = lb_id b, se_endpoint = oe_endpoint output\<rparr>,
                sx_producing_execution = None, sx_consumers = sg_consumers signal\<rparr>,
               if changed
               then filter (\<lambda>consumer. case find_block rt (se_block_id consumer) of
                   None \<Rightarrow> False | Some other \<Rightarrow> lb_enabled other) (sg_consumers signal)
               else [])])"

definition annotate_simulation :: "runtime \<Rightarrow> block_id \<Rightarrow> execution \<Rightarrow> execution" where
  "annotate_simulation rt x ex =
     (case find_block rt x of
        None \<Rightarrow> ex
      | Some b \<Rightarrow>
          (case ex_outcome ex of
             Inl _ \<Rightarrow> ex
           | Inr tr \<Rightarrow>
               let effects = concat (map (simulated_effect rt b) (tr_outputs tr))
               in ex\<lparr>ex_signal_effects := map fst effects,
                     ex_eligible_consumers := concat (map snd effects)\<rparr>))"

definition simulated ::
  "runtime \<Rightarrow> block_id \<Rightarrow> simulation_error + execution
     \<Rightarrow> runtime_simulation_error + block_execution" where
  "simulated rt x result =
     result_bind (map_err (RsBlock x) result)
       (\<lambda>ex. Inr \<lparr>bx_block_id = x, bx_execution = annotate_simulation rt x ex\<rparr>)"

definition with_block ::
  "runtime \<Rightarrow> block_id \<Rightarrow> (engine \<Rightarrow> simulation_error + execution)
     \<Rightarrow> runtime_simulation_error + block_execution" where
  "with_block rt x f =
     (case find_block rt x of
        None \<Rightarrow> Inl (RsUnknownBlock x)
      | Some b \<Rightarrow> simulated rt x (f (lb_engine b)))"

definition runtime_simulate_input ::
  "environment \<Rightarrow> runtime \<Rightarrow> block_id \<Rightarrow> simulation_scenario
     \<Rightarrow> runtime_simulation_error + block_execution" where
  "runtime_simulate_input env rt x scenario =
     with_block rt x (\<lambda>eng. simulate_input env eng scenario)"

definition runtime_simulate_input_with_state ::
  "environment \<Rightarrow> runtime \<Rightarrow> block_id \<Rightarrow> simulation_scenario \<Rightarrow> transient_state
     \<Rightarrow> pending_timer list \<Rightarrow> monotonic_ms \<Rightarrow> runtime_simulation_error + block_execution" where
  "runtime_simulate_input_with_state env rt x scenario state pending now =
     with_block rt x (\<lambda>eng. simulate_input_with_state env eng scenario state pending now)"

definition runtime_simulate_input_with_source ::
  "environment \<Rightarrow> runtime \<Rightarrow> block_id \<Rightarrow> rstring \<Rightarrow> simulation_scenario \<Rightarrow> transient_state
     \<Rightarrow> pending_timer list \<Rightarrow> monotonic_ms \<Rightarrow> runtime_simulation_error + block_execution" where
  "runtime_simulate_input_with_source env rt x source scenario state pending now =
     with_block rt x
       (\<lambda>eng. simulate_input_with_source env eng source scenario state pending now)"

definition runtime_simulate_timer ::
  "environment \<Rightarrow> runtime \<Rightarrow> block_id \<Rightarrow> timer_simulation_scenario
     \<Rightarrow> runtime_simulation_error + block_execution" where
  "runtime_simulate_timer env rt x scenario =
     with_block rt x (\<lambda>eng. simulate_timer env eng scenario)"

definition runtime_simulate_timer_with_source ::
  "environment \<Rightarrow> runtime \<Rightarrow> block_id \<Rightarrow> rstring \<Rightarrow> timer_simulation_scenario
     \<Rightarrow> runtime_simulation_error + block_execution" where
  "runtime_simulate_timer_with_source env rt x source scenario =
     with_block rt x (\<lambda>eng. simulate_timer_with_source env eng source scenario)"

text \<open>
  A schedule simulation names an occurrence: it must be one of the rule's, not earlier than the
  next one to come, under the revisions that the request expects.
\<close>

definition schedule_simulation_trigger ::
  "time_services \<Rightarrow> runtime \<Rightarrow> schedule_simulation_request
     \<Rightarrow> schedule_simulation_error + logic_block \<times> schedule_trigger" where
  "schedule_simulation_trigger ts rt request =
     (let x = ssr_block_id request; name = ssr_schedule request;
          occ = ssr_occurrence_at_utc_ms request in
      case find_schedule rt x name of
        None \<Rightarrow> Inl SsUnknownSchedule
      | Some (b, s) \<Rightarrow>
          if next_occurrence_after ts (sch_rule s) (rt_site rt) (saturate_i64 (occ - 1)) \<noteq> Some occ
            then Inl SsNotOccurrence
          else case btm_get (rt_schedule_cursors rt) (x, name) of
            None \<Rightarrow> Inl SsStaleStructuralRevision
          | Some cursor \<Rightarrow>
              (case cur_next_occurrence_utc_ms cursor of
                 None \<Rightarrow> Inl SsNotOccurrence
               | Some next_previewable \<Rightarrow>
                   if occ < next_previewable then Inl SsNotOccurrence
                   else if cur_structural_revision cursor \<noteq> ssr_expected_structural_revision request
                     \<or> active_logic_revision (lb_engine b) \<noteq> ssr_expected_logic_revision request
                     then Inl SsStaleStructuralRevision
                   else Inr (b,
                     \<lparr>st_block_id = x, st_name = name, st_kind = rule_kind (sch_rule s),
                      st_scheduled_for_utc_ms = occ, st_detected_at_utc_ms = occ,
                      st_coalesced_count = 0,
                      st_structural_revision = ssr_expected_structural_revision request\<rparr>)))"

definition simulate_schedule ::
  "environment \<Rightarrow> runtime \<Rightarrow> schedule_simulation_request
     \<Rightarrow> schedule_simulation_error + block_execution" where
  "simulate_schedule env rt request =
     result_bind (schedule_simulation_trigger (env_time env) rt request) (\<lambda>(b, trigger).
       Inr \<lparr>bx_block_id = ssr_block_id request,
            bx_execution = annotate_simulation rt (ssr_block_id request)
              (simulate_schedule_trigger env (lb_engine b) trigger (rt_site rt)
                (Some (ssr_occurrence_at_utc_ms request)))\<rparr>)"

definition simulate_schedule_with_source ::
  "environment \<Rightarrow> runtime \<Rightarrow> schedule_simulation_request \<Rightarrow> rstring
     \<Rightarrow> schedule_simulation_error + block_execution" where
  "simulate_schedule_with_source env rt request source =
     result_bind (schedule_simulation_trigger (env_time env) rt request) (\<lambda>(b, trigger).
     result_bind
       (map_err SsInvalidSource
         (simulate_schedule_trigger_with_source env (lb_engine b) source trigger (rt_site rt)
           (Some (ssr_occurrence_at_utc_ms request)))) (\<lambda>ex.
       Inr \<lparr>bx_block_id = ssr_block_id request,
            bx_execution = annotate_simulation rt (ssr_block_id request) ex\<rparr>))"

end
