(* ===== verification/Schedule_Polls.thy ===== *)
theory Schedule_Polls
  imports Runtime_Activation
begin

text \<open>
  One schedule under a poll: the walk over the occurrences that passed ends, and leads to the last of
  them; the cursor moves behind it.
\<close>

subsection \<open>Walking over occurrences\<close>

text \<open>
  What the poll needs of a schedule rule: between two bounds, the next occurrence lies behind the
  instant asked about.  The walk is the loop of the poll.
\<close>

locale occurrence_walk =
  fixes following :: "int \<Rightarrow> int option" and low high :: int
    and walk :: "int \<Rightarrow> int \<Rightarrow> u64 \<Rightarrow> (int \<times> u64) option"
  assumes advances: "low \<le> a \<Longrightarrow> a \<le> high \<Longrightarrow> following a = Some t \<Longrightarrow> a < t"
    and walk_step: "walk now newest passed =
      (case following newest of
         None \<Rightarrow> Some (newest, passed)
       | Some occ \<Rightarrow> if occ \<le> now then walk now occ (passed + 1) else Some (newest, passed))"
begin

text \<open>The occurrences that the walk visits, none behind \<open>now\<close>.\<close>

inductive visits :: "int \<Rightarrow> int \<Rightarrow> nat \<Rightarrow> int \<Rightarrow> bool" for now where
  visits_here: "visits now a 0 a"
| visits_next: "following a = Some b \<Longrightarrow> b \<le> now \<Longrightarrow> visits now b k c \<Longrightarrow> visits now a (Suc k) c"

lemma walk_ends:
  assumes "low \<le> newest" and "newest \<le> now" and "now \<le> high"
  shows "\<exists>m k. walk now newest passed = Some (m, passed + of_nat k) \<and> visits now newest k m
    \<and> newest \<le> m \<and> m \<le> now \<and> (\<forall>t. following m = Some t \<longrightarrow> now < t)"
  using assms
proof (induction "nat (now - newest)" arbitrary: newest passed rule: less_induct)
  case less
  show ?case
  proof (cases "following newest")
    case None
    then show ?thesis
      using less.prems visits_here
      by (intro exI [of _ newest] exI [of _ 0]) (simp add: walk_step [of now newest])
  next
    case (Some occ)
    have later: "newest < occ" using advances [OF _ _ Some] less.prems by simp
    show ?thesis
    proof (cases "occ \<le> now")
      case False
      then show ?thesis
        using less.prems visits_here Some
        by (intro exI [of _ newest] exI [of _ 0]) (simp add: walk_step [of now newest])
    next
      case True
      obtain m k where rest: "walk now occ (passed + 1) = Some (m, passed + 1 + of_nat k)"
        "visits now occ k m" "occ \<le> m" "m \<le> now" "\<forall>t. following m = Some t \<longrightarrow> now < t"
        using less.hyps [of occ "passed + 1"] later True less.prems by auto
      have "walk now newest passed = Some (m, passed + of_nat (Suc k))"
        using Some True rest(1) by (simp add: walk_step [of now newest])
      then show ?thesis
        using rest later visits_next [OF Some True rest(2)]
        by (intro exI [of _ m] exI [of _ "Suc k"]) simp
    qed
  qed
qed

end

text \<open>The rules advance up to the horizon of the longest interval, whatever the rule is.\<close>

definition clock_horizon :: int where
  "clock_horizon = i64_max - 2 ^ 32 * 1000"

lemma rule_advances:
  assumes "i64_min \<le> a" and "a \<le> clock_horizon" and "next_occurrence_after ts rule site a = Some t"
  shows "a < t"
proof (rule next_occurrence_later [OF assms(3)])
  fix every offset :: u32
  have "uint every < 2 ^ 32" using uint_bounded [of every] by simp
  with assms(1,2) show "is_i64 a \<and> a + uint every * 1000 \<le> i64_max"
    by (simp add: is_i64_def clock_horizon_def)
qed

interpretation rule_walk: occurrence_walk "next_occurrence_after ts rule site" i64_min clock_horizon
    "\<lambda>now. coalesce ts rule site now" for ts rule site
  by unfold_locales (auto intro: rule_advances coalesce.simps)

text \<open>At the end of the 64-bit range an interval rule yields its baseline again: no return.\<close>

lemma coalesce_stuck:
  assumes "next_occurrence_after ts rule site a = Some a" and "a \<le> now"
  shows "coalesce ts rule site now a passed = None"
proof -
  have "next_occurrence_after ts rule site newest = Some newest \<longrightarrow> now < newest"
    if "coalesce ts rule site now newest passed = Some x" for ts rule site now newest passed x
  proof (rule coalesce.raw_induct [OF _ that, where P = "\<lambda>ts rule site now newest passed x.
      next_occurrence_after ts rule site newest = Some newest \<longrightarrow> now < newest"])
    fix coal ts rule site now newest passed x
    assume smaller: "\<And>ts rule site now newest passed x.
        coal ts rule site now newest passed = Some x \<Longrightarrow>
        next_occurrence_after ts rule site newest = Some newest \<longrightarrow> now < newest"
      and body: "(case next_occurrence_after ts rule site newest of
          None \<Rightarrow> Some (newest, passed)
        | Some occ \<Rightarrow> if occ \<le> now then coal ts rule site now occ (passed + 1) else Some (newest, passed))
        = Some x"
    show "next_occurrence_after ts rule site newest = Some newest \<longrightarrow> now < newest"
    proof (intro impI, rule ccontr)
      assume stuck: "next_occurrence_after ts rule site newest = Some newest" "\<not> now < newest"
      with body have "coal ts rule site now newest (passed + 1) = Some x" by (simp add: not_less)
      from smaller [OF this] stuck show False by simp
    qed
  qed
  with assms show ?thesis by (metis not_less option.exhaust)
qed

subsection \<open>One schedule\<close>

text \<open>
  A cursor is consistent when everything in it is in the range of the clock and the next
  occurrence lies behind the one delivered last.
\<close>

definition cursor_ok :: "schedule_cursor \<Rightarrow> bool" where
  "cursor_ok c \<longleftrightarrow>
     (\<forall>l. cur_last_delivered_utc_ms c = Some l \<longrightarrow> i64_min \<le> l \<and> l \<le> clock_horizon)
     \<and> (\<forall>n. cur_next_occurrence_utc_ms c = Some n \<longrightarrow>
          i64_min \<le> n \<and> (\<forall>l. cur_last_delivered_utc_ms c = Some l \<longrightarrow> l < n))"

definition clock_ok :: "int \<Rightarrow> bool" where
  "clock_ok now \<longleftrightarrow> i64_min \<le> now \<and> now \<le> clock_horizon"

lemma fresh_cursor_ok [simp]: "cursor_ok (fresh_cursor revision)"
  by (simp add: cursor_ok_def fresh_cursor_def)

lemma initial_cursor_ok:
  assumes "\<forall>now. utc = Some now \<longrightarrow> clock_ok now"
  shows "cursor_ok (initial_cursor ts site revision utc s)"
proof (cases utc)
  case (Some now)
  with assms have now: "i64_min \<le> now" "now \<le> clock_horizon" by (simp_all add: clock_ok_def)
  have "i64_min \<le> n" if "next_occurrence_after ts (sch_rule s) site now = Some n" for n
    using rule_advances [OF now that] now(1) by simp
  with Some show ?thesis by (simp add: initial_cursor_def cursor_ok_def fresh_cursor_def)
qed (simp add: initial_cursor_def)

lemma rebaselined_ok:
  assumes "cursor_ok c" and "clock_ok now"
  shows "cursor_ok (rebaselined ts site now rule c)"
    and "cur_next_occurrence_utc_ms (rebaselined ts site now rule c) = Some n \<Longrightarrow> now < n"
    and "cur_last_delivered_utc_ms (rebaselined ts site now rule c) = cur_last_delivered_utc_ms c"
    and "\<not> cur_needs_rebaseline (rebaselined ts site now rule c)"
proof -
  define base where "base = (case cur_last_delivered_utc_ms c of None \<Rightarrow> now | Some l \<Rightarrow> max l now)"
  have base: "i64_min \<le> base" "base \<le> clock_horizon" "now \<le> base"
    "\<And>l. cur_last_delivered_utc_ms c = Some l \<Longrightarrow> l \<le> base"
    using assms by (auto simp: base_def cursor_ok_def clock_ok_def split: option.splits)
  have occ: "cur_next_occurrence_utc_ms (rebaselined ts site now rule c)
      = next_occurrence_after ts rule site base"
    by (simp add: rebaselined_def next_occurrence_after_not_before_def base_def)
  show same: "cur_last_delivered_utc_ms (rebaselined ts site now rule c) = cur_last_delivered_utc_ms c"
    and "\<not> cur_needs_rebaseline (rebaselined ts site now rule c)"
    by (simp_all add: rebaselined_def)
  have later: "base < n" if "cur_next_occurrence_utc_ms (rebaselined ts site now rule c) = Some n" for n
    using rule_advances [OF base(1,2)] that occ by simp
  then show "cur_next_occurrence_utc_ms (rebaselined ts site now rule c) = Some n \<Longrightarrow> now < n"
    using base(3) by force
  show "cursor_ok (rebaselined ts site now rule c)"
    using assms(1) later base(1,4) same by (fastforce simp: cursor_ok_def)
qed

text \<open>What a poll makes of one schedule whose cursor is up to date.\<close>

datatype poll_outcome =
    Idle schedule_cursor
  | Delivered int nat schedule_cursor

definition up_to_date ::
  "time_services \<Rightarrow> site_time_config \<Rightarrow> int \<Rightarrow> schedule_rule \<Rightarrow> schedule_cursor \<Rightarrow> schedule_cursor" where
  "up_to_date ts site now rule c =
     (if cur_needs_rebaseline c then rebaselined ts site now rule c else c)"

definition polled ::
  "time_services \<Rightarrow> site_time_config \<Rightarrow> u64 \<Rightarrow> int \<Rightarrow> block_id \<times> block_schedule \<Rightarrow> cursor_map
     \<Rightarrow> poll_outcome \<Rightarrow> bool" where
  "polled ts site revision now bs cursors outcome \<longleftrightarrow>
     (let c = up_to_date ts site now (sch_rule (snd bs))
            (cursor_entry cursors (fst bs, sch_name (snd bs)) revision)
      in case outcome of
           Idle c' \<Rightarrow> c' = c \<and> (\<forall>n. cur_next_occurrence_utc_ms c = Some n \<longrightarrow> now < n)
         | Delivered occ k c' \<Rightarrow>
             (\<exists>due. cur_next_occurrence_utc_ms c = Some due \<and> due \<le> occ
                \<and> rule_walk.visits ts (sch_rule (snd bs)) site now due k occ)
             \<and> occ \<le> now
             \<and> (\<forall>n. next_occurrence_after ts (sch_rule (snd bs)) site occ = Some n \<longrightarrow> now < n)
             \<and> c' = c\<lparr>cur_last_delivered_utc_ms := Some occ,
                 cur_next_occurrence_utc_ms := next_occurrence_after ts (sch_rule (snd bs)) site now\<rparr>)"

fun outcome_cursor :: "poll_outcome \<Rightarrow> schedule_cursor" where
  "outcome_cursor (Idle c) = c"
| "outcome_cursor (Delivered occ k c) = c"

fun outcome_triggers ::
  "int \<Rightarrow> block_id \<times> block_schedule \<Rightarrow> poll_outcome \<Rightarrow> schedule_trigger list" where
  "outcome_triggers now bs (Idle c) = []"
| "outcome_triggers now bs (Delivered occ k c) =
     [delivered_trigger (fst bs) (snd bs) occ now (of_nat (Suc k)) c]"

abbreviation key_of :: "block_id \<times> block_schedule \<Rightarrow> schedule_key" where
  "key_of bs \<equiv> (fst bs, sch_name (snd bs))"

definition poll_result ::
  "int \<Rightarrow> block_id \<times> block_schedule \<Rightarrow> cursor_map \<Rightarrow> schedule_trigger list \<Rightarrow> poll_outcome
     \<Rightarrow> cursor_map \<times> schedule_trigger list" where
  "poll_result now bs cursors triggers outcome =
     (btm_insert (key_of bs) (outcome_cursor outcome) cursors,
      triggers @ outcome_triggers now bs outcome)"

lemma poll_step_spec:
  assumes "cursor_ok (cursor_entry cursors (fst bs, sch_name (snd bs)) revision)" and "clock_ok now"
  shows "\<exists>outcome. poll_step ts site revision now bs (cursors, triggers)
      = Some (poll_result now bs cursors triggers outcome)
    \<and> polled ts site revision now bs cursors outcome"
proof -
  define c where "c = up_to_date ts site now (sch_rule (snd bs))
    (cursor_entry cursors (fst bs, sch_name (snd bs)) revision)"
  have ok: "cursor_ok c" using assms rebaselined_ok(1) by (simp add: c_def up_to_date_def)
  note fold = c_def [unfolded up_to_date_def, symmetric]
  show ?thesis
  proof (cases "cur_next_occurrence_utc_ms c")
    case None
    then show ?thesis
      by (intro exI [of _ "Idle c"])
        (simp add: poll_step_def Let_def fold polled_def poll_result_def c_def [symmetric])
  next
    case (Some due)
    show ?thesis
    proof (cases "now < due")
      case True
      with Some show ?thesis
        by (intro exI [of _ "Idle c"])
          (simp add: poll_step_def Let_def fold polled_def poll_result_def c_def [symmetric])
    next
      case False
      have "i64_min \<le> due" using ok Some by (simp add: cursor_ok_def)
      with False assms(2) rule_walk.walk_ends [of due now ts "sch_rule (snd bs)" site 1]
      obtain m k where walk: "coalesce ts (sch_rule (snd bs)) site now due 1 = Some (m, 1 + of_nat k)"
        "rule_walk.visits ts (sch_rule (snd bs)) site now due k m" "due \<le> m" "m \<le> now"
        "\<forall>t. next_occurrence_after ts (sch_rule (snd bs)) site m = Some t \<longrightarrow> now < t"
        by (auto simp: clock_ok_def not_less)
      let ?c = "c\<lparr>cur_last_delivered_utc_ms := Some m,
        cur_next_occurrence_utc_ms := next_occurrence_after ts (sch_rule (snd bs)) site now\<rparr>"
      have "delivered_trigger (fst bs) (snd bs) m now (1 + of_nat k) c
          = delivered_trigger (fst bs) (snd bs) m now (of_nat (Suc k)) ?c"
        by (simp add: delivered_trigger_def)
      with walk Some False show ?thesis
        by (intro exI [of _ "Delivered m k ?c"])
          (simp add: poll_step_def Let_def fold polled_def poll_result_def c_def [symmetric])
    qed
  qed
qed

lemma polled_cursor:
  assumes "cursor_ok (cursor_entry cursors (key_of bs) revision)" and "clock_ok now"
    and "polled ts site revision now bs cursors outcome"
  shows "cursor_ok (outcome_cursor outcome)" and "\<not> cur_needs_rebaseline (outcome_cursor outcome)"
    and "cur_next_occurrence_utc_ms (outcome_cursor outcome) = Some n \<Longrightarrow> now < n"
proof -
  let ?c = "up_to_date ts site now (sch_rule (snd bs)) (cursor_entry cursors (key_of bs) revision)"
  have ok: "cursor_ok ?c" and fresh: "\<not> cur_needs_rebaseline ?c"
    using assms(1,2) rebaselined_ok by (simp_all add: up_to_date_def)
  have "cursor_ok (outcome_cursor outcome) \<and> \<not> cur_needs_rebaseline (outcome_cursor outcome)
    \<and> (\<forall>n. cur_next_occurrence_utc_ms (outcome_cursor outcome) = Some n \<longrightarrow> now < n)"
  proof (cases outcome)
    case (Idle c)
    with assms(3) ok fresh show ?thesis by (auto simp: polled_def Let_def)
  next
    case (Delivered occ k c)
    obtain due where due: "cur_next_occurrence_utc_ms ?c = Some due" "due \<le> occ" "occ \<le> now"
      "c = ?c\<lparr>cur_last_delivered_utc_ms := Some occ,
        cur_next_occurrence_utc_ms := next_occurrence_after ts (sch_rule (snd bs)) site now\<rparr>"
      using assms(3) Delivered by (auto simp: polled_def Let_def)
    have low: "i64_min \<le> due" using ok due(1) by (simp add: cursor_ok_def)
    have "now < n" if "next_occurrence_after ts (sch_rule (snd bs)) site now = Some n" for n
      using rule_advances that assms(2) by (simp add: clock_ok_def)
    with due low assms(2) fresh Delivered show ?thesis by (fastforce simp: cursor_ok_def clock_ok_def)
  qed
  then show "cursor_ok (outcome_cursor outcome)" and "\<not> cur_needs_rebaseline (outcome_cursor outcome)"
    and "cur_next_occurrence_utc_ms (outcome_cursor outcome) = Some n \<Longrightarrow> now < n" by auto
qed

subsection \<open>All schedules\<close>

definition cursors_ok :: "cursor_map \<Rightarrow> bool" where
  "cursors_ok m \<longleftrightarrow> (\<forall>key c. btm_get m key = Some c \<longrightarrow> cursor_ok c)"

lemma cursors_ok_entry: "cursors_ok m \<Longrightarrow> cursor_ok (cursor_entry m key revision)"
  by (cases key; cases "btm_get m key") (simp_all add: cursors_ok_def cursor_entry_def)

lemma cursors_ok_insert: "cursors_ok m \<Longrightarrow> cursor_ok c \<Longrightarrow> cursors_ok (btm_insert key c m)"
  by (simp add: cursors_ok_def btm_get_insert)

lemma cursors_ok_Nil [simp]: "cursors_ok []"
  by (simp add: cursors_ok_def)

lemma polled_cong:
  "btm_get m (key_of bs) = btm_get m' (key_of bs) \<Longrightarrow>
   polled ts site revision now bs m outcome = polled ts site revision now bs m' outcome"
  by (simp add: polled_def cursor_entry_def)

lemma poll_loop_spec:
  assumes "cursors_ok cursors" and "clock_ok now" and "distinct (map key_of bss)"
  shows "\<exists>cursors' outcomes. poll_loop ts site revision now bss (cursors, triggers)
      = Some (cursors', triggers @ concat (map2 (outcome_triggers now) bss outcomes))
    \<and> list_all2 (\<lambda>bs outcome. polled ts site revision now bs cursors outcome
        \<and> btm_get cursors' (key_of bs) = Some (outcome_cursor outcome)) bss outcomes
    \<and> (\<forall>key. key \<notin> key_of ` set bss \<longrightarrow> btm_get cursors' key = btm_get cursors key)
    \<and> cursors_ok cursors'"
  using assms(1,3)
proof (induction bss arbitrary: cursors triggers)
  case Nil
  then show ?case by (intro exI [of _ cursors] exI [of _ "[]"]) simp
next
  case (Cons bs bss)
  obtain outcome where step: "poll_step ts site revision now bs (cursors, triggers)
      = Some (poll_result now bs cursors triggers outcome)"
    and polled: "polled ts site revision now bs cursors outcome"
    using poll_step_spec [OF cursors_ok_entry [OF Cons.prems(1)] assms(2)] by blast
  let ?m = "btm_insert (key_of bs) (outcome_cursor outcome) cursors"
  have ok: "cursors_ok ?m"
    using cursors_ok_insert [OF Cons.prems(1) polled_cursor(1)
        [OF cursors_ok_entry [OF Cons.prems(1)] assms(2) polled]] .
  have new: "key_of bs \<notin> key_of ` set bss" "distinct (map key_of bss)" using Cons.prems(2) by auto
  obtain cursors' outcomes where rest: "poll_loop ts site revision now bss
        (?m, triggers @ outcome_triggers now bs outcome)
      = Some (cursors', (triggers @ outcome_triggers now bs outcome)
          @ concat (map2 (outcome_triggers now) bss outcomes))"
    "list_all2 (\<lambda>bs outcome. polled ts site revision now bs ?m outcome
        \<and> btm_get cursors' (key_of bs) = Some (outcome_cursor outcome)) bss outcomes"
    "\<forall>key. key \<notin> key_of ` set bss \<longrightarrow> btm_get cursors' key = btm_get ?m key"
    "cursors_ok cursors'"
    using Cons.IH [OF ok new(2), of "triggers @ outcome_triggers now bs outcome"] by blast
  have same: "polled ts site revision now bs' ?m o' = polled ts site revision now bs' cursors o'"
    if "bs' \<in> set bss" for bs' o'
  proof (rule polled_cong)
    have "key_of bs' \<in> key_of ` set bss" using that by (rule imageI)
    with new(1) have "key_of bs' \<noteq> key_of bs" by (intro notI) (simp only: not_True_eq_False)
    then show "btm_get ?m (key_of bs') = btm_get cursors (key_of bs')" by (simp only: btm_get_insert if_False)
  qed
  have "list_all2 (\<lambda>bs outcome. polled ts site revision now bs cursors outcome
        \<and> btm_get cursors' (key_of bs) = Some (outcome_cursor outcome)) bss outcomes"
    using rest(2) same by (auto simp: list_all2_conv_all_nth)
  moreover have "btm_get cursors' (key_of bs) = Some (outcome_cursor outcome)"
    using rest(3) new(1) by (simp add: btm_get_insert)
  moreover have "\<forall>key. key \<notin> key_of ` set (bs # bss) \<longrightarrow> btm_get cursors' key = btm_get cursors key"
    using rest(3) by (auto simp: btm_get_insert)
  ultimately show ?case
    using step rest(1,4) polled
    by (intro exI [of _ cursors'] exI [of _ "outcome # outcomes"]) (simp add: poll_result_def)
qed

text \<open>What was delivered last, which recomputing the cursors keeps.\<close>

definition last_delivered :: "cursor_map \<Rightarrow> schedule_key \<Rightarrow> int option" where
  "last_delivered m key =
     (case btm_get m key of None \<Rightarrow> None | Some c \<Rightarrow> cur_last_delivered_utc_ms c)"

lemma last_delivered_entry:
  "cur_last_delivered_utc_ms (cursor_entry m key revision) = last_delivered m key"
  by (simp add: cursor_entry_def last_delivered_def fresh_cursor_def split: option.splits)

lemma cursor_ok_flags [simp]:
  "cursor_ok (c\<lparr>cur_structural_revision := revision\<rparr>) = cursor_ok c"
  "cursor_ok (c\<lparr>cur_needs_rebaseline := flag\<rparr>) = cursor_ok c"
  "cursor_ok c \<Longrightarrow> cursor_ok (c\<lparr>cur_next_occurrence_utc_ms := None\<rparr>)"
  by (simp_all add: cursor_ok_def)

lemma recompute_step_ok:
  assumes "cursors_ok m" and "clock_ok now"
  shows "cursors_ok (recompute_step ts site revision now m bs)"
    and "last_delivered (recompute_step ts site revision now m bs) key = last_delivered m key"
proof -
  let ?c = "(cursor_entry m (key_of bs) revision)\<lparr>cur_structural_revision := revision\<rparr>"
  have ok: "cursor_ok ?c" using cursors_ok_entry [OF assms(1)] by simp
  show "cursors_ok (recompute_step ts site revision now m bs)"
    using cursors_ok_insert [OF assms(1) rebaselined_ok(1) [OF ok assms(2)]]
    by (simp add: recompute_step_def Let_def)
  have "cur_last_delivered_utc_ms (rebaselined ts site now (sch_rule (snd bs)) ?c)
      = last_delivered m (key_of bs)"
    using rebaselined_ok(3) [OF ok assms(2)] last_delivered_entry by simp
  then show "last_delivered (recompute_step ts site revision now m bs) key = last_delivered m key"
    by (simp add: recompute_step_def Let_def last_delivered_def btm_get_insert)
qed

lemma recompute_steps_ok:
  assumes "cursors_ok m" and "clock_ok now"
  shows "cursors_ok (foldl (recompute_step ts site revision now) m bss)
    \<and> (\<forall>key. last_delivered (foldl (recompute_step ts site revision now) m bss) key = last_delivered m key)"
  using assms(1)
proof (induction bss arbitrary: m)
  case (Cons bs bss)
  from Cons.IH [OF recompute_step_ok(1) [OF Cons.prems assms(2)]] recompute_step_ok(2) [OF Cons.prems assms(2)]
  show ?case by simp
qed simp

lemma rebaseline_steps_ok:
  assumes "cursors_ok m" and "\<forall>now. utc = Some now \<longrightarrow> clock_ok now"
  shows "cursors_ok (foldl (rebaseline_step ts site revision utc) m bss)"
  using assms(1)
proof (induction bss arbitrary: m)
  case (Cons bs bss)
  let ?c = "(cursor_entry m (key_of bs) revision)\<lparr>cur_structural_revision := revision,
    cur_needs_rebaseline := True, cur_next_occurrence_utc_ms := None\<rparr>"
  have ok: "cursor_ok ?c" using cursors_ok_entry [OF Cons.prems] by simp
  have "cursors_ok (rebaseline_step ts site revision utc m bs)"
  proof (cases utc)
    case None
    with cursors_ok_insert [OF Cons.prems ok] show ?thesis by (simp add: rebaseline_step_def Let_def)
  next
    case (Some now)
    then have "clock_ok now" using assms(2) by simp
    with Some cursors_ok_insert [OF Cons.prems rebaselined_ok(1) [OF ok]] show ?thesis
      by (simp add: rebaseline_step_def Let_def)
  qed
  then show ?case using Cons.IH by simp
qed simp

lemma initial_steps_ok:
  assumes "cursors_ok m" and "\<forall>now. utc = Some now \<longrightarrow> clock_ok now"
  shows "cursors_ok (foldl (\<lambda>cursors (x, s). btm_insert (x, sch_name s)
    (initial_cursor ts site revision utc s) cursors) m bss)"
  using assms(1)
proof (induction bss arbitrary: m)
  case (Cons bs bss)
  with cursors_ok_insert [OF Cons.prems initial_cursor_ok [OF assms(2)]] show ?case
    by (cases bs) simp
qed simp

lemma invalidate_cursors_ok: "cursors_ok m \<Longrightarrow> cursors_ok (invalidate_cursors x m)"
  by (auto simp: cursors_ok_def invalidate_cursors_def btm_get_map_values split: if_splits)

lemma paused_cursors_ok:
  "cursors_ok m \<Longrightarrow> cursors_ok (btm_map_values (\<lambda>_ c. c\<lparr>cur_next_occurrence_utc_ms := None,
     cur_needs_rebaseline := True\<rparr>) m)"
  by (auto simp: cursors_ok_def btm_get_map_values)

end
