(* ===== verification/Runtime_Invariants.thy ===== *)
theory Runtime_Invariants
  imports Runtime_Activation
begin

text \<open>
  The invariant of the runtime and its preservation: blocks whose engine, health and rate window
  agree, and the wiring of blocks and signals, which no operation changes.
\<close>

subsection \<open>Blocks\<close>

definition not_later :: "monotonic_ms option \<Rightarrow> monotonic_ms option \<Rightarrow> bool" where
  "not_later s t \<longleftrightarrow> (\<forall>x. s = Some x \<longrightarrow> (\<exists>y. t = Some y \<and> x \<le> y))"

lemma not_later_None [simp]: "not_later None t"
  by (simp add: not_later_def)

lemma not_later_Some [simp]: "not_later (Some x) (Some y) \<longleftrightarrow> x \<le> y"
  by (simp add: not_later_def)

lemma not_later_Some_None [simp]: "\<not> not_later (Some x) None"
  by (simp add: not_later_def)

lemma not_later_trans: "not_later s t \<Longrightarrow> not_later t u \<Longrightarrow> not_later s u"
  by (cases s; cases t; cases u) auto

text \<open>
  The health of a block: it is disabled exactly when its configuration is, a suspended one
  remembers why, and only an active one has timers.
\<close>

fun health_ok :: "block_health \<Rightarrow> bool \<Rightarrow> u32 \<Rightarrow> block_suspension option \<Rightarrow> bool" where
  "health_ok Disabled enabled failures suspension \<longleftrightarrow>
     \<not> enabled \<and> failures = 0 \<and> suspension = None"
| "health_ok Active enabled failures suspension \<longleftrightarrow>
     enabled \<and> failures < block_failure_suspension_threshold \<and> suspension = None"
| "health_ok SuspendedScriptFailures enabled failures suspension \<longleftrightarrow>
     enabled \<and> failures = block_failure_suspension_threshold \<and> suspension = Some ScriptFailures"
| "health_ok SuspendedEventRate enabled failures suspension \<longleftrightarrow>
     enabled \<and> failures = 0 \<and> suspension = Some EventRate"

definition block_ok :: "runtime_limits \<Rightarrow> monotonic_ms option \<Rightarrow> logic_block \<Rightarrow> bool" where
  "block_ok limits now b \<longleftrightarrow>
     engine_ok (lb_engine b)
     \<and> eng_limits (lb_engine b) = limits
     \<and> eng_config (lb_engine b) =
         \<lparr>ec_endpoints = bc_endpoints (lb_config b), ec_logic = bc_logic (lb_config b)\<rparr>
     \<and> not_later (eng_last_accepted_at (lb_engine b)) now
     \<and> health_ok (lb_health b) (lb_enabled b) (lb_consecutive_failures b) (lb_last_suspension b)
     \<and> (lb_health b \<noteq> Active \<longrightarrow> eng_pending_timers (lb_engine b) = [])
     \<and> length (lb_live_execution_times b) \<le> max_live_executions_per_block_per_second limits
     \<and> sorted (lb_live_execution_times b)
     \<and> (\<forall>s \<in> set (lb_live_execution_times b). not_later (Some s) now)"

lemma block_okD:
  assumes "block_ok limits now b"
  shows "engine_ok (lb_engine b)" and "eng_limits (lb_engine b) = limits"
    and "eng_endpoints (lb_engine b) = bc_endpoints (lb_config b)"
    and "ec_logic (eng_config (lb_engine b)) = bc_logic (lb_config b)"
    and "not_later (eng_last_accepted_at (lb_engine b)) now"
    and "health_ok (lb_health b) (lb_enabled b) (lb_consecutive_failures b) (lb_last_suspension b)"
    and "lb_health b \<noteq> Active \<Longrightarrow> eng_pending_timers (lb_engine b) = []"
    and "length (lb_live_execution_times b) \<le> max_live_executions_per_block_per_second limits"
    and "sorted (lb_live_execution_times b)"
  using assms by (simp_all add: block_ok_def)

lemma active_enabled: "block_ok limits now b \<Longrightarrow> lb_health b = Active \<Longrightarrow> lb_enabled b"
  by (auto simp: block_ok_def)

lemma block_ok_runnable: "block_ok limits now b \<Longrightarrow> block_runnable b \<longleftrightarrow> lb_health b = Active"
  using active_enabled by (auto simp: block_runnable_def)

lemma block_ok_later: "block_ok limits s b \<Longrightarrow> not_later s t \<Longrightarrow> block_ok limits t b"
  unfolding block_ok_def using not_later_trans by blast

lemma engine_ok_clear_timers: "engine_ok eng \<Longrightarrow> engine_ok (clear_timers eng)"
  by (simp add: engine_ok_def clear_timers_def active_logic_revision_def)

lemma clear_timers_simps [simp]:
  "eng_config (clear_timers eng) = eng_config eng" "eng_limits (clear_timers eng) = eng_limits eng"
  "eng_last_accepted_at (clear_timers eng) = eng_last_accepted_at eng"
  "eng_pending_timers (clear_timers eng) = []" "eng_inputs (clear_timers eng) = eng_inputs eng"
  "eng_state (clear_timers eng) = eng_state eng"
  by (simp_all add: clear_timers_def)

subsection \<open>The automaton of a block's health\<close>

lemma admit_live_execution_cases:
  assumes "admit_live_execution now maximum b = (ok, b')"
  obtains (inactive) "lb_health b \<noteq> Active" "\<not> ok" "b' = b"
  | (exceeded) "lb_health b = Active" "\<not> ok"
      "maximum \<le> length (dropWhile (outside_window now) (lb_live_execution_times b))"
      "b' = b\<lparr>lb_live_execution_times := dropWhile (outside_window now) (lb_live_execution_times b),
        lb_health := SuspendedEventRate, lb_last_suspension := Some EventRate,
        lb_consecutive_failures := 0, lb_engine := clear_timers (lb_engine b)\<rparr>"
  | (admitted) "lb_health b = Active" "ok"
      "length (dropWhile (outside_window now) (lb_live_execution_times b)) < maximum"
      "b' = b\<lparr>lb_live_execution_times :=
        dropWhile (outside_window now) (lb_live_execution_times b) @ [now]\<rparr>"
  using assms
  by (auto simp: admit_live_execution_def prune_live_execution_window_def Let_def not_le
      split: if_splits)

lemma sorted_dropWhile: "sorted xs \<Longrightarrow> sorted (dropWhile p xs)"
  by (metis sorted_wrt_append takeWhile_dropWhile_id)

lemma admit_block_ok:
  assumes "block_ok limits (Some now) b"
    and "admit_live_execution now (max_live_executions_per_block_per_second limits) b = (ok, b')"
  shows "block_ok limits (Some now) b'" and "lb_config b' = lb_config b"
    and "eng_config (lb_engine b') = eng_config (lb_engine b)"
    and "ok \<Longrightarrow> lb_health b = Active \<and> lb_health b' = Active \<and> lb_engine b' = lb_engine b"
    and "\<not> ok \<Longrightarrow> lb_health b' \<noteq> Active"
proof -
  let ?kept = "dropWhile (outside_window now) (lb_live_execution_times b)"
  have kept: "length ?kept \<le> length (lb_live_execution_times b)"
    "set ?kept \<subseteq> set (lb_live_execution_times b)"
    using set_dropWhileD by (fastforce simp: length_dropWhile_le)+
  from assms(2) have "block_ok limits (Some now) b' \<and> lb_config b' = lb_config b
    \<and> eng_config (lb_engine b') = eng_config (lb_engine b)
    \<and> (ok \<longrightarrow> lb_health b = Active \<and> lb_health b' = Active \<and> lb_engine b' = lb_engine b)
    \<and> (\<not> ok \<longrightarrow> lb_health b' \<noteq> Active)"
  proof (cases rule: admit_live_execution_cases)
    case exceeded
    with assms(1) kept show ?thesis
      by (auto simp: block_ok_def engine_ok_clear_timers sorted_dropWhile)
  next
    case admitted
    with assms(1) kept show ?thesis
      by (auto simp: block_ok_def sorted_append sorted_dropWhile)
  qed (use assms(1) in auto)
  then show "block_ok limits (Some now) b'" and "lb_config b' = lb_config b"
    and "eng_config (lb_engine b') = eng_config (lb_engine b)"
    and "ok \<Longrightarrow> lb_health b = Active \<and> lb_health b' = Active \<and> lb_engine b' = lb_engine b"
    and "\<not> ok \<Longrightarrow> lb_health b' \<noteq> Active" by auto
qed

lemma saturating_add_below_threshold:
  assumes "n < block_failure_suspension_threshold"
  shows "saturating_add_word n 1 = n + 1"
proof -
  have "n < 5" using assms by (simp add: block_failure_suspension_threshold_def)
  then have "unat n < 5" by (simp add: word_less_nat_alt)
  then show ?thesis by (simp add: saturating_add_word_def)
qed

lemma failures_step:
  fixes n :: u32
  assumes "n < block_failure_suspension_threshold"
  shows "block_failure_suspension_threshold \<le> n + 1 \<longleftrightarrow> n + 1 = block_failure_suspension_threshold"
  using assms unfolding block_failure_suspension_threshold_def by unat_arith

text \<open>What an execution does to the health of an active block.\<close>

lemma record_live_execution_cases:
  assumes "lb_consecutive_failures b < block_failure_suspension_threshold"
  obtains (succeeded) "is_ok (ex_outcome ex)"
      "record_live_execution ex b = b\<lparr>lb_consecutive_failures := 0\<rparr>"
  | (uncounted) e where "ex_outcome ex = Inl e" "\<not> counts_as_failure (logic_error_kind_of e)"
      "record_live_execution ex b = b"
  | (counted) e where "ex_outcome ex = Inl e" "counts_as_failure (logic_error_kind_of e)"
      "lb_consecutive_failures b + 1 < block_failure_suspension_threshold"
      "record_live_execution ex b = b\<lparr>lb_consecutive_failures := lb_consecutive_failures b + 1\<rparr>"
  | (suspended) e where "ex_outcome ex = Inl e" "counts_as_failure (logic_error_kind_of e)"
      "lb_consecutive_failures b + 1 = block_failure_suspension_threshold"
      "record_live_execution ex b = b\<lparr>lb_consecutive_failures := block_failure_suspension_threshold,
         lb_health := SuspendedScriptFailures, lb_last_suspension := Some ScriptFailures,
         lb_live_execution_times := [], lb_engine := clear_timers (lb_engine b)\<rparr>"
proof (cases "ex_outcome ex")
  case (Inl e)
  note step = saturating_add_below_threshold [OF assms] failures_step [OF assms]
  show ?thesis
  proof (cases "counts_as_failure (logic_error_kind_of e)")
    case True
    with Inl step show ?thesis
      by (cases "lb_consecutive_failures b + 1 = block_failure_suspension_threshold")
        (auto intro: counted suspended simp: record_live_execution_def Let_def not_le [symmetric])
  qed (use Inl in \<open>auto intro: uncounted simp: record_live_execution_def\<close>)
qed (auto intro: succeeded simp: record_live_execution_def is_ok_def)

lemma record_block_ok:
  assumes "block_ok limits now b" and "lb_health b = Active"
  shows "block_ok limits now (record_live_execution ex b)"
    and "lb_config (record_live_execution ex b) = lb_config b"
proof -
  have below: "lb_consecutive_failures b < block_failure_suspension_threshold"
    using assms by (auto simp: block_ok_def)
  have "block_ok limits now (record_live_execution ex b)
    \<and> lb_config (record_live_execution ex b) = lb_config b"
    using below
  proof (cases rule: record_live_execution_cases [where ex = ex])
    case succeeded
    with assms show ?thesis
      by (auto simp: block_ok_def block_failure_suspension_threshold_def)
  next
    case (counted e)
    with assms show ?thesis by (auto simp: block_ok_def)
  next
    case (suspended e)
    with assms show ?thesis by (auto simp: block_ok_def engine_ok_clear_timers)
  qed (use assms in auto)
  then show "block_ok limits now (record_live_execution ex b)"
    and "lb_config (record_live_execution ex b) = lb_config b" by auto
qed

lemma reset_health_simps [simp]:
  "lb_config (reset_health b) = lb_config b" "lb_engine (reset_health b) = lb_engine b"
  "lb_health (reset_health b) = initial_health (lb_enabled b)"
  "lb_consecutive_failures (reset_health b) = 0" "lb_live_execution_times (reset_health b) = []"
  "lb_last_suspension (reset_health b) = None"
  by (simp_all add: reset_health_def)

lemma initial_health_ok [simp]: "health_ok (initial_health enabled) enabled 0 None"
  by (simp add: initial_health_def block_failure_suspension_threshold_def)

lemma initial_health_Active [simp]: "initial_health enabled = Active \<longleftrightarrow> enabled"
  by (simp add: initial_health_def)

lemma reset_block_ok:
  assumes "block_ok limits now b"
  shows "block_ok limits now (reset_health b)"
proof -
  have "lb_health b \<noteq> Active" if "\<not> lb_enabled b"
    using assms that active_enabled by blast
  with assms show ?thesis by (auto simp: block_ok_def)
qed

lemma set_enabled_simps [simp]:
  "lb_config (set_enabled enabled b) = (lb_config b)\<lparr>bc_enabled := enabled\<rparr>"
  "lb_engine (set_enabled enabled b) = (if enabled then lb_engine b else clear_timers (lb_engine b))"
  "lb_health (set_enabled enabled b) = initial_health enabled"
  "lb_consecutive_failures (set_enabled enabled b) = 0"
  "lb_live_execution_times (set_enabled enabled b) = []"
  "lb_last_suspension (set_enabled enabled b) = None"
  by (simp_all add: set_enabled_def Let_def)

lemma set_enabled_block_ok:
  "block_ok limits now b \<Longrightarrow> block_ok limits now (set_enabled enabled b)"
  by (auto simp: block_ok_def engine_ok_clear_timers)

subsection \<open>The engine of a block\<close>

lemma validate_input_complete:
  assumes "distinct (map ep_name (eng_endpoints eng))" and "e \<in> set (eng_endpoints eng)"
    and "ep_direction e = Input" and "tv_dpt v = ep_dpt e"
  shows "\<exists>i. validate_input eng (ep_name e) v = Inr i"
proof -
  obtain i where i: "i < length (eng_endpoints eng)" "eng_endpoints eng ! i = e"
    using assms(2) by (auto simp: in_set_conv_nth)
  with position_unique [OF assms(1)]
  have "position (\<lambda>x. ep_name x = ep_name e) (eng_endpoints eng) = Some i" by metis
  with i assms(3,4) show ?thesis by (simp add: validate_input_def validate_endpoint_def)
qed

lemma engine_observe_step:
  assumes "engine_ok eng" and "validate_input eng name v = Inr i"
    and "not_later (eng_last_accepted_at eng) (Some now)"
  shows "engine_observe env name v now eng = (Inr (), observed now i v eng)"
    and "engine_ok (observed now i v eng)"
proof -
  have time: "\<And>l. eng_last_accepted_at eng = Some l \<Longrightarrow> l \<le> now" using assms(3) by auto
  then have "accept_time now eng = (Inr (), eng\<lparr>eng_last_accepted_at := Some now\<rparr>)"
    by (auto simp: accept_time_def not_less split: option.splits)
  with assms(2) show "engine_observe env name v now eng = (Inr (), observed now i v eng)"
    by (simp add: engine_observe_def process_input_update_with_context_def observed_def)
  show "engine_ok (observed now i v eng)"
    using engine_ok_observe [OF assms(1) time] validate_input_ok [OF assms(2)]
    by (simp add: observed_def)
qed

lemma subseq_distinct: "subseq xs ys \<Longrightarrow> distinct ys \<Longrightarrow> distinct xs"
proof (induction rule: list_emb.induct)
  case (list_emb_Cons2 x y xs ys)
  then show ?case by (auto dest: list_emb_set)
qed auto

text \<open>What an execution of a block on a trigger yields.\<close>

definition runs_to :: "monotonic_ms \<Rightarrow> engine \<Rightarrow> execution \<Rightarrow> engine \<Rightarrow> bool" where
  "runs_to now eng ex eng' \<longleftrightarrow>
     engine_ok eng' \<and> eng_config eng' = eng_config eng \<and> eng_limits eng' = eng_limits eng
     \<and> not_later (eng_last_accepted_at eng') (Some now)
     \<and> (\<forall>tr. ex_outcome ex = Inr tr \<longrightarrow>
          distinct (map oe_endpoint (tr_outputs tr))
          \<and> (\<forall>eff \<in> set (tr_outputs tr). output_effect_ok (eng_endpoints eng) eff))"

lemma execute_and_commit_runs:
  assumes "engine_ok eng" and "execute_and_commit env trigger now site utc probe eng = (r, eng')"
    and "not_later (eng_last_accepted_at eng) (Some now)"
  obtains ex where "r = Inr ex" and "runs_to now eng ex eng'" and "ex_trigger ex = trigger"
proof (rule execute_and_commit_spec [OF assms(1,2)])
  fix ex
  assume r: "r = Inr ex" and ok: "engine_ok eng'" "eng_config eng' = eng_config eng"
      "eng_limits eng' = eng_limits eng" "eng_last_accepted_at eng' = eng_last_accepted_at eng"
    and trigger: "ex_trigger ex = trigger"
    and transition: "\<And>tr. ex_outcome ex = Inr tr \<Longrightarrow>
      transition_ok (eng_endpoints eng) (eng_state eng) (eng_pending_timers eng) now
        (eng_limits eng) tr
      \<and> merge_state_with_limits (eng_state eng) (tr_state tr) (eng_limits eng) = Inr (eng_state eng')
      \<and> eng_pending_timers eng' = apply_timer_effects (eng_pending_timers eng) (tr_timers tr) now
          (active_logic_revision eng)"
  have names: "distinct (map ep_name (filter (\<lambda>e. ep_direction e = Output) (eng_endpoints eng)))"
    using engine_okD(1) [OF assms(1)] by (simp add: engine_config_wf_def distinct_map_filter)
  have "runs_to now eng ex eng'"
    unfolding runs_to_def
    using ok assms(3) transition subseq_distinct [OF _ names] by (auto simp: transition_ok_def)
  with r trigger that show thesis by blast
qed

lemma runs_to_observed: "runs_to now (observed now i v eng) ex eng' \<longleftrightarrow> runs_to now eng ex eng'"
  by (simp add: runs_to_def)

lemma engine_trigger_step:
  assumes "engine_ok eng" and "validate_input eng name v = Inr i"
    and "not_later (eng_last_accepted_at eng) (Some now)"
  shows "\<exists>ex eng'. engine_trigger env name v now site utc probe eng = (Inr ex, eng')
    \<and> runs_to now eng ex eng'"
proof -
  have accept: "accept_time now eng = (Inr (), eng\<lparr>eng_last_accepted_at := Some now\<rparr>)"
    using assms(3) by (auto simp: accept_time_def not_less split: option.splits)
  obtain r eng' where run: "execute_and_commit env
      (TrigInput (make_input_trigger name v (in_value (eng_inputs eng ! i)))) now site utc probe
      (observed now i v eng) = (r, eng')" by fastforce
  show ?thesis
  proof (rule execute_and_commit_runs [OF engine_observe_step(2) [OF assms] run])
    show "not_later (eng_last_accepted_at (observed now i v eng)) (Some now)" by simp
    fix ex assume "r = Inr ex" "runs_to now (observed now i v eng) ex eng'"
    with accept assms(2) run show ?thesis
      by (auto simp: engine_trigger_def process_input_update_with_context_def observed_def Let_def
          runs_to_observed [unfolded observed_def])
  qed
qed

lemma block_ok_engine:
  assumes "block_ok limits now b" and "engine_ok eng" and "eng_config eng = eng_config (lb_engine b)"
    and "eng_limits eng = eng_limits (lb_engine b)" and "not_later (eng_last_accepted_at eng) now"
    and "lb_health b \<noteq> Active \<Longrightarrow> eng_pending_timers eng = []"
  shows "block_ok limits now (b\<lparr>lb_engine := eng\<rparr>)"
  using assms by (simp add: block_ok_def)

lemma block_ok_observed:
  assumes "block_ok limits (Some now) b" and "validate_input (lb_engine b) name v = Inr i"
  shows "block_ok limits (Some now) (b\<lparr>lb_engine := observed now i v (lb_engine b)\<rparr>)"
  using engine_observe_step(2) [OF block_okD(1) [OF assms(1)] assms(2) block_okD(5) [OF assms(1)]]
    assms(1) block_okD(7) [OF assms(1)]
  by (intro block_ok_engine) auto

lemma block_ok_runs:
  assumes "block_ok limits (Some now) b" and "lb_health b = Active"
    and "runs_to now (lb_engine b) ex eng"
  shows "block_ok limits (Some now) (b\<lparr>lb_engine := eng\<rparr>)"
  using assms by (intro block_ok_engine) (auto simp: runs_to_def)

subsection \<open>The runtime and the configuration it realises\<close>

text \<open>
  A runtime keeps the identities, endpoints, schedules and bindings of its configuration;
  activation changes only sources and enablement.
\<close>

definition block_skeleton :: "block_config \<Rightarrow> block_config" where
  "block_skeleton c = c\<lparr>bc_enabled := False, bc_logic := logic_program_new []\<rparr>"

lemma block_skeleton_eqD:
  assumes "block_skeleton c = block_skeleton d"
  shows "bc_id c = bc_id d" and "bc_endpoints c = bc_endpoints d"
    and "bc_schedules c = bc_schedules d" and "bc_signal_bindings c = bc_signal_bindings d"
  using assms by (cases c; cases d; simp add: block_skeleton_def)+

lemma block_skeleton_updates [simp]:
  "block_skeleton (c\<lparr>bc_enabled := enabled\<rparr>) = block_skeleton c"
  "block_skeleton (c\<lparr>bc_logic := program\<rparr>) = block_skeleton c"
  by (simp_all add: block_skeleton_def)

definition consumers_of :: "runtime_config \<Rightarrow> signal_name \<Rightarrow> signal_endpoint_id list" where
  "consumers_of config s =
     map binding_identity
       (filter (\<lambda>bb. consumes bb \<and> sb_signal (snd bb) = s) (bindings_of (rc_blocks config)))"

definition producer_of :: "runtime_config \<Rightarrow> signal_name \<Rightarrow> signal_endpoint_id option" where
  "producer_of config s =
     map_option binding_identity
       (find (\<lambda>bb. publishes bb \<and> sb_signal (snd bb) = s) (bindings_of (rc_blocks config)))"

definition realises :: "runtime_config \<Rightarrow> runtime_limits \<Rightarrow> runtime \<Rightarrow> bool" where
  "realises config limits rt \<longleftrightarrow>
     rt_limits rt = limits
     \<and> rt_site rt = rc_site config
     \<and> map (\<lambda>b. block_skeleton (lb_config b)) (rt_blocks rt)
         = map block_skeleton (rc_blocks config)
     \<and> map sg_config (rt_signals rt) = rc_signals config
     \<and> rt_signal_indexes rt = index_signals (rc_signals config)
     \<and> map sg_consumers (rt_signals rt) =
         map (\<lambda>s. consumers_of config (sgc_name s)) (rc_signals config)
     \<and> map sg_producer (rt_signals rt) =
         map (\<lambda>s. producer_of config (sgc_name s)) (rc_signals config)"

definition runtime_inv ::
  "runtime_config \<Rightarrow> runtime_limits \<Rightarrow> monotonic_ms option \<Rightarrow> runtime \<Rightarrow> bool" where
  "runtime_inv config limits now rt \<longleftrightarrow>
     realises config limits rt
     \<and> (\<forall>b \<in> set (rt_blocks rt). block_ok limits now b)
     \<and> (\<forall>g \<in> set (rt_signals rt). \<forall>v.
          sg_value g = Some v \<longrightarrow> tv_dpt v = sgc_dpt (sg_config g))"

definition runtime_ok :: "runtime_config \<Rightarrow> runtime_limits \<Rightarrow> runtime \<Rightarrow> bool" where
  "runtime_ok config limits rt \<longleftrightarrow> runtime_inv config limits (rt_last_accepted_at rt) rt"

lemma runtime_invD:
  assumes "runtime_inv config limits now rt"
  shows "realises config limits rt" and "rt_limits rt = limits"
    and "\<And>i. i < length (rt_blocks rt) \<Longrightarrow> block_ok limits now (rt_blocks rt ! i)"
    and "\<And>b. b \<in> set (rt_blocks rt) \<Longrightarrow> block_ok limits now b"
  using assms by (auto simp: runtime_inv_def realises_def)

lemma runtime_inv_later:
  "runtime_inv config limits s rt \<Longrightarrow> not_later s t \<Longrightarrow> runtime_inv config limits t rt"
  unfolding runtime_inv_def using block_ok_later by blast

lemma runtime_inv_accepted [simp]:
  "runtime_inv config limits t (accepted now rt) = runtime_inv config limits t rt"
  by (simp add: runtime_inv_def realises_def accepted_def)

lemma runtime_inv_schedules [simp]:
  "runtime_inv config limits t (rt\<lparr>rt_schedule_cursors := cursors\<rparr>) = runtime_inv config limits t rt"
  "runtime_inv config limits t (rt\<lparr>rt_schedule_structural_revision := revision\<rparr>)
     = runtime_inv config limits t rt"
  "runtime_inv config limits t (rt\<lparr>rt_last_schedule_wall_clock_utc_ms := clock\<rparr>)
     = runtime_inv config limits t rt"
  "runtime_inv config limits t (rt\<lparr>rt_next_execution_id := n\<rparr>) = runtime_inv config limits t rt"
  by (simp_all add: runtime_inv_def realises_def)

text \<open>Changing one block.\<close>

lemma set_block_inv:
  assumes "runtime_inv config limits now rt" and "i < length (rt_blocks rt)"
    and "block_ok limits now b"
    and "block_skeleton (lb_config b) = block_skeleton (lb_config (rt_blocks rt ! i))"
  shows "runtime_inv config limits now (set_block i b rt)"
proof -
  have "map (\<lambda>b. block_skeleton (lb_config b)) ((rt_blocks rt)[i := b])
    = map (\<lambda>b. block_skeleton (lb_config b)) (rt_blocks rt)"
    using assms(2,4) by (simp add: map_update list_update_same_conv)
  then show ?thesis
    using assms(1,3) set_update_subset_insert [of "rt_blocks rt" i b]
    by (auto simp: runtime_inv_def realises_def set_block_def)
qed

lemma set_block_simps [simp]:
  "rt_last_accepted_at (set_block i b rt) = rt_last_accepted_at rt"
  "rt_limits (set_block i b rt) = rt_limits rt" "rt_site (set_block i b rt) = rt_site rt"
  "rt_blocks (set_block i b rt) = (rt_blocks rt)[i := b]"
  "rt_signals (set_block i b rt) = rt_signals rt"
  "rt_signal_indexes (set_block i b rt) = rt_signal_indexes rt"
  "rt_schedule_cursors (set_block i b rt) = rt_schedule_cursors rt"
  "rt_next_execution_id (set_block i b rt) = rt_next_execution_id rt"
  "rt_schedule_structural_revision (set_block i b rt) = rt_schedule_structural_revision rt"
  "rt_last_schedule_wall_clock_utc_ms (set_block i b rt) = rt_last_schedule_wall_clock_utc_ms rt"
  by (simp_all add: set_block_def)

lemma accepted_simps [simp]:
  "rt_last_accepted_at (accepted now rt) = Some now" "rt_limits (accepted now rt) = rt_limits rt"
  "rt_site (accepted now rt) = rt_site rt" "rt_blocks (accepted now rt) = rt_blocks rt"
  "rt_signals (accepted now rt) = rt_signals rt"
  "rt_signal_indexes (accepted now rt) = rt_signal_indexes rt"
  "rt_schedule_cursors (accepted now rt) = rt_schedule_cursors rt"
  "rt_next_execution_id (accepted now rt) = rt_next_execution_id rt"
  by (simp_all add: accepted_def)

end
