(* ===== verification/Runtime_Operations.thy ===== *)
theory Runtime_Operations
  imports Runtime_Invariants
begin

text \<open>
  The single-block operations of the runtime keep its invariant, fail only by rejecting the event,
  and never panic.  An execution they return fits the configuration.
\<close>

subsection \<open>Blocks by identity\<close>

lemma realises_block:
  assumes "realises config limits rt" and "i < length (rt_blocks rt)"
  shows "i < length (rc_blocks config)"
    and "lb_id (rt_blocks rt ! i) = bc_id (rc_blocks config ! i)"
    and "bc_endpoints (lb_config (rt_blocks rt ! i)) = bc_endpoints (rc_blocks config ! i)"
    and "bc_signal_bindings (lb_config (rt_blocks rt ! i)) = bc_signal_bindings (rc_blocks config ! i)"
    and "bc_schedules (lb_config (rt_blocks rt ! i)) = bc_schedules (rc_blocks config ! i)"
proof -
  have eq: "map (\<lambda>b. block_skeleton (lb_config b)) (rt_blocks rt)
      = map block_skeleton (rc_blocks config)"
    using assms(1) by (simp add: realises_def)
  show i: "i < length (rc_blocks config)" using assms(2) map_eq_imp_length_eq [OF eq] by simp
  have "block_skeleton (lb_config (rt_blocks rt ! i)) = block_skeleton (rc_blocks config ! i)"
    using arg_cong [OF eq, of "\<lambda>xs. xs ! i"] assms(2) i by simp
  from block_skeleton_eqD [OF this]
  show "lb_id (rt_blocks rt ! i) = bc_id (rc_blocks config ! i)"
    and "bc_endpoints (lb_config (rt_blocks rt ! i)) = bc_endpoints (rc_blocks config ! i)"
    and "bc_signal_bindings (lb_config (rt_blocks rt ! i)) = bc_signal_bindings (rc_blocks config ! i)"
    and "bc_schedules (lb_config (rt_blocks rt ! i)) = bc_schedules (rc_blocks config ! i)"
    by simp_all
qed

lemma realises_length: "realises config limits rt \<Longrightarrow> length (rt_blocks rt) = length (rc_blocks config)"
  unfolding realises_def by (metis length_map)

lemma realises_ids: "realises config limits rt \<Longrightarrow> map lb_id (rt_blocks rt) = map bc_id (rc_blocks config)"
  by (intro nth_equalityI) (simp_all add: realises_length realises_block(2))

lemma block_index_cases:
  obtains (unknown) "block_index rt x = Inl (RtUnknownBlock x)"
  | (found) i where "block_index rt x = Inr i" "i < length (rt_blocks rt)"
      "lb_id (rt_blocks rt ! i) = x"
proof (cases "position (\<lambda>b. lb_id b = x) (rt_blocks rt)")
  case None
  then show ?thesis using unknown by (simp add: block_index_def ok_or_def)
next
  case (Some i)
  then show ?thesis using found position_SomeD [OF Some] by (simp add: block_index_def ok_or_def)
qed

lemma find_as_position: "find p xs = map_option ((!) xs) (position p xs)"
  by (induction xs) (auto simp: option.map_comp comp_def)

lemma find_block_position:
  "find_block rt x = map_option ((!) (rt_blocks rt)) (position (\<lambda>b. lb_id b = x) (rt_blocks rt))"
  by (simp add: find_block_def find_as_position)

subsection \<open>Steps on one block\<close>

text \<open>The blocks that may run.\<close>

definition runnable_ids :: "runtime \<Rightarrow> block_id set" where
  "runnable_ids rt = lb_id ` {b \<in> set (rt_blocks rt). block_runnable b}"

lemma runnable_ids_set_block:
  assumes "i < length (rt_blocks rt)" and "lb_id b = lb_id (rt_blocks rt ! i)"
    and "block_runnable b \<Longrightarrow> block_runnable (rt_blocks rt ! i)"
  shows "runnable_ids (set_block i b rt) \<subseteq> runnable_ids rt"
proof
  fix x
  assume "x \<in> runnable_ids (set_block i b rt)"
  then obtain c where c: "c \<in> set ((rt_blocks rt)[i := b])" "block_runnable c" "lb_id c = x"
    by (auto simp: runnable_ids_def)
  then have "c = b \<or> c \<in> set (rt_blocks rt)" using set_update_subset_insert by fast
  with c assms show "x \<in> runnable_ids rt"
    unfolding runnable_ids_def by (metis (mono_tags, lifting) imageI mem_Collect_eq nth_mem)
qed

lemma runnable_idsI:
  "i < length (rt_blocks rt) \<Longrightarrow> block_runnable (rt_blocks rt ! i) \<Longrightarrow>
   lb_id (rt_blocks rt ! i) \<in> runnable_ids rt"
  by (auto simp: runnable_ids_def)

lemma runnable_ids_cong: "rt_blocks rt = rt_blocks rt' \<Longrightarrow> runnable_ids rt = runnable_ids rt'"
  by (simp add: runnable_ids_def)

lemma runnable_ids_accepted [simp]: "runnable_ids (accepted now rt) = runnable_ids rt"
  by (rule runnable_ids_cong) simp

lemma runnable_ids_engine:
  "i < length (rt_blocks rt) \<Longrightarrow> runnable_ids (set_engine i eng rt) \<subseteq> runnable_ids rt"
  unfolding set_engine_def by (rule runnable_ids_set_block) (simp_all add: block_runnable_def)

lemma set_engine_inv:
  assumes "runtime_inv config limits now rt" and "i < length (rt_blocks rt)"
    and "block_ok limits now ((rt_blocks rt ! i)\<lparr>lb_engine := eng\<rparr>)"
  shows "runtime_inv config limits now (set_engine i eng rt)"
  unfolding set_engine_def using assms by (intro set_block_inv) simp_all

lemma set_engine_simps [simp]:
  "rt_last_accepted_at (set_engine i eng rt) = rt_last_accepted_at rt"
  "rt_limits (set_engine i eng rt) = rt_limits rt"
  "rt_site (set_engine i eng rt) = rt_site rt"
  "rt_blocks (set_engine i eng rt) = (rt_blocks rt)[i := (rt_blocks rt ! i)\<lparr>lb_engine := eng\<rparr>]"
  "rt_signals (set_engine i eng rt) = rt_signals rt"
  "rt_signal_indexes (set_engine i eng rt) = rt_signal_indexes rt"
  "rt_schedule_cursors (set_engine i eng rt) = rt_schedule_cursors rt"
  "rt_next_execution_id (set_engine i eng rt) = rt_next_execution_id rt"
  by (simp_all add: set_engine_def)

lemma observe_at_step:
  assumes "runtime_inv config limits (Some now) rt" and "i < length (rt_blocks rt)"
    and "validate_input (lb_engine (rt_blocks rt ! i)) name v = Inr k"
  shows "observe_at env i name v now rt =
      (Inr (), set_engine i (observed now k v (lb_engine (rt_blocks rt ! i))) rt)"
    and "runtime_inv config limits (Some now)
      (set_engine i (observed now k v (lb_engine (rt_blocks rt ! i))) rt)"
proof -
  have ok: "block_ok limits (Some now) (rt_blocks rt ! i)"
    using runtime_invD(3) [OF assms(1,2)] .
  show "observe_at env i name v now rt =
      (Inr (), set_engine i (observed now k v (lb_engine (rt_blocks rt ! i))) rt)"
    using engine_observe_step(1) [OF block_okD(1) [OF ok] assms(3) block_okD(5) [OF ok]]
    by (simp add: observe_at_def)
  show "runtime_inv config limits (Some now)
      (set_engine i (observed now k v (lb_engine (rt_blocks rt ! i))) rt)"
    using assms(1,2) block_ok_observed [OF ok assms(3)] by (rule set_engine_inv)
qed

lemma admit_at_step:
  assumes "runtime_inv config limits (Some now) rt" and "i < length (rt_blocks rt)"
    and "admit_at i now rt = (ok, rt')"
  shows "runtime_inv config limits (Some now) rt'"
    and "\<exists>b. rt' = set_block i b rt \<and> lb_config b = lb_config (rt_blocks rt ! i)
      \<and> eng_config (lb_engine b) = eng_config (lb_engine (rt_blocks rt ! i))
      \<and> (ok \<longrightarrow> lb_health (rt_blocks rt ! i) = Active \<and> lb_health b = Active
           \<and> lb_engine b = lb_engine (rt_blocks rt ! i))
      \<and> (\<not> ok \<longrightarrow> lb_health b \<noteq> Active)"
proof -
  obtain b where b: "admit_live_execution now (max_live_executions_per_block_per_second limits)
      (rt_blocks rt ! i) = (ok, b)" and rt': "rt' = set_block i b rt"
    using assms(3) runtime_invD(2) [OF assms(1)] by (auto simp: admit_at_def split: prod.splits)
  note step = admit_block_ok [OF runtime_invD(3) [OF assms(1,2)] b]
  show "runtime_inv config limits (Some now) rt'"
    unfolding rt' using assms(1,2) step(1,2) by (intro set_block_inv) simp_all
  show "\<exists>b. rt' = set_block i b rt \<and> lb_config b = lb_config (rt_blocks rt ! i)
      \<and> eng_config (lb_engine b) = eng_config (lb_engine (rt_blocks rt ! i))
      \<and> (ok \<longrightarrow> lb_health (rt_blocks rt ! i) = Active \<and> lb_health b = Active
           \<and> lb_engine b = lb_engine (rt_blocks rt ! i))
      \<and> (\<not> ok \<longrightarrow> lb_health b \<noteq> Active)"
    using rt' step(2-5) by blast
qed

definition execution_fits :: "runtime_config \<Rightarrow> block_execution \<Rightarrow> bool" where
  "execution_fits config bx \<longleftrightarrow>
     (\<exists>c \<in> set (rc_blocks config). bx_block_id bx = bc_id c
        \<and> (\<forall>tr. ex_outcome (bx_execution bx) = Inr tr \<longrightarrow>
             distinct (map oe_endpoint (tr_outputs tr))
             \<and> (\<forall>eff \<in> set (tr_outputs tr). output_effect_ok (bc_endpoints c) eff)))"

lemma finish_execution_eq:
  "finish_execution i ex causal rt =
     (\<lparr>bx_block_id = lb_id (record_live_execution ex (rt_blocks rt ! i)),
       bx_execution = ex\<lparr>ex_id := Some (rt_next_execution_id rt), ex_causal_producer := causal\<rparr>\<rparr>,
      (set_block i (record_live_execution ex (rt_blocks rt ! i)) rt)
        \<lparr>rt_next_execution_id := saturating_add_word (rt_next_execution_id rt) 1\<rparr>)"
  if "i < length (rt_blocks rt)"
  using that by (simp add: finish_execution_def assign_execution_id_def Let_def)

text \<open>An execution of an active block, recorded.\<close>

lemma finish_run:
  assumes inv: "runtime_inv config limits (Some now) rt" and i: "i < length (rt_blocks rt)"
    and active: "lb_health (rt_blocks rt ! i) = Active"
    and run: "runs_to now (lb_engine (rt_blocks rt ! i)) ex eng"
    and finish: "finish_execution i ex causal (set_engine i eng rt) = (bx, rt')"
  shows "runtime_inv config limits (Some now) rt'" and "execution_fits config bx"
    and "bx_block_id bx = lb_id (rt_blocks rt ! i)"
    and "rt_last_accepted_at rt' = rt_last_accepted_at rt"
    and "bx_execution bx =
      ex\<lparr>ex_id := Some (rt_next_execution_id rt), ex_causal_producer := causal\<rparr>"
    and "rt_next_execution_id rt' = saturating_add_word (rt_next_execution_id rt) 1"
    and "rt_signals rt' = rt_signals rt" and "rt_schedule_cursors rt' = rt_schedule_cursors rt"
    and "runnable_ids rt' \<subseteq> runnable_ids rt"
proof -
  let ?b = "(rt_blocks rt ! i)\<lparr>lb_engine := eng\<rparr>"
  have ok: "block_ok limits (Some now) ?b"
    using block_ok_runs [OF runtime_invD(3) [OF inv i] active run] .
  have eng: "runtime_inv config limits (Some now) (set_engine i eng rt)"
    using set_engine_inv [OF inv i ok] .
  note recorded = record_block_ok [OF ok, of ex, simplified, OF active]
  have result: "bx = \<lparr>bx_block_id = lb_id (rt_blocks rt ! i),
      bx_execution = ex\<lparr>ex_id := Some (rt_next_execution_id rt), ex_causal_producer := causal\<rparr>\<rparr>"
    "rt' = (set_block i (record_live_execution ex ?b) (set_engine i eng rt))
       \<lparr>rt_next_execution_id := saturating_add_word (rt_next_execution_id rt) 1\<rparr>"
    using finish i recorded(2) by (simp_all add: finish_execution_eq)
  show "runtime_inv config limits (Some now) rt'"
    unfolding result(2) runtime_inv_schedules using i recorded
    by (intro set_block_inv [OF eng]) simp_all
  have "rc_blocks config ! i \<in> set (rc_blocks config)"
    using realises_block(1) [OF runtime_invD(1) [OF inv] i] by simp
  moreover have "eng_endpoints (lb_engine (rt_blocks rt ! i)) = bc_endpoints (rc_blocks config ! i)"
    using block_okD(3) [OF runtime_invD(3) [OF inv i]] realises_block(3) [OF runtime_invD(1) [OF inv] i]
    by simp
  ultimately show "execution_fits config bx"
    using run realises_block(2) [OF runtime_invD(1) [OF inv] i]
    by (auto simp: execution_fits_def result(1) runs_to_def)
  show "bx_block_id bx = lb_id (rt_blocks rt ! i)"
    and "rt_last_accepted_at rt' = rt_last_accepted_at rt"
    and "bx_execution bx =
      ex\<lparr>ex_id := Some (rt_next_execution_id rt), ex_causal_producer := causal\<rparr>"
    and "rt_next_execution_id rt' = saturating_add_word (rt_next_execution_id rt) 1"
    and "rt_signals rt' = rt_signals rt" and "rt_schedule_cursors rt' = rt_schedule_cursors rt"
    by (simp_all add: result)
  have "runnable_ids rt' = runnable_ids (set_block i (record_live_execution ex ?b) (set_engine i eng rt))"
    by (rule runnable_ids_cong) (simp add: result(2))
  also have "\<dots> \<subseteq> runnable_ids (set_engine i eng rt)"
    using i active recorded(2) block_ok_runnable [OF runtime_invD(3) [OF inv i]]
    by (intro runnable_ids_set_block) (simp_all add: block_runnable_def)
  also have "\<dots> \<subseteq> runnable_ids rt" using i by (rule runnable_ids_engine)
  finally show "runnable_ids rt' \<subseteq> runnable_ids rt" .
qed

subsection \<open>Events\<close>

text \<open>How an event may be turned down: its address, its value or its time.\<close>

fun rejection :: "runtime_event_error \<Rightarrow> bool" where
  "rejection (RtUnknownBlock _) = True"
| "rejection (RtBlock _ (UnknownEndpoint _)) = True"
| "rejection (RtBlock _ (EndpointNotInput _ _)) = True"
| "rejection (RtBlock _ (EventDptMismatch _ _ _)) = True"
| "rejection (RtTimeWentBackwards _ _ _) = True"
| "rejection _ = False"

definition event_ok ::
  "runtime_config \<Rightarrow> runtime_limits \<Rightarrow> monotonic_ms \<Rightarrow> runtime
     \<Rightarrow> (runtime_event_error + block_execution option) \<times> runtime \<Rightarrow> bool" where
  "event_ok config limits now rt result \<longleftrightarrow>
     (case fst result of
        Inl e \<Rightarrow> rejection e \<and> snd result = rt
      | Inr x \<Rightarrow>
          runtime_inv config limits (Some now) (snd result)
          \<and> rt_last_accepted_at (snd result) = Some now
          \<and> runnable_ids (snd result) \<subseteq> runnable_ids rt
          \<and> (case x of
                None \<Rightarrow> rt_next_execution_id (snd result) = rt_next_execution_id rt
              | Some bx \<Rightarrow> execution_fits config bx \<and> bx_block_id bx \<in> runnable_ids rt
                  \<and> ex_id (bx_execution bx) = Some (rt_next_execution_id rt)
                  \<and> ex_causal_producer (bx_execution bx) = None
                  \<and> rt_next_execution_id (snd result)
                       = saturating_add_word (rt_next_execution_id rt) 1))"

lemma ensure_time_cases:
  obtains (rejected) previous where "rt_last_accepted_at rt = Some previous" "now < previous"
      "ensure_time rt x now = Inl (RtTimeWentBackwards x previous now)"
  | (accepted) "not_later (rt_last_accepted_at rt) (Some now)" "ensure_time rt x now = Inr ()"
proof (cases "rt_last_accepted_at rt")
  case None
  then show ?thesis using accepted by (simp add: ensure_time_def)
next
  case (Some previous)
  then show ?thesis
    using rejected [OF Some] accepted by (cases "now < previous") (simp_all add: ensure_time_def not_less)
qed

lemma validate_input_error:
  "validate_input eng name v = Inl e \<Longrightarrow> rejection (RtBlock x e)"
  by (auto simp: validate_input_def validate_endpoint_def result_simps Let_def
      split: option.splits if_splits)

lemma validate_input_cong:
  "eng_config eng = eng_config eng' \<Longrightarrow> validate_input eng name v = validate_input eng' name v"
  unfolding validate_input_def validate_endpoint_def by (erule ssubst) (rule refl)

lemma validate_endpoint_error:
  "validate_endpoint eng name = Inl e \<Longrightarrow> rejection (RtBlock x e)"
  by (auto simp: validate_endpoint_def split: option.splits if_splits)

text \<open>The two ways in which an admitted event runs and an event that is not admitted is observed.\<close>

lemma observed_event_ok:
  assumes "runtime_inv config limits (Some now) rt" and "i < length (rt_blocks rt)"
    and "validate_input (lb_engine (rt_blocks rt ! i)) name v = Inr k"
    and "rt_next_execution_id rt = rt_next_execution_id rt0"
    and "runnable_ids rt \<subseteq> runnable_ids rt0"
  shows "\<exists>rt'. observe_at env i name v now rt = (Inr (), rt')
    \<and> event_ok config limits now rt0 (Inr None, accepted now rt')"
  using observe_at_step [OF assms(1-3)] assms(4,5) runnable_ids_engine [OF assms(2)]
  by (fastforce simp: event_ok_def)

lemma run_event_ok:
  assumes "runtime_inv config limits (Some now) rt" and "i < length (rt_blocks rt)"
    and "lb_health (rt_blocks rt ! i) = Active"
    and "runs_to now (lb_engine (rt_blocks rt ! i)) ex eng"
    and "rt_next_execution_id rt = rt_next_execution_id rt0"
    and "runnable_ids rt \<subseteq> runnable_ids rt0"
  shows "\<exists>bx rt'. finish_execution i ex None (set_engine i eng rt) = (bx, rt')
    \<and> event_ok config limits now rt0 (Inr (Some bx), accepted now rt')"
proof -
  obtain bx rt' where f: "finish_execution i ex None (set_engine i eng rt) = (bx, rt')" by fastforce
  have "lb_id (rt_blocks rt ! i) \<in> runnable_ids rt"
    using runnable_idsI [OF assms(2)] block_ok_runnable [OF runtime_invD(3) [OF assms(1,2)]] assms(3)
    by simp
  with finish_run [OF assms(1-4) f] f assms(5,6) show ?thesis by (auto simp: event_ok_def)
qed

text \<open>The common guards: the block exists, the update fits its endpoint, time does not go back.\<close>

lemma guards_cases:
  assumes "(case result_bind (block_index rt x) (\<lambda>index.
             result_bind (map_err (RtBlock x) (validate (lb_engine (rt_blocks rt ! index)))) (\<lambda>_.
             result_bind (ensure_time rt (Some x) now) (\<lambda>_. Inr index))) of
        Inl err \<Rightarrow> (Inl err, rt)
      | Inr index \<Rightarrow> cont index) = result"
    and "\<And>eng e. validate eng = Inl e \<Longrightarrow> rejection (RtBlock x e)"
  obtains (refused) err where "result = (Inl err, rt)" "rejection err"
  | (admitted) i k where "result = cont i" "i < length (rt_blocks rt)"
      "lb_id (rt_blocks rt ! i) = x" "validate (lb_engine (rt_blocks rt ! i)) = Inr k"
      "not_later (rt_last_accepted_at rt) (Some now)"
proof (cases rule: block_index_cases [of rt x])
  case unknown
  then show ?thesis using assms(1) refused [of "RtUnknownBlock x"] by (simp add: result_bind_def)
next
  case (found i)
  show ?thesis
  proof (cases "validate (lb_engine (rt_blocks rt ! i))")
    case (Inl e)
    then show ?thesis
      using found assms refused by (auto simp: result_bind_def map_err_def)
  next
    case (Inr k)
    show ?thesis
    proof (cases rule: ensure_time_cases [of rt now "Some x"])
      case (rejected previous)
      then show ?thesis
        using found Inr assms(1) refused by (auto simp: result_bind_def map_err_def)
    next
      case accepted
      then show ?thesis
        using found Inr assms(1) admitted by (auto simp: result_bind_def map_err_def)
    qed
  qed
qed

lemma runtime_ok_now:
  "runtime_ok config limits rt \<Longrightarrow> not_later (rt_last_accepted_at rt) (Some now) \<Longrightarrow>
   runtime_inv config limits (Some now) rt"
  unfolding runtime_ok_def by (rule runtime_inv_later)

lemma event_okD:
  assumes "event_ok config limits now rt (r, rt')"
  shows "r = Inl e \<Longrightarrow> rejection e \<and> rt' = rt"
    and "r = Inr bx \<Longrightarrow> runtime_inv config limits (Some now) rt' \<and> rt_last_accepted_at rt' = Some now"
    and "r = Inr (Some x) \<Longrightarrow> execution_fits config x"
  using assms by (auto simp: event_ok_def split: option.splits)

lemma event_ok_runtime:
  assumes "event_ok config limits now rt (r, rt')" and "runtime_ok config limits rt"
  shows "runtime_ok config limits rt'"
  using assms by (cases r) (auto simp: event_ok_def runtime_ok_def)

lemma process_input_at_ok:
  assumes "runtime_ok config limits rt"
  shows "event_ok config limits now rt (process_input_at env x name v now site utc probe rt)"
proof (rule guards_cases [OF process_input_at_def [symmetric]])
  fix eng e assume "validate_input eng name v = Inl e"
  then show "rejection (RtBlock x e)" by (rule validate_input_error)
next
  fix err
  assume "process_input_at env x name v now site utc probe rt = (Inl err, rt)" "rejection err"
  then show ?thesis by (simp add: event_ok_def)
next
  fix i k
  let ?b = "rt_blocks rt ! i"
  assume eq: "process_input_at env x name v now site utc probe rt =
      (case (if \<not> lb_enabled ?b \<or> lb_health ?b \<noteq> Active then (False, rt) else admit_at i now rt) of
             (False, rt) \<Rightarrow>
               (case observe_at env i name v now rt of
                  (Inl err, rt) \<Rightarrow> (Inl err, rt)
                | (Inr _, rt) \<Rightarrow> (Inr None, accepted now rt))
           | (True, rt) \<Rightarrow>
               (case engine_trigger env name v now site utc probe (lb_engine (rt_blocks rt ! i)) of
                  (Inl err, eng) \<Rightarrow> (Inl (RtBlock x err), set_engine i eng rt)
                | (Inr ex, eng) \<Rightarrow>
                    (case finish_execution i ex None (set_engine i eng rt) of
                       (bx, rt) \<Rightarrow> (Inr (Some bx), accepted now rt))))"
    and i: "i < length (rt_blocks rt)" and valid: "validate_input (lb_engine ?b) name v = Inr k"
    and time: "not_later (rt_last_accepted_at rt) (Some now)"
  note inv = runtime_ok_now [OF assms time]
  show ?thesis
  proof (cases "lb_enabled ?b \<and> lb_health ?b = Active")
    case False
    with eq observed_event_ok [OF inv i valid refl subset_refl, of env] show ?thesis by auto
  next
    case True
    obtain ok rt' where a: "admit_at i now rt = (ok, rt')" by fastforce
    note inv' = admit_at_step(1) [OF inv i a]
    obtain b where b: "rt' = set_block i b rt" "lb_config b = lb_config ?b"
      "eng_config (lb_engine b) = eng_config (lb_engine ?b)"
      "ok \<longrightarrow> lb_health ?b = Active \<and> lb_health b = Active \<and> lb_engine b = lb_engine ?b"
      using admit_at_step(2) [OF inv i a] by blast
    have i': "i < length (rt_blocks rt')" and nth: "rt_blocks rt' ! i = b" using i b(1) by simp_all
    have next_id: "rt_next_execution_id rt' = rt_next_execution_id rt" using b(1) by simp
    have runnable: "runnable_ids rt' \<subseteq> runnable_ids rt"
      unfolding b(1) using i b(2) True by (intro runnable_ids_set_block) (simp_all add: block_runnable_def)
    have valid': "validate_input (lb_engine (rt_blocks rt' ! i)) name v = Inr k"
      unfolding nth using valid validate_input_cong [OF b(3)] by simp
    show ?thesis
    proof (cases ok)
      case False
      with eq True a observed_event_ok [OF inv' i' valid', of rt env] next_id runnable show ?thesis by auto
    next
      case ok: True
      have engine: "lb_health (rt_blocks rt' ! i) = Active"
        "lb_engine (rt_blocks rt' ! i) = lb_engine ?b" using nth b(4) ok by simp_all
      have block: "block_ok limits (Some now) ?b" using runtime_invD(3) [OF inv i] .
      obtain ex eng where run: "engine_trigger env name v now site utc probe (lb_engine ?b) = (Inr ex, eng)"
        "runs_to now (lb_engine ?b) ex eng"
        using engine_trigger_step [OF block_okD(1) [OF block] valid block_okD(5) [OF block]] by blast
      from run_event_ok [OF inv' i' engine(1), of ex eng rt] run(2) engine(2) next_id runnable
      obtain bx rt2 where "finish_execution i ex None (set_engine i eng rt') = (bx, rt2)"
        "event_ok config limits now rt (Inr (Some bx), accepted now rt2)" by auto
      then show ?thesis using eq True a ok run(1) engine(2) by simp
    qed
  qed
qed

lemma event_ok_refused: "rejection e \<Longrightarrow> event_ok config limits now rt (Inl e, rt)"
  by (simp add: event_ok_def)

text \<open>An active block after its admission.\<close>

lemma admit_runnable:
  assumes "runtime_inv config limits (Some now) rt" and "i < length (rt_blocks rt)"
    and "admit_at i now rt = (ok, rt')"
  shows "runnable_ids rt' \<subseteq> runnable_ids rt"
proof -
  obtain b where b: "rt' = set_block i b rt" "lb_config b = lb_config (rt_blocks rt ! i)"
    "ok \<longrightarrow> lb_health (rt_blocks rt ! i) = Active" "\<not> ok \<longrightarrow> lb_health b \<noteq> Active"
    using admit_at_step(2) [OF assms] by blast
  show ?thesis
    unfolding b(1) using assms(2) b(2-4)
    by (intro runnable_ids_set_block) (auto simp: block_runnable_def)
qed

lemma admitted_step:
  assumes "runtime_inv config limits (Some now) rt" and "i < length (rt_blocks rt)"
    and "admit_at i now rt = (True, rt')"
  shows "runtime_inv config limits (Some now) rt'" and "i < length (rt_blocks rt')"
    and "lb_health (rt_blocks rt' ! i) = Active"
    and "lb_engine (rt_blocks rt' ! i) = lb_engine (rt_blocks rt ! i)"
    and "lb_id (rt_blocks rt' ! i) = lb_id (rt_blocks rt ! i)"
    and "rt_site rt' = rt_site rt" and "rt_next_execution_id rt' = rt_next_execution_id rt"
    and "rt_signals rt' = rt_signals rt"
    and "rt_last_accepted_at rt' = rt_last_accepted_at rt"
    and "rt_schedule_cursors rt' = rt_schedule_cursors rt"
    and "runnable_ids rt' \<subseteq> runnable_ids rt"
    and "lb_id (rt_blocks rt ! i) \<in> runnable_ids rt"
  using admit_at_step [OF assms] assms(2) admit_runnable [OF assms] runnable_idsI [OF assms(2)]
    block_ok_runnable [OF runtime_invD(3) [OF assms(1,2)]]
  by auto

lemma refused_step:
  assumes "runtime_inv config limits (Some now) rt" and "i < length (rt_blocks rt)"
    and "admit_at i now rt = (False, rt')"
  shows "runtime_inv config limits (Some now) rt'" and "i < length (rt_blocks rt')"
    and "lb_health (rt_blocks rt' ! i) \<noteq> Active"
    and "eng_config (lb_engine (rt_blocks rt' ! i)) = eng_config (lb_engine (rt_blocks rt ! i))"
    and "rt_last_accepted_at rt' = rt_last_accepted_at rt"
    and "rt_signals rt' = rt_signals rt"
    and "rt_next_execution_id rt' = rt_next_execution_id rt"
    and "runnable_ids rt' \<subseteq> runnable_ids rt"
  using admit_at_step [OF assms] assms(2) admit_runnable [OF assms] by auto

subsection \<open>Timers\<close>

lemma due_timers_iff:
  "(i, t) \<in> set (due_timers rt now) \<longleftrightarrow> i < length (rt_blocks rt) \<and> block_runnable (rt_blocks rt ! i)
     \<and> t \<in> set (btm_values (eng_pending_timers (lb_engine (rt_blocks rt ! i)))) \<and> pt_due_at t \<le> now"
  by (auto simp: due_timers_def in_set_enumerate_eq)

lemma engine_timer_step:
  assumes "engine_ok eng" and "not_later (eng_last_accepted_at eng) (Some now)"
    and "t \<in> set (btm_values (eng_pending_timers eng))" and "pt_due_at t \<le> now"
  shows "\<exists>ex eng' t'. process_next_due_timer_with_context env now site utc probe eng = (Inr (Some ex), eng')
    \<and> runs_to now eng ex eng' \<and> next_due_timer now (eng_pending_timers eng) = Some t'
    \<and> ex_trigger ex = timer_trigger_of now t'"
proof -
  obtain r eng' where run: "process_next_due_timer_with_context env now site utc probe eng = (r, eng')"
    by fastforce
  from assms(1) run show ?thesis
  proof (cases rule: process_next_due_timer_cases)
    case (rejected previous)
    with assms(2) show ?thesis by auto
  next
    case none_due
    with assms(3,4) next_due_timer_None [of now "eng_pending_timers eng"] show ?thesis
      by (auto simp: not_le [symmetric])
  next
    case (fired t' r')
    have time: "not_later (eng_last_accepted_at (timer_taken now t' eng)) (Some now)" by simp
    from execute_and_commit_runs [OF engine_ok_timer_taken [OF assms(1) fired(2)] fired(3) time]
    obtain ex where "r' = Inr ex" "runs_to now (timer_taken now t' eng) ex eng'"
      "ex_trigger ex = timer_trigger_of now t'" .
    with fired run show ?thesis by (auto simp: runs_to_def)
  qed
qed

text \<open>The timer that a poll of the runtime takes is the earliest of all blocks.\<close>

definition first_due :: "runtime \<Rightarrow> monotonic_ms \<Rightarrow> nat \<Rightarrow> pending_timer \<Rightarrow> bool" where
  "first_due rt now i t \<longleftrightarrow>
     (i, t) \<in> set (due_timers rt now)
     \<and> (\<forall>ju \<in> set (due_timers rt now). global_timer_order rt (i, t) \<le> global_timer_order rt ju)"

lemma first_due_is_next:
  assumes "block_ok limits s (rt_blocks rt ! i)" and "first_due rt now i t"
    and "next_due_timer now (eng_pending_timers (lb_engine (rt_blocks rt ! i))) = Some t'"
  shows "t' = t"
proof -
  let ?pending = "eng_pending_timers (lb_engine (rt_blocks rt ! i))"
  note spec = next_due_timer_spec [OF assms(3)]
  have t: "t \<in> set (btm_values ?pending)" "pt_due_at t \<le> now" "block_runnable (rt_blocks rt ! i)"
    "i < length (rt_blocks rt)"
    using assms(2) by (auto simp: first_due_def due_timers_iff)
  then have "(i, t') \<in> set (due_timers rt now)" using spec by (simp add: due_timers_iff)
  then have "global_timer_order rt (i, t) \<le> global_timer_order rt (i, t')"
    using assms(2) by (auto simp: first_due_def)
  moreover have "timer_order t' \<le> timer_order t" using spec t by blast
  ultimately have name: "pt_name t' = pt_name t"
    by (auto simp: global_timer_order_def timer_order_def)
  have ok: "pending_ok (active_logic_revision (lb_engine (rt_blocks rt ! i))) ?pending"
    using engine_okD(4) [OF block_okD(1) [OF assms(1)]] .
  have "(pt_name t, t) \<in> set ?pending" "(pt_name t', t') \<in> set ?pending"
    using pending_ok_values [OF ok] t(1) spec by blast+
  moreover have "btm_sorted ?pending" using ok by (simp add: pending_ok_def)
  ultimately show ?thesis using name btm_get_eq_iff by (metis option.inject)
qed

lemma process_next_due_timer_at_step:
  assumes ok: "runtime_ok config limits rt"
    and run: "process_next_due_timer_at env now site utc probe rt = result"
  shows "event_ok config limits now rt result"
    and "\<And>bx rt'. result = (Inr (Some bx), rt') \<Longrightarrow> \<exists>i t. first_due rt now i t
      \<and> bx_block_id bx = lb_id (rt_blocks rt ! i)
      \<and> ex_trigger (bx_execution bx) = timer_trigger_of now t"
proof -
  have "event_ok config limits now rt result \<and> (\<forall>bx rt'. result = (Inr (Some bx), rt') \<longrightarrow>
    (\<exists>i t. first_due rt now i t \<and> bx_block_id bx = lb_id (rt_blocks rt ! i)
      \<and> ex_trigger (bx_execution bx) = timer_trigger_of now t))"
  proof (cases rule: ensure_time_cases [of rt now None])
    case (rejected previous)
    with run show ?thesis by (auto simp: process_next_due_timer_at_def event_ok_def)
  next
    case accepted
    note inv = runtime_ok_now [OF ok accepted(1)]
    show ?thesis
    proof (cases "min_by (\<lambda>a b. global_timer_order rt a < global_timer_order rt b) (due_timers rt now)")
      case None
      with run accepted inv show ?thesis by (auto simp: process_next_due_timer_at_def event_ok_def)
    next
      case (Some it)
      obtain i t where it: "it = (i, t)" by fastforce
      have first: "first_due rt now i t"
        using min_by_in_set [OF Some] min_by_key_least [OF Some] by (simp add: first_due_def it)
      then have i: "i < length (rt_blocks rt)"
        and t: "t \<in> set (btm_values (eng_pending_timers (lb_engine (rt_blocks rt ! i))))"
          "pt_due_at t \<le> now"
        by (auto simp: first_due_def due_timers_iff)
      note block = runtime_invD(3) [OF inv i]
      obtain adm rt1 where adm: "admit_at i now rt = (adm, rt1)" by fastforce
      show ?thesis
      proof (cases adm)
        case False
        with run accepted Some it adm refused_step(1,7,8) [OF inv i, of rt1] show ?thesis
          by (auto simp: process_next_due_timer_at_def event_ok_def)
      next
        case True
        then have "admit_at i now rt = (True, rt1)" using adm by simp
        note a = admitted_step [OF inv i this]
        obtain ex eng t' where fire: "process_next_due_timer_with_context env now site utc probe
            (lb_engine (rt_blocks rt ! i)) = (Inr (Some ex), eng)"
          and runs: "runs_to now (lb_engine (rt_blocks rt ! i)) ex eng"
          and t': "next_due_timer now (eng_pending_timers (lb_engine (rt_blocks rt ! i))) = Some t'"
            "ex_trigger ex = timer_trigger_of now t'"
          using engine_timer_step [OF block_okD(1) [OF block] block_okD(5) [OF block] t] by blast
        obtain bx rt2 where f: "finish_execution i ex None (set_engine i eng rt1) = (bx, rt2)"
          by fastforce
        note result = finish_run [OF a(1,2,3) runs [folded a(4)] f]
        have "result = (Inr (Some bx), accepted now rt2)"
          using run accepted(2) Some it adm True fire a(4) f by (simp add: process_next_due_timer_at_def)
        then show ?thesis
          using result first a(5,7,11,12) t' first_due_is_next [OF block first t'(1)]
          by (auto simp: event_ok_def)
      qed
    qed
  qed
  then show "event_ok config limits now rt result"
    and "\<And>bx rt'. result = (Inr (Some bx), rt') \<Longrightarrow> \<exists>i t. first_due rt now i t
      \<and> bx_block_id bx = lb_id (rt_blocks rt ! i)
      \<and> ex_trigger (bx_execution bx) = timer_trigger_of now t" by blast+
qed

subsection \<open>Schedules\<close>

lemma schedule_target_ok:
  assumes "schedule_target rt t = Some i"
  shows "i < length (rt_blocks rt)" and "lb_id (rt_blocks rt ! i) = st_block_id t"
    and "block_runnable (rt_blocks rt ! i)"
  using assms position_SomeD
  by (fastforce simp: schedule_target_def Let_def split: option.splits if_splits)+

lemma process_schedule_sampled_ok:
  assumes ok: "runtime_ok config limits rt"
  shows "event_ok config limits (cs_monotonic_ms sample) rt
    (process_schedule_sampled env t sample probe rt)"
proof (cases rule: ensure_time_cases [of rt "cs_monotonic_ms sample" None])
  case (rejected previous)
  then show ?thesis by (simp add: process_schedule_sampled_def event_ok_def)
next
  case accepted
  define now where "now = cs_monotonic_ms sample"
  note time = accepted [folded now_def]
  have inv: "runtime_inv config limits (Some now) (Runtime_Model.accepted now rt)"
    using runtime_ok_now [OF ok time(1)] by simp
  show ?thesis
  proof (cases "schedule_target (Runtime_Model.accepted now rt) t")
    case None
    with time inv show ?thesis
      by (simp add: process_schedule_sampled_def event_ok_def now_def [symmetric] Let_def)
  next
    case (Some i)
    note i = schedule_target_ok(1) [OF Some]
    note block = runtime_invD(3) [OF inv i]
    obtain adm rt1 where adm: "admit_at i now (Runtime_Model.accepted now rt) = (adm, rt1)"
      by fastforce
    show ?thesis
    proof (cases adm)
      case False
      with time Some adm refused_step(1,5,7,8) [OF inv i, of rt1] show ?thesis
        by (simp add: process_schedule_sampled_def event_ok_def now_def [symmetric] Let_def)
    next
      case True
      then have "admit_at i now (Runtime_Model.accepted now rt) = (True, rt1)" using adm by simp
      note a = admitted_step [OF inv i this]
      let ?eng = "lb_engine (rt_blocks (Runtime_Model.accepted now rt) ! i)"
      obtain r eng where fire: "process_schedule_trigger_with_budget_probe env t (rt_site rt1)
          (Some (st_scheduled_for_utc_ms t)) now probe ?eng = (r, eng)" by fastforce
      from execute_and_commit_runs [OF block_okD(1) [OF block] fire [unfolded
            process_schedule_trigger_with_budget_probe_def] block_okD(5) [OF block]]
      obtain ex where r: "r = Inr ex" and runs: "runs_to now ?eng ex eng" .
      obtain bx rt2 where f: "finish_execution i ex None (set_engine i eng rt1) = (bx, rt2)"
        by fastforce
      note result = finish_run [OF a(1,2,3) runs [folded a(4)] f]
      have "process_schedule_sampled env t sample probe rt = (Inr (Some bx), rt2)"
        using time(2) Some adm True fire [unfolded r] a(4) f
        by (simp add: process_schedule_sampled_def now_def [symmetric] Let_def)
      then show ?thesis using result(1-6,9) a(5,7,9,11,12) by (auto simp: event_ok_def now_def [symmetric])
    qed
  qed
qed

subsection \<open>Transport updates\<close>

lemma validate_update_error: "validate_update eng name update = Inl e \<Longrightarrow> rejection (RtBlock x e)"
  by (cases update) (auto simp: validate_update_def dest: validate_input_error validate_endpoint_error)

lemma engine_update_quiet:
  assumes "engine_ok eng" and "validate_update eng name update = Inr i"
    and "not_later (eng_last_accepted_at eng) (Some now)" and "\<And>v. update \<noteq> UpdTrigger v"
  shows "\<exists>eng'. process_input_update_with_context env name update now site utc probe eng = (Inr None, eng')
    \<and> engine_ok eng' \<and> eng_config eng' = eng_config eng \<and> eng_limits eng' = eng_limits eng
    \<and> eng_pending_timers eng' = eng_pending_timers eng \<and> eng_last_accepted_at eng' = Some now"
proof -
  have accept: "accept_time now eng = (Inr (), eng\<lparr>eng_last_accepted_at := Some now\<rparr>)"
    using assms(3) by (auto simp: accept_time_def not_less split: option.splits)
  obtain eng' where run: "process_input_update_with_context env name update now site utc probe eng
      = (Inr None, eng')" "eng_config eng' = eng_config eng" "eng_limits eng' = eng_limits eng"
    "eng_pending_timers eng' = eng_pending_timers eng" "eng_last_accepted_at eng' = Some now"
    using assms(2,4) accept
    by (cases update) (auto simp: process_input_update_with_context_def validate_update_def)
  with process_input_update_ok(1) [OF assms(1) run(1)] show ?thesis by blast
qed

lemma engine_update_trigger:
  assumes "engine_trigger env name v now site utc probe eng = (Inr ex, eng')"
  shows "process_input_update_with_context env name (UpdTrigger v) now site utc probe eng
    = (Inr (Some ex), eng')"
  using assms by (auto simp: engine_trigger_def split: prod.splits sum.splits option.splits)

lemma admit_update_step:
  assumes "runtime_inv config limits (Some now) rt" and "i < length (rt_blocks rt)"
    and "admit_update i now update rt = (update', rt')"
    and "validate_update (lb_engine (rt_blocks rt ! i)) name update = Inr k"
  shows "runtime_inv config limits (Some now) rt'" and "i < length (rt_blocks rt')"
    and "validate_update (lb_engine (rt_blocks rt' ! i)) name update' = Inr k"
    and "update' = UpdTrigger v \<Longrightarrow> lb_health (rt_blocks rt' ! i) = Active \<and> update = UpdTrigger v"
    and "rt_next_execution_id rt' = rt_next_execution_id rt"
    and "runnable_ids rt' \<subseteq> runnable_ids rt"
    and "update' = UpdTrigger v \<Longrightarrow> lb_id (rt_blocks rt' ! i) \<in> runnable_ids rt"
proof -
  have "runtime_inv config limits (Some now) rt' \<and> i < length (rt_blocks rt')
    \<and> validate_update (lb_engine (rt_blocks rt' ! i)) name update' = Inr k
    \<and> (\<forall>v. update' = UpdTrigger v \<longrightarrow>
         lb_health (rt_blocks rt' ! i) = Active \<and> update = UpdTrigger v)
    \<and> rt_next_execution_id rt' = rt_next_execution_id rt
    \<and> runnable_ids rt' \<subseteq> runnable_ids rt
    \<and> (\<forall>v. update' = UpdTrigger v \<longrightarrow> lb_id (rt_blocks rt' ! i) \<in> runnable_ids rt)"
  proof (cases "\<exists>w. update = UpdTrigger w \<and> block_runnable (rt_blocks rt ! i)")
    case False
    with assms show ?thesis by (cases update) (auto simp: admit_update_def validate_update_def)
  next
    case True
    then obtain w where w: "update = UpdTrigger w" "block_runnable (rt_blocks rt ! i)" by blast
    obtain adm rt1 where adm: "admit_at i now rt = (adm, rt1)" by fastforce
    show ?thesis
    proof (cases adm)
      case True
      with adm have "admit_at i now rt = (True, rt1)" by simp
      from admitted_step [OF assms(1,2) this] True w adm assms(3,4) show ?thesis
        by (simp add: admit_update_def)
    next
      case False
      with adm have a: "admit_at i now rt = (False, rt1)" by simp
      note refused = refused_step [OF assms(1,2) a]
      have "update' = Observe w" "rt' = rt1" using w a assms(3) by (simp_all add: admit_update_def)
      with w a assms(4) refused validate_input_cong [OF refused(4)] show ?thesis
        by (simp add: validate_update_def)
    qed
  qed
  then show "runtime_inv config limits (Some now) rt'" and "i < length (rt_blocks rt')"
    and "validate_update (lb_engine (rt_blocks rt' ! i)) name update' = Inr k"
    and "update' = UpdTrigger v \<Longrightarrow> lb_health (rt_blocks rt' ! i) = Active \<and> update = UpdTrigger v"
    and "rt_next_execution_id rt' = rt_next_execution_id rt"
    and "runnable_ids rt' \<subseteq> runnable_ids rt"
    and "update' = UpdTrigger v \<Longrightarrow> lb_id (rt_blocks rt' ! i) \<in> runnable_ids rt" by blast+
qed

lemma process_input_update_single_ok:
  assumes "runtime_ok config limits rt"
  shows "event_ok config limits (cs_monotonic_ms sample) rt
    (process_input_update_single env x name update sample probe rt)"
proof (rule guards_cases [OF process_input_update_single_def [unfolded Let_def, symmetric]])
  fix eng e assume "validate_update eng name update = Inl e"
  then show "rejection (RtBlock x e)" by (rule validate_update_error)
next
  fix err
  assume "process_input_update_single env x name update sample probe rt = (Inl err, rt)" "rejection err"
  then show ?thesis by (simp add: event_ok_def)
next
  fix i k
  define now where "now = cs_monotonic_ms sample"
  assume eq: "process_input_update_single env x name update sample probe rt =
      (case admit_update i (cs_monotonic_ms sample) update rt of
         (update, rt) \<Rightarrow>
           (case process_input_update_with_context env name update (cs_monotonic_ms sample) (rt_site rt)
                   (cs_utc_unix_ms sample) (handler_probe probe 0) (lb_engine (rt_blocks rt ! i)) of
              (Inl err, eng) \<Rightarrow> (Inl (RtBlock x err), set_engine i eng rt)
            | (Inr None, eng) \<Rightarrow> (Inr None, accepted (cs_monotonic_ms sample) (set_engine i eng rt))
            | (Inr (Some ex), eng) \<Rightarrow>
                (case finish_execution i ex None (accepted (cs_monotonic_ms sample) (set_engine i eng rt)) of
                   (bx, rt) \<Rightarrow> (Inr (Some bx), rt))))"
    and i: "i < length (rt_blocks rt)"
    and valid: "validate_update (lb_engine (rt_blocks rt ! i)) name update = Inr k"
    and time: "not_later (rt_last_accepted_at rt) (Some (cs_monotonic_ms sample))"
  note inv = runtime_ok_now [OF assms time [folded now_def]]
  obtain update' rt1 where a: "admit_update i now update rt = (update', rt1)" by fastforce
  note step = admit_update_step [OF inv i a valid]
  let ?eng = "lb_engine (rt_blocks rt1 ! i)"
  note block = runtime_invD(3) [OF step(1,2)]
  note engine = block_okD(1,5) [OF block]
  show ?thesis
  proof (cases "\<exists>v. update' = UpdTrigger v")
    case True
    then obtain v where v: "update' = UpdTrigger v" ..
    with step(3) have "validate_input ?eng name v = Inr k" by (simp add: validate_update_def)
    from engine_trigger_step [OF engine(1) this engine(2)]
    obtain ex eng where trigger: "engine_trigger env name v now (rt_site rt1) (cs_utc_unix_ms sample)
        (handler_probe probe 0) ?eng = (Inr ex, eng)" and runs: "runs_to now ?eng ex eng" by blast
    have inv1: "runtime_inv config limits (Some now) (Runtime_Model.accepted now rt1)"
      using step(1) by simp
    obtain bx rt2 where f: "finish_execution i ex None
        (set_engine i eng (Runtime_Model.accepted now rt1)) = (bx, rt2)" by fastforce
    have commute: "accepted now (set_engine i eng rt1) = set_engine i eng (accepted now rt1)"
      by (simp add: accepted_def set_engine_def set_block_def)
    note result = finish_run [OF inv1 _ _ _ f]
    from eq a v engine_update_trigger [OF trigger] f commute
    have "process_input_update_single env x name update sample probe rt = (Inr (Some bx), rt2)"
      by (simp add: now_def [symmetric])
    with result(1-6,9) step(2,5,6) step(4,7) [OF v] runs show ?thesis
      by (auto simp: event_ok_def now_def [symmetric])
  next
    case False
    then have "\<And>v. update' \<noteq> UpdTrigger v" by blast
    from engine_update_quiet [OF engine(1) step(3) engine(2) this, of env "rt_site rt1"
        "cs_utc_unix_ms sample" "handler_probe probe 0"]
    obtain eng where quiet: "process_input_update_with_context env name update' now (rt_site rt1)
        (cs_utc_unix_ms sample) (handler_probe probe 0) ?eng = (Inr None, eng)"
      "engine_ok eng" "eng_config eng = eng_config ?eng" "eng_limits eng = eng_limits ?eng"
      "eng_pending_timers eng = eng_pending_timers ?eng" "eng_last_accepted_at eng = Some now" by blast
    have "block_ok limits (Some now) ((rt_blocks rt1 ! i)\<lparr>lb_engine := eng\<rparr>)"
      using block_okD(7) [OF block] quiet by (intro block_ok_engine [OF block]) simp_all
    from set_engine_inv [OF step(1,2) this] eq a quiet(1) step(5,6)
      runnable_ids_engine [OF step(2), of eng] show ?thesis
      by (auto simp: now_def [symmetric] event_ok_def)
  qed
qed

lemma observe_input_ok:
  assumes "runtime_ok config limits rt"
  shows "case observe_input env x name v now rt of
      (Inl e, rt') \<Rightarrow> rejection e \<and> rt' = rt
    | (Inr _, rt') \<Rightarrow> runtime_inv config limits (Some now) rt' \<and> rt_last_accepted_at rt' = Some now"
proof (rule guards_cases [OF observe_input_def [symmetric]])
  fix eng e assume "validate_input eng name v = Inl e"
  then show "rejection (RtBlock x e)" by (rule validate_input_error)
next
  fix i k
  assume eq: "observe_input env x name v now rt =
      (case observe_at env i name v now rt of
         (Inl err, rt) \<Rightarrow> (Inl err, rt) | (Inr _, rt) \<Rightarrow> (Inr (), accepted now rt))"
    and i: "i < length (rt_blocks rt)"
    and valid: "validate_input (lb_engine (rt_blocks rt ! i)) name v = Inr k"
    and time: "not_later (rt_last_accepted_at rt) (Some now)"
  from observe_at_step [OF runtime_ok_now [OF assms time] i valid] eq show ?thesis by simp
qed simp

end
