(* ===== verification/Cascade_Correctness.thy ===== *)
theory Cascade_Correctness
  imports Runtime_Operations
begin

text \<open>
  The propagation of signals: it keeps the runtime's invariant, ends within the limit on a
  cascade's executions, fails only at a limit, and numbers its executions in causal order.
\<close>

subsection \<open>Signals and their consumers\<close>

lemma index_signals_from:
  "distinct (map sgc_name signals) \<Longrightarrow>
   btm_get (foldl (\<lambda>m (index, signal). btm_insert (sgc_name signal) index m) m (enumerate k signals)) s
     = (case position (\<lambda>c. sgc_name c = s) signals of
          None \<Rightarrow> btm_get m s | Some i \<Rightarrow> Some (i + k))"
proof (induction signals arbitrary: m k)
  case (Cons c signals)
  have "position (\<lambda>d. sgc_name d = sgc_name c) signals = None"
    using Cons.prems unfolding position_None_iff by (auto simp: image_iff)
  with Cons show ?case by (auto simp: btm_get_insert split: option.splits)
qed simp

lemma index_signals_get:
  "distinct (map sgc_name signals) \<Longrightarrow>
   btm_get (index_signals signals) s = position (\<lambda>c. sgc_name c = s) signals"
  unfolding index_signals_def by (subst index_signals_from) (auto split: option.splits)

lemma realises_signal:
  assumes "realises config limits rt" and "i < length (rt_signals rt)"
  shows "i < length (rc_signals config)" and "sg_config (rt_signals rt ! i) = rc_signals config ! i"
    and "sg_consumers (rt_signals rt ! i) = consumers_of config (sgc_name (rc_signals config ! i))"
    and "sg_producer (rt_signals rt ! i) = producer_of config (sgc_name (rc_signals config ! i))"
proof -
  have eqs: "map sg_config (rt_signals rt) = rc_signals config"
    "map sg_consumers (rt_signals rt) = map (\<lambda>s. consumers_of config (sgc_name s)) (rc_signals config)"
    "map sg_producer (rt_signals rt) = map (\<lambda>s. producer_of config (sgc_name s)) (rc_signals config)"
    using assms(1) by (simp_all add: realises_def)
  show i: "i < length (rc_signals config)" using assms(2) map_eq_imp_length_eq [OF eqs(2)] by simp
  from arg_cong [OF eqs(1), of "\<lambda>xs. xs ! i"] arg_cong [OF eqs(2), of "\<lambda>xs. xs ! i"]
    arg_cong [OF eqs(3), of "\<lambda>xs. xs ! i"] assms(2) i
  show "sg_config (rt_signals rt ! i) = rc_signals config ! i"
    and "sg_consumers (rt_signals rt ! i) = consumers_of config (sgc_name (rc_signals config ! i))"
    and "sg_producer (rt_signals rt ! i) = producer_of config (sgc_name (rc_signals config ! i))"
    by simp_all
qed

text \<open>The signal that an output is bound to carries the datapoint type of the output.\<close>

lemma bound_signal_ok:
  assumes "realises config limits rt" and "runtime_config_wf features config limits"
    and "find_block rt x = Some b" and "bound_signal rt b name = Some (s, i)"
    and "c \<in> set (rc_blocks config)" and "bc_id c = x" and "output_effect_ok (bc_endpoints c) eff"
    and "oe_endpoint eff = name"
  shows "i < length (rt_signals rt)" and "sgc_name (rc_signals config ! i) = s"
    and "tv_dpt (oe_value eff) = sgc_dpt (rc_signals config ! i)"
    and "\<exists>binding. find (\<lambda>binding. sb_endpoint binding = name) (bc_signal_bindings c) = Some binding
      \<and> sb_signal binding = s"
proof -
  have wf: "distinct (map sgc_name (rc_signals config))" "distinct (map bc_id (rc_blocks config))"
    "block_config_wf features c limits"
    "\<And>bb. bb \<in> set (bindings_of (rc_blocks config)) \<Longrightarrow> binding_typed (rc_signals config) bb"
    using assms(2,5) by (auto simp: runtime_config_wf_def)
  obtain k where k: "k < length (rt_blocks rt)" "b = rt_blocks rt ! k" "lb_id b = x"
    using find_SomeD [OF assms(3) [unfolded find_block_def]] by (auto simp: in_set_conv_nth)
  note same = realises_block [OF assms(1) k(1), folded k(2)]
  have "rc_blocks config ! k = c"
    using wf(2) assms(5,6) k(3) same(1,2) by (metis distinct_map in_set_conv_nth inj_on_def nth_mem)
  then have bindings: "bc_signal_bindings (lb_config b) = bc_signal_bindings c" using same(4) by simp
  obtain binding where find: "find (\<lambda>binding. sb_endpoint binding = name) (bc_signal_bindings c)
      = Some binding" and s: "s = sb_signal binding"
    and get: "btm_get (rt_signal_indexes rt) s = Some i"
    using assms(4) by (auto simp: bound_signal_def bindings split: option.splits)
  have binding: "binding \<in> set (bc_signal_bindings c)" "sb_endpoint binding = name"
    using find_SomeD [OF find] by simp_all
  show "\<exists>binding. find (\<lambda>binding. sb_endpoint binding = name) (bc_signal_bindings c) = Some binding
      \<and> sb_signal binding = s"
    using find s by auto
  have pos: "position (\<lambda>c. sgc_name c = s) (rc_signals config) = Some i"
    using get index_signals_get [OF wf(1)] assms(1) by (simp add: realises_def)
  have len: "length (rt_signals rt) = length (rc_signals config)"
    using assms(1) unfolding realises_def by (metis length_map)
  from position_SomeD [OF pos] len show i: "i < length (rt_signals rt)"
    and name: "sgc_name (rc_signals config ! i) = s" by simp_all
  have "(c, binding) \<in> set (bindings_of (rc_blocks config))"
    using binding(1) assms(5) by (auto simp: bindings_of_def)
  from wf(4) [OF this] obtain signal e
    where signal: "find (\<lambda>d. sgc_name d = s) (rc_signals config) = Some signal"
      and e: "find (\<lambda>e. ep_name e = name) (bc_endpoints c) = Some e" "ep_dpt e = sgc_dpt signal"
    using s binding(2) by (auto simp: binding_typed_def bound_endpoint_def)
  have "signal = rc_signals config ! i" using signal pos by (simp add: find_as_position)
  moreover have "tv_dpt (oe_value eff) = ep_dpt e"
  proof -
    obtain d where d: "d \<in> set (bc_endpoints c)" "ep_name d = name" "tv_dpt (oe_value eff) = ep_dpt d"
      using assms(7,8) by (auto simp: output_effect_ok_def)
    have "distinct (map ep_name (bc_endpoints c))"
      using wf(3) by (simp add: block_config_wf_def engine_config_wf_def)
    from find_distinct [OF this d(1)] d(2) e(1) have "d = e" by simp
    with d(3) show ?thesis by simp
  qed
  ultimately show "tv_dpt (oe_value eff) = sgc_dpt (rc_signals config ! i)" using e(2) by simp
qed

text \<open>A consumer of a signal is an input of its datapoint type.\<close>

lemma consumer_ok:
  assumes "runtime_inv config limits now rt" and "runtime_config_wf features config limits"
    and "consumer \<in> set (consumers_of config (sgc_name (rc_signals config ! i)))"
    and "i < length (rc_signals config)" and "tv_dpt v = sgc_dpt (rc_signals config ! i)"
  shows "\<exists>k e j. position (\<lambda>b. lb_id b = se_block_id consumer) (rt_blocks rt) = Some k
    \<and> k < length (rt_blocks rt) \<and> lb_id (rt_blocks rt ! k) = se_block_id consumer
    \<and> find (\<lambda>e. ep_name e = se_endpoint consumer) (bc_endpoints (lb_config (rt_blocks rt ! k))) = Some e
    \<and> validate_input (lb_engine (rt_blocks rt ! k)) (se_endpoint consumer) v = Inr j"
proof -
  let ?s = "sgc_name (rc_signals config ! i)"
  have real: "realises config limits rt" using runtime_invD(1) [OF assms(1)] .
  have wf: "distinct (map sgc_name (rc_signals config))" "distinct (map bc_id (rc_blocks config))"
    "\<And>bb. bb \<in> set (bindings_of (rc_blocks config)) \<Longrightarrow> binding_typed (rc_signals config) bb"
    using assms(2) by (auto simp: runtime_config_wf_def)
  obtain bb where bb: "bb \<in> set (bindings_of (rc_blocks config))" "consumes bb"
    "sb_signal (snd bb) = ?s" "consumer = binding_identity bb"
    using assms(3) by (auto simp: consumers_of_def)
  obtain signal e where signal: "find (\<lambda>s. sgc_name s = ?s) (rc_signals config) = Some signal"
    and e: "bound_endpoint bb = Some e" "ep_dpt e = sgc_dpt signal"
    using wf(3) [OF bb(1)] bb(3) by (auto simp: binding_typed_def)
  have "signal = rc_signals config ! i"
    using signal find_distinct [OF wf(1), of "rc_signals config ! i"] assms(4) by simp
  then have dpt: "tv_dpt v = ep_dpt e" using assms(5) e(2) by simp
  have input: "ep_direction e = Input" using bb(2) e(1) by (simp add: consumes_def)
  have e_name: "e \<in> set (bc_endpoints (fst bb))" "ep_name e = se_endpoint consumer"
    using find_SomeD [OF e(1) [unfolded bound_endpoint_def]] bb(4) by (simp_all add: binding_identity_def)
  obtain k where k: "k < length (rc_blocks config)" "rc_blocks config ! k = fst bb"
    using bindings_of_block [OF bb(1)] by (auto simp: in_set_conv_nth)
  have k': "k < length (rt_blocks rt)" using k(1) realises_length [OF real] by simp
  note same = realises_block [OF real k']
  have id: "lb_id (rt_blocks rt ! k) = se_block_id consumer"
    using same(2) k(2) bb(4) by (simp add: binding_identity_def)
  have endpoints: "bc_endpoints (lb_config (rt_blocks rt ! k)) = bc_endpoints (fst bb)"
    using same(3) k(2) by simp
  have "distinct (map lb_id (rt_blocks rt))" using realises_ids [OF real] wf(2) by simp
  from position_unique [OF this k'] id
  have "position (\<lambda>b. lb_id b = se_block_id consumer) (rt_blocks rt) = Some k" by simp
  moreover have "find (\<lambda>e. ep_name e = se_endpoint consumer)
      (bc_endpoints (lb_config (rt_blocks rt ! k))) = Some e"
    using e(1) bb(4) endpoints by (simp add: bound_endpoint_def binding_identity_def)
  moreover have "\<exists>j. validate_input (lb_engine (rt_blocks rt ! k)) (ep_name e) v = Inr j"
  proof (rule validate_input_complete)
    note block = runtime_invD(3) [OF assms(1) k']
    show "distinct (map ep_name (eng_endpoints (lb_engine (rt_blocks rt ! k))))"
      using engine_okD(1) [OF block_okD(1) [OF block]] by (simp add: engine_config_wf_def)
    show "e \<in> set (eng_endpoints (lb_engine (rt_blocks rt ! k)))"
      using e_name(1) endpoints block_okD(3) [OF block] by simp
  qed (use input dpt in simp_all)
  ultimately show ?thesis using k' id e_name(2) by auto
qed

subsection \<open>The invariant of a cascade\<close>

text \<open>An execution without the signal metadata, which propagation fills in.\<close>

definition execution_core :: "block_execution \<Rightarrow> block_execution" where
  "execution_core bx =
     bx\<lparr>bx_execution := (bx_execution bx)\<lparr>ex_signal_effects := [], ex_eligible_consumers := []\<rparr>\<rparr>"

lemma execution_core_eqD:
  assumes "execution_core a = execution_core b"
  shows "bx_block_id a = bx_block_id b" and "ex_id (bx_execution a) = ex_id (bx_execution b)"
    and "ex_causal_producer (bx_execution a) = ex_causal_producer (bx_execution b)"
    and "ex_outcome (bx_execution a) = ex_outcome (bx_execution b)"
    and "ex_trigger (bx_execution a) = ex_trigger (bx_execution b)"
proof -
  have "bx_block_id (execution_core a) = bx_block_id (execution_core b)"
    "bx_execution (execution_core a) = bx_execution (execution_core b)" using assms by simp_all
  then show "bx_block_id a = bx_block_id b" and "ex_id (bx_execution a) = ex_id (bx_execution b)"
    and "ex_causal_producer (bx_execution a) = ex_causal_producer (bx_execution b)"
    and "ex_outcome (bx_execution a) = ex_outcome (bx_execution b)"
    and "ex_trigger (bx_execution a) = ex_trigger (bx_execution b)"
    by (cases "bx_execution a"; cases "bx_execution b"; simp add: execution_core_def)+
qed

text \<open>
  The executions are numbered from \<open>base\<close>, and each but the first names an earlier one as its
  causal producer.
\<close>

definition numbered :: "execution_id \<Rightarrow> execution list \<Rightarrow> bool" where
  "numbered base exs \<longleftrightarrow>
     (\<forall>n < length exs. ex_id (exs ! n) = Some (base + of_nat n)
        \<and> (ex_causal_producer (exs ! n) = None \<longleftrightarrow> n = 0)
        \<and> (\<forall>p. ex_causal_producer (exs ! n) = Some p \<longrightarrow> (\<exists>m < n. p = base + of_nat m)))"

definition execution_budget :: "runtime_limits \<Rightarrow> nat" where
  "execution_budget limits = max 1 (max_cascade_executions limits)"

definition cascade_inv ::
  "runtime_config \<Rightarrow> runtime_limits \<Rightarrow> monotonic_ms \<Rightarrow> execution_id \<Rightarrow> cascade \<Rightarrow> bool" where
  "cascade_inv config limits now base c \<longleftrightarrow>
     runtime_inv config limits (Some now) (cas_runtime c)
     \<and> rt_last_accepted_at (cas_runtime c) = Some now
     \<and> (\<forall>bx \<in> set (cas_executions c). execution_fits config bx)
     \<and> length (cas_executions c) \<le> execution_budget limits
     \<and> (unat base + execution_budget limits < 2 ^ 64 \<longrightarrow>
          rt_next_execution_id (cas_runtime c) = base + of_nat (length (cas_executions c))
          \<and> numbered base (map bx_execution (cas_executions c)))"

text \<open>
  How a cascade may grow: executions are only added, and only those of blocks that could run
  before.
\<close>

definition extends :: "cascade \<Rightarrow> cascade \<Rightarrow> bool" where
  "extends c c' \<longleftrightarrow>
     prefix (map execution_core (cas_executions c)) (map execution_core (cas_executions c'))
     \<and> runnable_ids (cas_runtime c') \<subseteq> runnable_ids (cas_runtime c)
     \<and> (\<forall>n. length (cas_executions c) \<le> n \<and> n < length (cas_executions c') \<longrightarrow>
          bx_block_id (cas_executions c' ! n) \<in> runnable_ids (cas_runtime c))"

lemma extends_refl [simp]: "extends c c"
  by (auto simp: extends_def)

lemma extends_length: "extends c d \<Longrightarrow> length (cas_executions c) \<le> length (cas_executions d)"
  unfolding extends_def by (metis length_map prefix_length_le)

lemma extends_nth:
  assumes "extends c d" and "n < length (cas_executions c)"
  shows "execution_core (cas_executions d ! n) = execution_core (cas_executions c ! n)"
proof -
  obtain rest where "map execution_core (cas_executions d) = map execution_core (cas_executions c) @ rest"
    using assms(1) by (auto simp: extends_def prefix_def)
  then have "map execution_core (cas_executions d) ! n = map execution_core (cas_executions c) ! n"
    using assms(2) by (simp add: nth_append)
  then show ?thesis using assms(2) extends_length [OF assms(1)] by simp
qed

lemma extends_trans:
  assumes "extends c d" and "extends d e"
  shows "extends c e"
proof -
  have "bx_block_id (cas_executions e ! n) \<in> runnable_ids (cas_runtime c)"
    if n: "length (cas_executions c) \<le> n" "n < length (cas_executions e)" for n
  proof (cases "n < length (cas_executions d)")
    case True
    with execution_core_eqD(1) [OF extends_nth [OF assms(2) True]] assms(1) n(1) show ?thesis
      by (simp add: extends_def)
  next
    case False
    with assms n(2) show ?thesis by (auto simp: extends_def)
  qed
  with assms prefix_order.trans show ?thesis unfolding extends_def by blast
qed

text \<open>
  What a step of propagation guarantees: the invariant, executions that only grow, by at most
  \<open>k\<close>, no error but a limit of the cascade, and not the limit on its executions where it leaves
  room for \<open>k\<close> more.
\<close>

definition propagates ::
  "runtime_config \<Rightarrow> runtime_limits \<Rightarrow> monotonic_ms \<Rightarrow> execution_id \<Rightarrow> nat \<Rightarrow> cascade
     \<Rightarrow> (runtime_event_error + unit) \<times> cascade \<Rightarrow> bool" where
  "propagates config limits now base k c result \<longleftrightarrow>
     cascade_inv config limits now base (snd result) \<and> extends c (snd result)
     \<and> (\<forall>e. fst result = Inl e \<longrightarrow> \<not> should_rollback_after_propagation e)
     \<and> length (cas_executions (snd result)) \<le> length (cas_executions c) + k
     \<and> (length (cas_executions c) + k \<le> max_cascade_executions limits \<longrightarrow>
          (\<forall>a m. fst result \<noteq> Inl (CascadeLimit a m)))"

lemma propagates_here [simp]:
  "propagates config limits now base k c (Inr (), c) \<longleftrightarrow> cascade_inv config limits now base c"
  by (simp add: propagates_def)

lemma propagates_mono:
  "propagates config limits now base k c result \<Longrightarrow> k \<le> l \<Longrightarrow>
   propagates config limits now base l c result"
  by (auto simp: propagates_def)

lemma propagates_from:
  assumes "propagates config limits now base l d result" and "extends c d"
    and "length (cas_executions d) + l \<le> length (cas_executions c) + k"
  shows "propagates config limits now base k c result"
  using assms extends_trans [OF assms(2)] by (auto simp: propagates_def)

lemma for_each_propagates:
  assumes "cascade_inv config limits now base c"
    and "\<And>x d. x \<in> set xs \<Longrightarrow> cascade_inv config limits now base d \<Longrightarrow> extends c d \<Longrightarrow>
      propagates config limits now base (g x) d (f x d)"
  shows "propagates config limits now base (sum_list (map g xs)) c (for_each f xs c)"
  using assms
proof (induction xs arbitrary: c)
  case (Cons x xs)
  obtain r d where f: "f x c = (r, d)" by fastforce
  have step: "propagates config limits now base (g x) c (r, d)"
    using Cons.prems(2) [of x c] Cons.prems(1) f by simp
  show ?case
  proof (cases r)
    case (Inl e)
    with f propagates_mono [OF step] show ?thesis by simp
  next
    case (Inr u)
    have d: "cascade_inv config limits now base d" "extends c d"
      and len: "length (cas_executions d) \<le> length (cas_executions c) + g x"
      using step by (simp_all add: propagates_def)
    have "propagates config limits now base (sum_list (map g xs)) d (for_each f xs d)"
      using d extends_trans by (intro Cons.IH Cons.prems(2)) auto
    from propagates_from [OF this d(2)] len f Inr show ?thesis by simp
  qed
qed simp

lemma cascade_inv_runtime:
  assumes "cascade_inv config limits now base c" and "runtime_inv config limits (Some now) rt"
    and "rt_last_accepted_at rt = Some now"
    and "rt_next_execution_id rt = rt_next_execution_id (cas_runtime c)"
    and "runnable_ids rt \<subseteq> runnable_ids (cas_runtime c)"
  shows "cascade_inv config limits now base (c\<lparr>cas_runtime := rt\<rparr>)"
    and "extends c (c\<lparr>cas_runtime := rt\<rparr>)"
proof -
  show "cascade_inv config limits now base (c\<lparr>cas_runtime := rt\<rparr>)"
    using assms by (simp add: cascade_inv_def)
  show "extends c (c\<lparr>cas_runtime := rt\<rparr>)"
    using assms(5) by (auto simp: extends_def)
qed

subsection \<open>Steps of propagation\<close>

lemma observe_step_propagates:
  assumes "cascade_inv config limits now base c"
    and "runtime_inv config limits (Some now) rt" and "rt_last_accepted_at rt = Some now"
    and "rt_next_execution_id rt = rt_next_execution_id (cas_runtime c)"
    and "runnable_ids rt \<subseteq> runnable_ids (cas_runtime c)"
    and "k < length (rt_blocks rt)"
    and "validate_input (lb_engine (rt_blocks rt ! k)) name v = Inr j"
  shows "propagates config limits now base l c
    (on_runtime (observe_at env k name v now) (c\<lparr>cas_runtime := rt\<rparr>))"
proof -
  note step = observe_at_step [OF assms(2,6,7)]
  let ?rt = "set_engine k (observed now j v (lb_engine (rt_blocks rt ! k))) rt"
  have ids: "runnable_ids ?rt \<subseteq> runnable_ids (cas_runtime c)"
    using runnable_ids_engine [OF assms(6)] assms(5) by (rule order_trans)
  have "cascade_inv config limits now base (c\<lparr>cas_runtime := ?rt\<rparr>)"
    "extends c (c\<lparr>cas_runtime := ?rt\<rparr>)"
    using cascade_inv_runtime [OF assms(1) step(2) _ _ ids] assms(3,4) by simp_all
  then show ?thesis using step(1) [of env] by (simp add: on_runtime_def propagates_def)
qed

lemma refresh_consumer_ok:
  assumes "cascade_inv config limits now base c" and "runtime_config_wf features config limits"
    and "consumer \<in> set (consumers_of config (sgc_name (rc_signals config ! i)))"
    and "i < length (rc_signals config)" and "tv_dpt v = sgc_dpt (rc_signals config ! i)"
    and "pg_now pg = now"
  shows "propagates config limits now base 0 c (refresh_consumer pg v consumer c)"
proof -
  have inv: "runtime_inv config limits (Some now) (cas_runtime c)"
    and last: "rt_last_accepted_at (cas_runtime c) = Some now"
    using assms(1) by (simp_all add: cascade_inv_def)
  obtain k j where "position (\<lambda>b. lb_id b = se_block_id consumer) (rt_blocks (cas_runtime c)) = Some k"
    "k < length (rt_blocks (cas_runtime c))"
    "validate_input (lb_engine (rt_blocks (cas_runtime c) ! k)) (se_endpoint consumer) v = Inr j"
    using consumer_ok [OF inv assms(2-5)] by blast
  with observe_step_propagates [OF assms(1) inv last refl subset_refl,
      of k "se_endpoint consumer" v j 0 "pg_env pg"]
    assms(6)
  show ?thesis by (simp add: refresh_consumer_def)
qed

lemma numbered_snoc:
  assumes "numbered base exs" and "ex_id ex = Some (base + of_nat (length exs))"
    and "ex_causal_producer ex = ex_id (exs ! m)" and "m < length exs"
  shows "numbered base (exs @ [ex])"
  using assms by (auto simp: numbered_def nth_append less_Suc_eq)

lemma word_of_nat_Suc_eq:
  fixes base :: u64
  assumes "unat base + n < 2 ^ 64"
  shows "unat (base + of_nat n) = unat base + n"
  using assms by (simp add: unat_word_ariths unat_of_nat)

lemma saturating_add_next:
  fixes base :: u64
  assumes "unat base + n + 1 < 2 ^ 64"
  shows "saturating_add_word (base + of_nat n) 1 = base + of_nat (n + 1)"
proof -
  have "unat (base + of_nat n) + 1 < 2 ^ 64"
    using word_of_nat_Suc_eq [of base n] assms by simp
  then show ?thesis by (simp add: saturating_add_word_def add.assoc)
qed

lemma cascade_inv_snoc:
  assumes inv: "cascade_inv config limits now base c"
    and rt: "runtime_inv config limits (Some now) rt" "rt_last_accepted_at rt = Some now"
    and fits: "execution_fits config bx"
    and budget: "length (cas_executions c) < execution_budget limits"
    and id: "ex_id (bx_execution bx) = Some (rt_next_execution_id (cas_runtime c))"
      "ex_causal_producer (bx_execution bx) = ex_id (bx_execution (cas_executions c ! m))"
      "m < length (cas_executions c)"
    and advance: "rt_next_execution_id rt = saturating_add_word (rt_next_execution_id (cas_runtime c)) 1"
  shows "cascade_inv config limits now base \<lparr>cas_runtime = rt, cas_executions = cas_executions c @ [bx]\<rparr>"
proof -
  have "numbered base (map bx_execution (cas_executions c @ [bx]))
      \<and> rt_next_execution_id rt = base + of_nat (length (cas_executions c) + 1)"
    if small: "unat base + execution_budget limits < 2 ^ 64"
  proof
    have old: "rt_next_execution_id (cas_runtime c) = base + of_nat (length (cas_executions c))"
      "numbered base (map bx_execution (cas_executions c))"
      using inv small by (simp_all add: cascade_inv_def)
    have "unat base + length (cas_executions c) + 1 < 2 ^ 64" using small budget by simp
    from saturating_add_next [OF this] advance old(1)
    show "rt_next_execution_id rt = base + of_nat (length (cas_executions c) + 1)" by simp
    have "numbered base (map bx_execution (cas_executions c) @ [bx_execution bx])"
      by (rule numbered_snoc [OF old(2), of _ m]) (use id old(1) in simp_all)
    then show "numbered base (map bx_execution (cas_executions c @ [bx]))" by simp
  qed
  with inv rt fits budget show ?thesis by (auto simp: cascade_inv_def)
qed

lemma trigger_consumer_ok:
  assumes cas: "cascade_inv config limits now base c" and wf: "runtime_config_wf features config limits"
    and consumer: "consumer \<in> set (consumers_of config (sgc_name (rc_signals config ! i)))"
      "i < length (rc_signals config)" "tv_dpt v = sgc_dpt (rc_signals config ! i)"
    and pg: "pg_now pg = now"
    and producing: "producing = ex_id (bx_execution (cas_executions c ! m))" "m < length (cas_executions c)"
    and recurse: "\<And>n d. cascade_inv config limits now base d \<Longrightarrow> n < length (cas_executions d) \<Longrightarrow>
      length (cas_executions c) < length (cas_executions d) \<Longrightarrow>
      length (cas_executions d) \<le> max_cascade_executions limits \<Longrightarrow>
      propagates config limits now base (cost (bx_block_id (cas_executions d ! n)) - 1) d (recurse n d)"
    and cost: "0 < cost (se_block_id consumer)"
  shows "propagates config limits now base (cost (se_block_id consumer)) c
    (trigger_consumer recurse pg v producing consumer c)"
proof -
  define rt where "rt = cas_runtime c"
  have inv: "runtime_inv config limits (Some now) rt" and last: "rt_last_accepted_at rt = Some now"
    using cas by (simp_all add: cascade_inv_def rt_def)
  obtain k e j where k: "position (\<lambda>b. lb_id b = se_block_id consumer) (rt_blocks rt) = Some k"
    "k < length (rt_blocks rt)" "lb_id (rt_blocks rt ! k) = se_block_id consumer"
    and e: "find (\<lambda>e. ep_name e = se_endpoint consumer) (bc_endpoints (lb_config (rt_blocks rt ! k)))
      = Some e"
    and valid: "validate_input (lb_engine (rt_blocks rt ! k)) (se_endpoint consumer) v = Inr j"
    using consumer_ok [OF inv wf consumer] by blast
  have same: "c\<lparr>cas_runtime := rt\<rparr> = c" by (simp add: rt_def)
  have limits: "rt_limits rt = limits" using runtime_invD(2) [OF inv] .
  note unfold = trigger_consumer_def Let_def rt_def [symmetric] k(1) option.case e option.distinct
  show ?thesis
  proof (cases "block_runnable (rt_blocks rt ! k)")
    case False
    with observe_step_propagates [OF cas inv last _ _ k(2) valid, of _ "pg_env pg"] e k(1) pg same
    show ?thesis by (simp add: trigger_consumer_def rt_def [symmetric])
  next
    case runnable: True
    show ?thesis
    proof (cases "max_cascade_executions limits \<le> length (cas_executions c)")
      case True
      with e k(1) runnable limits cas cost show ?thesis
        by (simp add: trigger_consumer_def rt_def [symmetric] Let_def propagates_def)
    next
      case room: False
      obtain adm rt1 where adm: "admit_at k now rt = (adm, rt1)" by fastforce
      show ?thesis
      proof (cases adm)
        case False
        with adm have a: "admit_at k now rt = (False, rt1)" by simp
        note refused = refused_step [OF inv k(2) a]
        have "validate_input (lb_engine (rt_blocks rt1 ! k)) (se_endpoint consumer) v = Inr j"
          using valid validate_input_cong [OF refused(4)] by simp
        from observe_step_propagates [OF cas refused(1) _ _ _ refused(2) this, of _ "pg_env pg"]
          e k(1) runnable room limits a pg refused(5,7,8) last
        show ?thesis by (simp add: trigger_consumer_def rt_def [symmetric] Let_def not_le)
      next
        case True
        with adm have a: "admit_at k now rt = (True, rt1)" by simp
        note admitted = admitted_step [OF inv k(2) a]
        note block = runtime_invD(3) [OF inv k(2)]
        define site where "site = (if pg_utc pg = None then default_site else rt_site rt1)"
        define probe where "probe = (if pg_utc pg = None then None
          else handler_probe (pg_probe pg) (length (cas_executions c)))"
        obtain ex eng where trigger: "engine_trigger (pg_env pg) (se_endpoint consumer) v now site
            (pg_utc pg) probe (lb_engine (rt_blocks rt ! k)) = (Inr ex, eng)"
          and runs: "runs_to now (lb_engine (rt_blocks rt ! k)) ex eng"
          using engine_trigger_step [OF block_okD(1) [OF block] valid block_okD(5) [OF block]] by blast
        have inv1: "runtime_inv config limits (Some now) (accepted now rt1)" using admitted(1) by simp
        have commute: "accepted now (set_engine k eng rt1) = set_engine k eng (accepted now rt1)"
          by (simp add: accepted_def set_engine_def set_block_def)
        obtain bx rt2 where f: "finish_execution k ex producing
            (set_engine k eng (accepted now rt1)) = (bx, rt2)" by fastforce
        note finished = finish_run [OF inv1 _ _ _ f, simplified, OF admitted(2,3) runs [folded admitted(4)]]
        let ?d = "\<lparr>cas_runtime = rt2, cas_executions = cas_executions c @ [bx]\<rparr>"
        have eq: "trigger_consumer recurse pg v producing consumer c
            = recurse (length (cas_executions c)) ?d"
          using e k(1) runnable room limits a pg trigger f commute admitted(4)
          by (cases "pg_utc pg")
            (simp_all add: trigger_consumer_def rt_def [symmetric] Let_def site_def probe_def)
        have budget: "length (cas_executions c) < execution_budget limits"
          using room by (simp add: execution_budget_def)
        have d: "cascade_inv config limits now base ?d"
          using cascade_inv_snoc [OF cas finished(1) _ finished(2) budget _ _ producing(2)]
            finished(4-6) producing(1) admitted(7) rt_def by simp
        have "propagates config limits now base (cost (bx_block_id bx) - 1) ?d
            (recurse (length (cas_executions c)) ?d)"
          using room recurse [OF d, of "length (cas_executions c)"] by simp
        moreover have "runnable_ids rt2 \<subseteq> runnable_ids rt"
          using finished(9) admitted(11) by simp
        then have "extends c ?d"
          using admitted(5,12) finished(3) by (auto simp: extends_def rt_def nth_append)
        moreover have "bx_block_id bx = se_block_id consumer" using finished(3) admitted(5) k(3) by simp
        ultimately show ?thesis
          unfolding eq using cost by (elim propagates_from) simp_all
      qed
    qed
  qed
qed

lemma execution_fits_core: "execution_fits config (execution_core bx) = execution_fits config bx"
  by (simp add: execution_fits_def execution_core_def)

lemma numbered_core:
  "numbered base (map bx_execution (map execution_core bxs)) = numbered base (map bx_execution bxs)"
  by (simp add: numbered_def execution_core_def)

lemma cascade_inv_core:
  assumes "cascade_inv config limits now base c"
    and core: "map execution_core (cas_executions d) = map execution_core (cas_executions c)"
    and "runtime_inv config limits (Some now) (cas_runtime d)"
    and "rt_last_accepted_at (cas_runtime d) = rt_last_accepted_at (cas_runtime c)"
    and "rt_next_execution_id (cas_runtime d) = rt_next_execution_id (cas_runtime c)"
    and "rt_blocks (cas_runtime d) = rt_blocks (cas_runtime c)"
  shows "cascade_inv config limits now base d" and "extends c d"
proof -
  have "execution_core ` set (cas_executions d) = execution_core ` set (cas_executions c)"
    using arg_cong [OF core, of set] by simp
  then have "\<forall>bx \<in> set (cas_executions d). execution_fits config bx"
    using assms(1) unfolding cascade_inv_def by (metis (no_types, lifting) execution_fits_core imageE imageI)
  moreover have len: "length (cas_executions d) = length (cas_executions c)"
    using map_eq_imp_length_eq [OF core] .
  moreover have "numbered base (map bx_execution (cas_executions d))
      = numbered base (map bx_execution (cas_executions c))"
    using core numbered_core by metis
  ultimately show "cascade_inv config limits now base d" using assms by (simp add: cascade_inv_def)
  show "extends c d" unfolding extends_def core len runnable_ids_cong [OF assms(6)] by auto
qed

lemma note_effect_core:
  "n < length (cas_executions c) \<Longrightarrow>
   map execution_core (cas_executions (note_effect n effect eligible c))
     = map execution_core (cas_executions c)"
  by (simp add: note_effect_def Let_def map_update execution_core_def list_update_same_conv)

lemma note_effect_runtime [simp]: "cas_runtime (note_effect n effect eligible c) = cas_runtime c"
  by (simp add: note_effect_def Let_def)

lemma set_signal_inv:
  assumes "runtime_inv config limits now rt" and "i < length (rt_signals rt)"
    and "tv_dpt v = sgc_dpt (rc_signals config ! i)"
    and "set_signal i v t producing rt = (changed, rt')"
  shows "runtime_inv config limits now rt'" and "rt_last_accepted_at rt' = rt_last_accepted_at rt"
    and "rt_next_execution_id rt' = rt_next_execution_id rt" and "rt_blocks rt' = rt_blocks rt"
    and "changed = (sg_value (rt_signals rt ! i) \<noteq> Some v)"
    and "sg_consumers (rt_signals rt' ! i) = sg_consumers (rt_signals rt ! i)"
    and "length (rt_signals rt') = length (rt_signals rt)"
proof -
  define g where "g = (rt_signals rt ! i)\<lparr>sg_value := Some v, sg_observed_at := Some t,
    sg_changed_at := (if changed then Some t else sg_changed_at (rt_signals rt ! i)),
    sg_producing_execution := producing\<rparr>"
  have rt': "rt' = rt\<lparr>rt_signals := (rt_signals rt)[i := g]\<rparr>"
    and changed: "changed = (sg_value (rt_signals rt ! i) \<noteq> Some v)"
    using assms(4) by (auto simp: set_signal_def Let_def g_def)
  have dpt: "sg_config (rt_signals rt ! i) = rc_signals config ! i"
    using realises_signal(2) [OF runtime_invD(1) [OF assms(1)] assms(2)] .
  have "map sg_config (rt_signals rt') = map sg_config (rt_signals rt)"
    "map sg_consumers (rt_signals rt') = map sg_consumers (rt_signals rt)"
    "map sg_producer (rt_signals rt') = map sg_producer (rt_signals rt)"
    by (simp_all add: rt' map_update list_update_same_conv assms(2) g_def)
  moreover have "rt_limits rt' = rt_limits rt" "rt_site rt' = rt_site rt"
    "rt_blocks rt' = rt_blocks rt" "rt_signal_indexes rt' = rt_signal_indexes rt"
    by (simp_all add: rt')
  ultimately have "realises config limits rt'"
    using runtime_invD(1) [OF assms(1)] unfolding realises_def by presburger
  moreover have "tv_dpt w = sgc_dpt (sg_config h)"
    if "h \<in> set (rt_signals rt')" "sg_value h = Some w" for h w
  proof -
    have "h = g \<or> h \<in> set (rt_signals rt)"
      using that(1) set_update_subset_insert [of "rt_signals rt" i g] by (auto simp: rt')
    then show ?thesis
      using that(2) assms(1,3) dpt by (auto simp: runtime_inv_def g_def)
  qed
  ultimately show "runtime_inv config limits now rt'"
    using assms(1) by (simp add: runtime_inv_def rt')
  show "rt_last_accepted_at rt' = rt_last_accepted_at rt"
    and "rt_next_execution_id rt' = rt_next_execution_id rt" and "rt_blocks rt' = rt_blocks rt"
    and "changed = (sg_value (rt_signals rt ! i) \<noteq> Some v)"
    and "sg_consumers (rt_signals rt' ! i) = sg_consumers (rt_signals rt ! i)"
    and "length (rt_signals rt') = length (rt_signals rt)"
    using changed assms(2) by (simp_all add: rt' g_def)
qed

lemma extends_id:
  "extends c d \<Longrightarrow> n < length (cas_executions c) \<Longrightarrow>
   ex_id (bx_execution (cas_executions d ! n)) = ex_id (bx_execution (cas_executions c ! n))"
  using extends_nth execution_core_eqD(2) by blast

text \<open>
  The executions that a block's cascade may need: its own and those of the blocks it feeds.
\<close>

definition cascade_costs :: "runtime_config \<Rightarrow> (block_id \<Rightarrow> nat) \<Rightarrow> bool" where
  "cascade_costs config cost \<longleftrightarrow> (\<forall>x. cost x = 1 + sum_list (map cost (fed_blocks config x)))"

text \<open>The number of cascades from a block, which the validation bounds, is such a cost.\<close>

definition cascade_cost :: "runtime_config \<Rightarrow> block_id \<Rightarrow> nat" where
  "cascade_cost config x = (THE n. cascades (fed_blocks config) x n)"

lemma cascade_cost_eq:
  "cascades (fed_blocks config) x n \<Longrightarrow> cascade_cost config x = n"
  unfolding cascade_cost_def by (blast intro: the_equality cascades_unique)

lemma cascade_cost_costs:
  assumes "runtime_config_wf features config limits"
  shows "cascade_costs config (cascade_cost config)"
  unfolding cascade_costs_def
proof
  fix x
  let ?g = "signal_graph config" and ?ids = "bc_id ` set (rc_blocks config)"
  have "finite (?ids \<times> ?ids)" by simp
  moreover have "?g \<subseteq> ?ids \<times> ?ids"
  proof (rule subrelI)
    fix y z assume "(y, z) \<in> ?g"
    then have "z \<in> set (fed_blocks config y)" by (simp add: signal_graph_def)
    moreover from this have "fed_blocks config y \<noteq> []" by auto
    ultimately show "(y, z) \<in> ?ids \<times> ?ids"
      using fed_blocks_ids(1) fed_blocks_ids(2) by (blast intro: SigmaI)
  qed
  ultimately have "finite ?g" by (rule finite_subset [rotated])
  moreover have "acyclic ?g" using assms by (simp add: runtime_config_wf_def)
  ultimately have "wf (?g\<inverse>)" by (rule finite_acyclic_wf_converse)
  then have wf: "wf {(y, x). y \<in> set (fed_blocks config x)}"
    by (simp add: signal_graph_def converse_unfold)
  obtain n where n: "cascades (fed_blocks config) x n" using cascades_total [OF wf] by blast
  then obtain ns where "n = Suc (sum_list ns)"
    and ns: "list_all2 (cascades (fed_blocks config)) (fed_blocks config x) ns"
    by (elim cascades_elim) auto
  moreover have "map (cascade_cost config) (fed_blocks config x) = ns"
    using ns by (induction rule: list_all2_induct) (simp_all add: cascade_cost_eq)
  ultimately show "cascade_cost config x
      = 1 + sum_list (map (cascade_cost config) (fed_blocks config x))"
    using cascade_cost_eq [OF n] by simp
qed

definition output_cost :: "runtime_config \<Rightarrow> (block_id \<Rightarrow> nat) \<Rightarrow> block_config \<Rightarrow> endpoint_name \<Rightarrow> nat" where
  "output_cost config cost b name =
     (case find (\<lambda>binding. sb_endpoint binding = name) (bc_signal_bindings b) of
        None \<Rightarrow> 0
      | Some binding \<Rightarrow>
          sum_list (map (\<lambda>consumer. cost (se_block_id consumer))
            (consumers_of config (sb_signal binding))))"

lemma publish_output_ok:
  assumes cas: "cascade_inv config limits now base c" and wf: "runtime_config_wf features config limits"
    and block: "b \<in> set (rc_blocks config)" "bc_id b = x"
    and fits: "output_effect_ok (bc_endpoints b) eff"
    and n: "n < length (cas_executions c)" "producing = ex_id (bx_execution (cas_executions c ! n))"
    and pg: "pg_now pg = now"
    and recurse: "\<And>k d. cascade_inv config limits now base d \<Longrightarrow> k < length (cas_executions d) \<Longrightarrow>
      length (cas_executions c) < length (cas_executions d) \<Longrightarrow>
      length (cas_executions d) \<le> max_cascade_executions limits \<Longrightarrow>
      propagates config limits now base (cost (bx_block_id (cas_executions d ! k)) - 1) d (recurse k d)"
    and cost: "cascade_costs config cost"
  shows "propagates config limits now base (output_cost config cost b (oe_endpoint eff)) c
    (publish_output recurse pg n x producing eff c)"
proof -
  define rt where "rt = cas_runtime c"
  have inv: "runtime_inv config limits (Some now) rt" and last: "rt_last_accepted_at rt = Some now"
    using cas by (simp_all add: cascade_inv_def rt_def)
  note real = runtime_invD(1) [OF inv]
  have "x \<in> set (map lb_id (rt_blocks rt))" using block realises_ids [OF real] by auto
  then have "find_block rt x \<noteq> None" by (auto simp: find_block_def find_None_iff)
  then obtain lb where lb: "find_block rt x = Some lb" by blast
  show ?thesis
  proof (cases "bound_signal rt lb (oe_endpoint eff)")
    case None
    with lb cas show ?thesis by (simp add: publish_output_def rt_def [symmetric] Let_def)
  next
    case (Some si)
    obtain s i where si: "si = (s, i)" by fastforce
    note bound = bound_signal_ok [OF real wf lb Some [unfolded si] block fits refl]
    obtain changed rt1 where set: "set_signal i (oe_value eff) now producing rt = (changed, rt1)"
      by fastforce
    note signal = set_signal_inv [OF inv bound(1,3) set]
    have consumers: "sg_consumers (rt_signals rt1 ! i)
        = consumers_of config (sgc_name (rc_signals config ! i))"
      using signal(6) realises_signal(3) [OF real bound(1)] by simp
    have i: "i < length (rc_signals config)" using realises_signal(1) [OF real bound(1)] .
    define d where "d = note_effect n
      \<lparr>sx_signal = s, sx_value = oe_value eff, sx_changed = changed,
       sx_producer = \<lparr>se_block_id = x, se_endpoint = oe_endpoint eff\<rparr>,
       sx_producing_execution = producing, sx_consumers = sg_consumers (rt_signals rt1 ! i)\<rparr>
      (if changed then filter (consumer_runnable rt1) (sg_consumers (rt_signals rt1 ! i)) else [])
      (c\<lparr>cas_runtime := rt1\<rparr>)"
    have d: "cascade_inv config limits now base d" "extends c d"
      using signal(1-4) last n(1) note_effect_core [of n "c\<lparr>cas_runtime := rt1\<rparr>"]
      by (intro cascade_inv_core [OF cas]; simp add: d_def rt_def)+
    have costs: "output_cost config cost b (oe_endpoint eff)
        = sum_list (map (\<lambda>consumer. cost (se_block_id consumer)) (sg_consumers (rt_signals rt1 ! i)))"
      using bound(2,4) consumers by (auto simp: output_cost_def)
    have "propagates config limits now base (output_cost config cost b (oe_endpoint eff)) d (if changed
        then for_each (trigger_consumer recurse pg (oe_value eff) producing)
          (sg_consumers (rt_signals rt1 ! i)) d
        else for_each (refresh_consumer pg (oe_value eff)) (sg_consumers (rt_signals rt1 ! i)) d)"
    proof (cases changed)
      case False
      have "propagates config limits now base (sum_list (map (\<lambda>_. 0) (sg_consumers (rt_signals rt1 ! i))))
          d (for_each (refresh_consumer pg (oe_value eff)) (sg_consumers (rt_signals rt1 ! i)) d)"
        using refresh_consumer_ok [OF _ wf _ i bound(3) pg] consumers
        by (intro for_each_propagates [OF d(1)]) simp
      then have "propagates config limits now base 0 d
          (for_each (refresh_consumer pg (oe_value eff)) (sg_consumers (rt_signals rt1 ! i)) d)"
        by simp
      from propagates_mono [OF this] False show ?thesis by simp
    next
      case True
      have "propagates config limits now base (cost (se_block_id consumer)) e
          (trigger_consumer recurse pg (oe_value eff) producing consumer e)"
        if "consumer \<in> set (sg_consumers (rt_signals rt1 ! i))"
          "cascade_inv config limits now base e" "extends d e" for consumer e
      proof (rule trigger_consumer_ok [OF that(2) wf _ i bound(3) pg])
        have ext: "extends c e" using extends_trans [OF d(2) that(3)] .
        show "producing = ex_id (bx_execution (cas_executions e ! n))"
          using extends_id [OF ext n(1)] n(2) by simp
        show "n < length (cas_executions e)" using extends_length [OF ext] n(1) by simp
        show "consumer \<in> set (consumers_of config (sgc_name (rc_signals config ! i)))"
          using that(1) consumers by simp
        show "0 < cost (se_block_id consumer)"
          using cost unfolding cascade_costs_def by (metis add_gr_0 zero_less_one)
        show "propagates config limits now base (cost (bx_block_id (cas_executions f ! k)) - 1) f
            (recurse k f)"
          if "cascade_inv config limits now base f" "k < length (cas_executions f)"
            "length (cas_executions e) < length (cas_executions f)"
            "length (cas_executions f) \<le> max_cascade_executions limits" for k f
          using recurse [OF that(1,2) _ that(4)] that(3) extends_length [OF ext] by simp
      qed
      then show ?thesis unfolding costs using True by (simp add: for_each_propagates [OF d(1)])
    qed
    moreover have "publish_output recurse pg n x producing eff c = (if changed
        then for_each (trigger_consumer recurse pg (oe_value eff) producing)
          (sg_consumers (rt_signals rt1 ! i)) d
        else for_each (refresh_consumer pg (oe_value eff)) (sg_consumers (rt_signals rt1 ! i)) d)"
      using lb Some si set pg
      by (simp add: publish_output_def rt_def [symmetric] Let_def d_def)
    moreover have "length (cas_executions d) = length (cas_executions c)"
      using note_effect_core [of n "c\<lparr>cas_runtime := rt1\<rparr>"] n(1)
      by (simp add: d_def) (metis length_map)
    ultimately show ?thesis using d(2) by (auto intro: propagates_from)
  qed
qed

text \<open>The outputs of an execution together cost what the blocks cost that its block feeds.\<close>

lemma sum_by_key:
  fixes g :: "'a \<Rightarrow> nat"
  assumes "distinct keys"
  shows "sum_list (map (\<lambda>k. sum_list (map g (filter (\<lambda>x. p x \<and> h x = k) xs))) keys)
    = sum_list (map g (filter (\<lambda>x. p x \<and> h x \<in> set keys) xs))"
proof (induction xs)
  case Nil
  show ?case by (induction keys) simp_all
next
  case (Cons x xs)
  have split: "sum_list (map (\<lambda>k. (if p x \<and> h x = k then g x else 0) + f k) keys)
      = (if p x \<and> h x \<in> set keys then g x else 0) + sum_list (map f keys)" for f
  proof -
    have "sum_list (map (\<lambda>k. if p x \<and> h x = k then g x else 0) keys)
        = (\<Sum>k \<in> set keys. if k = h x then (if p x then g x else 0) else 0)"
      using assms by (subst sum_list_distinct_conv_sum_set) (auto intro: sum.cong)
    then show ?thesis by (simp add: sum_list_addf)
  qed
  have "(\<lambda>k. sum_list (map g (filter (\<lambda>y. p y \<and> h y = k) (x # xs))))
      = (\<lambda>k. (if p x \<and> h x = k then g x else 0)
          + sum_list (map g (filter (\<lambda>y. p y \<and> h y = k) xs)))" by auto
  then show ?case using split [of "\<lambda>k. sum_list (map g (filter (\<lambda>y. p y \<and> h y = k) xs))"] Cons.IH
    by simp
qed

lemma sum_filter_mono:
  fixes g :: "'a \<Rightarrow> nat"
  assumes "\<And>x. p x \<Longrightarrow> q x"
  shows "sum_list (map g (filter p xs)) \<le> sum_list (map g (filter q xs))"
proof (induction xs)
  case (Cons x xs)
  then show ?case using assms [of x] by (cases "p x"; cases "q x") simp_all
qed simp

lemma output_costs:
  assumes wf: "runtime_config_wf features config limits" and b: "b \<in> set (rc_blocks config)"
    and names: "distinct names"
      "\<forall>name \<in> set names. \<exists>e \<in> set (bc_endpoints b). ep_name e = name \<and> ep_direction e = Output"
  shows "sum_list (map (output_cost config cost b) names)
    \<le> sum_list (map cost (fed_blocks config (bc_id b)))"
proof -
  let ?bbs = "bindings_of (rc_blocks config)"
  define f where "f name = find (\<lambda>binding. sb_endpoint binding = name) (bc_signal_bindings b)" for name
  define bound where "bound = filter (\<lambda>name. f name \<noteq> None) names"
  define signal_of where "signal_of name = sb_signal (the (f name))" for name
  have distinct: "distinct (map (sb_signal \<circ> snd) (filter publishes ?bbs))"
    and endpoints: "distinct (map ep_name (bc_endpoints b))"
    using wf b by (auto simp: runtime_config_wf_def block_config_wf_def engine_config_wf_def)
  have binding: "the (f name) \<in> set (bc_signal_bindings b)" "sb_endpoint (the (f name)) = name"
    "(b, the (f name)) \<in> set (filter publishes ?bbs)" if "name \<in> set bound" for name
  proof -
    obtain x where x: "f name = Some x" using \<open>name \<in> set bound\<close> by (auto simp: bound_def)
    show mem: "the (f name) \<in> set (bc_signal_bindings b)" and eq: "sb_endpoint (the (f name)) = name"
      using find_SomeD [OF x [unfolded f_def]] x by simp_all
    obtain e where e: "e \<in> set (bc_endpoints b)" "ep_name e = name" "ep_direction e = Output"
      using names(2) \<open>name \<in> set bound\<close> by (auto simp: bound_def)
    have "bound_endpoint (b, the (f name)) = Some e"
      using find_distinct [OF endpoints e(1)] e(2) eq by (simp add: bound_endpoint_def)
    with e(3) have "publishes (b, the (f name))" by (simp add: publishes_def)
    then show "(b, the (f name)) \<in> set (filter publishes ?bbs)"
      using mem b by (auto simp: bindings_of_def)
  qed
  have "inj_on signal_of (set bound)"
  proof (rule inj_onI)
    fix m n assume mn: "m \<in> set bound" "n \<in> set bound" "signal_of m = signal_of n"
    have inj: "inj_on (sb_signal \<circ> snd) (set (filter publishes ?bbs))"
      using distinct unfolding distinct_map by blast
    from mn(3) have "(sb_signal \<circ> snd) (b, the (f m)) = (sb_signal \<circ> snd) (b, the (f n))"
      by (simp only: signal_of_def comp_apply snd_conv)
    from inj_onD [OF inj this binding(3) [OF mn(1)] binding(3) [OF mn(2)]]
    have "the (f m) = the (f n)" by (simp only: prod.inject)
    with binding(2) [OF mn(1)] binding(2) [OF mn(2)] show "m = n" by metis
  qed
  then have keys: "distinct (map signal_of bound)"
    using names(1) by (simp add: distinct_map bound_def)
  have "sum_list (map (output_cost config cost b) names)
      = sum_list (map (output_cost config cost b) bound)"
    unfolding bound_def by (rule sum_list_map_filter [symmetric]) (simp add: output_cost_def f_def)
  also have "\<dots> = sum_list (map (\<lambda>s. sum_list (map (\<lambda>bb. cost (bc_id (fst bb)))
      (filter (\<lambda>bb. consumes bb \<and> sb_signal (snd bb) = s) ?bbs))) (map signal_of bound))"
    unfolding map_map
    by (rule arg_cong [where f = sum_list], rule map_cong [OF refl])
      (auto simp: output_cost_def f_def [symmetric] bound_def signal_of_def consumers_of_def comp_def
        binding_identity_def)
  also have "\<dots> = sum_list (map (\<lambda>bb. cost (bc_id (fst bb)))
      (filter (\<lambda>bb. consumes bb \<and> sb_signal (snd bb) \<in> set (map signal_of bound)) ?bbs))"
    by (rule sum_by_key [OF keys])
  also have "\<dots> \<le> sum_list (map (\<lambda>bb. cost (bc_id (fst bb)))
      (filter (\<lambda>bb. consumes bb \<and> feeds config (bc_id b) (sb_signal (snd bb))) ?bbs))"
  proof (rule sum_filter_mono)
    fix bb assume bb: "consumes bb \<and> sb_signal (snd bb) \<in> set (map signal_of bound)"
    then obtain name where name: "name \<in> set bound" "sb_signal (snd bb) = signal_of name" by auto
    with binding(3) [OF name(1)] have "feeds config (bc_id b) (sb_signal (snd bb))"
      unfolding feeds_def by (intro bexI [of _ "(b, the (f name))"]) (auto simp: signal_of_def)
    with bb show "consumes bb \<and> feeds config (bc_id b) (sb_signal (snd bb))" by simp
  qed
  also have "\<dots> = sum_list (map cost (fed_blocks config (bc_id b)))"
    by (simp add: fed_blocks_def comp_def)
  finally show ?thesis .
qed

text \<open>
  The recursion is bounded by the limit on the executions of a cascade: a nested call finds one
  execution more, and none is started at the limit.
\<close>

lemma propagate_ok:
  assumes "cascade_inv config limits now base c" and "runtime_config_wf features config limits"
    and "n < length (cas_executions c)" and "pg_now pg = now"
    and "0 < fuel" and "max_cascade_executions limits + 2 \<le> fuel + length (cas_executions c)"
    and "cascade_costs config cost"
  shows "propagates config limits now base (cost (bx_block_id (cas_executions c ! n)) - 1) c
    (propagate_from_execution fuel pg n c)"
  using assms
proof (induction fuel arbitrary: n c)
  case (Suc fuel)
  let ?bx = "cas_executions c ! n"
  show ?case
  proof (cases "check_probe (cas_runtime c) (pg_probe pg) (\<lambda>p. hp_propagate p n)")
    case (Inl e)
    then have "\<exists>k m. e = CascadeTimeLimit k m"
      by (auto simp: check_probe_def check_cascade_budget_def split: option.splits if_splits)
    with Inl Suc.prems(1) show ?thesis by (auto simp: propagates_def)
  next
    case (Inr u)
    show ?thesis
    proof (cases "ex_outcome (bx_execution ?bx)")
      case (Inl e)
      with Inr Suc.prems(1) show ?thesis by (simp add: Let_def)
    next
      case outcome: (Inr tr)
      have "execution_fits config ?bx" using Suc.prems(1,3) by (simp add: cascade_inv_def)
      then obtain b where b: "b \<in> set (rc_blocks config)" "bc_id b = bx_block_id ?bx"
        and outputs: "distinct (map oe_endpoint (tr_outputs tr))"
          "\<forall>eff \<in> set (tr_outputs tr). output_effect_ok (bc_endpoints b) eff"
        using outcome by (auto simp: execution_fits_def)
      have "propagates config limits now base (output_cost config cost b (oe_endpoint eff)) d
          (publish_output (propagate_from_execution fuel pg) pg n (bx_block_id ?bx)
            (ex_id (bx_execution ?bx)) eff d)"
        if eff: "eff \<in> set (tr_outputs tr)"
          and d: "cascade_inv config limits now base d" "extends c d" for eff d
      proof (rule publish_output_ok [OF d(1) Suc.prems(2) b(1,2)])
        show "output_effect_ok (bc_endpoints b) eff" using outputs(2) eff by simp
        show "n < length (cas_executions d)" using extends_length [OF d(2)] Suc.prems(3) by simp
        show "ex_id (bx_execution ?bx) = ex_id (bx_execution (cas_executions d ! n))"
          using extends_id [OF d(2) Suc.prems(3)] by simp
        show "pg_now pg = now" and "cascade_costs config cost" by fact+
        show "propagates config limits now base (cost (bx_block_id (cas_executions f ! k)) - 1) f
            (propagate_from_execution fuel pg k f)"
          if "cascade_inv config limits now base f" "k < length (cas_executions f)"
            "length (cas_executions d) < length (cas_executions f)"
            "length (cas_executions f) \<le> max_cascade_executions limits" for k f
          using that Suc.prems(2,4,6,7) extends_length [OF d(2)] by (intro Suc.IH) simp_all
      qed
      then have "propagates config limits now base
          (sum_list (map (\<lambda>eff. output_cost config cost b (oe_endpoint eff)) (tr_outputs tr))) c
          (for_each (publish_output (propagate_from_execution fuel pg) pg n (bx_block_id ?bx)
            (ex_id (bx_execution ?bx))) (tr_outputs tr) c)"
        by (intro for_each_propagates [OF Suc.prems(1)])
      moreover have "sum_list (map (\<lambda>eff. output_cost config cost b (oe_endpoint eff)) (tr_outputs tr))
          \<le> sum_list (map cost (fed_blocks config (bc_id b)))"
        using output_costs [OF Suc.prems(2) b(1) outputs(1), of cost] outputs(2)
        by (auto simp: comp_def output_effect_ok_def)
      moreover have "cost (bc_id b) = 1 + sum_list (map cost (fed_blocks config (bc_id b)))"
        using Suc.prems(7) unfolding cascade_costs_def by blast
      ultimately have "propagates config limits now base (cost (bx_block_id ?bx) - 1) c
          (for_each (publish_output (propagate_from_execution fuel pg) pg n (bx_block_id ?bx)
            (ex_id (bx_execution ?bx))) (tr_outputs tr) c)"
        using b(2) by (elim propagates_mono) simp
      then show ?thesis using Inr outcome by (simp add: Let_def)
    qed
  qed
qed simp

subsection \<open>Events with their cascades\<close>

definition cascade_ok ::
  "runtime_config \<Rightarrow> runtime_limits \<Rightarrow> monotonic_ms \<Rightarrow> runtime
     \<Rightarrow> (runtime_event_error + block_execution list) \<times> runtime \<Rightarrow> bool" where
  "cascade_ok config limits now rt result \<longleftrightarrow>
     (case fst result of
        Inl e \<Rightarrow>
          if should_rollback_after_propagation e
          then (rejection e \<or> (\<exists>r a m. e = ResourceLimit r a m)) \<and> snd result = rt
          else runtime_ok config limits (snd result)
            \<and> (\<forall>a m. e = CascadeLimit a m \<longrightarrow>
                  (\<exists>x \<in> runnable_ids rt. max_cascade_executions limits < cascade_cost config x))
      | Inr bxs \<Rightarrow>
          runtime_inv config limits (Some now) (snd result)
          \<and> rt_last_accepted_at (snd result) = Some now
          \<and> (bxs \<noteq> [] \<longrightarrow> validate_usage (snd result) = Inr ()
                \<and> length bxs \<le> cascade_cost config (bx_block_id (hd bxs)))
          \<and> length bxs \<le> execution_budget limits
          \<and> (\<forall>bx \<in> set bxs. execution_fits config bx \<and> bx_block_id bx \<in> runnable_ids rt)
          \<and> (unat (rt_next_execution_id rt) + execution_budget limits < 2 ^ 64 \<longrightarrow>
               numbered (rt_next_execution_id rt) (map bx_execution bxs)
               \<and> rt_next_execution_id (snd result)
                   = rt_next_execution_id rt + of_nat (length bxs)))"

lemma validate_usage_error: "validate_usage rt = Inl e \<Longrightarrow> \<exists>r a m. e = ResourceLimit r a m"
  by (auto simp: validate_usage_def Let_def split: if_splits)

lemma root_cascade_inv:
  assumes "event_ok config limits now rt (Inr (Some bx), rt')"
  shows "cascade_inv config limits now (rt_next_execution_id rt)
    \<lparr>cas_runtime = rt', cas_executions = [bx]\<rparr>"
  using assms saturating_add_next [of "rt_next_execution_id rt" 0]
  by (auto simp: cascade_inv_def event_ok_def numbered_def execution_budget_def)

lemma finish_cascade_ok:
  assumes event: "event_ok config limits now rt (Inr (Some bx), rt')"
    and wf: "runtime_config_wf features config limits" and pg: "pg_now pg = now"
  shows "cascade_ok config limits now rt (finish_cascade pg rt bx rt')"
proof -
  let ?c = "\<lparr>cas_runtime = rt', cas_executions = [bx]\<rparr>"
  let ?id = "rt_next_execution_id rt" and ?k = "cascade_cost config (bx_block_id bx)"
  note c = root_cascade_inv [OF event]
  have root: "bx_block_id bx \<in> runnable_ids rt" "runnable_ids rt' \<subseteq> runnable_ids rt"
    using event by (simp_all add: event_ok_def)
  have "0 < ?k" using cascade_cost_costs [OF wf] unfolding cascade_costs_def
    by (metis add_gr_0 zero_less_one)
  have "rt_limits rt' = limits" using c runtime_invD(2) by (fastforce simp: cascade_inv_def)
  then have fuel: "cascade_fuel rt' = max_cascade_executions limits + 1" by (simp add: cascade_fuel_def)
  obtain r d where run: "propagate_from_execution (cascade_fuel rt') pg 0 ?c = (r, d)" by fastforce
  have result: "propagates config limits now ?id (?k - 1) ?c (r, d)"
    using propagate_ok [OF c wf _ pg _ _ cascade_cost_costs [OF wf], of 0 "cascade_fuel rt'"] run fuel
    by simp
  then have d: "cascade_inv config limits now ?id d" "extends ?c d"
    and len: "length (cas_executions d) \<le> ?k"
    using \<open>0 < ?k\<close> by (simp_all add: propagates_def)
  have ids: "\<forall>ex \<in> set (cas_executions d). bx_block_id ex \<in> runnable_ids rt"
  proof
    fix ex assume "ex \<in> set (cas_executions d)"
    then obtain n where n: "n < length (cas_executions d)" "ex = cas_executions d ! n"
      by (auto simp: in_set_conv_nth)
    show "bx_block_id ex \<in> runnable_ids rt"
    proof (cases n)
      case 0
      then have "execution_core ex = execution_core bx" using extends_nth [OF d(2), of 0] n(2) by simp
      then show ?thesis using root(1) execution_core_eqD(1) by metis
    next
      case (Suc k)
      with d(2) n root(2) show ?thesis by (auto simp: extends_def)
    qed
  qed
  have "execution_core (cas_executions d ! 0) = execution_core bx"
    using extends_nth [OF d(2), of 0] by simp
  moreover have "cas_executions d \<noteq> []" using extends_length [OF d(2)] by auto
  ultimately have hd: "bx_block_id (hd (cas_executions d)) = bx_block_id bx"
    by (metis hd_conv_nth execution_core_eqD(1))
  show ?thesis
  proof (cases r)
    case (Inl e)
    with result have e: "\<not> should_rollback_after_propagation e" by (simp add: propagates_def)
    have "max_cascade_executions limits < ?k" if "e = CascadeLimit a m" for a m
      using result Inl that \<open>0 < ?k\<close> by (auto simp: propagates_def not_less [symmetric])
    with e Inl run d(1) root(1) show ?thesis
      by (auto simp: finish_cascade_def cascade_ok_def cascade_inv_def runtime_ok_def)
  next
    case (Inr u)
    show ?thesis
    proof (cases "validate_usage (cas_runtime d)")
      case (Inl e)
      with validate_usage_error [OF Inl] Inr run show ?thesis
        by (auto simp: finish_cascade_def cascade_ok_def)
    next
      case usage: (Inr v)
      with Inr run d(1) ids hd len show ?thesis
        by (auto simp: finish_cascade_def cascade_ok_def cascade_inv_def)
    qed
  qed
qed

lemma rejection_rolls_back: "rejection e \<Longrightarrow> should_rollback_after_propagation e"
  by (cases e) simp_all

text \<open>A single-block operation followed by its cascade, when an error keeps or restores the runtime.\<close>

lemma event_with_cascade:
  assumes "event_ok config limits now rt (r, rt')" and "runtime_config_wf features config limits"
    and "\<And>bx. r = Inr (Some bx) \<Longrightarrow> pg_now pg = now"
  shows "cascade_ok config limits now rt
    (case r of Inl e \<Rightarrow> (Inl e, rt)
     | Inr None \<Rightarrow> (Inr [], rt')
     | Inr (Some bx) \<Rightarrow> finish_cascade pg rt bx rt')"
proof (cases r)
  case (Inl e)
  with event_okD(1) [OF assms(1)] rejection_rolls_back show ?thesis by (auto simp: cascade_ok_def)
next
  case (Inr x)
  show ?thesis
  proof (cases x)
    case None
    with Inr assms(1) show ?thesis by (auto simp: cascade_ok_def event_ok_def numbered_def)
  next
    case (Some bx)
    with Inr finish_cascade_ok [OF _ assms(2) assms(3)] assms(1) show ?thesis by simp
  qed
qed

text \<open>The events of a runtime, as its callers deliver them.\<close>

datatype runtime_event =
    InputNow block_id endpoint_name typed_value monotonic_ms
  | InputSampled block_id endpoint_name typed_value clock_sample "host_probe option"
  | TimerNow monotonic_ms
  | TimerSampled clock_sample "host_probe option"
  | ScheduleNow schedule_trigger
  | ScheduleSampled schedule_trigger clock_sample "host_probe option"
  | UpdateNow block_id endpoint_name input_update monotonic_ms
  | UpdateSampled block_id endpoint_name input_update clock_sample "host_probe option"

fun handle_event ::
  "environment \<Rightarrow> runtime_event \<Rightarrow> runtime
     \<Rightarrow> (runtime_event_error + block_execution list) \<times> runtime" where
  "handle_event env (InputNow x name v now) rt = process_input_cascade env x name v now rt"
| "handle_event env (InputSampled x name v sample probe) rt =
     process_input_cascade_sampled env x name v sample probe rt"
| "handle_event env (TimerNow now) rt = process_next_due_timer_cascade env now rt"
| "handle_event env (TimerSampled sample probe) rt =
     process_next_due_timer_cascade_sampled env sample probe rt"
| "handle_event env (ScheduleNow t) rt = process_schedule_cascade env t rt"
| "handle_event env (ScheduleSampled t sample probe) rt =
     process_schedule_cascade_sampled env t sample probe rt"
| "handle_event env (UpdateNow x name update now) rt = process_input_update env x name update now rt"
| "handle_event env (UpdateSampled x name update sample probe) rt =
     process_input_update_sampled env x name update sample probe rt"

fun event_time :: "runtime_event \<Rightarrow> runtime \<Rightarrow> monotonic_ms" where
  "event_time (InputNow x name v now) rt = now"
| "event_time (InputSampled x name v sample probe) rt = cs_monotonic_ms sample"
| "event_time (TimerNow now) rt = now"
| "event_time (TimerSampled sample probe) rt = cs_monotonic_ms sample"
| "event_time (ScheduleNow t) rt =
     (case rt_last_accepted_at rt of None \<Rightarrow> 0 | Some now \<Rightarrow> now)"
| "event_time (ScheduleSampled t sample probe) rt = cs_monotonic_ms sample"
| "event_time (UpdateNow x name update now) rt = now"
| "event_time (UpdateSampled x name update sample probe) rt = cs_monotonic_ms sample"

lemma cascade_of_event:
  assumes "event_ok config limits now rt result" and "runtime_config_wf features config limits"
    and "\<And>bx rt'. result = (Inr (Some bx), rt') \<Longrightarrow> pg_now (pg rt') = now"
    and "\<And>e rt'. result = (Inl e, rt') \<Longrightarrow> f (Inl e, rt') = (Inl e, rt)"
    and "\<And>rt'. result = (Inr None, rt') \<Longrightarrow> f (Inr None, rt') = (Inr [], rt')"
    and "\<And>bx rt'. result = (Inr (Some bx), rt') \<Longrightarrow>
      f (Inr (Some bx), rt') = finish_cascade (pg rt') rt bx rt'"
  shows "cascade_ok config limits now rt (f result)"
proof -
  obtain r rt' where result: "result = (r, rt')" by fastforce
  have "cascade_ok config limits now rt
    (case r of Inl e \<Rightarrow> (Inl e, rt)
     | Inr None \<Rightarrow> (Inr [], rt')
     | Inr (Some bx) \<Rightarrow> finish_cascade (pg rt') rt bx rt')"
    using assms(1,3) result by (intro event_with_cascade [OF _ assms(2)]) auto
  with assms(4-6) result show ?thesis by (auto split: sum.splits option.splits)
qed

lemma handle_event_ok:
  assumes ok: "runtime_ok config limits rt" and wf: "runtime_config_wf features config limits"
  shows "cascade_ok config limits (event_time ev rt) rt (handle_event env ev rt)"
proof (cases ev)
  case (InputNow x name v now)
  have event: "event_ok config limits now rt (process_input env x name v now rt)"
    unfolding process_input_def by (rule process_input_at_ok [OF ok])
  show ?thesis
    unfolding InputNow handle_event.simps event_time.simps process_input_cascade_def
    by (rule cascade_of_event [OF event wf, where pg =
          "\<lambda>_. \<lparr>pg_env = env, pg_now = now, pg_utc = None, pg_probe = None\<rparr>"])
      (use event in \<open>auto dest: event_okD(1)\<close>)
next
  case (InputSampled x name v sample probe)
  let ?now = "cs_monotonic_ms sample"
  have event: "event_ok config limits ?now rt
      (process_input_sampled env x name v sample (handler_probe probe 0) rt)"
    unfolding process_input_sampled_def by (rule process_input_at_ok [OF ok])
  show ?thesis
  proof (cases "check_probe rt probe hp_start")
    case (Inl e)
    then have "\<not> should_rollback_after_propagation e \<and> (\<forall>a m. e \<noteq> CascadeLimit a m)"
      by (auto simp: check_probe_def check_cascade_budget_def split: option.splits if_splits)
    with Inl ok show ?thesis
      by (simp add: InputSampled process_input_cascade_sampled_def cascade_ok_def)
  next
    case (Inr u)
    then have eq: "process_input_cascade_sampled env x name v sample probe rt =
        (case process_input_sampled env x name v sample (handler_probe probe 0) rt of
           (Inl err, _) \<Rightarrow> (Inl err, rt)
         | (Inr None, rt') \<Rightarrow> (Inr [], rt')
         | (Inr (Some first), rt') \<Rightarrow>
             finish_cascade (sampled_propagation env sample probe) rt first rt')"
      by (simp add: process_input_cascade_sampled_def)
    show ?thesis
      unfolding InputSampled handle_event.simps event_time.simps eq
      by (rule cascade_of_event [OF event wf, where pg = "\<lambda>_. sampled_propagation env sample probe"])
        (auto simp: sampled_propagation_def)
  qed
next
  case (TimerNow now)
  have event: "event_ok config limits now rt (process_next_due_timer env now rt)"
    unfolding process_next_due_timer_def by (rule process_next_due_timer_at_step(1) [OF ok refl])
  show ?thesis
    unfolding TimerNow handle_event.simps event_time.simps process_next_due_timer_cascade_def
    by (rule cascade_of_event [OF event wf, where pg =
          "\<lambda>_. \<lparr>pg_env = env, pg_now = now, pg_utc = None, pg_probe = None\<rparr>"])
      (use event in \<open>auto dest: event_okD(1)\<close>)
next
  case (TimerSampled sample probe)
  have event: "event_ok config limits (cs_monotonic_ms sample) rt
      (process_next_due_timer_sampled env sample (handler_probe probe 0) rt)"
    unfolding process_next_due_timer_sampled_def
    by (rule process_next_due_timer_at_step(1) [OF ok refl])
  show ?thesis
    unfolding TimerSampled handle_event.simps event_time.simps
      process_next_due_timer_cascade_sampled_def
    by (rule cascade_of_event [OF event wf, where pg = "\<lambda>_. sampled_propagation env sample probe"])
      (use event in \<open>auto simp: sampled_propagation_def dest: event_okD(1)\<close>)
next
  case (ScheduleNow t)
  let ?now = "case rt_last_accepted_at rt of None \<Rightarrow> 0 | Some now \<Rightarrow> now"
  have event: "event_ok config limits ?now rt (process_schedule env t rt)"
    unfolding process_schedule_def
    using process_schedule_sampled_ok [OF ok, of "\<lparr>cs_monotonic_ms = ?now,
        cs_utc_unix_ms = Some (st_scheduled_for_utc_ms t)\<rparr>" env t None] by simp
  show ?thesis
    unfolding ScheduleNow handle_event.simps event_time.simps process_schedule_cascade_def
    by (rule cascade_of_event [OF event wf, where pg =
          "\<lambda>rt'. \<lparr>pg_env = env,
             pg_now = (case rt_last_accepted_at rt' of None \<Rightarrow> 0 | Some now \<Rightarrow> now),
             pg_utc = Some (st_scheduled_for_utc_ms t), pg_probe = None\<rparr>"])
      (use event in \<open>auto dest: event_okD(1) event_okD(2)\<close>)
next
  case (ScheduleSampled t sample probe)
  note event = process_schedule_sampled_ok [OF ok, of sample env t "handler_probe probe 0"]
  show ?thesis
    unfolding ScheduleSampled handle_event.simps event_time.simps process_schedule_cascade_sampled_def
    by (rule cascade_of_event [OF event wf, where pg = "\<lambda>_. sampled_propagation env sample probe"])
      (use event in \<open>auto simp: sampled_propagation_def dest: event_okD(1)\<close>)
next
  case (UpdateNow x name update now)
  let ?sample = "\<lparr>cs_monotonic_ms = now, cs_utc_unix_ms = None\<rparr>"
  note event = process_input_update_single_ok [OF ok, of ?sample env x name update None]
  show ?thesis
    unfolding UpdateNow handle_event.simps event_time.simps process_input_update_def
      process_input_update_sampled_def
    by (rule cascade_of_event [OF event [simplified] wf,
          where pg = "\<lambda>_. sampled_propagation env ?sample None"])
      (auto simp: sampled_propagation_def)
next
  case (UpdateSampled x name update sample probe)
  note event = process_input_update_single_ok [OF ok, of sample env x name update probe]
  show ?thesis
    unfolding UpdateSampled handle_event.simps event_time.simps process_input_update_sampled_def
    by (rule cascade_of_event [OF event wf, where pg = "\<lambda>_. sampled_propagation env sample probe"])
      (auto simp: sampled_propagation_def)
qed

end
