(* ===== verification/Runtime_Lifecycle.thy ===== *)
theory Runtime_Lifecycle
  imports Cascade_Correctness
begin

text \<open>
  Construction, activation, resumption and the upkeep of schedules preserve the runtime's
  invariant; so every runtime that the operations reach from a validated configuration satisfies
  it.
\<close>

subsection \<open>Construction\<close>

lemma logic_block_try_new_ok:
  assumes "logic_block_try_new env config limits = Inr b"
  shows "block_ok limits None b" and "lb_config b = config"
proof -
  obtain eng where eng: "engine_try_new_with_limits env
      \<lparr>ec_endpoints = bc_endpoints config, ec_logic = bc_logic config\<rparr> limits = Inr eng"
    and b: "b = \<lparr>lb_config = config, lb_engine = eng, lb_health = initial_health (bc_enabled config),
      lb_consecutive_failures = 0, lb_live_execution_times = [], lb_last_suspension = None\<rparr>"
    using assms by (auto simp: logic_block_try_new_def result_simps)
  have fresh: "eng_pending_timers eng = []" "eng_last_accepted_at eng = None"
    using eng by (auto simp: engine_try_new_with_limits_def result_simps)
  show "block_ok limits None b" and "lb_config b = config"
    using engine_try_new_ok [OF eng] fresh by (simp_all add: block_ok_def b)
qed

text \<open>A block and a runtime just constructed.\<close>

definition fresh_block :: "runtime_limits \<Rightarrow> block_config \<Rightarrow> logic_block" where
  "fresh_block limits c =
     \<lparr>lb_config = c,
      lb_engine =
        \<lparr>eng_config = \<lparr>ec_endpoints = bc_endpoints c, ec_logic = bc_logic c\<rparr>, eng_limits = limits,
         eng_inputs = replicate (length (bc_endpoints c)) input_unknown,
         eng_state = [], eng_pending_timers = [], eng_last_accepted_at = None\<rparr>,
      lb_health = initial_health (bc_enabled c), lb_consecutive_failures = 0,
      lb_live_execution_times = [], lb_last_suspension = None\<rparr>"

lemma logic_block_try_new_fresh:
  assumes "block_config_validate_with_limits env c limits = Inr ()"
  shows "logic_block_try_new env c limits = Inr (fresh_block limits c)"
proof -
  have "engine_config_validate_with_limits (env_vm env)
      \<lparr>ec_endpoints = bc_endpoints c, ec_logic = bc_logic c\<rparr> limits = Inr ()"
    using assms by (auto simp: block_config_validate_with_limits_def result_simps Let_def split: if_splits)
  with assms show ?thesis
    by (simp add: logic_block_try_new_def engine_try_new_with_limits_def fresh_block_def)
qed

lemma logic_blocks_try_new_fresh:
  assumes "\<forall>c \<in> set configs. block_config_validate_with_limits env c limits = Inr ()"
  shows "logic_blocks_try_new env limits configs = Inr (map (fresh_block limits) configs)"
proof -
  have "try_fold (\<lambda>blocks config. result_bind (logic_block_try_new env config limits)
      (\<lambda>b. Inr (blocks @ [b]))) bs configs = Inr (bs @ map (fresh_block limits) configs)" for bs
    using assms by (induction configs arbitrary: bs) (simp_all add: logic_block_try_new_fresh)
  from this [of "[]"] show ?thesis by (simp add: logic_blocks_try_new_def)
qed

text \<open>
  The signals after connecting some of the bindings: each knows the consumers and the producer
  among them.
\<close>

definition connected ::
  "(block_config \<times> signal_binding) list \<Rightarrow> signal_config list \<Rightarrow> signal_state list" where
  "connected bbs configs = map (\<lambda>c. (new_signal c)
     \<lparr>sg_consumers := map binding_identity
        (filter (\<lambda>bb. consumes bb \<and> sb_signal (snd bb) = sgc_name c) bbs),
      sg_producer := map_option binding_identity
        (find (\<lambda>bb. publishes bb \<and> sb_signal (snd bb) = sgc_name c) bbs)\<rparr>) configs"

lemma connect_binding_step:
  assumes wf: "distinct (map sgc_name configs)" and typed: "binding_typed configs bb"
    and fresh: "publishes bb \<Longrightarrow> \<forall>old \<in> set bbs. publishes old \<longrightarrow> sb_signal (snd old) \<noteq> sb_signal (snd bb)"
  shows "connect_binding (index_signals configs) (connected bbs configs) bb
    = Inr (connected (bbs @ [bb]) configs)"
proof -
  obtain signal e where signal: "find (\<lambda>s. sgc_name s = sb_signal (snd bb)) configs = Some signal"
    and e: "find (\<lambda>e. ep_name e = sb_endpoint (snd bb)) (bc_endpoints (fst bb)) = Some e"
    using typed by (auto simp: binding_typed_def bound_endpoint_def)
  obtain i where i: "position (\<lambda>c. sgc_name c = sb_signal (snd bb)) configs = Some i"
    using signal by (auto simp: find_as_position)
  note at_i = position_SomeD [OF i]
  have name: "ep_name e = sb_endpoint (snd bb)" using find_SomeD [OF e] by simp
  have other: "sgc_name (configs ! j) \<noteq> sb_signal (snd bb)" if "j < length configs" "j \<noteq> i" for j
    using that at_i wf by (metis distinct_conv_nth length_map nth_map)
  have direction: "consumes bb \<longleftrightarrow> ep_direction e \<noteq> Output" "publishes bb \<longleftrightarrow> ep_direction e = Output"
    using e by (auto simp: consumes_def publishes_def bound_endpoint_def intro: endpoint_direction.exhaust)
  have none: "find (\<lambda>b. publishes b \<and> sb_signal (snd b) = sb_signal (snd bb)) bbs = None"
    if "publishes bb" using fresh [OF that] by (auto simp: find_None_iff)
  let ?g = "connected bbs configs ! i"
  let ?identity = "\<lparr>se_block_id = bc_id (fst bb), se_endpoint = ep_name e\<rparr>"
  have "connect_binding (index_signals configs) (connected bbs configs) bb
      = Inr ((connected bbs configs)[i := (if ep_direction e = Output
          then ?g\<lparr>sg_producer := Some ?identity\<rparr>
          else ?g\<lparr>sg_consumers := sg_consumers ?g @ [?identity]\<rparr>)])"
    using e i index_signals_get [OF wf] by (simp add: connect_binding_def ok_or_def Let_def)
  also have "\<dots> = Inr (connected (bbs @ [bb]) configs)"
  proof (rule arg_cong [where f = Inr], rule nth_equalityI)
    fix j
    assume "j < length ((connected bbs configs)[i := (if ep_direction e = Output
          then ?g\<lparr>sg_producer := Some ?identity\<rparr>
          else ?g\<lparr>sg_consumers := sg_consumers ?g @ [?identity]\<rparr>)])"
    then have j: "j < length configs" by (simp add: connected_def)
    show "(connected bbs configs)[i := (if ep_direction e = Output
          then ?g\<lparr>sg_producer := Some ?identity\<rparr>
          else ?g\<lparr>sg_consumers := sg_consumers ?g @ [?identity]\<rparr>)] ! j
        = connected (bbs @ [bb]) configs ! j"
    proof (cases "j = i")
      case True
      then show ?thesis
        using j at_i direction none name
        by (auto simp: connected_def find_append binding_identity_def split: option.splits)
    next
      case False
      with j other [OF j False] not_sym [OF other [OF j False]] show ?thesis
        by (simp add: connected_def find_append split: option.splits)
    qed
  qed (simp add: connected_def)
  finally show ?thesis .
qed

lemma connect_bindings:
  assumes "distinct (map sgc_name configs)" and "\<forall>bb \<in> set rest. binding_typed configs bb"
    and "distinct (map (sb_signal \<circ> snd) (filter publishes (bbs @ rest)))"
  shows "try_fold (connect_binding (index_signals configs)) (connected bbs configs) rest
    = Inr (connected (bbs @ rest) configs)"
  using assms
proof (induction rest arbitrary: bbs)
  case (Cons bb rest)
  have "connect_binding (index_signals configs) (connected bbs configs) bb
      = Inr (connected (bbs @ [bb]) configs)"
  proof (rule connect_binding_step)
    assume "publishes bb"
    with Cons.prems(3) have "sb_signal (snd bb) \<notin> (sb_signal \<circ> snd) ` {old \<in> set bbs. publishes old}"
      by simp
    then show "\<forall>old \<in> set bbs. publishes old \<longrightarrow> sb_signal (snd old) \<noteq> sb_signal (snd bb)"
      by (metis (mono_tags, lifting) comp_apply image_eqI mem_Collect_eq)
  qed (use Cons.prems in simp_all)
  then show ?case using Cons.IH [of "bbs @ [bb]"] Cons.prems by simp
qed simp

definition fresh_runtime :: "runtime_config \<Rightarrow> runtime_limits \<Rightarrow> runtime" where
  "fresh_runtime config limits =
     \<lparr>rt_limits = limits, rt_blocks = map (fresh_block limits) (rc_blocks config),
      rt_signals = connected (bindings_of (rc_blocks config)) (rc_signals config),
      rt_signal_indexes = index_signals (rc_signals config), rt_last_accepted_at = None,
      rt_next_execution_id = 1, rt_site = rc_site config, rt_schedule_cursors = [],
      rt_schedule_structural_revision = None, rt_last_schedule_wall_clock_utc_ms = None\<rparr>"

lemma validated_blocks:
  assumes "runtime_config_validate_with_limits env config limits = Inr ()"
  shows "\<forall>c \<in> set (rc_blocks config). block_config_validate_with_limits env c limits = Inr ()"
proof -
  have "check_with_earlier (check_block env limits) [] (rc_blocks config) = Inr ()"
    using validate_stages [OF assms] by blast
  then show ?thesis unfolding check_blocks_ok by blast
qed

lemma runtime_try_new_eq:
  assumes "runtime_config_validate_with_limits env config limits = Inr ()"
  shows "runtime_try_new_with_limits env config limits = Inr (fresh_runtime config limits)"
proof -
  note wf = validated_wf [OF assms, unfolded runtime_config_wf_def]
  have same: "map lb_config (map (fresh_block limits) (rc_blocks config)) = rc_blocks config"
    by (simp add: comp_def fresh_block_def)
  have "connected [] (rc_signals config) = map new_signal (rc_signals config)"
    by (simp add: connected_def new_signal_def)
  with connect_bindings [of "rc_signals config" "bindings_of (rc_blocks config)" "[]"] wf
  have "try_fold (connect_binding (index_signals (rc_signals config)))
      (map new_signal (rc_signals config)) (bindings_of (rc_blocks config))
      = Inr (connected (bindings_of (rc_blocks config)) (rc_signals config))" by simp
  then show ?thesis
    unfolding runtime_try_new_with_limits_def assms result_bind_Inr Let_def same
      logic_blocks_try_new_fresh [OF validated_blocks [OF assms]]
    by (simp add: fresh_runtime_def)
qed

text \<open>
  C8. Construction accepts exactly the configurations that validate, with the error of the
  validation otherwise, and returns the fresh runtime: one block per configured block with unknown
  inputs, no state, no timers and the health its enablement says, and one signal per configured
  signal that knows all its consumers in configuration order and its producer. No lookup of the
  wiring fails.
\<close>

theorem construction_is_validation:
  "runtime_try_new_with_limits env config limits =
     (case runtime_config_validate_with_limits env config limits of
        Inl e \<Rightarrow> Inl e
      | Inr _ \<Rightarrow> Inr (fresh_runtime config limits))"
proof (cases "runtime_config_validate_with_limits env config limits")
  case (Inl e)
  then show ?thesis by (simp add: runtime_try_new_with_limits_def)
next
  case (Inr u)
  then have "runtime_config_validate_with_limits env config limits = Inr ()" by simp
  from runtime_try_new_eq [OF this] Inr show ?thesis by simp
qed

lemma runtime_try_new_ok:
  assumes "runtime_try_new_with_limits env config limits = Inr rt"
  shows "runtime_ok config limits rt"
proof -
  have valid: "runtime_config_validate_with_limits env config limits = Inr ()"
    using assms by (auto simp: runtime_try_new_with_limits_def result_simps)
  have rt: "rt = fresh_runtime config limits" using runtime_try_new_eq [OF valid] assms by simp
  have "block_ok limits None (fresh_block limits c)" if "c \<in> set (rc_blocks config)" for c
    using logic_block_try_new_ok(1) logic_block_try_new_fresh validated_blocks [OF valid] that by blast
  moreover have "map (\<lambda>b. block_skeleton (lb_config b)) (map (fresh_block limits) (rc_blocks config))
      = map block_skeleton (rc_blocks config)"
    by (simp add: fresh_block_def)
  then have "realises config limits rt"
    by (simp add: realises_def rt fresh_runtime_def connected_def comp_def new_signal_def
        consumers_of_def producer_of_def)
  ultimately show ?thesis
    by (auto simp: runtime_ok_def runtime_inv_def rt fresh_runtime_def connected_def new_signal_def)
qed

subsection \<open>Activation\<close>

text \<open>What an update does to its block, and what it reports.\<close>

definition activated_block :: "block_activation \<Rightarrow> logic_program option \<Rightarrow> logic_block \<Rightarrow> logic_block" where
  "activated_block update program b =
     (case apply_source program b of (_, cancelled, b) \<Rightarrow>
        snd (snd (apply_enabled (ba_enabled update) cancelled b)))"

definition activation_report ::
  "block_activation \<Rightarrow> logic_program option \<Rightarrow> logic_block \<Rightarrow> block_activation_result" where
  "activation_report update program b =
     (case apply_source program b of (source_changed, cancelled, b1) \<Rightarrow>
        (case apply_enabled (ba_enabled update) cancelled b1 of
           (enabled_changed, cancelled, b2) \<Rightarrow>
             \<lparr>bar_block_id = lb_id b2, bar_logic_revision = active_logic_revision (lb_engine b2),
              bar_enabled = lb_enabled b2, bar_source_changed = source_changed,
              bar_enabled_changed = enabled_changed,
              bar_cancelled_timers = dedup (sort cancelled)\<rparr>))"

lemma activate_block_eq:
  "\<exists>cursors. activate_block (update, i, program) (results, rt) =
     (results @ [activation_report update program (rt_blocks rt ! i)],
      (set_block i (activated_block update program (rt_blocks rt ! i)) rt)
        \<lparr>rt_schedule_cursors := cursors\<rparr>)"
proof -
  obtain source cancelled b1 where a: "apply_source program (rt_blocks rt ! i) = (source, cancelled, b1)"
    by (metis prod_cases3)
  obtain enabled cancelled2 b2 where e: "apply_enabled (ba_enabled update) cancelled b1
      = (enabled, cancelled2, b2)" by (metis prod_cases3)
  show ?thesis
    using a e
    by (intro exI [of _ "if enabled then invalidate_cursors (lb_id b2) (rt_schedule_cursors rt)
          else rt_schedule_cursors rt"])
      (simp add: activate_block_def activation_report_def activated_block_def Let_def set_block_def)
qed

lemma activate_blocks:
  assumes "length updates = length prepared" and "distinct (map fst prepared)"
    and "\<forall>ip \<in> set prepared. fst ip < length (rt_blocks rt)"
  shows "\<exists>bs cursors. foldl (\<lambda>state step. activate_block step state) (results, rt) (zip updates prepared) =
      (results @ map (\<lambda>(u, i, p). activation_report u p (rt_blocks rt ! i)) (zip updates prepared),
       rt\<lparr>rt_blocks := bs, rt_schedule_cursors := cursors\<rparr>)
    \<and> length bs = length (rt_blocks rt)
    \<and> (\<forall>(u, i, p) \<in> set (zip updates prepared). bs ! i = activated_block u p (rt_blocks rt ! i))
    \<and> (\<forall>i < length bs. i \<notin> fst ` set prepared \<longrightarrow> bs ! i = rt_blocks rt ! i)"
  using assms
proof (induction updates prepared arbitrary: results rt rule: list_induct2)
  case Nil
  show ?case
    by (rule exI [of _ "rt_blocks rt"], rule exI [of _ "rt_schedule_cursors rt"]) simp
next
  case (Cons u updates ip prepared)
  obtain i p where ip: "ip = (i, p)" by fastforce
  have i: "i < length (rt_blocks rt)" "i \<notin> fst ` set prepared" "distinct (map fst prepared)"
    using Cons.prems ip by auto
  obtain cursors where step: "activate_block (u, i, p) (results, rt) =
      (results @ [activation_report u p (rt_blocks rt ! i)],
       (set_block i (activated_block u p (rt_blocks rt ! i)) rt)\<lparr>rt_schedule_cursors := cursors\<rparr>)"
    using activate_block_eq by blast
  let ?rt = "(set_block i (activated_block u p (rt_blocks rt ! i)) rt)\<lparr>rt_schedule_cursors := cursors\<rparr>"
  have bound: "\<forall>ip \<in> set prepared. fst ip < length (rt_blocks ?rt)"
    using Cons.prems by auto
  have old: "rt_blocks ?rt ! j = rt_blocks rt ! j" if "j \<noteq> i" for j using that by simp
  have others: "(\<forall>(v, j, q) \<in> set (zip updates prepared). j \<noteq> i)"
    using i(2) by (force simp: image_iff dest: set_zip_rightD)
  obtain bs cursors' where rest: "foldl (\<lambda>state step. activate_block step state)
        (results @ [activation_report u p (rt_blocks rt ! i)], ?rt) (zip updates prepared) =
      ((results @ [activation_report u p (rt_blocks rt ! i)])
         @ map (\<lambda>(u, i, p). activation_report u p (rt_blocks ?rt ! i)) (zip updates prepared),
       ?rt\<lparr>rt_blocks := bs, rt_schedule_cursors := cursors'\<rparr>)"
    "length bs = length (rt_blocks ?rt)"
    "\<forall>(v, j, q) \<in> set (zip updates prepared). bs ! j = activated_block v q (rt_blocks ?rt ! j)"
    "\<forall>j < length bs. j \<notin> fst ` set prepared \<longrightarrow> bs ! j = rt_blocks ?rt ! j"
    using Cons.IH [where rt = ?rt and results = "results @ [activation_report u p (rt_blocks rt ! i)]",
        OF i(3) bound] by blast
  have reports: "map (\<lambda>(u, i, p). activation_report u p (rt_blocks ?rt ! i)) (zip updates prepared)
      = map (\<lambda>(u, i, p). activation_report u p (rt_blocks rt ! i)) (zip updates prepared)"
    using others old by auto
  have same: "?rt\<lparr>rt_blocks := bs, rt_schedule_cursors := cursors'\<rparr>
      = rt\<lparr>rt_blocks := bs, rt_schedule_cursors := cursors'\<rparr>" by (simp add: set_block_def)
  have "foldl (\<lambda>state step. activate_block step state) (results, rt) (zip (u # updates) (ip # prepared))
      = (results @ map (\<lambda>(u, i, p). activation_report u p (rt_blocks rt ! i))
           (zip (u # updates) (ip # prepared)),
         rt\<lparr>rt_blocks := bs, rt_schedule_cursors := cursors'\<rparr>)"
    using step rest(1) reports same by (simp add: ip)
  moreover have "\<forall>(v, j, q) \<in> set (zip (u # updates) (ip # prepared)).
      bs ! j = activated_block v q (rt_blocks rt ! j)"
    using rest(2-4) i others old ip by fastforce
  moreover have "\<forall>j < length bs. j \<notin> fst ` set (ip # prepared) \<longrightarrow> bs ! j = rt_blocks rt ! j"
    using rest(4) old ip by auto
  moreover have "length bs = length (rt_blocks rt)" using rest(2) by simp
  ultimately show ?case by blast
qed

text \<open>The first pass.\<close>

definition prepared_for :: "runtime \<Rightarrow> block_activation \<Rightarrow> nat \<times> logic_program option \<Rightarrow> bool" where
  "prepared_for rt u ip \<longleftrightarrow>
     fst ip < length (rt_blocks rt) \<and> lb_id (rt_blocks rt ! fst ip) = ba_block_id u
     \<and> snd ip = map_option logic_program_new (ba_source u)"

lemma prepare_ok:
  assumes "try_fold (prepare_step env rt) prepared updates = Inr all"
    and "list_all2 (prepared_for rt) earlier prepared" and "distinct (map fst prepared)"
  shows "list_all2 (prepared_for rt) (earlier @ updates) all \<and> distinct (map fst all)"
  using assms
proof (induction updates arbitrary: earlier prepared)
  case (Cons u updates)
  obtain mid where step: "prepare_step env rt prepared u = Inr mid"
    and rest: "try_fold (prepare_step env rt) mid updates = Inr all"
    using Cons.prems(1) by (auto simp: result_simps)
  obtain i where i: "position (\<lambda>b. lb_id b = ba_block_id u) (rt_blocks rt) = Some i"
    "i \<notin> fst ` set prepared"
    and mid: "mid = prepared @ [(i, map_option logic_program_new (ba_source u))]"
    using step by (auto simp: prepare_step_def result_simps logic_program_try_new_ok
        split: option.splits if_splits)
  have "prepared_for rt u (i, map_option logic_program_new (ba_source u))"
    using position_SomeD [OF i(1)] by (simp add: prepared_for_def)
  then have "list_all2 (prepared_for rt) (earlier @ [u]) mid"
    using Cons.prems(2) by (simp add: mid list_all2_appendI)
  moreover have "distinct (map fst mid)" using Cons.prems(3) i(2) by (auto simp: mid)
  ultimately show ?case using Cons.IH [OF rest, of "earlier @ [u]"] by simp
qed simp

lemma install_program_simps [simp]:
  "lb_enabled (install_program program b) = lb_enabled b"
  "eng_config (lb_engine (install_program program b))
     = (eng_config (lb_engine b))\<lparr>ec_logic := program\<rparr>"
  "eng_limits (lb_engine (install_program program b)) = eng_limits (lb_engine b)"
  "eng_state (lb_engine (install_program program b)) = eng_state (lb_engine b)"
  "eng_inputs (lb_engine (install_program program b)) = eng_inputs (lb_engine b)"
  "eng_last_accepted_at (lb_engine (install_program program b)) = eng_last_accepted_at (lb_engine b)"
  "eng_pending_timers (lb_engine (install_program program b)) = []"
  "lb_config (install_program program b) = (lb_config b)\<lparr>bc_logic := program\<rparr>"
  "lb_health (install_program program b) = initial_health (lb_enabled b)"
  "lb_consecutive_failures (install_program program b) = 0"
  "lb_live_execution_times (install_program program b) = []"
  "lb_last_suspension (install_program program b) = None"
  by (simp_all add: install_program_def)

lemma install_block_ok:
  assumes "block_ok limits now b"
  shows "block_ok limits now (install_program (logic_program_new source) b)"
proof -
  have eq: "lb_engine (install_program (logic_program_new source) b) = (lb_engine b)
      \<lparr>eng_pending_timers := [],
       eng_config := (eng_config (lb_engine b))\<lparr>ec_logic := logic_program_new source\<rparr>\<rparr>"
    by (simp add: install_program_def)
  have "engine_ok (lb_engine (install_program (logic_program_new source) b))"
    unfolding eq by (rule engine_ok_new_program [OF block_okD(1) [OF assms]])
  with assms show ?thesis by (simp add: block_ok_def)
qed

text \<open>What an update changes in its block, and all that it changes.\<close>

definition activated :: "block_activation \<Rightarrow> logic_block \<Rightarrow> logic_block \<Rightarrow> bool" where
  "activated u b b' \<longleftrightarrow>
     (let source_changed = (\<exists>s. ba_source u = Some s
            \<and> revision_for s \<noteq> active_logic_revision (lb_engine b));
          enabled_changed = (\<exists>e. ba_enabled u = Some e \<and> e \<noteq> lb_enabled b)
      in active_logic_revision (lb_engine b') =
           (case ba_source u of None \<Rightarrow> active_logic_revision (lb_engine b) | Some s \<Rightarrow> revision_for s)
       \<and> lb_enabled b' = (case ba_enabled u of None \<Rightarrow> lb_enabled b | Some e \<Rightarrow> e)
       \<and> (if source_changed \<or> enabled_changed
          then lb_health b' = initial_health (lb_enabled b') \<and> lb_consecutive_failures b' = 0
            \<and> lb_live_execution_times b' = [] \<and> lb_last_suspension b' = None
          else b' = b)
       \<and> eng_pending_timers (lb_engine b') =
           (if source_changed \<or> enabled_changed \<and> \<not> lb_enabled b' then []
            else eng_pending_timers (lb_engine b))
       \<and> eng_state (lb_engine b') = eng_state (lb_engine b)
       \<and> eng_inputs (lb_engine b') = eng_inputs (lb_engine b))"

lemma activated_block_spec:
  "activated u b (activated_block u (map_option logic_program_new (ba_source u)) b)"
  by (auto simp: activated_def Let_def activated_block_def apply_source_def apply_enabled_def
      logic_program_new_def active_logic_revision_def split: option.splits)

lemma activated_block_keeps:
  assumes "block_ok limits now b"
  shows "block_ok limits now (activated_block u (map_option logic_program_new source) b)"
    and "block_skeleton (lb_config (activated_block u (map_option logic_program_new source) b))
      = block_skeleton (lb_config b)"
  using assms install_block_ok [OF assms]
  by (auto simp: activated_block_def apply_source_def apply_enabled_def set_enabled_block_ok
      split: option.splits)

lemma activate_cases:
  assumes "activate env updates rt = (r, rt')"
  obtains (failed) e where "r = Inl e" "rt' = rt"
  | (applied) prepared bs cursors where
      "list_all2 (prepared_for rt) updates prepared" "distinct (map fst prepared)"
      "r = Inr (map (\<lambda>(u, i, p). activation_report u p (rt_blocks rt ! i)) (zip updates prepared))"
      "rt' = rt\<lparr>rt_blocks := bs, rt_schedule_cursors := cursors\<rparr>"
      "length bs = length (rt_blocks rt)"
      "\<forall>(u, i, p) \<in> set (zip updates prepared). bs ! i = activated_block u p (rt_blocks rt ! i)"
      "\<forall>i < length bs. i \<notin> fst ` set prepared \<longrightarrow> bs ! i = rt_blocks rt ! i"
proof (cases "try_fold (prepare_step env rt) [] updates")
  case (Inl e)
  then show ?thesis using assms failed [of e] by (simp add: activate_def)
next
  case (Inr prepared)
  from prepare_ok [OF Inr, of "[]"]
  have p: "list_all2 (prepared_for rt) updates prepared" "distinct (map fst prepared)" by simp_all
  have "\<forall>ip \<in> set prepared. fst ip < length (rt_blocks rt)"
    using p(1) unfolding list_all2_conv_all_nth prepared_for_def by (metis in_set_conv_nth)
  from activate_blocks [OF list_all2_lengthD [OF p(1)] p(2) this, of "[]"]
  obtain bs cursors where run: "foldl (\<lambda>state step. activate_block step state) ([], rt) (zip updates prepared) =
      ([] @ map (\<lambda>(u, i, p). activation_report u p (rt_blocks rt ! i)) (zip updates prepared),
       rt\<lparr>rt_blocks := bs, rt_schedule_cursors := cursors\<rparr>)"
    and bs: "length bs = length (rt_blocks rt)"
      "\<forall>(u, i, p) \<in> set (zip updates prepared). bs ! i = activated_block u p (rt_blocks rt ! i)"
      "\<forall>i < length bs. i \<notin> fst ` set prepared \<longrightarrow> bs ! i = rt_blocks rt ! i" by blast
  show ?thesis
    using applied [OF p _ _ bs, of cursors] assms Inr run by (simp add: activate_def)
qed

lemma activate_ok:
  assumes "runtime_ok config limits rt" and "activate env updates rt = (r, rt')"
  shows "runtime_ok config limits rt'"
  using assms(2)
proof (cases rule: activate_cases)
  case failed
  with assms(1) show ?thesis by simp
next
  case (applied prepared bs cursors)
  note inv = assms(1) [unfolded runtime_ok_def]
  have each: "block_ok limits (rt_last_accepted_at rt) (bs ! i)
    \<and> block_skeleton (lb_config (bs ! i)) = block_skeleton (lb_config (rt_blocks rt ! i))"
    if i: "i < length bs" for i
  proof (cases "i \<in> fst ` set prepared")
    case False
    with applied(7) i show ?thesis using runtime_invD(3) [OF inv] applied(5) by simp
  next
    case True
    then obtain k where k: "k < length prepared" "fst (prepared ! k) = i"
      by (auto simp: in_set_conv_nth)
    have len: "length updates = length prepared" using list_all2_lengthD [OF applied(1)] .
    have p: "snd (prepared ! k) = map_option logic_program_new (ba_source (updates ! k))"
      using applied(1) k(1) by (simp add: list_all2_conv_all_nth prepared_for_def)
    have "(updates ! k, prepared ! k) \<in> set (zip updates prepared)"
      using k(1) len by (auto simp: set_zip)
    then have "bs ! i = activated_block (updates ! k) (snd (prepared ! k)) (rt_blocks rt ! i)"
      using applied(6) k(2) by (auto simp: case_prod_unfold)
    then show ?thesis
      using p i applied(5) activated_block_keeps [OF runtime_invD(3) [OF inv]] by simp
  qed
  have "map (\<lambda>b. block_skeleton (lb_config b)) bs = map (\<lambda>b. block_skeleton (lb_config b)) (rt_blocks rt)"
    using each applied(5) by (intro nth_equalityI) simp_all
  moreover have "\<forall>b \<in> set bs. block_ok limits (rt_last_accepted_at rt) b"
    using each by (auto simp: in_set_conv_nth)
  ultimately show ?thesis
    using inv by (simp add: applied(4) runtime_ok_def runtime_inv_def realises_def)
qed

subsection \<open>Resumption and schedules\<close>

lemma resume_block_ok:
  assumes "runtime_ok config limits rt" and "resume_block x rt = (r, rt')"
  shows "runtime_ok config limits rt'"
proof (cases rule: block_index_cases [of rt x])
  case unknown
  with assms show ?thesis by (simp add: resume_block_def)
next
  case (found i)
  note inv = assms(1) [unfolded runtime_ok_def]
  have "runtime_inv config limits (rt_last_accepted_at rt)
      (set_block i (reset_health (rt_blocks rt ! i)) rt)"
    using found(2) by (intro set_block_inv [OF inv] reset_block_ok runtime_invD(3) [OF inv]) simp_all
  with found assms(2) show ?thesis by (auto simp: resume_block_def runtime_ok_def)
qed

lemma ensure_schedule_time_ok:
  "ensure_schedule_time rt now = Inr u \<Longrightarrow> not_later (rt_last_accepted_at rt) (Some now)"
  by (cases "rt_last_accepted_at rt") (auto simp: ensure_schedule_time_def not_less split: if_splits)

lemma runtime_ok_fields:
  assumes "runtime_ok config limits rt" and "not_later (rt_last_accepted_at rt) (Some now)"
    and "rt_limits rt' = rt_limits rt" "rt_site rt' = rt_site rt" "rt_blocks rt' = rt_blocks rt"
      "rt_signals rt' = rt_signals rt" "rt_signal_indexes rt' = rt_signal_indexes rt"
    and "rt_last_accepted_at rt' = Some now"
  shows "runtime_ok config limits rt'"
  using runtime_ok_now [OF assms(1,2)] assms(3-)
  by (simp add: runtime_ok_def runtime_inv_def realises_def)

lemma initialise_schedules_ok:
  assumes "runtime_ok config limits rt" and "initialise_schedules ts sample revision rt = (r, rt')"
  shows "runtime_ok config limits rt'"
proof (cases "ensure_schedule_time rt (cs_monotonic_ms sample)")
  case (Inr u)
  from runtime_ok_fields [OF assms(1) ensure_schedule_time_ok [OF Inr]] Inr assms(2)
  show ?thesis by (auto simp: initialise_schedules_def)
qed (use assms in \<open>auto simp: initialise_schedules_def\<close>)

lemma rebaseline_block_schedules_ok:
  assumes "runtime_ok config limits rt" and "rebaseline_block_schedules ts x sample rt = (r, rt')"
  shows "runtime_ok config limits rt'"
proof (cases "ensure_schedule_time rt (cs_monotonic_ms sample)")
  case (Inr u)
  from runtime_ok_fields [OF assms(1) ensure_schedule_time_ok [OF Inr], of rt'] Inr assms(2)
  show ?thesis
    by (auto simp: rebaseline_block_schedules_def Let_def split: option.splits if_splits)
qed (use assms in \<open>auto simp: rebaseline_block_schedules_def\<close>)

lemma recompute_schedule_cursors_simps [simp]:
  "rt_limits (recompute_schedule_cursors ts now rt) = rt_limits rt"
  "rt_site (recompute_schedule_cursors ts now rt) = rt_site rt"
  "rt_blocks (recompute_schedule_cursors ts now rt) = rt_blocks rt"
  "rt_signals (recompute_schedule_cursors ts now rt) = rt_signals rt"
  "rt_signal_indexes (recompute_schedule_cursors ts now rt) = rt_signal_indexes rt"
  "rt_last_accepted_at (recompute_schedule_cursors ts now rt) = rt_last_accepted_at rt"
  "rt_schedule_structural_revision (recompute_schedule_cursors ts now rt)
     = rt_schedule_structural_revision rt"
  by (simp_all add: recompute_schedule_cursors_def)

lemma poll_schedules_ok:
  assumes "runtime_ok config limits rt" and "poll_schedules ts sample rt = Some (r, rt')"
  shows "runtime_ok config limits rt'"
proof (cases "ensure_schedule_time rt (cs_monotonic_ms sample)")
  case (Inr u)
  from runtime_ok_fields [OF assms(1) ensure_schedule_time_ok [OF Inr], of rt'] Inr assms(2)
  show ?thesis
    by (auto simp: poll_schedules_def Let_def split: option.splits if_splits)
qed (use assms in \<open>auto simp: poll_schedules_def\<close>)

end
