(* ===== verification/Runtime_Example.thy ===== *)
theory Runtime_Example
  imports Runtime_Lifecycle
begin

text \<open>
  A concrete cascade: an input of the first block of the chained configuration runs its handler,
  whose output reaches the second block through the signal between them.
\<close>

definition chained_runtime :: runtime where
  "chained_runtime = fresh_runtime chained_config sample_limits"

lemma chained_runtime_new:
  "runtime_try_new_with_limits sample_environment chained_config sample_limits = Inr chained_runtime"
  unfolding chained_runtime_def by (rule runtime_try_new_eq [OF chained_config_valid])

abbreviation "block_a \<equiv> sample_block ''a'' [sample_binding ''lamp'' ''p'']"
abbreviation "block_b \<equiv> sample_block ''b'' [sample_binding ''switch'' ''p'']"

abbreviation "switch_b \<equiv> \<lparr>se_block_id = BlockId ''b'', se_endpoint = EndpointName ''switch''\<rparr>"
abbreviation "lamp_a \<equiv> \<lparr>se_block_id = BlockId ''a'', se_endpoint = EndpointName ''lamp''\<rparr>"

text \<open>A block of the sample program before and after its first execution, at 1000.\<close>

lemma fresh_sample_block:
  "fresh_block sample_limits (sample_block n bs) =
     \<lparr>lb_config = sample_block n bs, lb_engine = sample_engine, lb_health = Active,
      lb_consecutive_failures = 0, lb_live_execution_times = [], lb_last_suspension = None\<rparr>"
  by (simp add: fresh_block_def sample_block_def sample_engine_def sample_config_def initial_health_def)

definition ran_block :: "block_config \<Rightarrow> logic_block" where
  "ran_block c =
     \<lparr>lb_config = c, lb_engine = sample_triggered, lb_health = Active,
      lb_consecutive_failures = 0, lb_live_execution_times = [1000], lb_last_suspension = None\<rparr>"

definition chained_signal :: signal_state where
  "chained_signal = (new_signal (bool_signal ''p''))
     \<lparr>sg_consumers := [switch_b], sg_producer := Some lamp_a\<rparr>"

lemma chained_runtime_eq:
  "chained_runtime =
     \<lparr>rt_limits = sample_limits,
      rt_blocks = [fresh_block sample_limits block_a, fresh_block sample_limits block_b],
      rt_signals = [chained_signal], rt_signal_indexes = [(SignalName ''p'', 0)],
      rt_last_accepted_at = None, rt_next_execution_id = 1, rt_site = default_site,
      rt_schedule_cursors = [], rt_schedule_structural_revision = None,
      rt_last_schedule_wall_clock_utc_ms = None\<rparr>"
proof -
  have consumes: "\<not> consumes (block_a, sample_binding ''lamp'' ''p'')"
      "consumes (block_b, sample_binding ''switch'' ''p'')"
    and publishes: "publishes (block_a, sample_binding ''lamp'' ''p'')"
    by (simp_all add: consumes_def publishes_def bound_endpoint_def sample_block_def
        sample_binding_def sample_endpoint)
  have name: "sb_signal (sample_binding e t) = SignalName t" "sb_endpoint (sample_binding e t) = EndpointName e"
    for e t by (simp_all add: sample_binding_def)
  have "connected (bindings_of (rc_blocks chained_config)) (rc_signals chained_config) = [chained_signal]"
    unfolding sample_bindings sample_signals using consumes publishes
    by (simp add: connected_def binding_identity_def chained_signal_def name)
  moreover have "index_signals (rc_signals chained_config) = [(SignalName ''p'', 0)]"
    by (simp add: sample_signals index_signals_def)
  moreover have "rc_blocks chained_config = [block_a, block_b]" "rc_site chained_config = default_site"
    by (simp_all add: chained_config_def)
  ultimately show ?thesis by (simp add: chained_runtime_def fresh_runtime_def)
qed

lemma sample_first_run:
  "\<exists>ex. engine_trigger sample_environment (EndpointName ''switch'') (typed_bool True) 1000 default_site
     None None sample_engine = (Inr ex, sample_triggered) \<and> ex_outcome ex = Inr sample_transition"
  using sample_trigger_step by (auto simp: engine_trigger_def)

lemma sample_block_fields [simp]:
  "bc_enabled (sample_block n bs)" "bc_endpoints (sample_block n bs) = sample_endpoints"
  "bc_signal_bindings (sample_block n bs) = bs" "bc_logic (sample_block n bs) = sample_program"
  "bc_schedules (sample_block n bs) = []"
  by (simp_all add: sample_block_def)

lemma sample_rate: "max_live_executions_per_block_per_second sample_limits = 3"
  by (simp add: sample_limits_def)

lemma admit_first:
  "admit_live_execution 1000 (max_live_executions_per_block_per_second sample_limits)
     (fresh_block sample_limits (sample_block n bs))
   = (True, (fresh_block sample_limits (sample_block n bs))\<lparr>lb_live_execution_times := [1000]\<rparr>)"
  by (simp add: admit_live_execution_def prune_live_execution_window_def fresh_sample_block
      sample_rate)

lemma record_first:
  "ex_outcome ex = Inr sample_transition \<Longrightarrow>
   record_live_execution ex ((fresh_block sample_limits (sample_block n bs))
     \<lparr>lb_live_execution_times := [1000], lb_engine := sample_triggered\<rparr>)
   = ran_block (sample_block n bs)"
  by (simp add: record_live_execution_def ran_block_def fresh_sample_block)

definition first_run :: runtime where
  "first_run = chained_runtime
     \<lparr>rt_blocks := [ran_block block_a, fresh_block sample_limits block_b],
      rt_last_accepted_at := Some 1000, rt_next_execution_id := 2\<rparr>"

definition second_run :: runtime where
  "second_run = chained_runtime
     \<lparr>rt_blocks := [ran_block block_a, ran_block block_b],
      rt_signals := [chained_signal
        \<lparr>sg_value := Some (typed_bool True), sg_observed_at := Some 1000, sg_changed_at := Some 1000,
         sg_producing_execution := Some 1\<rparr>],
      rt_last_accepted_at := Some 1000, rt_next_execution_id := 3\<rparr>"

lemma sample_block_run:
  assumes "rt_limits rt = sample_limits" "k < length (rt_blocks rt)"
    "rt_blocks rt ! k = fresh_block sample_limits (sample_block n bs)"
  shows "admit_at k 1000 rt = (True, set_block k ((fresh_block sample_limits (sample_block n bs))
      \<lparr>lb_live_execution_times := [1000]\<rparr>) rt)"
    and "ex_outcome ex = Inr sample_transition \<Longrightarrow>
      finish_execution k ex causal (set_engine k sample_triggered
        (set_block k ((fresh_block sample_limits (sample_block n bs))
          \<lparr>lb_live_execution_times := [1000]\<rparr>) rt))
      = (\<lparr>bx_block_id = BlockId n, bx_execution = ex\<lparr>ex_id := Some (rt_next_execution_id rt),
           ex_causal_producer := causal\<rparr>\<rparr>,
         rt\<lparr>rt_blocks := (rt_blocks rt)[k := ran_block (sample_block n bs)],
            rt_next_execution_id := saturating_add_word (rt_next_execution_id rt) 1\<rparr>)"
  using assms record_first
  by (simp_all add: admit_at_def admit_first finish_execution_def assign_execution_id_def Let_def
      set_engine_def set_block_def) (simp add: ran_block_def)

lemma first_run_step:
  "\<exists>ex. process_input sample_environment (BlockId ''a'') (EndpointName ''switch'') (typed_bool True) 1000
      chained_runtime
    = (Inr (Some \<lparr>bx_block_id = BlockId ''a'',
         bx_execution = ex\<lparr>ex_id := Some 1, ex_causal_producer := None\<rparr>\<rparr>), first_run)
    \<and> ex_outcome ex = Inr sample_transition"
proof -
  obtain ex where ex: "engine_trigger sample_environment (EndpointName ''switch'') (typed_bool True)
      1000 default_site None None sample_engine = (Inr ex, sample_triggered)"
    "ex_outcome ex = Inr sample_transition"
    using sample_first_run by blast
  have valid: "validate_input sample_engine (EndpointName ''switch'') (typed_bool True) = Inr 0"
    by (simp add: validate_input_def validate_endpoint_def sample_engine_def sample_config_def
        sample_endpoints_def typed_bool_def)
  have "block_index chained_runtime (BlockId ''a'') = Inr 0"
    by (simp add: block_index_def ok_or_def chained_runtime_eq fresh_sample_block)
  moreover have "ensure_time chained_runtime (Some x) 1000 = Inr ()" for x
    by (simp add: ensure_time_def chained_runtime_eq)
  ultimately have "process_input sample_environment (BlockId ''a'') (EndpointName ''switch'')
      (typed_bool True) 1000 chained_runtime
    = (Inr (Some \<lparr>bx_block_id = BlockId ''a'',
         bx_execution = ex\<lparr>ex_id := Some 1, ex_causal_producer := None\<rparr>\<rparr>), first_run)"
    using sample_block_run [of chained_runtime 0 "''a''" "[sample_binding ''lamp'' ''p'']"] ex valid
    by (simp add: process_input_def process_input_at_def chained_runtime_eq fresh_sample_block
        first_run_def accepted_def saturating_add_word_def set_block_def)
  with ex(2) show ?thesis by blast
qed

lemma second_run_totals: "validate_usage second_run = Inr ()"
  by (simp add: validate_usage_def usage_def second_run_def chained_runtime_eq ran_block_def
      sample_triggered_def sample_engine_def sample_source_length sample_limits_def state_bytes_def
      state_entry_bytes_def)

definition signalled_run :: runtime where
  "signalled_run = first_run\<lparr>rt_signals := rt_signals second_run\<rparr>"

lemma second_block_triggered:
  assumes "length (cas_executions c) = 1" "cas_runtime c = signalled_run" "pg_env pg = sample_environment"
    "pg_now pg = 1000" "pg_utc pg = None"
  shows "\<exists>ex. trigger_consumer recurse pg (typed_bool True) (Some 1) switch_b c
    = recurse 1 \<lparr>cas_runtime = second_run, cas_executions = cas_executions c
        @ [\<lparr>bx_block_id = BlockId ''b'',
            bx_execution = ex\<lparr>ex_id := Some 2, ex_causal_producer := Some 1\<rparr>\<rparr>]\<rparr>
    \<and> ex_outcome ex = Inr sample_transition"
proof -
  obtain ex where ex: "engine_trigger sample_environment (EndpointName ''switch'') (typed_bool True)
      1000 default_site None None sample_engine = (Inr ex, sample_triggered)"
    "ex_outcome ex = Inr sample_transition"
    using sample_first_run by blast
  let ?rt = "accepted 1000 signalled_run"
  note run = sample_block_run [of ?rt 1 "''b''" "[sample_binding ''switch'' ''p'']"]
  have same: "signalled_run = ?rt"
    by (simp add: signalled_run_def first_run_def chained_runtime_eq accepted_def)
  have c: "cas_runtime c = ?rt" using assms(2) same by (rule trans)
  have blocks: "rt_blocks signalled_run = [ran_block block_a, fresh_block sample_limits block_b]"
    "rt_limits signalled_run = sample_limits" "rt_next_execution_id signalled_run = 2"
    by (simp_all add: signalled_run_def first_run_def chained_runtime_eq)
  have index: "position (\<lambda>b. lb_id b = BlockId ''b'') (rt_blocks ?rt) = Some 1"
    by (simp add: blocks ran_block_def fresh_sample_block)
  have runnable: "block_runnable (rt_blocks ?rt ! 1)"
    by (simp add: blocks block_runnable_def fresh_sample_block)
  have final: "?rt\<lparr>rt_blocks := (rt_blocks ?rt)[1 := ran_block block_b],
      rt_next_execution_id := saturating_add_word 2 1\<rparr> = second_run"
    by (simp add: signalled_run_def first_run_def second_run_def chained_runtime_eq accepted_def
        saturating_add_word_def)
  define adm where "adm = set_block 1 ((fresh_block sample_limits block_b)
    \<lparr>lb_live_execution_times := [1000]\<rparr>) ?rt"
  have admit: "admit_at 1 1000 ?rt = (True, adm)" unfolding adm_def by (rule run(1)) (simp_all add: blocks)
  have engine: "lb_engine (rt_blocks adm ! 1) = sample_engine"
    by (simp add: adm_def blocks fresh_sample_block)
  have commute: "accepted 1000 (set_engine 1 sample_triggered adm) = set_engine 1 sample_triggered adm"
    by (simp add: adm_def accepted_def set_engine_def set_block_def)
  have finished: "finish_execution 1 ex (Some 1) (set_engine 1 sample_triggered adm)
    = (\<lparr>bx_block_id = BlockId ''b'',
         bx_execution = ex\<lparr>ex_id := Some 2, ex_causal_producer := Some 1\<rparr>\<rparr>, second_run)"
    using run(2) [of ex "Some 1"] ex(2) final blocks by (simp add: adm_def)
  have "\<exists>e. find (\<lambda>e. ep_name e = EndpointName ''switch'')
      (bc_endpoints (lb_config (rt_blocks ?rt ! 1))) = Some e"
    by (simp add: blocks fresh_sample_block sample_endpoint)
  then have "trigger_consumer recurse pg (typed_bool True) (Some 1) switch_b c
    = recurse 1 \<lparr>cas_runtime = second_run, cas_executions = cas_executions c
        @ [\<lparr>bx_block_id = BlockId ''b'',
            bx_execution = ex\<lparr>ex_id := Some 2, ex_causal_producer := Some 1\<rparr>\<rparr>]\<rparr>"
    unfolding trigger_consumer_def Let_def c signal_endpoint_id.simps index option.case assms(3-5)
      admit prod.case bool.case if_P [OF refl] engine ex(1) sum.case commute finished
    using runnable assms(1) sample_limit_values(5) blocks(2) by auto
  with ex(2) show ?thesis by blast
qed

lemma first_output_published:
  assumes "length (cas_executions c) = 1" "cas_runtime c = first_run" "pg_env pg = sample_environment"
    "pg_now pg = 1000" "pg_utc pg = None"
  shows "\<exists>exs ex. publish_output recurse pg 0 (BlockId ''a'') (Some 1)
      \<lparr>oe_endpoint = EndpointName ''lamp'', oe_value = typed_bool True\<rparr> c
    = (case recurse 1 \<lparr>cas_runtime = second_run, cas_executions = exs @ [ex]\<rparr> of
         (Inl e, d) \<Rightarrow> (Inl e, d) | (Inr _, d) \<Rightarrow> (Inr (), d))
    \<and> length exs = 1 \<and> map bx_block_id exs = map bx_block_id (cas_executions c)
    \<and> map (\<lambda>bx. ex_outcome (bx_execution bx)) exs
        = map (\<lambda>bx. ex_outcome (bx_execution bx)) (cas_executions c)
    \<and> bx_block_id ex = BlockId ''b'' \<and> ex_outcome (bx_execution ex) = Inr sample_transition"
proof -
  let ?bs = "[ran_block block_a, fresh_block sample_limits block_b]"
  have find: "find_block first_run (BlockId ''a'') = Some (ran_block block_a)"
    by (simp add: find_block_def first_run_def ran_block_def)
  have bound: "bound_signal first_run (ran_block block_a) (EndpointName ''lamp'') = Some (SignalName ''p'', 0)"
    by (simp add: bound_signal_def ran_block_def first_run_def chained_runtime_eq sample_binding_def)
  have set: "set_signal 0 (typed_bool True) 1000 (Some 1) first_run = (True, signalled_run)"
    by (simp add: set_signal_def first_run_def signalled_run_def second_run_def chained_runtime_eq
        chained_signal_def new_signal_def)
  have consumers: "sg_consumers (rt_signals signalled_run ! 0) = [switch_b]"
    by (simp add: signalled_run_def second_run_def chained_signal_def)
  define d where "d = note_effect 0
    \<lparr>sx_signal = SignalName ''p'', sx_value = typed_bool True, sx_changed = True,
     sx_producer = lamp_a, sx_producing_execution = Some 1, sx_consumers = [switch_b]\<rparr>
    (filter (consumer_runnable signalled_run) [switch_b]) (c\<lparr>cas_runtime := signalled_run\<rparr>)"
  have d: "length (cas_executions d) = 1" "cas_runtime d = signalled_run"
    "map bx_block_id (cas_executions d) = map bx_block_id (cas_executions c)"
    "map (\<lambda>bx. ex_outcome (bx_execution bx)) (cas_executions d)
       = map (\<lambda>bx. ex_outcome (bx_execution bx)) (cas_executions c)"
    using assms(1)
    by (simp_all add: d_def note_effect_def Let_def map_update list_update_same_conv)
  obtain ex where ex: "trigger_consumer recurse pg (typed_bool True) (Some 1) switch_b d
    = recurse 1 \<lparr>cas_runtime = second_run, cas_executions = cas_executions d
        @ [\<lparr>bx_block_id = BlockId ''b'',
            bx_execution = ex\<lparr>ex_id := Some 2, ex_causal_producer := Some 1\<rparr>\<rparr>]\<rparr>"
    "ex_outcome ex = Inr sample_transition"
    using second_block_triggered [OF d(1,2) assms(3-5)] by blast
  have "publish_output recurse pg 0 (BlockId ''a'') (Some 1)
      \<lparr>oe_endpoint = EndpointName ''lamp'', oe_value = typed_bool True\<rparr> c
    = for_each (trigger_consumer recurse pg (typed_bool True) (Some 1)) [switch_b] d"
    by (simp add: publish_output_def assms find bound set consumers d_def Let_def)
  with ex d show ?thesis
    by (intro exI [of _ "cas_executions d"]
        exI [of _ "\<lparr>bx_block_id = BlockId ''b'',
          bx_execution = ex\<lparr>ex_id := Some 2, ex_causal_producer := Some 1\<rparr>\<rparr>"])
      (auto split: prod.splits sum.splits)
qed

text \<open>The event: both blocks run once, the second caused by the first.\<close>

definition switch_on :: runtime_event where
  "switch_on = InputNow (BlockId ''a'') (EndpointName ''switch'') (typed_bool True) 1000"

lemma switch_on_outcomes:
  "\<exists>bxs. handle_event sample_environment switch_on chained_runtime = (Inr bxs, second_run)
    \<and> map bx_block_id bxs = [BlockId ''a'', BlockId ''b'']
    \<and> map (\<lambda>bx. ex_outcome (bx_execution bx)) bxs = [Inr sample_transition, Inr sample_transition]"
proof -
  obtain ex where first: "process_input sample_environment (BlockId ''a'') (EndpointName ''switch'')
      (typed_bool True) 1000 chained_runtime
    = (Inr (Some \<lparr>bx_block_id = BlockId ''a'',
         bx_execution = ex\<lparr>ex_id := Some 1, ex_causal_producer := None\<rparr>\<rparr>), first_run)"
    "ex_outcome ex = Inr sample_transition"
    using first_run_step by blast
  let ?bx = "\<lparr>bx_block_id = BlockId ''a'', bx_execution = ex\<lparr>ex_id := Some 1, ex_causal_producer := None\<rparr>\<rparr>"
  let ?pg = "\<lparr>pg_env = sample_environment, pg_now = 1000, pg_utc = None, pg_probe = None\<rparr>"
  let ?c = "\<lparr>cas_runtime = first_run, cas_executions = [?bx]\<rparr>"
  have fuel: "cascade_fuel first_run = 5"
    by (simp add: cascade_fuel_def first_run_def chained_runtime_eq sample_limit_values)
  have outputs: "tr_outputs sample_transition
      = [\<lparr>oe_endpoint = EndpointName ''lamp'', oe_value = typed_bool True\<rparr>]"
    by (simp add: sample_transition_def)
  have one: "length (cas_executions ?c) = 1" "cas_runtime ?c = first_run"
    "pg_env ?pg = sample_environment" "pg_now ?pg = 1000" "pg_utc ?pg = None" by simp_all
  obtain exs ex2 where second: "publish_output (propagate_from_execution 4 ?pg) ?pg 0 (BlockId ''a'') (Some 1)
      \<lparr>oe_endpoint = EndpointName ''lamp'', oe_value = typed_bool True\<rparr> ?c
    = (case propagate_from_execution 4 ?pg 1 \<lparr>cas_runtime = second_run, cas_executions = exs @ [ex2]\<rparr> of
         (Inl e, d) \<Rightarrow> (Inl e, d) | (Inr _, d) \<Rightarrow> (Inr (), d))"
    "length exs = 1" "map bx_block_id exs = map bx_block_id (cas_executions ?c)"
    "bx_block_id ex2 = BlockId ''b''" "ex_outcome (bx_execution ex2) = Inr sample_transition"
    "map (\<lambda>bx. ex_outcome (bx_execution bx)) exs
       = map (\<lambda>bx. ex_outcome (bx_execution bx)) (cas_executions ?c)"
    using first_output_published [of ?c ?pg "propagate_from_execution 4 ?pg", OF one] by blast
  have unbound: "publish_output recurse ?pg 1 (BlockId ''b'') i
      \<lparr>oe_endpoint = EndpointName ''lamp'', oe_value = typed_bool True\<rparr>
      \<lparr>cas_runtime = second_run, cas_executions = xs\<rparr>
    = (Inr (), \<lparr>cas_runtime = second_run, cas_executions = xs\<rparr>)" for recurse i xs
    by (simp add: publish_output_def find_block_def second_run_def ran_block_def bound_signal_def
        sample_binding_def)
  have "propagate_from_execution (Suc 3) ?pg 1 \<lparr>cas_runtime = second_run, cas_executions = exs @ [ex2]\<rparr>
    = (Inr (), \<lparr>cas_runtime = second_run, cas_executions = exs @ [ex2]\<rparr>)"
    using second(2,4,5)
    by (subst propagate_from_execution.simps(2))
      (simp add: check_probe_def nth_append outputs unbound [unfolded One_nat_def])
  then have "propagate_from_execution (Suc 4) ?pg 0 ?c
    = (Inr (), \<lparr>cas_runtime = second_run, cas_executions = exs @ [ex2]\<rparr>)"
    using second(1) first(2)
    by (subst propagate_from_execution.simps(2)) (simp add: check_probe_def outputs)
  then have "handle_event sample_environment switch_on chained_runtime = (Inr (exs @ [ex2]), second_run)"
    using first(1) second_run_totals
    by (simp add: switch_on_def process_input_cascade_def finish_cascade_def fuel)
  with second(3-6) first(2) show ?thesis by auto
qed

lemma switch_on_cascade:
  "\<exists>bxs. handle_event sample_environment switch_on chained_runtime = (Inr bxs, second_run)
    \<and> map bx_block_id bxs = [BlockId ''a'', BlockId ''b'']"
  using switch_on_outcomes by (elim exE conjE) (intro exI conjI)

text \<open>The timers that both blocks have set: the first block's comes first, and it is admitted.\<close>

definition admitted_run :: runtime where
  "admitted_run = second_run
     \<lparr>rt_blocks := [(ran_block block_a)\<lparr>lb_live_execution_times := [6000]\<rparr>, ran_block block_b]\<rparr>"

lemma second_run_poll:
  assumes "process_next_due_timer_with_context env 6000 site utc probe sample_triggered = (Inr (Some ex), eng)"
  shows "process_next_due_timer_at env 6000 site utc probe second_run
    = (case finish_execution 0 ex None (set_engine 0 eng admitted_run) of
         (bx, rt) \<Rightarrow> (Inr (Some bx), accepted 6000 rt))"
proof -
  have pending: "eng_pending_timers sample_triggered = [(TimerName ''off'', sample_timer)]"
    by (simp add: sample_triggered_def)
  have timer: "pt_due_at sample_timer = 6000" by (simp add: sample_timer_def)
  have blocks: "rt_blocks second_run = [ran_block block_a, ran_block block_b]"
    "rt_limits second_run = sample_limits" "rt_last_accepted_at second_run = Some 1000"
    by (simp_all add: second_run_def chained_runtime_eq)
  have block: "block_runnable (ran_block (sample_block n bs))" "lb_engine (ran_block c) = sample_triggered"
    "lb_id (ran_block c) = bc_id c" "lb_health (ran_block c) = Active"
    "lb_live_execution_times (ran_block c) = [1000]" for n bs c
    by (simp_all add: ran_block_def block_runnable_def)
  have due: "due_timers second_run 6000 = [(0, sample_timer), (1, sample_timer)]"
    by (simp add: due_timers_def blocks block pending timer btm_values_def)
  have "global_timer_order second_run (0, sample_timer) < global_timer_order second_run (1, sample_timer)"
    by (simp add: global_timer_order_def blocks block less_block_id_def less_prod_simp)
  then have first: "min_by (\<lambda>a b. global_timer_order second_run a < global_timer_order second_run b)
      (due_timers second_run 6000) = Some (0, sample_timer)"
    unfolding due by simp
  have "admit_at 0 6000 second_run = (True, admitted_run)"
    by (simp add: admit_at_def admit_live_execution_def prune_live_execution_window_def blocks block
        outside_window_def saturating_sub_word_def sample_rate admitted_run_def set_block_def Let_def)
  moreover have "ensure_time second_run None 6000 = Inr ()" by (simp add: ensure_time_def blocks)
  moreover have "lb_engine (rt_blocks admitted_run ! 0) = sample_triggered"
    by (simp add: admitted_run_def block)
  ultimately show ?thesis
    using first assms by (simp add: process_next_due_timer_at_def)
qed

end
