(* ===== verification/Block_Health.thy ===== *)
theory Block_Health
  imports Runtime_Invariants
begin

text \<open>
  The two ways in which a block is suspended, over whole histories of its executions: the limit on
  executions in any window of one second, and the count of consecutive failures.
\<close>

subsection \<open>The rate window\<close>










definition idle_block :: logic_block where
  "idle_block =
     \<lparr>lb_config = sample_block ''a'' [], lb_engine = sample_engine, lb_health = Active,
      lb_consecutive_failures = 0, lb_live_execution_times = [], lb_last_suspension = None\<rparr>"


subsection \<open>Consecutive failures\<close>

text \<open>The failures that count since the last success; other errors neither count nor reset.\<close>

definition failure_step :: "nat \<Rightarrow> execution \<Rightarrow> nat" where
  "failure_step n ex =
     (case ex_outcome ex of
        Inr _ \<Rightarrow> 0
      | Inl e \<Rightarrow> if counts_as_failure (logic_error_kind_of e) then n + 1 else n)"

definition failure_run :: "execution list \<Rightarrow> nat" where
  "failure_run exs = foldl failure_step 0 exs"

definition record_all :: "execution list \<Rightarrow> logic_block \<Rightarrow> logic_block" where
  "record_all exs b = foldl (\<lambda>b ex. record_live_execution ex b) b exs"

lemma failure_run_snoc: "failure_run (exs @ [ex]) = failure_step (failure_run exs) ex"
  by (simp add: failure_run_def)

lemma record_all_snoc: "record_all (exs @ [ex]) b = record_live_execution ex (record_all exs b)"
  by (simp add: record_all_def)

lemma record_all_health:
  assumes "lb_health b = Active" and "lb_consecutive_failures b = 0"
    and "\<forall>k < length exs. failure_run (take k exs) < 5"
  shows "lb_consecutive_failures (record_all exs b) = of_nat (failure_run exs)
    \<and> failure_run exs \<le> 5
    \<and> (if failure_run exs < 5 then lb_health (record_all exs b) = Active
       else lb_health (record_all exs b) = SuspendedScriptFailures
         \<and> lb_last_suspension (record_all exs b) = Some ScriptFailures
         \<and> eng_pending_timers (lb_engine (record_all exs b)) = [])"
  using assms(3)
proof (induction exs rule: rev_induct)
  case Nil
  then show ?case using assms(1,2) by (simp add: record_all_def failure_run_def)
next
  case (snoc ex exs)
  let ?b = "record_all exs b" and ?n = "failure_run exs"
  have n: "?n < 5" using snoc.prems [rule_format, of "length exs"] by simp
  have "\<forall>k < length exs. failure_run (take k exs) < 5"
    using snoc.prems by (metis less_SucI length_append_singleton order_less_imp_le take_append
        append.right_neutral diff_is_0_eq' take0)
  from snoc.IH [OF this] n have b: "lb_consecutive_failures ?b = of_nat ?n" "lb_health ?b = Active"
    by simp_all
  have "?n = 0 \<or> ?n = 1 \<or> ?n = 2 \<or> ?n = 3 \<or> ?n = 4" using n by arith
  then have small: "(of_nat ?n :: u32) < block_failure_suspension_threshold"
    "(of_nat ?n + 1 :: u32) = of_nat (?n + 1)"
    "(of_nat ?n + 1 :: u32) = block_failure_suspension_threshold \<longleftrightarrow> ?n + 1 = 5"
    by (elim disjE; simp add: block_failure_suspension_threshold_def)+
  from small(1) b(1) have "lb_consecutive_failures ?b < block_failure_suspension_threshold" by simp
  then show ?case
  proof (cases rule: record_live_execution_cases [where ex = ex])
    case succeeded
    then show ?thesis
      using b by (auto simp: record_all_snoc failure_run_snoc failure_step_def is_ok_def split: sum.splits)
  next
    case (uncounted e)
    then show ?thesis using b n by (simp add: record_all_snoc failure_run_snoc failure_step_def)
  next
    case (counted e)
    then have "?n + 1 \<noteq> 5" using small(3) b(1) by auto
    with counted b n small(2) show ?thesis
      by (simp add: record_all_snoc failure_run_snoc failure_step_def)
  next
    case (suspended e)
    then have "?n + 1 = 5" using small(3) b(1) by simp
    with suspended small(2) show ?thesis
      by (simp add: record_all_snoc failure_run_snoc failure_step_def clear_timers_def
          block_failure_suspension_threshold_def)
  qed
qed

text \<open>
  C10. Exactly five consecutive failures suspend a block. Take an active block without failures and
  any executions whose counted failures since the last success stayed below five before the last of
  them: the block is still active as long as that count is below five, and at five it is suspended
  for script failures with its timers cleared. Successes reset the count; errors of the kinds that
  do not count leave it as it is.
\<close>

theorem five_failures_suspend:
  assumes "lb_health b = Active" and "lb_consecutive_failures b = 0"
    and "\<forall>k < length exs. failure_run (take k exs) < 5"
  shows "lb_consecutive_failures (record_all exs b) = of_nat (failure_run exs)
    \<and> (if failure_run exs < 5 then lb_health (record_all exs b) = Active
       else lb_health (record_all exs b) = SuspendedScriptFailures
         \<and> lb_last_suspension (record_all exs b) = Some ScriptFailures
         \<and> eng_pending_timers (lb_engine (record_all exs b)) = [])"
  using record_all_health [OF assms] by blast

definition failed_run :: execution where
  "failed_run =
     \<lparr>ex_id = None, ex_causal_producer = None, ex_logic_revision = lp_revision sample_program,
      ex_trigger = sample_input_trigger, ex_inputs = [], ex_state_before = [], ex_state_after = [],
      ex_pending_timers = [], ex_outcome = Inl (LogicRuntime (MsgText ''boom'') None), ex_signal_effects = [],
      ex_eligible_consumers = [], ex_time_context = unavailable_time_context utc_services\<rparr>"

theorem five_failures_suspend_witness:
  "lb_health (record_all (replicate 5 failed_run) idle_block) = SuspendedScriptFailures"
proof -
  have step: "failure_step n failed_run = n + 1" for n
    by (simp add: failure_step_def failed_run_def)
  have "foldl failure_step n (replicate k failed_run) = n + k" for n k
    by (induction k arbitrary: n) (simp_all add: step)
  then have count: "failure_run (replicate k failed_run) = k" for k by (simp add: failure_run_def)
  show ?thesis
    using five_failures_suspend [of idle_block "replicate 5 failed_run"]
    by (simp add: count idle_block_def take_replicate)
qed

end
