(* ===== verification/Runtime_Correctness.thy ===== *)
theory Runtime_Correctness
  imports Runtime_Example Block_Health
begin

text \<open>
  What the runtime guarantees to its callers: the invariant of every reachable runtime, the two
  ways an event may fail, what a successful event returns, which blocks may run and when, and what
  activation does.
\<close>

subsection \<open>Reachable runtimes\<close>

text \<open>
  One call of the runtime's interface.  The Lua machine and the time services may differ from call
  to call.
\<close>

inductive live_step :: "runtime \<Rightarrow> runtime \<Rightarrow> bool" where
  event: "handle_event env ev rt = (r, rt') \<Longrightarrow> live_step rt rt'"
| observe: "observe_input env x name v now rt = (r, rt') \<Longrightarrow> live_step rt rt'"
| input_now: "process_input env x name v now rt = (q, rt') \<Longrightarrow> live_step rt rt'"
| input_sampled: "process_input_sampled env x name v sample probe rt = (q, rt') \<Longrightarrow> live_step rt rt'"
| timer_now: "process_next_due_timer env now rt = (q, rt') \<Longrightarrow> live_step rt rt'"
| timer_sampled: "process_next_due_timer_sampled env sample probe rt = (q, rt') \<Longrightarrow> live_step rt rt'"
| schedule_now: "process_schedule env t rt = (q, rt') \<Longrightarrow> live_step rt rt'"
| schedule_sampled: "process_schedule_sampled env t sample probe rt = (q, rt') \<Longrightarrow> live_step rt rt'"
| resume: "resume_block x rt = (s, rt') \<Longrightarrow> live_step rt rt'"
| activate: "activate env updates rt = (a, rt') \<Longrightarrow> live_step rt rt'"

inductive runtime_step :: "runtime \<Rightarrow> runtime \<Rightarrow> bool" where
  live: "live_step rt rt' \<Longrightarrow> runtime_step rt rt'"
| initialise: "initialise_schedules ts sample revision rt = (i, rt') \<Longrightarrow> runtime_step rt rt'"
| rebaseline: "rebaseline_block_schedules ts x sample rt = (i, rt') \<Longrightarrow> runtime_step rt rt'"
| poll: "poll_schedules ts sample rt = Some (p, rt') \<Longrightarrow> runtime_step rt rt'"

inductive runtime_reachable :: "runtime_config \<Rightarrow> runtime_limits \<Rightarrow> runtime \<Rightarrow> bool"
  for config limits where
  start: "runtime_try_new_with_limits env config limits = Inr rt \<Longrightarrow>
    runtime_reachable config limits rt"
| step: "runtime_reachable config limits rt \<Longrightarrow> runtime_step rt rt' \<Longrightarrow>
    runtime_reachable config limits rt'"

lemma event_ok_pair:
  assumes "runtime_ok config limits rt" and "event_ok config limits now rt result"
    and "result = (q, rt')"
  shows "runtime_ok config limits rt'"
  using event_ok_runtime [OF _ assms(1)] assms(2,3) by simp

lemma cascade_ok_runtime:
  assumes "runtime_ok config limits rt" and "cascade_ok config limits now rt (r, rt')"
  shows "runtime_ok config limits rt'"
  using assms by (cases r) (auto simp: cascade_ok_def runtime_ok_def split: if_splits)

lemma process_schedule_ok:
  assumes "runtime_ok config limits rt" and "process_schedule env t rt = (q, rt')"
  shows "runtime_ok config limits rt'"
  using event_ok_pair [OF assms(1) process_schedule_sampled_ok [OF assms(1)]] assms(2)
  unfolding process_schedule_def by blast

lemma live_step_ok:
  assumes "runtime_config_wf features config limits" and "runtime_ok config limits rt"
    and "live_step rt rt'"
  shows "runtime_ok config limits rt'"
  using assms(3)
proof cases
  case (event env ev r)
  with handle_event_ok [OF assms(2,1), of ev env] show ?thesis
    by (auto intro: cascade_ok_runtime [OF assms(2)])
next
  case (observe env x name v now r)
  with observe_input_ok [OF assms(2), of now env x name v] assms(2) show ?thesis
    by (auto simp: runtime_ok_def split: sum.splits)
next
  case (input_now env x name v now q)
  then show ?thesis
    unfolding process_input_def
    by (rule event_ok_pair [OF assms(2) process_input_at_ok [OF assms(2)]])
next
  case (input_sampled env x name v sample probe q)
  then show ?thesis
    unfolding process_input_sampled_def
    by (rule event_ok_pair [OF assms(2) process_input_at_ok [OF assms(2)]])
next
  case (timer_now env now q)
  then show ?thesis
    unfolding process_next_due_timer_def
    by (rule event_ok_pair [OF assms(2) process_next_due_timer_at_step(1) [OF assms(2) refl]])
next
  case (timer_sampled env sample probe q)
  then show ?thesis
    unfolding process_next_due_timer_sampled_def
    by (rule event_ok_pair [OF assms(2) process_next_due_timer_at_step(1) [OF assms(2) refl]])
next
  case (schedule_sampled env t sample probe q)
  then show ?thesis by (rule event_ok_pair [OF assms(2) process_schedule_sampled_ok [OF assms(2)]])
next
  case (schedule_now env t q)
  then show ?thesis by (rule process_schedule_ok [OF assms(2)])
next
  case (resume x s)
  then show ?thesis by (rule resume_block_ok [OF assms(2)])
next
  case (activate env updates a)
  then show ?thesis by (rule activate_ok [OF assms(2)])
qed

lemma runtime_step_ok:
  assumes "runtime_config_wf features config limits" and "runtime_ok config limits rt"
    and "runtime_step rt rt'"
  shows "runtime_ok config limits rt'"
  using assms(3)
proof cases
  case live
  then show ?thesis by (rule live_step_ok [OF assms(1,2)])
next
  case (initialise ts sample revision i)
  then show ?thesis by (rule initialise_schedules_ok [OF assms(2)])
next
  case (rebaseline ts x sample i)
  then show ?thesis by (rule rebaseline_block_schedules_ok [OF assms(2)])
next
  case (poll ts sample p)
  then show ?thesis by (rule poll_schedules_ok [OF assms(2)])
qed

lemma runtime_reachableD:
  assumes "runtime_reachable config limits rt"
  shows "\<exists>env. runtime_config_validate_with_limits env config limits = Inr ()"
    and "\<exists>features. runtime_config_wf features config limits" and "runtime_ok config limits rt"
proof -
  have "(\<exists>env. runtime_config_validate_with_limits env config limits = Inr ())
    \<and> runtime_ok config limits rt"
    using assms
  proof induction
    case (start env rt)
    then show ?case using runtime_try_new_ok [OF start]
      by (auto simp: runtime_try_new_with_limits_def result_simps)
  next
    case (step rt rt')
    with validated_wf runtime_step_ok show ?case by blast
  qed
  with validated_wf
  show "\<exists>env. runtime_config_validate_with_limits env config limits = Inr ()"
    and "\<exists>features. runtime_config_wf features config limits" and "runtime_ok config limits rt"
    by blast+
qed

text \<open>
  C1. Every runtime that the interface reaches from a validated configuration satisfies the
  invariant: it still realises the configuration's wiring, every engine is consistent, health,
  failure count, suspension and timers of every block agree, the rate windows are sorted and within
  the limit, nothing lies in the future of the accepted time, and every signal holds a value of its
  datapoint type.
\<close>

theorem reachable_runtime_ok:
  assumes "runtime_reachable config limits rt"
  shows "runtime_ok config limits rt"
  by (rule runtime_reachableD(3) [OF assms])

lemma reachable_event:
  assumes "runtime_reachable config limits rt"
  shows "cascade_ok config limits (event_time ev rt) rt (handle_event env ev rt)"
  using runtime_reachableD(2,3) [OF assms] handle_event_ok by blast

subsection \<open>Failing events\<close>

text \<open>
  C2. An event fails in two ways only. Either it is rejected for its address, value or time, or its
  effects exceed a total of the resource limits: then the runtime is exactly what it was. Or its
  cascade exceeds the limit on executions or the host's time budget: then what was done stays, and
  the runtime still satisfies its invariant. No event panics, and the recursion of the cascade never
  runs out of the bound that the limit on executions gives it.
\<close>

theorem failed_events_roll_back:
  assumes "runtime_reachable config limits rt" and "handle_event env ev rt = (Inl e, rt')"
  shows "(rt' = rt \<and> (rejection e \<or> (\<exists>r a m. e = ResourceLimit r a m))
      \<or> runtime_ok config limits rt' \<and> ((\<exists>a m. e = CascadeLimit a m) \<or> (\<exists>a m. e = CascadeTimeLimit a m)))
    \<and> e \<noteq> RtOutOfFuel \<and> (\<forall>msg. e \<noteq> RtPanic msg) \<and> (\<forall>x msg. e \<noteq> RtBlock x (EventPanic msg))"
proof -
  note event = reachable_event [OF assms(1), of ev env, unfolded assms(2) cascade_ok_def, simplified]
  show ?thesis
  proof (cases "should_rollback_after_propagation e")
    case True
    with event show ?thesis by auto
  next
    case False
    moreover from this have "(\<exists>a m. e = CascadeLimit a m) \<or> (\<exists>a m. e = CascadeTimeLimit a m)"
      by (cases e) auto
    ultimately show ?thesis using event by auto
  qed
qed

text \<open>
  C6. The limit on the executions of a cascade cannot be hit at run time: the validation has
  counted all paths through the signals, and provided the products of the limits fit 64 bits no
  event of a reachable runtime fails with it.
\<close>

theorem cascade_limit_unreachable:
  assumes "runtime_reachable config limits rt"
    and "max_signal_bindings limits * max_cascade_executions limits < 2 ^ 64 - 1"
  shows "fst (handle_event env ev rt) \<noteq> Inl (CascadeLimit a m)"
proof
  assume e: "fst (handle_event env ev rt) = Inl (CascadeLimit a m)"
  obtain x where x: "x \<in> runnable_ids rt" "max_cascade_executions limits < cascade_cost config x"
    using reachable_event [OF assms(1), of ev env] e by (auto simp: cascade_ok_def)
  have "realises config limits rt"
    using runtime_reachableD(3) [OF assms(1)] by (simp add: runtime_ok_def runtime_inv_def)
  then have "lb_id ` set (rt_blocks rt) = bc_id ` set (rc_blocks config)"
    using realises_ids by (metis set_map)
  then have "x \<in> bc_id ` set (rc_blocks config)" using x(1) by (auto simp: runnable_ids_def)
  then obtain b where b: "b \<in> set (rc_blocks config)" "bc_id b = x" by blast
  obtain env' where "runtime_config_validate_with_limits env' config limits = Inr ()"
    using runtime_reachableD(1) [OF assms(1)] by blast
  then obtain n where "n \<le> max_cascade_executions limits" "cascades (fed_blocks config) x n"
    using cascade_check_exact [OF assms(2)] b by blast
  with cascade_cost_eq x(2) show False by fastforce
qed

subsection \<open>Successful events\<close>

text \<open>A cascade starts with the execution of its event and keeps it.\<close>

definition started :: "cascade \<Rightarrow> bool" where
  "started c \<longleftrightarrow> cas_executions c \<noteq> []"

lemma refresh_consumer_started:
  "started c \<Longrightarrow> started (snd (refresh_consumer pg v consumer c))"
  by (auto simp: started_def refresh_consumer_def on_runtime_def split: option.splits prod.splits)

lemma trigger_consumer_started:
  assumes "\<And>n d. started d \<Longrightarrow> started (snd (recurse n d))" and "started c"
  shows "started (snd (trigger_consumer recurse pg v producing consumer c))"
proof -
  have "started (snd (recurse n \<lparr>cas_runtime = rt, cas_executions = cas_executions c @ [bx]\<rparr>))" for n rt bx
    by (rule assms(1)) (simp add: started_def)
  then show ?thesis
    using assms(2)
    by (auto simp: trigger_consumer_def Let_def on_runtime_def started_def
        split: option.splits prod.splits sum.splits bool.splits)
qed

lemma publish_output_started:
  assumes "\<And>n d. started d \<Longrightarrow> started (snd (recurse n d))" and "started c"
  shows "started (snd (publish_output recurse pg n x producing output c))"
proof -
  have "started (snd (for_each (trigger_consumer recurse pg v producing) xs d))"
    and "started (snd (for_each (refresh_consumer pg v) xs d))" if "started d" for v xs d
    using that
    by (auto intro: for_each_invariant [where I = started] trigger_consumer_started [OF assms(1)]
        refresh_consumer_started)
  moreover have "started (note_effect n effect eligible (c\<lparr>cas_runtime := rt\<rparr>))" for effect eligible rt
    using assms(2) by (simp add: started_def note_effect_def Let_def)
  ultimately show ?thesis
    using assms(2)
    by (auto simp: publish_output_def Let_def split: option.splits prod.splits)
qed

lemma propagate_started:
  "started c \<Longrightarrow> started (snd (propagate_from_execution fuel pg n c))"
proof (induction fuel arbitrary: n c)
  case (Suc fuel)
  have "started (snd (for_each (publish_output (propagate_from_execution fuel pg) pg n x producing) xs c))"
    for x producing xs
    by (rule for_each_invariant [where I = started]) (use Suc in \<open>auto intro: publish_output_started\<close>)
  with Suc.prems show ?case by (simp add: Let_def split: sum.splits)
qed simp

lemma finish_cascade_started: "finish_cascade pg rt bx rt1 \<noteq> (Inr [], rt')"
  using propagate_started [of "\<lparr>cas_runtime = rt1, cas_executions = [bx]\<rparr>" "cascade_fuel rt1" pg 0]
  by (auto simp: started_def finish_cascade_def split: prod.splits sum.splits if_splits)

text \<open>What an event without an execution can change of the totals: a block over its rate loses its timers.\<close>

definition calm :: "logic_block \<Rightarrow> logic_block \<Rightarrow> bool" where
  "calm b b' \<longleftrightarrow>
     lp_source (bc_logic (lb_config b')) = lp_source (bc_logic (lb_config b))
     \<and> eng_state (lb_engine b') = eng_state (lb_engine b)
     \<and> length (eng_pending_timers (lb_engine b')) \<le> length (eng_pending_timers (lb_engine b))"

definition quiet :: "runtime \<Rightarrow> runtime \<Rightarrow> bool" where
  "quiet rt rt' \<longleftrightarrow> list_all2 calm (rt_blocks rt) (rt_blocks rt')"

lemma calm_refl [simp]: "calm b b"
  by (simp add: calm_def)

lemma quiet_refl [simp]: "quiet rt rt"
  by (simp add: quiet_def list.rel_refl)

lemma quiet_trans: "quiet rt rt' \<Longrightarrow> quiet rt' rt'' \<Longrightarrow> quiet rt rt''"
  unfolding quiet_def by (rule list_all2_trans [of calm calm]) (auto simp: calm_def)

lemma quiet_accepted [simp]: "quiet rt (accepted now rt') = quiet rt rt'"
  by (simp add: quiet_def accepted_def)

lemma quiet_set_block:
  assumes "k < length (rt_blocks rt) \<Longrightarrow> calm (rt_blocks rt ! k) b"
  shows "quiet rt (set_block k b rt)"
proof (cases "k < length (rt_blocks rt)")
  case True
  have "list_all2 calm ((rt_blocks rt)[k := rt_blocks rt ! k]) ((rt_blocks rt)[k := b])"
    using True assms by (intro list_all2_update_cong) (simp_all add: list.rel_refl)
  then show ?thesis by (simp add: quiet_def set_block_def)
qed (simp add: quiet_def set_block_def list.rel_refl list_update_beyond)

lemma accept_time_calm:
  "accept_time now eng = (r, eng') \<Longrightarrow>
   eng_state eng' = eng_state eng \<and> eng_pending_timers eng' = eng_pending_timers eng"
  by (auto simp: accept_time_def split: option.splits if_splits)

lemma idle_update_calm:
  "process_input_update_with_context env name update now site utc probe eng = (Inr None, eng') \<Longrightarrow>
   eng_state eng' = eng_state eng \<and> eng_pending_timers eng' = eng_pending_timers eng"
  by (auto simp: process_input_update_with_context_def Let_def dest: accept_time_calm
      split: sum.splits prod.splits input_update.splits)

lemma idle_timer_calm:
  "process_next_due_timer_with_context env now site utc probe eng = (Inr None, eng') \<Longrightarrow>
   eng_state eng' = eng_state eng \<and> eng_pending_timers eng' = eng_pending_timers eng"
  by (auto simp: process_next_due_timer_with_context_def Let_def dest: accept_time_calm
      split: sum.splits prod.splits option.splits if_splits)

lemma observed_none:
  "process_input_update_with_context env name (Observe v) now site utc probe eng = (Inr u, eng') \<Longrightarrow> u = None"
  by (auto simp: process_input_update_with_context_def Let_def split: sum.splits prod.splits)

lemma quiet_set_engine:
  assumes "eng_state eng = eng_state (lb_engine (rt_blocks rt ! k))
    \<and> eng_pending_timers eng = eng_pending_timers (lb_engine (rt_blocks rt ! k))"
  shows "quiet rt (set_engine k eng rt)"
  unfolding set_engine_def using assms by (intro quiet_set_block) (simp add: calm_def)

lemma quiet_then_engine:
  assumes "quiet rt rt'" and "eng_state eng = eng_state (lb_engine (rt_blocks rt' ! k))"
    and "eng_pending_timers eng = eng_pending_timers (lb_engine (rt_blocks rt' ! k))"
  shows "quiet rt (set_engine k eng rt')"
  using quiet_trans [OF assms(1) quiet_set_engine] assms(2,3) by blast

lemma observe_at_quiet:
  assumes "observe_at env k name v now rt = (Inr u, rt')"
  shows "quiet rt rt'"
proof -
  from assms obtain w eng where eng: "process_input_update_with_context env name (Observe v) now default_site
      None None (lb_engine (rt_blocks rt ! k)) = (Inr w, eng)" "rt' = set_engine k eng rt"
    by (auto simp: observe_at_def engine_observe_def split: sum.splits prod.splits)
  with observed_none idle_update_calm show ?thesis by (metis quiet_set_engine)
qed

lemma admit_at_quiet:
  assumes "admit_at k now rt = (r, rt')"
  shows "quiet rt rt'"
proof -
  obtain b where b: "admit_live_execution now (max_live_executions_per_block_per_second (rt_limits rt))
      (rt_blocks rt ! k) = (r, b)" "rt' = set_block k b rt"
    using assms by (auto simp: admit_at_def split: prod.splits)
  from b(1) have "calm (rt_blocks rt ! k) b"
    by (auto simp: admit_live_execution_def Let_def calm_def clear_timers_def
        prune_live_execution_window_def split: if_splits)
  with b(2) show ?thesis by (simp add: quiet_set_block)
qed

lemma process_input_at_quiet:
  assumes "process_input_at env x name v now site utc probe rt = (Inr None, rt')"
  shows "quiet rt rt'"
  using assms
  by (auto simp: process_input_at_def split: sum.splits prod.splits if_splits bool.splits
      dest!: admit_at_quiet observe_at_quiet intro: quiet_trans)

lemma process_next_due_timer_at_quiet:
  assumes "process_next_due_timer_at env now site utc probe rt = (Inr None, rt')"
  shows "quiet rt rt'"
  using assms
  by (auto simp: process_next_due_timer_at_def split: sum.splits prod.splits option.splits bool.splits
      dest!: admit_at_quiet idle_timer_calm intro: quiet_then_engine)

lemma process_schedule_sampled_quiet:
  assumes "process_schedule_sampled env t sample probe rt = (Inr None, rt')"
  shows "quiet rt rt'"
  using assms
  by (auto simp: process_schedule_sampled_def Let_def split: sum.splits prod.splits option.splits bool.splits
      dest!: admit_at_quiet)
    (auto simp: quiet_def accepted_def)

lemma admit_update_quiet: "admit_update k now update rt = (update', rt') \<Longrightarrow> quiet rt rt'"
  by (auto simp: admit_update_def dest: admit_at_quiet split: input_update.splits if_splits prod.splits bool.splits)

lemma process_input_update_single_quiet:
  assumes "process_input_update_single env x name update sample probe rt = (Inr None, rt')"
  shows "quiet rt rt'"
  using assms
  by (auto simp: process_input_update_single_def Let_def split: sum.splits prod.splits option.splits
      dest!: admit_update_quiet idle_update_calm intro: quiet_then_engine)

lemma quiet_event:
  assumes "handle_event env ev rt = (Inr [], rt')"
  shows "quiet rt rt'"
  using assms
  by (cases ev)
    (auto simp: process_input_cascade_def process_input_cascade_sampled_def
      process_next_due_timer_cascade_def process_next_due_timer_cascade_sampled_def
      process_schedule_cascade_def process_schedule_cascade_sampled_def
      process_input_update_def process_input_update_sampled_def
      process_input_def process_input_sampled_def process_next_due_timer_def
      process_next_due_timer_sampled_def process_schedule_def finish_cascade_started
      dest: process_input_at_quiet process_next_due_timer_at_quiet process_schedule_sampled_quiet
        process_input_update_single_quiet
      split: prod.splits sum.splits option.splits)

text \<open>The totals that the limits bound: none is greater than before.\<close>

definition totals_at_most :: "runtime_usage \<Rightarrow> runtime_usage \<Rightarrow> bool" where
  "totals_at_most u u' \<longleftrightarrow>
     us_logic_source_bytes u \<le> us_logic_source_bytes u' \<and> us_state_bytes u \<le> us_state_bytes u'
     \<and> us_pending_timers u \<le> us_pending_timers u'"

lemma quiet_totals:
  assumes "quiet rt rt'"
  shows "totals_at_most (usage rt') (usage rt)"
proof -
  have "(\<Sum>b\<leftarrow>bs'. length (lp_source (bc_logic (lb_config b)))) = (\<Sum>b\<leftarrow>bs. length (lp_source (bc_logic (lb_config b))))
      \<and> (\<Sum>b\<leftarrow>bs'. state_bytes (eng_state (lb_engine b))) = (\<Sum>b\<leftarrow>bs. state_bytes (eng_state (lb_engine b)))
      \<and> (\<Sum>b\<leftarrow>bs'. length (eng_pending_timers (lb_engine b))) \<le> (\<Sum>b\<leftarrow>bs. length (eng_pending_timers (lb_engine b)))"
    if "list_all2 calm bs bs'" for bs bs'
    using that by (induction rule: list_all2_induct) (auto simp: calm_def)
  from this [OF assms [unfolded quiet_def]] show ?thesis by (simp add: totals_at_most_def usage_def)
qed

text \<open>
  C3. A successful event accepts its time and returns at most as many executions as the limit on
  cascades allows. When anything ran, the totals of source bytes, state bytes and pending timers are
  within their limits; when nothing ran, none of them is greater than before. Every returned execution
  belongs to a configured block, and its outputs are distinct outputs of that block with values of
  their types.
\<close>

theorem successful_events_within_limits:
  assumes "runtime_reachable config limits rt" and "handle_event env ev rt = (Inr bxs, rt')"
  shows "rt_last_accepted_at rt' = Some (event_time ev rt)
    \<and> length bxs \<le> max 1 (max_cascade_executions limits)
    \<and> (if bxs = [] then totals_at_most (usage rt') (usage rt) else validate_usage rt' = Inr ())
    \<and> (\<forall>bx \<in> set bxs. execution_fits config bx)"
proof -
  have "bxs = [] \<Longrightarrow> totals_at_most (usage rt') (usage rt)"
    using assms(2) quiet_totals [OF quiet_event] by blast
  then show ?thesis
    using reachable_event [OF assms(1), of ev env] assms(2)
    by (simp add: cascade_ok_def execution_budget_def)
qed

lemma numberedD:
  assumes "numbered base (map bx_execution bxs)" and "k < length bxs"
  shows "ex_id (bx_execution (bxs ! k)) = Some (base + of_nat k)"
    and "if k = 0 then ex_causal_producer (bx_execution (bxs ! k)) = None
      else \<exists>m < k. ex_causal_producer (bx_execution (bxs ! k)) = ex_id (bx_execution (bxs ! m))"
proof -
  have ids: "ex_id (bx_execution (bxs ! m)) = Some (base + of_nat m)" if "m \<le> k" for m
    using assms that by (simp add: numbered_def)
  then show "ex_id (bx_execution (bxs ! k)) = Some (base + of_nat k)" by simp
  show "if k = 0 then ex_causal_producer (bx_execution (bxs ! k)) = None
      else \<exists>m < k. ex_causal_producer (bx_execution (bxs ! k)) = ex_id (bx_execution (bxs ! m))"
  proof (cases "k = 0")
    case True
    with assms show ?thesis by (simp add: numbered_def)
  next
    case False
    with assms obtain p where p: "ex_causal_producer (bx_execution (bxs ! k)) = Some p"
      by (auto simp: numbered_def)
    with assms obtain m where "m < k" "p = base + of_nat m" by (auto simp: numbered_def)
    with False p ids [of m] show ?thesis by auto
  qed
qed

text \<open>
  C5. The executions of an event are numbered consecutively from the runtime's counter, which moves
  on by their number; the first has no causal producer, and every later one names the identifier of
  an earlier execution of the same event (as long as the counter does not saturate).
\<close>

theorem cascade_executions_causal:
  assumes "runtime_reachable config limits rt" and "handle_event env ev rt = (Inr bxs, rt')"
    and "unat (rt_next_execution_id rt) + max 1 (max_cascade_executions limits) < 2 ^ 64"
  shows "rt_next_execution_id rt' = rt_next_execution_id rt + of_nat (length bxs)
    \<and> (\<forall>k < length bxs.
         ex_id (bx_execution (bxs ! k)) = Some (rt_next_execution_id rt + of_nat k)
         \<and> (if k = 0 then ex_causal_producer (bx_execution (bxs ! k)) = None
            else \<exists>m < k. ex_causal_producer (bx_execution (bxs ! k))
                   = ex_id (bx_execution (bxs ! m))))"
proof -
  have "numbered (rt_next_execution_id rt) (map bx_execution bxs)"
    and "rt_next_execution_id rt' = rt_next_execution_id rt + of_nat (length bxs)"
    using reachable_event [OF assms(1), of ev env] assms(2,3)
    by (simp_all add: cascade_ok_def execution_budget_def)
  with numberedD show ?thesis by blast
qed

text \<open>
  C4. A block that is disabled or suspended before an event executes nothing in it, neither as its
  target nor in the cascade: whatever happens, it only observes its inputs.
\<close>

theorem suspended_blocks_never_execute:
  assumes "runtime_reachable config limits rt" and "b \<in> set (rt_blocks rt)"
    and "\<not> lb_enabled b \<or> lb_health b \<noteq> Active"
    and "handle_event env ev rt = (Inr bxs, rt')"
  shows "\<forall>bx \<in> set bxs. bx_block_id bx \<noteq> lb_id b"
proof
  fix bx assume "bx \<in> set bxs"
  then have "bx_block_id bx \<in> runnable_ids rt"
    using reachable_event [OF assms(1), of ev env] assms(4) by (simp add: cascade_ok_def)
  then obtain c where c: "c \<in> set (rt_blocks rt)" "block_runnable c" "lb_id c = bx_block_id bx"
    by (auto simp: runnable_ids_def)
  obtain features where wf: "runtime_config_wf features config limits"
    using runtime_reachableD(2) [OF assms(1)] by blast
  have "realises config limits rt"
    using runtime_reachableD(3) [OF assms(1)] by (simp add: runtime_ok_def runtime_inv_def)
  from realises_ids [OF this] have "distinct (map lb_id (rt_blocks rt))"
    using wf unfolding runtime_config_wf_def by presburger
  then have "inj_on lb_id (set (rt_blocks rt))" unfolding distinct_map by blast
  moreover have "c \<noteq> b" using c(2) assms(3) by (auto simp: block_runnable_def)
  ultimately show "bx_block_id bx \<noteq> lb_id b" using c(1,3) assms(2) by (metis inj_onD)
qed

text \<open>
  C9. A timer poll of a reachable runtime fires, among all due timers of all runnable blocks, the
  first in the order of deadline, block and name: the execution it returns is that timer's.
\<close>

theorem first_timer_of_all_blocks_fires:
  assumes "runtime_reachable config limits rt"
    and "process_next_due_timer_sampled env sample probe rt = (Inr (Some bx), rt')"
  shows "\<exists>b \<in> set (rt_blocks rt). \<exists>t \<in> set (btm_values (eng_pending_timers (lb_engine b))).
    bx_block_id bx = lb_id b \<and> block_runnable b \<and> pt_due_at t \<le> cs_monotonic_ms sample
    \<and> ex_trigger (bx_execution bx) = timer_trigger_of (cs_monotonic_ms sample) t
    \<and> (\<forall>c \<in> set (rt_blocks rt). \<forall>u \<in> set (btm_values (eng_pending_timers (lb_engine c))).
         block_runnable c \<and> pt_due_at u \<le> cs_monotonic_ms sample \<longrightarrow>
         (pt_due_at t, lb_id b, pt_name t) \<le> (pt_due_at u, lb_id c, pt_name u))"
proof -
  let ?now = "cs_monotonic_ms sample"
  obtain i t where first: "first_due rt ?now i t"
    and bx: "bx_block_id bx = lb_id (rt_blocks rt ! i)"
      "ex_trigger (bx_execution bx) = timer_trigger_of ?now t"
    using process_next_due_timer_at_step(2) [OF runtime_reachableD(3) [OF assms(1)]
        assms(2) [unfolded process_next_due_timer_sampled_def] refl] by blast
  have t: "(i, t) \<in> set (due_timers rt ?now)"
    and least: "\<And>j u. (j, u) \<in> set (due_timers rt ?now) \<Longrightarrow>
      global_timer_order rt (i, t) \<le> global_timer_order rt (j, u)"
    using first by (auto simp: first_due_def)
  have "(pt_due_at t, lb_id (rt_blocks rt ! i), pt_name t) \<le> (pt_due_at u, lb_id c, pt_name u)"
    if "c \<in> set (rt_blocks rt)" "u \<in> set (btm_values (eng_pending_timers (lb_engine c)))"
      "block_runnable c" "pt_due_at u \<le> ?now" for c u
  proof -
    obtain j where "j < length (rt_blocks rt)" "rt_blocks rt ! j = c"
      using \<open>c \<in> set (rt_blocks rt)\<close> by (auto simp: in_set_conv_nth)
    with that least [of j u] show ?thesis by (simp add: due_timers_iff global_timer_order_def)
  qed
  with t bx show ?thesis
    by (intro bexI [of _ "rt_blocks rt ! i"] bexI [of _ t]) (auto simp: due_timers_iff)
qed

subsection \<open>Activation\<close>

lemma set_dedup [simp]: "set (dedup xs) = set xs"
  by (induction xs rule: dedup.induct) auto

text \<open>What the report of an update says of the block before and after it.\<close>

definition reported :: "block_activation_result \<Rightarrow> logic_block \<Rightarrow> logic_block \<Rightarrow> bool" where
  "reported report b b' \<longleftrightarrow>
     bar_block_id report = lb_id b
     \<and> bar_logic_revision report = active_logic_revision (lb_engine b')
     \<and> bar_enabled report = lb_enabled b'
     \<and> bar_source_changed report
         = (active_logic_revision (lb_engine b') \<noteq> active_logic_revision (lb_engine b))
     \<and> bar_enabled_changed report = (lb_enabled b' \<noteq> lb_enabled b)
     \<and> set (bar_cancelled_timers report)
         = set (btm_keys (eng_pending_timers (lb_engine b)))
           - set (btm_keys (eng_pending_timers (lb_engine b')))"

lemma activation_reported:
  "reported (activation_report u (map_option logic_program_new (ba_source u)) b) b
     (activated_block u (map_option logic_program_new (ba_source u)) b)"
  by (auto simp: reported_def activation_report_def activated_block_def apply_source_def
      apply_enabled_def logic_program_new_def active_logic_revision_def btm_keys_def
      split: option.splits)

text \<open>
  C7. Activation is all or nothing over a batch of updates. It fails without any effect, or every
  update is applied to the block it names: the active revision is that of the update's source, the
  enablement the requested one, the Lua state and the inputs stay, a change of either resets the
  block's health, and the block's timers are cancelled when its source changes or it is disabled.
  Blocks that no update names stay as they are. The reports tell, in the order of the updates, what
  changed and exactly the timers that were cancelled.
\<close>

theorem activation_all_or_nothing:
  assumes "activate env updates rt = (r, rt')"
  shows "(\<exists>e. r = Inl e \<and> rt' = rt)
    \<or> (\<exists>reports. r = Inr reports \<and> length reports = length updates
         \<and> length (rt_blocks rt') = length (rt_blocks rt)
         \<and> (\<forall>k < length updates. \<exists>i < length (rt_blocks rt).
              lb_id (rt_blocks rt ! i) = ba_block_id (updates ! k)
              \<and> activated (updates ! k) (rt_blocks rt ! i) (rt_blocks rt' ! i)
              \<and> reported (reports ! k) (rt_blocks rt ! i) (rt_blocks rt' ! i))
         \<and> (\<forall>i < length (rt_blocks rt).
              lb_id (rt_blocks rt ! i) \<notin> ba_block_id ` set updates \<longrightarrow>
              rt_blocks rt' ! i = rt_blocks rt ! i))"
  using assms
proof (cases rule: activate_cases)
  case (applied prepared bs cursors)
  note len = list_all2_lengthD [OF applied(1)]
  let ?reports = "map (\<lambda>(u, i, p). activation_report u p (rt_blocks rt ! i)) (zip updates prepared)"
  have each: "\<exists>i < length (rt_blocks rt). lb_id (rt_blocks rt ! i) = ba_block_id (updates ! k)
      \<and> activated (updates ! k) (rt_blocks rt ! i) (rt_blocks rt' ! i)
      \<and> reported (?reports ! k) (rt_blocks rt ! i) (rt_blocks rt' ! i)"
    if k: "k < length updates" for k
  proof -
    obtain i p where ip: "prepared ! k = (i, p)" by fastforce
    have prep: "i < length (rt_blocks rt)" "lb_id (rt_blocks rt ! i) = ba_block_id (updates ! k)"
      "p = map_option logic_program_new (ba_source (updates ! k))"
      using applied(1) k ip by (auto simp: list_all2_conv_all_nth prepared_for_def)
    have "(updates ! k, prepared ! k) \<in> set (zip updates prepared)"
      using k len by (auto simp: set_zip)
    then have "bs ! i = activated_block (updates ! k) p (rt_blocks rt ! i)"
      using applied(6) ip by auto
    moreover have "?reports ! k = activation_report (updates ! k) p (rt_blocks rt ! i)"
      using k len ip by simp
    ultimately show ?thesis
      using prep activated_block_spec activation_reported applied(4) by auto
  qed
  have "rt_blocks rt' ! i = rt_blocks rt ! i"
    if i: "i < length (rt_blocks rt)" "lb_id (rt_blocks rt ! i) \<notin> ba_block_id ` set updates" for i
  proof -
    have "i \<notin> fst ` set prepared"
    proof
      assume "i \<in> fst ` set prepared"
      then obtain k where k: "k < length prepared" "fst (prepared ! k) = i"
        by (auto simp: in_set_conv_nth)
      then have "lb_id (rt_blocks rt ! i) = ba_block_id (updates ! k)"
        using applied(1) by (auto simp: list_all2_conv_all_nth prepared_for_def)
      with i(2) k(1) len show False by simp
    qed
    with applied(4,5,7) i(1) show ?thesis by simp
  qed
  with each applied(3-5) len show ?thesis by (intro disjI2 exI [of _ ?reports]) simp
qed simp

subsection \<open>Instances\<close>

lemma chained_runtime_reachable: "runtime_reachable chained_config sample_limits chained_runtime"
  by (rule runtime_reachable.start [OF chained_runtime_new])

lemma second_run_reachable: "runtime_reachable chained_config sample_limits second_run"
  using runtime_reachable.step [OF chained_runtime_reachable] live [OF live_step.event] switch_on_cascade
  by blast

theorem reachable_runtime_ok_witness: "runtime_ok chained_config sample_limits second_run"
  by (rule reachable_runtime_ok [OF second_run_reachable])

theorem successful_events_within_limits_witness:
  "\<exists>bxs. handle_event sample_environment switch_on chained_runtime = (Inr bxs, second_run)
     \<and> length bxs = 2 \<and> length bxs \<le> max 1 (max_cascade_executions sample_limits)"
proof -
  obtain bxs where run: "handle_event sample_environment switch_on chained_runtime = (Inr bxs, second_run)"
    and ids: "map bx_block_id bxs = [BlockId ''a'', BlockId ''b'']"
    by (rule exE [OF switch_on_cascade]) (erule conjE)
  have "length bxs = 2" using arg_cong [OF ids, of length] by simp
  moreover have "length bxs \<le> max 1 (max_cascade_executions sample_limits)"
    using successful_events_within_limits [OF chained_runtime_reachable run] by (elim conjE)
  ultimately show ?thesis using run by (intro exI [of _ bxs] conjI)
qed

theorem cascade_executions_causal_witness:
  "\<exists>bxs. handle_event sample_environment switch_on chained_runtime = (Inr bxs, second_run)
     \<and> ex_id (bx_execution (bxs ! 1)) = Some 2
     \<and> ex_causal_producer (bx_execution (bxs ! 1)) = ex_id (bx_execution (bxs ! 0))"
proof -
  obtain bxs where run: "handle_event sample_environment switch_on chained_runtime = (Inr bxs, second_run)"
    and ids: "map bx_block_id bxs = [BlockId ''a'', BlockId ''b'']"
    by (rule exE [OF switch_on_cascade]) (erule conjE)
  have len: "length bxs = 2" using arg_cong [OF ids, of length] by simp
  have first_id: "rt_next_execution_id chained_runtime = 1" by (simp add: chained_runtime_eq)
  have small: "unat (rt_next_execution_id chained_runtime) + max 1 (max_cascade_executions sample_limits)
      < 2 ^ 64" by (simp add: first_id sample_limit_values)
  have "1 < length bxs" using len by simp
  with cascade_executions_causal [OF chained_runtime_reachable run small, THEN conjunct2]
  have second: "ex_id (bx_execution (bxs ! 1)) = Some (rt_next_execution_id chained_runtime + of_nat 1)
     \<and> (if (1 :: nat) = 0 then ex_causal_producer (bx_execution (bxs ! 1)) = None
        else \<exists>m < 1. ex_causal_producer (bx_execution (bxs ! 1)) = ex_id (bx_execution (bxs ! m)))"
    by blast
  show ?thesis
    by (intro exI [of _ bxs] conjI run) (use second in \<open>simp_all add: first_id\<close>)
qed

theorem failed_events_roll_back_witness:
  "handle_event sample_environment (InputNow (BlockId ''z'') (EndpointName ''switch'') (typed_bool True)
     2000) second_run = (Inl (RtUnknownBlock (BlockId ''z'')), second_run)
   \<and> rejection (RtUnknownBlock (BlockId ''z''))"
proof -
  have "block_index second_run (BlockId ''z'') = Inl (RtUnknownBlock (BlockId ''z''))"
    by (simp add: block_index_def ok_or_def second_run_def ran_block_def)
  then have run: "handle_event sample_environment
      (InputNow (BlockId ''z'') (EndpointName ''switch'') (typed_bool True) 2000) second_run
    = (Inl (RtUnknownBlock (BlockId ''z'')), second_run)"
    by (simp add: process_input_cascade_def process_input_def process_input_at_def)
  from failed_events_roll_back [OF second_run_reachable run] run show ?thesis by simp
qed

theorem cascade_limit_unreachable_witness:
  "fst (handle_event sample_environment switch_on chained_runtime) \<noteq> Inl (CascadeLimit 5 4)"
  by (rule cascade_limit_unreachable [OF chained_runtime_reachable]) (simp add: sample_limit_values)

theorem first_timer_of_all_blocks_fires_witness:
  "\<exists>bx rt'. process_next_due_timer_sampled sample_environment
      \<lparr>cs_monotonic_ms = 6000, cs_utc_unix_ms = None\<rparr> None second_run = (Inr (Some bx), rt')
    \<and> (\<exists>b \<in> set (rt_blocks second_run).
         \<exists>t \<in> set (btm_values (eng_pending_timers (lb_engine b))).
           bx_block_id bx = lb_id b \<and> pt_due_at t \<le> 6000)"
proof -
  let ?sample = "\<lparr>cs_monotonic_ms = 6000, cs_utc_unix_ms = None\<rparr>"
  have pending: "eng_pending_timers sample_triggered = [(TimerName ''off'', sample_timer)]"
    "eng_last_accepted_at sample_triggered = Some 1000"
    by (simp_all add: sample_triggered_def)
  have timer: "sample_timer \<in> set (btm_values (eng_pending_timers sample_triggered))"
    "pt_due_at sample_timer \<le> 6000" "pt_due_at sample_timer = 6000"
    by (simp_all add: pending btm_values_def sample_timer_def)
  have ok: "engine_ok sample_triggered"
    using engine_reachable_invariant [OF sample_triggered_reachable] by blast
  obtain ex eng where engine: "process_next_due_timer_with_context sample_environment 6000
      (rt_site second_run) None None sample_triggered = (Inr (Some ex), eng)"
    using engine_timer_step [OF ok _ timer(1,2)] pending(2) by fastforce
  obtain bx rt2 where "finish_execution 0 ex None (set_engine 0 eng admitted_run) = (bx, rt2)" by fastforce
  with second_run_poll [OF engine] have run: "process_next_due_timer_sampled sample_environment ?sample None
      second_run = (Inr (Some bx), accepted 6000 rt2)"
    by (simp add: process_next_due_timer_sampled_def)
  from first_timer_of_all_blocks_fires [OF second_run_reachable run] run show ?thesis by fastforce
qed

text \<open>The first block is disabled before its input changes.\<close>

definition disable_a :: block_activation where
  "disable_a = \<lparr>ba_block_id = BlockId ''a'', ba_source = None, ba_enabled = Some False\<rparr>"

definition disabled_run :: runtime where
  "disabled_run = chained_runtime
     \<lparr>rt_blocks := [set_enabled False (fresh_block sample_limits block_a),
        fresh_block sample_limits block_b]\<rparr>"

lemma disable_a_activates: "\<exists>reports. activate sample_environment [disable_a] chained_runtime = (Inr reports, disabled_run)"
  by (simp add: activate_def prepare_step_def disable_a_def chained_runtime_eq activate_block_def
      apply_source_def apply_enabled_def fresh_sample_block set_block_def disabled_run_def
      invalidate_cursors_def btm_map_values_def ok_or_def)

theorem activation_all_or_nothing_witness:
  "\<exists>reports. activate sample_environment [disable_a] chained_runtime = (Inr reports, disabled_run)
     \<and> activated disable_a (rt_blocks chained_runtime ! 0) (rt_blocks disabled_run ! 0)"
proof -
  obtain reports where run: "activate sample_environment [disable_a] chained_runtime = (Inr reports, disabled_run)"
    using disable_a_activates by (elim exE)
  from activation_all_or_nothing [OF run]
  obtain i where "i < length (rt_blocks chained_runtime)"
    "lb_id (rt_blocks chained_runtime ! i) = ba_block_id disable_a"
    "activated disable_a (rt_blocks chained_runtime ! i) (rt_blocks disabled_run ! i)"
    by auto
  moreover from this have "i = 0"
    by (auto simp: chained_runtime_eq fresh_sample_block disable_a_def less_Suc_eq)
  ultimately show ?thesis using run by blast
qed

lemma disabled_run_reachable: "runtime_reachable chained_config sample_limits disabled_run"
  using runtime_reachable.step [OF chained_runtime_reachable] live [OF live_step.activate] disable_a_activates
  by blast

theorem suspended_blocks_never_execute_witness:
  "\<exists>bxs rt'. handle_event sample_environment switch_on disabled_run = (Inr bxs, rt')
     \<and> (\<forall>bx \<in> set bxs. bx_block_id bx \<noteq> BlockId ''a'')"
proof -
  let ?a = "set_enabled False (fresh_block sample_limits block_a)"
  have blocks: "rt_blocks disabled_run = [?a, fresh_block sample_limits block_b]"
    "rt_last_accepted_at disabled_run = None"
    by (simp_all add: disabled_run_def chained_runtime_eq)
  have a: "lb_id ?a = BlockId ''a''" "\<not> lb_enabled ?a" "lb_engine ?a = sample_engine"
    by (simp_all add: fresh_sample_block clear_timers_def sample_engine_def)
  have valid: "validate_input sample_engine (EndpointName ''switch'') (typed_bool True) = Inr 0"
    by (simp add: validate_input_def validate_endpoint_def sample_engine_def sample_config_def
        sample_endpoints_def typed_bool_def)
  have observe: "engine_observe sample_environment (EndpointName ''switch'') (typed_bool True) 1000
      sample_engine = (Inr (), observed 1000 0 (typed_bool True) sample_engine)"
    by (rule engine_observe_step(1) [OF sample_engine_ok valid]) (simp add: sample_engine_def)
  have "block_index disabled_run (BlockId ''a'') = Inr 0"
    by (simp add: block_index_def ok_or_def blocks fresh_sample_block)
  moreover have "ensure_time disabled_run (Some x) 1000 = Inr ()" for x
    by (simp add: ensure_time_def blocks)
  ultimately have "\<exists>rt'. handle_event sample_environment switch_on disabled_run = (Inr [], rt')"
    using a valid observe
    by (simp add: switch_on_def process_input_cascade_def process_input_def process_input_at_def
        observe_at_def blocks)
  then obtain rt' where run: "handle_event sample_environment switch_on disabled_run = (Inr [], rt')"
    by (elim exE)
  have "\<forall>bx \<in> set ([] :: block_execution list). bx_block_id bx \<noteq> lb_id ?a"
    by (rule suspended_blocks_never_execute [OF disabled_run_reachable _ _ run])
      (simp_all add: blocks fresh_sample_block)
  with run a(1) show ?thesis by (intro exI [of _ "[]"] exI [of _ rt']) simp
qed

end
