(* ===== verification/Schedule_Example.thy ===== *)
theory Schedule_Example
  imports Runtime_Example
begin

text \<open>
  A concrete schedule: a block with an interval of one minute, whose first poll after two and a half
  minutes coalesces two occurrences and whose second delivers the third.
\<close>

definition tick :: block_schedule where
  "tick = \<lparr>sch_name = ScheduleName ''tick'', sch_enabled = True, sch_rule = RuleInterval 60 0\<rparr>"

definition scheduled_block :: block_config where
  "scheduled_block = (sample_block ''a'' [])\<lparr>bc_schedules := [tick]\<rparr>"

definition scheduled_config :: runtime_config where
  "scheduled_config = \<lparr>rc_blocks = [scheduled_block], rc_signals = [], rc_site = default_site\<rparr>"

lemma scheduled_block_fields [simp]:
  "bc_id scheduled_block = BlockId ''a''" "bc_enabled scheduled_block"
  "bc_endpoints scheduled_block = sample_endpoints" "bc_signal_bindings scheduled_block = []"
  "bc_logic scheduled_block = sample_program" "bc_schedules scheduled_block = [tick]"
  by (simp_all add: scheduled_block_def)

lemma tick_fields [simp]:
  "sch_name tick = ScheduleName ''tick''" "sch_enabled tick" "sch_rule tick = RuleInterval 60 0"
  by (simp_all add: tick_def)

lemma scheduled_block_valid:
  "block_config_validate_with_limits sample_environment scheduled_block sample_limits = Inr ()"
  using sample_engine_valid
  by (simp add: block_config_validate_with_limits_def sample_source_length check_schedule_def)
    (simp add: sample_limits_def sample_endpoints_def min_interval_seconds_def max_interval_seconds_def)

lemma scheduled_config_valid:
  "runtime_config_validate_with_limits sample_environment scheduled_config sample_limits = Inr ()"
  using scheduled_block_valid
  by (simp add: runtime_config_validate_with_limits_def scheduled_config_def sample_limit_values
      sample_source_length bindings_of_def check_block_def detect_signal_cycle_def detect_step_def
      children_of_def check_cascades_def saturating_add_word_def Let_def)

definition scheduled_runtime :: runtime where
  "scheduled_runtime = fresh_runtime scheduled_config sample_limits"

lemma scheduled_runtime_new:
  "runtime_try_new_with_limits sample_environment scheduled_config sample_limits = Inr scheduled_runtime"
  unfolding scheduled_runtime_def by (rule runtime_try_new_eq [OF scheduled_config_valid])

abbreviation "tick_key \<equiv> (BlockId ''a'', ScheduleName ''tick'')"

definition tick_cursor :: "int option \<Rightarrow> int \<Rightarrow> schedule_cursor" where
  "tick_cursor l n = \<lparr>cur_last_delivered_utc_ms = l, cur_next_occurrence_utc_ms = Some n,
     cur_structural_revision = 7, cur_needs_rebaseline = False\<rparr>"

lemma tick_cursor_fields [simp]:
  "cur_next_occurrence_utc_ms (tick_cursor l n) = Some n" "\<not> cur_needs_rebaseline (tick_cursor l n)"
  "cur_structural_revision (tick_cursor l n) = 7"
  "(tick_cursor l n)\<lparr>cur_last_delivered_utc_ms := k, cur_next_occurrence_utc_ms := Some m\<rparr>
     = tick_cursor k m"
  by (simp_all add: tick_cursor_def)

text \<open>The runtime behind a schedule operation: the accepted time, the wall clock and the cursor.\<close>

definition ticking :: "monotonic_ms \<Rightarrow> int \<Rightarrow> schedule_cursor \<Rightarrow> runtime" where
  "ticking now utc c = scheduled_runtime
     \<lparr>rt_last_accepted_at := Some now, rt_schedule_structural_revision := Some 7,
      rt_last_schedule_wall_clock_utc_ms := Some utc, rt_schedule_cursors := [(tick_key, c)]\<rparr>"

definition tick_trigger :: "int \<Rightarrow> int \<Rightarrow> u64 \<Rightarrow> schedule_trigger" where
  "tick_trigger occ utc k =
     \<lparr>st_block_id = BlockId ''a'', st_name = ScheduleName ''tick'', st_kind = KindInterval,
      st_scheduled_for_utc_ms = occ, st_detected_at_utc_ms = utc, st_coalesced_count = k,
      st_structural_revision = 7\<rparr>"

lemma scheduled_runtime_fields:
  "rt_blocks scheduled_runtime = [fresh_block sample_limits scheduled_block]"
  "rt_last_accepted_at scheduled_runtime = None" "rt_site scheduled_runtime = default_site"
  by (simp_all add: scheduled_runtime_def fresh_runtime_def scheduled_config_def)

lemma fresh_scheduled_block:
  "lb_enabled (fresh_block sample_limits scheduled_block)"
  "lb_config (fresh_block sample_limits scheduled_block) = scheduled_block"
  "lb_id (fresh_block sample_limits scheduled_block) = BlockId ''a''"
  by (simp_all add: fresh_block_def)

lemma tick_schedules:
  "schedules_of [fresh_block sample_limits scheduled_block] = [(BlockId ''a'', tick)]"
  "polled_schedules scheduled_runtime = [(BlockId ''a'', tick)]"
  by (simp_all add: schedules_of_def block_schedules_def polled_schedules_def
      scheduled_runtime_fields fresh_scheduled_block)

lemma ticking_fields [simp]:
  "rt_blocks (ticking now utc c) = rt_blocks scheduled_runtime"
  "rt_site (ticking now utc c) = default_site" "structural_revision (ticking now utc c) = 7"
  "rt_last_accepted_at (ticking now utc c) = Some now"
  "rt_last_schedule_wall_clock_utc_ms (ticking now utc c) = Some utc"
  "rt_schedule_cursors (ticking now utc c) = [(tick_key, c)]"
  "polled_schedules (ticking now utc c) = [(BlockId ''a'', tick)]"
  using tick_schedules(2)
  by (simp_all add: ticking_def structural_revision_def scheduled_runtime_fields polled_schedules_def)

lemma tick_next:
  "next_occurrence_after ts (RuleInterval 60 0) site 0 = Some 60000"
  "next_occurrence_after ts (RuleInterval 60 0) site 60000 = Some 120000"
  "next_occurrence_after ts (RuleInterval 60 0) site 120000 = Some 180000"
  "next_occurrence_after ts (RuleInterval 60 0) site 150000 = Some 180000"
  "next_occurrence_after ts (RuleInterval 60 0) site 180000 = Some 240000"
  by (simp_all add: interval_next_def Let_def saturate_i64_def i64_bounds)

lemma tick_coalesce:
  "coalesce ts (RuleInterval 60 0) site 150000 60000 1 = Some (120000, 2)"
  "coalesce ts (RuleInterval 60 0) site 180000 180000 1 = Some (180000, 1)"
  by (simp_all add: coalesce.simps [of ts "RuleInterval 60 0" site 150000 60000]
      coalesce.simps [of ts "RuleInterval 60 0" site 150000 120000]
      coalesce.simps [of ts "RuleInterval 60 0" site 180000 180000] tick_next del: next_occurrence_after.simps)

lemma scheduled_initialise:
  "initialise_schedules ts \<lparr>cs_monotonic_ms = 0, cs_utc_unix_ms = Some 0\<rparr> 7 scheduled_runtime
    = (Inr (), ticking 0 0 (tick_cursor None 60000))"
  by (simp add: initialise_schedules_def ensure_schedule_time_def tick_schedules ticking_def
      initial_cursor_def fresh_cursor_def tick_cursor_def scheduled_runtime_fields tick_next
      del: next_occurrence_after.simps)

lemma accepted_polled:
  "polled_schedules (accepted now rt) = polled_schedules rt"
  "structural_revision (accepted now rt) = structural_revision rt"
  "rt_schedule_cursors (accepted now rt) = rt_schedule_cursors rt"
  "rt_last_schedule_wall_clock_utc_ms (accepted now rt) = rt_last_schedule_wall_clock_utc_ms rt"
  "rt_site (accepted now rt) = rt_site rt"
  by (simp_all add: polled_schedules_def structural_revision_def accepted_def)

lemma scheduled_poll:
  "poll_schedules ts \<lparr>cs_monotonic_ms = 1, cs_utc_unix_ms = Some 150000\<rparr>
      (ticking 0 0 (tick_cursor None 60000))
    = Some (Inr [tick_trigger 120000 150000 1], ticking 1 150000 (tick_cursor (Some 120000) 180000))"
  "poll_schedules ts \<lparr>cs_monotonic_ms = 2, cs_utc_unix_ms = Some 180000\<rparr>
      (ticking 1 150000 (tick_cursor (Some 120000) 180000))
    = Some (Inr [tick_trigger 180000 180000 0], ticking 2 180000 (tick_cursor (Some 180000) 240000))"
  by (simp_all add: poll_schedules_def ensure_schedule_time_def poll_step_def cursor_entry_def
      btm_get_def tick_coalesce tick_next delivered_trigger_def tick_trigger_def Let_def
      accepted_polled del: next_occurrence_after.simps)
    (simp_all add: accepted_def ticking_def)

end
