(* ===== verification/Schedule_Correctness.thy ===== *)
theory Schedule_Correctness
  imports Schedule_Polls Runtime_Correctness Schedule_Example
begin

text \<open>
  Schedules over the life of a runtime: below the horizon polls return, and deliver of each
  schedule at most its latest due occurrence and that only once; at the last instant of the 64-bit range
  they do not return.
\<close>

subsection \<open>Live operations and the cursors\<close>

lemma observe_at_cursors:
  "observe_at env k name v now rt = (r, rt') \<Longrightarrow> rt_schedule_cursors rt' = rt_schedule_cursors rt"
  by (auto simp: observe_at_def split: prod.splits sum.splits)

lemma admit_at_cursors:
  "admit_at k now rt = (r, rt') \<Longrightarrow> rt_schedule_cursors rt' = rt_schedule_cursors rt"
  by (auto simp: admit_at_def split: prod.splits)

lemma finish_execution_cursors:
  "finish_execution k ex causal rt = (bx, rt') \<Longrightarrow> rt_schedule_cursors rt' = rt_schedule_cursors rt"
  by (auto simp: finish_execution_def assign_execution_id_def Let_def)

lemma set_signal_cursors:
  "set_signal k v now producing rt = (changed, rt') \<Longrightarrow>
   rt_schedule_cursors rt' = rt_schedule_cursors rt"
  by (auto simp: set_signal_def Let_def)

lemmas keep_cursors = observe_at_cursors admit_at_cursors finish_execution_cursors set_signal_cursors

abbreviation cascade_cursors :: "cascade \<Rightarrow> cursor_map" where
  "cascade_cursors c \<equiv> rt_schedule_cursors (cas_runtime c)"

lemma for_each_cursors:
  assumes "\<And>x d r d'. x \<in> set xs \<Longrightarrow> f x d = (r, d') \<Longrightarrow> cascade_cursors d' = cascade_cursors d"
    and "for_each f xs c = (r, c')"
  shows "cascade_cursors c' = cascade_cursors c"
  using for_each_invariant [of "\<lambda>d. cascade_cursors d = cascade_cursors c" c xs f] assms
  by (metis prod.collapse snd_conv)

lemma refresh_consumer_cursors:
  "refresh_consumer pg v consumer c = (r, c') \<Longrightarrow> cascade_cursors c' = cascade_cursors c"
  by (auto simp: refresh_consumer_def on_runtime_def dest: keep_cursors split: option.splits prod.splits)

lemma trigger_consumer_cursors:
  assumes "\<And>n d r d'. recurse n d = (r, d') \<Longrightarrow> cascade_cursors d' = cascade_cursors d"
    and "trigger_consumer recurse pg v producing consumer c = (r, c')"
  shows "cascade_cursors c' = cascade_cursors c"
  using assms(2)
  by (auto simp: trigger_consumer_def Let_def on_runtime_def
      dest!: keep_cursors assms(1) split: option.splits prod.splits sum.splits if_splits bool.splits)

lemma publish_output_cursors:
  assumes "\<And>n d r d'. recurse n d = (r, d') \<Longrightarrow> cascade_cursors d' = cascade_cursors d"
    and "publish_output recurse pg n x producing output c = (r, c')"
  shows "cascade_cursors c' = cascade_cursors c"
  using assms(2) for_each_cursors [OF trigger_consumer_cursors [OF assms(1)]]
    for_each_cursors [OF refresh_consumer_cursors]
  by (fastforce simp: publish_output_def Let_def dest: set_signal_cursors
      split: option.splits prod.splits if_splits)

lemma propagate_cursors:
  "propagate_from_execution fuel pg n c = (r, c') \<Longrightarrow> cascade_cursors c' = cascade_cursors c"
proof (induction fuel arbitrary: n c r c')
  case (Suc fuel)
  from Suc.prems for_each_cursors [OF publish_output_cursors [OF Suc.IH]] show ?case
    by (auto simp: Let_def split: sum.splits)
qed simp

lemma finish_cascade_cursors:
  assumes "finish_cascade pg rt bx rt1 = (r, rt')"
    and "rt_schedule_cursors rt1 = rt_schedule_cursors rt"
  shows "rt_schedule_cursors rt' = rt_schedule_cursors rt"
  using assms propagate_cursors
  by (fastforce simp: finish_cascade_def split: prod.splits sum.splits if_splits)

lemma process_input_at_cursors:
  "process_input_at env x name v now site utc probe rt = (r, rt') \<Longrightarrow>
   rt_schedule_cursors rt' = rt_schedule_cursors rt"
  by (auto simp: process_input_at_def dest!: keep_cursors
      split: option.splits prod.splits sum.splits if_splits bool.splits)

lemma process_next_due_timer_at_cursors:
  "process_next_due_timer_at env now site utc probe rt = (r, rt') \<Longrightarrow>
   rt_schedule_cursors rt' = rt_schedule_cursors rt"
  by (auto simp: process_next_due_timer_at_def dest!: keep_cursors
      split: option.splits prod.splits sum.splits if_splits bool.splits)

lemma process_schedule_sampled_cursors:
  "process_schedule_sampled env t sample probe rt = (r, rt') \<Longrightarrow>
   rt_schedule_cursors rt' = rt_schedule_cursors rt"
  by (auto simp: process_schedule_sampled_def Let_def dest!: keep_cursors
      split: option.splits prod.splits sum.splits if_splits bool.splits)

lemma process_input_update_single_cursors:
  "process_input_update_single env x name update sample probe rt = (r, rt') \<Longrightarrow>
   rt_schedule_cursors rt' = rt_schedule_cursors rt"
  by (auto simp: process_input_update_single_def admit_update_def Let_def dest!: keep_cursors
      split: option.splits prod.splits sum.splits if_splits bool.splits input_update.splits)

lemmas single_cursors = process_input_at_cursors process_next_due_timer_at_cursors
  process_schedule_sampled_cursors process_input_update_single_cursors

lemma handle_event_cursors:
  assumes "handle_event env ev rt = (r, rt')"
  shows "rt_schedule_cursors rt' = rt_schedule_cursors rt"
  using assms
  by (cases ev)
    (auto simp: process_input_cascade_def process_input_cascade_sampled_def
      process_next_due_timer_cascade_def process_next_due_timer_cascade_sampled_def
      process_schedule_cascade_def process_schedule_cascade_sampled_def
      process_input_update_def process_input_update_sampled_def
      process_input_def process_input_sampled_def process_next_due_timer_def
      process_next_due_timer_sampled_def process_schedule_def
      dest!: single_cursors dest: finish_cascade_cursors split: prod.splits sum.splits option.splits)

text \<open>Every live operation keeps the cursors, but activation, which may invalidate those of a block.\<close>

lemma activate_block_cursors:
  assumes "activate_block step (results, rt) = (results', rt')"
  shows "rt_schedule_cursors rt' = rt_schedule_cursors rt
    \<or> (\<exists>x. rt_schedule_cursors rt' = invalidate_cursors x (rt_schedule_cursors rt))"
  using assms by (auto simp: activate_block_def Let_def split: prod.splits) blast

text \<open>A delivery is never forgotten: the last delivered occurrence of a schedule only grows.\<close>

definition deliveries_kept :: "cursor_map \<Rightarrow> cursor_map \<Rightarrow> bool" where
  "deliveries_kept m m' \<longleftrightarrow>
     (\<forall>key l. last_delivered m key = Some l \<longrightarrow> (\<exists>l'. last_delivered m' key = Some l' \<and> l \<le> l'))"

lemma deliveries_kept_refl [simp]: "deliveries_kept m m"
  by (simp add: deliveries_kept_def)

lemma deliveries_kept_trans: "deliveries_kept m m' \<Longrightarrow> deliveries_kept m' m'' \<Longrightarrow> deliveries_kept m m''"
  unfolding deliveries_kept_def by (meson order_trans)

lemma deliveries_kept_same:
  "(\<And>key. last_delivered m' key = last_delivered m key) \<Longrightarrow> deliveries_kept m m'"
  by (simp add: deliveries_kept_def)

lemma last_delivered_invalidate [simp]:
  "last_delivered (invalidate_cursors x m) key = last_delivered m key"
  by (simp add: last_delivered_def invalidate_cursors_def btm_get_map_values split: option.splits)

definition cursors_advance :: "runtime \<Rightarrow> runtime \<Rightarrow> bool" where
  "cursors_advance rt rt' \<longleftrightarrow>
     cursors_ok (rt_schedule_cursors rt')
     \<and> deliveries_kept (rt_schedule_cursors rt) (rt_schedule_cursors rt')"

lemma cursors_advance_same:
  "cursors_ok (rt_schedule_cursors rt) \<Longrightarrow> rt_schedule_cursors rt' = rt_schedule_cursors rt \<Longrightarrow>
   cursors_advance rt rt'"
  by (simp add: cursors_advance_def)

lemma activate_blocks_cursors:
  assumes "cursors_ok (rt_schedule_cursors rt)"
    and "foldl (\<lambda>state step. activate_block step state) (results, rt) steps = (results', rt')"
  shows "cursors_advance rt rt'"
  using assms
proof (induction steps arbitrary: results rt)
  case (Cons step steps)
  obtain results1 rt1 where first: "activate_block step (results, rt) = (results1, rt1)" by fastforce
  with Cons.prems have rest: "foldl (\<lambda>state step. activate_block step state) (results1, rt1) steps
      = (results', rt')" by simp
  have "cursors_advance rt rt1"
    using activate_block_cursors [OF first] invalidate_cursors_ok [OF Cons.prems(1)] Cons.prems(1)
    by (auto simp: cursors_advance_def intro: deliveries_kept_same)
  with Cons.IH [OF _ rest] show ?case by (auto simp: cursors_advance_def intro: deliveries_kept_trans)
qed (simp add: cursors_advance_def)

lemma live_step_cursors:
  assumes "cursors_ok (rt_schedule_cursors rt)" and "live_step rt rt'"
  shows "cursors_advance rt rt'"
  using assms(2)
proof cases
  case event
  then show ?thesis using handle_event_cursors cursors_advance_same [OF assms(1)] by blast
next
  case observe
  then show ?thesis
    by (intro cursors_advance_same [OF assms(1)])
      (auto simp: observe_input_def dest: observe_at_cursors split: sum.splits prod.splits)
next
  case input_now
  then show ?thesis unfolding process_input_def
    by (intro cursors_advance_same [OF assms(1)] process_input_at_cursors)
next
  case input_sampled
  then show ?thesis unfolding process_input_sampled_def
    by (intro cursors_advance_same [OF assms(1)] process_input_at_cursors)
next
  case timer_now
  then show ?thesis unfolding process_next_due_timer_def
    by (intro cursors_advance_same [OF assms(1)] process_next_due_timer_at_cursors)
next
  case timer_sampled
  then show ?thesis unfolding process_next_due_timer_sampled_def
    by (intro cursors_advance_same [OF assms(1)] process_next_due_timer_at_cursors)
next
  case schedule_now
  then show ?thesis unfolding process_schedule_def
    by (intro cursors_advance_same [OF assms(1)] process_schedule_sampled_cursors)
next
  case schedule_sampled
  then show ?thesis by (intro cursors_advance_same [OF assms(1)] process_schedule_sampled_cursors)
next
  case resume
  then show ?thesis
    by (intro cursors_advance_same [OF assms(1)]) (auto simp: resume_block_def split: sum.splits)
next
  case (activate env updates a)
  then show ?thesis
    using activate_blocks_cursors [OF assms(1)] cursors_advance_same [OF assms(1)]
    by (auto simp: activate_def split: sum.splits prod.splits)
qed

subsection \<open>Histories\<close>

text \<open>
  The wall clock stays below the end of the 64-bit range by the longest interval that a rule can
  have, some 292 million years from now.
\<close>

definition sample_ok :: "clock_sample \<Rightarrow> bool" where
  "sample_ok sample \<longleftrightarrow> (\<forall>utc. cs_utc_unix_ms sample = Some utc \<longrightarrow> clock_ok utc)"

text \<open>The steps that keep what was delivered, and the runtimes that they and initialisation reach.\<close>

inductive schedule_step :: "runtime \<Rightarrow> runtime \<Rightarrow> bool" where
  schedule_live: "live_step rt rt' \<Longrightarrow> schedule_step rt rt'"
| schedule_rebaseline: "rebaseline_block_schedules ts x sample rt = (i, rt') \<Longrightarrow> sample_ok sample \<Longrightarrow>
    schedule_step rt rt'"
| schedule_poll: "poll_schedules ts sample rt = Some (p, rt') \<Longrightarrow> sample_ok sample \<Longrightarrow>
    schedule_step rt rt'"

inductive clocked_reachable :: "runtime_config \<Rightarrow> runtime_limits \<Rightarrow> runtime \<Rightarrow> bool"
  for config limits where
  clocked_start: "runtime_try_new_with_limits env config limits = Inr rt \<Longrightarrow>
    clocked_reachable config limits rt"
| clocked_initialise: "clocked_reachable config limits rt \<Longrightarrow>
    initialise_schedules ts sample revision rt = (i, rt') \<Longrightarrow> sample_ok sample \<Longrightarrow>
    clocked_reachable config limits rt'"
| clocked_step: "clocked_reachable config limits rt \<Longrightarrow> schedule_step rt rt' \<Longrightarrow>
    clocked_reachable config limits rt'"

lemma schedule_step_runtime: "schedule_step rt rt' \<Longrightarrow> runtime_step rt rt'"
  by (auto elim!: schedule_step.cases intro: runtime_step.intros)

lemma clocked_runtime_reachable:
  "clocked_reachable config limits rt \<Longrightarrow> runtime_reachable config limits rt"
  by (induction rule: clocked_reachable.induct)
    (auto intro: runtime_reachable.intros runtime_step.intros schedule_step_runtime)

text \<open>No two polled schedules share a key.\<close>

lemma distinct_schedule_keys:
  assumes "distinct (map lb_id bs)" and "\<forall>b \<in> set bs. distinct (map sch_name (bc_schedules (lb_config b)))"
  shows "distinct (map key_of (schedules_of bs))"
proof -
  have "map key_of (schedules_of bs)
      = concat (map (\<lambda>b. map (Pair (lb_id b)) (map sch_name (bc_schedules (lb_config b)))) bs)"
    by (simp add: schedules_of_def block_schedules_def map_concat comp_def)
  moreover have "distinct (concat (map (\<lambda>b. map (Pair (lb_id b)) (map sch_name (bc_schedules (lb_config b)))) bs))"
    using assms
  proof (induction bs)
    case (Cons b bs)
    then show ?case by (auto simp: distinct_map intro!: inj_onI dest: inj_onD)
  qed simp
  ultimately show ?thesis by simp
qed

lemma polled_schedules_distinct:
  assumes "runtime_reachable config limits rt"
  shows "distinct (map key_of (polled_schedules rt))"
proof -
  obtain features where wf: "runtime_config_wf features config limits"
    using runtime_reachableD(2) [OF assms] by blast
  have real: "realises config limits rt"
    using runtime_reachableD(3) [OF assms] runtime_invD(1) unfolding runtime_ok_def by blast
  have ids: "distinct (map lb_id (rt_blocks rt))"
    using realises_ids [OF real] wf by (simp add: runtime_config_wf_def)
  have names: "distinct (map sch_name (bc_schedules (lb_config b)))" if b: "b \<in> set (rt_blocks rt)" for b
  proof -
    obtain k where k: "k < length (rt_blocks rt)" "b = rt_blocks rt ! k"
      using b by (metis in_set_conv_nth)
    have "rc_blocks config ! k \<in> set (rc_blocks config)" using realises_block(1) [OF real k(1)] by simp
    with wf have "block_config_wf features (rc_blocks config ! k) limits" by (simp add: runtime_config_wf_def)
    then show ?thesis using realises_block(5) [OF real k(1)] k(2) by (simp add: block_config_wf_def)
  qed
  have "distinct (map key_of (schedules_of (filter lb_enabled (rt_blocks rt))))"
    using distinct_schedule_keys [of "filter lb_enabled (rt_blocks rt)"] ids names
    by (simp add: distinct_map_filter)
  then show ?thesis unfolding polled_schedules_def by (rule distinct_map_filter)
qed

subsection \<open>Polls\<close>

text \<open>The cursors that a poll starts from: recomputed when the wall clock went back or is new.\<close>

definition poll_base :: "time_services \<Rightarrow> int \<Rightarrow> runtime \<Rightarrow> cursor_map" where
  "poll_base ts utc rt =
     (if \<exists>previous. rt_last_schedule_wall_clock_utc_ms rt = Some previous \<and> previous \<le> utc
      then rt_schedule_cursors rt
      else rt_schedule_cursors (recompute_schedule_cursors ts utc rt))"

lemma poll_base_ok:
  assumes "cursors_ok (rt_schedule_cursors rt)" and "clock_ok utc"
  shows "cursors_ok (poll_base ts utc rt)"
    and "last_delivered (poll_base ts utc rt) key = last_delivered (rt_schedule_cursors rt) key"
  using assms recompute_steps_ok [OF assms]
  by (cases key; simp add: poll_base_def recompute_schedule_cursors_def)+

definition poll_triggers ::
  "int \<Rightarrow> (block_id \<times> block_schedule) list \<Rightarrow> poll_outcome list \<Rightarrow> schedule_trigger list" where
  "poll_triggers utc bss outcomes =
     sort_key trigger_order (concat (map2 (outcome_triggers utc) bss outcomes))"

lemma poll_schedules_spec:
  assumes "cursors_ok (rt_schedule_cursors rt)" and "clock_ok utc"
    and "distinct (map key_of (polled_schedules rt))"
    and "ensure_schedule_time rt now = Inr ()"
  shows "\<exists>cursors outcomes. poll_schedules ts \<lparr>cs_monotonic_ms = now, cs_utc_unix_ms = Some utc\<rparr> rt
      = Some (Inr (poll_triggers utc (polled_schedules rt) outcomes),
          rt\<lparr>rt_last_accepted_at := Some now, rt_schedule_cursors := cursors,
             rt_last_schedule_wall_clock_utc_ms := Some utc\<rparr>)
    \<and> list_all2 (\<lambda>bs outcome.
          polled ts (rt_site rt) (structural_revision rt) utc bs (poll_base ts utc rt) outcome
          \<and> btm_get cursors (key_of bs) = Some (outcome_cursor outcome)) (polled_schedules rt) outcomes
    \<and> (\<forall>key. key \<notin> key_of ` set (polled_schedules rt) \<longrightarrow>
          btm_get cursors key = btm_get (poll_base ts utc rt) key)
    \<and> cursors_ok cursors"
proof -
  obtain cursors outcomes where loop: "poll_loop ts (rt_site rt) (structural_revision rt) utc
        (polled_schedules rt) (poll_base ts utc rt, [])
      = Some (cursors, concat (map2 (outcome_triggers utc) (polled_schedules rt) outcomes))"
    and rest: "list_all2 (\<lambda>bs outcome.
          polled ts (rt_site rt) (structural_revision rt) utc bs (poll_base ts utc rt) outcome
          \<and> btm_get cursors (key_of bs) = Some (outcome_cursor outcome)) (polled_schedules rt) outcomes"
      "\<forall>key. key \<notin> key_of ` set (polled_schedules rt) \<longrightarrow>
          btm_get cursors key = btm_get (poll_base ts utc rt) key"
      "cursors_ok cursors"
    using poll_loop_spec [OF poll_base_ok(1) [OF assms(1,2)] assms(2,3), where triggers = "[]",
        unfolded append_Nil] by blast
  have same: "polled_schedules (accepted now rt) = polled_schedules rt"
    "polled_schedules (recompute_schedule_cursors ts utc (accepted now rt)) = polled_schedules rt"
    "structural_revision (accepted now rt) = structural_revision rt"
    "structural_revision (recompute_schedule_cursors ts utc (accepted now rt)) = structural_revision rt"
    by (simp_all add: polled_schedules_def structural_revision_def accepted_def recompute_schedule_cursors_def)
  let ?rt = "if \<exists>previous. rt_last_schedule_wall_clock_utc_ms rt = Some previous \<and> previous \<le> utc
    then accepted now rt else recompute_schedule_cursors ts utc (accepted now rt)"
  have "rt_schedule_cursors ?rt = poll_base ts utc rt"
    unfolding poll_base_def recompute_schedule_cursors_def
    by (simp add: accepted_def structural_revision_def) blast
  moreover have "rt_site ?rt = rt_site rt" by (simp add: recompute_schedule_cursors_def accepted_def)
  moreover have "structural_revision ?rt = structural_revision rt" using same(3,4) by (simp only: if_cancel split: if_split) simp
  moreover have "polled_schedules ?rt = polled_schedules rt" using same(1,2) by (simp only: if_cancel split: if_split) simp
  ultimately have started: "rt_schedule_cursors ?rt = poll_base ts utc rt" "rt_site ?rt = rt_site rt"
    "structural_revision ?rt = structural_revision rt" "polled_schedules ?rt = polled_schedules rt"
    by blast+
  have "(case rt_last_schedule_wall_clock_utc_ms (accepted now rt) of
        None \<Rightarrow> recompute_schedule_cursors ts utc (accepted now rt)
      | Some previous \<Rightarrow> if utc < previous then recompute_schedule_cursors ts utc (accepted now rt)
          else accepted now rt) = ?rt"
    by (auto simp: accepted_def split: option.splits)
  then have "poll_schedules ts \<lparr>cs_monotonic_ms = now, cs_utc_unix_ms = Some utc\<rparr> rt
      = Some (Inr (poll_triggers utc (polled_schedules rt) outcomes),
          ?rt\<lparr>rt_schedule_cursors := cursors, rt_last_schedule_wall_clock_utc_ms := Some utc\<rparr>)"
    using assms(4) loop started by (simp add: poll_schedules_def Let_def poll_triggers_def)
  moreover have "?rt\<lparr>rt_schedule_cursors := cursors, rt_last_schedule_wall_clock_utc_ms := Some utc\<rparr>
      = rt\<lparr>rt_last_accepted_at := Some now, rt_schedule_cursors := cursors,
           rt_last_schedule_wall_clock_utc_ms := Some utc\<rparr>"
    by (simp add: accepted_def recompute_schedule_cursors_def)
  ultimately show ?thesis using rest by (intro exI [of _ cursors] exI [of _ outcomes]) simp
qed

lemma polled_idle_or_delivered [consumes 3, case_names idle delivered]:
  assumes "cursors_ok m" and "clock_ok utc" and "polled ts site revision utc bs m outcome"
  obtains (idle) c where "outcome = Idle c"
      "cur_last_delivered_utc_ms c = last_delivered m (key_of bs)"
  | (delivered) occ k c where "outcome = Delivered occ k c"
      "cur_last_delivered_utc_ms c = Some occ" "occ \<le> utc"
      "\<forall>l. last_delivered m (key_of bs) = Some l \<longrightarrow> l < occ"
      "\<forall>n. next_occurrence_after ts (sch_rule (snd bs)) site occ = Some n \<longrightarrow> utc < n"
proof -
  let ?e = "cursor_entry m (key_of bs) revision"
  let ?c = "up_to_date ts site utc (sch_rule (snd bs)) ?e"
  have entry: "cursor_ok ?e" using cursors_ok_entry [OF assms(1)] .
  have c: "cursor_ok ?c" "cur_last_delivered_utc_ms ?c = last_delivered m (key_of bs)"
    using rebaselined_ok(1,3) [OF entry assms(2)] entry last_delivered_entry
    by (simp_all add: up_to_date_def)
  show ?thesis
  proof (cases outcome)
    case (Idle c')
    with assms(3) c(2) show ?thesis by (intro idle [of c']) (simp_all add: polled_def Let_def)
  next
    case (Delivered occ k c')
    obtain due where due: "cur_next_occurrence_utc_ms ?c = Some due" "due \<le> occ"
      using assms(3) Delivered by (auto simp: polled_def Let_def)
    have "\<forall>l. last_delivered m (key_of bs) = Some l \<longrightarrow> l < occ"
      using c due by (fastforce simp: cursor_ok_def)
    with assms(3) Delivered show ?thesis
      by (intro delivered [of occ k c']) (simp_all add: polled_def Let_def)
  qed
qed

lemma rebaseline_steps_kept:
  "last_delivered (foldl (rebaseline_step ts site revision utc) m bss) key = last_delivered m key"
proof (induction bss arbitrary: m)
  case (Cons bs bss)
  have "last_delivered (rebaseline_step ts site revision utc m bs) key = last_delivered m key"
    by (auto simp: rebaseline_step_def Let_def last_delivered_def btm_get_insert cursor_entry_def
        fresh_cursor_def rebaselined_def split: option.splits)
  with Cons.IH show ?case by simp
qed simp

lemma poll_advances:
  assumes "runtime_reachable config limits rt" and "cursors_ok (rt_schedule_cursors rt)"
    and "poll_schedules ts sample rt = Some (p, rt')" and "sample_ok sample"
  shows "cursors_advance rt rt'"
proof (cases "ensure_schedule_time rt (cs_monotonic_ms sample)")
  case (Inl e)
  with assms(2,3) show ?thesis by (auto simp: poll_schedules_def intro: cursors_advance_same)
next
  case now: (Inr u)
  show ?thesis
  proof (cases "cs_utc_unix_ms sample")
    case None
    have "last_delivered (btm_map_values (\<lambda>_ c. c\<lparr>cur_next_occurrence_utc_ms := None,
        cur_needs_rebaseline := True\<rparr>) (rt_schedule_cursors rt)) key
      = last_delivered (rt_schedule_cursors rt) key" for key
      by (simp add: last_delivered_def btm_get_map_values split: option.splits)
    with None now assms(3) paused_cursors_ok [OF assms(2)] show ?thesis
      by (auto simp: poll_schedules_def cursors_advance_def intro!: deliveries_kept_same)
  next
    case (Some utc)
    then have sample: "sample = \<lparr>cs_monotonic_ms = cs_monotonic_ms sample, cs_utc_unix_ms = Some utc\<rparr>"
      and clock: "clock_ok utc" using assms(4) by (simp_all add: sample_ok_def)
    obtain cursors outcomes where poll: "poll_schedules ts sample rt
        = Some (Inr (poll_triggers utc (polled_schedules rt) outcomes),
          rt\<lparr>rt_last_accepted_at := Some (cs_monotonic_ms sample), rt_schedule_cursors := cursors,
             rt_last_schedule_wall_clock_utc_ms := Some utc\<rparr>)"
      and each: "list_all2 (\<lambda>bs outcome.
          polled ts (rt_site rt) (structural_revision rt) utc bs (poll_base ts utc rt) outcome
          \<and> btm_get cursors (key_of bs) = Some (outcome_cursor outcome)) (polled_schedules rt) outcomes"
      and rest: "\<forall>key. key \<notin> key_of ` set (polled_schedules rt) \<longrightarrow>
          btm_get cursors key = btm_get (poll_base ts utc rt) key"
      and ok: "cursors_ok cursors"
      using poll_schedules_spec [OF assms(2) clock polled_schedules_distinct [OF assms(1)], of
          "cs_monotonic_ms sample" ts] now sample by auto
    note base = poll_base_ok [OF assms(2) clock]
    have "\<exists>l'. last_delivered cursors key = Some l' \<and> l \<le> l'"
      if l: "last_delivered (rt_schedule_cursors rt) key = Some l" for key l
    proof (cases "key \<in> key_of ` set (polled_schedules rt)")
      case False
      with rest have "btm_get cursors key = btm_get (poll_base ts utc rt) key" by blast
      then have "last_delivered cursors key = last_delivered (poll_base ts utc rt) key"
        by (simp only: last_delivered_def)
      with l base(2) show ?thesis by simp
    next
      case True
      then obtain bs where bs: "bs \<in> set (polled_schedules rt)" "key = key_of bs" by (elim imageE)
      obtain k where k: "k < length (polled_schedules rt)" "polled_schedules rt ! k = bs"
        using bs(1) unfolding in_set_conv_nth by (elim exE conjE)
      let ?o = "outcomes ! k"
      have o: "polled ts (rt_site rt) (structural_revision rt) utc (polled_schedules rt ! k)
          (poll_base ts utc rt) ?o"
        "btm_get cursors key = Some (outcome_cursor ?o)"
        using list_all2_nthD [OF each k(1)] k(2) bs(2) by blast+
      have new: "last_delivered cursors key = cur_last_delivered_utc_ms (outcome_cursor ?o)"
        using o(2) by (simp only: last_delivered_def option.case)
      have old: "last_delivered (poll_base ts utc rt) (key_of (polled_schedules rt ! k)) = Some l"
        using l base(2) k(2) bs(2) by simp
      show ?thesis
        using base(1) clock o(1)
      proof (cases rule: polled_idle_or_delivered)
        case (idle c)
        with new old show ?thesis by simp
      next
        case (delivered occ n c)
        with new old show ?thesis by (simp add: less_imp_le)
      qed
    qed
    then have "deliveries_kept (rt_schedule_cursors rt) cursors" by (simp only: deliveries_kept_def) blast
    with ok poll assms(3) show ?thesis by (auto simp: cursors_advance_def)
  qed
qed

lemma clocked_schedules:
  assumes "runtime_config_wf features config limits" and "runtime_reachable config limits rt"
    and "cursors_ok (rt_schedule_cursors rt)" and "schedule_step rt rt'"
  shows "cursors_advance rt rt'"
  using assms(4)
proof cases
  case schedule_live
  then show ?thesis by (rule live_step_cursors [OF assms(3)])
next
  case (schedule_rebaseline ts x sample i)
  have sample: "\<forall>now. cs_utc_unix_ms sample = Some now \<longrightarrow> clock_ok now"
    using schedule_rebaseline(2) by (simp add: sample_ok_def)
  show ?thesis
    using schedule_rebaseline(1) assms(3) rebaseline_steps_ok [OF assms(3) sample] rebaseline_steps_kept
    by (auto simp: rebaseline_block_schedules_def cursors_advance_def Let_def
        intro!: deliveries_kept_same split: sum.splits option.splits if_splits)
next
  case (schedule_poll ts sample p)
  then show ?thesis by (rule poll_advances [OF assms(2,3)])
qed

lemma clocked_reachable_cursors:
  assumes "clocked_reachable config limits rt"
  shows "cursors_ok (rt_schedule_cursors rt)"
  using assms
proof induction
  case (clocked_start env rt)
  then have "runtime_config_validate_with_limits env config limits = Inr ()"
    by (auto simp: runtime_try_new_with_limits_def result_simps)
  from runtime_try_new_eq [OF this] clocked_start show ?case by (auto simp: fresh_runtime_def)
next
  case (clocked_initialise rt ts sample revision i rt')
  have "cursors_ok (foldl (\<lambda>cursors (x, s). btm_insert (x, sch_name s)
      (initial_cursor ts (rt_site rt) revision (cs_utc_unix_ms sample) s) cursors) [] bss)" for bss
    using initial_steps_ok [of "[]" "cs_utc_unix_ms sample"] clocked_initialise.hyps(3)
    by (simp add: sample_ok_def)
  with clocked_initialise.hyps(2) clocked_initialise.IH show ?case
    by (auto simp: initialise_schedules_def split: sum.splits)
next
  case (clocked_step rt rt')
  have live: "runtime_reachable config limits rt" using clocked_runtime_reachable [OF clocked_step.hyps(1)] .
  obtain features where "runtime_config_wf features config limits"
    using runtime_reachableD(2) [OF live] by blast
  from clocked_schedules [OF this live clocked_step.IH clocked_step.hyps(2)] show ?case
    by (simp add: cursors_advance_def)
qed

text \<open>
  C12. Polls of the schedules return, as long as the wall clocks that the runtime is given, for this poll
  and for what went before, stay below the horizon at the end of the 64-bit range.  The loop that walks
  over the missed occurrences of a schedule has no bound of its own; it ends because below the horizon
  a validated rule never yields an occurrence at or before the instant it is asked about.
\<close>

theorem polls_return:
  assumes "clocked_reachable config limits rt" and "sample_ok sample"
  shows "\<exists>r rt'. poll_schedules ts sample rt = Some (r, rt')"
proof (cases "ensure_schedule_time rt (cs_monotonic_ms sample)")
  case (Inl e)
  then show ?thesis by (simp add: poll_schedules_def)
next
  case now: (Inr u)
  show ?thesis
  proof (cases "cs_utc_unix_ms sample")
    case None
    with now show ?thesis by (simp add: poll_schedules_def)
  next
    case (Some utc)
    then have "sample = \<lparr>cs_monotonic_ms = cs_monotonic_ms sample, cs_utc_unix_ms = Some utc\<rparr>"
      "clock_ok utc" using assms(2) by (simp_all add: sample_ok_def)
    with poll_schedules_spec [OF clocked_reachable_cursors [OF assms(1)] _
        polled_schedules_distinct [OF clocked_runtime_reachable [OF assms(1)]],
        of utc "cs_monotonic_ms sample" ts] now show ?thesis by auto
  qed
qed

text \<open>The outcome of a poll behind every trigger it returns.\<close>

lemma poll_trigger_outcome:
  assumes "t \<in> set (poll_triggers utc bss outcomes)" and "length outcomes = length bss"
  obtains k occ n c where "k < length bss" "outcomes ! k = Delivered occ n c"
    "t = delivered_trigger (fst (bss ! k)) (snd (bss ! k)) occ utc (of_nat (Suc n)) c"
proof -
  from assms(1) obtain ts where ts: "ts \<in> set (map2 (outcome_triggers utc) bss outcomes)" "t \<in> set ts"
    by (auto simp: poll_triggers_def)
  then obtain k where k: "k < length bss" "t \<in> set (outcome_triggers utc (bss ! k) (outcomes ! k))"
    using assms(2) by (auto simp: set_zip)
  with \<open>\<And>k occ n c. \<lbrakk>k < length bss; outcomes ! k = Delivered occ n c;
      t = delivered_trigger (fst (bss ! k)) (snd (bss ! k)) occ utc (of_nat (Suc n)) c\<rbrakk> \<Longrightarrow> thesis\<close>
  show thesis by (cases "outcomes ! k") auto
qed

abbreviation trigger_key :: "schedule_trigger \<Rightarrow> schedule_key" where
  "trigger_key t \<equiv> (st_block_id t, st_name t)"

lemma outcome_triggers_key: "map trigger_key (outcome_triggers utc bs outcome) \<in> {[], [key_of bs]}"
  by (cases outcome) (simp_all add: delivered_trigger_def)

lemma poll_triggers_distinct:
  assumes "distinct (map key_of bss)" and "length bss = length outcomes"
  shows "distinct (map trigger_key (poll_triggers utc bss outcomes))"
proof -
  let ?ts = "concat (map2 (outcome_triggers utc) bss outcomes)"
  from assms(2,1) have "distinct (map trigger_key ?ts)
    \<and> set (map trigger_key ?ts) \<subseteq> set (map key_of bss)"
  proof (induction bss outcomes rule: list_induct2)
    case (Cons bs bss outcome outcomes)
    have cons: "distinct (x @ y) \<and> set (x @ y) \<subseteq> set (k # ks)"
      if "x \<in> {[], [k]}" "distinct y \<and> set y \<subseteq> set ks" "distinct (k # ks)"
      for x y ks :: "schedule_key list" and k using that by auto
    have "distinct (map key_of bss)" using Cons.prems by simp
    from cons [OF outcome_triggers_key Cons.IH [OF this] Cons.prems [unfolded list.map(2)]] show ?case
      by (simp only: zip_Cons_Cons list.map(2) concat.simps(2) case_prod_conv map_append)
  qed simp
  then have "distinct (map trigger_key ?ts)" ..
  then show ?thesis unfolding poll_triggers_def by (simp add: distinct_map)
qed

lemma clocked_poll:
  assumes "clocked_reachable config limits rt" and "clock_ok utc"
    and "poll_schedules ts \<lparr>cs_monotonic_ms = now, cs_utc_unix_ms = Some utc\<rparr> rt
      = Some (Inr triggers, rt')"
  shows "\<exists>outcomes. triggers = poll_triggers utc (polled_schedules rt) outcomes
    \<and> length outcomes = length (polled_schedules rt)
    \<and> (\<forall>k < length (polled_schedules rt).
      polled ts (rt_site rt) (structural_revision rt) utc (polled_schedules rt ! k)
        (poll_base ts utc rt) (outcomes ! k)
      \<and> btm_get (rt_schedule_cursors rt') (key_of (polled_schedules rt ! k))
          = Some (outcome_cursor (outcomes ! k)))
    \<and> cursors_ok (poll_base ts utc rt)
    \<and> (\<forall>key. last_delivered (poll_base ts utc rt) key = last_delivered (rt_schedule_cursors rt) key)"
proof -
  have time: "ensure_schedule_time rt now = Inr ()"
    using assms(3) by (cases "ensure_schedule_time rt now") (simp_all add: poll_schedules_def)
  note ok = clocked_reachable_cursors [OF assms(1)]
  obtain cursors outcomes where poll: "poll_schedules ts \<lparr>cs_monotonic_ms = now, cs_utc_unix_ms = Some utc\<rparr> rt
      = Some (Inr (poll_triggers utc (polled_schedules rt) outcomes),
          rt\<lparr>rt_last_accepted_at := Some now, rt_schedule_cursors := cursors,
             rt_last_schedule_wall_clock_utc_ms := Some utc\<rparr>)"
    and each: "list_all2 (\<lambda>bs outcome.
          polled ts (rt_site rt) (structural_revision rt) utc bs (poll_base ts utc rt) outcome
          \<and> btm_get cursors (key_of bs) = Some (outcome_cursor outcome)) (polled_schedules rt) outcomes"
    using poll_schedules_spec [OF ok assms(2)
        polled_schedules_distinct [OF clocked_runtime_reachable [OF assms(1)]] time, of ts] by blast
  have "length outcomes = length (polled_schedules rt)" using list_all2_lengthD [OF each] by simp
  moreover have "triggers = poll_triggers utc (polled_schedules rt) outcomes"
    "cursors = rt_schedule_cursors rt'"
    using poll assms(3) by auto
  ultimately show ?thesis
    using list_all2_nthD [OF each] poll_base_ok [OF ok assms(2)] by (intro exI [of _ outcomes] conjI) auto
qed

lemma poll_trigger_facts:
  assumes "clocked_reachable config limits rt" and "clock_ok utc"
    and "poll_schedules ts \<lparr>cs_monotonic_ms = now, cs_utc_unix_ms = Some utc\<rparr> rt
      = Some (Inr triggers, rt')"
    and "t \<in> set triggers"
  shows "\<exists>s. (st_block_id t, s) \<in> set (polled_schedules rt) \<and> sch_name s = st_name t
      \<and> st_scheduled_for_utc_ms t \<le> utc \<and> st_detected_at_utc_ms t = utc
      \<and> (\<forall>l. last_delivered (rt_schedule_cursors rt) (trigger_key t) = Some l \<longrightarrow> l < st_scheduled_for_utc_ms t)
      \<and> (\<forall>n. next_occurrence_after ts (sch_rule s) (rt_site rt) (st_scheduled_for_utc_ms t) = Some n
           \<longrightarrow> utc < n)
      \<and> last_delivered (rt_schedule_cursors rt') (trigger_key t) = Some (st_scheduled_for_utc_ms t)"
proof -
  obtain outcomes where triggers: "triggers = poll_triggers utc (polled_schedules rt) outcomes"
    and len: "length outcomes = length (polled_schedules rt)"
    and each: "\<forall>k < length (polled_schedules rt).
      polled ts (rt_site rt) (structural_revision rt) utc (polled_schedules rt ! k)
        (poll_base ts utc rt) (outcomes ! k)
      \<and> btm_get (rt_schedule_cursors rt') (key_of (polled_schedules rt ! k))
          = Some (outcome_cursor (outcomes ! k))"
    and base: "cursors_ok (poll_base ts utc rt)"
      "\<forall>key. last_delivered (poll_base ts utc rt) key = last_delivered (rt_schedule_cursors rt) key"
    using clocked_poll [OF assms(1-3)] by blast
  obtain k occ n c where k: "k < length (polled_schedules rt)" "outcomes ! k = Delivered occ n c"
    and t_eq: "t = delivered_trigger (fst (polled_schedules rt ! k)) (snd (polled_schedules rt ! k)) occ utc
      (of_nat (Suc n)) c"
    using poll_trigger_outcome [OF assms(4) [unfolded triggers] len] .
  let ?bs = "polled_schedules rt ! k"
  have fields: "trigger_key t = key_of ?bs" "st_scheduled_for_utc_ms t = occ"
    "st_detected_at_utc_ms t = utc"
    by (simp_all add: t_eq delivered_trigger_def)
  have "polled ts (rt_site rt) (structural_revision rt) utc ?bs (poll_base ts utc rt) (outcomes ! k)"
    using each k(1) by blast
  from base(1) assms(2) this
  have occ: "cur_last_delivered_utc_ms c = Some occ" "occ \<le> utc"
    "\<forall>l. last_delivered (rt_schedule_cursors rt) (key_of ?bs) = Some l \<longrightarrow> l < occ"
    "\<forall>m. next_occurrence_after ts (sch_rule (snd ?bs)) (rt_site rt) occ = Some m \<longrightarrow> utc < m"
    by (cases rule: polled_idle_or_delivered; simp add: k(2) base(2))+
  have "last_delivered (rt_schedule_cursors rt') (key_of ?bs) = Some occ"
    using each [rule_format, OF k(1)] k(2) occ(1) by (simp add: last_delivered_def)
  moreover have "(fst ?bs, snd ?bs) \<in> set (polled_schedules rt)" using nth_mem [OF k(1)] by simp
  ultimately show ?thesis
    using occ fields by (intro exI [of _ "snd ?bs"]) simp
qed

text \<open>
  C13. A poll delivers of every schedule at most one occurrence: it has passed, it lies after
  everything that was delivered of the schedule before, and it is the latest, since the next one
  still lies ahead of the wall clock.  The triggers come in the order of their occurrences, ties
  broken by block and name, and the cursors remember what was delivered.
\<close>

theorem poll_delivers_latest:
  assumes "clocked_reachable config limits rt" and "clock_ok utc"
    and "poll_schedules ts \<lparr>cs_monotonic_ms = now, cs_utc_unix_ms = Some utc\<rparr> rt
      = Some (Inr triggers, rt')"
  shows "sorted (map trigger_order triggers) \<and> distinct (map trigger_key triggers)
    \<and> (\<forall>t \<in> set triggers. \<exists>s. (st_block_id t, s) \<in> set (polled_schedules rt) \<and> sch_name s = st_name t
      \<and> st_scheduled_for_utc_ms t \<le> utc \<and> st_detected_at_utc_ms t = utc
      \<and> (\<forall>l. last_delivered (rt_schedule_cursors rt) (trigger_key t) = Some l \<longrightarrow> l < st_scheduled_for_utc_ms t)
      \<and> (\<forall>n. next_occurrence_after ts (sch_rule s) (rt_site rt) (st_scheduled_for_utc_ms t) = Some n
           \<longrightarrow> utc < n)
      \<and> last_delivered (rt_schedule_cursors rt') (trigger_key t) = Some (st_scheduled_for_utc_ms t))"
proof (intro conjI)
  obtain outcomes where triggers: "triggers = poll_triggers utc (polled_schedules rt) outcomes"
    and len: "length outcomes = length (polled_schedules rt)"
    using clocked_poll [OF assms] by blast
  show "sorted (map trigger_order triggers)" by (simp add: triggers poll_triggers_def)
  show "distinct (map trigger_key triggers)"
    unfolding triggers
    using poll_triggers_distinct
      [OF polled_schedules_distinct [OF clocked_runtime_reachable [OF assms(1)]] len [symmetric]] .
qed (intro ballI poll_trigger_facts [OF assms])

text \<open>
  C14. No due occurrence is lost: when the next occurrence of a schedule has passed, a poll whose
  wall clock has not gone back delivers it or, when further ones have passed too, the last of them: the
  one that the walk over the occurrences reaches from the due one, with the number of the steps, and
  behind which the next occurrence still lies ahead of the wall clock.
\<close>

theorem due_occurrences_delivered:
  assumes "clocked_reachable config limits rt" and "clock_ok utc"
    and "poll_schedules ts \<lparr>cs_monotonic_ms = now, cs_utc_unix_ms = Some utc\<rparr> rt
      = Some (Inr triggers, rt')"
    and "(x, s) \<in> set (polled_schedules rt)"
    and "btm_get (rt_schedule_cursors rt) (x, sch_name s) = Some c"
    and "\<not> cur_needs_rebaseline c" and "cur_next_occurrence_utc_ms c = Some due" and "due \<le> utc"
    and "rt_last_schedule_wall_clock_utc_ms rt = Some previous" and "previous \<le> utc"
  shows "\<exists>t \<in> set triggers. trigger_key t = (x, sch_name s) \<and> (\<exists>k. st_coalesced_count t = of_nat k
    \<and> rule_walk.visits ts (sch_rule s) (rt_site rt) utc due k (st_scheduled_for_utc_ms t))
    \<and> (\<forall>n. next_occurrence_after ts (sch_rule s) (rt_site rt) (st_scheduled_for_utc_ms t) = Some n
         \<longrightarrow> utc < n)"
proof -
  obtain outcomes where triggers: "triggers = poll_triggers utc (polled_schedules rt) outcomes"
    and len: "length outcomes = length (polled_schedules rt)"
    and each: "\<forall>k < length (polled_schedules rt).
      polled ts (rt_site rt) (structural_revision rt) utc (polled_schedules rt ! k)
        (poll_base ts utc rt) (outcomes ! k)"
    using clocked_poll [OF assms(1-3)] by blast
  obtain k where k: "k < length (polled_schedules rt)" "polled_schedules rt ! k = (x, s)"
    using assms(4) unfolding in_set_conv_nth by (elim exE conjE)
  have base: "poll_base ts utc rt = rt_schedule_cursors rt"
    using assms(9,10) by (simp add: poll_base_def)
  have "polled ts (rt_site rt) (structural_revision rt) utc (x, s) (rt_schedule_cursors rt) (outcomes ! k)"
    using each [rule_format, OF k(1)] by (simp only: base k(2))
  then have "\<exists>occ n c'. outcomes ! k = Delivered occ n c'
      \<and> rule_walk.visits ts (sch_rule s) (rt_site rt) utc due n occ
      \<and> (\<forall>m. next_occurrence_after ts (sch_rule s) (rt_site rt) occ = Some m \<longrightarrow> utc < m)"
    using assms(5-8)
    by (cases "outcomes ! k") (auto simp: polled_def Let_def up_to_date_def cursor_entry_def)
  then obtain occ n c' where o: "outcomes ! k = Delivered occ n c'"
    "rule_walk.visits ts (sch_rule s) (rt_site rt) utc due n occ"
    "\<forall>m. next_occurrence_after ts (sch_rule s) (rt_site rt) occ = Some m \<longrightarrow> utc < m"
    by (elim exE conjE)
  let ?t = "delivered_trigger x s occ utc (of_nat (Suc n)) c'"
  have "zip (polled_schedules rt) outcomes ! k = ((x, s), Delivered occ n c')"
    using k o(1) len by simp
  then have "((x, s), Delivered occ n c') \<in> set (zip (polled_schedules rt) outcomes)"
    using k(1) len nth_mem [of k "zip (polled_schedules rt) outcomes"] by simp
  then have "outcome_triggers utc (x, s) (Delivered occ n c')
      \<in> set (map2 (outcome_triggers utc) (polled_schedules rt) outcomes)"
    unfolding set_map by (rule rev_image_eqI) simp
  moreover have "?t \<in> set (outcome_triggers utc (x, s) (Delivered occ n c'))" by simp
  ultimately have "?t \<in> set triggers"
    unfolding triggers poll_triggers_def set_sort set_concat by (rule UN_I)
  moreover have "trigger_key ?t = (x, sch_name s)" "st_coalesced_count ?t = of_nat n"
    "st_scheduled_for_utc_ms ?t = occ"
    by (simp_all add: delivered_trigger_def)
  ultimately show ?thesis using o(2,3) by (intro bexI [of _ ?t] conjI exI [of _ n]) simp_all
qed

text \<open>
  C15. No occurrence is delivered twice: between initialisations, whatever happens between two
  polls (events, activations, rebaselining, other polls, wall clocks that go back), what the later
  one delivers of a schedule lies after what the earlier one delivered of it.
\<close>

theorem occurrences_never_repeat:
  assumes "clocked_reachable config limits rt" and "clock_ok utc"
    and "poll_schedules ts \<lparr>cs_monotonic_ms = now, cs_utc_unix_ms = Some utc\<rparr> rt
      = Some (Inr triggers, rt1)" and "t \<in> set triggers"
    and "schedule_step\<^sup>*\<^sup>* rt1 rt2" and "clock_ok utc'"
    and "poll_schedules ts' \<lparr>cs_monotonic_ms = now', cs_utc_unix_ms = Some utc'\<rparr> rt2
      = Some (Inr triggers', rt3)" and "t' \<in> set triggers'"
    and "trigger_key t' = trigger_key t"
  shows "st_scheduled_for_utc_ms t < st_scheduled_for_utc_ms t'"
proof -
  have rt1: "clocked_reachable config limits rt1"
    using clocked_step [OF assms(1) schedule_poll [OF assms(3)]] assms(2) by (simp add: sample_ok_def)
  have "clocked_reachable config limits rt2
    \<and> deliveries_kept (rt_schedule_cursors rt1) (rt_schedule_cursors rt2)"
    using assms(5)
  proof induction
    case (step rt2 rt3)
    have live: "clocked_reachable config limits rt2" using step.IH ..
    obtain features where "runtime_config_wf features config limits"
      using runtime_reachableD(2) [OF clocked_runtime_reachable [OF live]] by blast
    from clocked_schedules [OF this clocked_runtime_reachable [OF live]
        clocked_reachable_cursors [OF live] step.hyps(2)] step.IH clocked_step [OF live step.hyps(2)]
    show ?case by (auto simp: cursors_advance_def intro: deliveries_kept_trans)
  qed (simp add: rt1)
  then have rt2: "clocked_reachable config limits rt2"
    and kept: "deliveries_kept (rt_schedule_cursors rt1) (rt_schedule_cursors rt2)" by blast+
  have "last_delivered (rt_schedule_cursors rt1) (trigger_key t') = Some (st_scheduled_for_utc_ms t)"
    using poll_trigger_facts [OF assms(1-4)] assms(9) by auto
  with kept obtain l where "last_delivered (rt_schedule_cursors rt2) (trigger_key t') = Some l"
    "st_scheduled_for_utc_ms t \<le> l" unfolding deliveries_kept_def by blast
  with poll_trigger_facts [OF rt2 assms(6-8)] show ?thesis by force
qed

subsection \<open>The end of the 64-bit range\<close>

lemma coalesce_result:
  assumes "coalesce ts rule site now newest passed = Some (m, k)"
  shows "\<forall>n. next_occurrence_after ts rule site m = Some n \<longrightarrow> now < n"
proof -
  have "\<forall>n. next_occurrence_after ts rule site (fst x) = Some n \<longrightarrow> now < n"
    if "coalesce ts rule site now newest passed = Some x" for ts rule site now newest passed x
  proof (rule coalesce.raw_induct [OF _ that, where P = "\<lambda>ts rule site now newest passed x.
      \<forall>n. next_occurrence_after ts rule site (fst x) = Some n \<longrightarrow> now < n"])
    fix coal ts rule site now newest passed x
    assume "\<And>ts rule site now newest passed x. coal ts rule site now newest passed = Some x \<Longrightarrow>
        \<forall>n. next_occurrence_after ts rule site (fst x) = Some n \<longrightarrow> now < n"
      and "(case next_occurrence_after ts rule site newest of
          None \<Rightarrow> Some (newest, passed)
        | Some occ \<Rightarrow> if occ \<le> now then coal ts rule site now occ (passed + 1) else Some (newest, passed))
        = Some x"
    then show "\<forall>n. next_occurrence_after ts rule site (fst x) = Some n \<longrightarrow> now < n"
      by (auto split: option.splits if_splits)
  qed
  from this [OF assms] show ?thesis by simp
qed

lemma saturate_i64_within: "saturate_i64 x \<le> i64_max"
  by (simp add: saturate_i64_def i64_bounds)

lemma interval_within_range:
  assumes "every \<noteq> 0"
  obtains n where "interval_next every offset t = Some n" "n \<le> i64_max"
  using assms saturate_i64_within by (auto simp: interval_next_def Let_def uint_0_iff)

lemma coalesce_interval_diverges:
  assumes "every \<noteq> 0"
  shows "coalesce ts (RuleInterval every offset) site i64_max newest passed = None"
proof (cases "coalesce ts (RuleInterval every offset) site i64_max newest passed")
  case (Some mk)
  obtain m k where "mk = (m, k)" by (cases mk)
  with Some have walk: "\<forall>n. next_occurrence_after ts (RuleInterval every offset) site m = Some n \<longrightarrow> i64_max < n"
    using coalesce_result by blast
  obtain n where n: "interval_next every offset m = Some n" "n \<le> i64_max"
    by (rule interval_within_range [OF assms])
  then have "next_occurrence_after ts (RuleInterval every offset) site m = Some n"
    by (simp only: next_occurrence_after.simps)
  with walk n(2) show ?thesis by force
qed

text \<open>A cursor under which an interval schedule is due at the last instant, as every cursor is that a poll
  meets there: it is recomputed, or holds an occurrence.\<close>

definition due_at_the_end :: "cursor_map \<Rightarrow> schedule_key \<Rightarrow> bool" where
  "due_at_the_end cursors key \<longleftrightarrow>
     (\<forall>c. btm_get cursors key = Some c \<longrightarrow>
        cur_needs_rebaseline c \<or> (\<exists>due \<le> i64_max. cur_next_occurrence_utc_ms c = Some due))"

lemma poll_step_diverges:
  assumes "every \<noteq> 0" and "sch_rule s = RuleInterval every offset"
    and "due_at_the_end cursors (x, sch_name s)"
  shows "poll_step ts site revision i64_max (x, s) (cursors, triggers) = None"
proof -
  let ?e = "cursor_entry cursors (x, sch_name s) revision"
  let ?c = "if cur_needs_rebaseline ?e then rebaselined ts site i64_max (sch_rule s) ?e else ?e"
  obtain due where "cur_next_occurrence_utc_ms ?c = Some due" "due \<le> i64_max"
  proof (cases "cur_needs_rebaseline ?e")
    case True
    define base where "base = (case cur_last_delivered_utc_ms ?e of None \<Rightarrow> i64_max | Some l \<Rightarrow> max l i64_max)"
    obtain n where "interval_next every offset base = Some n" "n \<le> i64_max"
      by (rule interval_within_range [OF assms(1)])
    with True show thesis
      by (intro that [of n])
        (simp_all add: rebaselined_def next_occurrence_after_not_before_def assms(2) base_def)
  next
    case False
    then obtain c where c: "btm_get cursors (x, sch_name s) = Some c" "?e = c"
      by (auto simp: cursor_entry_def fresh_cursor_def split: option.splits)
    with assms(3) False show thesis by (auto simp: due_at_the_end_def intro: that)
  qed
  then show ?thesis
    by (simp add: poll_step_def Let_def assms(2) coalesce_interval_diverges [OF assms(1)])
qed

lemma poll_loop_diverges:
  assumes "every \<noteq> 0" and "sch_rule s = RuleInterval every offset"
    and "(x, s) \<in> set bss" and "distinct (map key_of bss)" and "due_at_the_end cursors (x, sch_name s)"
  shows "poll_loop ts site revision i64_max bss (cursors, triggers) = None"
  using assms(3-5)
proof (induction bss arbitrary: cursors triggers)
  case (Cons bs bss)
  show ?case
  proof (cases "bs = (x, s)")
    case True
    then show ?thesis using poll_step_diverges [OF assms(1,2) Cons.prems(3)] by simp
  next
    case False
    with Cons.prems have rest: "(x, s) \<in> set bss" "distinct (map key_of bss)"
      and "(x, sch_name s) \<in> key_of ` set bss" by force+
    with Cons.prems(2) have new: "key_of bs \<noteq> (x, sch_name s)" by auto
    have "due_at_the_end (btm_insert (key_of bs) c cursors) (x, sch_name s)" for c
      using Cons.prems(3) new by (auto simp: due_at_the_end_def btm_get_insert)
    then have "poll_step ts site revision i64_max bs (cursors, triggers) = Some st \<Longrightarrow>
        due_at_the_end (fst st) (x, sch_name s)" for st
      by (auto simp: poll_step_def Let_def split: option.splits if_splits)
    with Cons.IH [OF rest] show ?thesis by (fastforce split: option.splits)
  qed
qed simp

lemma polled_schedule_valid:
  assumes "runtime_reachable config limits rt" and "(x, s) \<in> set (polled_schedules rt)"
  shows "\<exists>features. schedule_rule_validate features (sch_rule s) = Inr ()"
proof -
  obtain features where wf: "runtime_config_wf features config limits"
    using runtime_reachableD(2) [OF assms(1)] by blast
  have real: "realises config limits rt"
    using runtime_reachableD(3) [OF assms(1)] runtime_invD(1) unfolding runtime_ok_def by blast
  obtain b where b: "b \<in> set (rt_blocks rt)" "s \<in> set (bc_schedules (lb_config b))"
    using assms(2) by (auto simp: polled_schedules_def schedules_of_def block_schedules_def)
  obtain k where k: "k < length (rt_blocks rt)" "b = rt_blocks rt ! k"
    using b(1) by (metis in_set_conv_nth)
  have "rc_blocks config ! k \<in> set (rc_blocks config)" using realises_block(1) [OF real k(1)] by simp
  with wf have "block_config_wf features (rc_blocks config ! k) limits" by (simp add: runtime_config_wf_def)
  with b(2) realises_block(5) [OF real k(1)] k(2) show ?thesis by (auto simp: block_config_wf_def)
qed

text \<open>
  C16. At the last millisecond of the 64-bit range no poll of a runtime with an interval schedule in use
  returns, whatever the interval and whatever the other schedules are: the occurrences of an interval
  saturate there, so that the walk over the missed ones always finds another one that has passed.
\<close>

theorem poll_diverges_at_horizon:
  assumes "runtime_reachable config limits rt"
    and "(x, s) \<in> set (polled_schedules rt)" and "sch_rule s = RuleInterval every offset"
    and "due_at_the_end (rt_schedule_cursors rt) (x, sch_name s)"
    and "rt_last_schedule_wall_clock_utc_ms rt = Some previous" and "previous \<le> i64_max"
    and "ensure_schedule_time rt now = Inr ()"
  shows "poll_schedules ts \<lparr>cs_monotonic_ms = now, cs_utc_unix_ms = Some i64_max\<rparr> rt = None"
proof -
  have "every \<noteq> 0"
    using polled_schedule_valid [OF assms(1,2)] by (auto simp: assms(3) min_interval_seconds_def split: if_splits)
  from poll_loop_diverges [OF this assms(3,2) polled_schedules_distinct [OF assms(1)] assms(4)]
  show ?thesis
    using assms(5-7) by (simp add: poll_schedules_def Let_def accepted_polled)
qed

subsection \<open>Instances\<close>

lemma ticking_reachable:
  "clocked_reachable scheduled_config sample_limits (ticking 0 0 (tick_cursor None 60000))"
  by (rule clocked_initialise [OF clocked_start [OF scheduled_runtime_new] scheduled_initialise])
    (simp add: sample_ok_def clock_ok_def clock_horizon_def i64_bounds)

lemma sample_clocks: "clock_ok 150000" "clock_ok 180000"
  by (simp_all add: clock_ok_def clock_horizon_def i64_bounds)

theorem polls_return_witness:
  "\<exists>r rt'. poll_schedules utc_services \<lparr>cs_monotonic_ms = 1, cs_utc_unix_ms = Some 150000\<rparr>
     (ticking 0 0 (tick_cursor None 60000)) = Some (r, rt')"
  by (rule polls_return [OF ticking_reachable]) (simp add: sample_ok_def sample_clocks)

theorem poll_delivers_latest_witness:
  "\<exists>s. (BlockId ''a'', s) \<in> set (polled_schedules (ticking 0 0 (tick_cursor None 60000)))
     \<and> (\<forall>n. next_occurrence_after utc_services (sch_rule s) default_site 120000 = Some n \<longrightarrow> 150000 < n)"
  using poll_delivers_latest [OF ticking_reachable sample_clocks(1) scheduled_poll(1) [of utc_services]]
  by (auto simp: tick_trigger_def)

theorem due_occurrences_delivered_witness:
  "\<exists>t \<in> set [tick_trigger 120000 150000 1]. \<exists>k. st_coalesced_count t = of_nat k
     \<and> rule_walk.visits utc_services (RuleInterval 60 0) default_site 150000 60000 k
         (st_scheduled_for_utc_ms t)"
proof -
  let ?rt = "ticking 0 0 (tick_cursor None 60000)"
  have tick: "(BlockId ''a'', tick) \<in> set (polled_schedules ?rt)"
    "btm_get (rt_schedule_cursors ?rt) (BlockId ''a'', sch_name tick) = Some (tick_cursor None 60000)"
    by (simp_all add: btm_get_def)
  show ?thesis
    using due_occurrences_delivered [OF ticking_reachable sample_clocks(1)
        scheduled_poll(1) [of utc_services] tick, of 60000 0] by auto
qed

theorem occurrences_never_repeat_witness:
  "st_scheduled_for_utc_ms (tick_trigger 120000 150000 1) < st_scheduled_for_utc_ms (tick_trigger 180000 180000 0)"
  by (rule occurrences_never_repeat [OF ticking_reachable sample_clocks(1)
        scheduled_poll(1) [of utc_services] _ rtranclp.rtrancl_refl sample_clocks(2)
        scheduled_poll(2) [of utc_services]]) (simp_all add: tick_trigger_def)

theorem poll_diverges_at_horizon_witness:
  "poll_schedules utc_services \<lparr>cs_monotonic_ms = 1, cs_utc_unix_ms = Some i64_max\<rparr>
     (ticking 0 0 (tick_cursor None 60000)) = None"
proof -
  have bounds: "60000 \<le> i64_max" "0 \<le> i64_max" by (simp_all add: i64_max_def)
  show ?thesis
    by (rule poll_diverges_at_horizon [OF clocked_runtime_reachable [OF ticking_reachable], of "BlockId ''a''" tick 60 0 0])
      (simp_all add: due_at_the_end_def btm_get_def ensure_schedule_time_def bounds)
qed

end
