(* ===== verification/Abi_Values.thy ===== *)
theory Abi_Values
  imports Runtime_Activation
begin

text \<open>
  The records of the C interface (\<open>logiksmith-embedded-abi/src/lib.rs\<close>) and the conversions
  between them and the values of the core.  A C pointer is an option of the memory that it points
  to, null being \<open>None\<close>; a pointer with a length is a slice, readable when the memory is as long
  as the length says.
\<close>

subsection \<open>Status codes\<close>

datatype abi_status =
    AbiOk | AbiNullPointer | AbiInvalidLength | AbiInvalidUtf8 | AbiInvalidBlockId
  | AbiInvalidEndpointName | AbiInvalidDpt | AbiInvalidValue | AbiInvalidConfiguration
  | AbiUnknownBlock | AbiUnknownEndpoint | AbiEndpointNotInput | AbiDptMismatch
  | AbiTimeWentBackwards | AbiLogicError | AbiOutputBufferTooSmall | AbiPanic
  | AbiInvalidGroupAddress | AbiRuntimeLimit | AbiInvalidSource | AbiRevisionConflict
  | AbiUnknownTimer | AbiBufferTooSmall

fun status_code :: "abi_status \<Rightarrow> int" where
  "status_code AbiOk = 0"
| "status_code AbiNullPointer = 1"
| "status_code AbiInvalidLength = 2"
| "status_code AbiInvalidUtf8 = 3"
| "status_code AbiInvalidBlockId = 4"
| "status_code AbiInvalidEndpointName = 5"
| "status_code AbiInvalidDpt = 6"
| "status_code AbiInvalidValue = 7"
| "status_code AbiInvalidConfiguration = 8"
| "status_code AbiUnknownBlock = 9"
| "status_code AbiUnknownEndpoint = 10"
| "status_code AbiEndpointNotInput = 11"
| "status_code AbiDptMismatch = 12"
| "status_code AbiTimeWentBackwards = 13"
| "status_code AbiLogicError = 14"
| "status_code AbiOutputBufferTooSmall = 15"
| "status_code AbiPanic = 16"
| "status_code AbiInvalidGroupAddress = 17"
| "status_code AbiRuntimeLimit = 18"
| "status_code AbiInvalidSource = 19"
| "status_code AbiRevisionConflict = 20"
| "status_code AbiUnknownTimer = 21"
| "status_code AbiBufferTooSmall = 22"

definition abi_version :: u32 where "abi_version = 2"
definition max_identifier_bytes :: nat where "max_identifier_bytes = 64"
definition abi_max_source_bytes :: nat where "abi_max_source_bytes = 64 * 1024"
definition abi_max_blocks :: nat where "abi_max_blocks = 64"
definition abi_max_endpoints_per_block :: nat where "abi_max_endpoints_per_block = 64"
definition max_effects :: nat where "max_effects = 256"
definition max_inputs_per_block :: nat where "max_inputs_per_block = abi_max_endpoints_per_block"
definition max_timers_per_block :: nat where "max_timers_per_block = 32"
definition max_document_bytes :: nat where "max_document_bytes = 16 * 1024"
definition max_knx_group_address :: u16 where "max_knx_group_address = 0x7fff"

definition abi_input :: u8 where "abi_input = 0"
definition abi_output :: u8 where "abi_output = 1"
definition value_bool :: u8 where "value_bool = 1"
definition value_percent :: u8 where "value_percent = 2"
definition value_temperature_centi_degrees :: u8 where "value_temperature_centi_degrees = 3"

subsection \<open>Slices\<close>

record 'a c_slice =
  sl_pointer :: "'a list option"
  sl_length :: nat

type_synonym c_bytes = "char c_slice"

definition slice_readable :: "'a c_slice \<Rightarrow> bool" where
  "slice_readable s \<longleftrightarrow> (\<forall>mem. sl_pointer s = Some mem \<longrightarrow> sl_length s \<le> length mem)"

definition read_array :: "'a c_slice \<Rightarrow> nat \<Rightarrow> abi_status + 'a list" where
  "read_array s maximum =
     (if maximum < sl_length s then Inl AbiInvalidLength
      else if sl_length s = 0 then Inr []
      else case sl_pointer s of
        None \<Rightarrow> Inl AbiNullPointer
      | Some mem \<Rightarrow> Inr (take (sl_length s) mem))"

definition with_bytes :: "c_bytes \<Rightarrow> nat \<Rightarrow> (rstring \<Rightarrow> abi_status + 'a) \<Rightarrow> abi_status + 'a" where
  "with_bytes s maximum operation =
     (if maximum < sl_length s then Inl AbiInvalidLength
      else if sl_length s = 0 then operation []
      else case sl_pointer s of
        None \<Rightarrow> Inl AbiNullPointer
      | Some mem \<Rightarrow> operation (take (sl_length s) mem))"

definition with_utf8 :: "c_bytes \<Rightarrow> nat \<Rightarrow> (rstring \<Rightarrow> abi_status + 'a) \<Rightarrow> abi_status + 'a" where
  "with_utf8 s maximum operation =
     with_bytes s maximum
       (\<lambda>bytes. if utf8_valid bytes then operation bytes else Inl AbiInvalidUtf8)"

definition decode_block_id :: "c_bytes \<Rightarrow> abi_status + block_id" where
  "decode_block_id s =
     with_utf8 s max_identifier_bytes (\<lambda>v. map_err (\<lambda>_. AbiInvalidBlockId) (block_id_new v))"

definition decode_endpoint_name :: "c_bytes \<Rightarrow> abi_status + endpoint_name" where
  "decode_endpoint_name s =
     with_utf8 s max_identifier_bytes
       (\<lambda>v. map_err (\<lambda>_. AbiInvalidEndpointName) (endpoint_name_new v))"

definition decode_timer_name :: "c_bytes \<Rightarrow> abi_status + timer_name" where
  "decode_timer_name s =
     with_utf8 s max_identifier_bytes (\<lambda>v. map_err (\<lambda>_. AbiUnknownTimer) (timer_name_new v))"

definition decode_source :: "c_bytes \<Rightarrow> abi_status + rstring" where
  "decode_source s = with_utf8 s abi_max_source_bytes Inr"

subsection \<open>Values\<close>

record value_repr =
  vr_dpt_major :: u16
  vr_dpt_subtype :: u16
  vr_kind :: u8
  vr_reserved :: u8
  vr_reserved2 :: u16
  vr_scalar :: int \<comment> \<open>\<open>i32\<close>\<close>

definition default_value_repr :: value_repr where
  "default_value_repr =
     \<lparr>vr_dpt_major = 0, vr_dpt_subtype = 0, vr_kind = 0, vr_reserved = 0, vr_reserved2 = 0,
      vr_scalar = 0\<rparr>"

definition decode_value :: "value_repr \<Rightarrow> abi_status + typed_value" where
  "decode_value r =
     (if vr_reserved r \<noteq> 0 \<or> vr_reserved2 r \<noteq> 0 then Inl AbiInvalidValue
      else result_bind
        (map_err (\<lambda>_. AbiInvalidDpt) (dpt_new (vr_dpt_major r) (vr_dpt_subtype r))) (\<lambda>d.
        result_bind
          (if vr_kind r = value_bool \<and> (vr_scalar r = 0 \<or> vr_scalar r = 1)
             then Inr (VBool (vr_scalar r = 1))
           else if vr_kind r = value_percent \<and> 0 \<le> vr_scalar r \<and> vr_scalar r \<le> 100
             then Inr (VPercent (of_int (vr_scalar r)))
           else if vr_kind r = value_temperature_centi_degrees
             then Inr (VTemperature (vr_scalar r))
           else Inl AbiInvalidValue) (\<lambda>v.
        map_err (\<lambda>_. AbiInvalidValue) (typed_value_new d v))))"

definition encode_value :: "typed_value \<Rightarrow> value_repr" where
  "encode_value tv =
     (let (kind, scalar) =
        (case tv_value tv of
           VBool b \<Rightarrow> (value_bool, if b then 1 else 0)
         | VPercent p \<Rightarrow> (value_percent, uint p)
         | VTemperature c \<Rightarrow> (value_temperature_centi_degrees, c))
      in \<lparr>vr_dpt_major = dpt_major (tv_dpt tv), vr_dpt_subtype = dpt_subtype (tv_dpt tv),
          vr_kind = kind, vr_reserved = 0, vr_reserved2 = 0, vr_scalar = scalar\<rparr>)"

subsection \<open>Fixed identifier fields\<close>

definition nul :: char where "nul = CHR 0x00"

definition empty_identifier :: rstring where
  "empty_identifier = replicate max_identifier_bytes nul"

text \<open>\<open>copy_identifier\<close> and \<open>copy_identifier_len\<close>: the padded bytes and their length.\<close>

definition copy_identifier :: "rstring \<Rightarrow> abi_status + rstring \<times> u16" where
  "copy_identifier v =
     (if max_identifier_bytes < length v then Inl AbiInvalidLength
      else Inr (v @ replicate (max_identifier_bytes - length v) nul, of_nat (length v)))"

subsection \<open>Effects\<close>

record effect_repr =
  fx_block_id :: rstring
  fx_block_id_len :: u16
  fx_endpoint :: rstring
  fx_endpoint_len :: u16
  fx_value :: value_repr

definition default_effect :: effect_repr where
  "default_effect =
     \<lparr>fx_block_id = empty_identifier, fx_block_id_len = 0, fx_endpoint = empty_identifier,
      fx_endpoint_len = 0, fx_value = default_value_repr\<rparr>"

fun count_effects :: "block_execution list \<Rightarrow> abi_status + nat" where
  "count_effects [] = Inr 0"
| "count_effects (bx # bxs) =
     (case ex_outcome (bx_execution bx) of
        Inl _ \<Rightarrow> Inl AbiLogicError
      | Inr tr \<Rightarrow> result_bind (count_effects bxs) (\<lambda>n. Inr (length (tr_outputs tr) + n)))"

text \<open>One record, field by field: what was copied before an error stays in the buffer.\<close>

definition write_effect ::
  "block_id \<Rightarrow> output_effect \<Rightarrow> nat \<Rightarrow> effect_repr list
     \<Rightarrow> (abi_status + unit) \<times> effect_repr list" where
  "write_effect x out index dest =
     (if length dest \<le> index then (Inl AbiInvalidLength, dest)
      else case copy_identifier (block_str x) of
        Inl st \<Rightarrow> (Inl st, dest)
      | Inr (bytes, len) \<Rightarrow>
          let r = (dest ! index)\<lparr>fx_block_id := bytes, fx_block_id_len := len\<rparr>
          in case copy_identifier (endpoint_str (oe_endpoint out)) of
               Inl st \<Rightarrow> (Inl st, dest[index := r])
             | Inr (bytes, len) \<Rightarrow>
                 (Inr (), dest[index := r\<lparr>fx_endpoint := bytes, fx_endpoint_len := len,
                    fx_value := encode_value (oe_value out)\<rparr>]))"

fun write_outputs ::
  "block_id \<Rightarrow> output_effect list \<Rightarrow> nat \<Rightarrow> effect_repr list
     \<Rightarrow> (abi_status + nat) \<times> effect_repr list" where
  "write_outputs x [] index dest = (Inr index, dest)"
| "write_outputs x (out # outs) index dest =
     (case write_effect x out index dest of
        (Inl st, dest) \<Rightarrow> (Inl st, dest)
      | (Inr _, dest) \<Rightarrow> write_outputs x outs (Suc index) dest)"

fun write_effects ::
  "block_execution list \<Rightarrow> nat \<Rightarrow> effect_repr list \<Rightarrow> (abi_status + nat) \<times> effect_repr list" where
  "write_effects [] index dest = (Inr index, dest)"
| "write_effects (bx # bxs) index dest =
     (case ex_outcome (bx_execution bx) of
        Inl _ \<Rightarrow> (Inl AbiLogicError, dest)
      | Inr tr \<Rightarrow>
          (case write_outputs (bx_block_id bx) (tr_outputs tr) index dest of
             (Inl st, dest) \<Rightarrow> (Inl st, dest)
           | (Inr index, dest) \<Rightarrow> write_effects bxs index dest))"

text \<open>The status of an error of the core; a panic has been caught before.\<close>

fun event_panicked :: "runtime_event_error \<Rightarrow> bool" where
  "event_panicked (RtPanic _) = True"
| "event_panicked (RtBlock _ (EventPanic _)) = True"
| "event_panicked _ = False"

fun status_for_runtime_event :: "runtime_event_error \<Rightarrow> abi_status" where
  "status_for_runtime_event (RtUnknownBlock _) = AbiUnknownBlock"
| "status_for_runtime_event (RtTimeWentBackwards _ _ _) = AbiTimeWentBackwards"
| "status_for_runtime_event (CascadeLimit _ _) = AbiRuntimeLimit"
| "status_for_runtime_event (ResourceLimit _ _ _) = AbiRuntimeLimit"
| "status_for_runtime_event (CascadeTimeLimit _ _) = AbiRuntimeLimit"
| "status_for_runtime_event (RtBlock _ e) =
     (case e of
        UnknownEndpoint _ \<Rightarrow> AbiUnknownEndpoint
      | EndpointNotInput _ _ \<Rightarrow> AbiEndpointNotInput
      | EventDptMismatch _ _ _ \<Rightarrow> AbiDptMismatch
      | EventInvalidValue _ \<Rightarrow> AbiInvalidValue
      | TimeWentBackwards _ _ \<Rightarrow> AbiTimeWentBackwards
      | StaleTimer _ _ _ \<Rightarrow> AbiInvalidConfiguration
      | EventPanic _ \<Rightarrow> AbiPanic)"
| "status_for_runtime_event RtOutOfFuel = AbiPanic"
| "status_for_runtime_event (RtPanic _) = AbiPanic"

end
