(* ===== verification/Abi_Operations.thy ===== *)
theory Abi_Operations
  imports Abi_Values
begin

text \<open>
  The operations of the C interface: every \<open>extern "C"\<close> function as a function of the memory that its
  pointers reach, with the status, the handle and the caller's buffers after the call.
\<close>

subsection \<open>Handles\<close>

record runtime_handle =
  rh_runtime :: runtime
  rh_document_revision :: u64
  rh_structural_revision :: u64

record endpoint_config_repr =
  ec_name :: c_bytes
  ec_direction :: u8
  ec_reserved :: "u8 list" \<comment> \<open>three bytes\<close>
  ec_dpt_major :: u16
  ec_dpt_subtype :: u16

record block_config_repr =
  bcr_block_id :: c_bytes
  bcr_logic_source :: c_bytes
  bcr_endpoints :: "endpoint_config_repr c_slice"

type_synonym runtime_config_repr = "block_config_repr c_slice"

record runtime_document_repr =
  rd_config :: "runtime_config_repr option"
  rd_document_revision :: u64
  rd_structural_revision :: u64

definition decode_endpoint ::
  "endpoint list \<Rightarrow> endpoint_config_repr \<Rightarrow> abi_status + endpoint list" where
  "decode_endpoint endpoints r =
     (if ec_reserved r \<noteq> [0, 0, 0] then Inl AbiInvalidConfiguration
      else result_bind (decode_endpoint_name (ec_name r)) (\<lambda>name.
        result_bind
          (if ec_direction r = abi_input then Inr Input
           else if ec_direction r = abi_output then Inr Output
           else Inl AbiInvalidConfiguration) (\<lambda>direction.
        result_bind
          (map_err (\<lambda>_. AbiInvalidDpt) (dpt_new (ec_dpt_major r) (ec_dpt_subtype r))) (\<lambda>d.
        if \<not> dpt_is_supported d then Inl AbiInvalidDpt
        else Inr (endpoints @ [\<lparr>ep_name = name, ep_direction = direction, ep_dpt = d\<rparr>])))))"

definition decode_block_config :: "block_config_repr \<Rightarrow> abi_status + block_config" where
  "decode_block_config r =
     result_bind (decode_block_id (bcr_block_id r)) (\<lambda>x.
     result_bind (decode_source (bcr_logic_source r)) (\<lambda>source.
     result_bind (read_array (bcr_endpoints r) abi_max_endpoints_per_block) (\<lambda>reprs.
     if reprs = [] then Inl AbiInvalidLength
     else result_bind (try_fold decode_endpoint [] reprs) (\<lambda>endpoints.
       Inr \<lparr>bc_id = x, bc_enabled = True, bc_endpoints = endpoints,
            bc_logic = logic_program_new source, bc_schedules = [], bc_signal_bindings = []\<rparr>))))"

text \<open>\<open>logiksmith_runtime_create\<close>: the status and the slot of the new handle.\<close>

definition create_runtime ::
  "environment \<Rightarrow> runtime_config_repr option \<Rightarrow> abi_status + runtime_handle" where
  "create_runtime env config =
     result_bind (ok_or AbiNullPointer config) (\<lambda>config.
     result_bind (read_array config abi_max_blocks) (\<lambda>reprs.
     if reprs = [] then Inl AbiInvalidLength
     else result_bind
       (try_fold (\<lambda>blocks r. result_bind (decode_block_config r) (\<lambda>b. Inr (blocks @ [b]))) [] reprs)
       (\<lambda>blocks. result_bind
         (map_err (\<lambda>_. AbiInvalidConfiguration)
           (runtime_try_new_with_limits env
             \<lparr>rc_blocks = blocks, rc_signals = [], rc_site = default_site\<rparr>
             embedded_baseline_limits)) (\<lambda>rt.
         Inr \<lparr>rh_runtime = rt, rh_document_revision = 1, rh_structural_revision = 1\<rparr>))))"

text \<open>A status with the new handle, for a slot that is null or writable.\<close>

definition handle_slot :: "abi_status + runtime_handle \<Rightarrow> abi_status \<times> runtime_handle option" where
  "handle_slot r = (case r of Inl st \<Rightarrow> (st, None) | Inr h \<Rightarrow> (AbiOk, Some h))"

definition logiksmith_runtime_create ::
  "environment \<Rightarrow> runtime_config_repr option \<Rightarrow> bool \<Rightarrow> abi_status \<times> runtime_handle option" where
  "logiksmith_runtime_create env config slot_null =
     (if slot_null then (AbiNullPointer, None) else handle_slot (create_runtime env config))"

definition logiksmith_runtime_create_from_document ::
  "environment \<Rightarrow> runtime_document_repr option \<Rightarrow> bool \<Rightarrow> abi_status \<times> runtime_handle option" where
  "logiksmith_runtime_create_from_document env document slot_null =
     (case document of
        None \<Rightarrow> (AbiNullPointer, None)
      | Some d \<Rightarrow>
          if rd_document_revision d = 0 \<or> rd_structural_revision d = 0
          then (AbiInvalidConfiguration, None)
          else
            (case logiksmith_runtime_create env (rd_config d) slot_null of
               (st, slot) \<Rightarrow>
                 if st \<noteq> AbiOk then (st, slot)
                 else (AbiOk, map_option (\<lambda>h. h
                   \<lparr>rh_document_revision := rd_document_revision d,
                    rh_structural_revision := rd_structural_revision d\<rparr>) slot)))"

definition logiksmith_runtime_destroy :: "runtime_handle option \<Rightarrow> abi_status" where
  "logiksmith_runtime_destroy handle = AbiOk"

subsection \<open>Events\<close>

record input_event_repr =
  ie_block_id :: c_bytes
  ie_endpoint :: c_bytes
  ie_value :: value_repr
  ie_source_address :: u16
  ie_group_address :: u16
  ie_monotonic_ms :: u64

text \<open>
  What a call that emits effects leaves: its status, the handle, the caller's effect buffer and the
  slot \<open>written\<close> (\<open>None\<close> when that pointer is null).
\<close>

record effect_call =
  fc_status :: abi_status
  fc_handle :: "runtime_handle option"
  fc_effects :: "effect_repr list option"
  fc_written :: "nat option"

definition effect_call ::
  "abi_status \<Rightarrow> runtime_handle option \<Rightarrow> effect_repr list option \<Rightarrow> nat option \<Rightarrow> effect_call" where
  "effect_call st handle effects written =
     \<lparr>fc_status = st, fc_handle = handle, fc_effects = effects, fc_written = written\<rparr>"

text \<open>
  The first \<open>n\<close> records of the caller's buffer, written and put back.
\<close>

definition fill_effects ::
  "block_execution list \<Rightarrow> nat \<Rightarrow> effect_repr list option
     \<Rightarrow> (abi_status + nat) \<times> effect_repr list option" where
  "fill_effects bxs n effects =
     (if n = 0 then (Inr 0, effects)
      else case effects of
        None \<Rightarrow> (Inl AbiNullPointer, None) \<comment> \<open>excluded by the check of the capacity\<close>
      | Some mem \<Rightarrow>
          (case write_effects bxs 0 (take n mem) of
             (r, dest) \<Rightarrow> (r, Some (dest @ drop n mem))))"

definition decode_input_event ::
  "input_event_repr \<Rightarrow> abi_status + block_id \<times> endpoint_name \<times> typed_value" where
  "decode_input_event event =
     result_bind (decode_block_id (ie_block_id event)) (\<lambda>x.
     result_bind (decode_endpoint_name (ie_endpoint event)) (\<lambda>e.
     if ie_group_address event = 0 \<or> max_knx_group_address < ie_group_address event
     then Inl AbiInvalidGroupAddress
     else result_bind (decode_value (ie_value event)) (\<lambda>v. Inr (x, e, v))))"

text \<open>
  \<open>logiksmith_runtime_process_input\<close> behind its pointer checks: the events of the core, a snapshot
  before them, and the three ways back to it.
\<close>

definition process_input_event ::
  "environment \<Rightarrow> runtime_handle \<Rightarrow> input_event_repr \<Rightarrow> effect_repr list option \<Rightarrow> nat \<Rightarrow> effect_call"
  where
  "process_input_event env h event effects capacity =
     (case decode_input_event event of
        Inl st \<Rightarrow> effect_call st (Some h) effects (Some 0)
      | Inr (x, e, v) \<Rightarrow>
          (case process_input_cascade env x e v (ie_monotonic_ms event) (rh_runtime h) of
             (Inl err, rt) \<Rightarrow>
               effect_call (if event_panicked err then AbiPanic else status_for_runtime_event err)
                 (Some h) effects (Some 0)
           | (Inr bxs, rt) \<Rightarrow>
               let after = h\<lparr>rh_runtime := rt\<rparr>
               in case count_effects bxs of
                    Inl st \<Rightarrow> effect_call st (Some after) effects (Some 0)
                  | Inr n \<Rightarrow>
                      if capacity < n
                      then effect_call AbiOutputBufferTooSmall (Some h) effects (Some n)
                      else
                        (case fill_effects bxs n effects of
                           (Inl st, effects) \<Rightarrow> effect_call st (Some h) effects (Some 0)
                         | (Inr _, effects) \<Rightarrow> effect_call AbiOk (Some after) effects (Some n))))"

text \<open>The pointer checks that the functions with an effect buffer share.\<close>

definition logiksmith_runtime_process_input ::
  "environment \<Rightarrow> runtime_handle option \<Rightarrow> input_event_repr option \<Rightarrow> effect_repr list option \<Rightarrow> nat
     \<Rightarrow> bool \<Rightarrow> effect_call" where
  "logiksmith_runtime_process_input env handle event effects capacity written_null =
     (if written_null then effect_call AbiNullPointer handle effects None
      else case (handle, event) of
        (Some h, Some ev) \<Rightarrow>
          if 0 < capacity \<and> effects = None
            then effect_call AbiNullPointer handle effects (Some 0)
          else if max_effects < capacity
            then effect_call AbiInvalidLength handle effects (Some 0)
          else process_input_event env h ev effects capacity
      | _ \<Rightarrow> effect_call AbiNullPointer handle effects (Some 0))"

definition write_execution_effects ::
  "block_execution list \<Rightarrow> effect_repr list option \<Rightarrow> nat
     \<Rightarrow> abi_status \<times> effect_repr list option \<times> nat" where
  "write_execution_effects bxs effects capacity =
     (case count_effects bxs of
        Inl st \<Rightarrow> (st, effects, 0)
      | Inr n \<Rightarrow>
          if max_effects < n then (AbiRuntimeLimit, effects, 0)
          else if capacity < n then (AbiOutputBufferTooSmall, effects, n)
          else
            (case fill_effects bxs n effects of
               (Inl st, effects) \<Rightarrow> (st, effects, 0)
             | (Inr _, effects) \<Rightarrow> (AbiOk, effects, n)))"

text \<open>\<open>process_runtime_operation\<close>: the same for a timer; every status but success restores.\<close>

definition process_runtime_operation ::
  "runtime_handle option \<Rightarrow> effect_repr list option \<Rightarrow> nat \<Rightarrow> bool
     \<Rightarrow> (runtime \<Rightarrow> (runtime_event_error + block_execution list) \<times> runtime) \<Rightarrow> effect_call" where
  "process_runtime_operation handle effects capacity written_null operation =
     (if written_null then effect_call AbiNullPointer handle effects None
      else if 0 < capacity \<and> effects = None then effect_call AbiNullPointer handle effects (Some 0)
      else case handle of
        None \<Rightarrow> effect_call AbiNullPointer handle effects (Some 0)
      | Some h \<Rightarrow>
          if max_effects < capacity then effect_call AbiInvalidLength handle effects (Some 0)
          else
            (case operation (rh_runtime h) of
               (Inl err, rt) \<Rightarrow>
                 if event_panicked err
                 then effect_call AbiPanic (Some (h\<lparr>rh_runtime := rt\<rparr>)) effects (Some 0)
                 else effect_call (status_for_runtime_event err) (Some h) effects (Some 0)
             | (Inr bxs, rt) \<Rightarrow>
                 (case write_execution_effects bxs effects capacity of
                    (st, effects, n) \<Rightarrow>
                      effect_call st (Some (if st = AbiOk then h\<lparr>rh_runtime := rt\<rparr> else h))
                        effects (Some n))))"

definition logiksmith_runtime_process_due_timer ::
  "environment \<Rightarrow> runtime_handle option \<Rightarrow> u64 \<Rightarrow> effect_repr list option \<Rightarrow> nat \<Rightarrow> bool
     \<Rightarrow> effect_call" where
  "logiksmith_runtime_process_due_timer env handle now effects capacity written_null =
     process_runtime_operation handle effects capacity written_null
       (process_next_due_timer_cascade env now)"

subsection \<open>Simulations\<close>

text \<open>\<open>Runtime::validate_source\<close>, which uses the limits of the desktop profile.\<close>

definition runtime_validate_source ::
  "environment \<Rightarrow> rstring \<Rightarrow> logic_error + logic_revision" where
  "runtime_validate_source env source =
     result_bind (logic_program_try_new_with_limits (env_vm env) source desktop_limits)
       (\<lambda>p. Inr (lp_revision p))"

text \<open>The status and the slot of the revision.\<close>

definition logiksmith_runtime_validate_source ::
  "environment \<Rightarrow> c_bytes \<Rightarrow> bool \<Rightarrow> abi_status \<times> u64 option" where
  "logiksmith_runtime_validate_source env source revision_null =
     (if revision_null then (AbiNullPointer, None)
      else case with_utf8 source abi_max_source_bytes
             (\<lambda>s. map_err (\<lambda>_. AbiInvalidSource) (runtime_validate_source env s)) of
        Inl st \<Rightarrow> (st, Some 0)
      | Inr revision \<Rightarrow> (AbiOk, Some revision))"

definition simulation_input_from_snapshot :: "input_snapshot \<Rightarrow> simulation_input" where
  "simulation_input_from_snapshot i =
     \<lparr>si_endpoint = is_endpoint i, si_value = is_value i, si_valid = is_valid i,
      si_age_ms = is_age_ms i\<rparr>"

definition simulated_effects ::
  "'e + block_execution \<Rightarrow> effect_repr list option \<Rightarrow> nat
     \<Rightarrow> abi_status \<times> effect_repr list option \<times> nat" where
  "simulated_effects r effects capacity =
     (case r of
        Inl _ \<Rightarrow> (AbiInvalidConfiguration, effects, 0)
      | Inr bx \<Rightarrow> write_execution_effects [bx] effects capacity)"

definition simulate_input_event ::
  "environment \<Rightarrow> runtime_handle \<Rightarrow> input_event_repr \<Rightarrow> c_bytes
     \<Rightarrow> abi_status + (runtime_simulation_error + block_execution)" where
  "simulate_input_event env h event source =
     result_bind (decode_block_id (ie_block_id event)) (\<lambda>x.
     result_bind (decode_endpoint_name (ie_endpoint event)) (\<lambda>e.
     result_bind (decode_value (ie_value event)) (\<lambda>v.
     result_bind (ok_or AbiUnknownBlock (find_block (rh_runtime h) x)) (\<lambda>b.
     let snapshot = block_snapshot_at (ie_monotonic_ms event) b;
         inputs = map simulation_input_from_snapshot (bsn_inputs snapshot)
     in case position (\<lambda>i. si_endpoint i = e) inputs of
          None \<Rightarrow> Inl AbiUnknownEndpoint
        | Some k \<Rightarrow>
            let inputs = inputs[k := (inputs ! k)
                  \<lparr>si_value := Some v, si_valid := True, si_age_ms := Some 0\<rparr>];
                scenario = \<lparr>sc_trigger = \<lparr>sim_endpoint = e, sim_value = v,
                    sim_previous = Option.bind (find (\<lambda>i. is_endpoint i = e) (bsn_inputs snapshot)) is_value\<rparr>,
                  sc_inputs = inputs\<rparr>
            in if sl_length source = 0 \<and> sl_pointer source = None
               then Inr (runtime_simulate_input env (rh_runtime h) x scenario)
               else result_bind (decode_source source) (\<lambda>s.
                 Inr (runtime_simulate_input_with_source env (rh_runtime h) x s scenario
                   (bsn_state snapshot) (bsn_pending_timers snapshot) (ie_monotonic_ms event)))))))"

text \<open>The pointer checks of a simulation; the handle is read only.\<close>

definition logiksmith_runtime_simulate_input ::
  "environment \<Rightarrow> runtime_handle option \<Rightarrow> input_event_repr option \<Rightarrow> c_bytes
     \<Rightarrow> effect_repr list option \<Rightarrow> nat \<Rightarrow> bool \<Rightarrow> effect_call" where
  "logiksmith_runtime_simulate_input env handle event source effects capacity written_null =
     (if written_null then effect_call AbiNullPointer handle effects None
      else case (handle, event) of
        (Some h, Some ev) \<Rightarrow>
          if max_effects < capacity then effect_call AbiInvalidLength handle effects (Some 0)
          else if 0 < capacity \<and> effects = None
            then effect_call AbiNullPointer handle effects (Some 0)
          else
            (case simulate_input_event env h ev source of
               Inl st \<Rightarrow> effect_call st handle effects (Some 0)
             | Inr r \<Rightarrow>
                 (case simulated_effects r effects capacity of
                    (st, effects, n) \<Rightarrow> effect_call st handle effects (Some n)))
      | _ \<Rightarrow> effect_call AbiNullPointer handle effects (Some 0))"

definition simulate_timer_event ::
  "environment \<Rightarrow> runtime_handle \<Rightarrow> c_bytes \<Rightarrow> c_bytes \<Rightarrow> u64 \<Rightarrow> c_bytes
     \<Rightarrow> abi_status + (runtime_simulation_error + block_execution)" where
  "simulate_timer_event env h block timer fired_at source =
     result_bind (decode_block_id block) (\<lambda>x.
     result_bind (decode_timer_name timer) (\<lambda>name.
     result_bind (ok_or AbiUnknownBlock (find_block (rh_runtime h) x)) (\<lambda>b.
     let snapshot = block_snapshot_at fired_at b
     in if name \<notin> pt_name ` set (bsn_pending_timers snapshot) then Inl AbiUnknownTimer
        else
          let scenario = \<lparr>tsc_timer = name, tsc_fired_at = fired_at,
                tsc_inputs = map simulation_input_from_snapshot (bsn_inputs snapshot),
                tsc_state = bsn_state snapshot,
                tsc_pending_timers = bsn_pending_timers snapshot\<rparr>
          in if sl_length source = 0 \<and> sl_pointer source = None
             then Inr (runtime_simulate_timer env (rh_runtime h) x scenario)
             else result_bind (decode_source source) (\<lambda>s.
               Inr (runtime_simulate_timer_with_source env (rh_runtime h) x s scenario)))))"

definition logiksmith_runtime_simulate_timer ::
  "environment \<Rightarrow> runtime_handle option \<Rightarrow> c_bytes \<Rightarrow> c_bytes \<Rightarrow> u64 \<Rightarrow> c_bytes
     \<Rightarrow> effect_repr list option \<Rightarrow> nat \<Rightarrow> bool \<Rightarrow> effect_call" where
  "logiksmith_runtime_simulate_timer env handle block timer fired_at source effects capacity written_null =
     (if written_null then effect_call AbiNullPointer handle effects None
      else if 0 < capacity \<and> effects = None then effect_call AbiNullPointer handle effects (Some 0)
      else case handle of
        None \<Rightarrow> effect_call AbiNullPointer handle effects (Some 0)
      | Some h \<Rightarrow>
          if max_effects < capacity then effect_call AbiInvalidLength handle effects (Some 0)
          else
            (case simulate_timer_event env h block timer fired_at source of
               Inl st \<Rightarrow> effect_call st handle effects (Some 0)
             | Inr r \<Rightarrow>
                 (case simulated_effects r effects capacity of
                    (st, effects, n) \<Rightarrow> effect_call st handle effects (Some n))))"

end
