(* ===== verification/Abi_Management.thy ===== *)
theory Abi_Management
  imports Abi_Operations
begin

text \<open>
  The management operations of the C interface: activation under expected revisions, resuming, and
  the projections of the runtime and its blocks into fixed records.
\<close>

subsection \<open>Activation\<close>

record activation_repr =
  av_block_id :: c_bytes
  av_source :: c_bytes
  av_has_source :: u8
  av_enabled :: u8
  av_has_enabled :: u8
  av_reserved :: u8
  av_expected_document_revision :: u64
  av_expected_structural_revision :: u64
  av_expected_block_revision :: u64

record activation_result_repr =
  arr_block_id :: rstring
  arr_block_id_len :: u16
  arr_logic_revision :: u64
  arr_document_revision :: u64
  arr_structural_revision :: u64
  arr_enabled :: u8
  arr_source_changed :: u8
  arr_enabled_changed :: u8
  arr_cancelled_timer_count :: nat

definition default_activation_result :: activation_result_repr where
  "default_activation_result =
     \<lparr>arr_block_id = empty_identifier, arr_block_id_len = 0, arr_logic_revision = 0,
      arr_document_revision = 0, arr_structural_revision = 0, arr_enabled = 0,
      arr_source_changed = 0, arr_enabled_changed = 0, arr_cancelled_timer_count = 0\<rparr>"

definition u8_of_bool :: "bool \<Rightarrow> u8" where
  "u8_of_bool b = (if b then 1 else 0)"

text \<open>An expected revision of zero is no expectation.\<close>

definition check_revision :: "u64 \<Rightarrow> u64 \<Rightarrow> abi_status + unit" where
  "check_revision current expected =
     (if expected \<noteq> 0 \<and> expected \<noteq> current then Inl AbiRevisionConflict else Inr ())"

definition activation_flags_ok :: "activation_repr \<Rightarrow> bool" where
  "activation_flags_ok a \<longleftrightarrow>
     \<not> (av_reserved a \<noteq> 0 \<or> 1 < av_has_source a \<or> 1 < av_has_enabled a
        \<or> av_has_enabled a = 1 \<and> 1 < av_enabled a
        \<or> av_has_source a = 0 \<and> av_has_enabled a = 0)"

text \<open>Everything up to the activation itself: the update that it will perform.\<close>

definition decode_activation ::
  "runtime_handle \<Rightarrow> activation_repr \<Rightarrow> abi_status + block_activation" where
  "decode_activation h a =
     (if \<not> activation_flags_ok a then Inl AbiInvalidConfiguration
      else
        result_bind (check_revision (rh_document_revision h) (av_expected_document_revision a)) (\<lambda>_.
        result_bind (check_revision (rh_structural_revision h) (av_expected_structural_revision a)) (\<lambda>_.
        result_bind (decode_block_id (av_block_id a)) (\<lambda>x.
        result_bind (ok_or AbiUnknownBlock (find_block (rh_runtime h) x)) (\<lambda>b.
        result_bind
          (check_revision (active_logic_revision (lb_engine b)) (av_expected_block_revision a)) (\<lambda>_.
        result_bind
          (if av_has_source a = 1 then result_bind (decode_source (av_source a)) (\<lambda>s. Inr (Some s))
           else Inr None) (\<lambda>source.
        Inr \<lparr>ba_block_id = x, ba_source = source,
             ba_enabled = (if av_has_enabled a = 1 then Some (av_enabled a \<noteq> 0) else None)\<rparr>)))))))"

text \<open>The record of one applied update, under the revisions of the handle after it.\<close>

definition write_activation_result ::
  "runtime_handle \<Rightarrow> block_activation_result \<Rightarrow> activation_result_repr
     \<Rightarrow> (abi_status + unit) \<times> activation_result_repr" where
  "write_activation_result h b slot =
     (case copy_identifier (block_str (bar_block_id b)) of
        Inl st \<Rightarrow> (Inl st, slot)
      | Inr (bytes, len) \<Rightarrow>
          (Inr (),
           \<lparr>arr_block_id = bytes, arr_block_id_len = len, arr_logic_revision = bar_logic_revision b,
            arr_document_revision = rh_document_revision h,
            arr_structural_revision = rh_structural_revision h,
            arr_enabled = u8_of_bool (bar_enabled b),
            arr_source_changed = u8_of_bool (bar_source_changed b),
            arr_enabled_changed = u8_of_bool (bar_enabled_changed b),
            arr_cancelled_timer_count = length (bar_cancelled_timers b)\<rparr>))"

record activation_call =
  acl_status :: abi_status
  acl_handle :: "runtime_handle option"
  acl_result :: "activation_result_repr option" \<comment> \<open>\<open>None\<close> when the slot is null\<close>

definition activation_call ::
  "abi_status \<Rightarrow> runtime_handle option \<Rightarrow> activation_result_repr option \<Rightarrow> activation_call" where
  "activation_call st handle slot = \<lparr>acl_status = st, acl_handle = handle, acl_result = slot\<rparr>"

definition activate_handle ::
  "environment \<Rightarrow> runtime_handle \<Rightarrow> block_activation \<Rightarrow> activation_call" where
  "activate_handle env h update =
     (case activate env [update] (rh_runtime h) of
        (Inl _, rt) \<Rightarrow>
          activation_call AbiInvalidSource (Some (h\<lparr>rh_runtime := rt\<rparr>)) (Some default_activation_result)
      | (Inr [], rt) \<Rightarrow>
          activation_call AbiInvalidConfiguration (Some (h\<lparr>rh_runtime := rt\<rparr>))
            (Some default_activation_result)
      | (Inr (b # _), rt) \<Rightarrow>
          let h = h\<lparr>rh_runtime := rt\<rparr> in
          case (if bar_source_changed b \<or> bar_enabled_changed b
                then map_option (\<lambda>revision. h\<lparr>rh_document_revision := revision\<rparr>)
                  (checked_add_word (rh_document_revision h) 1)
                else Some h) of
            None \<Rightarrow> activation_call AbiRuntimeLimit (Some h) (Some default_activation_result)
          | Some h \<Rightarrow>
              (case write_activation_result h b default_activation_result of
                 (Inl st, slot) \<Rightarrow> activation_call st (Some h) (Some slot)
               | (Inr _, slot) \<Rightarrow> activation_call AbiOk (Some h) (Some slot)))"

definition logiksmith_runtime_activate ::
  "environment \<Rightarrow> runtime_handle option \<Rightarrow> activation_repr option \<Rightarrow> bool \<Rightarrow> activation_call" where
  "logiksmith_runtime_activate env handle activation result_null =
     (if result_null then activation_call AbiNullPointer handle None
      else case (handle, activation) of
        (Some h, Some a) \<Rightarrow>
          (case decode_activation h a of
             Inl st \<Rightarrow> activation_call st handle (Some default_activation_result)
           | Inr update \<Rightarrow> activate_handle env h update)
      | _ \<Rightarrow> activation_call AbiNullPointer handle (Some default_activation_result))"

definition logiksmith_runtime_set_enabled ::
  "environment \<Rightarrow> runtime_handle option \<Rightarrow> c_bytes \<Rightarrow> u8 \<Rightarrow> u64 \<Rightarrow> u64 \<Rightarrow> u64 \<Rightarrow> bool
     \<Rightarrow> activation_result_repr option \<Rightarrow> activation_call" where
  "logiksmith_runtime_set_enabled env handle block enabled document structural revision result_null slot =
     (if 1 < enabled then activation_call AbiInvalidValue handle slot
      else logiksmith_runtime_activate env handle
        (Some \<lparr>av_block_id = block, av_source = \<lparr>sl_pointer = None, sl_length = 0\<rparr>,
           av_has_source = 0, av_enabled = enabled, av_has_enabled = 1, av_reserved = 0,
           av_expected_document_revision = document,
           av_expected_structural_revision = structural,
           av_expected_block_revision = revision\<rparr>) result_null)"

definition logiksmith_runtime_resume ::
  "runtime_handle option \<Rightarrow> c_bytes \<Rightarrow> u64 \<Rightarrow> u64 \<Rightarrow> u64 \<Rightarrow> abi_status \<times> runtime_handle option" where
  "logiksmith_runtime_resume handle block document structural revision =
     (case handle of
        None \<Rightarrow> (AbiNullPointer, None)
      | Some h \<Rightarrow>
          (case
             result_bind (check_revision (rh_document_revision h) document) (\<lambda>_.
             result_bind (check_revision (rh_structural_revision h) structural) (\<lambda>_.
             result_bind (decode_block_id block) (\<lambda>x.
             result_bind (ok_or AbiUnknownBlock (find_block (rh_runtime h) x)) (\<lambda>b.
             result_bind (check_revision (active_logic_revision (lb_engine b)) revision) (\<lambda>_.
             Inr x))))) of
             Inl st \<Rightarrow> (st, handle)
           | Inr x \<Rightarrow>
               (case resume_block x (rh_runtime h) of
                  (Inl _, rt) \<Rightarrow> (AbiUnknownBlock, Some (h\<lparr>rh_runtime := rt\<rparr>))
                | (Inr _, rt) \<Rightarrow> (AbiOk, Some (h\<lparr>rh_runtime := rt\<rparr>)))))"

subsection \<open>Projections\<close>

record runtime_projection_repr =
  rp_document_revision :: u64
  rp_structural_revision :: u64
  rp_last_accepted_ms :: u64
  rp_has_last_accepted :: u8
  rp_usage :: runtime_usage

definition logiksmith_runtime_project ::
  "runtime_handle option \<Rightarrow> bool \<Rightarrow> abi_status \<times> runtime_projection_repr option" where
  "logiksmith_runtime_project handle result_null =
     (case handle of
        None \<Rightarrow> (AbiNullPointer, None)
      | Some h \<Rightarrow>
          if result_null then (AbiNullPointer, None)
          else
            let latest = rt_last_accepted_at (rh_runtime h)
            in (AbiOk, Some
                 \<lparr>rp_document_revision = rh_document_revision h,
                  rp_structural_revision = rh_structural_revision h,
                  rp_last_accepted_ms = (case latest of None \<Rightarrow> 0 | Some now \<Rightarrow> now),
                  rp_has_last_accepted = u8_of_bool (latest \<noteq> None),
                  rp_usage = usage (rh_runtime h)\<rparr>))"

record timer_repr =
  tr_name :: rstring
  tr_name_len :: u16
  tr_scheduled_at :: u64
  tr_due_at :: u64
  tr_scheduled_logic_revision :: u64

record input_repr =
  ir_endpoint :: rstring
  ir_endpoint_len :: u16
  ir_valid :: u8
  ir_value :: value_repr
  ir_age_ms :: u64

record block_projection_repr =
  bp_block_id :: rstring
  bp_block_id_len :: u16
  bp_health :: u8
  bp_enabled :: u8
  bp_logic_revision :: u64
  bp_consecutive_failures :: u32
  bp_input_count :: nat
  bp_timer_count :: nat
  bp_inputs :: "input_repr list"
  bp_timers :: "timer_repr list"

definition default_timer_repr :: timer_repr where
  "default_timer_repr =
     \<lparr>tr_name = empty_identifier, tr_name_len = 0, tr_scheduled_at = 0, tr_due_at = 0,
      tr_scheduled_logic_revision = 0\<rparr>"

definition default_input_repr :: input_repr where
  "default_input_repr =
     \<lparr>ir_endpoint = empty_identifier, ir_endpoint_len = 0, ir_valid = 0,
      ir_value = default_value_repr, ir_age_ms = 0\<rparr>"

definition default_block_projection :: block_projection_repr where
  "default_block_projection =
     \<lparr>bp_block_id = empty_identifier, bp_block_id_len = 0, bp_health = 0, bp_enabled = 0,
      bp_logic_revision = 0, bp_consecutive_failures = 0, bp_input_count = 0, bp_timer_count = 0,
      bp_inputs = replicate max_inputs_per_block default_input_repr,
      bp_timers = replicate max_timers_per_block default_timer_repr\<rparr>"

fun health_code :: "block_health \<Rightarrow> u8" where
  "health_code Disabled = 0"
| "health_code Active = 1"
| "health_code SuspendedScriptFailures = 2"
| "health_code SuspendedEventRate = 3"

definition input_repr_of :: "input_snapshot \<Rightarrow> abi_status + input_repr" where
  "input_repr_of i =
     result_bind (copy_identifier (endpoint_str (is_endpoint i))) (\<lambda>(bytes, len).
     Inr \<lparr>ir_endpoint = bytes, ir_endpoint_len = len, ir_valid = u8_of_bool (is_valid i),
          ir_value = (case is_value i of None \<Rightarrow> default_value_repr | Some v \<Rightarrow> encode_value v),
          ir_age_ms = (case is_age_ms i of None \<Rightarrow> 0 | Some age \<Rightarrow> age)\<rparr>)"

definition timer_repr_of :: "pending_timer \<Rightarrow> abi_status + timer_repr" where
  "timer_repr_of t =
     result_bind (copy_identifier (timer_str (pt_name t))) (\<lambda>(bytes, len).
     Inr \<lparr>tr_name = bytes, tr_name_len = len, tr_scheduled_at = pt_scheduled_at t,
          tr_due_at = pt_due_at t, tr_scheduled_logic_revision = pt_scheduled_logic_revision t\<rparr>)"

text \<open>The loops over the fixed arrays: a slot past the end would panic.\<close>

fun write_slots :: "('a \<Rightarrow> abi_status + 'r) \<Rightarrow> 'a list \<Rightarrow> 'r list \<Rightarrow> (abi_status + unit) \<times> 'r list" where
  "write_slots f [] slots = (Inr (), slots)"
| "write_slots f (x # xs) slots =
     (case f x of
        Inl st \<Rightarrow> (Inl st, slots)
      | Inr r \<Rightarrow>
          (case slots of
             [] \<Rightarrow> (Inl AbiPanic, [])
           | _ # slots \<Rightarrow>
               (case write_slots f xs slots of (res, slots) \<Rightarrow> (res, r # slots))))"

record block_projection_call =
  bpc_status :: abi_status
  bpc_result :: "block_projection_repr option"
  bpc_written :: "nat option"

definition project_snapshot ::
  "block_snapshot \<Rightarrow> (abi_status + unit) \<times> block_projection_repr" where
  "project_snapshot snapshot =
     (case copy_identifier (block_str (bsn_id snapshot)) of
        Inl st \<Rightarrow> (Inl st, default_block_projection)
      | Inr (bytes, len) \<Rightarrow>
          let p = default_block_projection
            \<lparr>bp_block_id := bytes, bp_block_id_len := len, bp_health := health_code (bsn_health snapshot),
             bp_enabled := u8_of_bool (bsn_enabled snapshot),
             bp_logic_revision := bsn_logic_revision snapshot,
             bp_consecutive_failures := bsn_consecutive_failures snapshot,
             bp_input_count := length (bsn_inputs snapshot),
             bp_timer_count := length (bsn_pending_timers snapshot)\<rparr>
          in case write_slots input_repr_of (bsn_inputs snapshot) (bp_inputs p) of
               (Inl st, slots) \<Rightarrow> (Inl st, p\<lparr>bp_inputs := slots\<rparr>)
             | (Inr _, slots) \<Rightarrow>
                 let p = p\<lparr>bp_inputs := slots\<rparr>
                 in case write_slots timer_repr_of (bsn_pending_timers snapshot) (bp_timers p) of
                      (r, slots) \<Rightarrow> (r, p\<lparr>bp_timers := slots\<rparr>))"

definition logiksmith_runtime_project_block ::
  "runtime_handle option \<Rightarrow> c_bytes \<Rightarrow> block_projection_repr option \<Rightarrow> bool \<Rightarrow> block_projection_call"
  where
  "logiksmith_runtime_project_block handle block result written_null =
     (let call = (\<lambda>st result written. \<lparr>bpc_status = st, bpc_result = result, bpc_written = written\<rparr>) in
      case handle of
        None \<Rightarrow> call AbiNullPointer result None
      | Some h \<Rightarrow>
          if written_null then call AbiNullPointer result None
          else
            (case result_bind (decode_block_id block) (\<lambda>x.
                    ok_or AbiUnknownBlock (find_block (rh_runtime h) x)) of
               Inl st \<Rightarrow> call st result (Some 0)
             | Inr b \<Rightarrow>
                 let snapshot = block_snapshot_at
                       (case rt_last_accepted_at (rh_runtime h) of None \<Rightarrow> 0 | Some now \<Rightarrow> now) b
                 in if max_inputs_per_block < length (bsn_inputs snapshot)
                       \<or> max_timers_per_block < length (bsn_pending_timers snapshot)
                    then call AbiRuntimeLimit result
                      (Some (length (bsn_inputs snapshot) + length (bsn_pending_timers snapshot)))
                    else if result = None then call AbiBufferTooSmall None (Some 1)
                    else
                      (case project_snapshot snapshot of
                         (Inl st, p) \<Rightarrow> call st (Some p) (Some 0)
                       | (Inr _, p) \<Rightarrow> call AbiOk (Some p) (Some 1))))"

end
