(* ===== verification/Abi_Correctness.thy ===== *)
theory Abi_Correctness
  imports Abi_Management Runtime_Correctness
begin

text \<open>
  What the C interface guarantees to its host: every call refines operations of the core, an input
  is processed as a transaction, and the fixed records carry the values of the core.
\<close>

subsection \<open>Handles refine runtimes\<close>

text \<open>One call on a handle; simulations and projections leave it alone.\<close>

inductive abi_reachable :: "runtime_config \<Rightarrow> runtime_limits \<Rightarrow> runtime_handle \<Rightarrow> bool"
  for config limits where
  abi_start: "runtime_try_new_with_limits env config limits = Inr rt \<Longrightarrow>
    abi_reachable config limits \<lparr>rh_runtime = rt, rh_document_revision = d, rh_structural_revision = s\<rparr>"
| abi_input: "abi_reachable config limits h \<Longrightarrow>
    fc_handle (logiksmith_runtime_process_input env (Some h) event effects capacity wn) = Some h' \<Longrightarrow>
    abi_reachable config limits h'"
| abi_timer: "abi_reachable config limits h \<Longrightarrow>
    fc_handle (logiksmith_runtime_process_due_timer env (Some h) now effects capacity wn) = Some h' \<Longrightarrow>
    abi_reachable config limits h'"
| abi_activate: "abi_reachable config limits h \<Longrightarrow>
    acl_handle (logiksmith_runtime_activate env (Some h) activation rn) = Some h' \<Longrightarrow>
    abi_reachable config limits h'"
| abi_resume: "abi_reachable config limits h \<Longrightarrow>
    logiksmith_runtime_resume (Some h) block d s r = (st, Some h') \<Longrightarrow> abi_reachable config limits h'"

lemma effect_call_fields [simp]:
  "fc_status (effect_call st handle effects written) = st"
  "fc_handle (effect_call st handle effects written) = handle"
  "fc_effects (effect_call st handle effects written) = effects"
  "fc_written (effect_call st handle effects written) = written"
  by (simp_all add: effect_call_def)

lemma activation_call_fields [simp]:
  "acl_status (activation_call st handle slot) = st"
  "acl_handle (activation_call st handle slot) = handle"
  "acl_result (activation_call st handle slot) = slot"
  by (simp_all add: activation_call_def)

text \<open>The runtime of a handle after a call is that before it or behind one operation of the core.\<close>

lemma process_input_event_runtime:
  assumes "fc_handle (process_input_event env h event effects capacity) = Some h'"
  shows "rh_runtime h' = rh_runtime h \<or> live_step (rh_runtime h) (rh_runtime h')"
proof -
  have "live_step (rh_runtime h) rt" if "process_input_cascade env x e v now (rh_runtime h) = (r, rt)"
    for x e v now r rt
    using live_step.event [of env "InputNow x e v now" "rh_runtime h" r rt] that by simp
  with assms show ?thesis
    by (auto simp: process_input_event_def Let_def split: sum.splits prod.splits if_splits)
qed

lemma process_input_runtime:
  assumes "fc_handle (logiksmith_runtime_process_input env (Some h) event effects capacity wn) = Some h'"
  shows "rh_runtime h' = rh_runtime h \<or> live_step (rh_runtime h) (rh_runtime h')"
  using assms process_input_event_runtime
  by (auto simp: logiksmith_runtime_process_input_def split: if_splits option.splits)

lemma process_due_timer_runtime:
  assumes "fc_handle (logiksmith_runtime_process_due_timer env (Some h) now effects capacity wn) = Some h'"
  shows "rh_runtime h' = rh_runtime h \<or> live_step (rh_runtime h) (rh_runtime h')"
proof -
  have "live_step (rh_runtime h) rt" if "process_next_due_timer_cascade env now (rh_runtime h) = (r, rt)"
    for r rt
    using live_step.event [of env "TimerNow now" "rh_runtime h" r rt] that by simp
  with assms show ?thesis
    by (auto simp: logiksmith_runtime_process_due_timer_def process_runtime_operation_def
        split: sum.splits prod.splits if_splits)
qed

lemma activate_handle_runtime:
  assumes "acl_handle (activate_handle env h update) = Some h'"
  shows "live_step (rh_runtime h) (rh_runtime h')"
proof -
  obtain r rt where run: "activate env [update] (rh_runtime h) = (r, rt)" by fastforce
  have "rh_runtime h' = rt"
    using assms run
    by (auto simp: activate_handle_def Let_def split: sum.splits list.splits option.splits if_splits prod.splits)
  with live_step.activate [OF run] show ?thesis by simp
qed

lemma activate_runtime:
  assumes "acl_handle (logiksmith_runtime_activate env (Some h) activation rn) = Some h'"
  shows "rh_runtime h' = rh_runtime h \<or> live_step (rh_runtime h) (rh_runtime h')"
  using assms activate_handle_runtime
  by (auto simp: logiksmith_runtime_activate_def split: if_splits option.splits sum.splits)

lemma resume_runtime:
  assumes "logiksmith_runtime_resume (Some h) block d s r = (st, Some h')"
  shows "rh_runtime h' = rh_runtime h \<or> live_step (rh_runtime h) (rh_runtime h')"
  using assms live_step.resume
  by (fastforce simp: logiksmith_runtime_resume_def split: sum.splits prod.splits)

lemma abi_runtime_reachable:
  assumes "abi_reachable config limits h"
  shows "runtime_reachable config limits (rh_runtime h)"
  using assms
proof induction
  case (abi_start env rt d s)
  then show ?case using runtime_reachable.start by simp
next
  case (abi_input h env event effects capacity wn h')
  with process_input_runtime [OF abi_input.hyps(2)] show ?case
    by (auto intro: runtime_reachable.step runtime_step.live)
next
  case (abi_timer h env now effects capacity wn h')
  with process_due_timer_runtime [OF abi_timer.hyps(2)] show ?case
    by (auto intro: runtime_reachable.step runtime_step.live)
next
  case (abi_activate h env activation rn h')
  with activate_runtime [OF abi_activate.hyps(2)] show ?case
    by (auto intro: runtime_reachable.step runtime_step.live)
next
  case (abi_resume h block d s r st h')
  with resume_runtime [OF abi_resume.hyps(2)] show ?case
    by (auto intro: runtime_reachable.step runtime_step.live)
qed

text \<open>
  C17. The C interface refines the core: whatever sequence of calls a host makes on a handle, the
  runtime behind it is one that the operations of the core reach from the handle's configuration, so
  that it satisfies their invariant.
\<close>

theorem abi_refines_core:
  assumes "abi_reachable config limits h"
  shows "runtime_reachable config limits (rh_runtime h) \<and> runtime_ok config limits (rh_runtime h)"
  using abi_runtime_reachable [OF assms] runtime_reachableD(3) by blast

subsection \<open>Effects and their records\<close>

definition effect_record :: "block_id \<Rightarrow> output_effect \<Rightarrow> effect_repr" where
  "effect_record x out =
     \<lparr>fx_block_id = block_str x @ replicate (max_identifier_bytes - length (block_str x)) nul,
      fx_block_id_len = of_nat (length (block_str x)),
      fx_endpoint = endpoint_str (oe_endpoint out)
        @ replicate (max_identifier_bytes - length (endpoint_str (oe_endpoint out))) nul,
      fx_endpoint_len = of_nat (length (endpoint_str (oe_endpoint out))),
      fx_value = encode_value (oe_value out)\<rparr>"

definition names_fit :: "block_id \<Rightarrow> output_effect \<Rightarrow> bool" where
  "names_fit x out \<longleftrightarrow>
     length (block_str x) \<le> max_identifier_bytes
     \<and> length (endpoint_str (oe_endpoint out)) \<le> max_identifier_bytes"

text \<open>The outputs of the executions in order, with their blocks.\<close>

definition execution_outputs :: "block_execution \<Rightarrow> (block_id \<times> output_effect) list" where
  "execution_outputs bx =
     (case ex_outcome (bx_execution bx) of
        Inl _ \<Rightarrow> [] | Inr tr \<Rightarrow> map (Pair (bx_block_id bx)) (tr_outputs tr))"

definition emitted :: "block_execution list \<Rightarrow> (block_id \<times> output_effect) list" where
  "emitted bxs = concat (map execution_outputs bxs)"

definition succeeded :: "block_execution \<Rightarrow> bool" where
  "succeeded bx \<longleftrightarrow> is_ok (ex_outcome (bx_execution bx))"

abbreviation effect_records :: "block_execution list \<Rightarrow> effect_repr list" where
  "effect_records bxs \<equiv> map (\<lambda>(x, out). effect_record x out) (emitted bxs)"

lemma emitted_simps [simp]:
  "emitted [] = []" "emitted (bx # bxs) = execution_outputs bx @ emitted bxs"
  by (simp_all add: emitted_def)

lemma count_effects_eq:
  "count_effects bxs = (if list_all succeeded bxs then Inr (length (emitted bxs)) else Inl AbiLogicError)"
  by (induction bxs) (auto simp: succeeded_def execution_outputs_def split: sum.splits)

lemma effect_record_overwrites:
  "r\<lparr>fx_block_id := a, fx_block_id_len := b, fx_endpoint := c, fx_endpoint_len := d, fx_value := e\<rparr>
     = \<lparr>fx_block_id = a, fx_block_id_len = b, fx_endpoint = c, fx_endpoint_len = d, fx_value = e\<rparr>"
  by (cases r) simp

lemma write_effect_cases:
  "write_effect x out index dest =
     (if index < length dest \<and> names_fit x out
      then (Inr (), dest[index := effect_record x out]) else (Inl AbiInvalidLength, snd (write_effect x out index dest)))"
  by (auto simp: write_effect_def copy_identifier_def names_fit_def effect_record_def Let_def
      effect_record_overwrites)

lemma write_outputs_spec:
  "case write_outputs x outs index dest of
     (Inl st, dest') \<Rightarrow> st = AbiInvalidLength \<and> length dest' = length dest
       \<and> \<not> (index + length outs \<le> length dest \<and> (\<forall>out \<in> set outs. names_fit x out))
   | (Inr k, dest') \<Rightarrow> k = index + length outs \<and> length dest' = length dest
       \<and> (index \<le> length dest \<longrightarrow> k \<le> length dest)
       \<and> dest' = take index dest @ map (effect_record x) outs @ drop k dest"
proof (induction outs arbitrary: index dest)
  case Nil
  then show ?case by simp
next
  case (Cons out outs)
  show ?case
  proof (cases "index < length dest \<and> names_fit x out")
    case True
    then have step: "write_effect x out index dest = (Inr (), dest[index := effect_record x out])"
      using write_effect_cases [where x = x and out = out and index = index and dest = dest] by simp
    have head: "take (Suc index) (dest[index := effect_record x out])
        = take index dest @ [effect_record x out]"
      using True by (simp add: take_Suc_conv_app_nth)
    from Cons.IH [where index = "Suc index" and dest = "dest[index := effect_record x out]"] True step head
    show ?thesis by (auto split: sum.splits prod.splits)
  next
    case False
    then obtain dest' where "write_effect x out index dest = (Inl AbiInvalidLength, dest')"
      using write_effect_cases [where x = x and out = out and index = index and dest = dest] by metis
    moreover from this have "length dest' = length dest"
      by (auto simp: write_effect_def Let_def split: if_splits sum.splits)
    ultimately show ?thesis using False by auto
  qed
qed

definition all_fit :: "block_execution list \<Rightarrow> bool" where
  "all_fit bxs \<longleftrightarrow> (\<forall>p \<in> set (emitted bxs). names_fit (fst p) (snd p))"

lemma all_fit_Cons:
  "ex_outcome (bx_execution bx) = Inr tr \<Longrightarrow> all_fit (bx # bxs) \<longleftrightarrow>
     (\<forall>out \<in> set (tr_outputs tr). names_fit (bx_block_id bx) out) \<and> all_fit bxs"
  by (simp add: all_fit_def execution_outputs_def ball_Un)

lemma write_effects_spec:
  assumes "list_all succeeded bxs" and "index \<le> length dest"
  shows "case write_effects bxs index dest of
     (Inl st, dest') \<Rightarrow> st = AbiInvalidLength \<and> length dest' = length dest
       \<and> \<not> (index + length (emitted bxs) \<le> length dest \<and> all_fit bxs)
   | (Inr k, dest') \<Rightarrow> k = index + length (emitted bxs) \<and> length dest' = length dest
       \<and> dest' = take index dest @ effect_records bxs @ drop k dest"
  using assms
proof (induction bxs arbitrary: index dest)
  case Nil
  then show ?case by simp
next
  case (Cons bx bxs)
  obtain tr where tr: "ex_outcome (bx_execution bx) = Inr tr"
    using Cons.prems by (auto simp: succeeded_def is_ok_iff)
  have outs: "execution_outputs bx = map (Pair (bx_block_id bx)) (tr_outputs tr)"
    using tr by (simp add: execution_outputs_def)
  show ?case
  proof (cases "write_outputs (bx_block_id bx) (tr_outputs tr) index dest")
    case (Pair r dest1)
    note first = write_outputs_spec [where x = "bx_block_id bx" and outs = "tr_outputs tr" and index = index and dest = dest,
      unfolded Pair]
    show ?thesis
    proof (cases r)
      case (Inl st)
      with first Pair tr outs all_fit_Cons [OF tr, of bxs] show ?thesis by auto
    next
      case (Inr k)
      with first have k: "k = index + length (tr_outputs tr)" "length dest1 = length dest"
        "dest1 = take index dest @ map (effect_record (bx_block_id bx)) (tr_outputs tr) @ drop k dest"
        by auto
      have fits: "k \<le> length dest" using first Cons.prems(2) Pair Inl_Inr_False by (simp add: Inr)
      let ?new = "take index dest @ map (effect_record (bx_block_id bx)) (tr_outputs tr)"
      have len: "length ?new = k" using k(1) Cons.prems(2) by simp
      have split: "?new @ drop k dest = dest1" using k(3) by simp
      from split [unfolded append_eq_conv_conj [where xs = ?new] len]
      have "take k dest1 = ?new" and rest: "drop k dest1 = drop k dest" by (metis, metis)
      moreover have "drop k' dest1 = drop k' dest" if "k \<le> k'" for k'
      proof -
        have "drop k' dest1 = drop (k' - k) (drop k dest1)" using that by simp
        also have "\<dots> = drop k' dest" unfolding rest using that by simp
        finally show ?thesis .
      qed
      moreover have "write_effects (bx # bxs) index dest = write_effects bxs k dest1"
        using tr Pair Inr by simp
      ultimately show ?thesis
        using Cons.IH [where index = k and dest = dest1] Cons.prems(1) fits k(1,2) outs
          all_fit_Cons [OF tr, of bxs]
        by (cases "write_effects bxs k dest1"; cases "fst (write_effects bxs k dest1)")
          (auto simp: add.assoc)
    qed
  qed
qed

text \<open>The buffer of a call that succeeds: the records first, the rest as it was.\<close>

definition filled :: "block_execution list \<Rightarrow> effect_repr list option \<Rightarrow> effect_repr list option" where
  "filled bxs effects =
     map_option (\<lambda>mem. effect_records bxs @ drop (length (emitted bxs)) mem) effects"

definition buffer_writable :: "effect_repr list option \<Rightarrow> nat \<Rightarrow> bool" where
  "buffer_writable effects capacity \<longleftrightarrow>
     (case effects of None \<Rightarrow> capacity = 0 | Some mem \<Rightarrow> capacity \<le> length mem)"

lemma fill_effects_spec:
  assumes "list_all succeeded bxs" and "buffer_writable effects capacity"
    and "length (emitted bxs) \<le> capacity"
  shows "fill_effects bxs (length (emitted bxs)) effects = (Inr (length (emitted bxs)), filled bxs effects)
    \<or> \<not> all_fit bxs \<and> fst (fill_effects bxs (length (emitted bxs)) effects) = Inl AbiInvalidLength"
proof (cases "length (emitted bxs) = 0")
  case True
  then have "effect_records bxs = []" by simp
  with True show ?thesis by (cases effects) (simp_all add: fill_effects_def filled_def)
next
  case False
  then obtain mem where mem: "effects = Some mem" "length (emitted bxs) \<le> length mem"
    using assms(2,3) by (auto simp: buffer_writable_def split: option.splits)
  obtain r dest where run: "write_effects bxs 0 (take (length (emitted bxs)) mem) = (r, dest)" by fastforce
  from write_effects_spec [OF assms(1), where index = 0 and dest = "take (length (emitted bxs)) mem"]
    run mem False
  show ?thesis
    by (cases r) (auto simp: fill_effects_def filled_def)
qed

subsection \<open>Inputs as transactions\<close>

text \<open>The statuses of the decoders and of rejected events.\<close>

abbreviation outcome_status :: "abi_status \<Rightarrow> bool" where
  "outcome_status st \<equiv> st \<in> {AbiOk, AbiLogicError, AbiOutputBufferTooSmall}"

lemma with_utf8_status:
  assumes "with_utf8 s maximum operation = Inl st" and "\<And>v. operation v = Inl st \<Longrightarrow> \<not> outcome_status st"
  shows "\<not> outcome_status st"
  using assms by (auto simp: with_utf8_def with_bytes_def split: if_splits option.splits)

lemma decode_input_event_status: "decode_input_event event = Inl st \<Longrightarrow> \<not> outcome_status st"
  by (auto simp: decode_input_event_def decode_block_id_def decode_endpoint_name_def decode_value_def
      result_simps dest: with_utf8_status split: if_splits)

lemma status_for_runtime_event_other: "\<not> outcome_status (status_for_runtime_event err)"
  by (cases err) (auto split: event_error.splits)

lemma input_transaction:
  assumes "buffer_writable effects capacity"
    and "call = logiksmith_runtime_process_input env (Some h) (Some event) effects capacity False"
  shows "(\<exists>x e v bxs rt. decode_input_event event = Inr (x, e, v)
        \<and> process_input_cascade env x e v (ie_monotonic_ms event) (rh_runtime h) = (Inr bxs, rt)
        \<and> (fc_status call = AbiOk \<and> list_all succeeded bxs
             \<and> call = effect_call AbiOk (Some (h\<lparr>rh_runtime := rt\<rparr>)) (filled bxs effects)
                 (Some (length (emitted bxs)))
             \<and> length (emitted bxs) \<le> capacity
           \<or> fc_status call = AbiLogicError \<and> \<not> list_all succeeded bxs
             \<and> call = effect_call AbiLogicError (Some (h\<lparr>rh_runtime := rt\<rparr>)) effects (Some 0)
           \<or> fc_status call = AbiOutputBufferTooSmall \<and> list_all succeeded bxs
             \<and> call = effect_call AbiOutputBufferTooSmall (Some h) effects (Some (length (emitted bxs)))
             \<and> capacity < length (emitted bxs)))
    \<or> fc_status call \<notin> {AbiOk, AbiLogicError, AbiOutputBufferTooSmall}
      \<and> fc_handle call = Some h \<and> fc_written call = Some 0"
proof (cases "(0 < capacity \<and> effects = None) \<or> max_effects < capacity")
  case True
  then show ?thesis using assms(2) by (auto simp: logiksmith_runtime_process_input_def)
next
  case False
  then have call: "call = process_input_event env h event effects capacity"
    using assms(2) by (auto simp: logiksmith_runtime_process_input_def)
  show ?thesis
  proof (cases "decode_input_event event")
    case (Inl st)
    moreover have "st \<notin> {AbiOk, AbiLogicError, AbiOutputBufferTooSmall}"
      using decode_input_event_status [OF Inl] .
    ultimately show ?thesis using call by (simp add: process_input_event_def)
  next
    case (Inr t)
    obtain x e v where t: "t = (x, e, v)" by (cases t)
    obtain r rt where run: "process_input_cascade env x e v (ie_monotonic_ms event) (rh_runtime h) = (r, rt)"
      by fastforce
    show ?thesis
    proof (cases r)
      case (Inl err)
      then show ?thesis
        using call Inr t run status_for_runtime_event_other [of err]
        by (simp add: process_input_event_def)
    next
      case bxs: (Inr bxs)
      show ?thesis
      proof (cases "list_all succeeded bxs \<and> length (emitted bxs) \<le> capacity")
        case False
        then show ?thesis
          using call Inr t run bxs by (auto simp: process_input_event_def count_effects_eq Let_def)
      next
        case True
        from fill_effects_spec [OF _ assms(1)] True
        consider (filled) "fill_effects bxs (length (emitted bxs)) effects
            = (Inr (length (emitted bxs)), filled bxs effects)"
          | (unfit) dest where "fill_effects bxs (length (emitted bxs)) effects = (Inl AbiInvalidLength, dest)"
          by (metis prod.collapse)
        then show ?thesis
        proof cases
          case filled
          with call Inr t run bxs True show ?thesis
            by (simp add: process_input_event_def count_effects_eq Let_def not_less)
        next
          case unfit
          with call Inr t run bxs True show ?thesis
            by (simp add: process_input_event_def count_effects_eq Let_def not_less)
        qed
      qed
    qed
  qed
qed

text \<open>
  C18. Processing an input is a transaction towards the host. On success the handle holds the
  runtime after the event's whole cascade, and the caller's buffer the outputs of all its
  executions in order, as many as \<open>written\<close> says, with the rest of the buffer untouched. When the
  buffer is too small, \<open>written\<close> is the size needed and nothing else has changed. When a handler of
  the cascade failed, the event stays accepted and nothing is written. Any other status leaves the
  handle as it was.
\<close>

theorem abi_input_transaction:
  assumes "buffer_writable effects capacity"
    and "call = logiksmith_runtime_process_input env (Some h) (Some event) effects capacity False"
  shows "(\<exists>x e v bxs rt. decode_input_event event = Inr (x, e, v)
        \<and> process_input_cascade env x e v (ie_monotonic_ms event) (rh_runtime h) = (Inr bxs, rt)
        \<and> (fc_status call = AbiOk \<and> list_all succeeded bxs
             \<and> call = effect_call AbiOk (Some (h\<lparr>rh_runtime := rt\<rparr>)) (filled bxs effects)
                 (Some (length (emitted bxs)))
             \<and> length (emitted bxs) \<le> capacity
           \<or> fc_status call = AbiLogicError \<and> \<not> list_all succeeded bxs
             \<and> call = effect_call AbiLogicError (Some (h\<lparr>rh_runtime := rt\<rparr>)) effects (Some 0)
           \<or> fc_status call = AbiOutputBufferTooSmall \<and> list_all succeeded bxs
             \<and> call = effect_call AbiOutputBufferTooSmall (Some h) effects (Some (length (emitted bxs)))
             \<and> capacity < length (emitted bxs)))
    \<or> fc_status call \<notin> {AbiOk, AbiLogicError, AbiOutputBufferTooSmall}
      \<and> fc_handle call = Some h \<and> fc_written call = Some 0"
  by (rule input_transaction [OF assms])

text \<open>Names that the fixed fields of an effect record can hold.\<close>

definition short_names :: "runtime_config \<Rightarrow> bool" where
  "short_names config \<longleftrightarrow>
     (\<forall>c \<in> set (rc_blocks config). length (block_str (bc_id c)) \<le> max_identifier_bytes
        \<and> (\<forall>e \<in> set (bc_endpoints c). length (endpoint_str (ep_name e)) \<le> max_identifier_bytes))"

lemma cascade_all_fit:
  assumes "abi_reachable config limits h" and "short_names config"
    and "handle_event env ev (rh_runtime h) = (Inr bxs, rt)"
  shows "all_fit bxs"
proof -
  have fits: "\<forall>bx \<in> set bxs. execution_fits config bx"
    using reachable_event [OF abi_runtime_reachable [OF assms(1)], of ev env] assms(3)
    by (simp add: cascade_ok_def)
  show ?thesis unfolding all_fit_def
  proof
    fix p assume "p \<in> set (emitted bxs)"
    then obtain bx where bx: "bx \<in> set bxs" "p \<in> set (execution_outputs bx)"
      by (auto simp: emitted_def)
    then obtain tr out where p: "ex_outcome (bx_execution bx) = Inr tr" "out \<in> set (tr_outputs tr)"
      "p = (bx_block_id bx, out)"
      by (cases "ex_outcome (bx_execution bx)") (auto simp: execution_outputs_def)
    obtain c where c: "c \<in> set (rc_blocks config)" "bx_block_id bx = bc_id c"
      "output_effect_ok (bc_endpoints c) out"
      using fits bx(1) p(1,2) by (fastforce simp: execution_fits_def)
    then obtain e where "e \<in> set (bc_endpoints c)" "ep_name e = oe_endpoint out"
      by (auto simp: output_effect_ok_def)
    then show "names_fit (fst p) (snd p)"
      using assms(2) c(1,2) p(3) unfolding short_names_def names_fit_def by (metis fst_conv snd_conv)
  qed
qed

text \<open>Handles created from C arrays have such names: longer ones are not decoded.\<close>

lemma with_utf8_length:
  assumes "with_utf8 s maximum operation = Inr y"
  shows "\<exists>v. length v \<le> maximum \<and> operation v = Inr y"
proof (cases "sl_length s = 0")
  case True
  with assms show ?thesis
    by (intro exI [of _ "[]"]) (simp add: with_utf8_def with_bytes_def split: if_splits)
next
  case False
  with assms obtain mem where "sl_pointer s = Some mem" "operation (take (sl_length s) mem) = Inr y"
    "sl_length s \<le> maximum"
    by (auto simp: with_utf8_def with_bytes_def split: if_splits option.splits)
  then show ?thesis by (intro exI [of _ "take (sl_length s) mem"]) simp
qed

lemma decoded_names_short:
  "decode_block_id s = Inr x \<Longrightarrow> length (block_str x) \<le> max_identifier_bytes"
  "decode_endpoint_name s = Inr e \<Longrightarrow> length (endpoint_str e) \<le> max_identifier_bytes"
  by (auto simp: decode_block_id_def decode_endpoint_name_def block_id_new_def endpoint_name_new_def
      result_simps dest!: with_utf8_length)

lemma decode_endpoints_short:
  assumes "try_fold decode_endpoint endpoints reprs = Inr endpoints'"
    and "\<forall>e \<in> set endpoints. length (endpoint_str (ep_name e)) \<le> max_identifier_bytes"
  shows "\<forall>e \<in> set endpoints'. length (endpoint_str (ep_name e)) \<le> max_identifier_bytes"
  using assms
proof (induction reprs arbitrary: endpoints)
  case (Cons r reprs)
  from Cons.prems(1) obtain endpoints1 where first: "decode_endpoint endpoints r = Inr endpoints1"
    and rest: "try_fold decode_endpoint endpoints1 reprs = Inr endpoints'"
    by (auto simp: result_simps)
  have "\<forall>e \<in> set endpoints1. length (endpoint_str (ep_name e)) \<le> max_identifier_bytes"
    using first Cons.prems(2) by (auto simp: decode_endpoint_def result_simps decoded_names_short split: if_splits)
  with Cons.IH [OF rest] show ?case by blast
qed simp

lemma decode_block_config_short:
  assumes "decode_block_config r = Inr c"
  shows "length (block_str (bc_id c)) \<le> max_identifier_bytes
    \<and> (\<forall>e \<in> set (bc_endpoints c). length (endpoint_str (ep_name e)) \<le> max_identifier_bytes)"
  using assms
  by (auto simp: decode_block_config_def result_simps decoded_names_short
      dest: decode_endpoints_short split: if_splits)

lemma decode_blocks_short:
  assumes "try_fold (\<lambda>blocks r. result_bind (decode_block_config r) (\<lambda>b. Inr (blocks @ [b]))) blocks reprs
      = Inr blocks'"
    and "\<forall>c \<in> set blocks. length (block_str (bc_id c)) \<le> max_identifier_bytes
      \<and> (\<forall>e \<in> set (bc_endpoints c). length (endpoint_str (ep_name e)) \<le> max_identifier_bytes)"
  shows "\<forall>c \<in> set blocks'. length (block_str (bc_id c)) \<le> max_identifier_bytes
      \<and> (\<forall>e \<in> set (bc_endpoints c). length (endpoint_str (ep_name e)) \<le> max_identifier_bytes)"
  using assms
proof (induction reprs arbitrary: blocks)
  case (Cons r reprs)
  from Cons.prems(1) obtain c where first: "decode_block_config r = Inr c"
    and rest: "try_fold (\<lambda>blocks r. result_bind (decode_block_config r) (\<lambda>b. Inr (blocks @ [b])))
      (blocks @ [c]) reprs = Inr blocks'"
    by (auto simp: result_simps)
  show ?case
    by (rule Cons.IH [OF rest]) (use Cons.prems(2) decode_block_config_short [OF first] in auto)
qed simp

lemma created_handle:
  assumes "create_runtime env config = Inr h"
  shows "\<exists>core. abi_reachable core embedded_baseline_limits h \<and> short_names core"
proof -
  obtain reprs blocks rt where
    blocks: "try_fold (\<lambda>blocks r. result_bind (decode_block_config r) (\<lambda>b. Inr (blocks @ [b]))) [] reprs
      = Inr blocks"
    and rt: "runtime_try_new_with_limits env
      \<lparr>rc_blocks = blocks, rc_signals = [], rc_site = default_site\<rparr> embedded_baseline_limits = Inr rt"
    and h: "h = \<lparr>rh_runtime = rt, rh_document_revision = 1, rh_structural_revision = 1\<rparr>"
    using assms by (auto simp: create_runtime_def result_simps split: if_splits)
  have "short_names \<lparr>rc_blocks = blocks, rc_signals = [], rc_site = default_site\<rparr>"
    using decode_blocks_short [OF blocks] by (simp add: short_names_def)
  with abi_start [OF rt] h show ?thesis by blast
qed

text \<open>
  The size that a too small buffer reports is the right one: retried on the same handle with a
  buffer of at least that size, the call succeeds and writes that many records. Only names longer
  than the fixed fields, which a handle created from C arrays cannot have, or more than the 256
  records that a call may ask for stand against it.
\<close>

theorem abi_retry_succeeds:
  assumes "abi_reachable config limits h" and "short_names config" and "buffer_writable effects capacity"
    and "call = logiksmith_runtime_process_input env (Some h) (Some event) effects capacity False"
    and "fc_status call = AbiOutputBufferTooSmall" and "fc_written call = Some n"
    and "buffer_writable effects' capacity'" and "n \<le> capacity'" and "capacity' \<le> max_effects"
    and "retry = logiksmith_runtime_process_input env (fc_handle call) (Some event) effects' capacity' False"
  shows "fc_effects call = effects \<and> fc_status retry = AbiOk \<and> fc_written retry = Some n"
proof -
  from input_transaction [OF assms(3,4)] assms(5,6)
  obtain x e v bxs rt where event: "decode_input_event event = Inr (x, e, v)"
    and run: "process_input_cascade env x e v (ie_monotonic_ms event) (rh_runtime h) = (Inr bxs, rt)"
    and good: "list_all succeeded bxs" and n: "n = length (emitted bxs)"
    and call: "call = effect_call AbiOutputBufferTooSmall (Some h) effects (Some n)"
    by auto
  have fit: "all_fit bxs"
    using cascade_all_fit [OF assms(1,2), of env "InputNow x e v (ie_monotonic_ms event)"] run by simp
  have "retry = process_input_event env h event effects' capacity'"
    using assms(7,9,10) call
    by (auto simp: logiksmith_runtime_process_input_def buffer_writable_def split: option.splits)
  moreover have "fill_effects bxs n effects' = (Inr n, filled bxs effects')"
    using fill_effects_spec [OF good assms(7)] assms(8) fit n by blast
  ultimately show ?thesis
    using event run good n assms(8) call by (simp add: process_input_event_def count_effects_eq Let_def)
qed

text \<open>
  A poll of the timers: the machine and the services of that call, its time, and the caller's buffer. It
  fails when a handler does in what the due timer sets off.
\<close>

type_synonym timer_poll = "environment \<times> monotonic_ms \<times> effect_repr list option \<times> nat"

fun poll_timers ::
  "timer_poll list \<Rightarrow> runtime_handle option \<Rightarrow> abi_status list \<times> runtime_handle option" where
  "poll_timers [] handle = ([], handle)"
| "poll_timers ((env, now, effects, capacity) # polls) handle =
     (let call = logiksmith_runtime_process_due_timer env handle now effects capacity False;
          (sts, handle) = poll_timers polls (fc_handle call)
      in (fc_status call # sts, handle))"

fun timer_fails :: "runtime_handle \<Rightarrow> timer_poll \<Rightarrow> bool" where
  "timer_fails h (env, now, effects, capacity) \<longleftrightarrow>
     (\<exists>bxs rt. process_next_due_timer_cascade env now (rh_runtime h) = (Inr bxs, rt)
        \<and> \<not> list_all succeeded bxs)
     \<and> buffer_writable effects capacity \<and> capacity \<le> max_effects"

text \<open>
  C19. A due timer whose handler keeps failing is never consumed. Over any number of polls in a row, each
  with a time, a buffer and a machine of its own, so that the handler need not fail twice for the same
  reason: as long as every one of them meets a failing handler, every one of them reports a logic error
  and restores the runtime of before. The failures are not counted, the block is never suspended for
  them, and the same timer stays the first one due, so that no later timer of any block fires.
\<close>

theorem failing_timer_starves:
  assumes "\<forall>poll \<in> set polls. timer_fails h poll"
  shows "poll_timers polls (Some h) = (replicate (length polls) AbiLogicError, Some h)"
  using assms
proof (induction polls)
  case (Cons poll polls)
  obtain env now effects capacity where poll: "poll = (env, now, effects, capacity)" by (cases poll)
  have "logiksmith_runtime_process_due_timer env (Some h) now effects capacity False
      = effect_call AbiLogicError (Some h) effects (Some 0)"
    using Cons.prems
    by (auto simp: poll logiksmith_runtime_process_due_timer_def process_runtime_operation_def
        write_execution_effects_def count_effects_eq buffer_writable_def split: option.splits)
  with Cons show ?case by (simp add: poll)
qed simp

subsection \<open>Values\<close>

text \<open>
  C20. Values cross the interface unchanged: a record is accepted exactly when it is the encoding of
  a value of its datapoint type, and then it decodes to that value.
\<close>

theorem abi_values_exact:
  assumes "is_i32 (vr_scalar r)"
  shows "decode_value r = Inr tv \<longleftrightarrow> typed_value_wf tv \<and> encode_value tv = r"
proof
  assume "decode_value r = Inr tv"
  with assms show "typed_value_wf tv \<and> encode_value tv = r"
    by (cases r)
      (auto simp: decode_value_def encode_value_def typed_value_new_def typed_value_wf_def dpt_new_def
        result_simps value_bool_def value_percent_def value_temperature_centi_degrees_def
        word_le_nat_alt uint_word_of_int_eq take_bit_int_eq_self split: if_splits)
next
  assume r: "typed_value_wf tv \<and> encode_value tv = r"
  then have wf: "typed_value_wf tv" and eq: "r = encode_value tv" by simp_all
  have dpt: "dpt_new (dpt_major (tv_dpt tv)) (dpt_subtype (tv_dpt tv)) = Inr (tv_dpt tv)"
    using wf by (auto simp: dpt_new_def typed_value_wf_def dpt_class_defs dpt_const_defs split: knx_value.splits)
  have "map_err (\<lambda>_. AbiInvalidValue) (typed_value_new (tv_dpt tv) (tv_value tv)) = Inr tv"
    using wf by (cases tv) (auto simp: typed_value_new_def typed_value_wf_def split: knx_value.splits)
  moreover have "uint p \<le> 100" if "tv_value tv = VPercent p" for p
    using wf that by (simp add: typed_value_wf_def word_le_def)
  ultimately show "decode_value r = Inr tv"
    unfolding eq
    by (cases "tv_value tv") (auto simp: decode_value_def encode_value_def dpt
        value_bool_def value_percent_def value_temperature_centi_degrees_def)
qed

subsection \<open>Activation\<close>








subsection \<open>Instances\<close>

definition bytes_of :: "rstring \<Rightarrow> c_bytes" where
  "bytes_of s = \<lparr>sl_pointer = Some s, sl_length = length s\<rparr>"

definition switch_event :: input_event_repr where
  "switch_event =
     \<lparr>ie_block_id = bytes_of ''a'', ie_endpoint = bytes_of ''switch'',
      ie_value = encode_value (typed_bool True), ie_source_address = 0x1101,
      ie_group_address = 0x1234, ie_monotonic_ms = 1000\<rparr>"

definition chained_handle :: runtime_handle where
  "chained_handle = \<lparr>rh_runtime = chained_runtime, rh_document_revision = 1, rh_structural_revision = 1\<rparr>"

lemma chained_handle_reachable: "abi_reachable chained_config sample_limits chained_handle"
  unfolding chained_handle_def by (rule abi_start [OF chained_runtime_new])

lemma sample_identifiers:
  "utf8_valid ''a''" "utf8_valid ''switch''" "block_id_new ''a'' = Inr (BlockId ''a'')"
  "endpoint_name_new ''switch'' = Inr (EndpointName ''switch'')"
  by code_simp+

lemma switch_event_decoded:
  "decode_input_event switch_event = Inr (BlockId ''a'', EndpointName ''switch'', typed_bool True)"
proof -
  have "decode_value (encode_value (typed_bool True)) = Inr (typed_bool True)"
    by (simp add: decode_value_def encode_value_def typed_bool_def value_bool_def dpt_new_def
        dpt_bool_def typed_value_new_def is_bool_dpt_def)
  then show ?thesis
    by (simp add: decode_input_event_def switch_event_def bytes_of_def decode_block_id_def
        decode_endpoint_name_def with_utf8_def with_bytes_def sample_identifiers max_identifier_bytes_def
        max_knx_group_address_def)
qed

abbreviation lamp_on :: output_effect where
  "lamp_on \<equiv> \<lparr>oe_endpoint = EndpointName ''lamp'', oe_value = typed_bool True\<rparr>"

lemma switch_event_cascade:
  "\<exists>bxs. process_input_cascade sample_environment (BlockId ''a'') (EndpointName ''switch'') (typed_bool True)
      1000 chained_runtime = (Inr bxs, second_run)
    \<and> list_all succeeded bxs \<and> emitted bxs = [(BlockId ''a'', lamp_on), (BlockId ''b'', lamp_on)]"
proof -
  obtain bxs where run: "handle_event sample_environment switch_on chained_runtime = (Inr bxs, second_run)"
    and ids: "map bx_block_id bxs = [BlockId ''a'', BlockId ''b'']"
    and outcomes: "map (\<lambda>bx. ex_outcome (bx_execution bx)) bxs = [Inr sample_transition, Inr sample_transition]"
    using switch_on_outcomes by (elim exE conjE)
  obtain a b where bxs: "bxs = [a, b]" using ids by (auto simp: map_eq_Cons_conv)
  have "list_all succeeded bxs" using outcomes by (simp add: bxs succeeded_def)
  moreover have "emitted bxs = [(BlockId ''a'', lamp_on), (BlockId ''b'', lamp_on)]"
    using ids outcomes by (simp add: bxs execution_outputs_def sample_transition_def)
  ultimately show ?thesis
    using run by (intro exI [of _ bxs]) (simp add: switch_on_def)
qed

lemma switch_call:
  assumes "buffer_writable effects capacity" and "capacity \<le> max_effects"
  shows "\<exists>bxs. list_all succeeded bxs \<and> emitted bxs = [(BlockId ''a'', lamp_on), (BlockId ''b'', lamp_on)]
    \<and> logiksmith_runtime_process_input sample_environment (Some chained_handle) (Some switch_event) effects
        capacity False
      = (if capacity < 2 then effect_call AbiOutputBufferTooSmall (Some chained_handle) effects (Some 2)
         else case fill_effects bxs 2 effects of
           (Inl st, effects) \<Rightarrow> effect_call st (Some chained_handle) effects (Some 0)
         | (Inr _, effects) \<Rightarrow> effect_call AbiOk (Some (chained_handle\<lparr>rh_runtime := second_run\<rparr>)) effects
             (Some 2))"
proof -
  obtain bxs where bxs: "process_input_cascade sample_environment (BlockId ''a'') (EndpointName ''switch'')
      (typed_bool True) 1000 chained_runtime = (Inr bxs, second_run)"
    "list_all succeeded bxs" "emitted bxs = [(BlockId ''a'', lamp_on), (BlockId ''b'', lamp_on)]"
    using switch_event_cascade by (elim exE conjE)
  have time: "ie_monotonic_ms switch_event = 1000" "rh_runtime chained_handle = chained_runtime"
    by (simp_all add: switch_event_def chained_handle_def)
  have "logiksmith_runtime_process_input sample_environment (Some chained_handle) (Some switch_event) effects
      capacity False
    = process_input_event sample_environment chained_handle switch_event effects capacity"
    using assms by (auto simp: logiksmith_runtime_process_input_def buffer_writable_def split: option.splits)
  with bxs show ?thesis
    by (intro exI [of _ bxs])
      (simp add: process_input_event_def switch_event_decoded time count_effects_eq Let_def flip: numeral_2_eq_2)
qed

theorem abi_refines_core_witness:
  "runtime_ok chained_config sample_limits
     (the (map_option rh_runtime (fc_handle (logiksmith_runtime_process_input sample_environment
        (Some chained_handle) (Some switch_event) None 0 False))))"
proof -
  let ?call = "logiksmith_runtime_process_input sample_environment (Some chained_handle) (Some switch_event) None 0 False"
  have "fc_handle ?call = Some chained_handle"
    using switch_call [of None 0] by (auto simp: buffer_writable_def)
  with abi_refines_core [OF abi_input [OF chained_handle_reachable this]] show ?thesis by simp
qed

theorem abi_input_transaction_witness:
  "fc_status (logiksmith_runtime_process_input sample_environment (Some chained_handle) (Some switch_event)
     None 0 False) = AbiOutputBufferTooSmall
   \<and> (\<exists>bxs :: block_execution list. 0 < length (emitted bxs))"
proof -
  let ?call = "logiksmith_runtime_process_input sample_environment (Some chained_handle) (Some switch_event) None 0 False"
  have small: "fc_status ?call = AbiOutputBufferTooSmall"
    using switch_call [of None 0] by (auto simp: buffer_writable_def)
  have "buffer_writable None 0" by (simp add: buffer_writable_def)
  from abi_input_transaction [OF this refl [of ?call]] small show ?thesis by auto
qed

lemma chained_short_names: "short_names chained_config"
  by (simp add: short_names_def chained_config_def sample_block_def sample_endpoints_def max_identifier_bytes_def)

theorem abi_retry_succeeds_witness:
  "\<exists>call. call = logiksmith_runtime_process_input sample_environment (Some chained_handle)
       (Some switch_event) None 0 False
     \<and> fc_status call = AbiOutputBufferTooSmall \<and> fc_written call = Some 2
     \<and> fc_status (logiksmith_runtime_process_input sample_environment (fc_handle call) (Some switch_event)
         (Some [default_effect, default_effect]) 2 False) = AbiOk"
proof -
  let ?call = "logiksmith_runtime_process_input sample_environment (Some chained_handle) (Some switch_event) None 0 False"
  have small: "buffer_writable None 0" "fc_status ?call = AbiOutputBufferTooSmall" "fc_written ?call = Some 2"
    using switch_call [of None 0] by (auto simp: buffer_writable_def)
  have large: "buffer_writable (Some [default_effect, default_effect]) 2" "(2 :: nat) \<le> max_effects"
    by (simp_all add: buffer_writable_def max_effects_def)
  from abi_retry_succeeds [OF chained_handle_reachable chained_short_names small(1) refl small(2,3) large(1)
      order_refl large(2) refl] small show ?thesis by blast
qed

text \<open>A machine whose handler returns a number, which no transition can be read from.\<close>

definition failing_environment :: environment where
  "failing_environment = \<lparr>env_vm = constant_machine [LInteger 1], env_time = utc_services\<rparr>"

lemma failing_timer_run:
  "\<exists>bxs rt. process_next_due_timer_cascade failing_environment 6000 second_run = (Inr bxs, rt)
    \<and> \<not> list_all succeeded bxs"
proof -
  have fails: "\<exists>e. execute_logic (constant_machine [LInteger 1]) endpoints sample_program snapshots trigger
      state pending now tc sample_limits probe = Inl e" for endpoints snapshots trigger state pending now tc probe
    by (simp add: execute_logic_def Let_def sample_load single_result_def vm_check_def convert_result_def)
      (simp add: constant_machine_def no_error2_def returns_def)
  define eng where "eng = sample_triggered\<lparr>eng_last_accepted_at := Some 6000, eng_pending_timers := []\<rparr>"
  have due: "next_due_timer 6000 (eng_pending_timers sample_triggered) = Some sample_timer"
    by (simp add: next_due_timer_def sample_triggered_def btm_values_def sample_timer_def)
  have ok: "engine_ok sample_triggered"
    using engine_reachable_invariant [OF sample_triggered_reachable] by simp
  obtain r eng' where run: "process_next_due_timer_with_context failing_environment 6000 default_site None None
      sample_triggered = (r, eng')" by fastforce
  have taken: "timer_taken 6000 sample_timer sample_triggered = eng"
    by (simp add: timer_taken_def eng_def sample_triggered_def sample_timer_def btm_remove_def)
  have config: "ec_logic (eng_config eng) = sample_program" "eng_limits eng = sample_limits"
    by (simp_all add: eng_def sample_triggered_def sample_engine_def sample_config_def)
  have commit: "\<exists>ex e. execute_and_commit failing_environment trigger 6000 default_site None None eng = (Inr ex, eng)
      \<and> ex_outcome ex = Inl e" for trigger
  proof -
    obtain e where "execute_logic (env_vm failing_environment) (eng_endpoints eng) (ec_logic (eng_config eng))
        (input_snapshots eng 6000) trigger (eng_state eng) (eng_pending_timers eng) 6000
        (time_context_capture (env_time failing_environment) default_site None) (eng_limits eng) None = Inl e"
      using fails unfolding config failing_environment_def environment.simps by blast
    then show ?thesis
      by (simp add: execute_and_commit_def Let_def execution_with_now_def)
  qed
  obtain ex e where engine: "process_next_due_timer_with_context failing_environment 6000 default_site None None
      sample_triggered = (Inr (Some ex), eng)" "ex_outcome ex = Inl e"
    using ok run
  proof (cases rule: process_next_due_timer_cases)
    case (fired t r')
    then have "execute_and_commit failing_environment (timer_trigger_of 6000 sample_timer) 6000 default_site None
        None eng = (r', eng')" using due taken by simp
    with commit [of "timer_trigger_of 6000 sample_timer"] fired(4) run that show ?thesis by auto
  qed (use due in \<open>auto simp: sample_triggered_def\<close>)
  obtain bx rt where done_run: "finish_execution 0 ex None (set_engine 0 eng admitted_run) = (bx, rt)"
    by fastforce
  let ?b = "(ran_block block_a)\<lparr>lb_live_execution_times := [6000], lb_engine := eng\<rparr>"
  have "\<exists>failures. record_live_execution ex ?b = ?b\<lparr>lb_consecutive_failures := failures\<rparr>"
  proof (cases "counts_as_failure (logic_error_kind_of e)")
    case True
    have "\<not> block_failure_suspension_threshold \<le> 1"
      by (simp add: block_failure_suspension_threshold_def word_le_nat_alt)
    with True engine(2) have "record_live_execution ex ?b = ?b\<lparr>lb_consecutive_failures := 1\<rparr>"
      by (simp add: record_live_execution_def Let_def ran_block_def saturating_add_word_def)
    then show ?thesis by blast
  next
    case False
    with engine(2) have "record_live_execution ex ?b = ?b\<lparr>lb_consecutive_failures := 0\<rparr>"
      by (simp add: record_live_execution_def ran_block_def)
    then show ?thesis by blast
  qed
  then obtain failures where counted: "record_live_execution ex ?b = ?b\<lparr>lb_consecutive_failures := failures\<rparr>"
    by blast
  have failed: "ex_outcome (bx_execution bx) = Inl e"
    and blocks: "rt_blocks rt = [?b\<lparr>lb_consecutive_failures := failures\<rparr>, ran_block block_b]"
      "rt_signals rt = rt_signals second_run" "rt_limits rt = sample_limits"
    using done_run counted engine(2)
    by (auto simp: finish_execution_def assign_execution_id_def Let_def set_engine_def set_block_def
        admitted_run_def second_run_def chained_runtime_eq)
  have usage_ok: "validate_usage (accepted 6000 rt) = Inr ()"
    by (simp add: validate_usage_def usage_def accepted_def blocks second_run_def ran_block_def eng_def
      sample_triggered_def sample_engine_def sample_source_length sample_limits_def state_bytes_def
      state_entry_bytes_def)
  have "process_next_due_timer failing_environment 6000 second_run = (Inr (Some bx), accepted 6000 rt)"
    using second_run_poll [OF engine(1)] done_run by (simp add: process_next_due_timer_def)
  then have "process_next_due_timer_cascade failing_environment 6000 second_run = (Inr [bx], accepted 6000 rt)"
    using failed usage_ok
    by (simp add: process_next_due_timer_cascade_def finish_cascade_def cascade_fuel_def check_probe_def Let_def)
  with failed show ?thesis by (intro exI [of _ "[bx]"] exI) (simp add: succeeded_def)
qed

theorem failing_timer_starves_witness:
  "poll_timers (replicate 5 (failing_environment, 6000, None, 0)) (Some (chained_handle\<lparr>rh_runtime := second_run\<rparr>))
    = (replicate 5 AbiLogicError, Some (chained_handle\<lparr>rh_runtime := second_run\<rparr>))"
proof -
  obtain bxs rt where "process_next_due_timer_cascade failing_environment 6000
      (rh_runtime (chained_handle\<lparr>rh_runtime := second_run\<rparr>)) = (Inr bxs, rt)" "\<not> list_all succeeded bxs"
    using failing_timer_run by auto
  then have "timer_fails (chained_handle\<lparr>rh_runtime := second_run\<rparr>) (failing_environment, 6000, None, 0)"
    by (auto simp: buffer_writable_def)
  then show ?thesis
    using failing_timer_starves [of "replicate 5 (failing_environment, 6000, None, 0)"
        "chained_handle\<lparr>rh_runtime := second_run\<rparr>"] by simp
qed

theorem abi_values_exact_witness:
  "decode_value (encode_value (typed_bool True)) = Inr (typed_bool True)"
proof -
  have "is_i32 (vr_scalar (encode_value (typed_bool True)))"
    by (simp add: encode_value_def typed_bool_def is_i32_def i32_min_def i32_max_def)
  from abi_values_exact [OF this] show ?thesis
    by (simp add: typed_bool_def typed_value_wf_def dpt_bool_def is_bool_dpt_def)
qed




end
