(* ===== verification/Group_Address.thy ===== *)
theory Group_Address
  imports Identifiers
begin

text \<open>
  The group addresses of \<open>logiksmith-runtime-api/src/document.rs\<close>: three numbers written
  \<open>main/middle/subgroup\<close>, in one canonical form each.
\<close>

unbundle bit_operations_syntax

record group_address =
  ga_main :: u8
  ga_middle :: u8
  ga_subgroup :: u8

datatype group_address_error = GaInvalidFormat | GaOutOfRange | BroadcastReserved | NonCanonical

definition group_address_new :: "u8 \<Rightarrow> u8 \<Rightarrow> u8 \<Rightarrow> group_address_error + group_address" where
  "group_address_new main middle subgroup =
     (if 31 < main \<or> 7 < middle then Inl GaOutOfRange
      else if main = 0 \<and> middle = 0 \<and> subgroup = 0 then Inl BroadcastReserved
      else Inr \<lparr>ga_main = main, ga_middle = middle, ga_subgroup = subgroup\<rparr>)"

definition as_u16 :: "group_address \<Rightarrow> u16" where
  "as_u16 a =
     push_bit 11 (ucast (ga_main a)) OR push_bit 8 (ucast (ga_middle a)) OR ucast (ga_subgroup a)"

text \<open>\<open>str::split\<close> at an ASCII character.\<close>

fun split_on :: "char \<Rightarrow> rstring \<Rightarrow> rstring list" where
  "split_on c [] = [[]]"
| "split_on c (x # xs) =
     (if x = c then [] # split_on c xs
      else case split_on c xs of [] \<Rightarrow> [[x]] | part # parts \<Rightarrow> (x # part) # parts)"

definition leading_zero :: "rstring \<Rightarrow> bool" where
  "leading_zero p \<longleftrightarrow> 1 < length p \<and> hd p = CHR ''0''"

definition group_address_from_str :: "rstring \<Rightarrow> group_address_error + group_address" where
  "group_address_from_str value =
     (let parts = split_on (CHR ''/'') value in
      if length parts \<noteq> 3 \<or> (\<exists>p \<in> set parts. p = [] \<or> \<not> list_all is_ascii_digit p)
      then Inl GaInvalidFormat
      else if \<exists>p \<in> set parts. leading_zero p then Inl NonCanonical
      else
        result_bind (ok_or GaInvalidFormat (parse_unsigned 65535 (parts ! 0))) (\<lambda>main.
        result_bind (ok_or GaInvalidFormat (parse_unsigned 65535 (parts ! 1))) (\<lambda>middle.
        result_bind (ok_or GaInvalidFormat (parse_unsigned 65535 (parts ! 2))) (\<lambda>subgroup.
        if 31 < main \<or> 7 < middle \<or> 255 < subgroup then Inl GaOutOfRange
        else group_address_new (of_nat main) (of_nat middle) (of_nat subgroup)))))"

definition group_address_display :: "group_address \<Rightarrow> rstring" where
  "group_address_display a =
     decimal (unat (ga_main a)) @ ''/'' @ decimal (unat (ga_middle a)) @ ''/''
       @ decimal (unat (ga_subgroup a))"

text \<open>The fields are private: these are the addresses that the constructor makes.\<close>

definition group_address_wf :: "group_address \<Rightarrow> bool" where
  "group_address_wf a \<longleftrightarrow>
     ga_main a \<le> 31 \<and> ga_middle a \<le> 7
     \<and> \<not> (ga_main a = 0 \<and> ga_middle a = 0 \<and> ga_subgroup a = 0)"

lemma group_address_new_ok:
  "group_address_new main middle subgroup = Inr a \<longleftrightarrow>
     group_address_wf a \<and> a = \<lparr>ga_main = main, ga_middle = middle, ga_subgroup = subgroup\<rparr>"
  by (auto simp: group_address_new_def group_address_wf_def not_less)

subsection \<open>Splitting and joining\<close>

lemma split_on_not_Nil [simp]: "split_on c s \<noteq> []"
  by (induction s) (auto split: list.splits)

lemma split_on_plain: "c \<notin> set s \<Longrightarrow> split_on c s = [s]"
  by (induction s) auto

lemma split_on_append: "c \<notin> set s \<Longrightarrow> split_on c (s @ c # t) = s # split_on c t"
  by (induction s) auto

fun join_with :: "char \<Rightarrow> rstring list \<Rightarrow> rstring" where
  "join_with c [] = []"
| "join_with c [s] = s"
| "join_with c (s # ss) = s @ c # join_with c ss"

lemma join_with_Cons: "ss \<noteq> [] \<Longrightarrow> join_with c (s # ss) = s @ c # join_with c ss"
  by (cases ss) simp_all

lemma join_split: "join_with c (split_on c s) = s"
proof (induction s)
  case (Cons x xs)
  obtain part parts where split: "split_on c xs = part # parts"
    by (cases "split_on c xs") simp_all
  with Cons show ?case by (cases parts) (auto simp: join_with_Cons)
qed simp

lemma decimal_0: "decimal 0 = ''0''"
  by code_simp

lemma decimal_digits_value:
  assumes "list_all is_ascii_digit p" and "p \<noteq> []" and "\<not> leading_zero p"
  shows "decimal (digits_value p) = p"
  using assms
proof (induction p rule: rev_induct)
  case (snoc c p)
  then have c: "48 \<le> byte c" "byte c \<le> (57 :: nat)" by (simp_all add: is_ascii_digit_def)
  have digit: "digit_char (byte c - 48) = c" using c by (simp add: digit_char_def)
  show ?case
  proof (cases "p = []")
    case True
    moreover have "byte c - 48 < 10" using c by linarith
    ultimately show ?thesis using digit by (subst decimal.simps) (simp add: digits_value_def)
  next
    case False
    have not_zero: "\<not> leading_zero p" using snoc.prems(3) False by (auto simp: leading_zero_def)
    have IH: "decimal (digits_value p) = p" using snoc False not_zero by simp
    have "hd p \<noteq> CHR ''0''" using snoc.prems(3) False by (auto simp: leading_zero_def)
    then have "decimal 0 \<noteq> p" by (auto simp: decimal_0)
    then have "digits_value p \<noteq> 0" using IH by metis
    moreover have "byte c - 48 < 10" using c by linarith
    ultimately show ?thesis
      using digit IH unfolding digits_value_snoc by (subst decimal.simps) simp
  qed
qed simp

lemma decimal_hd: "0 < n \<Longrightarrow> hd (decimal n) \<noteq> CHR ''0''"
proof (induction n rule: decimal.induct)
  case (1 n)
  show ?case
  proof (cases "n < 10")
    case True
    with "1.prems" have "byte (digit_char n) \<noteq> byte (CHR ''0'')" by (simp add: byte_digit_char)
    with True show ?thesis by (subst decimal.simps) auto
  next
    case False
    then have "hd (decimal (n div 10)) \<noteq> CHR ''0''" using "1.IH" by simp
    with False show ?thesis by (subst decimal.simps) (simp add: decimal_not_Nil)
  qed
qed

lemma decimal_canonical: "\<not> leading_zero (decimal n)"
proof (cases "n = 0")
  case True
  then show ?thesis by (subst decimal.simps) (simp add: leading_zero_def)
next
  case False
  then show ?thesis using decimal_hd [of n] by (simp add: leading_zero_def)
qed

lemma decimal_no_slash: "CHR ''/'' \<notin> set (decimal n)"
  using decimal_digits [of n] by (auto simp: list_all_iff is_ascii_digit_def)

lemma split_display:
  "split_on (CHR ''/'') (group_address_display a)
     = [decimal (unat (ga_main a)), decimal (unat (ga_middle a)), decimal (unat (ga_subgroup a))]"
  by (simp add: group_address_display_def split_on_append split_on_plain decimal_no_slash)

text \<open>
  Group addresses have one text each: parsing accepts exactly the displayed forms of the valid
  addresses and gives the address back, so that no two texts of a document name the same address.
\<close>

theorem group_address_text_unique:
  "group_address_from_str v = Inr a \<longleftrightarrow> group_address_wf a \<and> v = group_address_display a"
proof
  assume a: "group_address_wf a \<and> v = group_address_display a"
  have bound: "unat (ga_main a) \<le> 31" "unat (ga_middle a) \<le> 7" "unat (ga_subgroup a) < 256"
    using a unat_bound [of "ga_subgroup a"] by (simp_all add: group_address_wf_def word_le_nat_alt)
  then have "parse_unsigned 65535 (decimal (unat (ga_main a))) = Some (unat (ga_main a))"
    "parse_unsigned 65535 (decimal (unat (ga_middle a))) = Some (unat (ga_middle a))"
    "parse_unsigned 65535 (decimal (unat (ga_subgroup a))) = Some (unat (ga_subgroup a))"
    by (simp_all add: parse_unsigned_decimal)
  with a bound show "group_address_from_str v = Inr a"
    by (simp add: group_address_from_str_def split_display decimal_not_Nil decimal_digits
        decimal_canonical group_address_new_ok)
next
  assume parsed: "group_address_from_str v = Inr a"
  let ?parts = "split_on (CHR ''/'') v"
  have three: "length ?parts = 3" and good: "\<forall>p \<in> set ?parts. p \<noteq> [] \<and> list_all is_ascii_digit p"
    and plain: "\<forall>p \<in> set ?parts. \<not> leading_zero p"
    using parsed by (auto simp: group_address_from_str_def Let_def split: if_splits)
  obtain p q r where parts: "?parts = [p, q, r]"
    using three by (auto simp: numeral_3_eq_3 length_Suc_conv)
  have number: "parse_unsigned 65535 x = (if digits_value x \<le> 65535 then Some (digits_value x) else None)"
    "decimal (digits_value x) = x" if "x \<in> {p, q, r}" for x
    using that good plain parts by (auto simp: parse_unsigned_digits decimal_digits_value)
  have bound: "digits_value p \<le> 31" "digits_value q \<le> 7" "digits_value r \<le> 255"
    and a: "group_address_new (of_nat (digits_value p)) (of_nat (digits_value q)) (of_nat (digits_value r)) = Inr a"
    using parsed good plain
    by (auto simp: group_address_from_str_def parts number result_simps split: if_splits)
  then have fields: "unat (ga_main a) = digits_value p" "unat (ga_middle a) = digits_value q"
    "unat (ga_subgroup a) = digits_value r"
    by (auto simp: group_address_new_ok unat_of_nat)
  have "v = p @ CHR ''/'' # q @ CHR ''/'' # r" using join_split [of "CHR ''/''" v] by (simp add: parts)
  moreover have "group_address_wf a" by (rule a [unfolded group_address_new_ok, THEN conjunct1])
  ultimately show "group_address_wf a \<and> v = group_address_display a"
    using fields number(2) by (simp add: group_address_display_def)
qed

subsection \<open>Numbers\<close>

lemma push_bit_or_nat:
  fixes q r :: nat
  assumes "r < 2 ^ k"
  shows "push_bit k q OR r = 2 ^ k * q + r"
proof -
  have r: "take_bit k r = r" using assms by (simp add: take_bit_nat_eq_self)
  have "push_bit k q AND take_bit k r = 0" by (simp add: bit_eq_iff bit_simps)
  then have "push_bit k q OR take_bit k r = push_bit k q + take_bit k r"
    by (simp add: disjunctive_add_eq_or)
  then show ?thesis by (simp add: r push_bit_eq_mult mult.commute)
qed

lemma unat_as_u16:
  assumes "group_address_wf a"
  shows "unat (as_u16 a) = 2048 * unat (ga_main a) + (256 * unat (ga_middle a) + unat (ga_subgroup a))"
proof -
  have bound: "unat (ga_main a) \<le> 31" "unat (ga_middle a) \<le> 7" "unat (ga_subgroup a) < 256"
    using assms unat_bound [of "ga_subgroup a"] by (simp_all add: group_address_wf_def word_le_nat_alt)
  have push_small: "push_bit 11 (unat (ga_main a)) < 2 ^ 16" "push_bit 8 (unat (ga_middle a)) < 2 ^ 16"
    using bound by (simp_all add: push_bit_eq_mult)
  have main: "unat (push_bit 11 (ucast (ga_main a)) :: u16) = push_bit 11 (unat (ga_main a))"
    and middle: "unat (push_bit 8 (ucast (ga_middle a)) :: u16) = push_bit 8 (unat (ga_middle a))"
    and subgroup: "unat (ucast (ga_subgroup a) :: u16) = unat (ga_subgroup a)"
    using bound push_small by (simp_all add: unsigned_push_bit_eq unsigned_ucast_eq take_bit_nat_eq_self)
  have low: "push_bit 8 (unat (ga_middle a)) OR unat (ga_subgroup a)
      = 256 * unat (ga_middle a) + unat (ga_subgroup a)"
    using push_bit_or_nat [of "unat (ga_subgroup a)" 8] bound(3) by simp
  have "256 * unat (ga_middle a) + unat (ga_subgroup a) < 2 ^ 11" using bound by simp
  from push_bit_or_nat [OF this, of "unat (ga_main a)"] low main middle subgroup
  show ?thesis by (simp add: as_u16_def unsigned_or_eq)
qed

lemma quotient_unique:
  fixes k x r y t :: nat
  assumes eq: "k * x + r = k * y + t" and "r < k" "t < k"
  shows "x = y" "r = t"
proof -
  have "(k * x + r) div k = x" "(k * y + t) div k = y" "(k * x + r) mod k = r" "(k * y + t) mod k = t"
    using assms(2,3) by simp_all
  then show "x = y" "r = t" by (simp_all add: eq)
qed

lemma mixed_radix_unique:
  fixes m q r m' q' r' :: nat
  assumes "2048 * m + (256 * q + r) = 2048 * m' + (256 * q' + r')"
    and small: "q \<le> 7" "r < 256" "q' \<le> 7" "r' < 256"
  shows "m = m'" "q = q'" "r = r'"
proof -
  have "256 * (8 * m + q) + r = 256 * (8 * m' + q') + r'" using assms(1) by simp
  note low = quotient_unique [OF this small(2,4)]
  from quotient_unique [OF low(1)] small low(2) show "m = m'" "q = q'" "r = r'" by simp_all
qed

text \<open>
  The 16-bit form of a group address identifies it: it is never the broadcast address 0 and
  different valid addresses have different numbers.
\<close>

theorem as_u16_identifies:
  assumes "group_address_wf a" and "group_address_wf b"
  shows "as_u16 a \<noteq> 0 \<and> (as_u16 a = as_u16 b \<longleftrightarrow> a = b)"
proof -
  note number = unat_as_u16 [OF assms(1)] unat_as_u16 [OF assms(2)]
  have small: "unat (ga_middle c) \<le> 7 \<and> unat (ga_subgroup c) < 256" if "group_address_wf c" for c
    using that unat_bound [of "ga_subgroup c"] by (simp add: group_address_wf_def word_le_nat_alt)
  have "as_u16 a \<noteq> 0"
    using number(1) assms(1) by (auto simp: group_address_wf_def word_unat_eq_iff)
  moreover have "a = b" if "as_u16 a = as_u16 b"
  proof -
    have "2048 * unat (ga_main a) + (256 * unat (ga_middle a) + unat (ga_subgroup a))
        = 2048 * unat (ga_main b) + (256 * unat (ga_middle b) + unat (ga_subgroup b))"
      using number that by metis
    from mixed_radix_unique [OF this] small [OF assms(1)] small [OF assms(2)]
    have "ga_main a = ga_main b" "ga_middle a = ga_middle b" "ga_subgroup a = ga_subgroup b"
      by (simp_all add: word_unat_eq_iff)
    then show "a = b" by simp
  qed
  ultimately show ?thesis by blast
qed

theorem as_u16_identifies_witness:
  "as_u16 \<lparr>ga_main = 1, ga_middle = 2, ga_subgroup = 3\<rparr> \<noteq> as_u16 \<lparr>ga_main = 1, ga_middle = 2, ga_subgroup = 4\<rparr>"
  using as_u16_identifies [of "\<lparr>ga_main = 1, ga_middle = 2, ga_subgroup = 3\<rparr>"
      "\<lparr>ga_main = 1, ga_middle = 2, ga_subgroup = 4\<rparr>"]
  by (simp add: group_address_wf_def word_le_nat_alt)

end
