(* ===== verification/Document_Fields.thy ===== *)
theory Document_Fields
  imports Group_Address Block_Config
begin

text \<open>
  \<open>logiksmith-runtime-api/src/document.rs\<close>: the automation document and the readers of its textual
  fields.  A reader that collects errors returns them before its value.  The message of an error
  that the code prints from a core error is that error.
\<close>

subsection \<open>Errors\<close>

datatype field_message =
    Message rstring
  | NameMessage endpoint_name_error
  | DptMessage dpt_error
  | BlockIdMessage block_id_error
  | AddressMessage group_address_error
  | EngineMessage config_error
  | ConfigMessage runtime_config_error
  | ValueErrorMessage value_error
  | TimerNameMessage endpoint_name_error
  | LogicErrorMessage logic_error

record field_error =
  fe_path :: rstring
  fe_message :: field_message

definition field :: "rstring \<Rightarrow> rstring \<Rightarrow> field_error" where
  "field path text = \<lparr>fe_path = path, fe_message = Message text\<rparr>"

definition field_of :: "rstring \<Rightarrow> field_message \<Rightarrow> field_error" where
  "field_of path m = \<lparr>fe_path = path, fe_message = m\<rparr>"

text \<open>\<open>format!("{path}[{i}]")\<close>\<close>

definition item_path :: "rstring \<Rightarrow> nat \<Rightarrow> rstring" where
  "item_path path i = path @ ''['' @ decimal i @ '']''"

subsection \<open>The document\<close>

record document_signal =
  as_name :: rstring
  as_dpt :: rstring

record document_endpoint =
  ae_name :: rstring
  ae_dpt :: rstring

record knx_binding =
  kb_endpoint :: rstring
  kb_group_address :: rstring

record document_signal_binding =
  dsb_endpoint :: rstring
  dsb_signal :: rstring

record external_binding = \<comment> \<open>\<open>HttpBinding\<close> and \<open>WebhookBinding\<close>\<close>
  xb_endpoint :: rstring
  xb_source :: rstring

text \<open>The unknown fields of a schedule are given by their keys; their values are never read.\<close>

record document_schedule =
  asc_name :: rstring
  asc_enabled :: bool
  asc_kind :: rstring
  asc_at :: "rstring option"
  asc_every :: "rstring option"
  asc_offset :: "rstring option"
  asc_anchor :: "rstring option"
  asc_weekdays :: "rstring list option"
  asc_extra :: "rstring list"

record document_block =
  ab_id :: rstring
  ab_revision :: u64
  ab_enabled :: bool
  ab_inputs :: "document_endpoint list"
  ab_outputs :: "document_endpoint list"
  ab_knx_bindings :: "knx_binding list"
  ab_signal_bindings :: "document_signal_binding list"
  ab_http_bindings :: "external_binding list"
  ab_webhook_bindings :: "external_binding list"
  ab_source :: rstring
  ab_schedules :: "document_schedule list"

record http_header =
  hh_name :: rstring
  hh_value :: "rstring option"
  hh_value_env :: "rstring option"

record http_poll_value =
  hv_name :: rstring
  hv_dpt :: rstring
  hv_json_pointer :: rstring

record http_poll =
  hp_name :: rstring
  hp_url :: rstring
  hp_every :: rstring
  hp_timeout :: rstring
  hp_stale_after :: rstring
  hp_headers :: "http_header list"
  hp_values :: "http_poll_value list"

record webhook_input =
  wi_name :: rstring
  wi_dpt :: rstring
  wi_json_pointer :: rstring
  wi_bearer_token_env :: "rstring option"

record automation_document =
  ad_signals :: "document_signal list"
  ad_http_polls :: "http_poll list"
  ad_webhook_inputs :: "webhook_input list"
  ad_blocks :: "document_block list"

subsection \<open>Names, types and pointers\<close>

definition read_endpoint_name :: "rstring \<Rightarrow> rstring \<Rightarrow> field_error + endpoint_name" where
  "read_endpoint_name path text = map_err (\<lambda>e. field_of path (NameMessage e)) (endpoint_name_new text)"

definition read_dpt :: "rstring \<Rightarrow> rstring \<Rightarrow> field_error + dpt" where
  "read_dpt path text =
     result_bind (map_err (\<lambda>e. field_of path (DptMessage e)) (dpt_from_str text)) (\<lambda>d.
       if \<not> dpt_is_supported d then Inl (field path ''must be 1.001, 5.001, or 9.001'')
       else if dpt_display d \<noteq> text then Inl (field path ''must use canonical DPT form'')
       else Inr d)"

definition source_name :: "rstring \<Rightarrow> rstring \<Rightarrow> field_error + rstring" where
  "source_name path text =
     result_bind (read_endpoint_name path text) (\<lambda>name.
       if endpoint_str name \<noteq> text
       then Inl (field path ''must use canonical identifier form'')
       else Inr text)"

text \<open>A tilde that no 0 or 1 follows.\<close>

definition bad_escape :: "rstring \<Rightarrow> bool" where
  "bad_escape token \<longleftrightarrow>
     (\<exists>i < length token. token ! i = CHR ''~''
        \<and> (length token \<le> i + 1 \<or> token ! (i + 1) \<notin> {CHR ''0'', CHR ''1''}))"

definition quoted :: "rstring \<Rightarrow> rstring" where
  "quoted s = CHR 0x27 # s @ [CHR 0x27]"

definition validate_pointer :: "rstring \<Rightarrow> rstring \<Rightarrow> field_error list" where
  "validate_pointer path pointer =
     (if pointer = [] then []
      else if hd pointer \<noteq> CHR ''/''
        then [field path (''must be empty or an RFC 6901 pointer beginning with '' @ quoted ''/'')]
      else if list_ex bad_escape (drop 1 (split_on (CHR ''/'') pointer))
        then [field path (''must use valid RFC 6901 '' @ quoted ''~0'' @ '' and '' @ quoted ''~1'' @ '' escapes'')]
      else [])"

subsection \<open>Durations\<close>

definition checked_i64 :: "int \<Rightarrow> int option" where
  "checked_i64 x = (if is_i64 x then Some x else None)"

definition parse_i64_digits :: "rstring \<Rightarrow> int option" where
  "parse_i64_digits digits = map_option int (parse_unsigned (nat i64_max) digits)"

fun duration_unit :: "char \<Rightarrow> (int \<times> nat) option" where
  "duration_unit c =
     (if c = CHR ''h'' then Some (3600, 3)
      else if c = CHR ''m'' then Some (60, 2)
      else if c = CHR ''s'' then Some (1, 1)
      else None)"

text \<open>
  The loop over the characters of a duration, on bytes: a character that is no digit fails unless it
  is one of the three units, so a multi-byte one fails at its first byte.
\<close>

fun duration_loop :: "rstring \<Rightarrow> int \<Rightarrow> rstring \<Rightarrow> nat \<Rightarrow> int option" where
  "duration_loop [] acc digits rank = (if digits = [] \<and> rank \<noteq> 4 then Some acc else None)"
| "duration_loop (c # cs) acc digits rank =
     (if is_ascii_digit c then duration_loop cs acc (digits @ [c]) rank
      else case (parse_i64_digits digits, duration_unit c) of
        (Some amount, Some (seconds, current)) \<Rightarrow>
          if rank \<le> current then None
          else
            (case Option.bind (checked_i64 (amount * seconds)) (\<lambda>product. checked_i64 (acc + product)) of
               None \<Rightarrow> None
             | Some acc \<Rightarrow> duration_loop cs acc [] current)
      | _ \<Rightarrow> None)"

definition parse_duration :: "rstring \<Rightarrow> bool \<Rightarrow> int option" where
  "parse_duration text sign =
     (let negative = sign \<and> text \<noteq> [] \<and> hd text = CHR ''-'';
          rest = (if negative then tl text else text)
      in if rest = [] then None
         else map_option (\<lambda>n. if negative then - n else n) (duration_loop rest 0 [] 4))"

subsection \<open>Schedules\<close>

definition two_digit_part :: "rstring \<Rightarrow> bool" where
  "two_digit_part p \<longleftrightarrow> length p = 2 \<and> list_all is_ascii_digit p"

definition read_local_time :: "rstring \<Rightarrow> rstring \<Rightarrow> field_error list \<times> local_time option" where
  "read_local_time path text =
     (let p = split_on (CHR '':'') text in
      if length p \<notin> {2, 3} \<or> \<not> list_all two_digit_part p
      then ([field path ''must be a canonical local time HH:MM or HH:MM:SS''], None)
      else
        case (parse_unsigned 255 (p ! 0), parse_unsigned 255 (p ! 1),
              if length p = 3 then parse_unsigned 255 (p ! 2) else Some 0) of
          (Some h, Some m, Some s) \<Rightarrow>
            if h \<le> 23 \<and> m \<le> 59 \<and> s \<le> 59
            then ([], Some \<lparr>lt_hour = of_nat h, lt_minute = of_nat m, lt_second = of_nat s\<rparr>)
            else ([field path ''must be a valid local time''], None)
        | _ \<Rightarrow> ([field path ''must be a valid local time''], None))"

fun weekday_token :: "rstring \<Rightarrow> weekday option" where
  "weekday_token t =
     (if t = ''mon'' then Some Monday else if t = ''tue'' then Some Tuesday
      else if t = ''wed'' then Some Wednesday else if t = ''thu'' then Some Thursday
      else if t = ''fri'' then Some Friday else if t = ''sat'' then Some Saturday
      else if t = ''sun'' then Some Sunday else None)"

text \<open>The days in the order of their tokens; \<open>seen\<close> holds exactly the days of the result.\<close>

definition weekday_step ::
  "rstring \<Rightarrow> field_error list \<times> weekday list \<Rightarrow> nat \<times> rstring \<Rightarrow> field_error list \<times> weekday list" where
  "weekday_step path acc it =
     (case weekday_token (snd it) of
        None \<Rightarrow>
          (fst acc @ [field (item_path path (fst it))
             ''must be one of mon, tue, wed, thu, fri, sat, or sun''], snd acc)
      | Some day \<Rightarrow>
          if day \<in> set (snd acc)
          then (fst acc @ [field (item_path path (fst it)) ''must not repeat a weekday''], snd acc)
          else (fst acc, snd acc @ [day]))"

definition read_weekdays :: "rstring \<Rightarrow> rstring list option \<Rightarrow> field_error list \<times> weekday_set" where
  "read_weekdays path tokens =
     (let acc = foldl (weekday_step path) ([], [])
            (List.enumerate 0 (case tokens of None \<Rightarrow> [] | Some ts \<Rightarrow> ts));
          days = (if tokens = None then weekdays_all else snd acc)
      in (fst acc,
          case weekday_set_new (sort days) of
            Inr s \<Rightarrow> s | Inl _ \<Rightarrow> WeekdaySet weekdays_all))"

definition extra_errors :: "rstring \<Rightarrow> document_schedule \<Rightarrow> field_error list" where
  "extra_errors path s = map (\<lambda>key. field (path @ ''.'' @ key) ''unknown field for schedule'') (asc_extra s)"

definition fixed_rule :: "document_schedule \<Rightarrow> rstring \<Rightarrow> field_error list \<times> schedule_rule option" where
  "fixed_rule s path =
     (let (e1, tod) = (case asc_at s of
              None \<Rightarrow> ([field (path @ ''.at'') ''is required for a fixed schedule''], None)
            | Some v \<Rightarrow> read_local_time (path @ ''.at'') v);
          e2 = (if asc_every s \<noteq> None \<or> asc_offset s \<noteq> None \<or> asc_anchor s \<noteq> None
                then [field path ''contains fields not allowed for a fixed schedule''] else [])
      in case tod of
           None \<Rightarrow> (e1 @ e2, None)
         | Some tod \<Rightarrow>
             let (e3, days) = read_weekdays (path @ ''.weekdays'') (asc_weekdays s)
             in (e1 @ e2 @ e3, Some (RuleFixed tod days)))"

definition interval_rule :: "document_schedule \<Rightarrow> rstring \<Rightarrow> field_error list \<times> schedule_rule option" where
  "interval_rule s path =
     (let every = Option.bind (asc_every s) (\<lambda>v. parse_duration v False);
          e1 = (if every = None
                then [field (path @ ''.every'') ''must be a whole-second duration and is required'']
                else []);
          offset = (case asc_offset s of None \<Rightarrow> Some 0 | Some v \<Rightarrow> parse_duration v False);
          e2 = (if asc_offset s \<noteq> None \<and> offset = None
                then [field (path @ ''.offset'') ''must be a whole-second duration''] else [])
      in case (every, offset) of
           (Some every, Some offset) \<Rightarrow>
             if \<not> (60 \<le> every \<and> every \<le> 604800)
             then (e1 @ e2 @ [field (path @ ''.every'') ''must be between 60s and 7 days (604800s)''], None)
             else if \<not> (0 \<le> offset \<and> offset < every)
             then (e1 @ e2 @ [field (path @ ''.offset'') ''must be between 0s and every - 1s''], None)
             else
               let e3 = (if asc_at s \<noteq> None \<or> asc_anchor s \<noteq> None \<or> asc_weekdays s \<noteq> None
                     then [field path ''contains fields not allowed for an interval schedule''] else [])
               in (e1 @ e2 @ e3, Some (RuleInterval (of_int every) (of_int offset)))
         | _ \<Rightarrow> (e1 @ e2, None))"

fun solar_anchor_token :: "rstring \<Rightarrow> solar_anchor option" where
  "solar_anchor_token t =
     (if t = ''dawn'' then Some Dawn else if t = ''sunrise'' then Some Sunrise
      else if t = ''sunset'' then Some Sunset else if t = ''dusk'' then Some Dusk else None)"

definition astronomical_rule ::
  "document_schedule \<Rightarrow> rstring \<Rightarrow> field_error list \<times> schedule_rule option" where
  "astronomical_rule s path =
     (let (e1, anchor) = (case asc_anchor s of
              None \<Rightarrow>
                ([field (path @ ''.anchor'') ''is required for an astronomical schedule''], None)
            | Some t \<Rightarrow>
                (case solar_anchor_token t of
                   None \<Rightarrow>
                     ([field (path @ ''.anchor'') ''must be one of dawn, sunrise, sunset, or dusk''], None)
                 | Some a \<Rightarrow> ([], Some a)));
          offset = Option.bind (asc_offset s) (\<lambda>v. parse_duration v True);
          e2 = (if offset = None
                then [field (path @ ''.offset'') ''must be a signed whole-second duration and is required'']
                else [])
      in case (anchor, offset) of
           (Some anchor, Some offset) \<Rightarrow>
             if \<not> (- 86400 \<le> offset \<and> offset \<le> 86400)
             then (e1 @ e2 @ [field (path @ ''.offset'') ''must be between -24h and +24h''], None)
             else
               let e3 = (if asc_at s \<noteq> None \<or> asc_every s \<noteq> None
                     then [field path ''contains fields not allowed for an astronomical schedule'']
                     else []);
                   (e4, days) = read_weekdays (path @ ''.weekdays'') (asc_weekdays s)
               in (e1 @ e2 @ e3 @ e4, Some (RuleAstronomical anchor offset days))
         | _ \<Rightarrow> (e1 @ e2, None))"

definition read_schedule_rule ::
  "document_schedule \<Rightarrow> rstring \<Rightarrow> field_error list \<times> schedule_rule option" where
  "read_schedule_rule s path =
     (let (errors, rule) =
            (if asc_kind s = ''fixed'' then fixed_rule s path
             else if asc_kind s = ''interval'' then interval_rule s path
             else if asc_kind s = ''astronomical'' then astronomical_rule s path
             else ([field (path @ ''.kind'') ''must be one of fixed, interval, or astronomical''], None))
      in (extra_errors path s @ errors, rule))"

end
