(* ===== verification/Document_Build.thy ===== *)
theory Document_Build
  imports Document_Fields
begin

text \<open>
  \<open>logiksmith-runtime-api/src/document_build.rs\<close>: revisions of documents, and the construction of a
  runtime configuration with its routing tables from a document, or of the list of its errors.
  A hash map is a function; only the order in which one of them is iterated matters, and it is a
  parameter.
\<close>

subsection \<open>Loops over numbered items\<close>

definition each_indexed :: "(nat \<Rightarrow> 'a \<Rightarrow> 's \<Rightarrow> 's) \<Rightarrow> 'a list \<Rightarrow> 's \<Rightarrow> 's" where
  "each_indexed f xs s = foldl (\<lambda>s it. f (fst it) (snd it) s) s (List.enumerate 0 xs)"

lemma each_indexed_Nil [simp]: "each_indexed f [] s = s"
  by (simp add: each_indexed_def)

lemma each_indexed_snoc [simp]:
  "each_indexed f (xs @ [x]) s = f (length xs) x (each_indexed f xs s)"
  by (simp add: each_indexed_def enumerate_append_eq)

text \<open>An invariant that may mention the items processed so far.\<close>

lemma each_indexed_invariant:
  assumes "I [] s"
    and "\<And>ys x s. I ys s \<Longrightarrow> (\<exists>zs. xs = ys @ x # zs) \<Longrightarrow> I (ys @ [x]) (f (length ys) x s)"
  shows "I xs (each_indexed f xs s)"
  using assms(2)
proof (induction xs rule: rev_induct)
  case Nil
  then show ?case using assms(1) by simp
next
  case (snoc x xs)
  have "I xs (each_indexed f xs s)"
    by (rule snoc.IH, rule snoc.prems) auto
  then show ?case using snoc.prems [of xs _ x] by simp
qed

subsection \<open>Services and capabilities\<close>

text \<open>
  The TOML library, the Cargo features of the crate, and the iteration order of the signal bindings
  of the block with a given index.
\<close>

record document_services =
  ds_to_toml :: "automation_document \<Rightarrow> rstring option"
  ds_from_toml :: "rstring \<Rightarrow> automation_document option"
  ds_http_inputs :: bool
  ds_webhook_inputs :: bool
  ds_hash_order :: "nat \<Rightarrow> (endpoint_name \<times> signal_name) list \<Rightarrow> (endpoint_name \<times> signal_name) list"

record capabilities =
  cap_timezones :: bool
  cap_astronomy :: bool
  cap_http_inputs :: bool
  cap_webhook_inputs :: bool
  cap_schedules :: bool

definition capabilities_desktop :: "environment \<Rightarrow> document_services \<Rightarrow> capabilities" where
  "capabilities_desktop env ds =
     \<lparr>cap_timezones = feature_timezones (ts_features (env_time env)),
      cap_astronomy = feature_astronomy (ts_features (env_time env)),
      cap_http_inputs = ds_http_inputs ds, cap_webhook_inputs = ds_webhook_inputs ds,
      cap_schedules = True\<rparr>"

definition capabilities_embedded :: "environment \<Rightarrow> capabilities" where
  "capabilities_embedded env =
     \<lparr>cap_timezones = feature_timezones (ts_features (env_time env)),
      cap_astronomy = feature_astronomy (ts_features (env_time env)),
      cap_http_inputs = False, cap_webhook_inputs = False, cap_schedules = False\<rparr>"

definition api_max_blocks :: nat where "api_max_blocks = 64"
definition api_max_signals :: nat where "api_max_signals = 256"
definition api_max_signal_bindings :: nat where "api_max_signal_bindings = 256"
definition max_external_sources :: nat where "max_external_sources = 64"

subsection \<open>Revisions\<close>

definition automation_revision :: "rstring \<Rightarrow> u64" where
  "automation_revision source =
     foldl (\<lambda>hash b. xor hash (of_nat (byte b)) * 0x100000001b3) 0xcbf29ce484222325 source"

definition document_structural_revision :: "document_services \<Rightarrow> automation_document \<Rightarrow> u64" where
  "document_structural_revision ds document =
     (let structure = document\<lparr>ad_blocks := map
            (\<lambda>b. b\<lparr>ab_source := [], ab_revision := 1, ab_enabled := True\<rparr>) (ad_blocks document)\<rparr>
      in automation_revision (case ds_to_toml ds structure of None \<Rightarrow> [] | Some bytes \<Rightarrow> bytes))"

definition document_logic_revision :: "automation_document \<Rightarrow> u64" where
  "document_logic_revision document =
     automation_revision (concat (map
       (\<lambda>b. ab_id b @ [CHR 0x00] @ ab_source b @ [CHR 0x00]) (ad_blocks document)))"

definition block_revision :: "automation_document \<Rightarrow> rstring \<Rightarrow> u64" where
  "block_revision document x =
     (case find (\<lambda>b. ab_id b = x) (ad_blocks document) of
        None \<Rightarrow> 1 | Some b \<Rightarrow> max (ab_revision b) 1)"

definition hex_digit :: "nat \<Rightarrow> char" where
  "hex_digit d = (if d < 10 then digit_char d else char_of (87 + d))"

definition hex8 :: "u32 \<Rightarrow> rstring" where
  "hex8 w = map (\<lambda>k. hex_digit (unat w div 16 ^ k mod 16)) [7, 6, 5, 4, 3, 2, 1, 0]"

definition source_fingerprint :: "rstring \<Rightarrow> rstring" where
  "source_fingerprint source =
     ''fnv1a-'' @ hex8 (foldl (\<lambda>hash b. xor hash (of_nat (byte b)) * 16777619) 2166136261 source)"

definition parse_automation_toml :: "document_services \<Rightarrow> rstring \<Rightarrow> automation_document option" where
  "parse_automation_toml ds source = ds_from_toml ds source"

subsection \<open>The built automation\<close>

type_synonym duration = nat \<comment> \<open>in microseconds\<close>

record http_poll_value_runtime =
  hvr_name :: rstring
  hvr_dpt :: dpt
  hvr_json_pointer :: rstring

record http_poll_runtime =
  hpr_name :: rstring
  hpr_url :: rstring
  hpr_every :: duration
  hpr_timeout :: duration
  hpr_stale_after :: duration
  hpr_headers :: "(rstring \<times> rstring) list"
  hpr_values :: "http_poll_value_runtime list"

record webhook_input_runtime =
  wir_name :: rstring
  wir_dpt :: dpt
  wir_json_pointer :: rstring
  wir_bearer_token :: "rstring option"

record signal_runtime =
  sr_name :: signal_name
  sr_dpt :: dpt

record block_input_binding =
  bib_block_id :: block_id
  bib_endpoint :: endpoint_name
  bib_dpt :: dpt
  bib_address :: group_address

record block_signal_input_binding =
  bsb_block_id :: block_id
  bsb_endpoint :: endpoint_name
  bsb_dpt :: dpt
  bsb_signal :: signal_name

record block_external_input_binding =
  bxb_block_id :: block_id
  bxb_endpoint :: endpoint_name
  bxb_dpt :: dpt
  bxb_source :: rstring

record block_runtime =
  br_id :: block_id
  br_revision :: u64
  br_enabled :: bool
  br_engine_config :: engine_config
  br_endpoint_to_address :: "endpoint_name \<rightharpoonup> group_address"
  br_endpoint_to_signal :: "(endpoint_name \<times> signal_name) list"
  br_endpoint_to_external :: "endpoint_name \<rightharpoonup> rstring"
  br_endpoint_dpts :: "endpoint_name \<rightharpoonup> dpt"
  br_schedules :: "block_schedule list"

text \<open>The tables that all blocks write; a list that is absent is empty.\<close>

record routing =
  rg_address_to_inputs :: "group_address \<Rightarrow> block_input_binding list"
  rg_output_to_address :: "block_id \<times> endpoint_name \<rightharpoonup> group_address"
  rg_signal_to_inputs :: "signal_name \<Rightarrow> block_signal_input_binding list"
  rg_output_to_signal :: "block_id \<times> endpoint_name \<rightharpoonup> signal_name"
  rg_address_dpts :: "group_address \<rightharpoonup> dpt"
  rg_signal_producers :: "signal_name set"
  rg_signal_binding_count :: nat
  rg_http_to_inputs :: "rstring \<Rightarrow> block_external_input_binding list"
  rg_webhook_to_inputs :: "rstring \<Rightarrow> block_external_input_binding list"

definition empty_routing :: routing where
  "empty_routing =
     \<lparr>rg_address_to_inputs = (\<lambda>_. []), rg_output_to_address = Map.empty,
      rg_signal_to_inputs = (\<lambda>_. []), rg_output_to_signal = Map.empty, rg_address_dpts = Map.empty,
      rg_signal_producers = {}, rg_signal_binding_count = 0, rg_http_to_inputs = (\<lambda>_. []),
      rg_webhook_to_inputs = (\<lambda>_. [])\<rparr>"

record automation_runtime =
  ar_document :: automation_document
  ar_signals :: "signal_runtime list"
  ar_core_config :: runtime_config
  ar_blocks :: "block_runtime list"
  ar_routing :: routing
  ar_http_polls :: "http_poll_runtime list"
  ar_webhook_inputs :: "webhook_input_runtime list"
  ar_structural_revision :: u64
  ar_document_revision :: u64

definition automation_block :: "automation_runtime \<Rightarrow> block_id \<Rightarrow> block_runtime option" where
  "automation_block a x = find (\<lambda>b. br_id b = x) (ar_blocks a)"

subsection \<open>Signals\<close>

record signal_table =
  sgt_errors :: "field_error list"
  sgt_dpts :: "signal_name \<rightharpoonup> dpt"
  sgt_signals :: "signal_runtime list"

definition signal_step :: "nat \<Rightarrow> document_signal \<Rightarrow> signal_table \<Rightarrow> signal_table" where
  "signal_step i s t =
     (let p = item_path ''signals'' i;
          fail = (\<lambda>path text. t\<lparr>sgt_errors := sgt_errors t @ [field path text]\<rparr>) in
      case source_name (p @ ''.name'') (as_name s) of
        Inl _ \<Rightarrow> fail (p @ ''.name'') ''must be a valid canonical identifier''
      | Inr name \<Rightarrow>
          (case read_dpt (p @ ''.dpt'') (as_dpt s) of
             Inl _ \<Rightarrow> fail (p @ ''.dpt'') ''must be 1.001, 5.001, or 9.001''
           | Inr d \<Rightarrow>
               let t' = t\<lparr>sgt_dpts := (sgt_dpts t)(SignalName name \<mapsto> d)\<rparr> in
               if sgt_dpts t (SignalName name) \<noteq> None
               then t'\<lparr>sgt_errors := sgt_errors t @ [field (p @ ''.name'') ''must be unique'']\<rparr>
               else t'\<lparr>sgt_signals := sgt_signals t
                 @ [\<lparr>sr_name = SignalName name, sr_dpt = d\<rparr>]\<rparr>))"

definition read_signals :: "document_signal list \<Rightarrow> signal_table" where
  "read_signals signals =
     each_indexed signal_step signals \<lparr>sgt_errors = [], sgt_dpts = Map.empty, sgt_signals = []\<rparr>"

subsection \<open>External sources\<close>

record source_table =
  src_errors :: "field_error list"
  src_dpts :: "rstring \<rightharpoonup> dpt"
  src_polls :: "http_poll_runtime list"
  src_webhooks :: "webhook_input_runtime list"

definition push_source_error :: "rstring \<Rightarrow> rstring \<Rightarrow> source_table \<Rightarrow> source_table" where
  "push_source_error path text t = t\<lparr>src_errors := src_errors t @ [field path text]\<rparr>"

text \<open>Registering a source under a name, which overwrites an earlier one.\<close>

definition insert_source :: "rstring \<Rightarrow> rstring \<Rightarrow> dpt \<Rightarrow> source_table \<Rightarrow> source_table" where
  "insert_source path name d t =
     (let t' = t\<lparr>src_dpts := (src_dpts t)(name \<mapsto> d)\<rparr> in
      if src_dpts t name \<noteq> None
      then push_source_error (path @ ''.name'') ''must be unique across external sources'' t'
      else t')"

definition poll_value_step ::
  "rstring \<Rightarrow> nat \<Rightarrow> http_poll_value \<Rightarrow> source_table \<times> http_poll_value_runtime list
     \<Rightarrow> source_table \<times> http_poll_value_runtime list" where
  "poll_value_step path vi v acc =
     (let vp = item_path (path @ ''.values'') vi in
      case (source_name (vp @ ''.name'') (hv_name v), read_dpt (vp @ ''.dpt'') (hv_dpt v)) of
        (Inr name, Inr d) \<Rightarrow>
          let t = (fst acc)\<lparr>src_errors := src_errors (fst acc)
                @ validate_pointer (vp @ ''.json_pointer'') (hv_json_pointer v)\<rparr>
          in (insert_source vp name d t,
              snd acc @ [\<lparr>hvr_name = name, hvr_dpt = d, hvr_json_pointer = hv_json_pointer v\<rparr>])
      | _ \<Rightarrow> acc)"

definition starts_with :: "rstring \<Rightarrow> rstring \<Rightarrow> bool" where
  "starts_with s start \<longleftrightarrow> take (length start) s = start"

definition strip_suffix :: "rstring \<Rightarrow> rstring \<Rightarrow> rstring option" where
  "strip_suffix s ending =
     (if length ending \<le> length s \<and> drop (length s - length ending) s = ending
      then Some (take (length s - length ending) s) else None)"

definition url_ok :: "rstring \<Rightarrow> bool" where
  "url_ok url \<longleftrightarrow>
     (starts_with url ''http://'' \<or> starts_with url ''https://'')
     \<and> \<not> list_ex (\<lambda>c. is_whitespace_code (utf8_code c)) (utf8_chars url)"

text \<open>In milliseconds; the multiplication of a \<open>u64\<close> wraps in a build without overflow checks.\<close>

definition poll_timeout :: "rstring \<Rightarrow> u64 option" where
  "poll_timeout text =
     (case Option.bind (strip_suffix text ''ms'') (parse_unsigned (2 ^ 64 - 1)) of
        Some ms \<Rightarrow> Some (of_nat ms)
      | None \<Rightarrow> map_option (\<lambda>v. of_int v * 1000) (parse_duration text False))"

definition http_poll_step :: "nat \<Rightarrow> http_poll \<Rightarrow> source_table \<Rightarrow> source_table" where
  "http_poll_step i poll t =
     (let path = item_path ''http_polls'' i in
      case source_name (path @ ''.name'') (hp_name poll) of
        Inl _ \<Rightarrow> t
      | Inr name \<Rightarrow>
          let t = (if url_ok (hp_url poll) then t
                   else push_source_error (path @ ''.url'') ''must be a valid HTTP URL'' t);
              every = parse_duration (hp_every poll) False;
              timeout = poll_timeout (hp_timeout poll);
              stale_after = parse_duration (hp_stale_after poll) False;
              t = (if every = None \<or> timeout = None \<or> stale_after = None
                   then push_source_error path ''poll durations must be valid'' t else t)
          in case each_indexed (poll_value_step path) (hp_values poll) (t, []) of
               (t, values) \<Rightarrow>
                 (case (every, timeout, stale_after) of
                    (Some every, Some timeout, Some stale_after) \<Rightarrow>
                      t\<lparr>src_polls := src_polls t
                        @ [\<lparr>hpr_name = name, hpr_url = hp_url poll,
                            hpr_every = nat every * 1000000, hpr_timeout = unat timeout,
                            hpr_stale_after = nat stale_after * 1000000,
                            hpr_headers = List.map_filter
                              (\<lambda>h. map_option (Pair (hh_name h)) (hh_value h)) (hp_headers poll),
                            hpr_values = values\<rparr>]\<rparr>
                  | _ \<Rightarrow> t))"

definition webhook_input_step :: "nat \<Rightarrow> webhook_input \<Rightarrow> source_table \<Rightarrow> source_table" where
  "webhook_input_step i w t =
     (let path = item_path ''webhook_inputs'' i in
      case (source_name (path @ ''.name'') (wi_name w), read_dpt (path @ ''.dpt'') (wi_dpt w)) of
        (Inr name, Inr d) \<Rightarrow>
          let t = t\<lparr>src_errors := src_errors t
                @ validate_pointer (path @ ''.json_pointer'') (wi_json_pointer w)\<rparr>;
              t = insert_source path name d t
          in t\<lparr>src_webhooks := src_webhooks t
               @ [\<lparr>wir_name = name, wir_dpt = d, wir_json_pointer = wi_json_pointer w,
                   wir_bearer_token = None\<rparr>]\<rparr>
      | _ \<Rightarrow> t)"

definition read_sources :: "automation_document \<Rightarrow> source_table" where
  "read_sources document =
     (let t = \<lparr>src_errors = [], src_dpts = Map.empty, src_polls = [], src_webhooks = []\<rparr>;
          t = (if max_external_sources < length (ad_http_polls document) + length (ad_webhook_inputs document)
               then push_source_error ''http_polls''
                 (''must contain at most '' @ decimal max_external_sources @ '' sources'') t
               else t)
      in each_indexed webhook_input_step (ad_webhook_inputs document)
           (each_indexed http_poll_step (ad_http_polls document) t))"

subsection \<open>Endpoints of a block\<close>

record endpoint_table =
  et_errors :: "field_error list"
  et_names :: "endpoint_name set"
  et_dpts :: "endpoint_name \<rightharpoonup> dpt"
  et_directions :: "endpoint_name \<rightharpoonup> endpoint_direction"
  et_endpoints :: "endpoint list"

definition endpoint_step ::
  "rstring \<Rightarrow> endpoint_direction \<Rightarrow> nat \<Rightarrow> document_endpoint \<Rightarrow> endpoint_table \<Rightarrow> endpoint_table"
  where
  "endpoint_step path direction i e t =
     (let p = item_path path i;
          fail = (\<lambda>path text t. t\<lparr>et_errors := et_errors t @ [field path text]\<rparr>) in
      case read_endpoint_name (p @ ''.name'') (ae_name e) of
        Inl _ \<Rightarrow> fail (p @ ''.name'') ''must be a valid endpoint name'' t
      | Inr name \<Rightarrow>
          if name \<in> et_names t
          then fail (p @ ''.name'') ''must be unique within this block'' t
          else
            let t = t\<lparr>et_names := insert name (et_names t)\<rparr> in
            (case read_dpt (p @ ''.dpt'') (ae_dpt e) of
               Inl _ \<Rightarrow> fail (p @ ''.dpt'') ''must be 1.001, 5.001, or 9.001'' t
             | Inr d \<Rightarrow>
                 t\<lparr>et_dpts := (et_dpts t)(name \<mapsto> d),
                   et_directions := (et_directions t)(name \<mapsto> direction),
                   et_endpoints := et_endpoints t
                     @ [\<lparr>ep_name = name, ep_direction = direction, ep_dpt = d\<rparr>]\<rparr>))"

definition read_endpoints :: "rstring \<Rightarrow> document_block \<Rightarrow> endpoint_table" where
  "read_endpoints bp b =
     each_indexed (endpoint_step (bp @ ''.outputs'') Output) (ab_outputs b)
       (each_indexed (endpoint_step (bp @ ''.inputs'') Input) (ab_inputs b)
         \<lparr>et_errors = [], et_names = {}, et_dpts = Map.empty, et_directions = Map.empty,
          et_endpoints = []\<rparr>)"

definition source_size_errors :: "rstring \<Rightarrow> runtime_limits \<Rightarrow> rstring \<Rightarrow> field_error list" where
  "source_size_errors bp limits source =
     (if source = [] then [field (bp @ ''.source'') ''must not be empty''] else [])
     @ (if max_logic_source_bytes_per_block limits < length source
        then [field (bp @ ''.source'')
          (''must not exceed '' @ decimal (max_logic_source_bytes_per_block limits) @ '' bytes'')]
        else [])"

subsection \<open>Bindings of a block\<close>

record binding_state =
  bst_errors :: "field_error list"
  bst_routing :: routing
  bst_addresses :: "endpoint_name \<rightharpoonup> group_address"
  bst_signals :: "(endpoint_name \<times> signal_name) list" \<comment> \<open>keys are distinct\<close>
  bst_externals :: "endpoint_name \<rightharpoonup> rstring"

definition push_error :: "field_error \<Rightarrow> binding_state \<Rightarrow> binding_state" where
  "push_error e s = s\<lparr>bst_errors := bst_errors s @ [e]\<rparr>"

definition set_routing :: "routing \<Rightarrow> binding_state \<Rightarrow> binding_state" where
  "set_routing rg s = s\<lparr>bst_routing := rg\<rparr>"

definition append_at :: "'k \<Rightarrow> 'v \<Rightarrow> ('k \<Rightarrow> 'v list) \<Rightarrow> 'k \<Rightarrow> 'v list" where
  "append_at k v m = m(k := m k @ [v])"

text \<open>An endpoint that a binding names, with its datapoint type.\<close>

definition bound_name :: "endpoint_table \<Rightarrow> rstring \<Rightarrow> (endpoint_name \<times> dpt) option" where
  "bound_name t text =
     (case endpoint_name_new text of
        Inl _ \<Rightarrow> None
      | Inr name \<Rightarrow> map_option (Pair name) (et_dpts t name))"

definition add_address_binding ::
  "block_id \<Rightarrow> endpoint_table \<Rightarrow> endpoint_name \<Rightarrow> dpt \<Rightarrow> group_address \<Rightarrow> binding_state
     \<Rightarrow> binding_state" where
  "add_address_binding x t name d address s =
     (let rg = (bst_routing s)\<lparr>rg_address_dpts := (rg_address_dpts (bst_routing s))(address \<mapsto> d)\<rparr>;
          rg = (if et_directions t name = Some Input
                then rg\<lparr>rg_address_to_inputs := append_at address
                  \<lparr>bib_block_id = x, bib_endpoint = name, bib_dpt = d, bib_address = address\<rparr>
                  (rg_address_to_inputs rg)\<rparr>
                else rg\<lparr>rg_output_to_address := (rg_output_to_address rg)((x, name) \<mapsto> address)\<rparr>)
      in s\<lparr>bst_routing := rg, bst_addresses := (bst_addresses s)(name \<mapsto> address)\<rparr>)"

definition knx_binding_step ::
  "rstring \<Rightarrow> block_id \<Rightarrow> endpoint_table \<Rightarrow> nat \<Rightarrow> knx_binding \<Rightarrow> binding_state \<Rightarrow> binding_state" where
  "knx_binding_step bp x t i b s =
     (let p = item_path (bp @ ''.knx_bindings'') i in
      case bound_name t (kb_endpoint b) of
        None \<Rightarrow> push_error (field (p @ ''.endpoint'') ''must reference an existing endpoint'') s
      | Some (name, d) \<Rightarrow>
          (case group_address_from_str (kb_group_address b) of
             Inl e \<Rightarrow> push_error (field_of (p @ ''.group_address'') (AddressMessage e)) s
           | Inr address \<Rightarrow>
               if bst_addresses s name \<noteq> None
               then push_error (field (p @ ''.endpoint'') ''must have exactly one KNX binding'') s
               else if case rg_address_dpts (bst_routing s) address of None \<Rightarrow> False | Some prev \<Rightarrow> prev \<noteq> d
               then push_error (field (p @ ''.group_address'')
                 (''DPT conflicts with existing binding at '' @ group_address_display address)) s
               else add_address_binding x t name d address s))"

definition add_signal_binding ::
  "rstring \<Rightarrow> block_id \<Rightarrow> endpoint_table \<Rightarrow> endpoint_name \<Rightarrow> dpt \<Rightarrow> signal_name \<Rightarrow> binding_state
     \<Rightarrow> binding_state" where
  "add_signal_binding p x t name d signal s =
     (let s = s\<lparr>bst_signals := bst_signals s @ [(name, signal)]\<rparr>; rg = bst_routing s in
      if et_directions t name = Some Input
      then set_routing (rg\<lparr>rg_signal_to_inputs := append_at signal
             \<lparr>bsb_block_id = x, bsb_endpoint = name, bsb_dpt = d, bsb_signal = signal\<rparr>
             (rg_signal_to_inputs rg)\<rparr>) s
      else if signal \<in> rg_signal_producers rg
      then push_error (field (p @ ''.signal'') ''must have at most one producer'') s
      else set_routing (rg\<lparr>rg_signal_producers := insert signal (rg_signal_producers rg),
             rg_output_to_signal := (rg_output_to_signal rg)((x, name) \<mapsto> signal)\<rparr>) s)"

definition signal_binding_step ::
  "rstring \<Rightarrow> block_id \<Rightarrow> (signal_name \<rightharpoonup> dpt) \<Rightarrow> endpoint_table \<Rightarrow> nat \<Rightarrow> document_signal_binding
     \<Rightarrow> binding_state \<Rightarrow> binding_state" where
  "signal_binding_step bp x signal_dpts t i b s =
     (let p = item_path (bp @ ''.signal_bindings'') i;
          s = set_routing ((bst_routing s)
            \<lparr>rg_signal_binding_count := rg_signal_binding_count (bst_routing s) + 1\<rparr>) s in
      case bound_name t (dsb_endpoint b) of
        None \<Rightarrow> push_error (field (p @ ''.endpoint'') ''must reference an existing endpoint'') s
      | Some (name, d) \<Rightarrow>
          (case signal_name_new (dsb_signal b) of
             Inl _ \<Rightarrow> push_error (field (p @ ''.signal'') ''must reference an existing signal'') s
           | Inr signal \<Rightarrow>
               (case signal_dpts signal of
                  None \<Rightarrow> push_error (field (p @ ''.signal'') ''must reference an existing signal'') s
                | Some sd \<Rightarrow>
                    if d \<noteq> sd
                    then push_error (field (p @ ''.signal'') ''DPT conflicts with endpoint'') s
                    else if bst_addresses s name \<noteq> None \<or> name \<in> fst ` set (bst_signals s)
                    then push_error (field (p @ ''.endpoint'') ''must have exactly one binding'') s
                    else add_signal_binding p x t name d signal s)))"

text \<open>The loops over HTTP and webhook bindings differ in their paths, a message and a table.\<close>

definition external_binding_step ::
  "(block_external_input_binding \<Rightarrow> routing \<Rightarrow> routing) \<Rightarrow> rstring \<Rightarrow> rstring \<Rightarrow> block_id
     \<Rightarrow> (rstring \<rightharpoonup> dpt) \<Rightarrow> endpoint_table \<Rightarrow> nat \<Rightarrow> external_binding \<Rightarrow> binding_state \<Rightarrow> binding_state" where
  "external_binding_step add mismatch path x source_dpts t i b s =
     (let p = item_path path i in
      case read_endpoint_name (p @ ''.endpoint'') (xb_endpoint b) of
        Inl e \<Rightarrow> push_error e s
      | Inr name \<Rightarrow>
          (case et_dpts t name of
             None \<Rightarrow> push_error (field (p @ ''.endpoint'') ''must reference an existing endpoint'') s
           | Some d \<Rightarrow>
               if et_directions t name \<noteq> Some Input
               then push_error (field (p @ ''.endpoint'') ''must reference an input endpoint'') s
               else if source_dpts (xb_source b) \<noteq> Some d
               then push_error (field (p @ ''.source'') mismatch) s
               else s\<lparr>bst_externals := (bst_externals s)(name \<mapsto> xb_source b),
                      bst_routing := add
                        \<lparr>bxb_block_id = x, bxb_endpoint = name, bxb_dpt = d, bxb_source = xb_source b\<rparr>
                        (bst_routing s)\<rparr>))"

definition http_binding_step ::
  "rstring \<Rightarrow> block_id \<Rightarrow> (rstring \<rightharpoonup> dpt) \<Rightarrow> endpoint_table \<Rightarrow> nat \<Rightarrow> external_binding \<Rightarrow> binding_state
     \<Rightarrow> binding_state" where
  "http_binding_step bp =
     external_binding_step
       (\<lambda>b rg. rg\<lparr>rg_http_to_inputs := append_at (bxb_source b) b (rg_http_to_inputs rg)\<rparr>)
       ''must reference an HTTP poll value with matching DPT'' (bp @ ''.http_bindings'')"

definition webhook_binding_step ::
  "rstring \<Rightarrow> block_id \<Rightarrow> (rstring \<rightharpoonup> dpt) \<Rightarrow> endpoint_table \<Rightarrow> nat \<Rightarrow> external_binding \<Rightarrow> binding_state
     \<Rightarrow> binding_state" where
  "webhook_binding_step bp =
     external_binding_step
       (\<lambda>b rg. rg\<lparr>rg_webhook_to_inputs := append_at (bxb_source b) b (rg_webhook_to_inputs rg)\<rparr>)
       ''must reference a webhook input with matching DPT'' (bp @ ''.webhook_bindings'')"

definition unbound_errors :: "rstring \<Rightarrow> endpoint list \<Rightarrow> binding_state \<Rightarrow> field_error list" where
  "unbound_errors bp endpoints s =
     map (\<lambda>e. field (bp @ ''.'' @ (if ep_direction e = Input then ''inputs'' else ''outputs''))
            (''endpoint '' @ endpoint_str (ep_name e) @ '' must have exactly one binding''))
       (filter (\<lambda>e. bst_addresses s (ep_name e) = None \<and> ep_name e \<notin> fst ` set (bst_signals s)
          \<and> bst_externals s (ep_name e) = None) endpoints)"

definition read_bindings ::
  "rstring \<Rightarrow> block_id \<Rightarrow> (signal_name \<rightharpoonup> dpt) \<Rightarrow> (rstring \<rightharpoonup> dpt) \<Rightarrow> endpoint_table \<Rightarrow> document_block
     \<Rightarrow> routing \<Rightarrow> binding_state" where
  "read_bindings bp x signal_dpts source_dpts t b rg =
     (let s = \<lparr>bst_errors = [], bst_routing = rg, bst_addresses = Map.empty, bst_signals = [],
               bst_externals = Map.empty\<rparr>;
          s = each_indexed (knx_binding_step bp x t) (ab_knx_bindings b) s;
          s = each_indexed (signal_binding_step bp x signal_dpts t) (ab_signal_bindings b) s;
          s = each_indexed (http_binding_step bp x source_dpts t) (ab_http_bindings b) s;
          s = each_indexed (webhook_binding_step bp x source_dpts t) (ab_webhook_bindings b) s
      in s\<lparr>bst_errors := bst_errors s @ unbound_errors bp (et_endpoints t) s\<rparr>)"

subsection \<open>Blocks\<close>

definition read_schedule_step ::
  "rstring \<Rightarrow> nat \<Rightarrow> document_schedule \<Rightarrow> field_error list \<times> block_schedule list
     \<Rightarrow> field_error list \<times> block_schedule list" where
  "read_schedule_step bp i s acc =
     (let p = item_path (bp @ ''.schedules'') i in
      case schedule_name_new (asc_name s) of
        Inl _ \<Rightarrow> (fst acc @ [field (p @ ''.name'') ''must be a valid schedule name''], snd acc)
      | Inr name \<Rightarrow>
          (case read_schedule_rule s p of
             (errors, rule) \<Rightarrow>
               (fst acc @ errors,
                snd acc @ (case rule of None \<Rightarrow> []
                  | Some r \<Rightarrow> [\<lparr>sch_name = name, sch_enabled = asc_enabled s, sch_rule = r\<rparr>]))))"

definition read_schedules ::
  "rstring \<Rightarrow> runtime_limits \<Rightarrow> document_block \<Rightarrow> field_error list \<times> block_schedule list" where
  "read_schedules bp limits b =
     each_indexed (read_schedule_step bp) (ab_schedules b)
       (if max_schedules_per_block limits < length (ab_schedules b)
        then [field (bp @ ''.schedules'') ''too many schedules''] else [], [])"

record build_state =
  bd_errors :: "field_error list"
  bd_ids :: "block_id set"
  bd_blocks :: "block_runtime list"
  bd_routing :: routing

definition add_block ::
  "environment \<Rightarrow> runtime_limits \<Rightarrow> (signal_name \<rightharpoonup> dpt) \<Rightarrow> (rstring \<rightharpoonup> dpt) \<Rightarrow> rstring \<Rightarrow> block_id
     \<Rightarrow> document_block \<Rightarrow> build_state \<Rightarrow> build_state" where
  "add_block env limits signal_dpts source_dpts bp x b st =
     (let t = read_endpoints bp b;
          s = read_bindings bp x signal_dpts source_dpts t b (bd_routing st);
          engine_config = \<lparr>ec_endpoints = et_endpoints t, ec_logic = logic_program_new (ab_source b)\<rparr>
      in case read_schedules bp limits b of
           (schedule_errors, schedules) \<Rightarrow>
             st\<lparr>bd_errors := bd_errors st @ et_errors t @ source_size_errors bp limits (ab_source b)
                  @ bst_errors s @ schedule_errors
                  @ (case engine_config_validate_with_limits (env_vm env) engine_config limits of
                       Inl e \<Rightarrow> [field_of (bp @ ''.source'') (EngineMessage e)]
                     | Inr _ \<Rightarrow> []),
                bd_blocks := bd_blocks st
                  @ [\<lparr>br_id = x, br_revision = max (ab_revision b) 1, br_enabled = ab_enabled b,
                      br_engine_config = engine_config, br_endpoint_to_address = bst_addresses s,
                      br_endpoint_to_signal = bst_signals s, br_endpoint_to_external = bst_externals s,
                      br_endpoint_dpts = et_dpts t, br_schedules = schedules\<rparr>],
                bd_routing := bst_routing s\<rparr>)"

definition block_step ::
  "environment \<Rightarrow> runtime_limits \<Rightarrow> (signal_name \<rightharpoonup> dpt) \<Rightarrow> (rstring \<rightharpoonup> dpt) \<Rightarrow> nat \<Rightarrow> document_block
     \<Rightarrow> build_state \<Rightarrow> build_state" where
  "block_step env limits signal_dpts source_dpts bi b st =
     (let bp = item_path ''blocks'' bi in
      case block_id_new (ab_id b) of
        Inl e \<Rightarrow>
          st\<lparr>bd_errors := bd_errors st @ [field_of (bp @ ''.id'') (BlockIdMessage e)]\<rparr>
      | Inr x \<Rightarrow>
          if x \<in> bd_ids st
          then st\<lparr>bd_errors := bd_errors st @ [field (bp @ ''.id'') ''must be unique'']\<rparr>
          else add_block env limits signal_dpts source_dpts bp x b
            (st\<lparr>bd_ids := insert x (bd_ids st)\<rparr>))"

subsection \<open>The build\<close>

definition core_block_of :: "document_services \<Rightarrow> nat \<Rightarrow> block_runtime \<Rightarrow> block_config" where
  "core_block_of ds i b =
     \<lparr>bc_id = br_id b, bc_enabled = br_enabled b,
      bc_endpoints = ec_endpoints (br_engine_config b),
      bc_logic = logic_program_new (lp_source (ec_logic (br_engine_config b))),
      bc_schedules = br_schedules b,
      bc_signal_bindings = map (\<lambda>(e, s). \<lparr>sb_endpoint = e, sb_signal = s\<rparr>)
        (ds_hash_order ds i (br_endpoint_to_signal b))\<rparr>"

definition core_config_of ::
  "document_services \<Rightarrow> block_runtime list \<Rightarrow> signal_runtime list \<Rightarrow> runtime_config" where
  "core_config_of ds blocks signals =
     \<lparr>rc_blocks = map (\<lambda>(i, b). core_block_of ds i b) (List.enumerate 0 blocks),
      rc_signals = map (\<lambda>s. \<lparr>sgc_name = sr_name s, sgc_dpt = sr_dpt s\<rparr>) signals,
      rc_site = default_site\<rparr>"

definition capability_errors :: "capabilities \<Rightarrow> automation_document \<Rightarrow> field_error list" where
  "capability_errors caps document =
     (if \<not> cap_http_inputs caps
         \<and> (ad_http_polls document \<noteq> [] \<or> list_ex (\<lambda>b. ab_http_bindings b \<noteq> []) (ad_blocks document))
      then [field ''http_polls'' ''feature_disabled: HTTP inputs are unavailable''] else [])
     @ (if \<not> cap_webhook_inputs caps
         \<and> (ad_webhook_inputs document \<noteq> []
            \<or> list_ex (\<lambda>b. ab_webhook_bindings b \<noteq> []) (ad_blocks document))
      then [field ''webhook_inputs'' ''feature_disabled: webhook inputs are unavailable''] else [])
     @ (if \<not> cap_schedules caps \<and> list_ex (\<lambda>b. ab_schedules b \<noteq> []) (ad_blocks document)
      then [field ''blocks.schedules'' ''feature_disabled: schedules are unavailable''] else [])"

definition size_errors :: "automation_document \<Rightarrow> field_error list" where
  "size_errors document =
     (if ad_blocks document = [] then [field ''blocks'' ''must contain at least one block''] else [])
     @ (if api_max_blocks < length (ad_blocks document)
        then [field ''blocks'' (''must contain at most '' @ decimal api_max_blocks @ '' blocks'')]
        else [])
     @ (if api_max_signals < length (ad_signals document)
        then [field ''signals'' (''must contain at most '' @ decimal api_max_signals @ '' signals'')]
        else [])"

definition read_blocks ::
  "environment \<Rightarrow> runtime_limits \<Rightarrow> automation_document \<Rightarrow> signal_table \<Rightarrow> source_table \<Rightarrow> build_state"
  where
  "read_blocks env limits document signals sources =
     each_indexed (block_step env limits (sgt_dpts signals) (src_dpts sources)) (ad_blocks document)
       \<lparr>bd_errors = [], bd_ids = {}, bd_blocks = [], bd_routing = empty_routing\<rparr>"

definition build_automation_inner ::
  "environment \<Rightarrow> document_services \<Rightarrow> automation_document \<Rightarrow> runtime_limits \<Rightarrow> capabilities
     \<Rightarrow> field_error list + automation_runtime" where
  "build_automation_inner env ds document limits caps =
     (let signals = read_signals (ad_signals document);
          sources = read_sources document;
          st = read_blocks env limits document signals sources;
          core = core_config_of ds (bd_blocks st) (sgt_signals signals);
          errors = capability_errors caps document @ size_errors document @ sgt_errors signals
            @ src_errors sources @ bd_errors st
            @ (if api_max_signal_bindings < rg_signal_binding_count (bd_routing st)
               then [field ''blocks.signal_bindings''
                 (''must contain at most '' @ decimal api_max_signal_bindings @ '' bindings'')]
               else [])
            @ (case runtime_config_validate_with_limits env core limits of
                 Inl e \<Rightarrow> [field_of ''blocks'' (ConfigMessage e)] | Inr _ \<Rightarrow> [])
      in if errors \<noteq> [] then Inl errors
         else Inr \<lparr>ar_document = document, ar_signals = sgt_signals signals, ar_core_config = core,
                   ar_blocks = bd_blocks st, ar_routing = bd_routing st,
                   ar_http_polls = src_polls sources, ar_webhook_inputs = src_webhooks sources,
                   ar_structural_revision = document_structural_revision ds document,
                   ar_document_revision = 0\<rparr>)"

text \<open>The profiles: the embedded one has the limits and capabilities of its own.\<close>

fun profile_capabilities ::
  "environment \<Rightarrow> document_services \<Rightarrow> runtime_profile \<Rightarrow> capabilities" where
  "profile_capabilities env ds Desktop = capabilities_desktop env ds"
| "profile_capabilities env ds EmbeddedBaseline = capabilities_embedded env"

definition build_automation_with_profile ::
  "environment \<Rightarrow> document_services \<Rightarrow> automation_document \<Rightarrow> runtime_profile
     \<Rightarrow> field_error list + automation_runtime" where
  "build_automation_with_profile env ds document profile =
     build_automation_inner env ds document (profile_limits profile)
       (profile_capabilities env ds profile)"

definition build_automation ::
  "environment \<Rightarrow> document_services \<Rightarrow> automation_document \<Rightarrow> field_error list + automation_runtime"
  where
  "build_automation env ds document = build_automation_with_profile env ds document Desktop"

end
