(* ===== verification/Api_Messages.thy ===== *)
theory Api_Messages
  imports Document_Build Runtime_Activation
begin

text \<open>
  The messages of \<open>logiksmith-runtime-api/src/operations.rs\<close> and \<open>revisions.rs\<close>: values, states,
  timers and inputs as a host sends them, and the projections of executions and blocks that it
  receives.
\<close>

subsection \<open>Results of lists\<close>

text \<open>\<open>collect::<Result<Vec<_>, _>>()\<close>: all values, or the first error.\<close>

fun collect_results :: "('e + 'a) list \<Rightarrow> 'e + 'a list" where
  "collect_results [] = Inr []"
| "collect_results (r # rs) =
     result_bind r (\<lambda>x. result_bind (collect_results rs) (\<lambda>xs. Inr (x # xs)))"

lemma collect_results_Inr: "collect_results (map (\<lambda>x. Inr (f x)) xs) = Inr (map f xs)"
  by (induction xs) simp_all

lemma collect_results_read:
  "(\<And>x. x \<in> set xs \<Longrightarrow> f x = Inr (g x)) \<Longrightarrow> collect_results (map f xs) = Inr (map g xs)"
  by (induction xs) simp_all

subsection \<open>Errors\<close>

type_synonym revision = u64

text \<open>The message of a failing runtime operation is the text of its error.\<close>

datatype runtime_failure =
    ConfigFailure runtime_config_error
  | EventFailure runtime_event_error
  | ActivationFailure activation_error
  | SimulationFailure runtime_simulation_error

datatype operation_error =
    OpUnknownBlock rstring
  | OpStale revision revision "revision option"
  | OpInvalid "field_error list"
  | OpRuntime runtime_failure

definition invalid :: "field_error \<Rightarrow> operation_error" where
  "invalid e = OpInvalid [e]"

subsection \<open>Revisions\<close>

text \<open>A revision is the decimal string of its number.\<close>

definition revision_text :: "revision \<Rightarrow> rstring" where
  "revision_text r = decimal (unat r)"

definition revision_from_text :: "rstring \<Rightarrow> revision option" where
  "revision_from_text s = map_option of_nat (parse_unsigned (2 ^ 64 - 1) s)"

subsection \<open>Values\<close>

datatype value_message =
    MsgBool bool
  | MsgPercent u8
  | MsgTemperature f64

text \<open>A temperature does not look at the datapoint type of its endpoint.\<close>

definition value_to_core :: "value_message \<Rightarrow> dpt \<Rightarrow> rstring \<Rightarrow> field_error + typed_value" where
  "value_to_core m d path =
     (case m of
        MsgBool b \<Rightarrow> map_err (\<lambda>e. field_of path (ValueErrorMessage e)) (typed_value_new d (VBool b))
      | MsgPercent p \<Rightarrow> map_err (\<lambda>e. field_of path (ValueErrorMessage e)) (typed_value_new d (VPercent p))
      | MsgTemperature t \<Rightarrow> map_err (\<lambda>e. field_of path (ValueErrorMessage e)) (temperature t))"

definition value_from_core :: "typed_value \<Rightarrow> value_message" where
  "value_from_core v =
     (case tv_value v of
        VBool b \<Rightarrow> MsgBool b
      | VPercent p \<Rightarrow> MsgPercent p
      | VTemperature c \<Rightarrow> MsgTemperature (centi_to_f64 c))"

subsection \<open>State and timers\<close>

datatype state_message =
    MsgStateBool bool
  | MsgInteger int \<comment> \<open>\<open>i64\<close>\<close>
  | MsgNumber f64
  | MsgString rstring

record timer_message =
  tm_name :: rstring
  tm_scheduled_at_ms :: u64
  tm_due_at_ms :: u64
  tm_logic_revision :: revision

definition state_value_of :: "rstring \<Rightarrow> state_message \<Rightarrow> operation_error + state_value" where
  "state_value_of key m =
     (case m of
        MsgStateBool b \<Rightarrow> Inr (SBool b)
      | MsgInteger i \<Rightarrow> Inr (SInteger i)
      | MsgNumber x \<Rightarrow>
          if f64_is_finite x then Inr (SNumber x)
          else Inl (invalid (field (''state.'' @ key) ''must be finite''))
      | MsgString s \<Rightarrow> Inr (SString s))"

definition state_map ::
  "(rstring, state_message) btree_map \<Rightarrow> operation_error + transient_state" where
  "state_map values =
     collect_results (map (\<lambda>(k, v). result_bind (state_value_of k v) (\<lambda>x. Inr (k, x))) values)"

definition state_message_of :: "state_value \<Rightarrow> state_message" where
  "state_message_of v =
     (case v of
        SBool b \<Rightarrow> MsgStateBool b
      | SInteger i \<Rightarrow> MsgInteger i
      | SNumber x \<Rightarrow> MsgNumber x
      | SString s \<Rightarrow> MsgString s)"

definition state_projection :: "transient_state \<Rightarrow> (rstring, state_message) btree_map" where
  "state_projection state = map (\<lambda>(k, v). (k, state_message_of v)) state"

definition pending_timer_of :: "timer_message \<Rightarrow> operation_error + pending_timer" where
  "pending_timer_of m =
     result_bind
       (map_err (\<lambda>e. invalid (field_of ''pending_timers.name'' (TimerNameMessage e)))
         (timer_name_new (tm_name m)))
       (\<lambda>name. Inr
         \<lparr>pt_name = name, pt_scheduled_at = tm_scheduled_at_ms m, pt_due_at = tm_due_at_ms m,
          pt_scheduled_logic_revision = tm_logic_revision m\<rparr>)"

definition pending_timers :: "timer_message list \<Rightarrow> operation_error + pending_timer list" where
  "pending_timers values = collect_results (map pending_timer_of values)"

definition timer_projection :: "pending_timer \<Rightarrow> timer_message" where
  "timer_projection t =
     \<lparr>tm_name = timer_str (pt_name t), tm_scheduled_at_ms = pt_scheduled_at t,
      tm_due_at_ms = pt_due_at t, tm_logic_revision = pt_scheduled_logic_revision t\<rparr>"

subsection \<open>Inputs of simulations\<close>

record input_message =
  im_endpoint :: rstring
  im_value :: "value_message option"
  im_valid :: bool
  im_age_ms :: "u64 option"

record simulation_request =
  srq_block_id :: rstring
  srq_source :: "rstring option"
  srq_trigger_endpoint :: rstring
  srq_trigger_value :: value_message
  srq_previous :: "value_message option"
  srq_inputs :: "input_message list"
  srq_state :: "(rstring, state_message) btree_map"
  srq_pending_timers :: "timer_message list"
  srq_now_ms :: u64

record timer_simulation_request =
  tsr_block_id :: rstring
  tsr_timer :: rstring
  tsr_fired_at_ms :: u64
  tsr_source :: "rstring option"
  tsr_inputs :: "input_message list"
  tsr_state :: "(rstring, state_message) btree_map"
  tsr_pending_timers :: "timer_message list"

text \<open>An endpoint that a message names, and its datapoint type in the block.\<close>

definition parse_endpoint :: "rstring \<Rightarrow> rstring \<Rightarrow> operation_error + endpoint_name" where
  "parse_endpoint path text =
     map_err (\<lambda>_. invalid (field path ''invalid endpoint'')) (endpoint_name_new text)"

definition endpoint_dpt :: "block_runtime \<Rightarrow> rstring \<Rightarrow> endpoint_name \<Rightarrow> operation_error + dpt" where
  "endpoint_dpt b path name =
     ok_or (invalid (field path ''unknown endpoint'')) (br_endpoint_dpts b name)"

definition simulation_input_of ::
  "block_runtime \<Rightarrow> input_message \<Rightarrow> operation_error + simulation_input" where
  "simulation_input_of b m =
     result_bind (parse_endpoint ''inputs.endpoint'' (im_endpoint m)) (\<lambda>name.
     result_bind (endpoint_dpt b ''inputs.endpoint'' name) (\<lambda>d.
     result_bind
       (if \<not> im_valid m then Inr None
        else case im_value m of
          Some v \<Rightarrow> result_bind (map_err invalid (value_to_core v d ''inputs.value'')) (\<lambda>x. Inr (Some x))
        | None \<Rightarrow> Inl (invalid (field ''inputs.value'' ''required for a valid input''))) (\<lambda>v.
     Inr \<lparr>si_endpoint = name, si_value = v, si_valid = im_valid m, si_age_ms = im_age_ms m\<rparr>)))"

definition simulation_inputs ::
  "block_runtime \<Rightarrow> input_message list \<Rightarrow> operation_error + simulation_input list" where
  "simulation_inputs b values = collect_results (map (simulation_input_of b) values)"

definition input_scenario ::
  "block_runtime \<Rightarrow> simulation_request \<Rightarrow> operation_error + simulation_scenario" where
  "input_scenario b request =
     result_bind (parse_endpoint ''trigger_endpoint'' (srq_trigger_endpoint request)) (\<lambda>name.
     result_bind (endpoint_dpt b ''trigger_endpoint'' name) (\<lambda>d.
     result_bind (map_err invalid (value_to_core (srq_trigger_value request) d ''trigger_value'')) (\<lambda>v.
     result_bind
       (case srq_previous request of
          None \<Rightarrow> Inr None
        | Some p \<Rightarrow> result_bind (map_err invalid (value_to_core p d ''previous'')) (\<lambda>x. Inr (Some x)))
       (\<lambda>previous.
     result_bind (simulation_inputs b (srq_inputs request)) (\<lambda>inputs.
     Inr \<lparr>sc_trigger = \<lparr>sim_endpoint = name, sim_value = v, sim_previous = previous\<rparr>,
          sc_inputs = inputs\<rparr>)))))"

subsection \<open>Projections\<close>

datatype trigger_projection =
    ProjInput rstring value_message "value_message option" bool bool bool
  | ProjTimer rstring u64 u64 u64
  | ProjSchedule rstring int

record input_projection =
  ip_endpoint :: rstring
  ip_dpt :: rstring
  ip_value :: "value_message option"
  ip_valid :: bool
  ip_age_ms :: "u64 option"

record output_projection =
  op_endpoint :: rstring
  op_value :: value_message

record timer_effect_projection =
  tep_name :: rstring
  tep_action :: rstring
  tep_due_at_ms :: "u64 option"

record source_error_projection =
  sep_category :: rstring
  sep_message :: logic_message
  sep_line :: "nat option"

record outcome_projection =
  ocp_ok :: bool
  ocp_state :: "(rstring, state_message) btree_map"
  ocp_outputs :: "output_projection list"
  ocp_timers :: "timer_effect_projection list"
  ocp_error :: "source_error_projection option"

record execution_projection =
  xp_id :: "revision option"
  xp_logic_revision :: revision
  xp_trigger :: trigger_projection
  xp_inputs :: "input_projection list"
  xp_state_before :: "(rstring, state_message) btree_map"
  xp_state_after :: "(rstring, state_message) btree_map"
  xp_pending_timers :: "timer_message list"
  xp_outcome :: outcome_projection

definition input_projection_of :: "input_snapshot \<Rightarrow> input_projection" where
  "input_projection_of i =
     \<lparr>ip_endpoint = endpoint_str (is_endpoint i), ip_dpt = dpt_display (is_dpt i),
      ip_value = map_option value_from_core (is_value i), ip_valid = is_valid i,
      ip_age_ms = is_age_ms i\<rparr>"

fun trigger_projection_of :: "trigger \<Rightarrow> trigger_projection" where
  "trigger_projection_of (TrigInput t) =
     ProjInput (endpoint_str (it_endpoint t)) (value_from_core (it_value t))
       (map_option value_from_core (it_previous t)) (it_changed t) (it_rising t) (it_falling t)"
| "trigger_projection_of (TrigTimer t) =
     ProjTimer (timer_str (tt_name t)) (tt_scheduled_at t) (tt_due_at t) (tt_fired_at t)"
| "trigger_projection_of (TrigSchedule t) =
     ProjSchedule (schedule_str (st_name t)) (st_scheduled_for_utc_ms t)"

text \<open>The derived \<open>Debug\<close> text of a timer action.\<close>

definition debug_field :: "rstring \<Rightarrow> nat \<Rightarrow> rstring" where
  "debug_field name n = name @ '': '' @ decimal n"

definition debug_time :: "rstring \<Rightarrow> monotonic_ms \<Rightarrow> rstring" where
  "debug_time name t = name @ '': MonotonicMs('' @ decimal (unat t) @ '')''"

fun timer_action_debug :: "timer_action \<Rightarrow> rstring" where
  "timer_action_debug (TimerScheduled after due) =
     ''Scheduled { '' @ debug_field ''after_ms'' (unat after) @ '', '' @ debug_time ''due_at'' due @ '' }''"
| "timer_action_debug (TimerReplaced previous after due) =
     ''Replaced { '' @ debug_time ''previous_due_at'' previous @ '', ''
       @ debug_field ''after_ms'' (unat after) @ '', '' @ debug_time ''due_at'' due @ '' }''"
| "timer_action_debug (TimerCancelled previous) =
     ''Cancelled { '' @ debug_time ''previous_due_at'' previous @ '' }''"
| "timer_action_debug TimerCancelNoop = ''CancelNoop''"

fun action_due_at :: "timer_action \<Rightarrow> monotonic_ms option" where
  "action_due_at (TimerScheduled _ due) = Some due"
| "action_due_at (TimerReplaced _ _ due) = Some due"
| "action_due_at _ = None"

definition outcome_projection_of :: "logic_error + transition \<Rightarrow> outcome_projection" where
  "outcome_projection_of outcome =
     (case outcome of
        Inr t \<Rightarrow>
          \<lparr>ocp_ok = True, ocp_state = state_projection (tr_state t),
           ocp_outputs = map (\<lambda>out. \<lparr>op_endpoint = endpoint_str (oe_endpoint out),
             op_value = value_from_core (oe_value out)\<rparr>) (tr_outputs t),
           ocp_timers = map (\<lambda>e. \<lparr>tep_name = timer_str (te_name e),
             tep_action = timer_action_debug (te_action e),
             tep_due_at_ms = action_due_at (te_action e)\<rparr>) (tr_timers t),
           ocp_error = None\<rparr>
      | Inl e \<Rightarrow>
          \<lparr>ocp_ok = False, ocp_state = [], ocp_outputs = [], ocp_timers = [],
           ocp_error = Some \<lparr>sep_category = logic_error_category e, sep_message = logic_error_message e,
             sep_line = logic_error_line e\<rparr>\<rparr>)"

definition execution_projection_of :: "execution \<Rightarrow> execution_projection" where
  "execution_projection_of ex =
     \<lparr>xp_id = ex_id ex, xp_logic_revision = ex_logic_revision ex,
      xp_trigger = trigger_projection_of (ex_trigger ex),
      xp_inputs = map input_projection_of (ex_inputs ex),
      xp_state_before = state_projection (ex_state_before ex),
      xp_state_after = state_projection (ex_state_after ex),
      xp_pending_timers = map timer_projection (ex_pending_timers ex),
      xp_outcome = outcome_projection_of (ex_outcome ex)\<rparr>"

record block_projection =
  bp_id :: rstring
  bp_enabled :: bool
  bp_health :: rstring
  bp_consecutive_failures :: u32
  bp_logic_revision :: revision
  bp_inputs :: "input_projection list"
  bp_state :: "(rstring, state_message) btree_map"
  bp_pending_timers :: "timer_message list"

record runtime_projection =
  rp_document_revision :: revision
  rp_structural_revision :: revision
  rp_logic_revision :: revision
  rp_blocks :: "block_projection list"

record activation_block_projection =
  abp_block_id :: rstring
  abp_block_revision :: revision
  abp_logic_revision :: revision
  abp_enabled :: bool
  abp_source_changed :: bool
  abp_enabled_changed :: bool
  abp_cancelled_timers :: "rstring list"

record activation_projection =
  ap_document_revision :: revision
  ap_structural_revision :: revision
  ap_blocks :: "activation_block_projection list"

record validation_projection =
  vp_valid :: bool
  vp_document_revision :: revision
  vp_structural_revision :: revision
  vp_errors :: "field_error list"

definition block_projection_of :: "block_snapshot \<Rightarrow> block_projection" where
  "block_projection_of b =
     \<lparr>bp_id = block_str (bsn_id b), bp_enabled = bsn_enabled b, bp_health = health_as_str (bsn_health b),
      bp_consecutive_failures = bsn_consecutive_failures b, bp_logic_revision = bsn_logic_revision b,
      bp_inputs = map input_projection_of (bsn_inputs b), bp_state = state_projection (bsn_state b),
      bp_pending_timers = map timer_projection (bsn_pending_timers b)\<rparr>"

end
