(* ===== verification/Api_Operations.thy ===== *)
theory Api_Operations
  imports Api_Messages
begin

text \<open>
  \<open>RuntimeApi\<close> of \<open>logiksmith-runtime-api/src/operations.rs\<close>: the runtime beside the document it was
  built from and the revisions that guard its changes.  A method with \<open>&mut self\<close> returns the new
  state beside its result.
\<close>

subsection \<open>State\<close>

record runtime_api =
  api_runtime :: runtime
  api_document :: automation_document
  api_automation :: automation_runtime
  api_structural_revision :: revision
  api_document_revision :: revision
  api_block_revisions :: "(rstring, revision) btree_map"

record activation_request =
  arq_block_id :: rstring
  arq_source :: "rstring option"
  arq_enabled :: "bool option"
  arq_expected_document_revision :: revision
  arq_expected_structural_revision :: revision
  arq_expected_block_revision :: revision
  arq_new_document_revision :: revision

text \<open>The revision table is collected from the blocks of the document.\<close>

definition initial_revisions :: "automation_document \<Rightarrow> (rstring, revision) btree_map" where
  "initial_revisions document =
     foldl (\<lambda>m b. btm_insert (ab_id b) (max (ab_revision b) 1) m) [] (ad_blocks document)"

text \<open>The construction under given limits and capabilities, and those of a profile.\<close>

definition api_with_limits ::
  "environment \<Rightarrow> document_services \<Rightarrow> automation_document \<Rightarrow> runtime_limits \<Rightarrow> capabilities
     \<Rightarrow> operation_error + runtime_api" where
  "api_with_limits env ds document limits caps =
     result_bind (map_err OpInvalid (build_automation_inner env ds document limits caps)) (\<lambda>a.
     result_bind
       (map_err (\<lambda>e. OpRuntime (ConfigFailure e))
         (runtime_try_new_with_limits env (ar_core_config a) limits)) (\<lambda>rt.
     Inr \<lparr>api_runtime = rt, api_document = document, api_automation = a,
          api_structural_revision = ar_structural_revision a, api_document_revision = 0,
          api_block_revisions = initial_revisions (ar_document a)\<rparr>))"

definition api_from_document ::
  "environment \<Rightarrow> document_services \<Rightarrow> automation_document \<Rightarrow> runtime_profile
     \<Rightarrow> operation_error + runtime_api" where
  "api_from_document env ds document profile =
     api_with_limits env ds document (profile_limits profile) (profile_capabilities env ds profile)"

definition api_new ::
  "environment \<Rightarrow> document_services \<Rightarrow> automation_runtime \<Rightarrow> operation_error + runtime_api" where
  "api_new env ds a = api_from_document env ds (ar_document a) Desktop"

text \<open>
  \<open>runtime_mut\<close> hands out the runtime itself; what its caller does with it is a function on runtimes.
\<close>

definition runtime_mut :: "(runtime \<Rightarrow> runtime) \<Rightarrow> runtime_api \<Rightarrow> runtime_api" where
  "runtime_mut f a = a\<lparr>api_runtime := f (api_runtime a)\<rparr>"

subsection \<open>Validation\<close>

definition invalid_projection :: "field_error list \<Rightarrow> validation_projection" where
  "invalid_projection errors =
     \<lparr>vp_valid = False, vp_document_revision = 0, vp_structural_revision = 0, vp_errors = errors\<rparr>"

definition validate_document ::
  "environment \<Rightarrow> document_services \<Rightarrow> automation_document \<Rightarrow> runtime_profile \<Rightarrow> validation_projection"
  where
  "validate_document env ds document profile =
     (case build_automation_with_profile env ds document profile of
        Inr a \<Rightarrow>
          \<lparr>vp_valid = True, vp_document_revision = 0,
           vp_structural_revision = ar_structural_revision a, vp_errors = []\<rparr>
      | Inl errors \<Rightarrow> invalid_projection errors)"

definition api_validate_source ::
  "environment \<Rightarrow> rstring \<Rightarrow> runtime_profile \<Rightarrow> validation_projection" where
  "api_validate_source env source profile =
     (case logic_program_try_new_with_limits (env_vm env) source (profile_limits profile) of
        Inr _ \<Rightarrow>
          \<lparr>vp_valid = True, vp_document_revision = 0, vp_structural_revision = 0, vp_errors = []\<rparr>
      | Inl e \<Rightarrow> invalid_projection [field_of ''source'' (LogicErrorMessage e)])"

subsection \<open>Lookups and revisions\<close>

definition api_block :: "runtime_api \<Rightarrow> rstring \<Rightarrow> operation_error + block_runtime" where
  "api_block a text =
     result_bind (map_err (\<lambda>_. OpUnknownBlock text) (block_id_new text)) (\<lambda>x.
     ok_or (OpUnknownBlock text) (automation_block (api_automation a) x))"

definition check_cas ::
  "runtime_api \<Rightarrow> rstring \<Rightarrow> revision \<Rightarrow> revision \<Rightarrow> revision \<Rightarrow> operation_error + unit" where
  "check_cas a block doc structural revision =
     (let current = btm_get (api_block_revisions a) block in
      if doc \<noteq> api_document_revision a \<or> structural \<noteq> api_structural_revision a
        \<or> current \<noteq> Some revision
      then Inl (OpStale (api_document_revision a) (api_structural_revision a) current)
      else Inr ())"

subsection \<open>Inputs and timers\<close>

text \<open>The block, endpoint and typed value of an input message.\<close>

definition decode_input ::
  "runtime_api \<Rightarrow> rstring \<Rightarrow> rstring \<Rightarrow> value_message
     \<Rightarrow> operation_error + block_id \<times> endpoint_name \<times> typed_value" where
  "decode_input a block endpoint m =
     result_bind (parse_endpoint ''endpoint'' endpoint) (\<lambda>name.
     result_bind (api_block a block) (\<lambda>b.
     result_bind (endpoint_dpt b ''endpoint'' name) (\<lambda>d.
     result_bind (map_err invalid (value_to_core m d ''value'')) (\<lambda>v.
     Inr (br_id b, name, v)))))"

definition projected_execution ::
  "runtime_event_error + block_execution option \<Rightarrow> operation_error + execution_projection option" where
  "projected_execution r =
     (case r of
        Inl e \<Rightarrow> Inl (OpRuntime (EventFailure e))
      | Inr bx \<Rightarrow> Inr (map_option (\<lambda>b. execution_projection_of (bx_execution b)) bx))"

definition deliver_input ::
  "environment \<Rightarrow> rstring \<Rightarrow> rstring \<Rightarrow> value_message \<Rightarrow> u64 \<Rightarrow> runtime_api
     \<Rightarrow> (operation_error + execution_projection option) \<times> runtime_api" where
  "deliver_input env block endpoint m now a =
     (case decode_input a block endpoint m of
        Inl e \<Rightarrow> (Inl e, a)
      | Inr (x, name, v) \<Rightarrow>
          (case process_input env x name v now (api_runtime a) of
             (r, rt) \<Rightarrow> (projected_execution r, a\<lparr>api_runtime := rt\<rparr>)))"

definition api_observe_input ::
  "environment \<Rightarrow> rstring \<Rightarrow> rstring \<Rightarrow> value_message \<Rightarrow> u64 \<Rightarrow> runtime_api
     \<Rightarrow> (operation_error + unit) \<times> runtime_api" where
  "api_observe_input env block endpoint m now a =
     (case decode_input a block endpoint m of
        Inl e \<Rightarrow> (Inl e, a)
      | Inr (x, name, v) \<Rightarrow>
          (case observe_input env x name v now (api_runtime a) of
             (r, rt) \<Rightarrow> (map_err (\<lambda>e. OpRuntime (EventFailure e)) r, a\<lparr>api_runtime := rt\<rparr>)))"

definition api_process_due_timer ::
  "environment \<Rightarrow> u64 \<Rightarrow> runtime_api
     \<Rightarrow> (operation_error + execution_projection option) \<times> runtime_api" where
  "api_process_due_timer env now a =
     (case process_next_due_timer env now (api_runtime a) of
        (r, rt) \<Rightarrow> (projected_execution r, a\<lparr>api_runtime := rt\<rparr>))"

subsection \<open>Activation\<close>

text \<open>The first block with the identifier is replaced: \<open>iter_mut().find()\<close>.\<close>

fun update_document_block ::
  "rstring \<Rightarrow> (document_block \<Rightarrow> document_block) \<Rightarrow> document_block list \<Rightarrow> document_block list" where
  "update_document_block x f [] = []"
| "update_document_block x f (b # bs) =
     (if ab_id b = x then f b # bs else b # update_document_block x f bs)"

text \<open>The document block after an activation.\<close>

definition activated_document_block :: "activation_request \<Rightarrow> document_block \<Rightarrow> document_block" where
  "activated_document_block request b =
     b\<lparr>ab_source := (case arq_source request of None \<Rightarrow> ab_source b | Some s \<Rightarrow> s),
       ab_enabled := (case arq_enabled request of None \<Rightarrow> ab_enabled b | Some e \<Rightarrow> e),
       ab_revision := max (saturating_add_word (ab_revision b) 1) 1\<rparr>"

definition activation_block_projection_of ::
  "revision \<Rightarrow> block_activation_result \<Rightarrow> activation_block_projection" where
  "activation_block_projection_of revision r =
     \<lparr>abp_block_id = block_str (bar_block_id r), abp_block_revision = revision,
      abp_logic_revision = bar_logic_revision r, abp_enabled = bar_enabled r,
      abp_source_changed = bar_source_changed r, abp_enabled_changed = bar_enabled_changed r,
      abp_cancelled_timers = map timer_str (bar_cancelled_timers r)\<rparr>"

text \<open>The changes to document and revisions after the runtime has activated.\<close>

definition record_activation ::
  "activation_request \<Rightarrow> document_block \<Rightarrow> block_activation_result list \<Rightarrow> runtime_api
     \<Rightarrow> activation_projection \<times> runtime_api" where
  "record_activation request b results a =
     (let b = activated_document_block request b;
          revision = max (arq_new_document_revision request)
            (saturating_add_word (api_document_revision a) 1)
      in (\<lparr>ap_document_revision = revision, ap_structural_revision = api_structural_revision a,
           ap_blocks = map (activation_block_projection_of (ab_revision b)) results\<rparr>,
          a\<lparr>api_document := (api_document a)\<lparr>ad_blocks := update_document_block (arq_block_id request)
              (activated_document_block request) (ad_blocks (api_document a))\<rparr>,
            api_document_revision := revision,
            api_block_revisions := btm_insert (ab_id b) (ab_revision b) (api_block_revisions a)\<rparr>))"

definition api_activate ::
  "environment \<Rightarrow> activation_request \<Rightarrow> runtime_api
     \<Rightarrow> (operation_error + activation_projection) \<times> runtime_api" where
  "api_activate env request a =
     (case result_bind
             (check_cas a (arq_block_id request) (arq_expected_document_revision request)
               (arq_expected_structural_revision request) (arq_expected_block_revision request))
             (\<lambda>_. map_err (\<lambda>_. OpUnknownBlock (arq_block_id request))
                (block_id_new (arq_block_id request))) of
        Inl e \<Rightarrow> (Inl e, a)
      | Inr x \<Rightarrow>
          (case activate env
                  [\<lparr>ba_block_id = x, ba_source = arq_source request, ba_enabled = arq_enabled request\<rparr>]
                  (api_runtime a) of
             (Inl e, rt) \<Rightarrow> (Inl (OpRuntime (ActivationFailure e)), a\<lparr>api_runtime := rt\<rparr>)
           | (Inr results, rt) \<Rightarrow>
               let a = a\<lparr>api_runtime := rt\<rparr> in
               (case find (\<lambda>b. ab_id b = arq_block_id request) (ad_blocks (api_document a)) of
                  None \<Rightarrow> (Inl (OpUnknownBlock (arq_block_id request)), a)
                | Some b \<Rightarrow>
                    (case record_activation request b results a of (p, a) \<Rightarrow> (Inr p, a)))))"

definition api_set_enabled ::
  "environment \<Rightarrow> rstring \<Rightarrow> bool \<Rightarrow> revision \<Rightarrow> revision \<Rightarrow> revision \<Rightarrow> revision \<Rightarrow> runtime_api
     \<Rightarrow> (operation_error + activation_projection) \<times> runtime_api" where
  "api_set_enabled env block enabled doc structural revision new_doc a =
     api_activate env
       \<lparr>arq_block_id = block, arq_source = None, arq_enabled = Some enabled,
        arq_expected_document_revision = doc, arq_expected_structural_revision = structural,
        arq_expected_block_revision = revision, arq_new_document_revision = new_doc\<rparr> a"

definition api_resume ::
  "rstring \<Rightarrow> revision \<Rightarrow> revision \<Rightarrow> revision \<Rightarrow> runtime_api
     \<Rightarrow> (operation_error + unit) \<times> runtime_api" where
  "api_resume block doc structural revision a =
     (case result_bind (check_cas a block doc structural revision)
             (\<lambda>_. map_err (\<lambda>_. OpUnknownBlock block) (block_id_new block)) of
        Inl e \<Rightarrow> (Inl e, a)
      | Inr x \<Rightarrow>
          (case resume_block x (api_runtime a) of
             (r, rt) \<Rightarrow> (map_err (\<lambda>e. OpRuntime (EventFailure e)) r, a\<lparr>api_runtime := rt\<rparr>)))"

subsection \<open>Simulation and projection\<close>

definition projected_simulation ::
  "runtime_simulation_error + block_execution \<Rightarrow> operation_error + execution_projection" where
  "projected_simulation r =
     (case r of
        Inl e \<Rightarrow> Inl (OpRuntime (SimulationFailure e))
      | Inr bx \<Rightarrow> Inr (execution_projection_of (bx_execution bx)))"

definition api_simulate_input ::
  "environment \<Rightarrow> simulation_request \<Rightarrow> runtime_api \<Rightarrow> operation_error + execution_projection" where
  "api_simulate_input env request a =
     result_bind (api_block a (srq_block_id request)) (\<lambda>b.
     result_bind (input_scenario b request) (\<lambda>scenario.
     result_bind (state_map (srq_state request)) (\<lambda>state.
     result_bind (pending_timers (srq_pending_timers request)) (\<lambda>timers.
     projected_simulation
       (case srq_source request of
          Some source \<Rightarrow>
            runtime_simulate_input_with_source env (api_runtime a) (br_id b) source scenario state timers
              (srq_now_ms request)
        | None \<Rightarrow>
            runtime_simulate_input_with_state env (api_runtime a) (br_id b) scenario state timers
              (srq_now_ms request))))))"

definition timer_scenario ::
  "block_runtime \<Rightarrow> timer_simulation_request \<Rightarrow> operation_error + timer_simulation_scenario" where
  "timer_scenario b request =
     result_bind
       (map_err (\<lambda>e. invalid (field_of ''timer'' (TimerNameMessage e)))
         (timer_name_new (tsr_timer request))) (\<lambda>timer.
     result_bind (simulation_inputs b (tsr_inputs request)) (\<lambda>inputs.
     result_bind (state_map (tsr_state request)) (\<lambda>state.
     result_bind (pending_timers (tsr_pending_timers request)) (\<lambda>timers.
     Inr \<lparr>tsc_timer = timer, tsc_fired_at = tsr_fired_at_ms request, tsc_inputs = inputs,
          tsc_state = state, tsc_pending_timers = timers\<rparr>))))"

definition api_simulate_timer ::
  "environment \<Rightarrow> timer_simulation_request \<Rightarrow> runtime_api \<Rightarrow> operation_error + execution_projection"
  where
  "api_simulate_timer env request a =
     result_bind (api_block a (tsr_block_id request)) (\<lambda>b.
     result_bind (timer_scenario b request) (\<lambda>scenario.
     projected_simulation
       (case tsr_source request of
          Some source \<Rightarrow>
            runtime_simulate_timer_with_source env (api_runtime a) (br_id b) source scenario
        | None \<Rightarrow> runtime_simulate_timer env (api_runtime a) (br_id b) scenario)))"

definition api_projection :: "u64 \<Rightarrow> runtime_api \<Rightarrow> runtime_projection" where
  "api_projection now a =
     \<lparr>rp_document_revision = api_document_revision a,
      rp_structural_revision = api_structural_revision a,
      rp_logic_revision = document_logic_revision (api_document a),
      rp_blocks = map block_projection_of (rsn_blocks (runtime_snapshot_at (api_runtime a) now))\<rparr>"

end
