(* ===== verification/Field_Correctness.thy ===== *)
theory Field_Correctness
  imports Document_Fields
begin

text \<open>
  What the readers of a document's fields accept: the grammar of durations, and schedule rules that
  the core accepts.
\<close>

subsection \<open>Durations\<close>

text \<open>A part of a duration: digits and a unit.\<close>

definition part :: "char \<Rightarrow> rstring option \<Rightarrow> rstring" where
  "part c digits = (case digits of None \<Rightarrow> [] | Some ds \<Rightarrow> ds @ [c])"

definition amount :: "rstring option \<Rightarrow> int" where
  "amount digits = (case digits of None \<Rightarrow> 0 | Some ds \<Rightarrow> int (digits_value ds))"

definition part_ok :: "rstring option \<Rightarrow> bool" where
  "part_ok digits \<longleftrightarrow> (case digits of None \<Rightarrow> True | Some ds \<Rightarrow> ds \<noteq> [] \<and> list_all is_ascii_digit ds)"

text \<open>Hours, minutes and seconds in this order, each optional but not all missing.\<close>

definition duration_text :: "rstring option \<Rightarrow> rstring option \<Rightarrow> rstring option \<Rightarrow> rstring" where
  "duration_text h m s = part (CHR ''h'') h @ part (CHR ''m'') m @ part (CHR ''s'') s"

definition duration_value :: "rstring option \<Rightarrow> rstring option \<Rightarrow> rstring option \<Rightarrow> int" where
  "duration_value h m s = 3600 * amount h + 60 * amount m + amount s"

lemma duration_loop_digits:
  assumes "list_all is_ascii_digit ds"
  shows "duration_loop (ds @ cs) acc digits rank = duration_loop cs acc (digits @ ds) rank"
  using assms by (induction ds arbitrary: digits) auto

lemma unit_not_digit: "duration_unit c = Some u \<Longrightarrow> \<not> is_ascii_digit c"
  by (auto simp: is_ascii_digit_def split: if_splits)

text \<open>One part: its digits are read, checked and added.\<close>

lemma duration_loop_part:
  assumes "list_all is_ascii_digit ds" and "ds \<noteq> []" and "duration_unit c = Some (seconds, current)"
    and "current < rank" and "0 \<le> acc" and "acc \<le> i64_max" and "0 < seconds"
  shows "duration_loop ((ds @ [c]) @ cs) acc [] rank
    = (if acc + seconds * int (digits_value ds) \<le> i64_max
       then duration_loop cs (acc + seconds * int (digits_value ds)) [] current else None)"
proof -
  let ?n = "int (digits_value ds)"
  have le: "?n \<le> seconds * ?n" using assms(7) by (simp add: mult_le_cancel_right1)
  have digits: "parse_i64_digits ds = (if ?n \<le> i64_max then Some ?n else None)"
    using assms(1,2) by (auto simp: parse_i64_digits_def parse_unsigned_digits i64_max_def)
  have start: "duration_loop ((ds @ [c]) @ cs) acc [] rank = duration_loop (c # cs) acc ds rank"
    using duration_loop_digits [OF assms(1), where cs = "c # cs" and digits = "[]"] by simp
  have range: "is_i64 (seconds * ?n) \<longleftrightarrow> seconds * ?n \<le> i64_max"
    "is_i64 (acc + seconds * ?n) \<longleftrightarrow> acc + seconds * ?n \<le> i64_max"
    using assms(5,7) by (auto simp: is_i64_def i64_min_def intro: order_trans [of _ 0])
  show ?thesis
  proof (cases "acc + seconds * ?n \<le> i64_max")
    case True
    then have "seconds * ?n \<le> i64_max" "?n \<le> i64_max" using assms(5) le by linarith+
    with True start digits assms(3,4) range unit_not_digit [OF assms(3)] show ?thesis
      by (simp add: checked_i64_def mult.commute del: duration_unit.simps)
  next
    case False
    then show ?thesis
      using start digits assms(3,4) range unit_not_digit [OF assms(3)]
      by (simp add: checked_i64_def mult.commute del: duration_unit.simps split: if_splits)
  qed
qed

definition read_part :: "rstring \<Rightarrow> int \<Rightarrow> nat \<Rightarrow> char \<Rightarrow> int \<Rightarrow> nat \<Rightarrow> int \<Rightarrow> bool" where
  "read_part cs acc rank c seconds current n \<longleftrightarrow>
     current < rank
     \<and> (\<exists>ds rest. cs = (ds @ [c]) @ rest \<and> ds \<noteq> [] \<and> list_all is_ascii_digit ds
        \<and> acc + seconds * int (digits_value ds) \<le> i64_max
        \<and> duration_loop rest (acc + seconds * int (digits_value ds)) [] current = Some n)"

lemma duration_unit_iff:
  "duration_unit c = Some (seconds, current) \<longleftrightarrow>
     (c, seconds, current) \<in> {(CHR ''h'', 3600, 3), (CHR ''m'', 60, 2), (CHR ''s'', 1, 1)}"
  by auto

declare duration_unit.simps [simp del]

lemma duration_loop_step:
  assumes acc: "0 \<le> acc" "acc \<le> i64_max"
  shows "duration_loop cs acc [] rank = Some n \<longleftrightarrow>
     cs = [] \<and> rank \<noteq> 4 \<and> n = acc
     \<or> read_part cs acc rank (CHR ''h'') 3600 3 n
     \<or> read_part cs acc rank (CHR ''m'') 60 2 n
     \<or> read_part cs acc rank (CHR ''s'') 1 1 n"
  (is "?loop \<longleftrightarrow> ?empty \<or> ?parts")
proof
  assume loop: ?loop
  let ?ds = "takeWhile is_ascii_digit cs"
  have digits: "list_all is_ascii_digit ?ds" by (auto simp: list_all_iff dest: set_takeWhileD)
  show "?empty \<or> ?parts"
  proof (cases "dropWhile is_ascii_digit cs")
    case Nil
    then have "cs = ?ds" by (metis append_Nil2 takeWhile_dropWhile_id)
    then have "duration_loop cs acc [] rank = duration_loop [] acc ?ds rank"
      using duration_loop_digits [OF digits, where cs = "[]" and digits = "[]"] by simp
    with loop \<open>cs = ?ds\<close> show ?thesis by (auto split: if_splits)
  next
    case (Cons c rest)
    then have c: "\<not> is_ascii_digit c" using hd_dropWhile [of is_ascii_digit cs] by simp
    have cs: "cs = (?ds @ [c]) @ rest" using takeWhile_dropWhile_id [of is_ascii_digit cs] Cons by simp
    have start: "duration_loop (c # rest) acc ?ds rank = Some n"
      using loop duration_loop_digits [OF digits, where cs = "c # rest" and digits = "[]"] cs by simp
    then obtain u where unit: "duration_unit c = Some u" "parse_i64_digits ?ds \<noteq> None"
      and rank: "snd u < rank"
      using c by (auto split: option.splits prod.splits if_splits)
    obtain seconds current where u: "u = (seconds, current)" by (cases u)
    have "?ds \<noteq> []" using unit(2) by (auto simp: parse_i64_digits_def parse_unsigned_def)
    moreover have "0 < seconds" using unit(1) u by (auto simp: duration_unit_iff)
    ultimately have "acc + seconds * int (digits_value ?ds) \<le> i64_max
        \<and> duration_loop rest (acc + seconds * int (digits_value ?ds)) [] current = Some n"
      using duration_loop_part [OF digits, of c seconds current rank acc rest] unit(1) u rank acc loop cs
      by (auto split: if_splits)
    with cs digits \<open>?ds \<noteq> []\<close> rank u have "read_part cs acc rank c seconds current n"
      unfolding read_part_def by auto
    with unit(1) u show ?thesis by (auto simp: duration_unit_iff)
  qed
next
  have "?loop" if "read_part cs acc rank c seconds current n" "duration_unit c = Some (seconds, current)"
    "0 < seconds" for c seconds current
    using that duration_loop_part acc unfolding read_part_def by auto
  then show "?empty \<or> ?parts \<Longrightarrow> ?loop" by (auto simp: duration_unit_iff)
qed

lemma read_part_rank: "read_part cs acc rank c seconds current n \<Longrightarrow> current < rank"
  by (simp add: read_part_def)

text \<open>The texts that a rank accepts, with what they add.\<close>

definition loop_reads :: "nat \<Rightarrow> (rstring \<Rightarrow> int \<Rightarrow> bool) \<Rightarrow> bool" where
  "loop_reads rank R \<longleftrightarrow>
     (\<forall>cs acc n. 0 \<le> acc \<longrightarrow> acc \<le> i64_max \<longrightarrow>
        duration_loop cs acc [] rank = Some n \<longleftrightarrow> n \<le> i64_max \<and> R cs (n - acc))
     \<and> (\<forall>cs v. R cs v \<longrightarrow> 0 \<le> v)"

lemma read_part_iff:
  assumes "loop_reads current R" and "current < rank" and "0 \<le> acc" and "0 < seconds"
  shows "read_part cs acc rank c seconds current n \<longleftrightarrow> n \<le> i64_max
    \<and> (\<exists>ds rest v. part_ok (Some ds) \<and> cs = part c (Some ds) @ rest \<and> R rest v
         \<and> n - acc = seconds * amount (Some ds) + v)"
  (is "?read \<longleftrightarrow> _ \<and> ?parts")
proof
  assume ?read
  then obtain ds rest where cs: "cs = (ds @ [c]) @ rest" "ds \<noteq> []" "list_all is_ascii_digit ds"
    and small: "acc + seconds * int (digits_value ds) \<le> i64_max"
    and loop: "duration_loop rest (acc + seconds * int (digits_value ds)) [] current = Some n"
    by (auto simp: read_part_def)
  have "0 \<le> acc + seconds * int (digits_value ds)" using assms(3,4) by simp
  with loop small assms(1) have "n \<le> i64_max" "R rest (n - (acc + seconds * int (digits_value ds)))"
    unfolding loop_reads_def by blast+
  with cs show "n \<le> i64_max \<and> ?parts"
    by (intro conjI exI [of _ ds] exI [of _ rest] exI) (auto simp: part_def part_ok_def amount_def)
next
  assume "n \<le> i64_max \<and> ?parts"
  then obtain ds rest v where cs: "part_ok (Some ds)" "cs = part c (Some ds) @ rest" and R: "R rest v"
    and n: "n - acc = seconds * amount (Some ds) + v" "n \<le> i64_max" by auto
  have v: "0 \<le> v" using R assms(1) unfolding loop_reads_def by blast
  have start: "0 \<le> acc + seconds * int (digits_value ds)" using assms(3,4) by simp
  have small: "acc + seconds * int (digits_value ds) \<le> i64_max" using n v by (simp add: amount_def)
  have "n - (acc + seconds * int (digits_value ds)) = v" using n(1) by (simp add: amount_def)
  with R have "R rest (n - (acc + seconds * int (digits_value ds)))" by simp
  then have "duration_loop rest (acc + seconds * int (digits_value ds)) [] current = Some n"
    using assms(1) start small n(2) unfolding loop_reads_def by blast
  with cs small assms(2) show ?read
    unfolding read_part_def by (auto simp: part_def part_ok_def)
qed

lemma amount_nonneg [simp]: "0 \<le> amount d"
  by (simp add: amount_def split: option.splits)

lemma part_None [simp]: "part c None = []" "part_ok None" "amount None = 0"
  by (simp_all add: part_def part_ok_def amount_def)

lemma loop_reads_empty: "loop_reads 1 (\<lambda>cs v. cs = [] \<and> v = 0)"
  using duration_loop_step [where rank = 1]
  by (auto simp: loop_reads_def dest: read_part_rank)

lemma ex_option_split: "(\<exists>d. P d) \<longleftrightarrow> P None \<or> (\<exists>ds. P (Some ds))"
  by (metis not_Some_eq)

lemma ex_option_split2: "(\<exists>d y. P d y) \<longleftrightarrow> (\<exists>y. P None y) \<or> (\<exists>ds y. P (Some ds) y)"
  by (rule ex_option_split)

lemma ex_option_split3: "(\<exists>d y z. P d y z) \<longleftrightarrow> (\<exists>y z. P None y z) \<or> (\<exists>ds y z. P (Some ds) y z)"
  by (rule ex_option_split)

lemma loop_reads_seconds:
  "loop_reads 2 (\<lambda>cs v. \<exists>s. part_ok s \<and> cs = part (CHR ''s'') s \<and> v = amount s)"
  unfolding loop_reads_def
proof (intro conjI allI impI)
  fix cs and acc n :: int assume acc: "0 \<le> acc" "acc \<le> i64_max"
  have "duration_loop cs acc [] 2 = Some n \<longleftrightarrow> cs = [] \<and> n = acc \<or> read_part cs acc 2 (CHR ''s'') 1 1 n"
    using duration_loop_step [OF acc, of cs 2 n] by (auto dest: read_part_rank)
  also have "\<dots> \<longleftrightarrow> n \<le> i64_max \<and> (\<exists>s. part_ok s \<and> cs = part (CHR ''s'') s \<and> n - acc = amount s)"
    using read_part_iff [OF loop_reads_empty _ acc(1), where rank = 2 and seconds = 1] acc
    by (subst ex_option_split) (auto simp: algebra_simps)
  finally show "duration_loop cs acc [] 2 = Some n \<longleftrightarrow>
    n \<le> i64_max \<and> (\<exists>s. part_ok s \<and> cs = part (CHR ''s'') s \<and> n - acc = amount s)" .
qed auto

lemma loop_reads_minutes:
  "loop_reads 3 (\<lambda>cs v. \<exists>m s. part_ok m \<and> part_ok s \<and> cs = part (CHR ''m'') m @ part (CHR ''s'') s
     \<and> v = 60 * amount m + amount s)"
  unfolding loop_reads_def
proof (intro conjI allI impI)
  fix cs and acc n :: int assume acc: "0 \<le> acc" "acc \<le> i64_max"
  have "duration_loop cs acc [] 3 = Some n \<longleftrightarrow>
      duration_loop cs acc [] 2 = Some n \<or> read_part cs acc 3 (CHR ''m'') 60 2 n"
    using duration_loop_step [OF acc, of cs 3 n] duration_loop_step [OF acc, of cs 2 n]
    by (auto simp: read_part_def)
  moreover have "duration_loop cs acc [] 2 = Some n \<longleftrightarrow>
      n \<le> i64_max \<and> (\<exists>s. part_ok s \<and> cs = part (CHR ''s'') s \<and> n - acc = amount s)"
    using loop_reads_seconds acc unfolding loop_reads_def by blast
  moreover have "read_part cs acc 3 (CHR ''m'') 60 2 n \<longleftrightarrow> n \<le> i64_max \<and> (\<exists>ds s. part_ok (Some ds)
      \<and> part_ok s \<and> cs = part (CHR ''m'') (Some ds) @ part (CHR ''s'') s
      \<and> n - acc = 60 * amount (Some ds) + amount s)"
    by (subst read_part_iff [OF loop_reads_seconds _ acc(1)]) (simp, simp, rule conj_cong [OF refl], blast)
  ultimately show "duration_loop cs acc [] 3 = Some n \<longleftrightarrow> n \<le> i64_max \<and> (\<exists>m s. part_ok m \<and> part_ok s
      \<and> cs = part (CHR ''m'') m @ part (CHR ''s'') s \<and> n - acc = 60 * amount m + amount s)"
    unfolding ex_option_split2 by simp blast
qed auto

lemma loop_reads_hours:
  assumes "cs \<noteq> []"
  shows "duration_loop cs 0 [] 4 = Some n \<longleftrightarrow> n \<le> i64_max \<and> (\<exists>h m s. part_ok h \<and> part_ok m \<and> part_ok s
      \<and> cs = duration_text h m s \<and> n = duration_value h m s)"
proof -
  have acc: "(0 :: int) \<le> 0" "(0 :: int) \<le> i64_max" by (simp_all add: i64_max_def)
  have "duration_loop cs 0 [] 4 = Some n \<longleftrightarrow>
      duration_loop cs 0 [] 3 = Some n \<or> read_part cs 0 4 (CHR ''h'') 3600 3 n"
    using duration_loop_step [OF acc, of cs 4 n] duration_loop_step [OF acc, of cs 3 n] assms
    by (auto simp: read_part_def)
  moreover have "duration_loop cs 0 [] 3 = Some n \<longleftrightarrow> n \<le> i64_max \<and> (\<exists>m s. part_ok m \<and> part_ok s
      \<and> cs = part (CHR ''m'') m @ part (CHR ''s'') s \<and> n = 60 * amount m + amount s)"
    using loop_reads_minutes acc unfolding loop_reads_def by (metis diff_zero)
  moreover have "read_part cs 0 4 (CHR ''h'') 3600 3 n \<longleftrightarrow> n \<le> i64_max \<and> (\<exists>ds m s. part_ok (Some ds)
      \<and> part_ok m \<and> part_ok s \<and> cs = duration_text (Some ds) m s \<and> n = duration_value (Some ds) m s)"
  proof -
    have "read_part cs 0 4 (CHR ''h'') 3600 3 n \<longleftrightarrow> n \<le> i64_max
      \<and> (\<exists>ds rest v. part_ok (Some ds) \<and> cs = part (CHR ''h'') (Some ds) @ rest
        \<and> (\<exists>m s. part_ok m \<and> part_ok s \<and> rest = part (CHR ''m'') m @ part (CHR ''s'') s
             \<and> v = 60 * amount m + amount s)
        \<and> n - 0 = 3600 * amount (Some ds) + v)"
      by (rule read_part_iff [OF loop_reads_minutes]) simp_all
    also have "\<dots> \<longleftrightarrow> n \<le> i64_max \<and> (\<exists>ds m s. part_ok (Some ds) \<and> part_ok m \<and> part_ok s
        \<and> cs = duration_text (Some ds) m s \<and> n = duration_value (Some ds) m s)"
    proof (rule conj_cong [OF refl], rule iffI, goal_cases)
      case 1
      then obtain ds rest v m s where "part_ok (Some ds)" "cs = part (CHR ''h'') (Some ds) @ rest"
        "part_ok m" "part_ok s" "rest = part (CHR ''m'') m @ part (CHR ''s'') s"
        "v = 60 * amount m + amount s" "n - 0 = 3600 * amount (Some ds) + v" by (elim exE conjE)
      then show ?case
        by (intro exI [of _ ds] exI [of _ m] exI [of _ s])
          (simp add: duration_text_def duration_value_def)
    next
      case 2
      then obtain ds m s where "part_ok (Some ds)" "part_ok m" "part_ok s"
        "cs = duration_text (Some ds) m s" "n = duration_value (Some ds) m s" by (elim exE conjE)
      then show ?case
        by (intro exI [of _ ds] exI [of _ "part (CHR ''m'') m @ part (CHR ''s'') s"]
            exI [of _ "60 * amount m + amount s"] conjI exI [of _ m] exI [of _ s])
          (simp_all add: duration_text_def duration_value_def)
    qed
    finally show ?thesis .
  qed
  ultimately show ?thesis
    unfolding ex_option_split3 by (simp add: duration_text_def duration_value_def) blast
qed

text \<open>
  C25. The durations of a document are exactly the texts of hours, minutes and seconds, in this order,
  each optional but not all absent, whose value in seconds fits an \<open>i64\<close>; a sign is read only where
  one is asked for.
\<close>

theorem parse_duration_grammar:
  "parse_duration t sign = Some n \<longleftrightarrow>
     (\<exists>h m s. part_ok h \<and> part_ok m \<and> part_ok s \<and> duration_text h m s \<noteq> []
        \<and> duration_value h m s \<le> i64_max
        \<and> (t = duration_text h m s \<and> n = duration_value h m s
          \<or> sign \<and> t = CHR ''-'' # duration_text h m s \<and> n = - duration_value h m s))"
proof (cases "sign \<and> t \<noteq> [] \<and> hd t = CHR ''-''")
  case True
  then obtain rest where rest: "t = CHR ''-'' # rest" by (cases t) auto
  have other: "t \<noteq> duration_text h m s" if "part_ok h" "part_ok m" "part_ok s" for h m s
    using that by (auto simp: rest duration_text_def part_def part_ok_def is_ascii_digit_def Cons_eq_append_conv
        split: option.splits)
  have negative: "parse_duration t sign = Some n \<longleftrightarrow> rest \<noteq> [] \<and> duration_loop rest 0 [] 4 = Some (- n)"
    using True rest by (auto simp: parse_duration_def)
  have "parse_duration t sign = Some n \<longleftrightarrow> (\<exists>h m s. part_ok h \<and> part_ok m \<and> part_ok s
      \<and> rest = duration_text h m s \<and> rest \<noteq> [] \<and> duration_value h m s \<le> i64_max \<and> n = - duration_value h m s)"
  proof (cases "rest = []")
    case True
    with negative show ?thesis by simp
  next
    case False
    have "- n = v \<longleftrightarrow> n = - v" for v by auto
    with False negative show ?thesis by (simp add: loop_reads_hours) (metis minus_minus)
  qed
  also have "\<dots> \<longleftrightarrow> (\<exists>h m s. part_ok h \<and> part_ok m \<and> part_ok s \<and> duration_text h m s \<noteq> []
        \<and> duration_value h m s \<le> i64_max
        \<and> (t = duration_text h m s \<and> n = duration_value h m s
          \<or> sign \<and> t = CHR ''-'' # duration_text h m s \<and> n = - duration_value h m s))"
    using True other by (intro ex_cong1) (auto simp: rest)
  finally show ?thesis .
next
  case False
  have unsigned: "(sign \<and> t \<noteq> [] \<and> hd t = CHR ''-'') = False" using False by simp
  have loop: "parse_duration t sign = Some n \<longleftrightarrow> t \<noteq> [] \<and> duration_loop t 0 [] 4 = Some n"
    unfolding parse_duration_def Let_def unsigned if_False by (simp add: option.map_ident)
  have "parse_duration t sign = Some n \<longleftrightarrow> (\<exists>h m s. part_ok h \<and> part_ok m \<and> part_ok s
      \<and> t = duration_text h m s \<and> t \<noteq> [] \<and> duration_value h m s \<le> i64_max \<and> n = duration_value h m s)"
  proof (cases "t = []")
    case True
    with loop show ?thesis by simp
  next
    case False
    show ?thesis unfolding loop loop_reads_hours [OF False] using False by blast
  qed
  also have "\<dots> \<longleftrightarrow> (\<exists>h m s. part_ok h \<and> part_ok m \<and> part_ok s \<and> duration_text h m s \<noteq> []
        \<and> duration_value h m s \<le> i64_max
        \<and> (t = duration_text h m s \<and> n = duration_value h m s
          \<or> sign \<and> t = CHR ''-'' # duration_text h m s \<and> n = - duration_value h m s))"
    using False by (intro ex_cong1) auto
  finally show ?thesis .
qed

subsection \<open>Schedules\<close>

lemma parse_unsigned_le: "parse_unsigned maximum s = Some n \<Longrightarrow> n \<le> maximum"
  by (auto simp: parse_unsigned_def Let_def split: if_splits)

lemma read_local_time_valid:
  assumes "read_local_time path t = (errors, r)"
  shows "case r of None \<Rightarrow> length errors = 1 | Some tod \<Rightarrow> errors = [] \<and> validate_local_time tod = Inr ()"
  using assms
  by (auto simp: read_local_time_def Let_def validate_local_time_def word_less_nat_alt unat_of_nat
      split: if_splits option.splits)

text \<open>
  C24. A schedule of a document is never dropped silently, and only one kind of rule can surprise the
  core: reading the rule gives at least one error, or a rule that passes the validation of the core,
  unless it is an astronomical one and the binary is compiled without astronomy; that one the core
  refuses, with the error that the feature is disabled. In particular the conversions to the fixed
  widths of the rule lose nothing.
\<close>

theorem schedule_rule_or_error:
  assumes "read_schedule_rule s path = (errors, r)"
  shows "case r of None \<Rightarrow> errors \<noteq> []
    | Some rule \<Rightarrow> schedule_rule_validate features rule =
        (if rule_kind rule = KindAstronomical \<and> \<not> feature_astronomy features
         then Inl (FeatureDisabled ''astronomy'') else Inr ())"
proof -
  have fixed: "case r of None \<Rightarrow> errors \<noteq> [] | Some rule \<Rightarrow> schedule_rule_validate features rule = Inr ()"
    if "fixed_rule s path = (errors, r)" for errors r
  proof (cases "asc_at s")
    case None
    with that show ?thesis by (auto simp: fixed_rule_def)
  next
    case (Some v)
    obtain e1 tod where tod: "read_local_time (path @ ''.at'') v = (e1, tod)" by fastforce
    from read_local_time_valid [OF tod] that Some tod show ?thesis
      by (auto simp: fixed_rule_def Let_def split: option.splits prod.splits)
  qed
  have interval: "case r of None \<Rightarrow> errors \<noteq> [] | Some rule \<Rightarrow> schedule_rule_validate features rule = Inr ()"
    if "interval_rule s path = (errors, r)" for errors r
  proof -
    have "unat (of_int n :: u32) = nat n" if "0 \<le> n" "n \<le> 604800" for n
    proof -
      have "n < 2 ^ 32" using that(2) by simp
      with that(1) show ?thesis by (simp add: unat_eq_nat_uint uint_word_of_int_eq take_bit_int_eq_self)
    qed
    then show ?thesis
      using that
      by (auto simp: interval_rule_def Let_def min_interval_seconds_def max_interval_seconds_def
          word_le_nat_alt not_le split: if_splits option.splits)
  qed
  have astronomical: "case r of None \<Rightarrow> errors \<noteq> []
      | Some rule \<Rightarrow> feature_astronomy features \<longrightarrow> schedule_rule_validate features rule = Inr ()"
    if "astronomical_rule s path = (errors, r)" for errors r
    using that
    by (auto simp: astronomical_rule_def Let_def max_astronomical_offset_seconds_def
        split: if_splits option.splits prod.splits)
  have kind: "rule_kind rule = KindAstronomical
      \<and> (\<not> feature_astronomy features \<longrightarrow>
          schedule_rule_validate features rule = Inl (FeatureDisabled ''astronomy''))"
    if "astronomical_rule s path = (e, Some rule)" for e rule
    using that by (auto simp: astronomical_rule_def Let_def split: if_splits option.splits prod.splits)
  have other: "rule_kind rule \<noteq> KindAstronomical"
    if "fixed_rule s path = (e, Some rule) \<or> interval_rule s path = (e, Some rule)" for e rule
    using that
    by (auto simp: fixed_rule_def interval_rule_def Let_def split: if_splits option.splits prod.splits)
  let ?x = "if asc_kind s = ''fixed'' then fixed_rule s path
    else if asc_kind s = ''interval'' then interval_rule s path
    else if asc_kind s = ''astronomical'' then astronomical_rule s path
    else ([field (path @ ''.kind'') ''must be one of fixed, interval, or astronomical''], None)"
  obtain e q where x: "?x = (e, q)" by (rule prod.exhaust)
  have "read_schedule_rule s path = (extra_errors path s @ fst ?x, snd ?x)"
    unfolding read_schedule_rule_def Let_def by (rule case_prod_beta)
  then have "read_schedule_rule s path = (extra_errors path s @ e, q)" unfolding x fst_conv snd_conv .
  then have errors: "errors = extra_errors path s @ e" and q: "q = r" using assms by simp_all
  note x = x [unfolded q]
  have branches: "fixed_rule s path = (e, r) \<or> interval_rule s path = (e, r)
      \<or> astronomical_rule s path = (e, r) \<or> r = None \<and> e \<noteq> []"
  proof -
    consider "fixed_rule s path = (e, r)" | "interval_rule s path = (e, r)"
      | "astronomical_rule s path = (e, r)"
      | "([field (path @ ''.kind'') ''must be one of fixed, interval, or astronomical''], None) = (e, r)"
      using x by (simp only: split: if_splits)
    then show ?thesis by cases auto
  qed
  from branches show ?thesis
  proof (elim disjE)
    assume "fixed_rule s path = (e, r)"
    from fixed [OF this] other this show ?thesis by (cases r) (auto simp: errors)
  next
    assume "interval_rule s path = (e, r)"
    from interval [OF this] other this show ?thesis by (cases r) (auto simp: errors)
  next
    assume run: "astronomical_rule s path = (e, r)"
    from astronomical [OF this] kind run show ?thesis by (cases r) (auto simp: errors)
  qed (simp add: errors)
qed

definition no_features :: compiled_features where
  "no_features =
     \<lparr>feature_timezones = False, feature_astronomy = False, feature_http_inputs = False,
      feature_webhook_inputs = False\<rparr>"

theorem schedule_rule_or_error_witness:
  "\<exists>rule. read_schedule_rule
     \<lparr>asc_name = ''tick'', asc_enabled = True, asc_kind = ''interval'', asc_at = None, asc_every = Some ''1m30s'',
      asc_offset = None, asc_anchor = None, asc_weekdays = None, asc_extra = []\<rparr> ''s'' = ([], Some rule)
   \<and> schedule_rule_validate no_features rule = Inr ()"
proof -
  let ?s = "\<lparr>asc_name = ''tick'', asc_enabled = True, asc_kind = ''interval'', asc_at = None,
    asc_every = Some ''1m30s'', asc_offset = None, asc_anchor = None, asc_weekdays = None, asc_extra = []\<rparr>"
  have "parse_duration ''1m30s'' False = Some 90"
    by (simp add: parse_duration_def parse_i64_digits_def parse_unsigned_def is_ascii_digit_def digits_value_def
        duration_unit.simps checked_i64_def is_i64_def i64_bounds)
  then have read: "read_schedule_rule ?s ''s'' = ([], Some (RuleInterval 90 0))"
    by (simp add: read_schedule_rule_def interval_rule_def extra_errors_def)
  from schedule_rule_or_error [OF this, of "no_features"] read
  show ?thesis by simp
qed

end
