(* ===== verification/Document_Correctness.thy ===== *)
theory Document_Correctness
  imports Document_Build Field_Correctness Runtime_Lifecycle Abi_Operations
begin

text \<open>
  What a document that builds is worth: the routing tables of the host say exactly what the blocks'
  bindings say, every endpoint is bound, and the core accepts the configuration.
\<close>

subsection \<open>Routing tables as sets of facts\<close>

text \<open>An endpoint of a block with its direction and type, bound to a key.\<close>

type_synonym 'k binding_fact = "block_id \<times> endpoint_name \<times> endpoint_direction \<times> dpt \<times> 'k"

fun fact_key :: "'k binding_fact \<Rightarrow> 'k" where "fact_key (_, _, _, _, k) = k"
fun fact_endpoint :: "'k binding_fact \<Rightarrow> block_id \<times> endpoint_name" where
  "fact_endpoint (x, e, _, _, _) = (x, e)"
fun fact_direction :: "'k binding_fact \<Rightarrow> endpoint_direction" where "fact_direction (_, _, d, _, _) = d"

definition outputs_exact :: "'k binding_fact set \<Rightarrow> (block_id \<times> endpoint_name \<rightharpoonup> 'k) \<Rightarrow> bool" where
  "outputs_exact K m \<longleftrightarrow>
     (\<forall>x e k. m (x, e) = Some k \<longleftrightarrow> (\<exists>d. (x, e, Output, d, k) \<in> K))"

lemma outputs_exact_insert:
  assumes "outputs_exact K m" and "(x, e) \<notin> fact_endpoint ` K"
  shows "outputs_exact (insert (x, e, Output, d, k) K) (m((x, e) \<mapsto> k))"
proof -
  have "(x, e, dir, d', k') \<notin> K" for dir d' k' using assms(2) by force
  with assms(1) show ?thesis by (auto simp: outputs_exact_def)
qed

lemma outputs_exact_input:
  "outputs_exact K m \<Longrightarrow> outputs_exact (insert (x, e, Input, d, k) K) m"
  by (simp add: outputs_exact_def)

text \<open>
  A table from keys to the inputs bound to them, whatever a row looks like, as long as a row is the
  fact of an input.
\<close>

locale input_table =
  fixes fact :: "'i \<Rightarrow> 'k binding_fact"
  assumes fact_inj: "fact i = fact j \<Longrightarrow> i = j"
    and fact_input: "fact_direction (fact i) = Input"
begin

definition exact :: "'k binding_fact set \<Rightarrow> ('k \<Rightarrow> 'i list) \<Rightarrow> bool" where
  "exact K m \<longleftrightarrow> (\<forall>k i. i \<in> set (m k) \<longleftrightarrow> fact i \<in> K \<and> fact_key (fact i) = k)"

lemma exact_append:
  assumes "exact K m"
  shows "exact (insert (fact i) K) (append_at (fact_key (fact i)) i m)"
  using assms fact_inj by (auto simp: exact_def append_at_def)

lemma exact_output:
  assumes "exact K m"
  shows "exact (insert (x, e, Output, d, k) K) m"
proof -
  have "fact i \<noteq> (x, e, Output, d, k)" for i using fact_input [of i] by auto
  with assms show ?thesis by (simp add: exact_def)
qed

lemma exact_empty: "exact {} (\<lambda>_. [])"
  by (simp add: exact_def)

end

definition address_fact :: "block_input_binding \<Rightarrow> group_address binding_fact" where
  "address_fact i = (bib_block_id i, bib_endpoint i, Input, bib_dpt i, bib_address i)"

definition signal_fact :: "block_signal_input_binding \<Rightarrow> signal_name binding_fact" where
  "signal_fact i = (bsb_block_id i, bsb_endpoint i, Input, bsb_dpt i, bsb_signal i)"

interpretation addresses: input_table address_fact
  by unfold_locales (auto simp: address_fact_def)

interpretation signals: input_table signal_fact
  by unfold_locales (auto simp: signal_fact_def)

definition dpts_agree :: "group_address binding_fact set \<Rightarrow> (group_address \<rightharpoonup> dpt) \<Rightarrow> bool" where
  "dpts_agree K m \<longleftrightarrow> (\<forall>x e dir d a. (x, e, dir, d, a) \<in> K \<longrightarrow> m a = Some d)"

definition addresses_exact :: "group_address binding_fact set \<Rightarrow> routing \<Rightarrow> bool" where
  "addresses_exact K rg \<longleftrightarrow>
     addresses.exact K (rg_address_to_inputs rg) \<and> outputs_exact K (rg_output_to_address rg)
     \<and> dpts_agree K (rg_address_dpts rg)"

definition signals_exact :: "signal_name binding_fact set \<Rightarrow> routing \<Rightarrow> bool" where
  "signals_exact J rg \<longleftrightarrow>
     signals.exact J (rg_signal_to_inputs rg) \<and> outputs_exact J (rg_output_to_signal rg)
     \<and> rg_signal_producers rg = {s. \<exists>x e d. (x, e, Output, d, s) \<in> J}
     \<and> (\<forall>x e d y f g s. (x, e, Output, d, s) \<in> J \<longrightarrow> (y, f, Output, g, s) \<in> J \<longrightarrow> x = y \<and> e = f)"

subsection \<open>Endpoint tables\<close>

definition endpoint_table_ok :: "endpoint_table \<Rightarrow> bool" where
  "endpoint_table_ok t \<longleftrightarrow>
     distinct (map ep_name (et_endpoints t)) \<and> ep_name ` set (et_endpoints t) \<subseteq> et_names t
     \<and> (\<forall>n d. et_dpts t n = Some d \<longleftrightarrow> (\<exists>e \<in> set (et_endpoints t). ep_name e = n \<and> ep_dpt e = d))
     \<and> (\<forall>n d. et_directions t n = Some d
          \<longleftrightarrow> (\<exists>e \<in> set (et_endpoints t). ep_name e = n \<and> ep_direction e = d))"

lemma endpoint_step_ok:
  "endpoint_table_ok t \<Longrightarrow> endpoint_table_ok (endpoint_step path direction i e t)"
proof (cases "read_endpoint_name (item_path path i @ ''.name'') (ae_name e)")
  case (Inr name)
  assume ok: "endpoint_table_ok t"
  show ?thesis
  proof (cases "name \<in> et_names t")
    case False
    then have new: "\<forall>e \<in> set (et_endpoints t). ep_name e \<noteq> name"
      using ok by (auto simp: endpoint_table_ok_def)
    show ?thesis
      using ok Inr False new
      by (cases "read_dpt (item_path path i @ ''.dpt'') (ae_dpt e)")
        (auto simp: endpoint_step_def endpoint_table_ok_def)
  qed (use ok Inr in \<open>simp add: endpoint_step_def endpoint_table_ok_def\<close>)
qed (simp add: endpoint_step_def endpoint_table_ok_def)

lemma read_endpoints_ok: "endpoint_table_ok (read_endpoints bp b)"
  unfolding read_endpoints_def
  by (intro each_indexed_invariant [where I = "\<lambda>_. endpoint_table_ok"] endpoint_step_ok)
    (simp_all add: endpoint_table_ok_def)

lemma bound_name_endpoint:
  assumes "endpoint_table_ok t" and "bound_name t v = Some (name, d)"
  obtains e where "e \<in> set (et_endpoints t)" "ep_name e = name" "ep_dpt e = d"
    "et_directions t name = Some (ep_direction e)"
proof -
  from assms obtain e where "e \<in> set (et_endpoints t)" "ep_name e = name" "ep_dpt e = d"
    by (auto simp: bound_name_def endpoint_table_ok_def split: sum.splits)
  moreover from this have "et_directions t name = Some (ep_direction e)"
    using assms(1) by (auto simp: endpoint_table_ok_def)
  ultimately show thesis by (rule that)
qed

lemma endpoint_unique:
  "endpoint_table_ok t \<Longrightarrow> e \<in> set (et_endpoints t) \<Longrightarrow> f \<in> set (et_endpoints t) \<Longrightarrow>
     ep_name e = ep_name f \<Longrightarrow> e = f"
  by (auto simp: endpoint_table_ok_def distinct_map inj_on_def)

subsection \<open>Bindings of one block\<close>

text \<open>The facts of a block whose endpoints have the keys of \<open>B\<close>.\<close>

definition facts_of :: "block_id \<Rightarrow> endpoint list \<Rightarrow> (endpoint_name \<times> 'k) set \<Rightarrow> 'k binding_fact set" where
  "facts_of x endpoints B =
     {(x, ep_name e, ep_direction e, ep_dpt e, k) | e k. e \<in> set endpoints \<and> (ep_name e, k) \<in> B}"

lemma facts_of_insert:
  assumes "endpoint_table_ok t" and "e \<in> set (et_endpoints t)"
  shows "facts_of x (et_endpoints t) (insert (ep_name e, k) B)
    = insert (x, ep_name e, ep_direction e, ep_dpt e, k) (facts_of x (et_endpoints t) B)"
proof -
  have "f = e" if "f \<in> set (et_endpoints t)" "ep_name f = ep_name e" for f
    using endpoint_unique [OF assms(1) that(1) assms(2) that(2)] .
  then have "f \<in> set (et_endpoints t) \<and> ep_name f = ep_name e \<longleftrightarrow> f = e" for f
    using assms(2) by blast
  then show ?thesis by (fastforce simp: facts_of_def)
qed

lemma facts_of_empty [simp]: "facts_of x es {} = {}"
  by (simp add: facts_of_def)

lemma facts_of_block: "f \<in> facts_of x es B \<Longrightarrow> \<exists>e k. fact_endpoint f = (x, e) \<and> (e, k) \<in> B"
  by (auto simp: facts_of_def)

definition graph_of :: "('a \<rightharpoonup> 'b) \<Rightarrow> ('a \<times> 'b) set" where
  "graph_of m = {(a, b). m a = Some b}"

lemma graph_of_update: "m a = None \<Longrightarrow> graph_of (m(a \<mapsto> b)) = insert (a, b) (graph_of m)"
  by (auto simp: graph_of_def split: if_splits)

lemma addresses_exact_insert:
  assumes K: "addresses_exact K rg" and fresh: "(x, name) \<notin> fact_endpoint ` K"
    and agree: "rg_address_dpts rg a \<in> {None, Some d}" and t: "et_directions t name = Some dir"
    and rg': "rg' = bst_routing (add_address_binding x t name d a s)" and rg: "rg = bst_routing s"
  shows "addresses_exact (insert (x, name, dir, d, a) K) rg'"
proof -
  have dpts: "dpts_agree (insert (x, name, dir, d, a) K) ((rg_address_dpts rg)(a \<mapsto> d))"
    using K agree by (auto simp: addresses_exact_def dpts_agree_def)
  show ?thesis
  proof (cases dir)
    case Input
    let ?i = "\<lparr>bib_block_id = x, bib_endpoint = name, bib_dpt = d, bib_address = a\<rparr>"
    have fact: "address_fact ?i = (x, name, Input, d, a)" by (simp add: address_fact_def)
    from addresses.exact_append [where i = ?i] fact K dpts Input t
    show ?thesis
      by (simp add: rg' rg addresses_exact_def add_address_binding_def Let_def outputs_exact_input)
  next
    case Output
    with K dpts t fresh show ?thesis
      by (simp add: rg' rg addresses_exact_def add_address_binding_def Let_def addresses.exact_output
          outputs_exact_insert)
  qed
qed

definition addresses_inv ::
  "block_id \<Rightarrow> endpoint_table \<Rightarrow> group_address binding_fact set \<Rightarrow> binding_state \<Rightarrow> bool" where
  "addresses_inv x t K s \<longleftrightarrow>
     addresses_exact (K \<union> facts_of x (et_endpoints t) (graph_of (bst_addresses s))) (bst_routing s)"

definition other_blocks :: "block_id \<Rightarrow> 'k binding_fact set \<Rightarrow> bool" where
  "other_blocks x K \<longleftrightarrow> (\<forall>f \<in> K. fst (fact_endpoint f) \<noteq> x)"

lemma fresh_endpoint:
  assumes "other_blocks x K" and "\<forall>k. (name, k) \<notin> B"
  shows "(x, name) \<notin> fact_endpoint ` (K \<union> facts_of x es B)"
  using assms facts_of_block [of _ x es B] by (fastforce simp: other_blocks_def)

lemma push_error_fields [simp]:
  "bst_routing (push_error e s) = bst_routing s" "bst_addresses (push_error e s) = bst_addresses s"
  "bst_signals (push_error e s) = bst_signals s" "bst_externals (push_error e s) = bst_externals s"
  "bst_errors (push_error e s) = bst_errors s @ [e]"
  by (simp_all add: push_error_def)

lemma set_routing_fields [simp]:
  "bst_routing (set_routing rg s) = rg" "bst_addresses (set_routing rg s) = bst_addresses s"
  "bst_signals (set_routing rg s) = bst_signals s" "bst_externals (set_routing rg s) = bst_externals s"
  "bst_errors (set_routing rg s) = bst_errors s"
  by (simp_all add: set_routing_def)

text \<open>A step for a KNX binding reports an error and changes nothing else, or adds the binding.\<close>

lemma knx_binding_step_cases:
  "(\<exists>e. knx_binding_step bp x t i b s = push_error e s)
   \<or> (\<exists>name d a. bound_name t (kb_endpoint b) = Some (name, d) \<and> bst_addresses s name = None
        \<and> rg_address_dpts (bst_routing s) a \<in> {None, Some d}
        \<and> knx_binding_step bp x t i b s = add_address_binding x t name d a s)"
proof (cases "bound_name t (kb_endpoint b)")
  case None
  then show ?thesis by (auto simp: knx_binding_step_def)
next
  case (Some nd)
  obtain name d where nd: "nd = (name, d)" by (cases nd)
  show ?thesis
  proof (cases "group_address_from_str (kb_group_address b)")
    case (Inr a)
    show ?thesis
    proof (cases "bst_addresses s name = None \<and> rg_address_dpts (bst_routing s) a \<in> {None, Some d}")
      case True
      then have "knx_binding_step bp x t i b s = add_address_binding x t name d a s"
        using Some nd Inr by (auto simp: knx_binding_step_def)
      with True Some nd show ?thesis by blast
    next
      case False
      then show ?thesis using Some nd Inr by (intro disjI1) (auto simp: knx_binding_step_def Let_def)
    qed
  qed (use Some nd in \<open>auto simp: knx_binding_step_def\<close>)
qed

lemma knx_binding_step_inv:
  assumes "endpoint_table_ok t" and "other_blocks x K" and "addresses_inv x t K s"
  shows "addresses_inv x t K (knx_binding_step bp x t i b s)"
  using knx_binding_step_cases [of bp x t i b s]
proof (elim disjE exE conjE)
  fix e assume "knx_binding_step bp x t i b s = push_error e s"
  with assms(3) show ?thesis by (simp add: addresses_inv_def)
next
  fix name d a
  assume 2: "bound_name t (kb_endpoint b) = Some (name, d)" "bst_addresses s name = None"
    "rg_address_dpts (bst_routing s) a \<in> {None, Some d}"
    "knx_binding_step bp x t i b s = add_address_binding x t name d a s"
  obtain e where e: "e \<in> set (et_endpoints t)" "ep_name e = name" "ep_dpt e = d"
    "et_directions t name = Some (ep_direction e)"
    using bound_name_endpoint [OF assms(1) 2(1)] .
  let ?K = "K \<union> facts_of x (et_endpoints t) (graph_of (bst_addresses s))"
  have "(x, name) \<notin> fact_endpoint ` ?K"
    using 2(2) by (intro fresh_endpoint [OF assms(2)]) (simp add: graph_of_def)
  from addresses_exact_insert [OF assms(3) [unfolded addresses_inv_def] this 2(3) e(4) refl refl]
  have "addresses_exact (insert (x, name, ep_direction e, d, a) ?K)
    (bst_routing (add_address_binding x t name d a s))" .
  moreover have "bst_addresses (add_address_binding x t name d a s) = (bst_addresses s)(name \<mapsto> a)"
    by (simp add: add_address_binding_def Let_def)
  ultimately show ?thesis
    using facts_of_insert [OF assms(1) e(1), of x a "graph_of (bst_addresses s)"] e(2,3) 2(2)
    by (simp add: addresses_inv_def 2(4) graph_of_update)
qed

definition "address_fields rg = (rg_address_to_inputs rg, rg_output_to_address rg, rg_address_dpts rg)"
definition "signal_fields rg = (rg_signal_to_inputs rg, rg_output_to_signal rg, rg_signal_producers rg)"

lemma addresses_exact_cong:
  "address_fields rg = address_fields rg' \<Longrightarrow> addresses_exact K rg \<longleftrightarrow> addresses_exact K rg'"
  by (simp add: address_fields_def addresses_exact_def)

lemma signals_exact_cong:
  "signal_fields rg = signal_fields rg' \<Longrightarrow> signals_exact J rg \<longleftrightarrow> signals_exact J rg'"
  by (simp add: signal_fields_def signals_exact_def)

lemma add_address_binding_frame:
  "bst_signals (add_address_binding x t name d a s) = bst_signals s"
  "bst_errors (add_address_binding x t name d a s) = bst_errors s"
  "signal_fields (bst_routing (add_address_binding x t name d a s)) = signal_fields (bst_routing s)"
  by (cases "et_directions t name = Some Input"; simp add: add_address_binding_def Let_def signal_fields_def)+

lemma knx_binding_step_frame:
  "bst_signals (knx_binding_step bp x t i b s) = bst_signals s"
  "signal_fields (bst_routing (knx_binding_step bp x t i b s)) = signal_fields (bst_routing s)"
  using knx_binding_step_cases [of bp x t i b s]
  by (auto simp: add_address_binding_frame)

definition signals_inv ::
  "block_id \<Rightarrow> endpoint_table \<Rightarrow> signal_name binding_fact set \<Rightarrow> binding_state \<Rightarrow> bool" where
  "signals_inv x t J s \<longleftrightarrow>
     signals_exact (J \<union> facts_of x (et_endpoints t) (set (bst_signals s))) (bst_routing s)
     \<and> distinct (map fst (bst_signals s)) \<and> (\<forall>p \<in> set (bst_signals s). bst_addresses s (fst p) = None)"

lemma signals_exact_insert:
  assumes J: "signals_exact J (bst_routing s)" and fresh: "(x, name) \<notin> fact_endpoint ` J"
    and t: "et_directions t name = Some dir"
    and clean: "bst_errors (add_signal_binding p x t name d signal s) = []"
  shows "signals_exact (insert (x, name, dir, d, signal) J)
    (bst_routing (add_signal_binding p x t name d signal s))"
proof (cases dir)
  case Input
  let ?i = "\<lparr>bsb_block_id = x, bsb_endpoint = name, bsb_dpt = d, bsb_signal = signal\<rparr>"
  have fact: "signal_fact ?i = (x, name, Input, d, signal)" by (simp add: signal_fact_def)
  from signals.exact_append [where i = ?i] fact J Input t show ?thesis
    by (auto simp: signals_exact_def add_signal_binding_def Let_def outputs_exact_input)
next
  case Output
  then have unproduced: "signal \<notin> rg_signal_producers (bst_routing s)"
    using clean t by (auto simp: add_signal_binding_def Let_def split: if_splits)
  with J have "(y, e, Output, g, signal) \<notin> J" for y e g by (auto simp: signals_exact_def)
  with J Output t fresh unproduced show ?thesis
    by (auto simp: signals_exact_def add_signal_binding_def Let_def signals.exact_output
        outputs_exact_insert)
qed

lemma add_signal_binding_fields:
  "bst_signals (add_signal_binding p x t name d signal s) = bst_signals s @ [(name, signal)]"
  "bst_addresses (add_signal_binding p x t name d signal s) = bst_addresses s"
  "address_fields (bst_routing (add_signal_binding p x t name d signal s)) = address_fields (bst_routing s)"
  "bst_errors (add_signal_binding p x t name d signal s) = [] \<Longrightarrow> bst_errors s = []"
  by (auto simp: add_signal_binding_def Let_def address_fields_def split: if_splits)

text \<open>The step for a signal binding counts it, and then reports an error or adds the binding.\<close>

definition counted :: "binding_state \<Rightarrow> binding_state" where
  "counted s = set_routing ((bst_routing s)
     \<lparr>rg_signal_binding_count := rg_signal_binding_count (bst_routing s) + 1\<rparr>) s"

lemma counted_fields [simp]:
  "bst_signals (counted s) = bst_signals s" "bst_addresses (counted s) = bst_addresses s"
  "bst_errors (counted s) = bst_errors s"
  "address_fields (bst_routing (counted s)) = address_fields (bst_routing s)"
  "signal_fields (bst_routing (counted s)) = signal_fields (bst_routing s)"
  by (simp_all add: counted_def address_fields_def signal_fields_def)

lemma signal_binding_step_cases:
  "(\<exists>e. signal_binding_step bp x sd t i b s = push_error e (counted s))
   \<or> (\<exists>p name d signal. bound_name t (dsb_endpoint b) = Some (name, d) \<and> bst_addresses s name = None
        \<and> name \<notin> fst ` set (bst_signals s) \<and> sd signal = Some d
        \<and> signal_binding_step bp x sd t i b s = add_signal_binding p x t name d signal (counted s))"
proof (cases "bound_name t (dsb_endpoint b)")
  case None
  then show ?thesis by (auto simp: signal_binding_step_def Let_def counted_def)
next
  case (Some nd)
  obtain name d where nd: "nd = (name, d)" by (cases nd)
  show ?thesis
  proof (cases "signal_name_new (dsb_signal b)")
    case (Inl e)
    with Some nd show ?thesis by (auto simp: signal_binding_step_def Let_def counted_def)
  next
    case (Inr signal)
    show ?thesis
    proof (cases "sd signal = Some d \<and> bst_addresses s name = None \<and> name \<notin> fst ` set (bst_signals s)")
      case True
      then have "\<exists>p. signal_binding_step bp x sd t i b s = add_signal_binding p x t name d signal (counted s)"
        using Some nd Inr by (auto simp: signal_binding_step_def Let_def counted_def)
      with True Some nd show ?thesis by blast
    next
      case False
      then show ?thesis
        using Some nd Inr
        by (intro disjI1) (auto simp: signal_binding_step_def Let_def counted_def split: option.split)
    qed
  qed
qed

lemma signal_binding_step_frame:
  "bst_addresses (signal_binding_step bp x sd t i b s) = bst_addresses s"
  "address_fields (bst_routing (signal_binding_step bp x sd t i b s)) = address_fields (bst_routing s)"
  "bst_errors (signal_binding_step bp x sd t i b s) = [] \<Longrightarrow> bst_errors s = []"
proof -
  let ?s = "signal_binding_step bp x sd t i b s"
  have "bst_addresses ?s = bst_addresses s
    \<and> address_fields (bst_routing ?s) = address_fields (bst_routing s)
    \<and> (bst_errors ?s = [] \<longrightarrow> bst_errors s = [])"
    using signal_binding_step_cases [of bp x sd t i b s]
  proof (elim disjE exE conjE)
    fix p name d signal
    assume "?s = add_signal_binding p x t name d signal (counted s)"
    with add_signal_binding_fields(4) [of p x t name d signal "counted s"] show ?thesis
      by (simp add: add_signal_binding_fields(2,3))
  qed simp
  then show "bst_addresses ?s = bst_addresses s"
    "address_fields (bst_routing ?s) = address_fields (bst_routing s)"
    "bst_errors ?s = [] \<Longrightarrow> bst_errors s = []" by blast+
qed

lemma signal_binding_step_inv:
  assumes "endpoint_table_ok t" and "other_blocks x J" and "bst_errors s = [] \<Longrightarrow> signals_inv x t J s"
    and clean: "bst_errors (signal_binding_step bp x sd t i b s) = []"
  shows "signals_inv x t J (signal_binding_step bp x sd t i b s)"
  using signal_binding_step_cases [of bp x sd t i b s]
proof (elim disjE exE conjE)
  fix e assume "signal_binding_step bp x sd t i b s = push_error e (counted s)"
  with clean show ?thesis by simp
next
  fix p name d signal
  assume 2: "bound_name t (dsb_endpoint b) = Some (name, d)" "bst_addresses s name = None"
    "name \<notin> fst ` set (bst_signals s)"
    and step: "signal_binding_step bp x sd t i b s = add_signal_binding p x t name d signal (counted s)"
  have "bst_errors s = []" using signal_binding_step_frame(3) [OF clean] .
  then have inv: "signals_inv x t J s" by (rule assms(3))
  obtain e where e: "e \<in> set (et_endpoints t)" "ep_name e = name" "ep_dpt e = d"
    "et_directions t name = Some (ep_direction e)"
    using bound_name_endpoint [OF assms(1) 2(1)] .
  let ?J = "J \<union> facts_of x (et_endpoints t) (set (bst_signals s))"
  have fresh: "(x, name) \<notin> fact_endpoint ` ?J"
    using 2(3) by (intro fresh_endpoint [OF assms(2)]) (metis fst_conv image_eqI)
  have J: "signals_exact ?J (bst_routing (counted s))"
    using inv by (subst signals_exact_cong [OF counted_fields(5)]) (simp add: signals_inv_def)
  from signals_exact_insert [OF J fresh e(4) clean [unfolded step]]
  show ?thesis
    using facts_of_insert [OF assms(1) e(1), of x signal "set (bst_signals s)"] e(2,3) 2 inv
    by (auto simp: signals_inv_def step add_signal_binding_fields)
qed

text \<open>Bindings to external sources leave the other bindings alone.\<close>

definition external_frame :: "binding_state \<Rightarrow> binding_state \<Rightarrow> bool" where
  "external_frame s s' \<longleftrightarrow>
     bst_signals s' = bst_signals s \<and> bst_addresses s' = bst_addresses s
     \<and> address_fields (bst_routing s') = address_fields (bst_routing s)
     \<and> signal_fields (bst_routing s') = signal_fields (bst_routing s)
     \<and> (bst_errors s' = [] \<longrightarrow> bst_errors s = [])"

lemma external_frame_trans: "external_frame s t \<Longrightarrow> external_frame t u \<Longrightarrow> external_frame s u"
  by (simp add: external_frame_def)

lemma external_binding_step_frame:
  assumes "\<And>b rg. address_fields (add b rg) = address_fields rg"
    and "\<And>b rg. signal_fields (add b rg) = signal_fields rg"
  shows "external_frame s (external_binding_step add mismatch path x src t i b s)"
  using assms
  by (cases "read_endpoint_name (item_path path i @ ''.endpoint'') (xb_endpoint b)")
    (auto simp: external_frame_def external_binding_step_def Let_def split: option.split)

lemma external_frame_loop:
  assumes "\<And>i b s. external_frame s (f i b s)"
  shows "external_frame s (each_indexed f bs s)"
  by (rule each_indexed_invariant [where I = "\<lambda>_. external_frame s"])
    (simp add: external_frame_def, use assms external_frame_trans in blast)

lemma http_bindings_frame:
  "external_frame s (each_indexed (http_binding_step bp x src t) bs s)"
  unfolding http_binding_step_def
  by (intro external_frame_loop external_binding_step_frame)
    (simp_all add: address_fields_def signal_fields_def)

lemma webhook_bindings_frame:
  "external_frame s (each_indexed (webhook_binding_step bp x src t) bs s)"
  unfolding webhook_binding_step_def
  by (intro external_frame_loop external_binding_step_frame)
    (simp_all add: address_fields_def signal_fields_def)

text \<open>What the bindings of a block amount to, under \<open>J\<close> and \<open>K\<close> of the blocks before.\<close>

definition endpoint_bound :: "binding_state \<Rightarrow> endpoint \<Rightarrow> bool" where
  "endpoint_bound s e \<longleftrightarrow>
     bst_addresses s (ep_name e) \<noteq> None \<or> ep_name e \<in> fst ` set (bst_signals s)
     \<or> bst_externals s (ep_name e) \<noteq> None"

lemma read_bindings_ok:
  assumes t: "endpoint_table_ok t" and other: "other_blocks x K" "other_blocks x J"
    and rg: "addresses_exact K rg" "P \<Longrightarrow> signals_exact J rg"
    and s': "s' = read_bindings bp x sd src t b rg"
  shows "addresses_inv x t K s'"
    and "P \<Longrightarrow> bst_errors s' = [] \<Longrightarrow> signals_inv x t J s' \<and> (\<forall>e \<in> set (et_endpoints t). endpoint_bound s' e)"
proof -
  let ?s0 = "\<lparr>bst_errors = [], bst_routing = rg, bst_addresses = Map.empty, bst_signals = [],
    bst_externals = Map.empty\<rparr>"
  define s1 where "s1 = each_indexed (knx_binding_step bp x t) (ab_knx_bindings b) ?s0"
  define s2 where "s2 = each_indexed (signal_binding_step bp x sd t) (ab_signal_bindings b) s1"
  define s4 where "s4 = each_indexed (webhook_binding_step bp x src t) (ab_webhook_bindings b)
    (each_indexed (http_binding_step bp x src t) (ab_http_bindings b) s2)"
  have s': "s' = s4\<lparr>bst_errors := bst_errors s4 @ unbound_errors bp (et_endpoints t) s4\<rparr>"
    by (simp add: s' read_bindings_def s1_def s2_def s4_def Let_def)
  have s1: "addresses_inv x t K s1 \<and> bst_signals s1 = []
      \<and> signal_fields (bst_routing s1) = signal_fields rg"
    unfolding s1_def
  proof (rule each_indexed_invariant [where I = "\<lambda>_ s. addresses_inv x t K s \<and> bst_signals s = []
        \<and> signal_fields (bst_routing s) = signal_fields rg"], goal_cases)
    case 1
    then show ?case using rg(1) by (simp add: addresses_inv_def graph_of_def)
  next
    case (2 ys y s)
    then show ?case using knx_binding_step_inv [OF t other(1)] by (simp add: knx_binding_step_frame)
  qed
  have "signals_inv x t J s1" if P
    using rg(2) [OF that] s1 signals_exact_cong [of "bst_routing s1" rg J] by (simp add: signals_inv_def)
  then have "bst_addresses s2 = bst_addresses s1 \<and> address_fields (bst_routing s2) = address_fields (bst_routing s1)
      \<and> (P \<longrightarrow> bst_errors s2 = [] \<longrightarrow> signals_inv x t J s2)"
    unfolding s2_def
    by (intro each_indexed_invariant [where I = "\<lambda>_ s. bst_addresses s = bst_addresses s1
        \<and> address_fields (bst_routing s) = address_fields (bst_routing s1)
        \<and> (P \<longrightarrow> bst_errors s = [] \<longrightarrow> signals_inv x t J s)"])
      (use t other(2) in \<open>simp_all add: signal_binding_step_frame(1,2) signal_binding_step_inv\<close>)
  moreover have frame: "external_frame s2 s4"
    unfolding s4_def by (rule external_frame_trans [OF http_bindings_frame webhook_bindings_frame])
  ultimately have s4: "bst_addresses s4 = bst_addresses s1"
    "address_fields (bst_routing s4) = address_fields (bst_routing s1)"
    "P \<Longrightarrow> bst_errors s4 = [] \<Longrightarrow> signals_inv x t J s4"
    using signals_exact_cong [of "bst_routing s4" "bst_routing s2"]
    by (auto simp: external_frame_def signals_inv_def)
  show "addresses_inv x t K s'"
    using s1 s4(1) addresses_exact_cong [OF s4(2)] by (simp add: s' addresses_inv_def)
  show "signals_inv x t J s' \<and> (\<forall>e \<in> set (et_endpoints t). endpoint_bound s' e)" if P "bst_errors s' = []"
    using s4(3) that
    by (auto simp: s' signals_inv_def endpoint_bound_def unbound_errors_def filter_empty_conv)
qed

subsection \<open>All blocks\<close>

definition block_facts :: "(block_runtime \<Rightarrow> (endpoint_name \<times> 'k) set) \<Rightarrow> block_runtime \<Rightarrow> 'k binding_fact set" where
  "block_facts B b = facts_of (br_id b) (ec_endpoints (br_engine_config b)) (B b)"

definition address_bindings :: "block_runtime list \<Rightarrow> group_address binding_fact set" where
  "address_bindings blocks = (\<Union>b \<in> set blocks. block_facts (\<lambda>b. graph_of (br_endpoint_to_address b)) b)"

definition signal_bindings :: "block_runtime list \<Rightarrow> signal_name binding_fact set" where
  "signal_bindings blocks = (\<Union>b \<in> set blocks. block_facts (\<lambda>b. set (br_endpoint_to_signal b)) b)"

lemma other_blocks_facts:
  assumes "x \<notin> br_id ` set blocks"
  shows "other_blocks x (\<Union>b \<in> set blocks. block_facts B b)"
  using assms by (auto simp: other_blocks_def block_facts_def dest!: facts_of_block)

text \<open>Each endpoint is bound, and at most once to an address or a signal.\<close>

definition block_bound :: "block_runtime \<Rightarrow> bool" where
  "block_bound b \<longleftrightarrow>
     (\<forall>e \<in> set (ec_endpoints (br_engine_config b)).
        br_endpoint_to_address b (ep_name e) \<noteq> None \<or> ep_name e \<in> fst ` set (br_endpoint_to_signal b)
        \<or> br_endpoint_to_external b (ep_name e) \<noteq> None)
     \<and> distinct (map fst (br_endpoint_to_signal b))
     \<and> (\<forall>n \<in> fst ` set (br_endpoint_to_signal b). br_endpoint_to_address b n = None)"

definition build_ok :: "build_state \<Rightarrow> bool" where
  "build_ok st \<longleftrightarrow>
     br_id ` set (bd_blocks st) \<subseteq> bd_ids st \<and> distinct (map br_id (bd_blocks st))
     \<and> addresses_exact (address_bindings (bd_blocks st)) (bd_routing st)
     \<and> (bd_errors st = [] \<longrightarrow>
          signals_exact (signal_bindings (bd_blocks st)) (bd_routing st)
          \<and> (\<forall>b \<in> set (bd_blocks st). block_bound b))"

lemma add_block_fields:
  fixes env limits sd src bp x b st
  defines "t \<equiv> read_endpoints bp b"
  defines "s \<equiv> read_bindings bp x sd src t b (bd_routing st)"
  defines "st' \<equiv> add_block env limits sd src bp x b st"
  shows "\<exists>br. bd_blocks st' = bd_blocks st @ [br]
      \<and> br_id br = x \<and> ec_endpoints (br_engine_config br) = et_endpoints t
      \<and> br_endpoint_to_address br = bst_addresses s \<and> br_endpoint_to_signal br = bst_signals s
      \<and> br_endpoint_to_external br = bst_externals s \<and> br_endpoint_dpts br = et_dpts t
      \<and> br_revision br = max (ab_revision b) 1 \<and> br_enabled br = ab_enabled b
      \<and> ec_logic (br_engine_config br) = logic_program_new (ab_source b)"
    and "bd_ids st' = bd_ids st" and "bd_routing st' = bst_routing s"
    and "bd_errors st' = [] \<Longrightarrow> bd_errors st = [] \<and> bst_errors s = []"
proof -
  obtain es schedules where sched: "read_schedules bp limits b = (es, schedules)" by (rule prod.exhaust)
  note unfolded = st'_def add_block_def Let_def sched prod.case
  show "\<exists>br. bd_blocks st' = bd_blocks st @ [br]
      \<and> br_id br = x \<and> ec_endpoints (br_engine_config br) = et_endpoints t
      \<and> br_endpoint_to_address br = bst_addresses s \<and> br_endpoint_to_signal br = bst_signals s
      \<and> br_endpoint_to_external br = bst_externals s \<and> br_endpoint_dpts br = et_dpts t
      \<and> br_revision br = max (ab_revision b) 1 \<and> br_enabled br = ab_enabled b
      \<and> ec_logic (br_engine_config br) = logic_program_new (ab_source b)"
    unfolding unfolded s_def t_def by simp
  show "bd_ids st' = bd_ids st" "bd_routing st' = bst_routing s"
    unfolding unfolded s_def t_def by simp_all
  show "bd_errors st = [] \<and> bst_errors s = []" if "bd_errors st' = []"
    using that unfolding unfolded s_def t_def by simp
qed

lemma add_block_ok:
  assumes ok: "build_ok st" and x: "x \<notin> bd_ids st"
  shows "build_ok (add_block env limits sd src bp x b (st\<lparr>bd_ids := insert x (bd_ids st)\<rparr>))"
proof -
  define t where "t = read_endpoints bp b"
  define s where "s = read_bindings bp x sd src t b (bd_routing st)"
  let ?st = "st\<lparr>bd_ids := insert x (bd_ids st)\<rparr>"
  define st' where "st' = add_block env limits sd src bp x b ?st"
  have s: "s = read_bindings bp x sd src (read_endpoints bp b) b (bd_routing ?st)"
    by (simp add: s_def t_def)
  note added = add_block_fields [where env = env and limits = limits and sd = sd and src = src and bp = bp
      and x = x and b = b and st = ?st, folded st'_def s, folded t_def]
  obtain br where blocks: "bd_blocks st' = bd_blocks st @ [br]"
    and br: "br_id br = x" "ec_endpoints (br_engine_config br) = et_endpoints t"
      "br_endpoint_to_address br = bst_addresses s" "br_endpoint_to_signal br = bst_signals s"
      "br_endpoint_to_external br = bst_externals s"
    using added(1) by auto
  have fields: "bd_ids st' = insert x (bd_ids st)" "bd_routing st' = bst_routing s"
    and clean: "bd_errors st' = [] \<Longrightarrow> bd_errors st = [] \<and> bst_errors s = []"
    using added(2-4) by simp_all
  have fresh: "x \<notin> br_id ` set (bd_blocks st)" using ok x by (auto simp: build_ok_def)
  have t: "endpoint_table_ok t" by (simp add: t_def read_endpoints_ok)
  have other: "other_blocks x (address_bindings (bd_blocks st))" "other_blocks x (signal_bindings (bd_blocks st))"
    unfolding address_bindings_def signal_bindings_def by (rule other_blocks_facts [OF fresh])+
  have rg: "addresses_exact (address_bindings (bd_blocks st)) (bd_routing st)"
    and signals: "bd_errors st = [] \<Longrightarrow> signals_exact (signal_bindings (bd_blocks st)) (bd_routing st)"
    using ok by (simp_all add: build_ok_def)
  have local_addresses: "addresses_inv x t (address_bindings (bd_blocks st)) s"
    using read_bindings_ok(1) [OF t other rg signals s_def, of "bd_errors st = []"] .
  have local_signals: "signals_inv x t (signal_bindings (bd_blocks st)) s
      \<and> (\<forall>e \<in> set (et_endpoints t). endpoint_bound s e)" if "bd_errors st = []" "bst_errors s = []"
    using read_bindings_ok(2) [OF t other rg signals s_def, of "bd_errors st = []"] that by blast
  have "address_bindings (bd_blocks st') = address_bindings (bd_blocks st)
      \<union> facts_of x (et_endpoints t) (graph_of (bst_addresses s))"
    "signal_bindings (bd_blocks st') = signal_bindings (bd_blocks st)
      \<union> facts_of x (et_endpoints t) (set (bst_signals s))"
    by (auto simp: address_bindings_def signal_bindings_def blocks block_facts_def br)
  note tables = this
  have bound: "block_bound br" if "bd_errors st = []" "bst_errors s = []"
    using local_signals [OF that] unfolding block_bound_def br endpoint_bound_def signals_inv_def
    by fastforce
  have "br_id ` set (bd_blocks st') \<subseteq> bd_ids st'" "distinct (map br_id (bd_blocks st'))"
    using ok fresh by (auto simp: build_ok_def blocks br fields)
  moreover have "addresses_exact (address_bindings (bd_blocks st')) (bd_routing st')"
    using local_addresses unfolding addresses_inv_def tables fields .
  moreover have "signals_exact (signal_bindings (bd_blocks st')) (bd_routing st')
      \<and> (\<forall>b \<in> set (bd_blocks st'). block_bound b)" if "bd_errors st' = []"
  proof -
    from clean [OF that] have good: "bd_errors st = []" "bst_errors s = []" by simp_all
    have "signals_exact (signal_bindings (bd_blocks st')) (bd_routing st')"
      using local_signals [OF good] unfolding signals_inv_def tables fields by blast
    moreover have "\<forall>b \<in> set (bd_blocks st). block_bound b" using ok good(1) by (simp add: build_ok_def)
    ultimately show ?thesis using bound [OF good] by (simp add: blocks)
  qed
  ultimately show ?thesis unfolding st'_def [symmetric] build_ok_def by blast
qed

lemma block_step_ok:
  assumes "build_ok st"
  shows "build_ok (block_step env limits sd src i b st)"
proof (cases "block_id_new (ab_id b)")
  case (Inr x)
  with assms add_block_ok [OF assms] show ?thesis
    by (auto simp: block_step_def Let_def) (simp add: build_ok_def)
qed (use assms in \<open>simp add: block_step_def build_ok_def\<close>)

lemma empty_build_ok: "build_ok \<lparr>bd_errors = [], bd_ids = {}, bd_blocks = [], bd_routing = empty_routing\<rparr>"
  by (simp add: build_ok_def address_bindings_def signal_bindings_def addresses_exact_def signals_exact_def
      empty_routing_def addresses.exact_empty signals.exact_empty outputs_exact_def dpts_agree_def)

lemma read_blocks_ok: "build_ok (read_blocks env limits document signals sources)"
  unfolding read_blocks_def
  by (rule each_indexed_invariant [where I = "\<lambda>_. build_ok"]) (simp_all add: empty_build_ok block_step_ok)

lemma build_automation_ok:
  assumes "build_automation_inner env ds document limits caps = Inr a"
  shows "\<exists>st. build_ok st \<and> bd_errors st = [] \<and> bd_blocks st = ar_blocks a \<and> bd_routing st = ar_routing a"
    and "runtime_config_validate_with_limits env (ar_core_config a) limits = Inr ()"
    and "ar_core_config a = core_config_of ds (ar_blocks a) (ar_signals a)"
    and "ar_document a = document"
proof -
  let ?signals = "read_signals (ad_signals document)"
  let ?st = "read_blocks env limits document ?signals (read_sources document)"
  have "bd_errors ?st = [] \<and> ar_blocks a = bd_blocks ?st \<and> ar_routing a = bd_routing ?st
      \<and> runtime_config_validate_with_limits env (ar_core_config a) limits = Inr ()
      \<and> ar_core_config a = core_config_of ds (ar_blocks a) (ar_signals a) \<and> ar_document a = document"
    using assms by (auto simp: build_automation_inner_def Let_def split: if_splits sum.splits)
  then show "\<exists>st. build_ok st \<and> bd_errors st = [] \<and> bd_blocks st = ar_blocks a \<and> bd_routing st = ar_routing a"
    and "runtime_config_validate_with_limits env (ar_core_config a) limits = Inr ()"
    and "ar_core_config a = core_config_of ds (ar_blocks a) (ar_signals a)"
    and "ar_document a = document"
    using read_blocks_ok [of env limits document ?signals "read_sources document"] by metis+
qed

text \<open>
  C22. The routing tables for addresses and signals of an accepted document are exact; those of HTTP
  and webhook sources are not claimed to be, since a second external binding of an endpoint is not
  refused. An input endpoint is listed under a group address or a signal exactly when a binding of its
  block says so; an output endpoint leads to the address or signal of its binding and to no other; all
  endpoints at an address have the datapoint type recorded for it; and a signal has at most one producer.
\<close>

theorem routing_tables_exact:
  assumes "build_automation_inner env ds document limits caps = Inr a"
  shows "addresses_exact (address_bindings (ar_blocks a)) (ar_routing a)
    \<and> signals_exact (signal_bindings (ar_blocks a)) (ar_routing a)"
  using build_automation_ok(1) [OF assms] by (auto simp: build_ok_def)

text \<open>
  In an accepted document no endpoint is left unbound, no endpoint is bound to both an address and
  a signal, and the identifiers of the blocks are distinct.
\<close>

theorem accepted_endpoints_bound:
  assumes "build_automation_inner env ds document limits caps = Inr a"
  shows "distinct (map br_id (ar_blocks a)) \<and> (\<forall>b \<in> set (ar_blocks a). block_bound b)"
  using build_automation_ok(1) [OF assms] by (auto simp: build_ok_def)

text \<open>
  C23. A document that builds can run: the core accepts its configuration, and the runtime constructed
  from it is the fresh one, in whatever order the hash map of the signal bindings is iterated.
\<close>

theorem built_document_runs:
  assumes "build_automation_inner env ds document limits caps = Inr a"
  shows "runtime_try_new_with_limits env (ar_core_config a) limits
      = Inr (fresh_runtime (ar_core_config a) limits)
    \<and> map bc_id (rc_blocks (ar_core_config a)) = map br_id (ar_blocks a)"
proof
  show "runtime_try_new_with_limits env (ar_core_config a) limits
      = Inr (fresh_runtime (ar_core_config a) limits)"
    by (rule runtime_try_new_eq [OF build_automation_ok(2) [OF assms]])
  have "map bc_id (rc_blocks (ar_core_config a))
      = map br_id (map snd (List.enumerate 0 (ar_blocks a)))"
    unfolding build_automation_ok(3) [OF assms] core_config_of_def
    by (simp add: core_block_of_def case_prod_beta o_def del: map_snd_enumerate)
  then show "map bc_id (rc_blocks (ar_core_config a)) = map br_id (ar_blocks a)" by simp
qed

subsection \<open>Addresses across the C interface\<close>

text \<open>
  The C interface cannot deliver what a document may bind: a valid group address passes its check
  exactly when its main group is at most 15, although documents accept main groups up to 31.
\<close>

theorem abi_accepts_lower_half:
  assumes "group_address_wf a"
  shows "as_u16 a \<le> max_knx_group_address \<longleftrightarrow> ga_main a \<le> 15"
proof -
  have "unat (ga_middle a) \<le> 7" "unat (ga_subgroup a) < 256"
    using assms unat_bound [of "ga_subgroup a"] by (simp_all add: group_address_wf_def word_le_nat_alt)
  then show ?thesis
    using unat_as_u16 [OF assms] by (simp add: max_knx_group_address_def word_le_nat_alt) linarith
qed

end
