(* ===== verification/Api_Correctness.thy ===== *)
theory Api_Correctness
  imports Api_Operations Document_Correctness Runtime_Correctness
begin

text \<open>
  What the runtime API promises a host: as long as it leaves \<open>runtime_mut\<close> alone, its document
  describes its runtime, and a change under stale revisions is refused without effect; what is projected
  can be sent back.
\<close>

subsection \<open>The blocks of a built document\<close>

definition built_from :: "document_block \<Rightarrow> block_runtime \<Rightarrow> bool" where
  "built_from d b \<longleftrightarrow>
     br_id b = BlockId (ab_id d) \<and> br_enabled b = ab_enabled d
     \<and> lp_source (ec_logic (br_engine_config b)) = ab_source d"

lemma block_id_newD: "block_id_new text = Inr x \<Longrightarrow> x = BlockId text"
  by (auto simp: block_id_new_def result_simps)

lemma block_step_built:
  assumes "bd_errors st = [] \<Longrightarrow> list_all2 built_from ds (bd_blocks st)"
    and "bd_errors (block_step env limits sd src i d st) = []"
  shows "list_all2 built_from (ds @ [d]) (bd_blocks (block_step env limits sd src i d st))"
proof -
  from assms(2) obtain x where x: "block_id_new (ab_id d) = Inr x"
    and step: "block_step env limits sd src i d st
      = add_block env limits sd src (item_path ''blocks'' i) x d (st\<lparr>bd_ids := insert x (bd_ids st)\<rparr>)"
    by (auto simp: block_step_def Let_def split: sum.splits if_splits)
  from assms(2) have "bd_errors st = []"
    unfolding step by (auto simp: add_block_def Let_def split: prod.splits)
  from assms(1) [OF this] show ?thesis
    using block_id_newD [OF x] unfolding step
    by (auto simp: add_block_def Let_def built_from_def logic_program_new_def list_all2_appendI
        split: prod.splits)
qed

lemma read_blocks_built:
  assumes "bd_errors (read_blocks env limits document signals sources) = []"
  shows "list_all2 built_from (ad_blocks document)
    (bd_blocks (read_blocks env limits document signals sources))"
proof -
  have "bd_errors (read_blocks env limits document signals sources) = [] \<longrightarrow>
    list_all2 built_from (ad_blocks document) (bd_blocks (read_blocks env limits document signals sources))"
    unfolding read_blocks_def
    by (rule each_indexed_invariant [where I =
          "\<lambda>ds st. bd_errors st = [] \<longrightarrow> list_all2 built_from ds (bd_blocks st)"])
      (simp_all add: block_step_built)
  with assms show ?thesis by blast
qed

lemma built_blocks:
  assumes "build_automation_inner env ds document limits caps = Inr a"
  shows "list_all2 built_from (ad_blocks document) (ar_blocks a)"
proof -
  let ?st = "read_blocks env limits document (read_signals (ad_signals document)) (read_sources document)"
  have "bd_errors ?st = [] \<and> ar_blocks a = bd_blocks ?st"
    using assms by (auto simp: build_automation_inner_def Let_def split: if_splits sum.splits)
  with read_blocks_built show ?thesis by auto
qed

subsection \<open>The document describes the runtime\<close>

text \<open>
  The source of a block is compared through its revision, because that is what activation compares:
  a source with the revision of the running program is recorded, not loaded.
\<close>

definition in_step :: "document_block \<Rightarrow> block_config \<Rightarrow> bool" where
  "in_step d c \<longleftrightarrow>
     bc_id c = BlockId (ab_id d) \<and> bc_enabled c = ab_enabled d
     \<and> lp_revision (bc_logic c) = revision_for (ab_source d)"

definition api_ok :: "runtime_config \<Rightarrow> runtime_limits \<Rightarrow> runtime_api \<Rightarrow> bool" where
  "api_ok config limits a \<longleftrightarrow>
     runtime_ok config limits (api_runtime a)
     \<and> list_all2 in_step (ad_blocks (api_document a)) (map lb_config (rt_blocks (api_runtime a)))
     \<and> distinct (map ab_id (ad_blocks (api_document a)))
     \<and> (\<forall>d \<in> set (ad_blocks (api_document a)).
          btm_get (api_block_revisions a) (ab_id d) = Some (max (ab_revision d) 1))"

lemma built_ids:
  assumes "list_all2 built_from ds bs" and "distinct (map br_id bs)"
  shows "distinct (map ab_id ds)"
proof -
  have "map br_id bs = map BlockId (map ab_id ds)"
    using assms(1) by (induction rule: list_all2_induct) (simp_all add: built_from_def)
  then have "distinct (map BlockId (map ab_id ds))" using assms(2) by metis
  then show ?thesis unfolding distinct_map [of BlockId "map ab_id ds"] by blast
qed

lemma revisions_collected:
  assumes "distinct (map ab_id ds)"
  shows "\<forall>d \<in> set ds. btm_get (foldl (\<lambda>m b. btm_insert (ab_id b) (max (ab_revision b) 1) m) m ds) (ab_id d)
    = Some (max (ab_revision d) 1)"
  using assms
proof (induction ds rule: rev_induct)
  case (snoc d ds)
  then have fresh: "\<forall>e \<in> set ds. ab_id d \<noteq> ab_id e" by (auto simp: image_iff)
  with snoc show ?case by (auto simp: btm_get_insert)
qed simp

lemma api_start_ok:
  assumes "api_with_limits env ds document limits caps = Inr a"
  shows "api_ok (ar_core_config (api_automation a)) limits a"
    and "runtime_reachable (ar_core_config (api_automation a)) limits (api_runtime a)"
proof -
  let ?config = "ar_core_config (api_automation a)"
  from assms have built: "build_automation_inner env ds document limits caps = Inr (api_automation a)"
    and start: "runtime_try_new_with_limits env ?config limits = Inr (api_runtime a)"
    and document: "api_document a = document"
    and revisions: "api_block_revisions a = initial_revisions (ar_document (api_automation a))"
    by (auto simp: api_with_limits_def result_simps)
  show reach: "runtime_reachable ?config limits (api_runtime a)" by (rule runtime_reachable.start [OF start])
  note result = build_automation_ok [OF built]
  have rt: "api_runtime a = fresh_runtime ?config limits"
    using start runtime_try_new_eq [OF result(2)] by simp
  note follow = built_blocks [OF built]
  have ids: "distinct (map ab_id (ad_blocks document))"
    using result(1) by (intro built_ids [OF follow]) (auto simp: build_ok_def)
  have "list_all2 in_step (ad_blocks document) (rc_blocks ?config)"
    using follow unfolding result(3) core_config_of_def list_all2_conv_all_nth
    by (auto simp: built_from_def in_step_def core_block_of_def logic_program_new_def nth_enumerate_eq)
  moreover have "map lb_config (rt_blocks (api_runtime a)) = rc_blocks ?config"
    unfolding rt by (simp add: fresh_runtime_def fresh_block_def o_def)
  ultimately show "api_ok ?config limits a"
    using runtime_reachableD(3) [OF reach] ids revisions_collected [OF ids, of "[]"]
    by (simp add: api_ok_def document revisions initial_revisions_def result(4))
qed

subsection \<open>Events leave the configurations alone\<close>

abbreviation configs :: "runtime \<Rightarrow> block_config list" where
  "configs rt \<equiv> map lb_config (rt_blocks rt)"

lemma map_update_same [simp]: "f b = f (xs ! i) \<Longrightarrow> map f (xs[i := b]) = map f xs"
  by (cases "i < length xs") (simp_all add: map_update list_update_same_conv list_update_beyond)

lemma configs_set_block: "lb_config b = lb_config (rt_blocks rt ! i) \<Longrightarrow> configs (set_block i b rt) = configs rt"
  by simp

lemma configs_set_engine: "configs (set_engine i eng rt) = configs rt"
  by simp

lemma configs_accepted [simp]: "configs (accepted now rt) = configs rt"
  by (simp add: accepted_def)

lemma configs_admit_at: "admit_at i now rt = (ok, rt') \<Longrightarrow> configs rt' = configs rt"
proof -
  have "lb_config (snd (admit_live_execution now maximum b)) = lb_config b" for maximum b
    by (simp add: admit_live_execution_def prune_live_execution_window_def Let_def)
  then show "admit_at i now rt = (ok, rt') \<Longrightarrow> configs rt' = configs rt"
    by (auto simp: admit_at_def split: prod.splits intro!: configs_set_block) (metis snd_conv)
qed

lemma configs_finish_execution: "finish_execution i ex causal rt = (bx, rt') \<Longrightarrow> configs rt' = configs rt"
proof -
  have "lb_config (record_live_execution ex b) = lb_config b" for b
    by (simp add: record_live_execution_def Let_def split: sum.splits)
  then show "finish_execution i ex causal rt = (bx, rt') \<Longrightarrow> configs rt' = configs rt"
    using configs_set_block [of "record_live_execution ex (rt_blocks rt ! i)" rt i]
    by (auto simp: finish_execution_def assign_execution_id_def Let_def)
qed

lemma configs_observe_at: "observe_at env i name v now rt = (r, rt') \<Longrightarrow> configs rt' = configs rt"
  by (auto simp: observe_at_def split: prod.splits sum.splits)

lemmas configs_keep = configs_admit_at configs_finish_execution configs_observe_at

lemma configs_process_input: "process_input env x name v now rt = (r, rt') \<Longrightarrow> configs rt' = configs rt"
  unfolding process_input_def process_input_at_def
  by (auto split: sum.splits prod.splits bool.splits if_splits dest!: configs_keep)

lemma configs_observe_input: "observe_input env x name v now rt = (r, rt') \<Longrightarrow> configs rt' = configs rt"
  unfolding observe_input_def by (auto split: sum.splits prod.splits dest!: configs_keep)

lemma configs_due_timer: "process_next_due_timer env now rt = (r, rt') \<Longrightarrow> configs rt' = configs rt"
  unfolding process_next_due_timer_def process_next_due_timer_at_def
  by (auto split: sum.splits prod.splits option.splits bool.splits dest!: configs_keep)

lemma configs_resume: "resume_block x rt = (r, rt') \<Longrightarrow> configs rt' = configs rt"
  by (auto simp: resume_block_def configs_set_block split: sum.splits)

subsection \<open>Operations\<close>

text \<open>
  One call of a method with \<open>&mut self\<close>, but for \<open>runtime_mut\<close>: that one hands out the runtime itself, and
  what its caller does with it is no operation of the API. Below, \<open>runtime_mut_diverges\<close> shows what it
  can do. \<open>process_input\<close>, \<open>activate_source\<close> and \<open>resume_block\<close> are other names of \<open>deliver_input\<close>,
  \<open>activate\<close> and \<open>resume\<close>.
\<close>

inductive api_step :: "runtime_api \<Rightarrow> runtime_api \<Rightarrow> bool" where
  deliver: "deliver_input env block endpoint m now a = (r, a') \<Longrightarrow> api_step a a'"
| observe: "api_observe_input env block endpoint m now a = (u, a') \<Longrightarrow> api_step a a'"
| due_timer: "api_process_due_timer env now a = (r, a') \<Longrightarrow> api_step a a'"
| activate: "api_activate env request a = (p, a') \<Longrightarrow> api_step a a'"
| set_enabled: "api_set_enabled env block enabled doc structural revision new_doc a = (p, a') \<Longrightarrow> api_step a a'"
| resume: "api_resume block doc structural revision a = (u, a') \<Longrightarrow> api_step a a'"

inductive api_reachable :: "runtime_config \<Rightarrow> runtime_limits \<Rightarrow> runtime_api \<Rightarrow> bool"
  for config limits where
  start: "api_with_limits env ds document limits caps = Inr a \<Longrightarrow>
    config = ar_core_config (api_automation a) \<Longrightarrow> api_reachable config limits a"
| step: "api_reachable config limits a \<Longrightarrow> api_step a a' \<Longrightarrow> api_reachable config limits a'"

text \<open>Every call but an activation replaces the runtime by one with the same configurations.\<close>

definition runtime_only :: "runtime_api \<Rightarrow> runtime_api \<Rightarrow> bool" where
  "runtime_only a a' \<longleftrightarrow>
     (\<exists>rt. a' = a\<lparr>api_runtime := rt\<rparr> \<and> configs rt = configs (api_runtime a)
        \<and> (rt = api_runtime a \<or> live_step (api_runtime a) rt))"

lemma runtime_onlyI:
  "a' = a\<lparr>api_runtime := rt\<rparr> \<Longrightarrow> configs rt = configs (api_runtime a) \<Longrightarrow> live_step (api_runtime a) rt
    \<Longrightarrow> runtime_only a a'"
  by (auto simp: runtime_only_def)

lemma runtime_only_refl [simp]: "runtime_only a a"
  unfolding runtime_only_def by (intro exI [of _ "api_runtime a"]) simp

lemma deliver_runtime_only: "deliver_input env block endpoint m now a = (r, a') \<Longrightarrow> runtime_only a a'"
  by (auto simp: deliver_input_def split: sum.splits prod.splits
      intro!: runtime_onlyI configs_process_input intro: live_step.input_now)

lemma observe_runtime_only: "api_observe_input env block endpoint m now a = (r, a') \<Longrightarrow> runtime_only a a'"
  by (auto simp: api_observe_input_def split: sum.splits prod.splits
      intro!: runtime_onlyI configs_observe_input intro: live_step.observe)

lemma due_timer_runtime_only: "api_process_due_timer env now a = (r, a') \<Longrightarrow> runtime_only a a'"
  by (auto simp: api_process_due_timer_def split: prod.splits
      intro!: runtime_onlyI configs_due_timer intro: live_step.timer_now)

lemma resume_runtime_only: "api_resume block doc structural revision a = (r, a') \<Longrightarrow> runtime_only a a'"
  by (auto simp: api_resume_def split: sum.splits prod.splits
      intro!: runtime_onlyI configs_resume intro: live_step.resume)

subsection \<open>Activation\<close>

lemma find_updated:
  assumes "distinct (map ab_id ds)" and "i < length ds" and "ab_id (ds ! i) = x"
  shows "find (\<lambda>b. ab_id b = x) ds = Some (ds ! i)"
    and "update_document_block x f ds = ds[i := f (ds ! i)]"
proof -
  have "find (\<lambda>b. ab_id b = x) ds = Some (ds ! i) \<and> update_document_block x f ds = ds[i := f (ds ! i)]"
    using assms
  proof (induction ds arbitrary: i)
    case (Cons d ds)
    show ?case
    proof (cases i)
      case (Suc j)
      with Cons.prems have "ds ! j \<in> set ds" by simp
      then have "ab_id (ds ! j) \<in> ab_id ` set ds" by (rule imageI)
      with Suc Cons.prems Cons.IH [of j] show ?thesis by auto
    qed (use Cons.prems in simp)
  qed simp
  then show "find (\<lambda>b. ab_id b = x) ds = Some (ds ! i)"
    and "update_document_block x f ds = ds[i := f (ds ! i)]" by simp_all
qed

lemma activate_one:
  assumes "activate env [u] rt = (Inr results, rt')"
  shows "\<exists>i < length (rt_blocks rt). lb_id (rt_blocks rt ! i) = ba_block_id u
    \<and> configs rt' = (configs rt)[i := lb_config (activated_block u (map_option logic_program_new (ba_source u))
         (rt_blocks rt ! i))]
    \<and> results = [activation_report u (map_option logic_program_new (ba_source u)) (rt_blocks rt ! i)]"
  using assms
proof (cases rule: activate_cases)
  case (applied prepared bs cursors)
  from applied(1) obtain i p where prepared: "prepared = [(i, p)]" "prepared_for rt u (i, p)"
    by (auto simp: list_all2_Cons1)
  then have i: "i < length (rt_blocks rt)" "lb_id (rt_blocks rt ! i) = ba_block_id u"
    and p: "p = map_option logic_program_new (ba_source u)" by (simp_all add: prepared_for_def)
  have "bs = (rt_blocks rt)[i := activated_block u p (rt_blocks rt ! i)]"
    using applied(5-7) i(1) by (intro nth_equalityI) (auto simp: prepared nth_list_update)
  then have "configs rt' = (configs rt)[i := lb_config (activated_block u p (rt_blocks rt ! i))]"
    using applied(4) by (simp add: map_update)
  with i p applied(3) show ?thesis by (auto simp: prepared)
qed simp

lemma activated_in_step:
  assumes "in_step d (lb_config b)" and "block_ok limits now b"
    and "u = \<lparr>ba_block_id = x, ba_source = arq_source request, ba_enabled = arq_enabled request\<rparr>"
  shows "in_step (activated_document_block request d)
    (lb_config (activated_block u (map_option logic_program_new (ba_source u)) b))"
proof -
  have "active_logic_revision (lb_engine b) = lp_revision (bc_logic (lb_config b))"
    using block_okD(4) [OF assms(2)] by (simp add: active_logic_revision_def)
  with assms(1,3) show ?thesis
    by (auto simp: in_step_def activated_document_block_def activated_block_def apply_source_def
        apply_enabled_def logic_program_new_def split: option.splits)
qed

text \<open>What a successful activation does to the API.\<close>

definition activated_api :: "activation_request \<Rightarrow> runtime_api \<Rightarrow> runtime_api \<Rightarrow> bool" where
  "activated_api request a a' \<longleftrightarrow>
     check_cas a (arq_block_id request) (arq_expected_document_revision request)
       (arq_expected_structural_revision request) (arq_expected_block_revision request) = Inr ()
     \<and> api_document_revision a' = max (arq_new_document_revision request)
         (saturating_add_word (api_document_revision a) 1)
     \<and> (\<exists>i < length (ad_blocks (api_document a)).
          ab_id (ad_blocks (api_document a) ! i) = arq_block_id request
          \<and> api_document a' = (api_document a)\<lparr>ad_blocks := (ad_blocks (api_document a))
              [i := activated_document_block request (ad_blocks (api_document a) ! i)]\<rparr>)
     \<and> api_automation a' = api_automation a
     \<and> api_structural_revision a' = api_structural_revision a"

lemma api_activate_cases:
  assumes ok: "api_ok config limits a" and run: "api_activate env request a = (r, a')"
  shows "(\<exists>e. r = Inl e \<and> a' = a)
    \<or> (\<exists>p. r = Inr p \<and> activated_api request a a' \<and> api_ok config limits a'
         \<and> live_step (api_runtime a) (api_runtime a'))"
proof -
  let ?ds = "ad_blocks (api_document a)"
  let ?cas = "check_cas a (arq_block_id request) (arq_expected_document_revision request)
       (arq_expected_structural_revision request) (arq_expected_block_revision request)"
  let ?u = "\<lambda>x. \<lparr>ba_block_id = x, ba_source = arq_source request, ba_enabled = arq_enabled request\<rparr>"
  show ?thesis
  proof (cases "\<exists>x results rt'. ?cas = Inr () \<and> block_id_new (arq_block_id request) = Inr x
      \<and> activate env [?u x] (api_runtime a) = (Inr results, rt')")
    case False
    have failed: "rt' = api_runtime a" if "activate env [?u x] (api_runtime a) = (Inl e, rt')" for x e rt'
      using that by (cases rule: activate_cases) simp_all
    from False run show ?thesis
      by (auto simp: api_activate_def result_bind_def map_err_def split: sum.splits prod.splits
          dest: failed)
  next
    case True
    then obtain x results rt' where cas: "?cas = Inr ()" and x: "block_id_new (arq_block_id request) = Inr x"
      and act: "activate env [?u x] (api_runtime a) = (Inr results, rt')" by blast
    from activate_one [OF act] obtain i where i: "i < length (rt_blocks (api_runtime a))"
      "lb_id (rt_blocks (api_runtime a) ! i) = x"
      and configs: "configs rt' = (configs (api_runtime a))[i := lb_config (activated_block (?u x)
         (map_option logic_program_new (arq_source request)) (rt_blocks (api_runtime a) ! i))]"
      by auto
    from ok have rt_ok: "runtime_ok config limits (api_runtime a)"
      and steps: "list_all2 in_step ?ds (configs (api_runtime a))"
      and ids: "distinct (map ab_id ?ds)"
      and revs: "\<forall>d \<in> set ?ds. btm_get (api_block_revisions a) (ab_id d) = Some (max (ab_revision d) 1)"
      by (simp_all add: api_ok_def)
    have len: "length ?ds = length (rt_blocks (api_runtime a))"
      using list_all2_lengthD [OF steps] by simp
    have step_i: "in_step (?ds ! i) (lb_config (rt_blocks (api_runtime a) ! i))"
      using list_all2_nthD [OF steps, of i] i(1) len by simp
    then have id_i: "ab_id (?ds ! i) = arq_block_id request"
      using i(2) block_id_newD [OF x] by (simp add: in_step_def)
    note updated = find_updated [OF ids _ id_i] len i(1)
    let ?d = "activated_document_block request (?ds ! i)"
    have a': "a' = a\<lparr>api_runtime := rt',
        api_document := (api_document a)\<lparr>ad_blocks := ?ds[i := ?d]\<rparr>,
        api_document_revision := max (arq_new_document_revision request)
            (saturating_add_word (api_document_revision a) 1),
        api_block_revisions := btm_insert (ab_id ?d) (ab_revision ?d) (api_block_revisions a)\<rparr>"
      and r: "\<exists>p. r = Inr p"
      using run cas x act updated
      by (auto simp: api_activate_def result_bind_def record_activation_def Let_def)
    have d_id: "ab_id ?d = ab_id (?ds ! i)" by (simp add: activated_document_block_def)
    have "list_all2 in_step (?ds[i := ?d]) (configs rt')"
      unfolding configs
      using activated_in_step [OF step_i runtime_invD(3) [OF rt_ok [unfolded runtime_ok_def] i(1)] refl]
      by (intro list_all2_update_cong steps) simp
    moreover have "map ab_id (?ds[i := ?d]) = map ab_id ?ds" by (simp add: d_id)
    moreover have "\<forall>d \<in> set (?ds[i := ?d]).
        btm_get (btm_insert (ab_id ?d) (ab_revision ?d) (api_block_revisions a)) (ab_id d)
        = Some (max (ab_revision d) 1)"
    proof
      fix d assume "d \<in> set (?ds[i := ?d])"
      then obtain j where j: "j < length ?ds" "d = (?ds[i := ?d]) ! j" by (auto simp: in_set_conv_nth)
      show "btm_get (btm_insert (ab_id ?d) (ab_revision ?d) (api_block_revisions a)) (ab_id d)
        = Some (max (ab_revision d) 1)"
      proof (cases "j = i")
        case False
        then have "ab_id (?ds ! j) \<noteq> ab_id (?ds ! i)"
          using ids j(1) len i(1) by (simp add: distinct_conv_nth)
        with False j revs show ?thesis by (simp add: btm_get_insert d_id)
      qed (use j len i(1) in \<open>simp add: btm_get_insert activated_document_block_def\<close>)
    qed
    moreover have "live_step (api_runtime a) rt'" using act by (rule live_step.activate)
    moreover have "runtime_ok config limits rt'" using rt_ok act by (rule activate_ok)
    moreover have "activated_api request a a'"
      unfolding activated_api_def using cas i(1) len id_i by (auto simp: a')
    ultimately show ?thesis using r ids by (auto simp: a' api_ok_def)
  qed
qed

lemma api_ok_runtime_only:
  assumes "api_ok config limits a" and "runtime_only a a'" and "runtime_config_wf features config limits"
  shows "api_ok config limits a'"
  using assms live_step_ok [OF assms(3)] by (auto simp: api_ok_def runtime_only_def)

lemma api_step_cases:
  assumes "api_ok config limits a" and "api_step a a'"
  shows "runtime_only a a'
    \<or> (\<exists>request. activated_api request a a' \<and> api_ok config limits a'
         \<and> live_step (api_runtime a) (api_runtime a'))"
  using assms(2)
proof cases
  case (activate env request p)
  with api_activate_cases [OF assms(1)] show ?thesis using runtime_only_refl by metis
next
  case (set_enabled env block enabled doc structural revision new_doc p)
  from api_activate_cases [OF assms(1) set_enabled [unfolded api_set_enabled_def]]
  show ?thesis using runtime_only_refl by metis
qed (auto dest: deliver_runtime_only observe_runtime_only due_timer_runtime_only resume_runtime_only)

lemma api_reachableD:
  assumes "api_reachable config limits a"
  shows "api_ok config limits a \<and> runtime_reachable config limits (api_runtime a)"
  using assms
proof induction
  case (start env ds document caps a)
  then show ?case using api_start_ok [OF start(1)] by simp
next
  case (step a a')
  then obtain features where wf: "runtime_config_wf features config limits"
    using runtime_reachableD(2) by blast
  have "runtime_reachable config limits rt" if "live_step (api_runtime a) rt" for rt
    using step.IH that by (blast intro: runtime_reachable.step runtime_step.live)
  with step api_step_cases [of config limits a a'] api_ok_runtime_only [OF _ _ wf]
  show ?case by (auto simp: runtime_only_def)
qed

text \<open>
  C26. The document of an API describes its runtime, as long as the host leaves \<open>runtime_mut\<close> alone,
  which gives it the runtime to change behind the document's back.  Whatever other methods it calls, the
  runtime is one that the core reaches from the configuration of the document it was built from; its
  blocks are those of the current document, in the same order, enabled alike and with programs of the
  same revision; and the revision table holds the revision of every block, one for a block at zero.
\<close>

theorem document_describes_runtime:
  assumes "api_reachable config limits a"
  shows "runtime_reachable config limits (api_runtime a)
    \<and> list_all2 in_step (ad_blocks (api_document a)) (configs (api_runtime a))
    \<and> (\<forall>d \<in> set (ad_blocks (api_document a)).
         btm_get (api_block_revisions a) (ab_id d) = Some (max (ab_revision d) 1))"
  using api_reachableD [OF assms] by (simp add: api_ok_def)


lemma next_revision_le: "r \<le> max n (saturating_add_word r (1 :: u64))"
proof -
  have "r \<le> saturating_add_word r 1"
    using unat_bound [of r] by (simp add: word_le_nat_alt unat_saturating_add_word)
  then show ?thesis by (simp add: le_max_iff_disj)
qed

lemma api_step_revision:
  assumes "api_ok config limits a" and "api_step a a'"
  shows "api_document_revision a \<le> api_document_revision a'"
  using api_step_cases [OF assms] next_revision_le by (auto simp: runtime_only_def activated_api_def)

lemma api_steps_revision:
  assumes "api_step\<^sup>*\<^sup>* a a'" and "api_reachable config limits a"
  shows "api_reachable config limits a' \<and> api_document_revision a \<le> api_document_revision a'"
  using assms
proof (induction rule: rtranclp_induct)
  case (step b c)
  then have b: "api_reachable config limits b" "api_document_revision a \<le> api_document_revision b" by simp_all
  with step.hyps(2) have "api_reachable config limits c" by (blast intro: api_reachable.step)
  moreover have "api_document_revision b \<le> api_document_revision c"
    using api_step_revision [OF api_reachableD [OF b(1), THEN conjunct1] step.hyps(2)] .
  ultimately show ?case using b(2) by simp
qed simp

text \<open>
  C28. A document revision guards one change only.  Once an activation under it has succeeded, every
  later request that expects it, for whatever block and after whatever calls but \<open>runtime_mut\<close>, is
  refused as stale and told the current revisions. The last 64-bit number is the exception: under it an
  activation can be repeated, and a host gets there in one call, by asking for it as the new revision.
\<close>

theorem spent_revision_stays_stale:
  assumes "api_reachable config limits a" and "api_activate env request a = (Inr p, b)"
    and "arq_expected_document_revision request < 2 ^ 64 - 1" and "api_step\<^sup>*\<^sup>* b c"
  shows "check_cas c block (arq_expected_document_revision request) structural revision
    = Inl (OpStale (api_document_revision c) (api_structural_revision c)
        (btm_get (api_block_revisions c) block))"
proof -
  have act: "activated_api request a b"
    using api_activate_cases [OF api_reachableD [OF assms(1), THEN conjunct1] assms(2)] by auto
  have "api_reachable config limits b"
    using assms(1,2) by (blast intro: api_reachable.step api_step.activate)
  from api_steps_revision [OF assms(4) this]
  have later: "api_document_revision b \<le> api_document_revision c" by blast
  have current: "arq_expected_document_revision request = api_document_revision a"
    using act by (auto simp: activated_api_def check_cas_def Let_def split: if_splits)
  have "api_document_revision a < saturating_add_word (api_document_revision a) 1"
    using assms(3) unfolding current
    by (simp add: word_less_nat_alt unat_saturating_add_word)
  also have "\<dots> \<le> api_document_revision b" using act by (simp add: activated_api_def)
  finally have "api_document_revision a \<noteq> api_document_revision c" using later by auto
  then show ?thesis by (simp add: check_cas_def current Let_def)
qed

subsection \<open>Signals\<close>

lemma signals_keep:
  "admit_at i now rt = (ok, rt') \<Longrightarrow> rt_signals rt' = rt_signals rt"
  "finish_execution i ex causal rt = (bx, rt') \<Longrightarrow> rt_signals rt' = rt_signals rt"
  "observe_at env i name v now rt = (r, rt') \<Longrightarrow> rt_signals rt' = rt_signals rt"
  "activate env updates rt = (p, rt') \<Longrightarrow> rt_signals rt' = rt_signals rt"
  by (auto simp: admit_at_def finish_execution_def assign_execution_id_def observe_at_def Let_def
      split: prod.splits sum.splits elim: activate_cases)

lemma signals_of_operations:
  "process_input env x name v now rt = (q, rt') \<Longrightarrow> rt_signals rt' = rt_signals rt"
  "observe_input env x name v now rt = (u, rt') \<Longrightarrow> rt_signals rt' = rt_signals rt"
  "process_next_due_timer env now rt = (q, rt') \<Longrightarrow> rt_signals rt' = rt_signals rt"
  "resume_block x rt = (u, rt') \<Longrightarrow> rt_signals rt' = rt_signals rt"
  unfolding process_input_def process_input_at_def observe_input_def process_next_due_timer_def
    process_next_due_timer_at_def resume_block_def
  by (auto simp: accepted_def split: sum.splits prod.splits option.splits bool.splits if_splits
      dest!: signals_keep)

lemma api_step_signals: "api_step a a' \<Longrightarrow> rt_signals (api_runtime a') = rt_signals (api_runtime a)"
  by (induction rule: api_step.induct)
    (auto simp: deliver_input_def api_observe_input_def api_process_due_timer_def api_activate_def
      api_set_enabled_def api_resume_def record_activation_def Let_def
      split: sum.splits prod.splits option.splits dest: signals_of_operations signals_keep(4))

text \<open>
  Through \<open>runtime_mut\<close> a document ceases to describe its runtime: a block that is enabled or disabled on
  the runtime itself is not what the document says.
\<close>

theorem runtime_mut_diverges:
  assumes "api_reachable config limits a"
    and "activate env [\<lparr>ba_block_id = x, ba_source = None, ba_enabled = Some on\<rparr>] (api_runtime a) = (Inr [r], rt)"
    and "bar_enabled_changed r"
  shows "\<not> list_all2 in_step (ad_blocks (api_document (runtime_mut (\<lambda>_. rt) a)))
    (configs (api_runtime (runtime_mut (\<lambda>_. rt) a)))"
proof
  let ?rt = "api_runtime a"
  let ?u = "\<lparr>ba_block_id = x, ba_source = None, ba_enabled = Some on\<rparr>"
  from activate_one [OF assms(2)] obtain i where i: "i < length (rt_blocks ?rt)"
    and configs: "configs rt = (configs ?rt)[i := lb_config (activated_block ?u None (rt_blocks ?rt ! i))]"
    and r: "r = activation_report ?u None (rt_blocks ?rt ! i)" by auto
  have steps: "list_all2 in_step (ad_blocks (api_document a)) (configs ?rt)"
    using api_reachableD [OF assms(1)] by (simp add: api_ok_def)
  assume "list_all2 in_step (ad_blocks (api_document (runtime_mut (\<lambda>_. rt) a)))
    (configs (api_runtime (runtime_mut (\<lambda>_. rt) a)))"
  then have after: "list_all2 in_step (ad_blocks (api_document a)) (configs rt)" by (simp add: runtime_mut_def)
  have "bc_enabled (configs rt ! i) = bc_enabled (configs ?rt ! i)"
    using list_all2_nthD2 [OF after, of i] list_all2_nthD2 [OF steps, of i] i configs
    by (simp add: in_step_def)
  moreover have "bc_enabled (configs rt ! i) \<noteq> bc_enabled (configs ?rt ! i)"
    using assms(3) i configs
    by (auto simp: r activation_report_def activated_block_def apply_source_def apply_enabled_def
        set_enabled_def reset_health_def split: if_splits)
  ultimately show False by simp
qed

text \<open>
  C29. The methods of the API, \<open>runtime_mut\<close> excepted, never carry a value from block to block: whatever
  inputs, timers and activations a host sends through them, every signal of its runtime stays without a
  value.
\<close>

theorem api_signals_stay_unknown:
  assumes "api_reachable config limits a"
  shows "\<forall>s \<in> set (rt_signals (api_runtime a)). sg_value s = None"
  using assms
proof induction
  case (start env ds document caps a)
  then have "api_runtime a = fresh_runtime config limits"
    using runtime_try_new_eq [OF build_automation_ok(2)] by (auto simp: api_with_limits_def result_simps)
  then show ?case by (auto simp: fresh_runtime_def connected_def new_signal_def)
qed (simp add: api_step_signals)

subsection \<open>Messages\<close>

lemma state_reads_back:
  assumes "\<forall>e \<in> set state. state_entry_ok e"
  shows "state_map (state_projection state) = Inr state"
proof -
  have "state_value_of k (state_message_of v) = Inr v" if "(k, v) \<in> set state" for k v
    using assms that by (cases v) (auto simp: state_value_of_def state_message_of_def state_entry_ok_def)
  then have "collect_results (map (\<lambda>e. case e of (k, v) \<Rightarrow>
      result_bind (state_value_of k (state_message_of v)) (\<lambda>x. Inr (k, x))) state) = Inr (map id state)"
    by (intro collect_results_read) auto
  then show ?thesis by (simp add: state_map_def state_projection_def o_def case_prod_beta)
qed

lemma timers_read_back:
  assumes "\<forall>t \<in> set ts. timer_name_new (timer_str (pt_name t)) = Inr (pt_name t)"
  shows "pending_timers (map timer_projection ts) = Inr ts"
proof -
  have "pending_timer_of (timer_projection t) = Inr t" if "t \<in> set ts" for t
    using assms that by (simp add: pending_timer_of_def timer_projection_def)
  then have "collect_results (map (\<lambda>t. pending_timer_of (timer_projection t)) ts) = Inr (map id ts)"
    by (intro collect_results_read) simp
  then show ?thesis by (simp add: pending_timers_def o_def)
qed

text \<open>
  What the API projects of a block can be sent back to simulate it: its state and its pending
  timers are read back exactly as the block holds them, given that the timers have valid names.
\<close>

theorem projection_reads_back:
  assumes "api_reachable config limits a" and "b \<in> set (rt_blocks (api_runtime a))"
    and "\<forall>t \<in> set (btm_values (eng_pending_timers (lb_engine b))).
      timer_name_new (timer_str (pt_name t)) = Inr (pt_name t)"
  shows "\<exists>p \<in> set (rp_blocks (api_projection now a)). bp_id p = block_str (lb_id b)
    \<and> state_map (bp_state p) = Inr (eng_state (lb_engine b))
    \<and> pending_timers (bp_pending_timers p) = Inr (btm_values (eng_pending_timers (lb_engine b)))"
proof -
  have "runtime_ok config limits (api_runtime a)"
    using api_reachableD [OF assms(1)] by (simp add: api_ok_def)
  with assms(2) have "engine_ok (lb_engine b)"
    using runtime_invD(3) block_okD(1) unfolding runtime_ok_def by (metis in_set_conv_nth)
  then have entries: "\<forall>e \<in> set (eng_state (lb_engine b)). state_entry_ok e"
    by (simp add: engine_ok_def state_ok_def)
  let ?p = "block_projection_of (block_snapshot_at now b)"
  have "?p \<in> set (rp_blocks (api_projection now a))"
    using assms(2) by (simp add: api_projection_def runtime_snapshot_at_def)
  moreover have "bp_id ?p = block_str (lb_id b)"
    "state_map (bp_state ?p) = Inr (eng_state (lb_engine b))"
    "pending_timers (bp_pending_timers ?p) = Inr (btm_values (eng_pending_timers (lb_engine b)))"
    using state_reads_back [OF entries] timers_read_back [OF assms(3)]
    by (simp_all add: block_projection_of_def block_snapshot_at_def)
  ultimately show ?thesis by blast
qed

text \<open>
  A value crosses the API unchanged: its message, read at its datapoint type, is the value again,
  for temperatures up to forty thousand degrees.
\<close>

theorem value_message_roundtrip:
  assumes "typed_value_wf v" and "\<forall>c. tv_value v = VTemperature c \<longrightarrow> \<bar>c\<bar> \<le> 4000000"
  shows "value_to_core (value_from_core v) (tv_dpt v) path = Inr v"
proof (cases "tv_value v")
  case (VTemperature c)
  with assms have "tv_dpt v = dpt_temperature" "\<bar>c\<bar> \<le> 4000000"
    by (simp_all add: typed_value_wf_def dpt_class_iff)
  with VTemperature temperature_celsius_roundtrip [of c] show ?thesis
    by (simp add: value_to_core_def value_from_core_def)
qed (use assms in \<open>auto simp: value_to_core_def value_from_core_def typed_value_new_def typed_value_wf_def\<close>)

theorem value_message_roundtrip_witness:
  "value_to_core (value_from_core \<lparr>tv_dpt = dpt_temperature, tv_value = VTemperature 2150\<rparr>) dpt_temperature
     ''value'' = Inr \<lparr>tv_dpt = dpt_temperature, tv_value = VTemperature 2150\<rparr>"
  using value_message_roundtrip [of "\<lparr>tv_dpt = dpt_temperature, tv_value = VTemperature 2150\<rparr>" "''value''"]
  by (simp add: typed_value_wf_def dpt_class_iff is_i32_def i32_min_def i32_max_def)

text \<open>Revisions are read back from their texts.\<close>

lemma revision_text_roundtrip: "revision_from_text (revision_text r) = Some r"
  using unat_bound [of r] by (simp add: revision_from_text_def revision_text_def parse_unsigned_decimal)

end
