(* ===== verification/Abi_Document.thy ===== *)
theory Abi_Document
  imports Abi_Correctness Api_Correctness
begin

text \<open>
  \<open>logiksmith_runtime_create_from_toml\<close>: the C interface constructs a runtime from a document through
  the runtime API.
\<close>

record document_bytes_repr =
  db_bytes :: c_bytes
  db_document_revision :: u64
  db_structural_revision :: u64

text \<open>The document in the bytes that the host passes.\<close>

definition parse_document :: "document_services \<Rightarrow> c_bytes \<Rightarrow> abi_status + automation_document" where
  "parse_document ds bytes =
     with_bytes bytes max_document_bytes (\<lambda>bytes.
       if utf8_valid bytes then ok_or AbiInvalidConfiguration (parse_automation_toml ds bytes)
       else Inl AbiInvalidUtf8)"

definition create_from_toml ::
  "environment \<Rightarrow> document_services \<Rightarrow> document_bytes_repr \<Rightarrow> abi_status + runtime_handle" where
  "create_from_toml env ds d =
     (if db_document_revision d = 0 \<or> db_structural_revision d = 0
        \<or> max_document_bytes < sl_length (db_bytes d)
      then Inl AbiInvalidLength
      else
        result_bind (parse_document ds (db_bytes d)) (\<lambda>document.
        result_bind
          (map_err (\<lambda>_. AbiInvalidConfiguration) (api_from_document env ds document EmbeddedBaseline)) (\<lambda>a.
        Inr \<lparr>rh_runtime = api_runtime a, rh_document_revision = db_document_revision d,
             rh_structural_revision = db_structural_revision d\<rparr>)))"

definition logiksmith_runtime_create_from_toml ::
  "environment \<Rightarrow> document_services \<Rightarrow> document_bytes_repr option \<Rightarrow> bool
     \<Rightarrow> abi_status \<times> runtime_handle option" where
  "logiksmith_runtime_create_from_toml env ds document slot_null =
     (case document of
        None \<Rightarrow> (AbiNullPointer, None)
      | Some d \<Rightarrow>
          if slot_null then (AbiNullPointer, None) else handle_slot (create_from_toml env ds d))"

lemma api_from_document_iff:
  "api_from_document env ds document profile = Inr a \<longleftrightarrow>
    (\<exists>au. build_automation_inner env ds document (profile_limits profile)
        (profile_capabilities env ds profile) = Inr au
      \<and> a = \<lparr>api_runtime = fresh_runtime (ar_core_config au) (profile_limits profile),
          api_document = document, api_automation = au,
          api_structural_revision = ar_structural_revision au, api_document_revision = 0,
          api_block_revisions = initial_revisions (ar_document au)\<rparr>)"
  using runtime_try_new_eq [OF build_automation_ok(2)]
  by (fastforce simp: api_from_document_def api_with_limits_def result_simps)

text \<open>
  C30. The C interface accepts exactly the documents that build under the embedded profile, within
  16 KiB of UTF-8 and under two revisions that are not zero.  The new handle holds the fresh runtime of
  the document's configuration and the revisions of the host.
\<close>

theorem toml_handle_is_built_document:
  "logiksmith_runtime_create_from_toml env ds (Some d) False = (AbiOk, Some h) \<longleftrightarrow>
    db_document_revision d \<noteq> 0 \<and> db_structural_revision d \<noteq> 0
    \<and> sl_length (db_bytes d) \<le> max_document_bytes
    \<and> (\<exists>document a. parse_document ds (db_bytes d) = Inr document
        \<and> build_automation_inner env ds document embedded_baseline_limits (capabilities_embedded env) = Inr a
        \<and> h = \<lparr>rh_runtime = fresh_runtime (ar_core_config a) embedded_baseline_limits,
             rh_document_revision = db_document_revision d,
             rh_structural_revision = db_structural_revision d\<rparr>)"
proof -
  have "create_from_toml env ds d = Inr h \<longleftrightarrow>
    db_document_revision d \<noteq> 0 \<and> db_structural_revision d \<noteq> 0
    \<and> sl_length (db_bytes d) \<le> max_document_bytes
    \<and> (\<exists>document a. parse_document ds (db_bytes d) = Inr document
        \<and> build_automation_inner env ds document embedded_baseline_limits (capabilities_embedded env) = Inr a
        \<and> h = \<lparr>rh_runtime = fresh_runtime (ar_core_config a) embedded_baseline_limits,
             rh_document_revision = db_document_revision d,
             rh_structural_revision = db_structural_revision d\<rparr>)"
    by (auto simp: create_from_toml_def result_simps api_from_document_iff not_less embedded_baseline_limits_def
        simp del: profile_limits.simps)
  then show ?thesis
    by (auto simp: logiksmith_runtime_create_from_toml_def handle_slot_def split: sum.splits)
qed

lemma toml_handle_reachable:
  assumes "logiksmith_runtime_create_from_toml env ds document slot_null = (AbiOk, Some h)"
  shows "\<exists>config. abi_reachable config embedded_baseline_limits h"
proof -
  from assms obtain d where d: "document = Some d" "\<not> slot_null"
    by (auto simp: logiksmith_runtime_create_from_toml_def split: option.splits if_splits)
  with assms have created: "create_from_toml env ds d = Inr h"
    by (auto simp: logiksmith_runtime_create_from_toml_def handle_slot_def split: sum.splits)
  then obtain parsed au where
    au: "build_automation_inner env ds parsed embedded_baseline_limits (capabilities_embedded env) = Inr au"
    and h: "h = \<lparr>rh_runtime = fresh_runtime (ar_core_config au) embedded_baseline_limits,
      rh_document_revision = db_document_revision d, rh_structural_revision = db_structural_revision d\<rparr>"
    by (auto simp: create_from_toml_def result_simps api_from_document_iff embedded_baseline_limits_def split: if_splits
      simp del: profile_limits.simps)
  show ?thesis
    unfolding h using abi_start [OF runtime_try_new_eq [OF build_automation_ok(2) [OF au]]] by blast
qed

end
