(* ===== verification/Document_Example.thy ===== *)
theory Document_Example
  imports Document_Correctness Runtime_Example
begin

text \<open>
  A document whose configuration is the chained one: the lamp of the first block drives the switch of
  the second through a signal, the other two endpoints are bound to group addresses.
\<close>

definition sample_services :: document_services where
  "sample_services =
     \<lparr>ds_to_toml = (\<lambda>_. None), ds_from_toml = (\<lambda>_. None), ds_http_inputs = False,
      ds_webhook_inputs = False, ds_hash_order = (\<lambda>_ xs. xs)\<rparr>"

definition sample_document_block ::
  "rstring \<Rightarrow> knx_binding list \<Rightarrow> document_signal_binding list \<Rightarrow> document_block" where
  "sample_document_block x knx signals =
     \<lparr>ab_id = x, ab_revision = 1, ab_enabled = True,
      ab_inputs = [\<lparr>ae_name = ''switch'', ae_dpt = ''1.001''\<rparr>],
      ab_outputs = [\<lparr>ae_name = ''lamp'', ae_dpt = ''1.001''\<rparr>],
      ab_knx_bindings = knx, ab_signal_bindings = signals, ab_http_bindings = [],
      ab_webhook_bindings = [], ab_source = ''function handle() end'', ab_schedules = []\<rparr>"

definition chained_document :: automation_document where
  "chained_document =
     \<lparr>ad_signals = [\<lparr>as_name = ''p'', as_dpt = ''1.001''\<rparr>], ad_http_polls = [], ad_webhook_inputs = [],
      ad_blocks =
       [sample_document_block ''a'' [\<lparr>kb_endpoint = ''switch'', kb_group_address = ''1/2/3''\<rparr>]
          [\<lparr>dsb_endpoint = ''lamp'', dsb_signal = ''p''\<rparr>],
        sample_document_block ''b'' [\<lparr>kb_endpoint = ''lamp'', kb_group_address = ''1/2/4''\<rparr>]
          [\<lparr>dsb_endpoint = ''switch'', dsb_signal = ''p''\<rparr>]]\<rparr>"

lemma sample_document_names:
  "endpoint_name_new ''switch'' = Inr (EndpointName ''switch'')"
  "endpoint_name_new ''lamp'' = Inr (EndpointName ''lamp'')"
  "endpoint_name_new ''p'' = Inr (EndpointName ''p'')"
  "signal_name_new ''p'' = Inr (SignalName ''p'')"
  "block_id_new ''a'' = Inr (BlockId ''a'')" "block_id_new ''b'' = Inr (BlockId ''b'')"
  by code_simp+

lemmas number_text_simps = parse_unsigned_def digits_value_def is_ascii_digit_def leading_zero_def
  split_once_def zero_pad_def decimal.simps digit_char_def

lemma sample_dpt_text: "dpt_from_str ''1.001'' = Inr dpt_bool"
  by (simp add: dpt_from_str_def dpt_new_def dpt_bool_def number_text_simps)

lemma sample_address:
  "group_address_from_str ''1/2/3'' = Inr \<lparr>ga_main = 1, ga_middle = 2, ga_subgroup = 3\<rparr>"
  "group_address_from_str ''1/2/4'' = Inr \<lparr>ga_main = 1, ga_middle = 2, ga_subgroup = 4\<rparr>"
  by (simp_all add: group_address_from_str_def group_address_new_def number_text_simps word_less_nat_alt)

lemma sample_dpt_display: "dpt_display dpt_bool = ''1.001''"
proof -
  have "digit_char 1 = CHR ''1''" by (simp add: digit_char_def char_of_def bit_0)
  then show ?thesis
    by (simp add: dpt_display_def dpt_bool_def zero_pad_def decimal.simps numeral_2_eq_2)
qed

lemmas sample_texts = sample_document_names sample_dpt_text sample_dpt_display sample_address

lemma sample_document_block_fields [simp]:
  "ab_id (sample_document_block x knx signals) = x"
  "ab_revision (sample_document_block x knx signals) = 1"
  "ab_enabled (sample_document_block x knx signals)"
  "ab_inputs (sample_document_block x knx signals) = [\<lparr>ae_name = ''switch'', ae_dpt = ''1.001''\<rparr>]"
  "ab_outputs (sample_document_block x knx signals) = [\<lparr>ae_name = ''lamp'', ae_dpt = ''1.001''\<rparr>]"
  "ab_knx_bindings (sample_document_block x knx signals) = knx"
  "ab_signal_bindings (sample_document_block x knx signals) = signals"
  "ab_http_bindings (sample_document_block x knx signals) = []"
  "ab_webhook_bindings (sample_document_block x knx signals) = []"
  "ab_source (sample_document_block x knx signals) = ''function handle() end''"
  "ab_schedules (sample_document_block x knx signals) = []"
  by (simp_all add: sample_document_block_def)

lemma sample_dpt: "read_dpt path ''1.001'' = Inr dpt_bool"
  by (simp add: read_dpt_def sample_texts dpt_is_supported_def dpt_class_iff)

lemma each_indexed_single: "each_indexed f [x] s = f 0 x s"
  and each_indexed_pair: "each_indexed f [x, y] s = f 1 y (f 0 x s)"
  by (simp_all add: each_indexed_def)

lemma sample_signal_table:
  "read_signals (ad_signals chained_document) =
     \<lparr>sgt_errors = [], sgt_dpts = Map.empty(SignalName ''p'' \<mapsto> dpt_bool),
      sgt_signals = [\<lparr>sr_name = SignalName ''p'', sr_dpt = dpt_bool\<rparr>]\<rparr>"
  by (simp add: read_signals_def chained_document_def each_indexed_single signal_step_def source_name_def
      read_endpoint_name_def sample_texts sample_dpt)

lemma sample_source_table:
  "read_sources chained_document = \<lparr>src_errors = [], src_dpts = Map.empty, src_polls = [], src_webhooks = []\<rparr>"
  by (simp add: read_sources_def chained_document_def)

definition sample_table :: endpoint_table where
  "sample_table =
     \<lparr>et_errors = [], et_names = {EndpointName ''lamp'', EndpointName ''switch''},
      et_dpts = [EndpointName ''switch'' \<mapsto> dpt_bool, EndpointName ''lamp'' \<mapsto> dpt_bool],
      et_directions = [EndpointName ''switch'' \<mapsto> Input, EndpointName ''lamp'' \<mapsto> Output],
      et_endpoints = sample_endpoints\<rparr>"

lemma sample_endpoint_table: "read_endpoints bp (sample_document_block x knx signals) = sample_table"
  by (simp add: read_endpoints_def each_indexed_single endpoint_step_def sample_table_def
      read_endpoint_name_def sample_texts sample_dpt sample_endpoints_def)

lemma sample_engine_checked:
  "engine_config_validate_with_limits (env_vm sample_environment)
     \<lparr>ec_endpoints = sample_endpoints, ec_logic = logic_program_new ''function handle() end''\<rparr>
     sample_limits = Inr ()"
  using sample_engine_valid by (simp add: sample_program_def)

abbreviation "switch_address \<equiv> \<lparr>ga_main = 1, ga_middle = 2, ga_subgroup = 3\<rparr>"
abbreviation "lamp_address \<equiv> \<lparr>ga_main = 1, ga_middle = 2, ga_subgroup = 4\<rparr>"

abbreviation "document_block_a \<equiv> sample_document_block ''a''
  [\<lparr>kb_endpoint = ''switch'', kb_group_address = ''1/2/3''\<rparr>] [\<lparr>dsb_endpoint = ''lamp'', dsb_signal = ''p''\<rparr>]"
abbreviation "document_block_b \<equiv> sample_document_block ''b''
  [\<lparr>kb_endpoint = ''lamp'', kb_group_address = ''1/2/4''\<rparr>] [\<lparr>dsb_endpoint = ''switch'', dsb_signal = ''p''\<rparr>]"

definition routing_a :: routing where
  "routing_a = empty_routing
     \<lparr>rg_address_dpts := [switch_address \<mapsto> dpt_bool],
      rg_address_to_inputs := append_at switch_address
        \<lparr>bib_block_id = BlockId ''a'', bib_endpoint = EndpointName ''switch'', bib_dpt = dpt_bool,
         bib_address = switch_address\<rparr> (\<lambda>_. []),
      rg_signal_binding_count := 1, rg_signal_producers := {SignalName ''p''},
      rg_output_to_signal := [(BlockId ''a'', EndpointName ''lamp'') \<mapsto> SignalName ''p'']\<rparr>"

definition routing_ab :: routing where
  "routing_ab = routing_a
     \<lparr>rg_address_dpts := [switch_address \<mapsto> dpt_bool, lamp_address \<mapsto> dpt_bool],
      rg_output_to_address := [(BlockId ''b'', EndpointName ''lamp'') \<mapsto> lamp_address],
      rg_signal_to_inputs := append_at (SignalName ''p'')
        \<lparr>bsb_block_id = BlockId ''b'', bsb_endpoint = EndpointName ''switch'', bsb_dpt = dpt_bool,
         bsb_signal = SignalName ''p''\<rparr> (\<lambda>_. []),
      rg_signal_binding_count := 2\<rparr>"

lemma sample_bound_names:
  "bound_name sample_table ''switch'' = Some (EndpointName ''switch'', dpt_bool)"
  "bound_name sample_table ''lamp'' = Some (EndpointName ''lamp'', dpt_bool)"
  "et_directions sample_table (EndpointName ''switch'') = Some Input"
  "et_directions sample_table (EndpointName ''lamp'') = Some Output"
  by (simp_all add: bound_name_def sample_texts sample_table_def)

lemmas binding_simps = each_indexed_single knx_binding_step_def signal_binding_step_def sample_bound_names
  sample_texts add_address_binding_def add_signal_binding_def set_routing_def Let_def

lemma bindings_of_a:
  "read_bindings bp (BlockId ''a'') [SignalName ''p'' \<mapsto> dpt_bool] Map.empty sample_table document_block_a
     empty_routing
   = \<lparr>bst_errors = [], bst_routing = routing_a,
      bst_addresses = [EndpointName ''switch'' \<mapsto> switch_address],
      bst_signals = [(EndpointName ''lamp'', SignalName ''p'')], bst_externals = Map.empty\<rparr>"
proof -
  have knx: "each_indexed (knx_binding_step bp (BlockId ''a'') sample_table) (ab_knx_bindings document_block_a)
      \<lparr>bst_errors = [], bst_routing = empty_routing, bst_addresses = Map.empty, bst_signals = [],
       bst_externals = Map.empty\<rparr>
    = \<lparr>bst_errors = [], bst_routing = empty_routing
         \<lparr>rg_address_dpts := [switch_address \<mapsto> dpt_bool],
          rg_address_to_inputs := rg_address_to_inputs routing_a\<rparr>,
       bst_addresses = [EndpointName ''switch'' \<mapsto> switch_address], bst_signals = [],
       bst_externals = Map.empty\<rparr>"
    by (simp add: binding_simps routing_a_def) (simp add: empty_routing_def)
  have signal: "each_indexed (signal_binding_step bp (BlockId ''a'') [SignalName ''p'' \<mapsto> dpt_bool] sample_table)
      (ab_signal_bindings document_block_a)
      \<lparr>bst_errors = [], bst_routing = empty_routing
         \<lparr>rg_address_dpts := [switch_address \<mapsto> dpt_bool],
          rg_address_to_inputs := rg_address_to_inputs routing_a\<rparr>,
       bst_addresses = [EndpointName ''switch'' \<mapsto> switch_address], bst_signals = [],
       bst_externals = Map.empty\<rparr>
    = \<lparr>bst_errors = [], bst_routing = routing_a,
       bst_addresses = [EndpointName ''switch'' \<mapsto> switch_address],
       bst_signals = [(EndpointName ''lamp'', SignalName ''p'')], bst_externals = Map.empty\<rparr>"
    by (simp add: binding_simps routing_a_def) (simp add: empty_routing_def)
  show ?thesis
    unfolding read_bindings_def Let_def knx signal
    by (simp add: each_indexed_def unbound_errors_def sample_table_def sample_endpoints_def)
qed

lemma bindings_of_b:
  "read_bindings bp (BlockId ''b'') [SignalName ''p'' \<mapsto> dpt_bool] Map.empty sample_table document_block_b
     routing_a
   = \<lparr>bst_errors = [], bst_routing = routing_ab,
      bst_addresses = [EndpointName ''lamp'' \<mapsto> lamp_address],
      bst_signals = [(EndpointName ''switch'', SignalName ''p'')], bst_externals = Map.empty\<rparr>"
proof -
  let ?mid = "routing_a
         \<lparr>rg_address_dpts := [switch_address \<mapsto> dpt_bool, lamp_address \<mapsto> dpt_bool],
          rg_output_to_address := [(BlockId ''b'', EndpointName ''lamp'') \<mapsto> lamp_address]\<rparr>"
  have knx: "each_indexed (knx_binding_step bp (BlockId ''b'') sample_table) (ab_knx_bindings document_block_b)
      \<lparr>bst_errors = [], bst_routing = routing_a, bst_addresses = Map.empty, bst_signals = [],
       bst_externals = Map.empty\<rparr>
    = \<lparr>bst_errors = [], bst_routing = ?mid,
       bst_addresses = [EndpointName ''lamp'' \<mapsto> lamp_address], bst_signals = [],
       bst_externals = Map.empty\<rparr>"
    by (simp add: binding_simps routing_a_def) (simp add: empty_routing_def)
  have signal: "each_indexed (signal_binding_step bp (BlockId ''b'') [SignalName ''p'' \<mapsto> dpt_bool] sample_table)
      (ab_signal_bindings document_block_b)
      \<lparr>bst_errors = [], bst_routing = ?mid,
       bst_addresses = [EndpointName ''lamp'' \<mapsto> lamp_address], bst_signals = [],
       bst_externals = Map.empty\<rparr>
    = \<lparr>bst_errors = [], bst_routing = routing_ab,
       bst_addresses = [EndpointName ''lamp'' \<mapsto> lamp_address],
       bst_signals = [(EndpointName ''switch'', SignalName ''p'')], bst_externals = Map.empty\<rparr>"
    by (simp add: binding_simps routing_ab_def routing_a_def) (simp add: empty_routing_def)
  show ?thesis
    unfolding read_bindings_def Let_def knx signal
    by (simp add: each_indexed_def unbound_errors_def sample_table_def sample_endpoints_def)
qed

definition sample_block_runtime ::
  "rstring \<Rightarrow> (endpoint_name \<rightharpoonup> group_address) \<Rightarrow> (endpoint_name \<times> signal_name) list \<Rightarrow> block_runtime" where
  "sample_block_runtime x addresses signals =
     \<lparr>br_id = BlockId x, br_revision = 1, br_enabled = True,
      br_engine_config =
        \<lparr>ec_endpoints = sample_endpoints, ec_logic = logic_program_new ''function handle() end''\<rparr>,
      br_endpoint_to_address = addresses, br_endpoint_to_signal = signals,
      br_endpoint_to_external = Map.empty, br_endpoint_dpts = et_dpts sample_table, br_schedules = []\<rparr>"

lemma chained_blocks:
  "read_blocks sample_environment sample_limits chained_document
     (read_signals (ad_signals chained_document)) (read_sources chained_document)
   = \<lparr>bd_errors = [], bd_ids = {BlockId ''b'', BlockId ''a''},
      bd_blocks =
        [sample_block_runtime ''a'' [EndpointName ''switch'' \<mapsto> switch_address]
           [(EndpointName ''lamp'', SignalName ''p'')],
         sample_block_runtime ''b'' [EndpointName ''lamp'' \<mapsto> lamp_address]
           [(EndpointName ''switch'', SignalName ''p'')]],
      bd_routing = routing_ab\<rparr>"
proof -
  have blocks: "ad_blocks chained_document = [document_block_a, document_block_b]"
    by (simp add: chained_document_def)
  have small: "source_size_errors bp sample_limits ''function handle() end'' = []" for bp
    by (simp add: source_size_errors_def sample_limits_def)
  have endpoints: "et_errors sample_table = []" "et_endpoints sample_table = sample_endpoints"
    by (simp_all add: sample_table_def)
  have schedules: "read_schedules bp sample_limits document_block_a = ([], [])"
    "read_schedules bp sample_limits document_block_b = ([], [])" for bp
    by (simp_all add: read_schedules_def each_indexed_def)
  show ?thesis
    unfolding read_blocks_def blocks each_indexed_pair sample_signal_table sample_source_table
    by (simp add: block_step_def Let_def sample_texts add_block_def sample_endpoint_table bindings_of_a
        bindings_of_b schedules small endpoints sample_engine_checked sample_block_runtime_def)
qed

lemma chained_core:
  "core_config_of sample_services
     [sample_block_runtime ''a'' addresses [(EndpointName ''lamp'', SignalName ''p'')],
      sample_block_runtime ''b'' addresses' [(EndpointName ''switch'', SignalName ''p'')]]
     [\<lparr>sr_name = SignalName ''p'', sr_dpt = dpt_bool\<rparr>] = chained_config"
  by (simp add: core_config_of_def core_block_of_def chained_config_def sample_services_def
      sample_block_runtime_def sample_block_def sample_binding_def sample_program_def
      logic_program_new_def)

lemma chained_document_builds:
  "\<exists>a. build_automation_inner sample_environment sample_services chained_document sample_limits
     (capabilities_embedded sample_environment) = Inr a
   \<and> ar_core_config a = chained_config \<and> ar_document a = chained_document \<and> ar_routing a = routing_ab
   \<and> map br_id (ar_blocks a) = [BlockId ''a'', BlockId ''b'']"
proof -
  have "capability_errors (capabilities_embedded sample_environment) chained_document = []"
    by (simp add: capability_errors_def chained_document_def)
  moreover have "size_errors chained_document = []"
    by (simp add: size_errors_def api_max_blocks_def api_max_signals_def chained_document_def)
  moreover have "rg_signal_binding_count routing_ab = 2" by (simp add: routing_ab_def)
  ultimately show ?thesis using chained_config_valid
    unfolding build_automation_inner_def Let_def chained_blocks
    unfolding sample_signal_table sample_source_table
    by (simp add: chained_core api_max_signal_bindings_def) (simp add: sample_block_runtime_def)
qed

subsection \<open>The properties of the build, at this document\<close>

theorem routing_tables_exact_witness:
  "\<exists>a. build_automation_inner sample_environment sample_services chained_document sample_limits
     (capabilities_embedded sample_environment) = Inr a
   \<and> ar_routing a = routing_ab
   \<and> addresses_exact (address_bindings (ar_blocks a)) (ar_routing a)
   \<and> signals_exact (signal_bindings (ar_blocks a)) (ar_routing a)"
  using chained_document_builds routing_tables_exact by blast

theorem accepted_endpoints_bound_witness:
  "\<exists>a. build_automation_inner sample_environment sample_services chained_document sample_limits
     (capabilities_embedded sample_environment) = Inr a
   \<and> map br_id (ar_blocks a) = [BlockId ''a'', BlockId ''b'']
   \<and> (\<forall>b \<in> set (ar_blocks a). block_bound b)"
proof -
  from chained_document_builds obtain a where
    a: "build_automation_inner sample_environment sample_services chained_document sample_limits
      (capabilities_embedded sample_environment) = Inr a"
      "map br_id (ar_blocks a) = [BlockId ''a'', BlockId ''b'']"
    by (elim exE conjE)
  with accepted_endpoints_bound [OF a(1)] show ?thesis by (intro exI [of _ a] conjI) simp_all
qed

theorem built_document_runs_witness:
  "\<exists>a. build_automation_inner sample_environment sample_services chained_document sample_limits
     (capabilities_embedded sample_environment) = Inr a
   \<and> runtime_try_new_with_limits sample_environment (ar_core_config a) sample_limits
     = Inr chained_runtime"
proof -
  from chained_document_builds obtain a where
    a: "build_automation_inner sample_environment sample_services chained_document sample_limits
      (capabilities_embedded sample_environment) = Inr a" "ar_core_config a = chained_config"
    by blast
  with built_document_runs [OF a(1)] show ?thesis by (auto simp: chained_runtime_def)
qed

theorem abi_accepts_lower_half_witness:
  "\<not> as_u16 \<lparr>ga_main = 16, ga_middle = 0, ga_subgroup = 0\<rparr> \<le> max_knx_group_address"
  by (subst abi_accepts_lower_half) (simp_all add: group_address_wf_def)

end
