(* ===== verification/Api_Example.thy ===== *)
theory Api_Example
  imports Api_Correctness Document_Example
begin

text \<open>
  The API of the chained document: an activation disables the first block and spends its revision.
\<close>

lemma chained_api:
  "\<exists>a. api_with_limits sample_environment sample_services chained_document sample_limits
     (capabilities_embedded sample_environment) = Inr a
   \<and> api_runtime a = chained_runtime \<and> api_document a = chained_document \<and> api_document_revision a = 0
   \<and> ar_core_config (api_automation a) = chained_config
   \<and> api_block_revisions a = [(''a'', 1), (''b'', 1)]"
proof -
  from chained_document_builds obtain au where
    au: "build_automation_inner sample_environment sample_services chained_document sample_limits
      (capabilities_embedded sample_environment) = Inr au" "ar_core_config au = chained_config"
      "ar_document au = chained_document" by (elim exE conjE)
  have "initial_revisions chained_document = [(''a'', 1), (''b'', 1)]"
    by (simp add: initial_revisions_def chained_document_def)
  with au chained_runtime_new show ?thesis by (simp add: api_with_limits_def)
qed

definition disable_request :: "runtime_api \<Rightarrow> activation_request" where
  "disable_request a =
     \<lparr>arq_block_id = ''a'', arq_source = None, arq_enabled = Some False,
      arq_expected_document_revision = 0, arq_expected_structural_revision = api_structural_revision a,
      arq_expected_block_revision = 1, arq_new_document_revision = 0\<rparr>"

lemma disable_request_succeeds:
  assumes "api_runtime a = chained_runtime" "api_document a = chained_document"
    "api_document_revision a = 0" "api_block_revisions a = [(''a'', 1), (''b'', 1)]"
  shows "\<exists>p b. api_activate sample_environment (disable_request a) a = (Inr p, b)
    \<and> api_document_revision b = 1 \<and> api_structural_revision b = api_structural_revision a
    \<and> btm_get (api_block_revisions b) ''a'' = Some 2"
proof -
  from disable_a_activates obtain reports where
    run: "activate sample_environment [disable_a] chained_runtime = (Inr reports, disabled_run)" by (elim exE)
  have cas: "check_cas a ''a'' 0 (api_structural_revision a) 1 = Inr ()"
    using assms by (simp add: check_cas_def)
  have found: "find (\<lambda>b. ab_id b = ''a'') (ad_blocks chained_document) = Some document_block_a"
    by (simp add: chained_document_def)
  have "saturating_add_word (0 :: u64) 1 = 1" "saturating_add_word (1 :: u64) 1 = 2"
    by (simp_all add: saturating_add_word_def)
  with assms cas found run [unfolded disable_a_def] show ?thesis
    by (simp add: api_activate_def disable_request_def sample_texts record_activation_def Let_def
        activated_document_block_def btm_get_insert)
qed

lemma chained_api_disabled:
  "\<exists>a p b. api_reachable chained_config sample_limits a \<and> api_runtime a = chained_runtime
     \<and> api_activate sample_environment (disable_request a) a = (Inr p, b)
     \<and> api_document_revision a = 0 \<and> api_document_revision b = 1
     \<and> api_structural_revision b = api_structural_revision a
     \<and> btm_get (api_block_revisions b) ''a'' = Some 2"
proof -
  from chained_api obtain a where
    start: "api_with_limits sample_environment sample_services chained_document sample_limits
      (capabilities_embedded sample_environment) = Inr a" "ar_core_config (api_automation a) = chained_config"
    and a: "api_runtime a = chained_runtime" "api_document a = chained_document"
      "api_document_revision a = 0" "api_block_revisions a = [(''a'', 1), (''b'', 1)]" by (elim exE conjE)
  have "api_reachable chained_config sample_limits a" using start by (metis api_reachable.start)
  with disable_request_succeeds [OF a] a show ?thesis by (elim exE conjE) (intro exI conjI)
qed

theorem document_describes_runtime_witness:
  "\<exists>a :: runtime_api. api_runtime a = chained_runtime
     \<and> list_all2 in_step (ad_blocks (api_document a)) (configs (api_runtime a))"
proof -
  from chained_api_disabled obtain a where
    a: "api_reachable chained_config sample_limits a" "api_runtime a = chained_runtime" by (elim exE conjE)
  have "list_all2 in_step (ad_blocks (api_document a)) (configs (api_runtime a))"
    using document_describes_runtime [OF a(1)] by (elim conjE)
  with a(2) show ?thesis by (intro exI conjI)
qed


theorem spent_revision_stays_stale_witness:
  "\<exists>a p b. api_activate sample_environment (disable_request a) a = (Inr p, b)
     \<and> check_cas b ''a'' 0 (api_structural_revision a) 1
       = Inl (OpStale 1 (api_structural_revision a) (Some 2))"
proof -
  from chained_api_disabled obtain a p b where
    a: "api_reachable chained_config sample_limits a"
    and run: "api_activate sample_environment (disable_request a) a = (Inr p, b)"
    and b: "api_document_revision b = 1" "api_structural_revision b = api_structural_revision a"
      "btm_get (api_block_revisions b) ''a'' = Some 2" by (elim exE conjE)
  have "arq_expected_document_revision (disable_request a) = 0" by (simp add: disable_request_def)
  with spent_revision_stays_stale [OF a run _ rtranclp.rtrancl_refl, of "''a''" "api_structural_revision a" 1] b
  have "check_cas b ''a'' 0 (api_structural_revision a) 1
    = Inl (OpStale 1 (api_structural_revision a) (Some 2))" by simp
  with run show ?thesis by (intro exI conjI)
qed

theorem projection_reads_back_witness:
  "\<exists>a. api_runtime a = chained_runtime \<and> (\<exists>p \<in> set (rp_blocks (api_projection 0 a)).
     bp_id p = ''a'' \<and> state_map (bp_state p) = Inr [] \<and> pending_timers (bp_pending_timers p) = Inr [])"
proof -
  from chained_api_disabled obtain a where
    a: "api_reachable chained_config sample_limits a" "api_runtime a = chained_runtime" by (elim exE conjE)
  have "fresh_block sample_limits block_a \<in> set (rt_blocks (api_runtime a))"
    by (simp add: a(2) chained_runtime_eq)
  from projection_reads_back [OF a(1) this, of 0] a(2) show ?thesis
    by (intro exI [of _ a]) (simp add: fresh_block_def btm_values_def sample_block_def)
qed

theorem api_signals_stay_unknown_witness:
  "\<exists>a b :: runtime_api. api_step a b \<and> rt_signals (api_runtime b) \<noteq> []
     \<and> (\<forall>s \<in> set (rt_signals (api_runtime b)). sg_value s = None)"
proof -
  from chained_api_disabled obtain a p b where
    a: "api_reachable chained_config sample_limits a" "api_runtime a = chained_runtime"
    and run: "api_activate sample_environment (disable_request a) a = (Inr p, b)" by (elim exE conjE)
  from run have step: "api_step a b" by (rule api_step.activate)
  have "api_reachable chained_config sample_limits b" by (rule api_reachable.step [OF a(1) step])
  note unknown = api_signals_stay_unknown [OF this]
  have "rt_signals (api_runtime b) \<noteq> []"
    using api_step_signals [OF step] a(2) by (simp add: chained_runtime_eq)
  with step unknown show ?thesis by (intro exI conjI)
qed

end
