(* ===== verification/Host_Fields.thy ===== *)
theory Host_Fields
  imports Document_Build
begin

text \<open>
  \<open>logiksmith-desktop/src/configuration_fields.rs\<close> and the group addresses of \<open>automation.rs\<close>: the
  desktop host reads the same document with readers of its own.  Its document types have the fields of
  those of the runtime API and are modelled by the same records.  A reader that collects errors returns
  them before its value.
\<close>

subsection \<open>Errors\<close>

text \<open>The texts of core errors stand for themselves; three messages quote an argument.\<close>

datatype host_message =
    HostText rstring
  | HostName endpoint_name_error
  | HostDpt dpt_error
  | HostWeekdays weekday_set_error
  | UnknownKind rstring
  | UnsetVariable rstring
  | UnboundSource rstring
  | HostBlockId block_id_error
  | HostAddress group_address_error
  | HostEngine config_error
  | HostConfig runtime_config_error

record host_error =
  he_path :: rstring
  he_message :: host_message

definition host_field :: "rstring \<Rightarrow> rstring \<Rightarrow> host_error" where
  "host_field path text = \<lparr>he_path = path, he_message = HostText text\<rparr>"

definition host_field_of :: "rstring \<Rightarrow> host_message \<Rightarrow> host_error" where
  "host_field_of path m = \<lparr>he_path = path, he_message = m\<rparr>"

subsection \<open>Group addresses, names and types\<close>

definition host_group_address_from_str :: "rstring \<Rightarrow> group_address_error + group_address" where
  "host_group_address_from_str value =
     (let parts = split_on (CHR ''/'') value in
      if length parts \<noteq> 3 \<or> (\<exists>p \<in> set parts. p = [] \<or> \<not> list_all is_ascii_digit p)
      then Inl GaInvalidFormat
      else
        result_bind (ok_or GaInvalidFormat (parse_unsigned 65535 (parts ! 0))) (\<lambda>main.
        result_bind (ok_or GaInvalidFormat (parse_unsigned 65535 (parts ! 1))) (\<lambda>middle.
        result_bind (ok_or GaInvalidFormat (parse_unsigned 65535 (parts ! 2))) (\<lambda>subgroup.
        if 31 < main \<or> 7 < middle \<or> 255 < subgroup then Inl GaOutOfRange
        else if main = 0 \<and> middle = 0 \<and> subgroup = 0 then Inl BroadcastReserved
        else if \<exists>p \<in> set parts. leading_zero p then Inl NonCanonical
        else Inr \<lparr>ga_main = of_nat main, ga_middle = of_nat middle, ga_subgroup = of_nat subgroup\<rparr>))))"

definition host_endpoint_name :: "rstring \<Rightarrow> rstring \<Rightarrow> host_error + endpoint_name" where
  "host_endpoint_name path text =
     map_err (\<lambda>e. host_field_of path (HostName e)) (endpoint_name_new text)"

definition host_read_dpt :: "rstring \<Rightarrow> rstring \<Rightarrow> host_error + dpt" where
  "host_read_dpt path text =
     result_bind (map_err (\<lambda>e. host_field_of path (HostDpt e)) (dpt_from_str text)) (\<lambda>d.
       if \<not> dpt_is_supported d then Inl (host_field path ''must be 1.001, 5.001, or 9.001'')
       else if dpt_display d \<noteq> text then Inl (host_field path ''must use canonical DPT form'')
       else Inr d)"

definition host_source_name :: "rstring \<Rightarrow> rstring \<Rightarrow> host_error list \<times> rstring option" where
  "host_source_name path text =
     (case host_endpoint_name path text of
        Inl e \<Rightarrow> ([e], None)
      | Inr name \<Rightarrow>
          if endpoint_str name = text then ([], Some text)
          else ([host_field path ''must use canonical identifier form''], None))"

subsection \<open>Pointers and headers\<close>

definition max_json_pointer_bytes :: nat where "max_json_pointer_bytes = 256"

text \<open>The loop over the bytes of a token: an escape takes two of them.\<close>

fun escapes_ok :: "rstring \<Rightarrow> bool" where
  "escapes_ok [] = True"
| "escapes_ok (c # cs) =
     (if c = CHR ''~''
      then (case cs of [] \<Rightarrow> False | d # ds \<Rightarrow> (d = CHR ''0'' \<or> d = CHR ''1'') \<and> escapes_ok ds)
      else escapes_ok cs)"

definition host_validate_pointer :: "rstring \<Rightarrow> rstring \<Rightarrow> host_error list \<times> bool" where
  "host_validate_pointer path pointer =
     (if max_json_pointer_bytes < length pointer
      then ([host_field path (''must not exceed '' @ decimal max_json_pointer_bytes @ '' bytes'')], False)
      else if pointer = [] then ([], True)
      else if hd pointer \<noteq> CHR ''/''
      then ([host_field path (''must be empty or an RFC 6901 pointer beginning with '' @ quoted ''/'')], False)
      else if \<not> list_all escapes_ok (drop 1 (split_on (CHR ''/'') pointer))
      then ([host_field path
        (''must use valid RFC 6901 '' @ quoted ''~0'' @ '' and '' @ quoted ''~1'' @ '' escapes'')], False)
      else ([], True))"

definition header_name_ok :: "rstring \<Rightarrow> bool" where
  "header_name_ok name \<longleftrightarrow>
     name \<noteq> [] \<and> length name \<le> 128
     \<and> list_all (\<lambda>c. 32 < byte c \<and> byte c < 127 \<and> c \<noteq> CHR '':'') name"

text \<open>\<open>lookup\<close> is the environment of the process.\<close>

definition validate_header ::
  "(rstring \<Rightarrow> rstring option) \<Rightarrow> rstring \<Rightarrow> http_header \<Rightarrow> host_error list \<times> (rstring \<times> rstring) option"
  where
  "validate_header lookup path h =
     (if \<not> header_name_ok (hh_name h)
      then ([host_field (path @ ''.name'') ''must be a valid non-empty HTTP header name''], None)
      else if (hh_value h \<noteq> None) = (hh_value_env h \<noteq> None)
      then ([host_field path ''must set exactly one of value or value_env''], None)
      else
        let finish = (\<lambda>v. if CHR 0x0D \<in> set v \<or> CHR 0x0A \<in> set v
              then ([host_field path ''must not contain CR or LF''], None)
              else ([], Some (hh_name h, v)))
        in case (hh_value h, hh_value_env h) of
             (Some v, None) \<Rightarrow> finish v
           | (None, Some variable) \<Rightarrow>
               if variable = []
               then ([host_field (path @ ''.value_env'') ''must not be empty''], None)
               else (case lookup variable of
                  None \<Rightarrow> ([host_field_of (path @ ''.value_env'') (UnsetVariable variable)], None)
                | Some v \<Rightarrow> finish v)
           | _ \<Rightarrow> ([host_field (path @ ''.value_env'') ''must not be empty''], None))"

subsection \<open>Durations\<close>

text \<open>
  The loop of \<open>parse_duration_seconds\<close>: the last unit with its rank is \<open>None\<close> before the first one.
\<close>

fun host_duration_loop :: "rstring \<Rightarrow> int \<Rightarrow> rstring \<Rightarrow> (char \<times> nat) option \<Rightarrow> int option" where
  "host_duration_loop [] acc digits last_unit =
     (if last_unit = None \<or> digits \<noteq> [] then None else Some acc)"
| "host_duration_loop (c # cs) acc digits last_unit =
     (if is_ascii_digit c then host_duration_loop cs acc (digits @ [c]) last_unit
      else case (parse_i64_digits digits, duration_unit c) of
        (Some n, Some (seconds, rank)) \<Rightarrow>
          if map_option fst last_unit = Some c then None
          else if (case last_unit of None \<Rightarrow> False | Some (_, previous) \<Rightarrow> previous \<le> rank) then None
          else
            (case Option.bind (checked_i64 (n * seconds)) (\<lambda>product. checked_i64 (acc + product)) of
               None \<Rightarrow> None
             | Some acc \<Rightarrow> host_duration_loop cs acc [] (Some (c, rank)))
      | _ \<Rightarrow> None)"

definition parse_duration_seconds :: "rstring \<Rightarrow> bool \<Rightarrow> int option" where
  "parse_duration_seconds text sign =
     (let minus = text \<noteq> [] \<and> hd text = CHR ''-''; rest = (if minus then tl text else text)
      in if minus \<and> \<not> sign \<or> rest = [] then None
         else map_option (\<lambda>n. if minus then - n else n) (host_duration_loop rest 0 [] None))"

definition parse_duration_field :: "rstring \<Rightarrow> rstring \<Rightarrow> bool \<Rightarrow> host_error list \<times> int option" where
  "parse_duration_field path text sign =
     (case parse_duration_seconds text sign of
        Some n \<Rightarrow> ([], Some n)
      | None \<Rightarrow>
          ([host_field path
              (if sign then ''must be a signed whole-second duration such as -1h30m, 30m, or 45s''
               else ''must be a whole-second duration such as 1h30m, 60s, or 0s'')], None))"

text \<open>Durations are microseconds, as in the runtime API.\<close>

definition parse_source_duration :: "rstring \<Rightarrow> rstring \<Rightarrow> host_error list \<times> duration option" where
  "parse_source_duration path text =
     (case parse_duration_field path text False of
        (errors, None) \<Rightarrow> (errors, None)
      | (errors, Some n) \<Rightarrow> (errors, if 0 \<le> n then Some (nat n * 1000000) else None))"

definition parse_timeout_duration :: "rstring \<Rightarrow> rstring \<Rightarrow> host_error list \<times> duration option" where
  "parse_timeout_duration path text =
     (let parsed = (case strip_suffix text ''ms'' of
            Some millis \<Rightarrow>
              if millis \<noteq> [] \<and> list_all is_ascii_digit millis
              then ([], map_option (\<lambda>n. n * 1000) (parse_unsigned (2 ^ 64 - 1) millis))
              else parse_source_duration path text
          | None \<Rightarrow> parse_source_duration path text)
      in case parsed of
           (errors, None) \<Rightarrow> (errors, None)
         | (errors, Some d) \<Rightarrow>
             if 100 * 1000 \<le> d \<and> d \<le> 30 * 1000 * 1000 then (errors, Some d)
             else (errors @ [host_field path ''must be between 100ms and 30s''], None))"

subsection \<open>Schedules\<close>

definition host_parse_local_time :: "rstring \<Rightarrow> rstring \<Rightarrow> host_error list \<times> local_time option" where
  "host_parse_local_time path text =
     (let p = split_on (CHR '':'') text in
      if length p \<notin> {2, 3} \<or> \<not> list_all two_digit_part p
      then ([host_field path ''must be a canonical local time HH:MM or HH:MM:SS''], None)
      else
        case (parse_unsigned 255 (p ! 0), parse_unsigned 255 (p ! 1),
              if length p = 3 then parse_unsigned 255 (p ! 2) else Some 0) of
          (Some h, Some m, Some s) \<Rightarrow>
            if h \<le> 23 \<and> m \<le> 59 \<and> s \<le> 59
            then ([], Some \<lparr>lt_hour = of_nat h, lt_minute = of_nat m, lt_second = of_nat s\<rparr>)
            else ([host_field path
              ''must be a valid local time with hour 0..=23, minute 0..=59, second 0..=59''], None)
        | _ \<Rightarrow> ([host_field path
              ''must be a valid local time with hour 0..=23, minute 0..=59, second 0..=59''], None))"

definition host_weekday_step ::
  "rstring \<Rightarrow> host_error list \<times> weekday list \<Rightarrow> nat \<times> rstring \<Rightarrow> host_error list \<times> weekday list" where
  "host_weekday_step path acc it =
     (case weekday_token (snd it) of
        None \<Rightarrow>
          (fst acc @ [host_field (item_path path (fst it))
             ''must be one of mon, tue, wed, thu, fri, sat, or sun''], snd acc)
      | Some day \<Rightarrow>
          if day \<in> set (snd acc)
          then (fst acc @ [host_field (item_path path (fst it)) ''must not repeat a weekday''], snd acc)
          else (fst acc, snd acc @ [day]))"

definition host_parse_weekdays :: "rstring \<Rightarrow> rstring list \<Rightarrow> host_error list \<times> weekday list option" where
  "host_parse_weekdays path tokens =
     (if tokens = []
      then ([host_field path
        ''must not be empty; an empty weekday list can never produce an occurrence''], None)
      else
        case foldl (host_weekday_step path) ([], []) (List.enumerate 0 tokens) of
          (errors, days) \<Rightarrow> (errors, Some (sort days)))"

text \<open>The set of the parsed days, or of every day when there are none to parse.\<close>

definition host_weekdays :: "rstring \<Rightarrow> rstring list option \<Rightarrow> host_error list \<times> weekday_set option" where
  "host_weekdays path tokens =
     (let (errors, days) = (case tokens of
            None \<Rightarrow> ([], None)
          | Some ts \<Rightarrow> host_parse_weekdays path ts)
      in case weekday_set_new (case days of Some ds \<Rightarrow> ds | None \<Rightarrow> weekdays_all) of
           Inr s \<Rightarrow> (errors, Some s)
         | Inl e \<Rightarrow> (errors @ [host_field_of path (HostWeekdays e)], None))"

definition parse_anchor :: "rstring \<Rightarrow> rstring \<Rightarrow> host_error list \<times> solar_anchor option" where
  "parse_anchor path text =
     (case solar_anchor_token text of
        Some a \<Rightarrow> ([], Some a)
      | None \<Rightarrow> ([host_field path ''must be one of dawn, sunrise, sunset, or dusk''], None))"

definition reject_disallowed_fields ::
  "document_schedule \<Rightarrow> rstring \<Rightarrow> rstring list \<Rightarrow> host_error list" where
  "reject_disallowed_fields s path allowed =
     map (\<lambda>(name, _). host_field (path @ ''.'' @ name)
            (''is not allowed for a '' @ asc_kind s @ '' schedule''))
       (filter (\<lambda>(name, present). present \<and> name \<notin> set allowed)
         [(''at'', asc_at s \<noteq> None), (''every'', asc_every s \<noteq> None), (''offset'', asc_offset s \<noteq> None),
          (''anchor'', asc_anchor s \<noteq> None), (''weekdays'', asc_weekdays s \<noteq> None)])"

text \<open>A field that the kind of schedule requires.\<close>

definition required_field ::
  "rstring \<Rightarrow> rstring \<Rightarrow> (rstring \<Rightarrow> rstring \<Rightarrow> host_error list \<times> 'a option) \<Rightarrow> rstring option
     \<Rightarrow> host_error list \<times> 'a option" where
  "required_field path text read v =
     (case v of None \<Rightarrow> ([host_field path text], None) | Some v \<Rightarrow> read path v)"

definition host_fixed_rule ::
  "document_schedule \<Rightarrow> rstring \<Rightarrow> host_error list \<times> schedule_rule option" where
  "host_fixed_rule s path =
     (let e0 = reject_disallowed_fields s path [''at'', ''weekdays''];
          (e1, tod) = required_field (path @ ''.at'') ''is required for a fixed schedule''
            host_parse_local_time (asc_at s);
          (e2, days) = host_weekdays (path @ ''.weekdays'') (asc_weekdays s)
      in (e0 @ e1 @ e2,
          case (tod, days) of (Some tod, Some days) \<Rightarrow> Some (RuleFixed tod days) | _ \<Rightarrow> None))"

definition host_interval_rule ::
  "document_schedule \<Rightarrow> rstring \<Rightarrow> host_error list \<times> schedule_rule option" where
  "host_interval_rule s path =
     (let e0 = reject_disallowed_fields s path [''every'', ''offset''];
          (e1, every) = required_field (path @ ''.every'') ''is required for an interval schedule''
            (\<lambda>p v. parse_duration_field p v False) (asc_every s);
          (e2, offset) = (case asc_offset s of
              None \<Rightarrow> ([], Some 0)
            | Some v \<Rightarrow> parse_duration_field (path @ ''.offset'') v False);
          errors = e0 @ e1 @ e2
      in case (every, offset) of
           (Some every, Some offset) \<Rightarrow>
             if \<not> (60 \<le> every \<and> every \<le> 604800)
             then (errors @ [host_field (path @ ''.every'') ''must be between 60s and 7 days (604800s)''], None)
             else if \<not> (0 \<le> offset \<and> offset < every)
             then (errors @ [host_field (path @ ''.offset'')
               (''must be between 0s and every - 1s ('' @ decimal (nat every) @ ''s)'')], None)
             else (errors, Some (RuleInterval (of_int every) (of_int offset)))
         | _ \<Rightarrow> (errors, None))"

definition host_astronomical_rule ::
  "document_schedule \<Rightarrow> rstring \<Rightarrow> host_error list \<times> schedule_rule option" where
  "host_astronomical_rule s path =
     (let e0 = reject_disallowed_fields s path [''anchor'', ''offset'', ''weekdays''];
          (e1, anchor) = required_field (path @ ''.anchor'') ''is required for an astronomical schedule''
            parse_anchor (asc_anchor s);
          (e2, offset) = required_field (path @ ''.offset'') ''is required for an astronomical schedule''
            (\<lambda>p v. parse_duration_field p v True) (asc_offset s);
          (e3, parsed) = (case asc_weekdays s of
              None \<Rightarrow> ([], None)
            | Some ts \<Rightarrow> host_parse_weekdays (path @ ''.weekdays'') ts);
          errors = e0 @ e1 @ e2 @ e3
      in case (anchor, offset) of
           (Some anchor, Some offset) \<Rightarrow>
             if \<not> (- 86400 \<le> offset \<and> offset \<le> 86400)
             then (errors @ [host_field (path @ ''.offset'')
               ''must be between -24h (-86400s) and +24h (86400s)''], None)
             else
               (case weekday_set_new (case parsed of Some ds \<Rightarrow> ds | None \<Rightarrow> weekdays_all) of
                  Inr days \<Rightarrow> (errors, Some (RuleAstronomical anchor offset days))
                | Inl e \<Rightarrow> (errors @ [host_field_of (path @ ''.weekdays'') (HostWeekdays e)], None))
         | _ \<Rightarrow> (errors, None))"

definition host_schedule_rule ::
  "document_schedule \<Rightarrow> rstring \<Rightarrow> host_error list \<times> schedule_rule option" where
  "host_schedule_rule s path =
     (let e0 = map (\<lambda>key. host_field (path @ ''.'' @ key) ''unknown field for schedule'') (asc_extra s);
          (errors, rule) =
            (if asc_kind s = ''fixed'' then host_fixed_rule s path
             else if asc_kind s = ''interval'' then host_interval_rule s path
             else if asc_kind s = ''astronomical'' then host_astronomical_rule s path
             else ([host_field_of (path @ ''.kind'') (UnknownKind (asc_kind s))], None))
      in (e0 @ errors, rule))"

text \<open>The schedules of a block; a repeated name is an error but keeps its schedule.\<close>

definition host_schedule_step ::
  "rstring \<Rightarrow> nat \<Rightarrow> document_schedule \<Rightarrow> host_error list \<times> schedule_name set \<times> block_schedule list
     \<Rightarrow> host_error list \<times> schedule_name set \<times> block_schedule list" where
  "host_schedule_step bp i s acc =
     (let path = item_path (bp @ ''.schedules'') i; (errors, seen, result) = acc in
      case schedule_name_new (asc_name s) of
        Inl e \<Rightarrow> (errors @ [host_field_of (path @ ''.name'') (HostName e)], seen, result)
      | Inr name \<Rightarrow>
          (case host_schedule_rule s path of
             (e, rule) \<Rightarrow>
               (errors
                  @ (if name \<in> seen then [host_field (path @ ''.name'') ''must be unique within this block'']
                     else [])
                  @ e,
                insert name seen,
                result @ (case rule of None \<Rightarrow> []
                  | Some r \<Rightarrow> [\<lparr>sch_name = name, sch_enabled = asc_enabled s, sch_rule = r\<rparr>]))))"

definition host_block_schedules ::
  "document_schedule list \<Rightarrow> rstring \<Rightarrow> host_error list \<times> block_schedule list" where
  "host_block_schedules schedules bp =
     (case each_indexed (host_schedule_step bp) schedules
             (if 32 < length schedules
              then [host_field (bp @ ''.schedules'')
                (''must contain at most '' @ decimal 32 @ '' schedules'')] else [],
              {}, []) of
        (errors, _, result) \<Rightarrow> (errors, result))"

end
