(* ===== verification/Host_Build.thy ===== *)
theory Host_Build
  imports Host_Fields
begin

text \<open>
  \<open>logiksmith-desktop/src/automation_builder.rs\<close>: the desktop host's own construction of a runtime
  configuration and its routing tables from a document, or of the list of its errors.  The tables of
  the runtime API serve here too; the set of producers among them stays empty, because the host keeps
  the producers with their endpoints.  The revisions of a document are computed as in the runtime API.
\<close>

subsection \<open>Services\<close>

record parsed_url =
  url_scheme :: rstring
  url_username :: rstring
  url_password :: "rstring option"
  url_fragment :: "rstring option"

text \<open>
  The services of the runtime API's build, the parser of URLs, the environment of the process and the
  iteration order of the hash map of sources.
\<close>

record host_services =
  hs_document :: document_services
  hs_url :: "rstring \<Rightarrow> rstring + parsed_url"
  hs_variable :: "rstring \<Rightarrow> rstring option"
  hs_order :: "rstring list \<Rightarrow> rstring list"

definition max_external_values_and_bindings :: nat where "max_external_values_and_bindings = 256"
definition max_http_url_bytes :: nat where "max_http_url_bytes = 2 * 1024"
definition max_http_headers :: nat where "max_http_headers = 16"
definition host_max_logic_source_bytes :: nat where "host_max_logic_source_bytes = 64 * 1024"

definition validate_http_url :: "host_services \<Rightarrow> rstring \<Rightarrow> rstring \<Rightarrow> host_error list" where
  "validate_http_url hs path value =
     (case hs_url hs value of
        Inl e \<Rightarrow> [host_field (path @ ''.url'') (''must be a valid HTTP URL: '' @ e)]
      | Inr url \<Rightarrow>
          if url_scheme url \<notin> {''http'', ''https''}
          then [host_field (path @ ''.url'') ''must use http or https'']
          else if url_username url \<noteq> [] \<or> url_password url \<noteq> None \<or> url_fragment url \<noteq> None
          then [host_field (path @ ''.url'') ''must not include user-info or a fragment'']
          else [])"

definition feature_errors :: "document_services \<Rightarrow> automation_document \<Rightarrow> host_error list" where
  "feature_errors ds document =
     (if \<not> ds_http_inputs ds
         \<and> (ad_http_polls document \<noteq> [] \<or> list_ex (\<lambda>b. ab_http_bindings b \<noteq> []) (ad_blocks document))
      then [host_field ''http_polls''
        (''feature_disabled: HTTP inputs are unavailable in this build; enable the ''
          @ ''`http-inputs` Cargo feature'')] else [])
     @ (if \<not> ds_webhook_inputs ds
         \<and> (ad_webhook_inputs document \<noteq> []
            \<or> list_ex (\<lambda>b. ab_webhook_bindings b \<noteq> []) (ad_blocks document))
      then [host_field ''webhook_inputs''
        (''feature_disabled: webhook inputs are unavailable in this build; enable the ''
          @ ''`webhook-inputs` Cargo feature'')] else [])"

subsection \<open>Signals\<close>

record host_signal_table =
  hsg_errors :: "host_error list"
  hsg_dpts :: "signal_name \<rightharpoonup> dpt"
  hsg_signals :: "signal_runtime list"

definition host_signal_step :: "nat \<Rightarrow> document_signal \<Rightarrow> host_signal_table \<Rightarrow> host_signal_table" where
  "host_signal_step i s t =
     (let path = item_path ''signals'' i; push = (\<lambda>e t. t\<lparr>hsg_errors := hsg_errors t @ [e]\<rparr>) in
      case signal_name_new (as_name s) of
        Inl e \<Rightarrow> push (host_field_of (path @ ''.name'') (HostName e)) t
      | Inr name \<Rightarrow>
          if signal_str name \<noteq> as_name s
          then push (host_field (path @ ''.name'') ''must use canonical identifier form'') t
          else (case host_read_dpt (path @ ''.dpt'') (as_dpt s) of
             Inl e \<Rightarrow> push e t
           | Inr d \<Rightarrow>
               let t' = t\<lparr>hsg_dpts := (hsg_dpts t)(name \<mapsto> d)\<rparr> in
               if hsg_dpts t name \<noteq> None
               then push (host_field (path @ ''.name'') ''must be unique'') t'
               else t'\<lparr>hsg_signals := hsg_signals t @ [\<lparr>sr_name = name, sr_dpt = d\<rparr>]\<rparr>))"

definition host_read_signals :: "document_signal list \<Rightarrow> host_signal_table" where
  "host_read_signals signals =
     each_indexed host_signal_step signals
       \<lparr>hsg_errors =
          (if api_max_signals < length signals
           then [host_field ''signals'' (''must contain at most '' @ decimal api_max_signals @ '' signals'')]
           else []),
        hsg_dpts = Map.empty, hsg_signals = []\<rparr>"

subsection \<open>External sources\<close>

text \<open>\<open>hst_keys\<close> lists the keys of \<open>hst_dpts\<close>.\<close>

record host_source_table =
  hst_errors :: "host_error list"
  hst_dpts :: "rstring \<rightharpoonup> dpt"
  hst_keys :: "rstring list"
  hst_names :: "rstring set"
  hst_count :: nat
  hst_polls :: "http_poll_runtime list"
  hst_webhooks :: "webhook_input_runtime list"

definition push_source :: "host_error list \<Rightarrow> host_source_table \<Rightarrow> host_source_table" where
  "push_source es t = t\<lparr>hst_errors := hst_errors t @ es\<rparr>"

definition count_source :: "host_source_table \<Rightarrow> host_source_table" where
  "count_source t = t\<lparr>hst_count := hst_count t + 1\<rparr>"

text \<open>\<open>source_dpts.insert\<close>, with the error of a name that was there.\<close>

definition host_insert_source ::
  "rstring \<Rightarrow> rstring \<Rightarrow> dpt \<Rightarrow> host_source_table \<Rightarrow> host_source_table" where
  "host_insert_source path name d t =
     (let t' = t\<lparr>hst_dpts := (hst_dpts t)(name \<mapsto> d), hst_keys := List.insert name (hst_keys t)\<rparr> in
      case hst_dpts t name of
        Some previous \<Rightarrow>
          push_source [host_field (path @ ''.name'')
            (''must be unique; conflicts with DPT '' @ dpt_display previous)] t'
      | None \<Rightarrow> t')"

definition ascii_lower :: "char \<Rightarrow> char" where
  "ascii_lower c = (if 65 \<le> byte c \<and> byte c \<le> 90 then char_of (byte c + 32) else c)"

definition host_header_step ::
  "host_services \<Rightarrow> rstring \<Rightarrow> nat \<Rightarrow> http_header
     \<Rightarrow> host_error list \<times> rstring set \<times> (rstring \<times> rstring) list
     \<Rightarrow> host_error list \<times> rstring set \<times> (rstring \<times> rstring) list" where
  "host_header_step hs path i h acc =
     (let p = item_path (path @ ''.headers'') i;
          (errors, names, headers) = acc;
          key = map ascii_lower (hh_name h);
          (e, v) = validate_header (hs_variable hs) p h
      in (errors
            @ (if key \<in> names then [host_field (p @ ''.name'') ''must be unique within a poll''] else [])
            @ e,
          insert key names,
          headers @ (case v of None \<Rightarrow> [] | Some v \<Rightarrow> [v])))"

definition host_poll_value_step ::
  "rstring \<Rightarrow> nat \<Rightarrow> http_poll_value
     \<Rightarrow> host_source_table \<times> rstring set \<times> http_poll_value_runtime list
     \<Rightarrow> host_source_table \<times> rstring set \<times> http_poll_value_runtime list" where
  "host_poll_value_step path i v acc =
     (let p = item_path (path @ ''.values'') i;
          (t, names, values) = acc;
          t = count_source t
      in case host_source_name (p @ ''.name'') (hv_name v) of
           (e, None) \<Rightarrow> (push_source e t, names, values)
         | (_, Some name) \<Rightarrow>
             if name \<in> names
             then (push_source [host_field (p @ ''.name'') ''must be unique within a poll''] t, names, values)
             else (case host_read_dpt (p @ ''.dpt'') (hv_dpt v) of
                Inl e \<Rightarrow> (push_source [e] t, insert name names, values)
              | Inr d \<Rightarrow>
                  let t = push_source
                        (fst (host_validate_pointer (p @ ''.json_pointer'') (hv_json_pointer v))) t
                  in (host_insert_source p name d t, insert name names,
                      if hst_dpts t name \<noteq> None then values
                      else values @ [\<lparr>hvr_name = name, hvr_dpt = d,
                                      hvr_json_pointer = hv_json_pointer v\<rparr>])))"

text \<open>Durations are in microseconds.\<close>

definition host_poll_durations ::
  "rstring \<Rightarrow> http_poll \<Rightarrow> host_error list \<times> duration option \<times> duration option \<times> duration option" where
  "host_poll_durations path poll =
     (let (e1, every) = parse_source_duration (path @ ''.every'') (hp_every poll);
          e2 = (case every of
                  Some every \<Rightarrow>
                    if 1 * 1000000 \<le> every \<and> every \<le> 24 * 60 * 60 * 1000000 then []
                    else [host_field (path @ ''.every'') ''must be between 1s and 24h'']
                | None \<Rightarrow> []);
          (e3, timeout) = parse_timeout_duration (path @ ''.timeout'') (hp_timeout poll);
          e4 = (case (timeout, every) of
                  (Some timeout, Some every) \<Rightarrow>
                    if every < timeout then [host_field (path @ ''.timeout'') ''must not exceed every''] else []
                | _ \<Rightarrow> []);
          (e5, stale_after) = parse_source_duration (path @ ''.stale_after'') (hp_stale_after poll);
          e6 = (case (stale_after, every) of
                  (Some stale_after, Some every) \<Rightarrow>
                    if stale_after < every \<or> 7 * 24 * 60 * 60 * 1000000 < stale_after
                    then [host_field (path @ ''.stale_after'')
                      ''must be at least every and no more than 7d'']
                    else []
                | _ \<Rightarrow> [])
      in (e1 @ e2 @ e3 @ e4 @ e5 @ e6, every, timeout, stale_after))"

definition host_poll_step ::
  "host_services \<Rightarrow> nat \<Rightarrow> http_poll \<Rightarrow> host_source_table \<Rightarrow> host_source_table" where
  "host_poll_step hs i poll t =
     (let path = item_path ''http_polls'' i in
      case host_source_name (path @ ''.name'') (hp_name poll) of
        (e, None) \<Rightarrow> push_source e t
      | (_, Some name) \<Rightarrow>
          let t = (if name \<in> hst_names t
                   then push_source [host_field (path @ ''.name'') ''must be unique''] t else t);
              t = t\<lparr>hst_names := insert name (hst_names t)\<rparr>;
              t = (if max_http_url_bytes < length (hp_url poll)
                   then push_source [host_field (path @ ''.url'')
                     (''must not exceed '' @ decimal max_http_url_bytes @ '' bytes'')] t else t);
              t = (if ds_http_inputs (hs_document hs)
                   then push_source (validate_http_url hs path (hp_url poll)) t else t);
              (e, every, timeout, stale_after) = host_poll_durations path poll;
              t = push_source e t;
              (header_errors, _, headers) =
                each_indexed (host_header_step hs path) (hp_headers poll)
                  (if max_http_headers < length (hp_headers poll)
                   then [host_field (path @ ''.headers'')
                     (''must contain at most '' @ decimal max_http_headers @ '' headers'')] else [],
                   {}, []);
              t = push_source header_errors t;
              t = (if hp_values poll = []
                   then push_source [host_field (path @ ''.values'')
                     ''must contain at least one extracted value''] t else t);
              (t, _, values) = each_indexed (host_poll_value_step path) (hp_values poll) (t, {}, [])
          in case (every, timeout, stale_after) of
               (Some every, Some timeout, Some stale_after) \<Rightarrow>
                 t\<lparr>hst_polls := hst_polls t
                   @ [\<lparr>hpr_name = name, hpr_url = hp_url poll, hpr_every = every, hpr_timeout = timeout,
                       hpr_stale_after = stale_after, hpr_headers = headers, hpr_values = values\<rparr>]\<rparr>
             | _ \<Rightarrow> t)"

definition host_bearer_token ::
  "host_services \<Rightarrow> rstring \<Rightarrow> rstring option \<Rightarrow> host_error list \<times> rstring option" where
  "host_bearer_token hs path variable =
     (case variable of
        None \<Rightarrow> ([], None)
      | Some variable \<Rightarrow>
          if variable = [] then ([host_field (path @ ''.bearer_token_env'') ''must not be empty''], None)
          else (case hs_variable hs variable of
             None \<Rightarrow> ([host_field_of (path @ ''.bearer_token_env'') (UnsetVariable variable)], None)
           | Some v \<Rightarrow>
               if v \<noteq> [] \<and> CHR 0x0D \<notin> set v \<and> CHR 0x0A \<notin> set v then ([], Some v)
               else ([host_field (path @ ''.bearer_token_env'')
                 ''environment variable must contain a non-empty token without CR/LF''], None)))"

definition host_webhook_step ::
  "host_services \<Rightarrow> nat \<Rightarrow> webhook_input \<Rightarrow> host_source_table \<Rightarrow> host_source_table" where
  "host_webhook_step hs i w t =
     (let path = item_path ''webhook_inputs'' i in
      case host_source_name (path @ ''.name'') (wi_name w) of
        (e, None) \<Rightarrow> push_source e t
      | (_, Some name) \<Rightarrow>
          (case host_read_dpt (path @ ''.dpt'') (wi_dpt w) of
             Inl e \<Rightarrow> push_source [e] t
           | Inr d \<Rightarrow>
               let t = push_source
                     (fst (host_validate_pointer (path @ ''.json_pointer'') (wi_json_pointer w))) t;
                   (e, token) = host_bearer_token hs path (wi_bearer_token_env w);
                   t = count_source (push_source e t);
                   t' = host_insert_source path name d t
               in if hst_dpts t name \<noteq> None then t'
                  else t'\<lparr>hst_webhooks := hst_webhooks t'
                    @ [\<lparr>wir_name = name, wir_dpt = d, wir_json_pointer = wi_json_pointer w,
                        wir_bearer_token = token\<rparr>]\<rparr>))"

definition host_read_sources :: "host_services \<Rightarrow> automation_document \<Rightarrow> host_source_table" where
  "host_read_sources hs document =
     each_indexed (host_webhook_step hs) (ad_webhook_inputs document)
       (each_indexed (host_poll_step hs) (ad_http_polls document)
         \<lparr>hst_errors =
            (if max_external_sources < length (ad_http_polls document) + length (ad_webhook_inputs document)
             then [host_field ''http_polls''
               (''http_polls plus webhook_inputs must contain at most '' @ decimal max_external_sources
                 @ '' sources'')]
             else []),
          hst_dpts = Map.empty, hst_keys = [], hst_names = {}, hst_count = 0, hst_polls = [],
          hst_webhooks = []\<rparr>)"

subsection \<open>Endpoints of a block\<close>

record host_endpoint_table =
  het_errors :: "host_error list"
  het_names :: "endpoint_name set"
  het_dpts :: "endpoint_name \<rightharpoonup> dpt"
  het_directions :: "endpoint_name \<rightharpoonup> endpoint_direction"
  het_endpoints :: "endpoint list"

definition host_endpoint_step ::
  "rstring \<Rightarrow> endpoint_direction \<Rightarrow> nat \<Rightarrow> document_endpoint \<Rightarrow> host_endpoint_table
     \<Rightarrow> host_endpoint_table" where
  "host_endpoint_step list_path direction i e t =
     (let path = item_path list_path i; push = (\<lambda>e t. t\<lparr>het_errors := het_errors t @ [e]\<rparr>) in
      case host_endpoint_name (path @ ''.name'') (ae_name e) of
        Inl e \<Rightarrow> push e t
      | Inr name \<Rightarrow>
          if name \<in> het_names t
          then push (host_field (path @ ''.name'') ''must be unique within this block'') t
          else
            let t = t\<lparr>het_names := insert name (het_names t)\<rparr> in
            (case host_read_dpt (path @ ''.dpt'') (ae_dpt e) of
               Inl e \<Rightarrow> push e t
             | Inr d \<Rightarrow>
                 t\<lparr>het_dpts := (het_dpts t)(name \<mapsto> d),
                   het_directions := (het_directions t)(name \<mapsto> direction),
                   het_endpoints := het_endpoints t
                     @ [\<lparr>ep_name = name, ep_direction = direction, ep_dpt = d\<rparr>]\<rparr>))"

definition host_read_endpoints :: "rstring \<Rightarrow> document_block \<Rightarrow> host_endpoint_table" where
  "host_read_endpoints bp b =
     each_indexed (host_endpoint_step (bp @ ''.outputs'') Output) (ab_outputs b)
       (each_indexed (host_endpoint_step (bp @ ''.inputs'') Input) (ab_inputs b)
         \<lparr>het_errors = [], het_names = {}, het_dpts = Map.empty, het_directions = Map.empty,
          het_endpoints = []\<rparr>)"

definition host_source_errors :: "rstring \<Rightarrow> rstring \<Rightarrow> host_error list" where
  "host_source_errors bp source =
     (if source = [] then [host_field (bp @ ''.source'') ''must not be empty'']
      else if host_max_logic_source_bytes < length source
      then [host_field (bp @ ''.source'') ''must not exceed 65536 bytes'']
      else [])"

subsection \<open>Bindings of a block\<close>

text \<open>
  The tables of all blocks, and those of one block: its addresses, the set of them, its signals and its
  external sources.
\<close>

record host_tables =
  ht_routing :: routing
  ht_origins :: "group_address \<rightharpoonup> block_id \<times> endpoint_name"
  ht_producers :: "signal_name \<rightharpoonup> block_id \<times> endpoint_name"
  ht_external_count :: nat

record host_binding_state =
  hb_errors :: "host_error list"
  hb_tables :: host_tables
  hb_addresses :: "endpoint_name \<rightharpoonup> group_address"
  hb_local :: "group_address set"
  hb_signals :: "endpoint_name \<rightharpoonup> signal_name"
  hb_externals :: "endpoint_name \<rightharpoonup> rstring"

definition push_binding :: "host_error \<Rightarrow> host_binding_state \<Rightarrow> host_binding_state" where
  "push_binding e s = s\<lparr>hb_errors := hb_errors s @ [e]\<rparr>"

definition set_tables :: "host_tables \<Rightarrow> host_binding_state \<Rightarrow> host_binding_state" where
  "set_tables ts s = s\<lparr>hb_tables := ts\<rparr>"

definition origin_text :: "block_id \<times> endpoint_name \<Rightarrow> rstring" where
  "origin_text origin = block_str (fst origin) @ ''.'' @ endpoint_str (snd origin)"

definition host_add_address ::
  "block_id \<Rightarrow> host_endpoint_table \<Rightarrow> endpoint_name \<Rightarrow> dpt \<Rightarrow> group_address \<Rightarrow> host_binding_state
     \<Rightarrow> host_binding_state" where
  "host_add_address x t name d address s =
     (let ts = hb_tables s;
          rg = (ht_routing ts)\<lparr>rg_address_dpts := (rg_address_dpts (ht_routing ts))(address \<mapsto> d)\<rparr>;
          rg = (if het_directions t name = Some Input
                then rg\<lparr>rg_address_to_inputs := append_at address
                  \<lparr>bib_block_id = x, bib_endpoint = name, bib_dpt = d, bib_address = address\<rparr>
                  (rg_address_to_inputs rg)\<rparr>
                else rg\<lparr>rg_output_to_address := (rg_output_to_address rg)((x, name) \<mapsto> address)\<rparr>)
      in s\<lparr>hb_tables := ts\<lparr>ht_routing := rg, ht_origins := (ht_origins ts)(address \<mapsto> (x, name))\<rparr>,
           hb_addresses := (hb_addresses s)(name \<mapsto> address),
           hb_local := insert address (hb_local s)\<rparr>)"

definition host_knx_step ::
  "rstring \<Rightarrow> block_id \<Rightarrow> host_endpoint_table \<Rightarrow> nat \<Rightarrow> knx_binding \<Rightarrow> host_binding_state
     \<Rightarrow> host_binding_state" where
  "host_knx_step bp x t i b s =
     (let path = item_path (bp @ ''.knx_bindings'') i; ts = hb_tables s in
      case host_endpoint_name (path @ ''.endpoint'') (kb_endpoint b) of
        Inl e \<Rightarrow> push_binding e s
      | Inr name \<Rightarrow>
          (case het_dpts t name of
             None \<Rightarrow> push_binding (host_field (path @ ''.endpoint'')
               ''must reference an existing endpoint in this block'') s
           | Some d \<Rightarrow>
               (case host_group_address_from_str (kb_group_address b) of
                  Inl e \<Rightarrow> push_binding (host_field_of (path @ ''.group_address'') (HostAddress e)) s
                | Inr address \<Rightarrow>
                    if group_address_display address \<noteq> kb_group_address b
                    then push_binding (host_field (path @ ''.group_address'')
                      ''must use canonical main/middle/subgroup form'') s
                    else if hb_addresses s name \<noteq> None
                    then push_binding (host_field (path @ ''.endpoint'')
                      ''must have exactly one KNX binding'') s
                    else if address \<in> hb_local s
                    then push_binding (host_field (path @ ''.group_address'')
                      ''may bind only one endpoint within a block'') s
                    else if case rg_address_dpts (ht_routing ts) address of
                              None \<Rightarrow> False | Some prev \<Rightarrow> prev \<noteq> d
                    then push_binding (host_field (path @ ''.group_address'')
                      (''DPT conflicts with ''
                        @ (case ht_origins ts address of Some origin \<Rightarrow> origin_text origin
                           | None \<Rightarrow> ''another block.unknown'')
                        @ '' at '' @ group_address_display address))
                      (s\<lparr>hb_local := insert address (hb_local s)\<rparr>)
                    else host_add_address x t name d address s)))"

definition host_add_signal ::
  "rstring \<Rightarrow> block_id \<Rightarrow> host_endpoint_table \<Rightarrow> endpoint_name \<Rightarrow> dpt \<Rightarrow> signal_name
     \<Rightarrow> host_binding_state \<Rightarrow> host_binding_state" where
  "host_add_signal path x t name d signal s =
     (let s = s\<lparr>hb_signals := (hb_signals s)(name \<mapsto> signal)\<rparr>; ts = hb_tables s; rg = ht_routing ts in
      case het_directions t name of
        Some Input \<Rightarrow>
          set_tables (ts\<lparr>ht_routing := rg\<lparr>rg_signal_to_inputs := append_at signal
            \<lparr>bsb_block_id = x, bsb_endpoint = name, bsb_dpt = d, bsb_signal = signal\<rparr>
            (rg_signal_to_inputs rg)\<rparr>\<rparr>) s
      | Some Output \<Rightarrow>
          let s' = set_tables (ts\<lparr>ht_producers := (ht_producers ts)(signal \<mapsto> (x, name)),
                ht_routing := rg\<lparr>rg_output_to_signal := (rg_output_to_signal rg)((x, name) \<mapsto> signal)\<rparr>\<rparr>) s
          in (case ht_producers ts signal of
                None \<Rightarrow> s'
              | Some previous \<Rightarrow> push_binding (host_field (path @ ''.signal'')
                  (''must have at most one producer; already produced by '' @ origin_text previous)) s')
      | None \<Rightarrow> s)"

definition host_signal_binding_step ::
  "rstring \<Rightarrow> block_id \<Rightarrow> (signal_name \<rightharpoonup> dpt) \<Rightarrow> host_endpoint_table \<Rightarrow> nat \<Rightarrow> document_signal_binding
     \<Rightarrow> host_binding_state \<Rightarrow> host_binding_state" where
  "host_signal_binding_step bp x signal_dpts t i b s =
     (let path = item_path (bp @ ''.signal_bindings'') i; ts = hb_tables s; rg = ht_routing ts;
          s = set_tables (ts\<lparr>ht_routing :=
                rg\<lparr>rg_signal_binding_count := rg_signal_binding_count rg + 1\<rparr>\<rparr>) s in
      case host_endpoint_name (path @ ''.endpoint'') (dsb_endpoint b) of
        Inl e \<Rightarrow> push_binding e s
      | Inr name \<Rightarrow>
          (case het_dpts t name of
             None \<Rightarrow> push_binding (host_field (path @ ''.endpoint'')
               ''must reference an existing endpoint in this block'') s
           | Some d \<Rightarrow>
               (case signal_name_new (dsb_signal b) of
                  Inl _ \<Rightarrow> push_binding (host_field (path @ ''.signal'')
                    ''must reference an existing signal'') s
                | Inr signal \<Rightarrow>
                    (case signal_dpts signal of
                       None \<Rightarrow> push_binding (host_field (path @ ''.signal'')
                         ''must reference an existing signal'') s
                     | Some sd \<Rightarrow>
                         if d \<noteq> sd
                         then push_binding (host_field (path @ ''.signal'')
                           (''DPT conflicts with endpoint '' @ endpoint_str name)) s
                         else if hb_addresses s name \<noteq> None \<or> hb_signals s name \<noteq> None
                         then push_binding (host_field (path @ ''.endpoint'')
                           ''must have exactly one binding across KNX and signals'') s
                         else host_add_signal path x t name d signal s))))"

text \<open>
  The loops over HTTP and webhook bindings differ in their paths, two messages, a table and the sources
  they know.
\<close>

definition host_external_step ::
  "(block_external_input_binding \<Rightarrow> routing \<Rightarrow> routing) \<Rightarrow> (rstring \<Rightarrow> bool) \<Rightarrow> rstring \<Rightarrow> rstring
     \<Rightarrow> rstring \<Rightarrow> block_id \<Rightarrow> (rstring \<rightharpoonup> dpt) \<Rightarrow> host_endpoint_table \<Rightarrow> nat \<Rightarrow> external_binding
     \<Rightarrow> host_binding_state \<Rightarrow> host_binding_state" where
  "host_external_step add known missing other list_path x source_dpts t i b s =
     (let path = item_path list_path i; ts = hb_tables s;
          s = set_tables (ts\<lparr>ht_external_count := ht_external_count ts + 1\<rparr>) s in
      case host_endpoint_name (path @ ''.endpoint'') (xb_endpoint b) of
        Inl e \<Rightarrow> push_binding e s
      | Inr name \<Rightarrow>
          (case het_dpts t name of
             None \<Rightarrow> push_binding (host_field (path @ ''.endpoint'')
               ''must reference an existing endpoint in this block'') s
           | Some d \<Rightarrow>
               if het_directions t name \<noteq> Some Input
               then push_binding (host_field (path @ ''.endpoint'') ''must reference an input endpoint'') s
               else (case source_dpts (xb_source b) of
                  None \<Rightarrow> push_binding (host_field (path @ ''.source'') missing) s
                | Some sd \<Rightarrow>
                    if sd \<noteq> d
                    then push_binding (host_field (path @ ''.source'')
                      (''DPT '' @ dpt_display sd @ '' conflicts with endpoint '' @ endpoint_str name
                        @ '' DPT '' @ dpt_display d)) s
                    else if \<not> known (xb_source b)
                    then push_binding (host_field (path @ ''.source'') other) s
                    else if hb_addresses s name \<noteq> None \<or> hb_signals s name \<noteq> None
                            \<or> hb_externals s name \<noteq> None
                    then push_binding (host_field (path @ ''.endpoint'')
                      ''must have exactly one binding across KNX, signals, HTTP, and webhooks'') s
                    else
                      let ts = hb_tables s in
                      s\<lparr>hb_externals := (hb_externals s)(name \<mapsto> xb_source b),
                        hb_tables := ts\<lparr>ht_routing := add
                          \<lparr>bxb_block_id = x, bxb_endpoint = name, bxb_dpt = d, bxb_source = xb_source b\<rparr>
                          (ht_routing ts)\<rparr>\<rparr>)))"

definition host_http_step ::
  "host_source_table \<Rightarrow> rstring \<Rightarrow> block_id \<Rightarrow> host_endpoint_table \<Rightarrow> nat \<Rightarrow> external_binding
     \<Rightarrow> host_binding_state \<Rightarrow> host_binding_state" where
  "host_http_step sources bp x =
     host_external_step
       (\<lambda>b rg. rg\<lparr>rg_http_to_inputs := append_at (bxb_source b) b (rg_http_to_inputs rg)\<rparr>)
       (\<lambda>source. list_ex (\<lambda>p. list_ex (\<lambda>v. hvr_name v = source) (hpr_values p)) (hst_polls sources))
       ''must reference an HTTP poll value'' ''must reference an HTTP poll value, not a webhook''
       (bp @ ''.http_bindings'') x (hst_dpts sources)"

definition host_webhook_binding_step ::
  "host_source_table \<Rightarrow> rstring \<Rightarrow> block_id \<Rightarrow> host_endpoint_table \<Rightarrow> nat \<Rightarrow> external_binding
     \<Rightarrow> host_binding_state \<Rightarrow> host_binding_state" where
  "host_webhook_binding_step sources bp x =
     host_external_step
       (\<lambda>b rg. rg\<lparr>rg_webhook_to_inputs := append_at (bxb_source b) b (rg_webhook_to_inputs rg)\<rparr>)
       (\<lambda>source. list_ex (\<lambda>w. wir_name w = source) (hst_webhooks sources))
       ''must reference a webhook input'' ''must reference a webhook input, not an HTTP poll value''
       (bp @ ''.webhook_bindings'') x (hst_dpts sources)"

definition host_unbound_errors ::
  "rstring \<Rightarrow> document_block \<Rightarrow> endpoint list \<Rightarrow> host_binding_state \<Rightarrow> host_error list" where
  "host_unbound_errors bp b endpoints s =
     map (\<lambda>e.
         let (name, items) = (case ep_direction e of
               Input \<Rightarrow> (''inputs'', ab_inputs b) | Output \<Rightarrow> (''outputs'', ab_outputs b))
         in host_field
              (case position (\<lambda>item. ae_name item = endpoint_str (ep_name e)) items of
                 None \<Rightarrow> bp @ ''.'' @ name
               | Some i \<Rightarrow> item_path (bp @ ''.'' @ name) i @ ''.name'')
              (''endpoint '' @ endpoint_str (ep_name e)
                @ '' must have exactly one binding across KNX, signals, HTTP, and webhooks''))
       (filter (\<lambda>e. hb_addresses s (ep_name e) = None \<and> hb_signals s (ep_name e) = None
          \<and> hb_externals s (ep_name e) = None) endpoints)"

definition host_read_bindings ::
  "rstring \<Rightarrow> block_id \<Rightarrow> (signal_name \<rightharpoonup> dpt) \<Rightarrow> host_source_table \<Rightarrow> host_endpoint_table
     \<Rightarrow> document_block \<Rightarrow> host_tables \<Rightarrow> host_binding_state" where
  "host_read_bindings bp x signal_dpts sources t b ts =
     (let s = \<lparr>hb_errors = [], hb_tables = ts, hb_addresses = Map.empty, hb_local = {},
               hb_signals = Map.empty, hb_externals = Map.empty\<rparr>;
          s = each_indexed (host_knx_step bp x t) (ab_knx_bindings b) s;
          s = each_indexed (host_signal_binding_step bp x signal_dpts t) (ab_signal_bindings b) s;
          s = each_indexed (host_http_step sources bp x t) (ab_http_bindings b) s;
          s = each_indexed (host_webhook_binding_step sources bp x t) (ab_webhook_bindings b) s
      in s\<lparr>hb_errors := hb_errors s @ host_unbound_errors bp b (het_endpoints t) s\<rparr>)"

subsection \<open>Blocks\<close>

record host_block_runtime =
  hbr_id :: block_id
  hbr_revision :: u64
  hbr_enabled :: bool
  hbr_engine_config :: engine_config
  hbr_endpoint_to_address :: "endpoint_name \<rightharpoonup> group_address"
  hbr_endpoint_to_signal :: "endpoint_name \<rightharpoonup> signal_name"
  hbr_endpoint_to_external :: "endpoint_name \<rightharpoonup> rstring"
  hbr_endpoint_dpts :: "endpoint_name \<rightharpoonup> dpt"
  hbr_schedules :: "block_schedule list"

record host_build_state =
  hbd_errors :: "host_error list"
  hbd_ids :: "block_id set"
  hbd_blocks :: "host_block_runtime list"
  hbd_tables :: host_tables

text \<open>The engine's configuration is validated with the limits of the desktop profile.\<close>

definition host_add_block ::
  "environment \<Rightarrow> (signal_name \<rightharpoonup> dpt) \<Rightarrow> host_source_table \<Rightarrow> rstring \<Rightarrow> block_id \<Rightarrow> document_block
     \<Rightarrow> host_build_state \<Rightarrow> host_build_state" where
  "host_add_block env signal_dpts sources bp x b st =
     (let t = host_read_endpoints bp b;
          s = host_read_bindings bp x signal_dpts sources t b (hbd_tables st);
          (schedule_errors, schedules) = host_block_schedules (ab_schedules b) bp;
          engine_config = \<lparr>ec_endpoints = het_endpoints t, ec_logic = logic_program_new (ab_source b)\<rparr>
      in st\<lparr>hbd_errors := hbd_errors st @ het_errors t @ host_source_errors bp (ab_source b)
              @ hb_errors s @ schedule_errors
              @ (case engine_config_validate_with_limits (env_vm env) engine_config desktop_limits of
                   Inl e \<Rightarrow> [host_field_of (bp @ ''.source'') (HostEngine e)]
                 | Inr _ \<Rightarrow> []),
            hbd_blocks := hbd_blocks st
              @ [\<lparr>hbr_id = x, hbr_revision = max (ab_revision b) 1, hbr_enabled = ab_enabled b,
                  hbr_engine_config = engine_config, hbr_endpoint_to_address = hb_addresses s,
                  hbr_endpoint_to_signal = hb_signals s, hbr_endpoint_to_external = hb_externals s,
                  hbr_endpoint_dpts = het_dpts t, hbr_schedules = schedules\<rparr>],
            hbd_tables := hb_tables s\<rparr>)"

definition host_block_step ::
  "environment \<Rightarrow> (signal_name \<rightharpoonup> dpt) \<Rightarrow> host_source_table \<Rightarrow> nat \<Rightarrow> document_block
     \<Rightarrow> host_build_state \<Rightarrow> host_build_state" where
  "host_block_step env signal_dpts sources i b st =
     (let bp = item_path ''blocks'' i in
      case block_id_new (ab_id b) of
        Inl e \<Rightarrow>
          st\<lparr>hbd_errors := hbd_errors st @ [host_field_of (bp @ ''.id'') (HostBlockId e)]\<rparr>
      | Inr x \<Rightarrow>
          if x \<in> hbd_ids st
          then st\<lparr>hbd_errors := hbd_errors st @ [host_field (bp @ ''.id'') ''must be unique'']\<rparr>
          else host_add_block env signal_dpts sources bp x b (st\<lparr>hbd_ids := insert x (hbd_ids st)\<rparr>))"

definition block_count_errors :: "automation_document \<Rightarrow> host_error list" where
  "block_count_errors document =
     (if ad_blocks document = [] then [host_field ''blocks'' ''must contain at least one block'']
      else if api_max_blocks < length (ad_blocks document)
      then [host_field ''blocks'' (''must contain at most '' @ decimal api_max_blocks @ '' blocks'')]
      else [])"

definition host_read_blocks ::
  "environment \<Rightarrow> automation_document \<Rightarrow> host_signal_table \<Rightarrow> host_source_table \<Rightarrow> host_build_state" where
  "host_read_blocks env document signals sources =
     each_indexed (host_block_step env (hsg_dpts signals) sources) (ad_blocks document)
       \<lparr>hbd_errors = [], hbd_ids = {}, hbd_blocks = [],
        hbd_tables = \<lparr>ht_routing = empty_routing, ht_origins = Map.empty, ht_producers = Map.empty,
                      ht_external_count = 0\<rparr>\<rparr>"

subsection \<open>The configuration for the core\<close>

text \<open>
  The signal bindings of a block in the order of the document; \<open>None\<close> is a failed \<open>expect\<close>.
\<close>

definition host_signal_binding ::
  "host_block_runtime \<Rightarrow> document_signal_binding \<Rightarrow> signal_binding option" where
  "host_signal_binding b binding =
     (case find (\<lambda>e. endpoint_str (ep_name e) = dsb_endpoint binding)
             (ec_endpoints (hbr_engine_config b)) of
        None \<Rightarrow> None
      | Some e \<Rightarrow>
          map_option (\<lambda>signal. \<lparr>sb_endpoint = ep_name e, sb_signal = signal\<rparr>)
            (hbr_endpoint_to_signal b (ep_name e)))"

definition host_core_block ::
  "automation_document \<Rightarrow> host_block_runtime \<Rightarrow> block_config option" where
  "host_core_block document b =
     map_option
       (\<lambda>bindings.
          \<lparr>bc_id = hbr_id b, bc_enabled = hbr_enabled b,
           bc_endpoints = ec_endpoints (hbr_engine_config b),
           bc_logic = logic_program_new (lp_source (ec_logic (hbr_engine_config b))),
           bc_schedules = hbr_schedules b, bc_signal_bindings = bindings\<rparr>)
       (case find (\<lambda>candidate. ab_id candidate = block_str (hbr_id b)) (ad_blocks document) of
          None \<Rightarrow> Some []
        | Some candidate \<Rightarrow> those (map (host_signal_binding b) (ab_signal_bindings candidate)))"

definition host_core_config ::
  "automation_document \<Rightarrow> host_block_runtime list \<Rightarrow> signal_runtime list \<Rightarrow> runtime_config option" where
  "host_core_config document blocks signals =
     map_option
       (\<lambda>bs. \<lparr>rc_blocks = bs,
              rc_signals = map (\<lambda>s. \<lparr>sgc_name = sr_name s, sgc_dpt = sr_dpt s\<rparr>) signals,
              rc_site = default_site\<rparr>)
       (those (map (host_core_block document) blocks))"

text \<open>\<open>core_validation_error\<close>: the path of an error of the core.\<close>

definition core_block_path :: "automation_document \<Rightarrow> block_id \<Rightarrow> rstring" where
  "core_block_path document x =
     (case position (\<lambda>b. ab_id b = block_str x) (ad_blocks document) of
        None \<Rightarrow> ''blocks'' | Some i \<Rightarrow> item_path ''blocks'' i)"

definition core_signal_path :: "automation_document \<Rightarrow> signal_name \<Rightarrow> rstring" where
  "core_signal_path document s =
     (case position (\<lambda>d. as_name d = signal_str s) (ad_signals document) of
        None \<Rightarrow> ''signals'' | Some i \<Rightarrow> item_path ''signals'' i)"

text \<open>The path of the binding of an endpoint, when the document has one.\<close>

definition core_binding_path ::
  "automation_document \<Rightarrow> block_id \<Rightarrow> endpoint_name \<Rightarrow> rstring option" where
  "core_binding_path document x e =
     Option.bind (position (\<lambda>b. ab_id b = block_str x) (ad_blocks document)) (\<lambda>i.
       map_option (item_path (item_path ''blocks'' i @ ''.signal_bindings''))
         (position (\<lambda>b. dsb_endpoint b = endpoint_str e)
           (ab_signal_bindings (ad_blocks document ! i))))"

definition core_validation_error :: "runtime_config_error \<Rightarrow> automation_document \<Rightarrow> host_error" where
  "core_validation_error e document =
     host_field_of
       (let binding = (\<lambda>x n. case core_binding_path document x n of
              None \<Rightarrow> core_block_path document x @ ''.signal_bindings'' | Some p \<Rightarrow> p)
        in case e of
             TooManySignals _ _ \<Rightarrow> ''signals''
           | DuplicateSignal s \<Rightarrow> core_signal_path document s
           | UnsupportedSignalDpt s _ \<Rightarrow> core_signal_path document s
           | TooManySignalBindings _ _ \<Rightarrow> ''blocks.signal_bindings''
           | UnknownSignal x n _ \<Rightarrow> binding x n
           | SignalDptMismatch x n _ _ _ \<Rightarrow> binding x n
           | DuplicateSignalProducer _ _ duplicate \<Rightarrow>
               (case core_binding_path document (se_block_id duplicate) (se_endpoint duplicate) of
                  None \<Rightarrow> ''blocks.signal_bindings'' | Some p \<Rightarrow> p @ ''.signal'')
           | SignalCycle _ \<Rightarrow> ''blocks.signal_bindings''
           | InvalidBlock x _ \<Rightarrow> core_block_path document x @ ''.source''
           | _ \<Rightarrow> ''blocks'')
       (HostConfig e)"

subsection \<open>The build\<close>

record host_automation =
  hau_document :: automation_document
  hau_signals :: "signal_runtime list"
  hau_core_config :: runtime_config
  hau_blocks :: "host_block_runtime list"
  hau_routing :: routing
  hau_http_polls :: "http_poll_runtime list"
  hau_webhook_inputs :: "webhook_input_runtime list"
  hau_structural_revision :: u64
  hau_document_revision :: u64

definition unbound_source_errors ::
  "host_services \<Rightarrow> host_source_table \<Rightarrow> routing \<Rightarrow> host_error list" where
  "unbound_source_errors hs sources rg =
     map (\<lambda>source. host_field_of ''http_polls'' (UnboundSource source))
       (filter (\<lambda>source. rg_http_to_inputs rg source = [] \<and> rg_webhook_to_inputs rg source = [])
         (hs_order hs (hst_keys sources)))"

definition host_document_errors ::
  "host_services \<Rightarrow> automation_document \<Rightarrow> host_signal_table \<Rightarrow> host_source_table
     \<Rightarrow> host_build_state \<Rightarrow> host_error list" where
  "host_document_errors hs document signals sources st =
     feature_errors (hs_document hs) document @ hsg_errors signals @ hst_errors sources
     @ block_count_errors document @ hbd_errors st
     @ (if api_max_signal_bindings < rg_signal_binding_count (ht_routing (hbd_tables st))
        then [host_field ''blocks.signal_bindings''
          (''must contain at most '' @ decimal api_max_signal_bindings @ '' bindings'')] else [])
     @ (if max_external_values_and_bindings < hst_count sources + ht_external_count (hbd_tables st)
        then [host_field ''blocks''
          (''extracted values plus bindings must contain at most ''
            @ decimal max_external_values_and_bindings @ '' entries'')] else [])
     @ unbound_source_errors hs sources (ht_routing (hbd_tables st))"

text \<open>\<open>None\<close> is a panic.\<close>

definition host_build_automation_with_limits ::
  "environment \<Rightarrow> host_services \<Rightarrow> automation_document \<Rightarrow> runtime_limits
     \<Rightarrow> (host_error list + host_automation) option" where
  "host_build_automation_with_limits env hs document limits =
     (let signals = host_read_signals (ad_signals document);
          sources = host_read_sources hs document;
          st = host_read_blocks env document signals sources;
          errors = host_document_errors hs document signals sources st
      in if errors \<noteq> [] then Some (Inl errors)
         else case host_core_config document (hbd_blocks st) (hsg_signals signals) of
           None \<Rightarrow> None
         | Some core \<Rightarrow>
             (case runtime_config_validate_with_limits env core limits of
                Inl (RcPanic m) \<Rightarrow> None
              | Inl e \<Rightarrow> Some (Inl [core_validation_error e document])
              | Inr _ \<Rightarrow>
                  Some (Inr
                    \<lparr>hau_document = document, hau_signals = hsg_signals signals, hau_core_config = core,
                     hau_blocks = hbd_blocks st, hau_routing = ht_routing (hbd_tables st),
                     hau_http_polls = hst_polls sources, hau_webhook_inputs = hst_webhooks sources,
                     hau_structural_revision = document_structural_revision (hs_document hs) document,
                     hau_document_revision = 0\<rparr>)))"

definition host_build_automation ::
  "environment \<Rightarrow> host_services \<Rightarrow> automation_document \<Rightarrow> (host_error list + host_automation) option"
  where
  "host_build_automation env hs document =
     host_build_automation_with_limits env hs document desktop_limits"

end
