(* ===== verification/Host_State.thy ===== *)
theory Host_State
  imports Host_Build
begin

text \<open>
  State that only the desktop host keeps: \<open>host_limits.rs\<close> (its limits, the table of commands in flight
  and the health of the process), the retry delay and the authorization of webhooks of \<open>external.rs\<close>,
  and the revisions of a saved document, \<open>web_automation.rs\<close>.
\<close>

unbundle bit_operations_syntax

subsection \<open>Limits\<close>

record host_limits =
  hl_profile :: runtime_profile
  hl_knx_ingress_queue :: nat
  hl_external_input_queue :: nat
  hl_activation_queue :: nat
  hl_simulation_queue :: nat
  hl_pending_knx_writes :: nat
  hl_execution_history_per_block :: nat
  hl_recent_telegrams :: nat
  hl_runtime_logs :: nat
  hl_diagnostic_journal :: nat
  hl_due_work_batch :: nat
  hl_pending_write_timeout_ms :: u64

definition host_limits_desktop :: host_limits where
  "host_limits_desktop =
     \<lparr>hl_profile = Desktop, hl_knx_ingress_queue = 256, hl_external_input_queue = 256,
      hl_activation_queue = 8, hl_simulation_queue = 8, hl_pending_knx_writes = 256,
      hl_execution_history_per_block = 50, hl_recent_telegrams = 200, hl_runtime_logs = 500,
      hl_diagnostic_journal = 512, hl_due_work_batch = 32, hl_pending_write_timeout_ms = 5000\<rparr>"

definition host_limits_embedded_baseline :: host_limits where
  "host_limits_embedded_baseline =
     \<lparr>hl_profile = EmbeddedBaseline, hl_knx_ingress_queue = 64, hl_external_input_queue = 64,
      hl_activation_queue = 2, hl_simulation_queue = 2, hl_pending_knx_writes = 64,
      hl_execution_history_per_block = 8, hl_recent_telegrams = 64, hl_runtime_logs = 128,
      hl_diagnostic_journal = 128, hl_due_work_batch = 8, hl_pending_write_timeout_ms = 5000\<rparr>"

text \<open>\<open>str::trim\<close>\<close>

definition trim :: "rstring \<Rightarrow> rstring" where
  "trim s =
     (let space = (\<lambda>c. is_whitespace_code (utf8_code c))
      in concat (rev (dropWhile space (rev (dropWhile space (utf8_chars s))))))"

text \<open>An unknown profile is an error that holds its name.\<close>

definition parse_runtime_profile :: "rstring \<Rightarrow> rstring + runtime_profile" where
  "parse_runtime_profile value =
     (if trim value = ''desktop'' then Inr Desktop
      else if trim value = ''embedded-baseline'' then Inr EmbeddedBaseline
      else Inl (trim value))"

definition host_limits_from_environment :: "(rstring \<Rightarrow> rstring option) \<Rightarrow> rstring + host_limits" where
  "host_limits_from_environment variable =
     result_bind
       (case variable ''LOGIKSMITH_RUNTIME_PROFILE'' of
          None \<Rightarrow> Inr Desktop
        | Some v \<Rightarrow> if trim_is_empty v then Inr Desktop else parse_runtime_profile v)
       (\<lambda>profile. Inr (case profile of
            Desktop \<Rightarrow> host_limits_desktop | EmbeddedBaseline \<Rightarrow> host_limits_embedded_baseline))"

subsection \<open>Commands in flight\<close>

type_synonym instant = nat \<comment> \<open>a monotonic clock, in microseconds\<close>

record pending_writes =
  pw_limit :: nat
  pw_entries :: "(u64, instant) btree_map"

definition pending_writes_new :: "nat \<Rightarrow> pending_writes" where
  "pending_writes_new limit = \<lparr>pw_limit = limit, pw_entries = []\<rparr>"

text \<open>The error holds the limit and the depth.\<close>

definition pending_writes_insert ::
  "u64 \<Rightarrow> instant \<Rightarrow> pending_writes \<Rightarrow> (nat \<times> nat + unit) \<times> pending_writes" where
  "pending_writes_insert request sent_at p =
     (if pw_limit p \<le> length (pw_entries p) \<and> \<not> btm_contains (pw_entries p) request
      then (Inl (pw_limit p, length (pw_entries p)), p)
      else (Inr (), p\<lparr>pw_entries := btm_insert request sent_at (pw_entries p)\<rparr>))"

definition pending_writes_remove :: "u64 \<Rightarrow> pending_writes \<Rightarrow> bool \<times> pending_writes" where
  "pending_writes_remove request p =
     (btm_contains (pw_entries p) request, p\<lparr>pw_entries := btm_remove request (pw_entries p)\<rparr>)"

definition pending_writes_expired :: "instant \<Rightarrow> duration \<Rightarrow> pending_writes \<Rightarrow> u64 option" where
  "pending_writes_expired now timeout p =
     map_option fst (find (\<lambda>(_, sent_at). timeout \<le> now - sent_at) (pw_entries p))"

subsection \<open>Health\<close>

text \<open>
  The state behind the lock. The channel on which \<open>fail\<close> also sends the reason is tokio's and is left out.
\<close>

record host_health =
  hlt_profile :: runtime_profile
  hlt_ready :: bool
  hlt_fatal :: "rstring option"

definition host_health_new :: "host_limits \<Rightarrow> host_health" where
  "host_health_new limits =
     \<lparr>hlt_profile = hl_profile limits, hlt_ready = False, hlt_fatal = None\<rparr>"

definition mark_ready :: "host_health \<Rightarrow> host_health" where
  "mark_ready h = (if hlt_fatal h = None then h\<lparr>hlt_ready := True\<rparr> else h)"

definition mark_not_ready :: "host_health \<Rightarrow> host_health" where
  "mark_not_ready h = h\<lparr>hlt_ready := False\<rparr>"

definition health_fail :: "rstring \<Rightarrow> host_health \<Rightarrow> host_health" where
  "health_fail reason h =
     (if hlt_fatal h = None
      then h\<lparr>hlt_ready := False, hlt_fatal := Some reason\<rparr> else h)"

inductive health_step :: "host_health \<Rightarrow> host_health \<Rightarrow> bool" where
  health_ready: "health_step h (mark_ready h)"
| health_not_ready: "health_step h (mark_not_ready h)"
| health_failed: "health_step h (health_fail reason h)"

inductive_cases health_stepE: "health_step h h'"

subsection \<open>External inputs\<close>

text \<open>The delays in microseconds, and the retry count as the code keeps it, a \<open>u8\<close>.\<close>

definition http_retry_delays :: "duration list" where
  "http_retry_delays = map (\<lambda>s. s * 1000000) [5, 15, 60, 5 * 60]"

definition failure_delay :: "u8 \<Rightarrow> duration \<Rightarrow> duration \<times> u8" where
  "failure_delay retry_count normal_interval =
     (let index = min (unat retry_count) (length http_retry_delays - 1)
      in (min (http_retry_delays ! index) normal_interval,
          min (saturating_add_word retry_count 1) (of_nat (length http_retry_delays))))"

definition byte_or_0 :: "rstring \<Rightarrow> nat \<Rightarrow> nat" where
  "byte_or_0 s i = (if i < length s then byte (s ! i) else 0)"

definition constant_time_equal :: "rstring \<Rightarrow> rstring \<Rightarrow> bool" where
  "constant_time_equal left right \<longleftrightarrow>
     foldl (\<lambda>difference i. difference OR (byte_or_0 left i XOR byte_or_0 right i))
       (length left XOR length right) [0..<max (length left) (length right)] = 0"

definition strip_prefix :: "rstring \<Rightarrow> rstring \<Rightarrow> rstring option" where
  "strip_prefix s start = (if starts_with s start then Some (drop (length start) s) else None)"

definition webhook_authorized :: "webhook_input_runtime \<Rightarrow> rstring option \<Rightarrow> bool" where
  "webhook_authorized source authorization \<longleftrightarrow>
     (case wir_bearer_token source of
        None \<Rightarrow> True
      | Some expected \<Rightarrow>
          (case Option.bind authorization (\<lambda>v. strip_prefix v ''Bearer '') of
             None \<Rightarrow> False
           | Some v \<Rightarrow> constant_time_equal v expected))"

subsection \<open>Saving a document\<close>

definition document_signal_dpt :: "automation_document \<Rightarrow> rstring \<Rightarrow> rstring option" where
  "document_signal_dpt d name = map_option as_dpt (find (\<lambda>s. as_name s = name) (ad_signals d))"

definition changed_signals :: "automation_document \<Rightarrow> automation_document \<Rightarrow> rstring set" where
  "changed_signals current candidate =
     set (filter (\<lambda>name. document_signal_dpt current name \<noteq> document_signal_dpt candidate name)
       (map as_name (ad_signals current @ ad_signals candidate)))"

definition document_block_changed :: "rstring set \<Rightarrow> document_block \<Rightarrow> document_block \<Rightarrow> bool" where
  "document_block_changed changed previous b \<longleftrightarrow>
     ab_enabled b \<noteq> ab_enabled previous \<or> ab_inputs b \<noteq> ab_inputs previous
     \<or> ab_outputs b \<noteq> ab_outputs previous \<or> ab_knx_bindings b \<noteq> ab_knx_bindings previous
     \<or> ab_signal_bindings b \<noteq> ab_signal_bindings previous
     \<or> list_ex (\<lambda>c. dsb_signal c \<in> changed) (ab_signal_bindings b)
     \<or> ab_schedules b \<noteq> ab_schedules previous \<or> ab_source b \<noteq> ab_source previous"

text \<open>\<open>None\<close> is a conflict.\<close>

definition merge_block ::
  "automation_document \<Rightarrow> rstring set \<Rightarrow> document_block \<Rightarrow> document_block option" where
  "merge_block current changed b =
     (case find (\<lambda>p. ab_id p = ab_id b) (ad_blocks current) of
        None \<Rightarrow> Some (b\<lparr>ab_revision := max (ab_revision b) 1\<rparr>)
      | Some previous \<Rightarrow>
          if document_block_changed changed previous b
          then if max (ab_revision b) 1 \<noteq> max (ab_revision previous) 1 then None
               else Some (b\<lparr>ab_revision := saturating_add_word (max (ab_revision previous) 1) 1\<rparr>)
          else Some (b\<lparr>ab_revision := max (ab_revision previous) 1\<rparr>))"

definition merge_block_revisions ::
  "automation_document \<Rightarrow> automation_document \<Rightarrow> automation_document option" where
  "merge_block_revisions current candidate =
     map_option (\<lambda>bs. candidate\<lparr>ad_blocks := bs\<rparr>)
       (those (map (merge_block current (changed_signals current candidate)) (ad_blocks candidate)))"

text \<open>
  The decision that \<open>put_automation\<close> takes under its lock, from the document it has loaded; \<open>None\<close> is a
  panic of the build. Writing the file is left out.
\<close>

datatype save_outcome =
    SaveConflict automation_document
  | SaveInvalid "host_error list"
  | SaveSaved automation_document

definition save_automation ::
  "environment \<Rightarrow> host_services \<Rightarrow> automation_document \<Rightarrow> automation_document \<Rightarrow> save_outcome option" where
  "save_automation env hs current request =
     (case merge_block_revisions current request of
        None \<Rightarrow> Some (SaveConflict current)
      | Some document \<Rightarrow>
          map_option (\<lambda>r. case r of Inl errors \<Rightarrow> SaveInvalid errors | Inr _ \<Rightarrow> SaveSaved document)
            (host_build_automation env hs document))"

end
