(* ===== verification/Host_Correctness.thy ===== *)
theory Host_Correctness
  imports Host_Fields Field_Correctness
begin

text \<open>
  The readers of the desktop host and those of the runtime API are two implementations of one format:
  where they accept the same texts with the same meaning, and the one place where they do not.
\<close>

subsection \<open>Durations\<close>

declare duration_unit.simps [simp del]

lemma host_duration_loop_equal:
  assumes "case last_unit of None \<Rightarrow> rank = 4 | Some (c, r) \<Rightarrow> rank = r \<and> (\<exists>n. duration_unit c = Some (n, r))"
  shows "host_duration_loop cs acc digits last_unit = duration_loop cs acc digits rank"
  using assms
proof (induction cs arbitrary: acc digits last_unit rank)
  case Nil
  then show ?case by (auto simp: duration_unit_iff split: option.splits)
next
  case (Cons c cs)
  show ?case
  proof (cases "is_ascii_digit c")
    case True
    with Cons show ?thesis by simp
  next
    case False
    show ?thesis
    proof (cases "duration_unit c")
      case None
      with False show ?thesis by (simp split: option.splits)
    next
      case (Some u)
      obtain seconds current where u: "u = (seconds, current)" by (cases u)
      have next_loop: "host_duration_loop cs a [] (Some (c, current)) = duration_loop cs a [] current" for a
        by (rule Cons.IH) (simp add: Some u)
      have late: "map_option fst last_unit = Some c
          \<or> (case last_unit of None \<Rightarrow> False | Some (_, previous) \<Rightarrow> previous \<le> current)
          \<longleftrightarrow> rank \<le> current"
        using Cons.prems Some u by (auto simp: duration_unit_iff split: option.splits)
      show ?thesis
        using False Some u late by (auto simp: next_loop split: option.splits)
    qed
  qed
qed

lemma duration_loop_minus: "duration_loop (CHR ''-'' # cs) acc [] rank = None"
  by (simp add: is_ascii_digit_def parse_i64_digits_def parse_unsigned_def)

text \<open>
  The desktop host and the runtime API read the same durations: the units in descending order and without
  repetition, with the same overflow checks, whether or not a sign is asked for.
\<close>

theorem desktop_durations_agree: "parse_duration_seconds t sign = parse_duration t sign"
proof -
  have loop: "host_duration_loop cs 0 [] None = duration_loop cs 0 [] 4" for cs
    by (rule host_duration_loop_equal) simp
  show ?thesis
    by (cases t) (auto simp: parse_duration_seconds_def parse_duration_def Let_def loop duration_loop_minus
        simp del: duration_loop.simps)
qed

subsection \<open>Group addresses and pointers\<close>

text \<open>
  The two readers check in another order, so a text may be rejected for another reason, but they accept
  the same group addresses.
\<close>

theorem desktop_addresses_agree:
  "host_group_address_from_str v = Inr a \<longleftrightarrow> group_address_from_str v = Inr a"
proof -
  have zero: "of_nat m = (0 :: u8) \<longleftrightarrow> m = 0" if "m \<le> 255" for m
    using that by (simp add: unat_eq_zero [symmetric] unat_of_nat del: unat_eq_zero)
  have small: "31 < (of_nat m :: u8) \<longleftrightarrow> 31 < m" "7 < (of_nat m :: u8) \<longleftrightarrow> 7 < m" if "m \<le> 255" for m
    using that by (simp_all add: word_less_nat_alt unat_of_nat)
  show ?thesis
    by (auto simp: host_group_address_from_str_def group_address_from_str_def Let_def group_address_new_def
        result_bind_def ok_or_def zero small split: option.splits sum.splits if_splits)
qed

lemma bad_escape_Cons:
  "bad_escape (c # cs) \<longleftrightarrow> c = CHR ''~'' \<and> (cs = [] \<or> hd cs \<notin> {CHR ''0'', CHR ''1''}) \<or> bad_escape cs"
  by (cases cs) (simp_all add: bad_escape_def Ex_less_Suc2)

lemma escapes_ok_iff: "escapes_ok cs \<longleftrightarrow> \<not> bad_escape cs"
proof (induction cs rule: escapes_ok.induct)
  case 1
  then show ?case by (simp add: bad_escape_def)
next
  case (2 c cs)
  then show ?case by (cases cs) (auto simp: bad_escape_Cons)
qed

text \<open>Up to its bound of 256 bytes the host accepts the pointers of the runtime API.\<close>

theorem desktop_pointers_agree:
  "snd (host_validate_pointer path p) \<longleftrightarrow> length p \<le> max_json_pointer_bytes \<and> validate_pointer path p = []"
  by (auto simp: host_validate_pointer_def validate_pointer_def escapes_ok_iff list_all_iff list_ex_iff)

lemma host_validate_pointer_reports:
  "snd (host_validate_pointer path p) \<longleftrightarrow> fst (host_validate_pointer path p) = []"
  by (simp add: host_validate_pointer_def)

subsection \<open>Names and types\<close>

text \<open>The two readers of names and types differ in the type of their errors only.\<close>

lemma host_endpoint_name_iff: "host_endpoint_name path t = Inr n \<longleftrightarrow> read_endpoint_name path t = Inr n"
  by (auto simp: host_endpoint_name_def read_endpoint_name_def map_err_def split: sum.splits)

lemma host_read_dpt_iff: "host_read_dpt path t = Inr d \<longleftrightarrow> read_dpt path t = Inr d"
  by (auto simp: host_read_dpt_def read_dpt_def map_err_def result_bind_def split: sum.splits)

lemma host_source_name_iff:
  "host_source_name path t = (errors, Some n) \<longleftrightarrow> errors = [] \<and> source_name path t = Inr n"
  by (auto simp: host_source_name_def source_name_def result_bind_def host_endpoint_name_def
      read_endpoint_name_def map_err_def split: sum.splits)

subsection \<open>Schedules\<close>

lemma weekday_steps_agree:
  assumes "length e = length e'"
  shows "snd (foldl (host_weekday_step p) (e, days) xs) = snd (foldl (weekday_step q) (e', days) xs)
    \<and> length (fst (foldl (host_weekday_step p) (e, days) xs))
      = length (fst (foldl (weekday_step q) (e', days) xs))"
  using assms
  by (induction xs arbitrary: e e' days)
    (auto simp: host_weekday_step_def weekday_step_def split: option.splits)

lemma weekday_steps_length:
  "length (fst (foldl (weekday_step q) acc xs)) + length (snd (foldl (weekday_step q) acc xs))
    = length (fst acc) + length (snd acc) + length xs"
  by (induction xs arbitrary: acc) (auto simp: weekday_step_def split: option.splits)

lemma weekday_set_new_sort:
  "weekday_set_new (sort days) = Inr s \<Longrightarrow> days \<noteq> []"
  by (auto simp: weekday_set_new_def)

lemma host_weekdays_agree:
  "host_weekdays path tokens = ([], Some s)
    \<longleftrightarrow> read_weekdays path tokens = ([], s) \<and> tokens \<noteq> Some []"
proof (cases tokens)
  case None
  have "weekday_set_new weekdays_all = Inr (WeekdaySet weekdays_all)" by code_simp
  moreover have "sort weekdays_all = weekdays_all" by code_simp
  ultimately show ?thesis by (simp add: None host_weekdays_def read_weekdays_def)
next
  case (Some ts)
  let ?host = "foldl (host_weekday_step path) ([], []) (List.enumerate 0 ts)"
  let ?api = "foldl (weekday_step path) ([], []) (List.enumerate 0 ts)"
  have days: "snd ?host = snd ?api" and errors: "fst ?host = [] \<longleftrightarrow> fst ?api = []"
    using weekday_steps_agree [of "[]" "[]" path "[]" "List.enumerate 0 ts" path] by auto
  have nonempty: "snd ?api \<noteq> []" if "fst ?api = []" "ts \<noteq> []"
    using weekday_steps_length [of path "([], [])" "List.enumerate 0 ts"] that by auto
  have unique: "distinct (snd ?api)"
  proof -
    have "distinct (snd (foldl (weekday_step path) acc xs))" if "distinct (snd acc)" for acc xs
      using that by (induction xs arbitrary: acc) (auto simp: weekday_step_def split: option.splits)
    then show ?thesis by simp
  qed
  have "weekday_set_new (sort ds) = Inr (WeekdaySet (sort ds))" if "distinct ds" "ds \<noteq> []" for ds :: "weekday list"
  proof -
    have "sort ds \<noteq> []" using that(2) by (metis length_0_conv length_sort)
    with that(1) show ?thesis
      by (auto simp: weekday_set_new_def first_duplicate_None sorted_sort_id split: option.splits)
  qed
  with days errors nonempty unique show ?thesis
    by (auto simp: Some host_weekdays_def host_parse_weekdays_def read_weekdays_def Let_def
        split: prod.splits sum.splits)
qed

lemma host_parse_local_time_agree:
  "host_parse_local_time path t = ([], Some tod) \<longleftrightarrow> read_local_time path t = ([], Some tod)"
  by (auto simp: host_parse_local_time_def read_local_time_def Let_def split: option.splits)

lemma no_disallowed_fields:
  "reject_disallowed_fields s path allowed = [] \<longleftrightarrow>
     (asc_at s \<noteq> None \<longrightarrow> ''at'' \<in> set allowed) \<and> (asc_every s \<noteq> None \<longrightarrow> ''every'' \<in> set allowed)
     \<and> (asc_offset s \<noteq> None \<longrightarrow> ''offset'' \<in> set allowed)
     \<and> (asc_anchor s \<noteq> None \<longrightarrow> ''anchor'' \<in> set allowed)
     \<and> (asc_weekdays s \<noteq> None \<longrightarrow> ''weekdays'' \<in> set allowed)"
  by (auto simp: reject_disallowed_fields_def filter_empty_conv)

lemma host_fixed_rule_agree:
  "host_fixed_rule s path = ([], Some r) \<longleftrightarrow> fixed_rule s path = ([], Some r) \<and> asc_weekdays s \<noteq> Some []"
proof -
  have host: "host_fixed_rule s path = ([], Some r) \<longleftrightarrow>
      reject_disallowed_fields s path [''at'', ''weekdays''] = []
      \<and> (\<exists>v tod days. asc_at s = Some v \<and> host_parse_local_time (path @ ''.at'') v = ([], Some tod)
          \<and> host_weekdays (path @ ''.weekdays'') (asc_weekdays s) = ([], Some days) \<and> r = RuleFixed tod days)"
    by (auto simp: host_fixed_rule_def required_field_def Let_def split: option.splits prod.splits)
  have api: "fixed_rule s path = ([], Some r) \<longleftrightarrow>
      asc_every s = None \<and> asc_offset s = None \<and> asc_anchor s = None
      \<and> (\<exists>v tod days. asc_at s = Some v \<and> read_local_time (path @ ''.at'') v = ([], Some tod)
          \<and> read_weekdays (path @ ''.weekdays'') (asc_weekdays s) = ([], days) \<and> r = RuleFixed tod days)"
    by (auto simp: fixed_rule_def Let_def split: option.splits prod.splits if_splits)
  show ?thesis
    unfolding host api no_disallowed_fields host_parse_local_time_agree host_weekdays_agree by auto
qed

lemma host_interval_rule_agree:
  "host_interval_rule s path = ([], Some r) \<longleftrightarrow> interval_rule s path = ([], Some r)"
proof -
  have host: "host_interval_rule s path = ([], Some r) \<longleftrightarrow>
      reject_disallowed_fields s path [''every'', ''offset''] = []
      \<and> (\<exists>v every offset. asc_every s = Some v \<and> parse_duration v False = Some every
          \<and> (case asc_offset s of None \<Rightarrow> offset = 0 | Some w \<Rightarrow> parse_duration w False = Some offset)
          \<and> 60 \<le> every \<and> every \<le> 604800 \<and> 0 \<le> offset \<and> offset < every
          \<and> r = RuleInterval (of_int every) (of_int offset))"
    by (auto simp: host_interval_rule_def required_field_def Let_def parse_duration_field_def
        desktop_durations_agree split: option.splits prod.splits if_splits)
  have api: "interval_rule s path = ([], Some r) \<longleftrightarrow>
      asc_at s = None \<and> asc_anchor s = None \<and> asc_weekdays s = None
      \<and> (\<exists>v every offset. asc_every s = Some v \<and> parse_duration v False = Some every
          \<and> (case asc_offset s of None \<Rightarrow> offset = 0 | Some w \<Rightarrow> parse_duration w False = Some offset)
          \<and> 60 \<le> every \<and> every \<le> 604800 \<and> 0 \<le> offset \<and> offset < every
          \<and> r = RuleInterval (of_int every) (of_int offset))"
  proof (cases "Option.bind (asc_every s) (\<lambda>v. parse_duration v False)")
    case None
    then have none: "\<nexists>v every. asc_every s = Some v \<and> parse_duration v False = Some every"
      by (auto simp: bind_eq_None_conv)
    from None have "interval_rule s path \<noteq> ([], Some r)" by (simp add: interval_rule_def Let_def)
    with none show ?thesis by blast
  next
    case (Some every)
    then obtain v where v: "asc_every s = Some v" "parse_duration v False = Some every"
      by (auto simp: bind_eq_Some_conv)
    show ?thesis
    proof (cases "asc_offset s")
      case None
      then show ?thesis by (auto simp: interval_rule_def Let_def v)
    next
      case (Some w)
      then show ?thesis by (cases "parse_duration w False") (auto simp: interval_rule_def Let_def v)
    qed
  qed
  have "reject_disallowed_fields s path [''every'', ''offset''] = []
      \<longleftrightarrow> asc_at s = None \<and> asc_anchor s = None \<and> asc_weekdays s = None"
    by (simp add: no_disallowed_fields)
  then show ?thesis unfolding host api by (simp only: conj_assoc)
qed

lemma host_astronomical_rule_agree:
  "host_astronomical_rule s path = ([], Some r)
    \<longleftrightarrow> astronomical_rule s path = ([], Some r) \<and> asc_weekdays s \<noteq> Some []"
proof -
  have host: "host_astronomical_rule s path = ([], Some r) \<longleftrightarrow>
      reject_disallowed_fields s path [''anchor'', ''offset'', ''weekdays''] = []
      \<and> (\<exists>t v anchor offset days. asc_anchor s = Some t \<and> solar_anchor_token t = Some anchor
          \<and> asc_offset s = Some v \<and> parse_duration v True = Some offset \<and> - 86400 \<le> offset \<and> offset \<le> 86400
          \<and> host_weekdays (path @ ''.weekdays'') (asc_weekdays s) = ([], Some days)
          \<and> r = RuleAstronomical anchor offset days)"
    by (auto simp: host_astronomical_rule_def required_field_def Let_def parse_duration_field_def
        desktop_durations_agree parse_anchor_def host_weekdays_def
        split: option.splits prod.splits if_splits sum.splits simp del: solar_anchor_token.simps)
  have api: "astronomical_rule s path = ([], Some r) \<longleftrightarrow>
      asc_at s = None \<and> asc_every s = None
      \<and> (\<exists>t v anchor offset days. asc_anchor s = Some t \<and> solar_anchor_token t = Some anchor
          \<and> asc_offset s = Some v \<and> parse_duration v True = Some offset \<and> - 86400 \<le> offset \<and> offset \<le> 86400
          \<and> read_weekdays (path @ ''.weekdays'') (asc_weekdays s) = ([], days)
          \<and> r = RuleAstronomical anchor offset days)"
    by (auto simp: astronomical_rule_def Let_def bind_eq_Some_conv
        split: option.splits prod.splits if_splits simp del: solar_anchor_token.simps)
  have "reject_disallowed_fields s path [''anchor'', ''offset'', ''weekdays''] = []
      \<longleftrightarrow> asc_at s = None \<and> asc_every s = None"
    by (simp add: no_disallowed_fields)
  then show ?thesis unfolding host api host_weekdays_agree by blast
qed

text \<open>
  C31. A schedule of a document means the same on the desktop and in the runtime API, and is rejected by both
  or by neither, with one exception: an empty list of weekdays is every day to the runtime API, and an
  error to the desktop host.
\<close>

theorem desktop_schedules_agree:
  "host_schedule_rule s path = ([], Some r)
    \<longleftrightarrow> read_schedule_rule s path = ([], Some r)
      \<and> \<not> (asc_weekdays s = Some [] \<and> asc_kind s \<in> {''fixed'', ''astronomical''})"
proof -
  have kinds: "(a @ fst x, snd x) = ([], Some r) \<longleftrightarrow> a = [] \<and> x = ([], Some r)"
    for a :: "'e list" and x by (cases x) auto
  have one: "(if k = ''fixed'' then f else if k = ''interval'' then i else if k = ''astronomical'' then x
        else ([e], None)) = ([], Some r)
      \<longleftrightarrow> k = ''fixed'' \<and> f = ([], Some r) \<or> k = ''interval'' \<and> i = ([], Some r)
        \<or> k = ''astronomical'' \<and> x = ([], Some r)"
    for k :: rstring and f i x and e :: 'e by auto
  have "host_schedule_rule s path = ([], Some r) \<longleftrightarrow> asc_extra s = []
      \<and> (asc_kind s = ''fixed'' \<and> host_fixed_rule s path = ([], Some r)
         \<or> asc_kind s = ''interval'' \<and> host_interval_rule s path = ([], Some r)
         \<or> asc_kind s = ''astronomical'' \<and> host_astronomical_rule s path = ([], Some r))"
    unfolding host_schedule_rule_def Let_def case_prod_beta kinds one by simp
  moreover have "read_schedule_rule s path = ([], Some r) \<longleftrightarrow> asc_extra s = []
      \<and> (asc_kind s = ''fixed'' \<and> fixed_rule s path = ([], Some r)
         \<or> asc_kind s = ''interval'' \<and> interval_rule s path = ([], Some r)
         \<or> asc_kind s = ''astronomical'' \<and> astronomical_rule s path = ([], Some r))"
    unfolding read_schedule_rule_def Let_def case_prod_beta extra_errors_def kinds one by simp
  ultimately show ?thesis
    unfolding host_fixed_rule_agree host_interval_rule_agree host_astronomical_rule_agree by auto
qed

end
