(* ===== verification/Config_Order.thy ===== *)
theory Config_Order
  imports Config_Correctness
begin

text \<open>
  The order in which the signal bindings of a block are listed does not decide whether a configuration
  is valid, so that a host may take it from the iteration of a hash map.
\<close>

definition same_but_order :: "block_config \<Rightarrow> block_config \<Rightarrow> bool" where
  "same_but_order b c \<longleftrightarrow>
     mset (bc_signal_bindings c) = mset (bc_signal_bindings b)
     \<and> c = b\<lparr>bc_signal_bindings := bc_signal_bindings c\<rparr>"

definition reordered :: "runtime_config \<Rightarrow> runtime_config \<Rightarrow> bool" where
  "reordered config config' \<longleftrightarrow>
     list_all2 same_but_order (rc_blocks config) (rc_blocks config')
     \<and> rc_signals config' = rc_signals config \<and> rc_site config' = rc_site config"

lemma same_but_orderD:
  assumes "same_but_order b c"
  shows "bc_id c = bc_id b" and "bc_endpoints c = bc_endpoints b" and "bc_logic c = bc_logic b"
    and "bc_schedules c = bc_schedules b" and "mset (bc_signal_bindings c) = mset (bc_signal_bindings b)"
proof -
  from assms have c: "c = b\<lparr>bc_signal_bindings := bc_signal_bindings c\<rparr>"
    and "mset (bc_signal_bindings c) = mset (bc_signal_bindings b)" by (simp_all add: same_but_order_def)
  then show "mset (bc_signal_bindings c) = mset (bc_signal_bindings b)" by simp
  show "bc_id c = bc_id b" "bc_endpoints c = bc_endpoints b" "bc_logic c = bc_logic b"
    "bc_schedules c = bc_schedules b" by (subst c; simp)+
qed

subsection \<open>What the validation sees of a binding\<close>

definition view :: "block_config \<times> signal_binding \<Rightarrow> block_id \<times> endpoint list \<times> signal_binding" where
  "view bb = (bc_id (fst bb), bc_endpoints (fst bb), snd bb)"

lemma reordered_views:
  assumes "list_all2 same_but_order bs cs"
  shows "mset (map view (bindings_of cs)) = mset (map view (bindings_of bs))"
  using assms
proof (induction rule: list_all2_induct)
  case (Cons b bs c cs)
  have row: "map view (map (Pair b) xs) = map (\<lambda>x. (bc_id b, bc_endpoints b, x)) xs" for b xs
    by (simp add: view_def)
  have "mset (map view (map (Pair c) (bc_signal_bindings c)))
      = mset (map view (map (Pair b) (bc_signal_bindings b)))"
    using same_but_orderD [OF Cons(1)] unfolding row by simp
  with Cons.IH show ?case by (simp add: bindings_of_def)
qed (simp add: bindings_of_def)

lemma views_filter:
  assumes "mset (map v ys) = mset (map v xs)"
  shows "mset (map (h \<circ> v) (filter (P \<circ> v) ys)) = mset (map (h \<circ> v) (filter (P \<circ> v) xs))"
proof -
  have "mset (map (h \<circ> v) (filter (P \<circ> v) zs)) = image_mset h (filter_mset P (mset (map v zs)))" for zs
    by (induction zs) simp_all
  with assms show ?thesis by simp
qed

definition view_endpoint :: "block_id \<times> endpoint list \<times> signal_binding \<Rightarrow> endpoint option" where
  "view_endpoint w = find (\<lambda>e. ep_name e = sb_endpoint (snd (snd w))) (fst (snd w))"

lemma bound_endpoint_view: "bound_endpoint = view_endpoint \<circ> view"
  by (simp add: fun_eq_iff bound_endpoint_def view_endpoint_def view_def)

definition view_publishes :: "block_id \<times> endpoint list \<times> signal_binding \<Rightarrow> bool" where
  "view_publishes w \<longleftrightarrow> map_option ep_direction (view_endpoint w) = Some Output"

lemma publishes_view: "publishes = view_publishes \<circ> view"
  by (simp add: fun_eq_iff publishes_def view_publishes_def bound_endpoint_view)

definition view_consumes :: "block_id \<times> endpoint list \<times> signal_binding \<Rightarrow> bool" where
  "view_consumes w \<longleftrightarrow> map_option ep_direction (view_endpoint w) = Some Input"

lemma consumes_view: "consumes = view_consumes \<circ> view"
  by (simp add: fun_eq_iff consumes_def view_consumes_def bound_endpoint_view)

definition view_typed :: "signal_config list \<Rightarrow> block_id \<times> endpoint list \<times> signal_binding \<Rightarrow> bool" where
  "view_typed sigs w \<longleftrightarrow>
     (\<exists>signal e. find (\<lambda>s. sgc_name s = sb_signal (snd (snd w))) sigs = Some signal
        \<and> view_endpoint w = Some e \<and> ep_dpt e = sgc_dpt signal)"

lemma binding_typed_view: "binding_typed sigs = view_typed sigs \<circ> view"
  by (simp add: fun_eq_iff binding_typed_def view_typed_def bound_endpoint_view) (simp add: view_def)

lemma sb_signal_view: "sb_signal \<circ> snd = (sb_signal \<circ> snd \<circ> snd) \<circ> view"
  by (simp add: fun_eq_iff view_def)

lemma bc_id_view: "bc_id \<circ> fst = fst \<circ> view"
  by (simp add: fun_eq_iff view_def)

lemma feeds_view:
  "feeds config x s \<longleftrightarrow> (\<exists>w \<in> set (map view (bindings_of (rc_blocks config))).
     view_publishes w \<and> sb_signal (snd (snd w)) = s \<and> fst w = x)"
  by (auto simp: feeds_def publishes_view view_def)

lemma fed_blocks_view:
  "fed_blocks config x = map (fst \<circ> view)
     (filter ((\<lambda>w. view_consumes w \<and> feeds config x (sb_signal (snd (snd w)))) \<circ> view)
       (bindings_of (rc_blocks config)))"
  by (simp add: fed_blocks_def bc_id_view consumes_view comp_def) (simp add: view_def)

lemma fed_blocks_reordered:
  assumes "reordered config config'"
  shows "mset (fed_blocks config' x) = mset (fed_blocks config x)"
proof -
  have views: "mset (map view (bindings_of (rc_blocks config'))) = mset (map view (bindings_of (rc_blocks config)))"
    using assms by (intro reordered_views) (simp add: reordered_def)
  have "feeds config' x = feeds config x"
    using mset_eq_setD [OF views] by (simp add: fun_eq_iff feeds_view)
  then show ?thesis unfolding fed_blocks_view by (simp only: views_filter [OF views])
qed

lemma signal_graph_reordered:
  assumes "reordered config config'"
  shows "signal_graph config' = signal_graph config"
  using mset_eq_setD [OF fed_blocks_reordered [OF assms]] by (simp add: signal_graph_def)

lemma cascades_reordered:
  assumes "cascades ch x n" and "\<And>x. mset (ch' x) = mset (ch x)"
  shows "cascades ch' x n"
  using assms(1)
proof induction
  case (1 x ns)
  then have "list_all2 (cascades ch') (ch x) ns" by (rule list_all2_mono) simp
  from list_all2_reorder_left_invariance [OF this assms(2)]
  obtain ms where ms: "list_all2 (cascades ch') (ch' x) ms" "mset ms = mset ns" by blast
  then have "sum_list ms = sum_list ns" by (metis sum_mset_sum_list)
  with cascades.intros [OF ms(1)] show ?case by simp
qed

subsection \<open>The stages of the validation\<close>

lemma producer_step_run:
  assumes "binding_typed sigs bb" and "publishes bb \<Longrightarrow> btm_get producers (sb_signal (snd bb)) = None"
  shows "producer_step sigs producers bb = Inr (if publishes bb
    then btm_insert (sb_signal (snd bb)) (binding_identity bb) producers else producers)"
proof -
  obtain signal e where s: "find (\<lambda>s. sgc_name s = sb_signal (snd bb)) sigs = Some signal"
    and e: "find (\<lambda>e. ep_name e = sb_endpoint (snd bb)) (bc_endpoints (fst bb)) = Some e"
    and d: "ep_dpt e = sgc_dpt signal"
    using assms(1) by (auto simp: binding_typed_def bound_endpoint_def)
  have "sgc_name signal = sb_signal (snd bb)" "ep_name e = sb_endpoint (snd bb)"
    using find_SomeD [OF s] find_SomeD [OF e] by simp_all
  with assms(2) s e d show ?thesis
    by (auto simp: producer_step_def Let_def publishes_def bound_endpoint_def binding_identity_def
        split: option.splits)
qed

lemma producers_run:
  assumes "\<forall>bb \<in> set bbs. binding_typed sigs bb" and "distinct (map (sb_signal \<circ> snd) (filter publishes bbs))"
    and "\<forall>bb \<in> set (filter publishes bbs). btm_get producers (sb_signal (snd bb)) = None"
  shows "\<exists>producers'. try_fold (producer_step sigs) producers bbs = Inr producers'"
  using assms
proof (induction bbs arbitrary: producers)
  case (Cons bb bbs)
  have step: "producer_step sigs producers bb = Inr (if publishes bb
      then btm_insert (sb_signal (snd bb)) (binding_identity bb) producers else producers)"
    using Cons.prems by (intro producer_step_run) auto
  have "\<exists>producers'. try_fold (producer_step sigs) (if publishes bb
      then btm_insert (sb_signal (snd bb)) (binding_identity bb) producers else producers) bbs = Inr producers'"
  proof (cases "publishes bb")
    case True
    have "sb_signal (snd x) \<noteq> sb_signal (snd bb)" if "x \<in> set bbs" "publishes x" for x
      using Cons.prems(2) True that by (cases x) (auto simp: image_iff, metis)
    with True Cons.prems show ?thesis by (simp add: Cons.IH btm_get_insert)
  next
    case False
    with Cons.prems show ?thesis by (simp add: Cons.IH)
  qed
  then show ?case by (simp add: step)
qed simp

lemma edges_run:
  assumes "\<forall>bb \<in> set bbs. bound_endpoint bb \<noteq> None"
  shows "\<exists>edges'. try_fold (edge_step producers) edges bbs = Inr edges'"
  using assms
proof (induction bbs arbitrary: edges)
  case (Cons bb bbs)
  then obtain e where "find (\<lambda>e. ep_name e = sb_endpoint (snd bb)) (bc_endpoints (fst bb)) = Some e"
    by (auto simp: bound_endpoint_def)
  then obtain mid where "edge_step producers edges bb = Inr mid"
    by (cases "ep_direction e = Input"; cases "btm_get producers (sb_signal (snd bb))")
      (simp_all add: edge_step_def Let_def)
  with Cons show ?case by simp
qed simp

lemma block_config_validate_iff:
  "block_config_validate_with_limits env b limits = Inr () \<longleftrightarrow>
     length (bc_endpoints b) \<le> max_endpoints_per_block limits
     \<and> length (lp_source (bc_logic b)) \<le> max_logic_source_bytes_per_block limits
     \<and> length (bc_schedules b) \<le> max_schedules_per_block limits
     \<and> check_with_earlier (check_schedule (ts_features (env_time env))) [] (bc_schedules b) = Inr ()
     \<and> distinct (map sb_endpoint (bc_signal_bindings b))
     \<and> (\<forall>c \<in> set (bc_signal_bindings b). sb_endpoint c \<in> ep_name ` set (bc_endpoints b))
     \<and> engine_config_validate_with_limits (env_vm env)
         \<lparr>ec_endpoints = bc_endpoints b, ec_logic = bc_logic b\<rparr> limits = Inr ()"
proof -
  have bindings: "check_binding endpoints seen c = Inr () \<longleftrightarrow>
      sb_endpoint c \<notin> sb_endpoint ` set seen \<and> sb_endpoint c \<in> ep_name ` set endpoints"
    for endpoints seen c
    by (auto simp: check_binding_def earlier_iff names_found split: option.splits)
  show ?thesis
    by (auto simp: block_config_validate_with_limits_def result_simps check_distinct_ok [OF bindings]
        not_less split: if_splits)
qed

lemma block_config_validate_reordered:
  assumes "same_but_order b c"
  shows "block_config_validate_with_limits env c limits = Inr () \<longleftrightarrow>
    block_config_validate_with_limits env b limits = Inr ()"
proof -
  note same = same_but_orderD [OF assms]
  have "distinct (map sb_endpoint (bc_signal_bindings c)) = distinct (map sb_endpoint (bc_signal_bindings b))"
    by (rule mset_eq_imp_distinct_iff) (simp add: same(5))
  then show ?thesis
    unfolding block_config_validate_iff same(2-4) mset_eq_setD [OF same(5)] by simp
qed

text \<open>A valid configuration stays valid under another order of its bindings.\<close>

theorem validate_reordered:
  assumes valid: "runtime_config_validate_with_limits env config limits = Inr ()"
    and order: "reordered config config'"
    and fit: "max_signal_bindings limits * max_cascade_executions limits < 2 ^ 64 - 1"
  shows "runtime_config_validate_with_limits env config' limits = Inr ()"
proof -
  let ?bs = "rc_blocks config" and ?cs = "rc_blocks config'"
  have blocks: "list_all2 same_but_order ?bs ?cs" and signals: "rc_signals config' = rc_signals config"
    using order by (simp_all add: reordered_def)
  have wf: "runtime_config_wf (ts_features (env_time env)) config limits" using validated_wf [OF valid] .
  have views: "mset (map view (bindings_of ?cs)) = mset (map view (bindings_of ?bs))"
    by (rule reordered_views [OF blocks])
  have ids: "map bc_id ?cs = map bc_id ?bs" and logic: "map bc_logic ?cs = map bc_logic ?bs"
    using blocks by (induction rule: list_all2_induct) (simp_all add: same_but_orderD)
  have sources: "map (\<lambda>b. length (lp_source (bc_logic b))) ?cs = map (\<lambda>b. length (lp_source (bc_logic b))) ?bs"
    using arg_cong [OF logic, of "map (\<lambda>l. length (lp_source l))"] by (simp add: comp_def)
  have lengths: "length ?cs = length ?bs" "length (bindings_of ?cs) = length (bindings_of ?bs)"
    using list_all2_lengthD [OF blocks] arg_cong [OF views, of size] by simp_all
  have checked: "check_with_earlier (check_block env limits) [] ?bs = Inr ()"
    using validate_stages [OF valid] by blast
  have each: "\<forall>c \<in> set ?cs. block_config_validate_with_limits env c limits = Inr ()"
  proof
    fix c assume "c \<in> set ?cs"
    then obtain i where i: "i < length ?cs" "?cs ! i = c" by (auto simp: in_set_conv_nth)
    then have "same_but_order (?bs ! i) c" "?bs ! i \<in> set ?bs"
      using list_all2_nthD2 [OF blocks i(1)] lengths(1) by auto
    then show "block_config_validate_with_limits env c limits = Inr ()"
      using checked unfolding check_blocks_ok by (auto simp: block_config_validate_reordered)
  qed
  have blocks_ok: "check_with_earlier (check_block env limits) [] ?cs = Inr ()"
    using checked each unfolding check_blocks_ok ids by simp
  have typed: "\<forall>bb \<in> set (bindings_of ?cs). binding_typed (rc_signals config) bb"
  proof -
    have "\<forall>w \<in> set (map view (bindings_of ?bs)). view_typed (rc_signals config) w"
      using wf by (auto simp: runtime_config_wf_def binding_typed_view)
    then have "\<forall>w \<in> set (map view (bindings_of ?cs)). view_typed (rc_signals config) w"
      unfolding mset_eq_setD [OF views] .
    then show ?thesis by (simp add: binding_typed_view)
  qed
  have same_signals: "mset (map (sb_signal \<circ> snd) (filter publishes (bindings_of ?cs)))
      = mset (map (sb_signal \<circ> snd) (filter publishes (bindings_of ?bs)))"
    unfolding publishes_view sb_signal_view by (rule views_filter [OF views])
  have "distinct (map (sb_signal \<circ> snd) (filter publishes (bindings_of ?bs)))"
    using wf by (simp add: runtime_config_wf_def)
  then have "distinct (map (sb_signal \<circ> snd) (filter publishes (bindings_of ?cs)))"
    unfolding mset_eq_imp_distinct_iff [OF same_signals] .
  with typed obtain producers where
    p: "try_fold (producer_step (rc_signals config)) [] (bindings_of ?cs) = Inr producers"
    using producers_run [of "bindings_of ?cs" "rc_signals config" "[]"] by auto
  have "\<forall>bb \<in> set (bindings_of ?cs). bound_endpoint bb \<noteq> None"
    using typed by (auto simp: binding_typed_def)
  then obtain edges where e: "try_fold (edge_step producers) [] (bindings_of ?cs) = Inr edges"
    using edges_run by blast
  have children: "children_of edges = fed_blocks config'"
    using edges_are_fed_blocks [OF p [folded signals] e] by (intro ext)
  have graph: "graph_of edges = signal_graph config"
    using signal_graph_reordered [OF order] by (simp add: graph_of_def signal_graph_def children)
  have acyclic: "acyclic (graph_of edges)" using wf by (simp add: graph runtime_config_wf_def)
  have fed: "\<And>x. set (children_of edges x) \<subseteq> bc_id ` set ?cs"
    "\<And>x. children_of edges x \<noteq> [] \<Longrightarrow> x \<in> bc_id ` set ?cs"
    using fed_blocks_ids [of config'] by (simp_all add: children)
  have detect: "detect_signal_cycle ?cs edges = Inr ()"
    using detect_signal_cycle_spec [OF fed] acyclic is_cycle_not_acyclic by blast
  have ne: "?cs \<noteq> []" using wf lengths(1) by (auto simp: runtime_config_wf_def)
  have "length (children_of edges x) * max_cascade_executions limits < 2 ^ 64 - 1" for x
  proof -
    have "length (fed_blocks config' x) \<le> length (bindings_of ?cs)" by (simp add: fed_blocks_def)
    also have "\<dots> \<le> max_signal_bindings limits" using wf lengths(2) by (simp add: runtime_config_wf_def)
    finally show ?thesis
      using mult_le_mono1 fit unfolding children by (blast intro: order_le_less_trans)
  qed
  note cascades_check = check_cascades_spec(1) [OF acyclic ne fed this]
  have "\<exists>n \<le> max_cascade_executions limits. cascades (children_of edges) (bc_id c) n" if "c \<in> set ?cs" for c
  proof -
    have "bc_id c \<in> bc_id ` set ?bs" using that ids by (metis image_eqI set_map)
    then obtain b where "b \<in> set ?bs" "bc_id b = bc_id c" by auto
    then obtain n where "n \<le> max_cascade_executions limits" "cascades (fed_blocks config) (bc_id c) n"
      using cascade_check_exact [OF fit] valid by metis
    then show ?thesis
      using cascades_reordered fed_blocks_reordered [OF order] unfolding children by blast
  qed
  then have cascades: "check_cascades edges ?cs limits = Inr ()" using cascades_check by blast
  show ?thesis
    using wf ne lengths blocks_ok p e detect cascades check_signals_ok [of "rc_signals config" "()"] sources
    by (simp add: runtime_config_validate_with_limits_def Let_def runtime_config_wf_def signals
        length_bindings_of [symmetric] not_less)
qed

end
