(* ===== verification/Host_Refinement.thy ===== *)
theory Host_Refinement
  imports Host_Build Host_Correctness Document_Correctness Config_Order
begin

text \<open>
  The desktop host's build refines the one of the runtime API: what the host accepts, the runtime API
  accepts with the same configuration and the same tables.  The proof runs both builds side by side, loop
  by loop.
\<close>

declare duration_unit.simps [simp del]

text \<open>
  Two loops over the same items, one of which can fail: as long as its errors do not go away, the
  relation is only needed for the steps that add none.
\<close>

lemma each_indexed_related:
  assumes step: "\<And>i x s t. x \<in> set xs \<Longrightarrow> clean (f i x s) \<Longrightarrow> clean s \<and> (R s t \<longrightarrow> R (f i x s) (g i x t))"
    and clean: "clean (each_indexed f xs s)"
  shows "clean s \<and> (R s t \<longrightarrow> R (each_indexed f xs s) (each_indexed g xs t))"
  using assms
proof (induction xs rule: rev_induct)
  case (snoc x xs)
  have last: "clean (each_indexed f xs s)"
    and step_last: "R (each_indexed f xs s) t' \<Longrightarrow> R (each_indexed f (xs @ [x]) s) (g (length xs) x t')" for t'
    using snoc.prems(1) [of x "length xs" "each_indexed f xs s" t'] snoc.prems(2) by simp_all
  have "clean s \<and> (R s t \<longrightarrow> R (each_indexed f xs s) (each_indexed g xs t))"
    by (rule snoc.IH) (use snoc.prems(1) last in auto)
  with step_last show ?case by simp
qed simp

lemma each_indexed_clean:
  assumes "\<And>i x s. x \<in> set xs \<Longrightarrow> clean (f i x s) \<Longrightarrow> clean s" and "clean (each_indexed f xs s)"
  shows "clean s"
  using each_indexed_related [of xs clean f "\<lambda>_ _. True" "\<lambda>_ _ _. ()" s "()"] assms by blast

subsection \<open>Signals\<close>

definition signals_related :: "host_signal_table \<Rightarrow> signal_table \<Rightarrow> bool" where
  "signals_related t t' \<longleftrightarrow>
     sgt_errors t' = [] \<and> sgt_dpts t' = hsg_dpts t \<and> sgt_signals t' = hsg_signals t"

lemma source_name_iff: "source_name path v = Inr n \<longleftrightarrow> n = v \<and> (\<exists>u. validate_endpoint_name v = Inr u)"
  by (auto simp: source_name_def read_endpoint_name_def endpoint_name_new_def map_err_def result_bind_def
      split: sum.splits if_splits)

lemma host_signal_step_related:
  assumes "hsg_errors (host_signal_step i s t) = []"
  shows "hsg_errors t = []
    \<and> (signals_related t t' \<longrightarrow> signals_related (host_signal_step i s t) (signal_step i s t'))"
proof -
  let ?path = "item_path ''signals'' i"
  obtain name d where name: "signal_name_new (as_name s) = Inr name" "signal_str name = as_name s"
    and d: "host_read_dpt (?path @ ''.dpt'') (as_dpt s) = Inr d" and fresh: "hsg_dpts t name = None"
    and clean: "hsg_errors t = []"
    using assms by (auto simp: host_signal_step_def Let_def split: sum.splits if_splits)
  have "source_name (?path @ ''.name'') (as_name s) = Inr (as_name s)" "name = SignalName (as_name s)"
    using name by (auto simp: source_name_iff signal_name_new_def result_simps)
  then show ?thesis
    using name d fresh clean d [unfolded host_read_dpt_iff]
    by (auto simp: host_signal_step_def signal_step_def signals_related_def Let_def)
qed

lemma host_read_signals_related:
  assumes "hsg_errors (host_read_signals signals) = []"
  shows "length signals \<le> api_max_signals \<and> signals_related (host_read_signals signals) (read_signals signals)"
proof -
  let ?start = "\<lparr>hsg_errors = (if api_max_signals < length signals
      then [host_field ''signals'' (''must contain at most '' @ decimal api_max_signals @ '' signals'')]
      else []), hsg_dpts = Map.empty, hsg_signals = []\<rparr>"
  from each_indexed_related [where clean = "\<lambda>t. hsg_errors t = []" and R = signals_related
      and f = host_signal_step and g = signal_step and s = ?start
      and t = "\<lparr>sgt_errors = [], sgt_dpts = Map.empty, sgt_signals = []\<rparr>", OF host_signal_step_related] assms
  show ?thesis by (auto simp: host_read_signals_def read_signals_def signals_related_def split: if_splits)
qed

subsection \<open>Endpoints\<close>

definition table_of :: "host_endpoint_table \<Rightarrow> endpoint_table" where
  "table_of t = \<lparr>et_errors = [], et_names = het_names t, et_dpts = het_dpts t,
     et_directions = het_directions t, et_endpoints = het_endpoints t\<rparr>"

lemma host_endpoint_step_related:
  assumes "het_errors (host_endpoint_step p direction i e t) = []"
  shows "het_errors t = []
    \<and> (t' = table_of t \<longrightarrow> endpoint_step p direction i e t' = table_of (host_endpoint_step p direction i e t))"
proof -
  let ?path = "item_path p i"
  obtain name d where name: "host_endpoint_name (?path @ ''.name'') (ae_name e) = Inr name"
    and d: "host_read_dpt (?path @ ''.dpt'') (ae_dpt e) = Inr d" and fresh: "name \<notin> het_names t"
    and clean: "het_errors t = []"
    using assms by (auto simp: host_endpoint_step_def Let_def split: sum.splits if_splits)
  then show ?thesis
    using name [unfolded host_endpoint_name_iff] d [unfolded host_read_dpt_iff]
    by (auto simp: host_endpoint_step_def endpoint_step_def table_of_def Let_def)
qed

lemma host_read_endpoints_related:
  assumes "het_errors (host_read_endpoints bp b) = []"
  shows "read_endpoints bp b = table_of (host_read_endpoints bp b)"
proof -
  have related: "het_errors t = [] \<and> (t' = table_of t \<longrightarrow>
      each_indexed (endpoint_step p direction) es t' = table_of (each_indexed (host_endpoint_step p direction) es t))"
    if "het_errors (each_indexed (host_endpoint_step p direction) es t) = []" for p direction es t t'
    using each_indexed_related [where clean = "\<lambda>t. het_errors t = []" and R = "\<lambda>t t'. t' = table_of t",
      OF host_endpoint_step_related that] .
  let ?empty = "\<lparr>het_errors = [], het_names = {}, het_dpts = Map.empty, het_directions = Map.empty,
    het_endpoints = []\<rparr>"
  let ?inputs = "each_indexed (host_endpoint_step (bp @ ''.inputs'') Input) (ab_inputs b) ?empty"
  have outputs: "het_errors ?inputs = [] \<and> (t' = table_of ?inputs \<longrightarrow>
      each_indexed (endpoint_step (bp @ ''.outputs'') Output) (ab_outputs b) t'
      = table_of (host_read_endpoints bp b))" for t'
    using related [of "bp @ ''.outputs''" Output "ab_outputs b" ?inputs t'] assms
    by (simp add: host_read_endpoints_def)
  then have "each_indexed (endpoint_step (bp @ ''.inputs'') Input) (ab_inputs b) (table_of ?empty)
      = table_of ?inputs"
    using related [of "bp @ ''.inputs''" Input "ab_inputs b" ?empty "table_of ?empty"] by simp
  with outputs show ?thesis by (simp add: read_endpoints_def table_of_def)
qed

subsection \<open>Bindings\<close>

definition api_routing :: "host_tables \<Rightarrow> routing" where
  "api_routing ts = (ht_routing ts)\<lparr>rg_signal_producers := dom (ht_producers ts)\<rparr>"

definition bindings_related :: "host_binding_state \<Rightarrow> binding_state \<Rightarrow> bool" where
  "bindings_related s s' \<longleftrightarrow>
     bst_errors s' = [] \<and> bst_routing s' = api_routing (hb_tables s) \<and> bst_addresses s' = hb_addresses s
     \<and> map_of (bst_signals s') = hb_signals s \<and> bst_externals s' = hb_externals s"

lemma bound_name_related:
  assumes "host_endpoint_name path v = Inr name" and "het_dpts t name = Some d"
  shows "bound_name (table_of t) v = Some (name, d)"
  using assms by (auto simp: host_endpoint_name_def bound_name_def table_of_def map_err_def split: sum.splits)

lemma table_of_fields [simp]:
  "et_dpts (table_of t) = het_dpts t" "et_directions (table_of t) = het_directions t"
  "et_endpoints (table_of t) = het_endpoints t" "et_errors (table_of t) = []"
  by (simp_all add: table_of_def)

lemma push_binding_errors [simp]: "hb_errors (push_binding e s) = hb_errors s @ [e]"
  by (simp add: push_binding_def)

lemma set_tables_errors [simp]: "hb_errors (set_tables ts s) = hb_errors s"
  by (simp add: set_tables_def)

text \<open>A step that adds no error finds everything it needs.\<close>

lemma host_knx_step_clean:
  assumes "hb_errors (host_knx_step bp x t i b s) = []"
  obtains name d a where "hb_errors s = []"
    "host_endpoint_name (item_path (bp @ ''.knx_bindings'') i @ ''.endpoint'') (kb_endpoint b) = Inr name"
    "het_dpts t name = Some d" "group_address_from_str (kb_group_address b) = Inr a"
    "hb_addresses s name = None" "a \<notin> hb_local s"
    "rg_address_dpts (ht_routing (hb_tables s)) a \<in> {None, Some d}"
    "host_knx_step bp x t i b s = host_add_address x t name d a s"
proof -
  note step = host_knx_step_def [of bp x t i b s, unfolded Let_def]
  from assms obtain name where name: "host_endpoint_name (item_path (bp @ ''.knx_bindings'') i @ ''.endpoint'')
      (kb_endpoint b) = Inr name"
    unfolding step by (auto split: sum.splits)
  with assms obtain d where d: "het_dpts t name = Some d" unfolding step by (auto split: option.splits)
  with assms name obtain a where a: "host_group_address_from_str (kb_group_address b) = Inr a"
    unfolding step by (auto split: sum.splits)
  have rest: "group_address_display a = kb_group_address b" "hb_addresses s name = None" "a \<notin> hb_local s"
    using assms name d a unfolding step by (auto split: if_splits)
  moreover have agree: "\<not> (case rg_address_dpts (ht_routing (hb_tables s)) a of
      None \<Rightarrow> False | Some prev \<Rightarrow> prev \<noteq> d)"
    using assms rest unfolding step name sum.case d option.case a by (auto split: if_splits)
  moreover have run: "host_knx_step bp x t i b s = host_add_address x t name d a s"
    unfolding step name sum.case d option.case a using rest agree by simp
  moreover have "hb_errors s = []" using assms unfolding run by (simp add: host_add_address_def Let_def)
  ultimately show thesis
    using name d a that by (auto simp: desktop_addresses_agree split: option.splits)
qed

lemma host_knx_step_related:
  assumes "hb_errors (host_knx_step bp x t i b s) = []"
  shows "hb_errors s = [] \<and> (bindings_related s s' \<longrightarrow>
    bindings_related (host_knx_step bp x t i b s) (knx_binding_step bp x (table_of t) i b s'))"
proof -
  from host_knx_step_clean [OF assms] obtain name d a where clean: "hb_errors s = []"
    and name: "host_endpoint_name (item_path (bp @ ''.knx_bindings'') i @ ''.endpoint'') (kb_endpoint b) = Inr name"
      "het_dpts t name = Some d"
    and a: "group_address_from_str (kb_group_address b) = Inr a"
    and fresh: "hb_addresses s name = None"
    and agree: "rg_address_dpts (ht_routing (hb_tables s)) a \<in> {None, Some d}"
    and host: "host_knx_step bp x t i b s = host_add_address x t name d a s" by metis
  have "bindings_related (host_add_address x t name d a s) (knx_binding_step bp x (table_of t) i b s')"
    if R: "bindings_related s s'"
  proof -
    have routing: "bst_routing s' = api_routing (hb_tables s)" "bst_addresses s' = hb_addresses s"
      using R by (simp_all add: bindings_related_def)
    then have "knx_binding_step bp x (table_of t) i b s' = add_address_binding x (table_of t) name d a s'"
      using bound_name_related [OF name] a fresh agree
      by (auto simp: knx_binding_step_def Let_def api_routing_def)
    with R routing show ?thesis
      by (auto simp: bindings_related_def add_address_binding_def host_add_address_def Let_def api_routing_def)
  qed
  with clean host show ?thesis by simp
qed

text \<open>The counters that the host advances before it reads a binding.\<close>

definition host_counted :: "host_binding_state \<Rightarrow> host_binding_state" where
  "host_counted s = set_tables ((hb_tables s)\<lparr>ht_routing := (ht_routing (hb_tables s))
     \<lparr>rg_signal_binding_count := rg_signal_binding_count (ht_routing (hb_tables s)) + 1\<rparr>\<rparr>) s"

lemma host_counted_fields [simp]:
  "hb_errors (host_counted s) = hb_errors s" "hb_addresses (host_counted s) = hb_addresses s"
  "hb_signals (host_counted s) = hb_signals s" "hb_externals (host_counted s) = hb_externals s"
  "ht_producers (hb_tables (host_counted s)) = ht_producers (hb_tables s)"
  by (simp_all add: host_counted_def set_tables_def)

lemma host_counted_related: "bindings_related s s' \<Longrightarrow> bindings_related (host_counted s) (counted s')"
  by (simp add: bindings_related_def host_counted_def counted_def set_tables_def set_routing_def
      api_routing_def)

lemma host_signal_step_clean:
  assumes "hb_errors (host_signal_binding_step bp x sd t i b s) = []"
  obtains path name d signal where "hb_errors s = []"
    "host_endpoint_name (item_path (bp @ ''.signal_bindings'') i @ ''.endpoint'') (dsb_endpoint b) = Inr name"
    "het_dpts t name = Some d" "signal_name_new (dsb_signal b) = Inr signal" "sd signal = Some d"
    "hb_addresses s name = None" "hb_signals s name = None"
    "host_signal_binding_step bp x sd t i b s = host_add_signal path x t name d signal (host_counted s)"
    "hb_errors (host_add_signal path x t name d signal (host_counted s)) = []"
proof -
  let ?path = "item_path (bp @ ''.signal_bindings'') i"
  have step: "host_signal_binding_step bp x sd t i b s =
      (case host_endpoint_name (?path @ ''.endpoint'') (dsb_endpoint b) of
        Inl e \<Rightarrow> push_binding e (host_counted s)
      | Inr name \<Rightarrow>
          (case het_dpts t name of
             None \<Rightarrow> push_binding (host_field (?path @ ''.endpoint'')
               ''must reference an existing endpoint in this block'') (host_counted s)
           | Some d \<Rightarrow>
               (case signal_name_new (dsb_signal b) of
                  Inl _ \<Rightarrow> push_binding (host_field (?path @ ''.signal'')
                    ''must reference an existing signal'') (host_counted s)
                | Inr signal \<Rightarrow>
                    (case sd signal of
                       None \<Rightarrow> push_binding (host_field (?path @ ''.signal'')
                         ''must reference an existing signal'') (host_counted s)
                     | Some sd \<Rightarrow>
                         if d \<noteq> sd
                         then push_binding (host_field (?path @ ''.signal'')
                           (''DPT conflicts with endpoint '' @ endpoint_str name)) (host_counted s)
                         else if hb_addresses (host_counted s) name \<noteq> None
                           \<or> hb_signals (host_counted s) name \<noteq> None
                         then push_binding (host_field (?path @ ''.endpoint'')
                           ''must have exactly one binding across KNX and signals'') (host_counted s)
                         else host_add_signal ?path x t name d signal (host_counted s)))))"
    by (simp only: host_signal_binding_step_def Let_def host_counted_def)
  have clean: "hb_errors (host_add_signal p x t name d signal u) = [] \<Longrightarrow> hb_errors u = []" for p name d signal u
    by (auto simp: host_add_signal_def Let_def set_tables_def split: option.splits endpoint_direction.splits)
  from assms obtain name where name: "host_endpoint_name (?path @ ''.endpoint'') (dsb_endpoint b) = Inr name"
    unfolding step by (auto split: sum.splits)
  with assms obtain d where d: "het_dpts t name = Some d" unfolding step by (auto split: option.splits)
  with assms name obtain signal where signal: "signal_name_new (dsb_signal b) = Inr signal"
    unfolding step by (auto split: sum.splits)
  with assms name d have sd: "sd signal = Some d" and fresh: "hb_addresses s name = None" "hb_signals s name = None"
    unfolding step by (auto split: option.splits if_splits)
  have "host_signal_binding_step bp x sd t i b s = host_add_signal ?path x t name d signal (host_counted s)"
    unfolding step using name d signal sd fresh by simp
  with name d signal sd fresh assms clean [of ?path name d signal "host_counted s"] show thesis
    by (intro that) simp_all
qed

lemma host_signal_binding_step_related:
  assumes "endpoint_table_ok (table_of t)" and "hb_errors (host_signal_binding_step bp x sd t i b s) = []"
  shows "hb_errors s = [] \<and> (bindings_related s s' \<longrightarrow>
    bindings_related (host_signal_binding_step bp x sd t i b s)
      (signal_binding_step bp x sd (table_of t) i b s'))"
proof -
  from host_signal_step_clean [OF assms(2)] obtain path name d signal where clean: "hb_errors s = []"
    and name: "host_endpoint_name (item_path (bp @ ''.signal_bindings'') i @ ''.endpoint'') (dsb_endpoint b)
        = Inr name" "het_dpts t name = Some d"
    and signal: "signal_name_new (dsb_signal b) = Inr signal" "sd signal = Some d"
    and fresh: "hb_addresses s name = None" "hb_signals s name = None"
    and host: "host_signal_binding_step bp x sd t i b s = host_add_signal path x t name d signal (host_counted s)"
    and added: "hb_errors (host_add_signal path x t name d signal (host_counted s)) = []" by metis
  obtain dir where dir: "het_directions t name = Some dir"
    using bound_name_endpoint [OF assms(1) bound_name_related [OF name]] by auto
  have "bindings_related (host_add_signal path x t name d signal (host_counted s))
      (signal_binding_step bp x sd (table_of t) i b s')" if R: "bindings_related s s'"
  proof -
    let ?p = "item_path (bp @ ''.signal_bindings'') i"
    have R': "bindings_related (host_counted s) (counted s')" by (rule host_counted_related [OF R])
    have new: "bst_addresses s' name = None" "name \<notin> fst ` set (bst_signals s')"
      using R fresh by (auto simp: bindings_related_def map_of_eq_None_iff [symmetric])
    have "signal_binding_step bp x sd (table_of t) i b s'
        = add_signal_binding ?p x (table_of t) name d signal (counted s')"
      using bound_name_related [OF name] signal new by (simp add: signal_binding_step_def Let_def counted_def)
    moreover have "signal \<notin> dom (ht_producers (hb_tables s))" if "dir = Output"
      using added dir that by (auto simp: host_add_signal_def Let_def split: option.splits)
    moreover have "map_of (bst_signals s' @ [(name, signal)]) = (map_of (bst_signals s'))(name \<mapsto> signal)"
    proof -
      have "map_of (bst_signals s') name = None" using new(2) by (simp add: map_of_eq_None_iff)
      then show ?thesis by (auto simp: map_add_def fun_eq_iff split: option.splits)
    qed
    ultimately show ?thesis
      using R' dir
      by (cases dir) (auto simp: bindings_related_def host_add_signal_def add_signal_binding_def Let_def
          set_tables_def set_routing_def api_routing_def split: option.splits)
  qed
  with clean host show ?thesis by simp
qed

definition external_counted :: "host_binding_state \<Rightarrow> host_binding_state" where
  "external_counted s =
     set_tables ((hb_tables s)\<lparr>ht_external_count := ht_external_count (hb_tables s) + 1\<rparr>) s"

lemma external_counted_fields [simp]:
  "hb_errors (external_counted s) = hb_errors s" "hb_addresses (external_counted s) = hb_addresses s"
  "hb_signals (external_counted s) = hb_signals s" "hb_externals (external_counted s) = hb_externals s"
  "ht_routing (hb_tables (external_counted s)) = ht_routing (hb_tables s)"
  "ht_producers (hb_tables (external_counted s)) = ht_producers (hb_tables s)"
  by (simp_all add: external_counted_def set_tables_def)

definition host_add_external ::
  "(block_external_input_binding \<Rightarrow> routing \<Rightarrow> routing) \<Rightarrow> block_id \<Rightarrow> endpoint_name \<Rightarrow> dpt \<Rightarrow> rstring
     \<Rightarrow> host_binding_state \<Rightarrow> host_binding_state" where
  "host_add_external add x name d source s =
     s\<lparr>hb_externals := (hb_externals s)(name \<mapsto> source),
       hb_tables := (hb_tables s)\<lparr>ht_routing := add
         \<lparr>bxb_block_id = x, bxb_endpoint = name, bxb_dpt = d, bxb_source = source\<rparr>
         (ht_routing (hb_tables s))\<rparr>\<rparr>"

lemma host_external_step_clean:
  assumes "hb_errors (host_external_step add known missing other p x sd t i b s) = []"
  obtains name d where "hb_errors s = []"
    "host_endpoint_name (item_path p i @ ''.endpoint'') (xb_endpoint b) = Inr name"
    "het_dpts t name = Some d" "het_directions t name = Some Input" "sd (xb_source b) = Some d"
    "known (xb_source b)" "hb_addresses s name = None" "hb_signals s name = None" "hb_externals s name = None"
    "host_external_step add known missing other p x sd t i b s
      = host_add_external add x name d (xb_source b) (external_counted s)"
proof -
  note step = host_external_step_def [of add known missing other p x sd t i b s, unfolded Let_def,
      folded external_counted_def]
  from assms obtain name where name: "host_endpoint_name (item_path p i @ ''.endpoint'') (xb_endpoint b) = Inr name"
    unfolding step by (auto split: sum.splits)
  with assms obtain d where d: "het_dpts t name = Some d" unfolding step by (auto split: option.splits)
  with assms name have dir: "het_directions t name = Some Input" unfolding step by (auto split: if_splits)
  then have source: "sd (xb_source b) = Some d"
    using assms name d unfolding step by (auto split: option.splits if_splits)
  have rest: "known (xb_source b)" "hb_addresses s name = None" "hb_signals s name = None"
    "hb_externals s name = None"
    using assms name d dir source unfolding step by (auto split: if_splits)
  have run: "host_external_step add known missing other p x sd t i b s
      = host_add_external add x name d (xb_source b) (external_counted s)"
    unfolding step using name d dir source rest by (simp add: host_add_external_def)
  then have "hb_errors s = []" using assms by (simp add: host_add_external_def)
  with name d dir source rest run show thesis by (intro that)
qed

text \<open>Recording a binding commutes with the change of the set of producers.\<close>

lemma host_external_step_related:
  assumes frame: "\<And>row rg producers. add row (rg\<lparr>rg_signal_producers := producers\<rparr>)
      = (add row rg)\<lparr>rg_signal_producers := producers\<rparr>"
    and clean: "hb_errors (host_external_step add known missing other p x sd t i b s) = []"
  shows "hb_errors s = [] \<and> (bindings_related s s' \<longrightarrow>
    bindings_related (host_external_step add known missing other p x sd t i b s)
      (external_binding_step add mismatch p x sd (table_of t) i b s'))"
proof -
  from host_external_step_clean [OF clean] obtain name d where errors: "hb_errors s = []"
    and name: "host_endpoint_name (item_path p i @ ''.endpoint'') (xb_endpoint b) = Inr name"
    and d: "het_dpts t name = Some d" "het_directions t name = Some Input" "sd (xb_source b) = Some d"
    and host: "host_external_step add known missing other p x sd t i b s
      = host_add_external add x name d (xb_source b) (external_counted s)" by metis
  have "bindings_related (host_add_external add x name d (xb_source b) (external_counted s))
      (external_binding_step add mismatch p x sd (table_of t) i b s')" if "bindings_related s s'"
    using that name [unfolded host_endpoint_name_iff] d
    by (auto simp: bindings_related_def external_binding_step_def Let_def host_add_external_def
        api_routing_def frame)
  with errors host show ?thesis by simp
qed

lemma host_http_step_related:
  assumes "hb_errors (host_http_step sources bp x t i b s) = []" and "src = hst_dpts sources"
  shows "hb_errors s = [] \<and> (bindings_related s s' \<longrightarrow>
    bindings_related (host_http_step sources bp x t i b s) (http_binding_step bp x src (table_of t) i b s'))"
  using assms(1) unfolding host_http_step_def http_binding_step_def assms(2)
  by (intro host_external_step_related) simp_all

lemma host_webhook_binding_step_related:
  assumes "hb_errors (host_webhook_binding_step sources bp x t i b s) = []" and "src = hst_dpts sources"
  shows "hb_errors s = [] \<and> (bindings_related s s' \<longrightarrow>
    bindings_related (host_webhook_binding_step sources bp x t i b s)
      (webhook_binding_step bp x src (table_of t) i b s'))"
  using assms(1) unfolding host_webhook_binding_step_def webhook_binding_step_def assms(2)
  by (intro host_external_step_related) simp_all

lemma unbound_errors_related:
  assumes "host_unbound_errors bp b es s = []" and "bindings_related s s'"
  shows "unbound_errors bp es s' = []"
proof -
  have "hb_signals s n = None \<longleftrightarrow> n \<notin> fst ` set (bst_signals s')" for n
    using assms(2) by (auto simp: bindings_related_def map_of_eq_None_iff [symmetric])
  with assms show ?thesis
    by (auto simp: host_unbound_errors_def unbound_errors_def filter_empty_conv bindings_related_def)
qed

lemma host_read_bindings_related:
  assumes clean: "hb_errors (host_read_bindings bp x sd sources t b ts) = []"
    and t: "endpoint_table_ok (table_of t)"
  shows "bindings_related (host_read_bindings bp x sd sources t b ts)
    (read_bindings bp x sd (hst_dpts sources) (table_of t) b (api_routing ts))"
proof -
  let ?clean = "\<lambda>s. hb_errors s = []"
  define s0 where "s0 = \<lparr>hb_errors = [], hb_tables = ts, hb_addresses = Map.empty, hb_local = {},
    hb_signals = Map.empty, hb_externals = Map.empty\<rparr>"
  define s1 where "s1 = each_indexed (host_knx_step bp x t) (ab_knx_bindings b) s0"
  define s2 where "s2 = each_indexed (host_signal_binding_step bp x sd t) (ab_signal_bindings b) s1"
  define s3 where "s3 = each_indexed (host_http_step sources bp x t) (ab_http_bindings b) s2"
  define s4 where "s4 = each_indexed (host_webhook_binding_step sources bp x t) (ab_webhook_bindings b) s3"
  define a0 where "a0 = \<lparr>bst_errors = [], bst_routing = api_routing ts, bst_addresses = Map.empty,
    bst_signals = [], bst_externals = Map.empty\<rparr>"
  define a1 where "a1 = each_indexed (knx_binding_step bp x (table_of t)) (ab_knx_bindings b) a0"
  define a2 where "a2 = each_indexed (signal_binding_step bp x sd (table_of t)) (ab_signal_bindings b) a1"
  define a3 where "a3 = each_indexed (http_binding_step bp x (hst_dpts sources) (table_of t)) (ab_http_bindings b) a2"
  define a4 where
    "a4 = each_indexed (webhook_binding_step bp x (hst_dpts sources) (table_of t)) (ab_webhook_bindings b) a3"
  have host: "host_read_bindings bp x sd sources t b ts
      = s4\<lparr>hb_errors := hb_errors s4 @ host_unbound_errors bp b (het_endpoints t) s4\<rparr>"
    by (simp add: host_read_bindings_def Let_def s0_def s1_def s2_def s3_def s4_def)
  have api: "read_bindings bp x sd (hst_dpts sources) (table_of t) b (api_routing ts)
      = a4\<lparr>bst_errors := bst_errors a4 @ unbound_errors bp (het_endpoints t) a4\<rparr>"
    by (simp add: read_bindings_def Let_def a0_def a1_def a2_def a3_def a4_def)
  have clean4: "?clean s4" and bound: "host_unbound_errors bp b (het_endpoints t) s4 = []"
    using clean by (simp_all add: host)
  have 4: "?clean s3 \<and> (bindings_related s3 a3 \<longrightarrow> bindings_related s4 a4)"
    unfolding s4_def a4_def
    by (rule each_indexed_related [where clean = ?clean and R = bindings_related,
          OF host_webhook_binding_step_related [OF _ refl]]) (simp_all add: clean4 [unfolded s4_def])
  then have 3: "?clean s2 \<and> (bindings_related s2 a2 \<longrightarrow> bindings_related s3 a3)"
    unfolding s3_def a3_def
    by (intro each_indexed_related [where clean = ?clean and R = bindings_related,
          OF host_http_step_related [OF _ refl]]) simp_all
  then have 2: "?clean s1 \<and> (bindings_related s1 a1 \<longrightarrow> bindings_related s2 a2)"
    unfolding s2_def a2_def
    by (intro each_indexed_related [where clean = ?clean and R = bindings_related,
          OF host_signal_binding_step_related [OF t]]) simp_all
  then have 1: "?clean s0 \<and> (bindings_related s0 a0 \<longrightarrow> bindings_related s1 a1)"
    unfolding s1_def a1_def
    by (intro each_indexed_related [where clean = ?clean and R = bindings_related,
          OF host_knx_step_related]) simp_all
  have "bindings_related s0 a0" by (simp add: bindings_related_def s0_def a0_def)
  with 1 2 3 4 have related: "bindings_related s4 a4" by blast
  with unbound_errors_related [OF bound related] show ?thesis
    unfolding host api by (simp add: bindings_related_def bound)
qed

text \<open>The signal bindings that the runtime API records are those of the document, in its order.\<close>

definition document_binding :: "document_signal_binding \<Rightarrow> endpoint_name \<times> signal_name" where
  "document_binding b = (EndpointName (dsb_endpoint b), SignalName (dsb_signal b))"

lemma signal_binding_step_recorded:
  assumes "bst_errors (signal_binding_step bp x sd t i b s) = []"
  shows "bst_signals (signal_binding_step bp x sd t i b s) = bst_signals s @ [document_binding b]
    \<and> bound_name t (dsb_endpoint b) \<noteq> None"
proof (cases "bound_name t (dsb_endpoint b)")
  case None
  with assms show ?thesis by (simp add: signal_binding_step_def Let_def)
next
  case (Some nd)
  obtain name d where nd: "nd = (name, d)" by (cases nd)
  with Some have name: "name = EndpointName (dsb_endpoint b)"
    by (auto simp: bound_name_def endpoint_name_new_def result_bind_def split: sum.splits)
  show ?thesis
  proof (cases "signal_name_new (dsb_signal b)")
    case (Inl e)
    with assms Some nd show ?thesis by (simp add: signal_binding_step_def Let_def)
  next
    case (Inr signal)
    then have signal: "signal = SignalName (dsb_signal b)" by (auto simp: signal_name_new_def result_simps)
    with assms Some nd Inr name show ?thesis
      by (auto simp: signal_binding_step_def Let_def document_binding_def add_signal_binding_fields(1)
          split: option.splits if_splits)
  qed
qed

lemma read_bindings_signals:
  assumes "bst_errors (read_bindings bp x sd src t b rg) = []"
  shows "bst_signals (read_bindings bp x sd src t b rg) = map document_binding (ab_signal_bindings b)
    \<and> (\<forall>c \<in> set (ab_signal_bindings b). bound_name t (dsb_endpoint c) \<noteq> None)"
proof -
  define s0 where "s0 = \<lparr>bst_errors = [], bst_routing = rg, bst_addresses = Map.empty, bst_signals = [],
    bst_externals = Map.empty\<rparr>"
  define s1 where "s1 = each_indexed (knx_binding_step bp x t) (ab_knx_bindings b) s0"
  define s2 where "s2 = each_indexed (signal_binding_step bp x sd t) (ab_signal_bindings b) s1"
  define s3 where "s3 = each_indexed (http_binding_step bp x src t) (ab_http_bindings b) s2"
  define s4 where "s4 = each_indexed (webhook_binding_step bp x src t) (ab_webhook_bindings b) s3"
  have s: "read_bindings bp x sd src t b rg
      = s4\<lparr>bst_errors := bst_errors s4 @ unbound_errors bp (et_endpoints t) s4\<rparr>"
    by (simp add: read_bindings_def Let_def s0_def s1_def s2_def s3_def s4_def)
  have frame: "external_frame s2 s4"
    unfolding s4_def s3_def by (rule external_frame_trans [OF http_bindings_frame webhook_bindings_frame])
  have "bst_signals s1 = []"
    unfolding s1_def
    by (rule each_indexed_invariant [where I = "\<lambda>_ s. bst_signals s = []"])
      (simp_all add: s0_def knx_binding_step_frame(1))
  moreover have "bst_errors s2 = [] \<longrightarrow> bst_signals s2 = bst_signals s1 @ map document_binding (ab_signal_bindings b)
      \<and> (\<forall>c \<in> set (ab_signal_bindings b). bound_name t (dsb_endpoint c) \<noteq> None)"
    unfolding s2_def
  proof (rule each_indexed_invariant [where I = "\<lambda>ys s. bst_errors s = [] \<longrightarrow>
        bst_signals s = bst_signals s1 @ map document_binding ys
        \<and> (\<forall>c \<in> set ys. bound_name t (dsb_endpoint c) \<noteq> None)"], goal_cases)
    case (2 ys y s)
    show ?case
    proof
      assume clean: "bst_errors (signal_binding_step bp x sd t (length ys) y s) = []"
      with 2(1) signal_binding_step_frame(3) [OF clean] signal_binding_step_recorded [OF clean]
      show "bst_signals (signal_binding_step bp x sd t (length ys) y s)
          = bst_signals s1 @ map document_binding (ys @ [y])
        \<and> (\<forall>c \<in> set (ys @ [y]). bound_name t (dsb_endpoint c) \<noteq> None)" by simp
    qed
  qed simp
  ultimately show ?thesis using frame assms by (simp add: s external_frame_def)
qed

subsection \<open>Schedules\<close>

text \<open>The host never drops a schedule without an error.\<close>

lemma duration_field_None: "parse_duration_field path t sign \<noteq> ([], None)"
  by (simp add: parse_duration_field_def split: option.splits)

lemma local_time_None: "host_parse_local_time path t \<noteq> ([], None)"
  by (auto simp: host_parse_local_time_def Let_def split: option.splits)

lemma weekdays_None: "host_weekdays path tokens \<noteq> ([], None)"
  by (auto simp: host_weekdays_def Let_def split: option.splits sum.splits prod.splits)

lemma anchor_None: "parse_anchor path t \<noteq> ([], None)"
  by (simp add: parse_anchor_def split: option.splits)

lemma host_fixed_rule_None: "host_fixed_rule s path \<noteq> ([], None)"
  using local_time_None [of "path @ ''.at''"] weekdays_None [of "path @ ''.weekdays''" "asc_weekdays s"]
  by (auto simp: host_fixed_rule_def required_field_def Let_def split: option.splits prod.splits)

lemma host_interval_rule_None: "host_interval_rule s path \<noteq> ([], None)"
  using duration_field_None [of "path @ ''.every''"] duration_field_None [of "path @ ''.offset''"]
  by (auto simp: host_interval_rule_def required_field_def Let_def split: option.splits prod.splits if_splits)

lemma host_astronomical_rule_None: "host_astronomical_rule s path \<noteq> ([], None)"
  using anchor_None [of "path @ ''.anchor''"] duration_field_None [of "path @ ''.offset''"]
  by (auto simp: host_astronomical_rule_def required_field_def Let_def
      split: option.splits prod.splits if_splits sum.splits)

lemma host_schedule_rule_None: "host_schedule_rule s path \<noteq> ([], None)"
  using host_fixed_rule_None [of s path] host_interval_rule_None [of s path]
    host_astronomical_rule_None [of s path]
  unfolding host_schedule_rule_def Let_def case_prod_beta
  by (auto simp: prod_eq_iff split: if_splits)

lemma host_schedule_step_related:
  assumes "fst (host_schedule_step bp i s acc) = []"
  shows "fst acc = [] \<and> (t = ([], snd (snd acc)) \<longrightarrow>
    read_schedule_step bp i s t = ([], snd (snd (host_schedule_step bp i s acc))))"
proof -
  let ?path = "item_path (bp @ ''.schedules'') i"
  obtain errors seen result where acc: "acc = (errors, seen, result)" by (rule prod_cases3)
  obtain name where name: "schedule_name_new (asc_name s) = Inr name"
    using assms by (cases "schedule_name_new (asc_name s)") (auto simp: host_schedule_step_def Let_def acc)
  obtain e rule where rule: "host_schedule_rule s ?path = (e, rule)" by (rule prod.exhaust)
  have clean: "errors = []" "e = []"
    using assms by (auto simp: host_schedule_step_def Let_def acc name rule)
  then obtain r where r: "rule = Some r" using host_schedule_rule_None [of s ?path] rule by (cases rule) auto
  then have "read_schedule_rule s ?path = ([], Some r)"
    using rule clean desktop_schedules_agree [of s ?path r] by simp
  with clean r show ?thesis
    by (simp add: host_schedule_step_def read_schedule_step_def Let_def acc name rule)
qed

lemma host_block_schedules_related:
  assumes "host_block_schedules (ab_schedules b) bp = ([], schedules)"
  shows "read_schedules bp desktop_limits b = ([], schedules)"
proof -
  let ?start = "(if 32 < length (ab_schedules b)
    then [host_field (bp @ ''.schedules'') (''must contain at most '' @ decimal 32 @ '' schedules'')] else [],
    {} :: schedule_name set, [] :: block_schedule list)"
  obtain names where loop: "each_indexed (host_schedule_step bp) (ab_schedules b) ?start = ([], names, schedules)"
    using assms by (auto simp: host_block_schedules_def split: prod.splits)
  note loops = each_indexed_related [where clean = "\<lambda>acc. fst acc = []" and R = "\<lambda>acc t. t = ([], snd (snd acc))"
      and f = "host_schedule_step bp" and g = "read_schedule_step bp" and s = ?start and t = "([], [])",
      OF host_schedule_step_related]
  have "fst ?start = [] \<and> (([], []) = ([] :: field_error list, snd (snd ?start)) \<longrightarrow>
      each_indexed (read_schedule_step bp) (ab_schedules b) ([], [])
      = ([], snd (snd (each_indexed (host_schedule_step bp) (ab_schedules b) ?start))))"
    by (rule loops, assumption, subst loop, rule fst_conv)
  then have "length (ab_schedules b) \<le> 32"
    and "each_indexed (read_schedule_step bp) (ab_schedules b) ([], []) = ([], schedules)"
    by (simp_all add: loop split: if_splits)
  then show ?thesis by (simp add: read_schedules_def desktop_limits_def)
qed

subsection \<open>Blocks\<close>

definition block_related :: "host_block_runtime \<Rightarrow> block_runtime \<Rightarrow> bool" where
  "block_related b b' \<longleftrightarrow>
     br_id b' = hbr_id b \<and> br_revision b' = hbr_revision b \<and> br_enabled b' = hbr_enabled b
     \<and> br_engine_config b' = hbr_engine_config b
     \<and> br_endpoint_to_address b' = hbr_endpoint_to_address b
     \<and> map_of (br_endpoint_to_signal b') = hbr_endpoint_to_signal b
     \<and> br_endpoint_to_external b' = hbr_endpoint_to_external b
     \<and> br_endpoint_dpts b' = hbr_endpoint_dpts b \<and> br_schedules b' = hbr_schedules b"

definition builds_related :: "host_build_state \<Rightarrow> build_state \<Rightarrow> bool" where
  "builds_related st st' \<longleftrightarrow>
     bd_errors st' = [] \<and> bd_ids st' = hbd_ids st \<and> list_all2 block_related (hbd_blocks st) (bd_blocks st')
     \<and> bd_routing st' = api_routing (hbd_tables st)"

lemma host_add_block_related:
  assumes clean: "hbd_errors (host_add_block env sd sources bp x b st) = []"
  shows "hbd_errors st = [] \<and> (builds_related st st' \<longrightarrow>
    builds_related (host_add_block env sd sources bp x b st)
      (add_block env desktop_limits sd (hst_dpts sources) bp x b st'))"
proof -
  let ?t = "host_read_endpoints bp b"
  let ?s = "host_read_bindings bp x sd sources ?t b (hbd_tables st)"
  let ?config = "\<lparr>ec_endpoints = het_endpoints ?t, ec_logic = logic_program_new (ab_source b)\<rparr>"
  obtain e schedules where schedules: "host_block_schedules (ab_schedules b) bp = (e, schedules)"
    by (rule prod.exhaust)
  note host = host_add_block_def [of env sd sources bp x b st, unfolded Let_def schedules prod.case]
  have parts: "hbd_errors st = []" "het_errors ?t = []" "host_source_errors bp (ab_source b) = []"
    "hb_errors ?s = []" "e = []"
    and engine: "(case engine_config_validate_with_limits (env_vm env) ?config desktop_limits of
        Inl e \<Rightarrow> [host_field_of (bp @ ''.source'') (HostEngine e)] | Inr _ \<Rightarrow> []) = []"
    using clean unfolding host by simp_all
  obtain u where valid: "engine_config_validate_with_limits (env_vm env) ?config desktop_limits = Inr u"
    using engine by (cases "engine_config_validate_with_limits (env_vm env) ?config desktop_limits") simp_all
  have t: "read_endpoints bp b = table_of ?t" by (rule host_read_endpoints_related [OF parts(2)])
  then have ok: "endpoint_table_ok (table_of ?t)" using read_endpoints_ok [of bp b] by simp
  have size: "source_size_errors bp desktop_limits (ab_source b) = []"
    using parts(3) by (simp add: host_source_errors_def source_size_errors_def desktop_limits_def
        host_max_logic_source_bytes_def split: if_splits)
  have read: "read_schedules bp desktop_limits b = ([], schedules)"
    by (rule host_block_schedules_related) (use schedules parts(5) in simp)
  have "builds_related (host_add_block env sd sources bp x b st)
      (add_block env desktop_limits sd (hst_dpts sources) bp x b st')" if "builds_related st st'"
  proof -
    have routing: "bd_routing st' = api_routing (hbd_tables st)" using that by (simp add: builds_related_def)
    note api = add_block_def [of env desktop_limits sd "hst_dpts sources" bp x b st', unfolded Let_def read
        prod.case t routing]
    from host_read_bindings_related [OF parts(4) ok] that size valid show ?thesis
      unfolding host api
      by (auto simp: builds_related_def bindings_related_def block_related_def intro!: list_all2_appendI)
  qed
  with parts(1) show ?thesis by blast
qed

lemma host_block_step_related:
  assumes "hbd_errors (host_block_step env sd sources i b st) = []"
  shows "hbd_errors st = [] \<and> (builds_related st st' \<longrightarrow>
    builds_related (host_block_step env sd sources i b st)
      (block_step env desktop_limits sd (hst_dpts sources) i b st'))"
proof -
  let ?bp = "item_path ''blocks'' i"
  obtain x where x: "block_id_new (ab_id b) = Inr x"
    using assms by (cases "block_id_new (ab_id b)") (auto simp: host_block_step_def Let_def)
  have fresh: "x \<notin> hbd_ids st" using assms by (auto simp: host_block_step_def Let_def x)
  let ?st = "st\<lparr>hbd_ids := insert x (hbd_ids st)\<rparr>" and ?st' = "st'\<lparr>bd_ids := insert x (bd_ids st')\<rparr>"
  have host: "host_block_step env sd sources i b st = host_add_block env sd sources ?bp x b ?st"
    using fresh by (simp add: host_block_step_def Let_def x)
  from host_add_block_related [OF assms [unfolded host], of ?st']
  have clean: "hbd_errors st = []" and related: "builds_related ?st ?st' \<Longrightarrow>
      builds_related (host_add_block env sd sources ?bp x b ?st)
        (add_block env desktop_limits sd (hst_dpts sources) ?bp x b ?st')" by simp_all
  moreover have "builds_related ?st ?st'" if "builds_related st st'" using that by (simp add: builds_related_def)
  moreover have "block_step env desktop_limits sd (hst_dpts sources) i b st'
      = add_block env desktop_limits sd (hst_dpts sources) ?bp x b ?st'" if "builds_related st st'"
    using that fresh by (simp add: block_step_def Let_def x builds_related_def)
  ultimately show ?thesis unfolding host by auto
qed

lemma host_read_blocks_related:
  assumes "hbd_errors (host_read_blocks env document signals sources) = []"
    and "sgt_dpts signals' = hsg_dpts signals" and "src_dpts sources' = hst_dpts sources"
  shows "builds_related (host_read_blocks env document signals sources)
    (read_blocks env desktop_limits document signals' sources')"
proof -
  let ?empty = "\<lparr>ht_routing = empty_routing, ht_origins = Map.empty, ht_producers = Map.empty, ht_external_count = 0\<rparr>"
  have "api_routing ?empty = empty_routing" by (simp add: api_routing_def empty_routing_def)
  with each_indexed_related [where clean = "\<lambda>st. hbd_errors st = []" and R = builds_related,
      OF host_block_step_related assms(1) [unfolded host_read_blocks_def],
      where t = "\<lparr>bd_errors = [], bd_ids = {}, bd_blocks = [], bd_routing = empty_routing\<rparr>"]
  show ?thesis unfolding host_read_blocks_def read_blocks_def assms(2,3) by (simp add: builds_related_def)
qed

subsection \<open>External sources\<close>

definition sources_related :: "host_source_table \<Rightarrow> source_table \<Rightarrow> bool" where
  "sources_related t t' \<longleftrightarrow> src_errors t' = [] \<and> src_dpts t' = hst_dpts t"

lemma push_source_fields [simp]:
  "hst_errors (push_source es t) = hst_errors t @ es" "hst_dpts (push_source es t) = hst_dpts t"
  by (simp_all add: push_source_def)

lemma count_source_fields [simp]:
  "hst_errors (count_source t) = hst_errors t" "hst_dpts (count_source t) = hst_dpts t"
  by (simp_all add: count_source_def)

lemma host_insert_source_clean:
  assumes "hst_errors (host_insert_source path name d t) = []"
  shows "hst_errors t = [] \<and> hst_dpts t name = None
    \<and> hst_dpts (host_insert_source path name d t) = (hst_dpts t)(name \<mapsto> d)"
  using assms by (auto simp: host_insert_source_def Let_def split: option.splits)

lemma host_pointer_clean:
  "fst (host_validate_pointer path p) = [] \<Longrightarrow> validate_pointer path' p = []"
  using desktop_pointers_agree [of path' p] host_validate_pointer_reports [of path p]
  by (simp add: host_validate_pointer_def split: if_splits)

lemma host_source_name_Some: "host_source_name path v = (e, Some n) \<Longrightarrow> source_name path v = Inr n"
  by (simp add: host_source_name_iff)

lemma host_poll_value_step_related:
  assumes "hst_errors (fst (host_poll_value_step path i v acc)) = []"
  shows "hst_errors (fst acc) = [] \<and> (sources_related (fst acc) (fst acc') \<longrightarrow>
    sources_related (fst (host_poll_value_step path i v acc)) (fst (poll_value_step path i v acc')))"
proof -
  let ?p = "item_path (path @ ''.values'') i"
  obtain t names vs where acc: "acc = (t, names, vs)" by (rule prod_cases3)
  obtain e n where name: "host_source_name (?p @ ''.name'') (hv_name v) = (e, n)" by (rule prod.exhaust)
  note host = host_poll_value_step_def [of path i v acc, unfolded Let_def acc prod.case name]
  show ?thesis
  proof (cases n)
    case None
    then have "e \<noteq> []" using name by (auto simp: host_source_name_def split: sum.splits if_splits)
    with assms None show ?thesis unfolding host acc by simp
  next
    case (Some m)
    then have new: "m \<notin> names" using assms unfolding host acc by (auto split: if_splits)
    with assms Some obtain d where d: "host_read_dpt (?p @ ''.dpt'') (hv_dpt v) = Inr d"
      unfolding host acc by (auto split: sum.splits)
    let ?t = "push_source (fst (host_validate_pointer (?p @ ''.json_pointer'') (hv_json_pointer v))) (count_source t)"
    have run: "host_poll_value_step path i v acc = (host_insert_source ?p m d ?t, insert m names,
        if hst_dpts ?t m \<noteq> None then vs
        else vs @ [\<lparr>hvr_name = m, hvr_dpt = d, hvr_json_pointer = hv_json_pointer v\<rparr>])"
      unfolding acc host using Some new d by simp
    have clean: "hst_errors (host_insert_source ?p m d ?t) = []" using assms unfolding run by simp
    from host_insert_source_clean [OF this] have t: "hst_errors t = []" "hst_dpts t m = None"
      "fst (host_validate_pointer (?p @ ''.json_pointer'') (hv_json_pointer v)) = []"
      "hst_dpts (host_insert_source ?p m d ?t) = (hst_dpts t)(m \<mapsto> d)"
      unfolding push_source_fields count_source_fields append_is_Nil_conv by blast+
    have "source_name (?p @ ''.name'') (hv_name v) = Inr m" "read_dpt (?p @ ''.dpt'') (hv_dpt v) = Inr d"
      using host_source_name_Some name Some d [unfolded host_read_dpt_iff] by auto
    then have "poll_value_step path i v acc'
        = (insert_source ?p m d ((fst acc')\<lparr>src_errors := src_errors (fst acc') @ []\<rparr>),
           snd acc' @ [\<lparr>hvr_name = m, hvr_dpt = d, hvr_json_pointer = hv_json_pointer v\<rparr>])"
      using host_pointer_clean [OF t(3)] by (simp add: poll_value_step_def Let_def)
    with t run show ?thesis by (auto simp: sources_related_def insert_source_def acc)
  qed
qed

lemma source_duration_Some:
  "parse_source_duration path v = (e, Some d) \<Longrightarrow> parse_duration v False \<noteq> None"
  by (auto simp: parse_source_duration_def parse_duration_field_def desktop_durations_agree
      split: option.splits)

lemma source_duration_None: "parse_source_duration path v = ([], None) \<Longrightarrow> False"
proof -
  assume none: "parse_source_duration path v = ([], None)"
  then obtain n where n: "parse_duration v False = Some n" "n < 0"
    by (auto simp: parse_source_duration_def parse_duration_field_def desktop_durations_agree
        split: option.splits if_splits)
  then obtain hours minutes seconds where "n = duration_value hours minutes seconds"
    unfolding parse_duration_grammar by blast
  then show False using n(2) amount_nonneg [of hours] amount_nonneg [of minutes] amount_nonneg [of seconds]
    by (simp add: duration_value_def)
qed

lemma timeout_duration_Some:
  "parse_timeout_duration path v = (e, Some d) \<Longrightarrow> poll_timeout v \<noteq> None"
  using source_duration_Some
  by (fastforce simp: parse_timeout_duration_def poll_timeout_def Let_def split: option.splits if_splits prod.splits)

lemma timeout_duration_path:
  "snd (parse_timeout_duration path v) = snd (parse_timeout_duration path' v)"
  by (auto simp: parse_timeout_duration_def Let_def parse_source_duration_def parse_duration_field_def
      split: option.splits prod.splits)

lemma host_poll_durations_clean:
  assumes "host_poll_durations path poll = ([], every, timeout, stale_after)"
    and "snd (parse_timeout_duration path (hp_timeout poll)) \<noteq> None"
  shows "parse_duration (hp_every poll) False \<noteq> None \<and> poll_timeout (hp_timeout poll) \<noteq> None
    \<and> parse_duration (hp_stale_after poll) False \<noteq> None"
proof -
  obtain e1 d1 where 1: "parse_source_duration (path @ ''.every'') (hp_every poll) = (e1, d1)" by (rule prod.exhaust)
  obtain e2 d2 where 2: "parse_timeout_duration (path @ ''.timeout'') (hp_timeout poll) = (e2, d2)"
    by (rule prod.exhaust)
  obtain e3 d3 where 3: "parse_source_duration (path @ ''.stale_after'') (hp_stale_after poll) = (e3, d3)"
    by (rule prod.exhaust)
  have "e1 = []" "e3 = []" using assms(1) by (auto simp: host_poll_durations_def Let_def 1 2 3)
  then have "d1 \<noteq> None" "d3 \<noteq> None" using source_duration_None 1 3 by metis+
  moreover have "d2 \<noteq> None" using timeout_duration_path [of path _ "path @ ''.timeout''"] assms(2) 2 by auto
  ultimately show ?thesis
    using source_duration_Some [of "path @ ''.every''"] source_duration_Some [of "path @ ''.stale_after''"]
      timeout_duration_Some [of "path @ ''.timeout''"] 1 2 3 by blast
qed

definition poll_comparable :: "http_poll \<Rightarrow> bool" where
  "poll_comparable poll \<longleftrightarrow>
     url_ok (hp_url poll) \<and> snd (parse_timeout_duration [] (hp_timeout poll)) \<noteq> None"

lemma host_source_name_clean: "host_source_name path v = (e, None) \<Longrightarrow> e \<noteq> []"
  by (auto simp: host_source_name_def split: sum.splits if_splits)

lemma host_poll_step_related:
  assumes comparable: "poll_comparable poll" and clean: "hst_errors (host_poll_step hs i poll t) = []"
  shows "hst_errors t = [] \<and> (sources_related t t' \<longrightarrow>
    sources_related (host_poll_step hs i poll t) (http_poll_step i poll t'))"
proof -
  let ?path = "item_path ''http_polls'' i"
  obtain e n where name: "host_source_name (?path @ ''.name'') (hp_name poll) = (e, n)" by (rule prod.exhaust)
  obtain de every timeout stale where durations: "host_poll_durations ?path poll = (de, every, timeout, stale)"
    by (rule prod_cases4)
  obtain he hns hvs where headers: "each_indexed (host_header_step hs ?path) (hp_headers poll)
      (if max_http_headers < length (hp_headers poll)
       then [host_field (?path @ ''.headers'')
         (''must contain at most '' @ decimal max_http_headers @ '' headers'')] else [], {}, []) = (he, hns, hvs)"
    by (rule prod_cases3)
  note host = host_poll_step_def [of hs i poll t, unfolded Let_def name durations headers prod.case]
  show ?thesis
  proof (cases n)
    case None
    with clean host_source_name_clean name show ?thesis unfolding host by auto
  next
    case (Some m)
    have "\<exists>t1. host_poll_step hs i poll t =
        (case each_indexed (host_poll_value_step ?path) (hp_values poll) (t1, {}, []) of
           (t, _, values) \<Rightarrow>
             (case every of None \<Rightarrow> t | Some every \<Rightarrow>
             (case timeout of None \<Rightarrow> t | Some timeout \<Rightarrow>
             (case stale of None \<Rightarrow> t | Some stale_after \<Rightarrow>
                  t\<lparr>hst_polls := hst_polls t
                    @ [\<lparr>hpr_name = m, hpr_url = hp_url poll, hpr_every = every, hpr_timeout = timeout,
                        hpr_stale_after = stale_after, hpr_headers = hvs, hpr_values = values\<rparr>]\<rparr>))))
        \<and> (hst_errors t1 = [] \<longrightarrow> hst_errors t = [] \<and> de = []) \<and> hst_dpts t1 = hst_dpts t"
      unfolding host Some option.case by (intro exI conjI, rule refl) simp_all
    then obtain t1 where run: "host_poll_step hs i poll t =
        (case each_indexed (host_poll_value_step ?path) (hp_values poll) (t1, {}, []) of
           (t, _, values) \<Rightarrow>
             (case every of None \<Rightarrow> t | Some every \<Rightarrow>
             (case timeout of None \<Rightarrow> t | Some timeout \<Rightarrow>
             (case stale of None \<Rightarrow> t | Some stale_after \<Rightarrow>
                  t\<lparr>hst_polls := hst_polls t
                    @ [\<lparr>hpr_name = m, hpr_url = hp_url poll, hpr_every = every, hpr_timeout = timeout,
                        hpr_stale_after = stale_after, hpr_headers = hvs, hpr_values = values\<rparr>]\<rparr>))))"
      and t1: "hst_errors t1 = [] \<longrightarrow> hst_errors t = [] \<and> de = []" "hst_dpts t1 = hst_dpts t" by blast
    obtain t2 ns vs where vals: "each_indexed (host_poll_value_step ?path) (hp_values poll) (t1, {}, [])
        = (t2, ns, vs)" by (rule prod_cases3)
    have final: "hst_errors (host_poll_step hs i poll t) = hst_errors t2"
      "hst_dpts (host_poll_step hs i poll t) = hst_dpts t2"
      unfolding run vals prod.case by (simp_all split: option.split)
    have related: "hst_errors t1 = [] \<and> (sources_related t1 u \<longrightarrow>
        sources_related t2 (fst (each_indexed (poll_value_step ?path) (hp_values poll) (u, []))))" for u
      using each_indexed_related [where clean = "\<lambda>acc. hst_errors (fst acc) = []"
          and R = "\<lambda>acc acc'. sources_related (fst acc) (fst acc')" and xs = "hp_values poll"
          and f = "host_poll_value_step ?path" and g = "poll_value_step ?path"
          and s = "(t1, {}, [])" and t = "(u, [])", OF host_poll_value_step_related [where path = ?path]]
        clean final(1) vals by simp
    have ok: "hst_errors t = []" "de = []" using related t1(1) by blast+
    have valid: "parse_duration (hp_every poll) False \<noteq> None" "poll_timeout (hp_timeout poll) \<noteq> None"
      "parse_duration (hp_stale_after poll) False \<noteq> None"
      using host_poll_durations_clean [OF durations [unfolded ok(2)]] comparable
        timeout_duration_path [of "[]" "hp_timeout poll" ?path] by (simp_all add: poll_comparable_def)
    have "source_name (?path @ ''.name'') (hp_name poll) = Inr m"
      using name Some by (auto intro: host_source_name_Some)
    moreover obtain u api_values where "each_indexed (poll_value_step ?path) (hp_values poll) (t', [])
        = (u, api_values)" by (rule prod.exhaust)
    ultimately have "\<exists>f. http_poll_step i poll t'
        = (fst (each_indexed (poll_value_step ?path) (hp_values poll) (t', [])))\<lparr>src_polls := f\<rparr>"
      using valid comparable by (auto simp: http_poll_step_def Let_def poll_comparable_def)
    with related [of t'] ok t1(2) final show ?thesis by (auto simp: sources_related_def)
  qed
qed

lemma host_webhook_step_related:
  assumes clean: "hst_errors (host_webhook_step hs i w t) = []"
  shows "hst_errors t = [] \<and> (sources_related t t' \<longrightarrow>
    sources_related (host_webhook_step hs i w t) (webhook_input_step i w t'))"
proof -
  let ?path = "item_path ''webhook_inputs'' i"
  obtain e n where name: "host_source_name (?path @ ''.name'') (wi_name w) = (e, n)" by (rule prod.exhaust)
  obtain te token where token: "host_bearer_token hs ?path (wi_bearer_token_env w) = (te, token)"
    by (rule prod.exhaust)
  note host = host_webhook_step_def [of hs i w t, unfolded Let_def name token prod.case]
  show ?thesis
  proof (cases n)
    case None
    with clean host_source_name_clean name show ?thesis unfolding host by auto
  next
    case (Some m)
    with clean obtain d where d: "host_read_dpt (?path @ ''.dpt'') (wi_dpt w) = Inr d"
      unfolding host by (auto split: sum.splits)
    let ?t = "count_source (push_source te (push_source
      (fst (host_validate_pointer (?path @ ''.json_pointer'') (wi_json_pointer w))) t))"
    have run: "hst_errors (host_webhook_step hs i w t) = hst_errors (host_insert_source ?path m d ?t)"
      "hst_dpts (host_webhook_step hs i w t) = hst_dpts (host_insert_source ?path m d ?t)"
      unfolding host Some option.case d sum.case by simp_all
    from host_insert_source_clean [OF clean [unfolded run]]
    have t: "hst_errors t = []" "hst_dpts t m = None"
      "fst (host_validate_pointer (?path @ ''.json_pointer'') (wi_json_pointer w)) = []"
      "hst_dpts (host_insert_source ?path m d ?t) = (hst_dpts t)(m \<mapsto> d)"
      unfolding push_source_fields count_source_fields append_is_Nil_conv by blast+
    have "source_name (?path @ ''.name'') (wi_name w) = Inr m" "read_dpt (?path @ ''.dpt'') (wi_dpt w) = Inr d"
      using host_source_name_Some name Some d [unfolded host_read_dpt_iff] by auto
    then have "\<exists>u. webhook_input_step i w t'
        = (insert_source ?path m d (t'\<lparr>src_errors := src_errors t' @ []\<rparr>))\<lparr>src_webhooks := u\<rparr>"
      using host_pointer_clean [OF t(3)] by (auto simp: webhook_input_step_def Let_def)
    with t run show ?thesis by (auto simp: sources_related_def insert_source_def)
  qed
qed

lemma host_read_sources_related:
  assumes polls: "\<forall>poll \<in> set (ad_http_polls document). poll_comparable poll"
    and clean: "hst_errors (host_read_sources hs document) = []"
  shows "sources_related (host_read_sources hs document) (read_sources document)"
proof -
  let ?few = "length (ad_http_polls document) + length (ad_webhook_inputs document) \<le> max_external_sources"
  define start where "start = \<lparr>hst_errors =
      (if max_external_sources < length (ad_http_polls document) + length (ad_webhook_inputs document)
       then [host_field ''http_polls''
         (''http_polls plus webhook_inputs must contain at most '' @ decimal max_external_sources
           @ '' sources'')]
       else []), hst_dpts = Map.empty, hst_keys = [], hst_names = {}, hst_count = 0, hst_polls = [],
      hst_webhooks = []\<rparr>"
  let ?polls = "each_indexed (host_poll_step hs) (ad_http_polls document) start"
  have host: "host_read_sources hs document
      = each_indexed (host_webhook_step hs) (ad_webhook_inputs document) ?polls"
    by (simp add: host_read_sources_def start_def)
  let ?empty = "\<lparr>src_errors = [], src_dpts = Map.empty, src_polls = [], src_webhooks = []\<rparr>"
  have webhooks: "hst_errors ?polls = [] \<and> (sources_related ?polls u \<longrightarrow>
      sources_related (host_read_sources hs document)
        (each_indexed webhook_input_step (ad_webhook_inputs document) u))" for u
    unfolding host
    by (rule each_indexed_related [where clean = "\<lambda>t. hst_errors t = []" and R = sources_related,
          OF host_webhook_step_related]) (simp_all add: clean [unfolded host])
  have step: "hst_errors t = [] \<and> (sources_related t t' \<longrightarrow>
      sources_related (host_poll_step hs i poll t) (http_poll_step i poll t'))"
    if "poll \<in> set (ad_http_polls document)" "hst_errors (host_poll_step hs i poll t) = []" for i poll t t'
    using host_poll_step_related polls that by blast
  have "hst_errors start = [] \<and> (sources_related start ?empty \<longrightarrow>
      sources_related ?polls (each_indexed http_poll_step (ad_http_polls document) ?empty))"
    by (rule each_indexed_related [where clean = "\<lambda>t. hst_errors t = []" and R = sources_related, OF step])
      (use webhooks in simp_all)
  moreover have "sources_related start ?empty" by (simp add: sources_related_def start_def)
  ultimately have few: "?few" and polls_related: "sources_related ?polls
      (each_indexed http_poll_step (ad_http_polls document) ?empty)"
    by (simp_all add: start_def split: if_splits)
  then show ?thesis using webhooks by (simp add: read_sources_def not_less [symmetric])
qed

subsection \<open>The build\<close>

lemma those_map_Some: "(\<And>x. x \<in> set xs \<Longrightarrow> f x = Some (g x)) \<Longrightarrow> those (map f xs) = Some (map g xs)"
  by (induction xs) simp_all

lemma those_list_all2:
  "list_all2 (\<lambda>x y. f x = Some (g y)) xs ys \<Longrightarrow> those (map f xs) = Some (map g ys)"
  by (induction rule: list_all2_induct) simp_all

text \<open>What a block of a build has to do with its block of the document.\<close>

definition block_of_document :: "document_block \<Rightarrow> block_runtime \<Rightarrow> bool" where
  "block_of_document d b \<longleftrightarrow>
     br_id b = BlockId (ab_id d) \<and> br_endpoint_to_signal b = map document_binding (ab_signal_bindings d)
     \<and> (\<forall>c \<in> set (ab_signal_bindings d). \<exists>e \<in> set (ec_endpoints (br_engine_config b)).
          ep_name e = EndpointName (dsb_endpoint c))"

lemma block_step_of_document:
  assumes "bd_errors (block_step env limits sd src i d st) = []"
  shows "bd_errors st = [] \<and> (\<exists>b. bd_blocks (block_step env limits sd src i d st) = bd_blocks st @ [b]
    \<and> block_of_document d b)"
proof -
  obtain x where x: "block_id_new (ab_id d) = Inr x"
    using assms by (cases "block_id_new (ab_id d)") (auto simp: block_step_def Let_def)
  then have id: "x = BlockId (ab_id d)" by (auto simp: block_id_new_def result_simps)
  let ?bp = "item_path ''blocks'' i" and ?st = "st\<lparr>bd_ids := insert x (bd_ids st)\<rparr>"
  have run: "block_step env limits sd src i d st = add_block env limits sd src ?bp x d ?st"
    using assms by (auto simp: block_step_def Let_def x split: if_splits)
  let ?t = "read_endpoints ?bp d"
  let ?s = "read_bindings ?bp x sd src ?t d (bd_routing ?st)"
  note fields = add_block_fields [of env limits sd src ?bp x d ?st]
  from fields(4) assms run have clean: "bd_errors st = []" "bst_errors ?s = []" by auto
  obtain b where b: "bd_blocks (block_step env limits sd src i d st) = bd_blocks st @ [b]" "br_id b = x"
    "ec_endpoints (br_engine_config b) = et_endpoints ?t" "br_endpoint_to_signal b = bst_signals ?s"
    using fields(1) run by auto
  from read_bindings_signals [OF clean(2)]
  have signals: "bst_signals ?s = map document_binding (ab_signal_bindings d)"
    and bound: "\<forall>c \<in> set (ab_signal_bindings d). bound_name ?t (dsb_endpoint c) \<noteq> None" by blast+
  have "\<exists>e \<in> set (et_endpoints ?t). ep_name e = EndpointName (dsb_endpoint c)"
    if "c \<in> set (ab_signal_bindings d)" for c
  proof -
    from that bound obtain n dpt where n: "bound_name ?t (dsb_endpoint c) = Some (n, dpt)" by force
    then have "n = EndpointName (dsb_endpoint c)"
      by (auto simp: bound_name_def endpoint_name_new_def result_bind_def split: sum.splits)
    with bound_name_endpoint [OF read_endpoints_ok n] show ?thesis by metis
  qed
  with b signals id clean(1) show ?thesis by (auto simp: block_of_document_def)
qed

lemma read_blocks_of_document:
  assumes "bd_errors (read_blocks env limits document signals sources) = []"
  shows "list_all2 block_of_document (ad_blocks document)
    (bd_blocks (read_blocks env limits document signals sources))"
proof -
  have "bd_errors (read_blocks env limits document signals sources) = [] \<longrightarrow>
      list_all2 block_of_document (ad_blocks document)
        (bd_blocks (read_blocks env limits document signals sources))"
    unfolding read_blocks_def
  proof (rule each_indexed_invariant [where I = "\<lambda>ys st. bd_errors st = [] \<longrightarrow>
        list_all2 block_of_document ys (bd_blocks st)"], goal_cases)
    case (2 ys y st)
    then show ?case
      using block_step_of_document [of env limits "sgt_dpts signals" "src_dpts sources" "length ys" y st]
      by (auto intro!: list_all2_appendI)
  qed simp
  with assms show ?thesis by blast
qed

lemma find_unique:
  assumes "distinct (map f xs)" and "x \<in> set xs"
  shows "find (\<lambda>y. f y = f x) xs = Some x"
  using assms by (induction xs) force+

text \<open>The services of a run in which the runtime API iterates the signal bindings in their order.\<close>

definition in_order :: "document_services \<Rightarrow> document_services" where
  "in_order ds = ds\<lparr>ds_hash_order := (\<lambda>_ bindings. bindings)\<rparr>"

lemma host_core_block_related:
  assumes d: "d \<in> set (ad_blocks document)" "block_of_document d b" and related: "block_related hb b"
    and ids: "distinct (map ab_id (ad_blocks document))"
    and keys: "distinct (map fst (br_endpoint_to_signal b))"
  shows "host_core_block document hb = Some (core_block_of (in_order ds) i b)"
proof -
  have id: "block_str (hbr_id hb) = ab_id d"
  proof -
    have "br_id b = BlockId (ab_id d)" using d(2) by (simp add: block_of_document_def)
    moreover have "br_id b = hbr_id hb" using related by (simp add: block_related_def)
    ultimately show ?thesis by (metis block_id.sel)
  qed
  have found: "find (\<lambda>c. ab_id c = block_str (hbr_id hb)) (ad_blocks document) = Some d"
    using find_unique [OF ids d(1)] unfolding id .
  have binding: "host_signal_binding hb c
      = Some \<lparr>sb_endpoint = EndpointName (dsb_endpoint c), sb_signal = SignalName (dsb_signal c)\<rparr>"
    if c: "c \<in> set (ab_signal_bindings d)" for c
  proof -
    let ?find = "find (\<lambda>e. endpoint_str (ep_name e) = dsb_endpoint c) (ec_endpoints (hbr_engine_config hb))"
    obtain e where "e \<in> set (ec_endpoints (hbr_engine_config hb))" "ep_name e = EndpointName (dsb_endpoint c)"
      using d(2) related c by (auto simp: block_of_document_def block_related_def)
    then have "?find \<noteq> None" unfolding find_None_iff by force
    then obtain e' where e': "?find = Some e'" by auto
    then have "endpoint_str (ep_name e') = dsb_endpoint c" unfolding find_Some_iff by auto
    then have name: "ep_name e' = EndpointName (dsb_endpoint c)" by (cases "ep_name e'") simp
    have "document_binding c \<in> set (br_endpoint_to_signal b)"
      using c d(2) by (auto simp: block_of_document_def)
    then have "hbr_endpoint_to_signal hb (EndpointName (dsb_endpoint c)) = Some (SignalName (dsb_signal c))"
      using map_of_is_SomeI [OF keys] related by (simp add: document_binding_def block_related_def)
    with e' name show ?thesis by (simp add: host_signal_binding_def)
  qed
  then have "those (map (host_signal_binding hb) (ab_signal_bindings d)) = Some (map
      (\<lambda>c. \<lparr>sb_endpoint = EndpointName (dsb_endpoint c), sb_signal = SignalName (dsb_signal c)\<rparr>)
      (ab_signal_bindings d))"
    by (rule those_map_Some)
  then show ?thesis
    using related d(2) found
    by (simp add: host_core_block_def core_block_of_def in_order_def block_related_def block_of_document_def
        document_binding_def)
qed

lemma host_core_config_related:
  assumes blocks: "list_all2 block_related hbs bs" and document: "list_all2 block_of_document (ad_blocks document) bs"
    and ids: "distinct (map br_id bs)"
    and keys: "\<forall>b \<in> set bs. distinct (map fst (br_endpoint_to_signal b))"
  shows "host_core_config document hbs signals = Some (core_config_of (in_order ds) bs signals)"
proof -
  have "map br_id bs = map (\<lambda>d. BlockId (ab_id d)) (ad_blocks document)"
    using document by (induction rule: list_all2_induct) (simp_all add: block_of_document_def)
  then have "distinct (map BlockId (map ab_id (ad_blocks document)))" using ids by (simp add: comp_def)
  then have docs: "distinct (map ab_id (ad_blocks document))" by (simp only: distinct_map)
  have "map (host_core_block document) hbs
      = map (\<lambda>(i, b). Some (core_block_of (in_order ds) i b)) (List.enumerate 0 bs)"
  proof (rule nth_equalityI)
    show "length (map (host_core_block document) hbs)
        = length (map (\<lambda>(i, b). Some (core_block_of (in_order ds) i b)) (List.enumerate 0 bs))"
      using list_all2_lengthD [OF blocks] by simp
  next
    fix i assume "i < length (map (host_core_block document) hbs)"
    then have i: "i < length hbs" "i < length bs" "i < length (ad_blocks document)"
      using list_all2_lengthD [OF blocks] list_all2_lengthD [OF document] by simp_all
    have "host_core_block document (hbs ! i) = Some (core_block_of (in_order ds) i (bs ! i))"
      by (rule host_core_block_related [OF nth_mem [OF i(3)]])
        (use i blocks document docs keys in \<open>simp_all add: list_all2_conv_all_nth\<close>)
    with i show "map (host_core_block document) hbs ! i
        = map (\<lambda>(i, b). Some (core_block_of (in_order ds) i b)) (List.enumerate 0 bs) ! i"
      by (simp add: nth_enumerate_eq)
  qed
  then have "those (map (host_core_block document) hbs)
      = Some (map (\<lambda>(i, b). core_block_of (in_order ds) i b) (List.enumerate 0 bs))"
    using those_map_Some [of "List.enumerate 0 bs" "\<lambda>(i, b). Some (core_block_of (in_order ds) i b)"
        "\<lambda>(i, b). core_block_of (in_order ds) i b"] by (simp add: case_prod_beta)
  then show ?thesis by (simp add: host_core_config_def core_config_of_def)
qed

text \<open>What an accepted document was checked for.\<close>

lemma host_build_accepted:
  assumes "host_build_automation_with_limits env hs document limits = Some (Inr a)"
  defines "signals \<equiv> host_read_signals (ad_signals document)"
  defines "sources \<equiv> host_read_sources hs document"
  defines "st \<equiv> host_read_blocks env document signals sources"
  shows "host_document_errors hs document signals sources st = []"
    and "host_core_config document (hbd_blocks st) (hsg_signals signals) = Some (hau_core_config a)"
    and "runtime_config_validate_with_limits env (hau_core_config a) limits = Inr ()"
    and "hau_blocks a = hbd_blocks st" and "hau_routing a = ht_routing (hbd_tables st)"
    and "hau_signals a = hsg_signals signals" and "hau_document a = document"
    and "hau_structural_revision a = document_structural_revision (hs_document hs) document"
  using assms(1) unfolding host_build_automation_with_limits_def Let_def signals_def sources_def st_def
  by (auto split: if_splits option.splits sum.splits runtime_config_error.splits)

lemma host_document_errors_Nil:
  assumes "host_document_errors hs document signals sources st = []"
  shows "feature_errors (hs_document hs) document = []" and "hsg_errors signals = []"
    and "hst_errors sources = []" and "block_count_errors document = []" and "hbd_errors st = []"
    and "rg_signal_binding_count (ht_routing (hbd_tables st)) \<le> api_max_signal_bindings"
  using assms by (simp_all add: host_document_errors_def split: if_splits)

lemma feature_errors_Nil:
  "feature_errors ds document = [] \<Longrightarrow> capability_errors (capabilities_desktop env ds) document = []"
  by (auto simp: feature_errors_def capability_errors_def capabilities_desktop_def split: if_splits)

text \<open>A hash map is iterated in some order, in which every entry occurs once.\<close>

definition iterates_entries :: "document_services \<Rightarrow> bool" where
  "iterates_entries ds \<longleftrightarrow> (\<forall>i bindings. mset (ds_hash_order ds i bindings) = mset bindings)"

lemma core_config_reordered:
  assumes "iterates_entries ds"
  shows "reordered (core_config_of (in_order ds) bs sigs) (core_config_of ds bs sigs)"
proof -
  have "same_but_order (core_block_of (in_order ds) i b) (core_block_of ds i b)" for i b
    using assms by (simp add: same_but_order_def core_block_of_def in_order_def iterates_entries_def)
  then show ?thesis
    by (simp add: reordered_def core_config_of_def list_all2_conv_all_nth case_prod_beta)
qed

lemma host_blocks_built:
  assumes "host_build_automation_with_limits env hs document limits = Some (Inr a)"
    and "src_dpts sources = hst_dpts (host_read_sources hs document)"
  shows "\<exists>st. st = read_blocks env desktop_limits document (read_signals (ad_signals document)) sources
    \<and> bd_errors st = [] \<and> list_all2 block_related (hau_blocks a) (bd_blocks st)
    \<and> (\<exists>ts. bd_routing st = api_routing ts \<and> ht_routing ts = hau_routing a)"
proof -
  note accepted = host_build_accepted [OF assms(1)]
  note errors = host_document_errors_Nil [OF accepted(1)]
  have "sgt_dpts (read_signals (ad_signals document)) = hsg_dpts (host_read_signals (ad_signals document))"
    using host_read_signals_related [OF errors(2)] by (simp add: signals_related_def)
  from host_read_blocks_related [OF errors(5) this assms(2)] show ?thesis
    unfolding builds_related_def accepted(4,5) by blast
qed

text \<open>
  C32. The desktop host's build refines the build of the runtime API. A document that the host accepts
  with the desktop profile is accepted by the runtime API too, in whatever order its hash maps are
  iterated, with the same configuration for the core up to the order of the signal bindings within a
  block, the same signals, structural revision and routing tables, and with blocks that agree. This
  holds for documents whose HTTP polls both can read: the URLs have the simple form that the runtime API
  asks for, and the timeouts do not overflow.
\<close>

theorem desktop_build_refines:
  assumes accepted: "host_build_automation env hs document = Some (Inr a)"
    and polls: "\<forall>poll \<in> set (ad_http_polls document). poll_comparable poll"
    and order: "iterates_entries (hs_document hs)"
  shows "\<exists>a' producers. build_automation env (hs_document hs) document = Inr a'
    \<and> reordered (hau_core_config a) (ar_core_config a') \<and> ar_signals a' = hau_signals a
    \<and> ar_structural_revision a' = hau_structural_revision a
    \<and> list_all2 block_related (hau_blocks a) (ar_blocks a')
    \<and> ar_routing a' = (hau_routing a)\<lparr>rg_signal_producers := producers\<rparr>"
proof -
  note accepted' = host_build_accepted [OF accepted [unfolded host_build_automation_def]]
  note errors = host_document_errors_Nil [OF accepted'(1)]
  let ?ds = "hs_document hs"
  define signals where "signals = read_signals (ad_signals document)"
  define sources where "sources = read_sources document"
  define st where "st = read_blocks env desktop_limits document signals sources"
  have signals: "length (ad_signals document) \<le> api_max_signals" "sgt_errors signals = []"
    "sgt_signals signals = hau_signals a"
    using host_read_signals_related [OF errors(2)] accepted'(6)
    by (simp_all add: signals_related_def signals_def)
  have sources: "src_errors sources = []" "src_dpts sources = hst_dpts (host_read_sources hs document)"
    using host_read_sources_related [OF polls errors(3)] by (simp_all add: sources_related_def sources_def)
  from host_blocks_built [OF accepted [unfolded host_build_automation_def] sources(2)]
  obtain ts where st: "bd_errors st = []" "list_all2 block_related (hau_blocks a) (bd_blocks st)"
    "bd_routing st = api_routing ts" "ht_routing ts = hau_routing a"
    unfolding st_def signals_def by blast
  have ok: "build_ok st" unfolding st_def by (rule read_blocks_ok)
  have "list_all2 block_of_document (ad_blocks document) (bd_blocks st)"
    using st(1) unfolding st_def by (rule read_blocks_of_document)
  moreover have "distinct (map br_id (bd_blocks st))" using ok by (simp add: build_ok_def)
  moreover have "\<forall>b \<in> set (bd_blocks st). distinct (map fst (br_endpoint_to_signal b))"
    using ok st(1) by (simp add: build_ok_def block_bound_def)
  ultimately have "host_core_config document (hau_blocks a) (hau_signals a)
      = Some (core_config_of (in_order ?ds) (bd_blocks st) (hau_signals a))"
    using host_core_config_related [OF st(2)] by blast
  then have "core_config_of (in_order ?ds) (bd_blocks st) (sgt_signals signals) = hau_core_config a"
    using accepted'(2) unfolding accepted'(4,6) [symmetric] signals(3) by simp
  then have core: "reordered (hau_core_config a) (core_config_of ?ds (bd_blocks st) (sgt_signals signals))"
    using core_config_reordered [OF order, of "bd_blocks st" "sgt_signals signals"] by simp
  have valid: "runtime_config_validate_with_limits env
      (core_config_of ?ds (bd_blocks st) (sgt_signals signals)) desktop_limits = Inr ()"
    by (rule validate_reordered [OF accepted'(3) core]) (simp add: desktop_limits_def)
  have sizes: "size_errors document = []"
    using errors(4) signals(1) by (auto simp: block_count_errors_def size_errors_def split: if_splits)
  have count: "\<not> api_max_signal_bindings < rg_signal_binding_count (bd_routing st)"
    using errors(6) unfolding accepted'(5) [symmetric] by (simp add: st(3,4) api_routing_def)
  let ?a = "\<lparr>ar_document = document, ar_signals = sgt_signals signals, ar_core_config = core_config_of ?ds (bd_blocks st) (sgt_signals signals),
    ar_blocks = bd_blocks st, ar_routing = bd_routing st, ar_http_polls = src_polls sources,
    ar_webhook_inputs = src_webhooks sources,
    ar_structural_revision = document_structural_revision ?ds document, ar_document_revision = 0\<rparr>"
  have "build_automation env ?ds document = Inr ?a"
    unfolding build_automation_def build_automation_with_profile_def build_automation_inner_def Let_def
      desktop_limits_def [symmetric] profile_capabilities.simps signals_def [symmetric]
      sources_def [symmetric] st_def [symmetric] feature_errors_Nil [OF errors(1)] sizes signals(2)
      sources(1) st(1) valid
    using count by simp
  then show ?thesis
    using signals(3) st core accepted'(8)
    by (intro exI [of _ ?a] exI [of _ "dom (ht_producers ts)"]) (simp add: api_routing_def)
qed

end
