(* ===== verification/Host_Routing.thy ===== *)
theory Host_Routing
  imports Host_Refinement
begin

text \<open>
  What the desktop host promises beyond the runtime API: every endpoint of an accepted document is named
  by exactly one of its bindings, over all four kinds, the maps of the built blocks hold what the document
  lists, and the tables of external sources are exact as well, each of its own kind of bindings.
\<close>

subsection \<open>Loops over a prefix of the list\<close>

lemma each_indexed_prefix:
  assumes step: "\<And>i x s ys. x \<in> set xs \<Longrightarrow> clean (f i x s) \<Longrightarrow> clean s \<and> (I ys s \<longrightarrow> I (ys @ [x]) (f i x s))"
    and clean: "clean (each_indexed f xs s)"
  shows "clean s \<and> (I [] s \<longrightarrow> I xs (each_indexed f xs s))"
  using assms
proof (induction xs rule: rev_induct)
  case (snoc x xs)
  have last: "clean (each_indexed f xs s)"
    and grown: "I xs (each_indexed f xs s) \<Longrightarrow> I (xs @ [x]) (each_indexed f (xs @ [x]) s)"
    using snoc.prems(1) [of x "length xs" "each_indexed f xs s" xs] snoc.prems(2) by simp_all
  have "clean s \<and> (I [] s \<longrightarrow> I xs (each_indexed f xs s))"
    by (rule snoc.IH) (use snoc.prems(1) last in auto)
  with grown show ?case by blast
qed simp

subsection \<open>What a document lists\<close>

definition endpoint_texts :: "document_block \<Rightarrow> rstring list" where
  "endpoint_texts d = map ae_name (ab_inputs d @ ab_outputs d)"

definition bound_texts :: "document_block \<Rightarrow> rstring list" where
  "bound_texts d = map kb_endpoint (ab_knx_bindings d) @ map dsb_endpoint (ab_signal_bindings d)
     @ map xb_endpoint (ab_http_bindings d @ ab_webhook_bindings d)"

definition address_pairs :: "knx_binding list \<Rightarrow> (endpoint_name \<times> group_address) set" where
  "address_pairs cs = {(EndpointName (kb_endpoint c), a) | c a.
     c \<in> set cs \<and> group_address_from_str (kb_group_address c) = Inr a}"

definition signal_pairs :: "document_signal_binding list \<Rightarrow> (endpoint_name \<times> signal_name) set" where
  "signal_pairs cs = (\<lambda>c. (EndpointName (dsb_endpoint c), SignalName (dsb_signal c))) ` set cs"

definition source_pairs :: "external_binding list \<Rightarrow> (endpoint_name \<times> rstring) set" where
  "source_pairs cs = (\<lambda>c. (EndpointName (xb_endpoint c), xb_source c)) ` set cs"

lemma pairs_Nil [simp]: "address_pairs [] = {}" "signal_pairs [] = {}" "source_pairs [] = {}"
  by (simp_all add: address_pairs_def signal_pairs_def source_pairs_def)

lemma pairs_snoc:
  "group_address_from_str (kb_group_address k) = Inr a \<Longrightarrow>
     address_pairs (ks @ [k]) = insert (EndpointName (kb_endpoint k), a) (address_pairs ks)"
  "signal_pairs (ss @ [c]) = insert (EndpointName (dsb_endpoint c), SignalName (dsb_signal c)) (signal_pairs ss)"
  "source_pairs (es @ [e]) = insert (EndpointName (xb_endpoint e), xb_source e) (source_pairs es)"
  by (auto simp: address_pairs_def signal_pairs_def source_pairs_def)

lemma host_endpoint_name_text: "host_endpoint_name path v = Inr n \<Longrightarrow> n = EndpointName v"
  by (auto simp: host_endpoint_name_def map_err_def endpoint_name_new_def result_simps split: sum.splits)

text \<open>The endpoints of a block that is read without an error are the listed ones.\<close>

lemma host_endpoint_step_listed:
  assumes "het_errors (host_endpoint_step p direction i e t) = []"
  shows "het_errors t = [] \<and> (map ep_name (het_endpoints t) = map (EndpointName \<circ> ae_name) (bs @ es) \<longrightarrow>
    map ep_name (het_endpoints (host_endpoint_step p direction i e t))
      = map (EndpointName \<circ> ae_name) (bs @ es @ [e]))"
  using assms
  by (auto simp: host_endpoint_step_def Let_def dest: host_endpoint_name_text split: sum.splits if_splits)

lemma host_endpoints_listed:
  assumes "het_errors (each_indexed (host_endpoint_step p direction) es t) = []"
  shows "het_errors t = [] \<and> (map ep_name (het_endpoints t) = map (EndpointName \<circ> ae_name) (bs @ []) \<longrightarrow>
    map ep_name (het_endpoints (each_indexed (host_endpoint_step p direction) es t))
      = map (EndpointName \<circ> ae_name) (bs @ es))"
  by (rule each_indexed_prefix [where clean = "\<lambda>t. het_errors t = []"
        and I = "\<lambda>es t. map ep_name (het_endpoints t) = map (EndpointName \<circ> ae_name) (bs @ es)",
        OF host_endpoint_step_listed]) (simp_all add: assms)

lemma host_read_endpoints_listed:
  assumes "het_errors (host_read_endpoints bp d) = []"
  shows "map ep_name (het_endpoints (host_read_endpoints bp d)) = map EndpointName (endpoint_texts d)"
proof -
  note outputs = host_endpoints_listed [OF assms [unfolded host_read_endpoints_def], of "ab_inputs d"]
  from host_endpoints_listed [OF outputs [THEN conjunct1], of "[]"] outputs show ?thesis
    by (simp add: host_read_endpoints_def endpoint_texts_def)
qed

subsection \<open>External sources\<close>

definition external_fact :: "block_external_input_binding \<Rightarrow> rstring binding_fact" where
  "external_fact i = (bxb_block_id i, bxb_endpoint i, Input, bxb_dpt i, bxb_source i)"

interpretation sources: input_table external_fact
  by unfold_locales (auto simp: external_fact_def)

definition sources_exact :: "rstring binding_fact set \<Rightarrow> rstring binding_fact set \<Rightarrow> routing \<Rightarrow> bool" where
  "sources_exact polled posted rg \<longleftrightarrow>
     sources.exact polled (rg_http_to_inputs rg) \<and> sources.exact posted (rg_webhook_to_inputs rg)"

lemma host_add_address_sources:
  "sources_exact polled posted (ht_routing (hb_tables (host_add_address x t name d a s)))
    = sources_exact polled posted (ht_routing (hb_tables s))"
  by (simp add: host_add_address_def Let_def sources_exact_def)

lemma host_add_signal_sources:
  "sources_exact polled posted (ht_routing (hb_tables (host_add_signal path x t name d signal (host_counted s))))
    = sources_exact polled posted (ht_routing (hb_tables s))"
  by (auto simp: host_add_signal_def Let_def set_tables_def push_binding_def host_counted_def sources_exact_def
      split: option.splits endpoint_direction.splits)

subsection \<open>The bindings of a block\<close>

text \<open>After some of the bindings of every kind: no endpoint was named twice, and the maps hold the pairs.\<close>

definition maps_read ::
  "host_endpoint_table \<Rightarrow> knx_binding list \<Rightarrow> document_signal_binding list \<Rightarrow> external_binding list
     \<Rightarrow> host_binding_state \<Rightarrow> bool" where
  "maps_read t ks ss es s \<longleftrightarrow>
     distinct (map kb_endpoint ks @ map dsb_endpoint ss @ map xb_endpoint es)
     \<and> EndpointName ` set (map kb_endpoint ks @ map dsb_endpoint ss @ map xb_endpoint es) \<subseteq> dom (het_dpts t)
     \<and> dom (hb_addresses s) = EndpointName ` kb_endpoint ` set ks
     \<and> graph_of (hb_addresses s) = address_pairs ks
     \<and> graph_of (hb_signals s) = signal_pairs ss \<and> graph_of (hb_externals s) = source_pairs es
     \<and> inj_on (hb_addresses s) (dom (hb_addresses s)) \<and> ran (hb_addresses s) \<subseteq> hb_local s"

definition bindings_read ::
  "block_id \<Rightarrow> host_endpoint_table \<Rightarrow> rstring binding_fact set \<Rightarrow> rstring binding_fact set
     \<Rightarrow> knx_binding list \<Rightarrow> document_signal_binding list \<Rightarrow> external_binding list \<Rightarrow> external_binding list
     \<Rightarrow> host_binding_state \<Rightarrow> bool" where
  "bindings_read x t polled posted ks ss hs ws s \<longleftrightarrow>
     maps_read t ks ss (hs @ ws) s
     \<and> sources_exact (polled \<union> facts_of x (het_endpoints t) (source_pairs hs))
         (posted \<union> facts_of x (het_endpoints t) (source_pairs ws)) (ht_routing (hb_tables s))"

lemma dom_graph_of: "dom m = fst ` graph_of m"
  by (force simp: graph_of_def)

lemma unbound_text:
  assumes "dom m = EndpointName ` A"
  shows "m (EndpointName v) = None \<longleftrightarrow> v \<notin> A"
proof -
  have "m (EndpointName v) = None \<longleftrightarrow> EndpointName v \<notin> dom m" by (simp add: domIff)
  then show ?thesis by (auto simp: assms)
qed

lemma unbound_fresh:
  assumes "maps_read t ks ss es s"
  shows "hb_addresses s (EndpointName v) = None \<longleftrightarrow> v \<notin> kb_endpoint ` set ks"
    and "hb_signals s (EndpointName v) = None \<longleftrightarrow> v \<notin> dsb_endpoint ` set ss"
    and "hb_externals s (EndpointName v) = None \<longleftrightarrow> v \<notin> xb_endpoint ` set es"
proof -
  have "dom (hb_addresses s) = EndpointName ` kb_endpoint ` set ks" using assms by (simp add: maps_read_def)
  then show "hb_addresses s (EndpointName v) = None \<longleftrightarrow> v \<notin> kb_endpoint ` set ks" by (rule unbound_text)
  have "dom (hb_signals s) = EndpointName ` dsb_endpoint ` set ss"
    using assms by (simp add: maps_read_def dom_graph_of signal_pairs_def image_image)
  then show "hb_signals s (EndpointName v) = None \<longleftrightarrow> v \<notin> dsb_endpoint ` set ss" by (rule unbound_text)
  have "dom (hb_externals s) = EndpointName ` xb_endpoint ` set es"
    using assms by (simp add: maps_read_def dom_graph_of source_pairs_def image_image)
  then show "hb_externals s (EndpointName v) = None \<longleftrightarrow> v \<notin> xb_endpoint ` set es" by (rule unbound_text)
qed

lemma host_knx_step_reads:
  assumes "hb_errors (host_knx_step bp x t i k s) = []"
  shows "hb_errors s = [] \<and> (bindings_read x t polled posted ks [] [] [] s \<longrightarrow>
    bindings_read x t polled posted (ks @ [k]) [] [] [] (host_knx_step bp x t i k s))"
proof -
  from host_knx_step_clean [OF assms] obtain name d a where clean: "hb_errors s = []"
    and name: "name = EndpointName (kb_endpoint k)" and d: "het_dpts t name = Some d"
    and address: "group_address_from_str (kb_group_address k) = Inr a"
    and fresh: "hb_addresses s name = None" "a \<notin> hb_local s"
    and run: "host_knx_step bp x t i k s = host_add_address x t name d a s"
    using host_endpoint_name_text by metis
  have fields: "hb_addresses (host_add_address x t name d a s) = (hb_addresses s)(name \<mapsto> a)"
    "hb_local (host_add_address x t name d a s) = insert a (hb_local s)"
    "hb_signals (host_add_address x t name d a s) = hb_signals s"
    "hb_externals (host_add_address x t name d a s) = hb_externals s"
    by (simp_all add: host_add_address_def Let_def)
  have "maps_read t (ks @ [k]) [] [] (host_add_address x t name d a s)" if read: "maps_read t ks [] [] s"
  proof -
    have new: "kb_endpoint k \<notin> kb_endpoint ` set ks" using unbound_fresh(1) [OF read] fresh(1) by (simp add: name)
    have "hb_addresses s m \<noteq> Some a" for m using read fresh(2) by (auto simp: maps_read_def ran_def)
    then have "inj_on ((hb_addresses s)(name \<mapsto> a)) (dom ((hb_addresses s)(name \<mapsto> a)))"
      using read by (auto simp: maps_read_def inj_on_def dom_def)
    moreover have "ran ((hb_addresses s)(name \<mapsto> a)) \<subseteq> insert a (hb_local s)"
      using read fresh(1) by (auto simp: maps_read_def)
    ultimately show ?thesis
      using read d new pairs_snoc(1) [OF address, of ks] graph_of_update [of "hb_addresses s" name a] fresh(1)
      unfolding maps_read_def fields by (auto simp: name)
  qed
  with clean run show ?thesis by (simp add: bindings_read_def host_add_address_sources)
qed

lemma host_signal_step_reads:
  assumes "hb_errors (host_signal_binding_step bp x sd t i c s) = []"
  shows "hb_errors s = [] \<and> (bindings_read x t polled posted ks ss [] [] s \<longrightarrow>
    bindings_read x t polled posted ks (ss @ [c]) [] [] (host_signal_binding_step bp x sd t i c s))"
proof -
  from host_signal_step_clean [OF assms] obtain path name d signal where clean: "hb_errors s = []"
    and name: "name = EndpointName (dsb_endpoint c)" and d: "het_dpts t name = Some d"
    and signal: "signal_name_new (dsb_signal c) = Inr signal"
    and fresh: "hb_addresses s name = None" "hb_signals s name = None"
    and run: "host_signal_binding_step bp x sd t i c s
      = host_add_signal path x t name d signal (host_counted s)"
    using host_endpoint_name_text by metis
  have signal: "signal = SignalName (dsb_signal c)" using signal by (auto simp: signal_name_new_def result_simps)
  let ?s = "host_add_signal path x t name d signal (host_counted s)"
  have fields: "hb_addresses ?s = hb_addresses s" "hb_local ?s = hb_local s"
    "hb_signals ?s = (hb_signals s)(name \<mapsto> signal)" "hb_externals ?s = hb_externals s"
    by (auto simp: host_add_signal_def Let_def set_tables_def push_binding_def host_counted_def
        split: option.splits endpoint_direction.splits)
  have "maps_read t ks (ss @ [c]) [] ?s" if read: "maps_read t ks ss [] s"
  proof -
    have "dsb_endpoint c \<notin> kb_endpoint ` set ks" "dsb_endpoint c \<notin> dsb_endpoint ` set ss"
      using unbound_fresh(1,2) [OF read] fresh by (simp_all add: name)
    then show ?thesis
      using read d graph_of_update [of "hb_signals s" name signal] fresh(2)
      unfolding maps_read_def fields by (auto simp: name signal pairs_snoc)
  qed
  with clean run show ?thesis by (simp add: bindings_read_def host_add_signal_sources)
qed

text \<open>A binding to an external source, and the row that it adds to the table of its kind.\<close>

lemma host_external_step_reads:
  assumes t: "endpoint_table_ok (table_of t)"
    and clean: "hb_errors (host_external_step add known missing other p x sd t i c s) = []"
  obtains row where "hb_errors s = []"
    and "ht_routing (hb_tables (host_external_step add known missing other p x sd t i c s))
      = add row (ht_routing (hb_tables s))"
    and "bxb_source row = xb_source c"
    and "\<And>E cs. sources.exact (E \<union> facts_of x (het_endpoints t) (source_pairs cs)) m \<Longrightarrow>
      sources.exact (E \<union> facts_of x (het_endpoints t) (source_pairs (cs @ [c]))) (append_at (xb_source c) row m)"
    and "\<And>es. maps_read t ks ss es s \<Longrightarrow>
      maps_read t ks ss (es @ [c]) (host_external_step add known missing other p x sd t i c s)"
proof -
  from host_external_step_clean [OF clean] obtain name d where errors: "hb_errors s = []"
    and name': "host_endpoint_name (item_path p i @ ''.endpoint'') (xb_endpoint c) = Inr name"
      "het_dpts t name = Some d"
    and dir: "het_directions t name = Some Input"
    and fresh: "hb_addresses s name = None" "hb_signals s name = None" "hb_externals s name = None"
    and run: "host_external_step add known missing other p x sd t i c s
      = host_add_external add x name d (xb_source c) (external_counted s)" by metis
  have name: "name = EndpointName (xb_endpoint c)" using host_endpoint_name_text [OF name'(1)] .
  obtain e where e: "e \<in> set (het_endpoints t)" "ep_name e = name" "ep_dpt e = d" "ep_direction e = Input"
    using bound_name_endpoint [OF t bound_name_related [OF name']] dir
    by (metis option.inject table_of_fields(2,3))
  let ?row = "\<lparr>bxb_block_id = x, bxb_endpoint = name, bxb_dpt = d, bxb_source = xb_source c\<rparr>"
  have grown: "E \<union> facts_of x (het_endpoints t) (source_pairs (cs @ [c]))
      = insert (external_fact ?row) (E \<union> facts_of x (het_endpoints t) (source_pairs cs))" for E cs
    using facts_of_insert [OF t, of e x "xb_source c" "source_pairs cs"] e
    by (simp add: pairs_snoc external_fact_def name)
  show thesis
  proof (rule that [of ?row, OF errors])
    show "ht_routing (hb_tables (host_external_step add known missing other p x sd t i c s))
        = add ?row (ht_routing (hb_tables s))"
      by (simp add: run host_add_external_def external_counted_def set_tables_def)
    fix E cs assume "sources.exact (E \<union> facts_of x (het_endpoints t) (source_pairs cs)) m"
    from sources.exact_append [OF this, of ?row]
    show "sources.exact (E \<union> facts_of x (het_endpoints t) (source_pairs (cs @ [c])))
        (append_at (xb_source c) ?row m)"
      unfolding grown by (simp add: external_fact_def)
  next
    fix es assume read: "maps_read t ks ss es s"
    have new: "xb_endpoint c \<notin> kb_endpoint ` set ks" "xb_endpoint c \<notin> dsb_endpoint ` set ss"
      "xb_endpoint c \<notin> xb_endpoint ` set es"
      using unbound_fresh [OF read] fresh by (simp_all add: name)
    have fields: "hb_addresses (host_add_external add x name d source (external_counted s)) = hb_addresses s"
      "hb_local (host_add_external add x name d source (external_counted s)) = hb_local s"
      "hb_signals (host_add_external add x name d source (external_counted s)) = hb_signals s"
      "hb_externals (host_add_external add x name d source (external_counted s)) = (hb_externals s)(name \<mapsto> source)"
      for source
      by (simp_all add: host_add_external_def external_counted_def set_tables_def)
    show "maps_read t ks ss (es @ [c]) (host_external_step add known missing other p x sd t i c s)"
      using read name'(2) new graph_of_update [of "hb_externals s" name "xb_source c"] fresh(3)
      unfolding run maps_read_def fields by (auto simp: name pairs_snoc)
  qed simp
qed

lemma host_http_step_reads:
  assumes "endpoint_table_ok (table_of t)" and clean: "hb_errors (host_http_step sources bp x t i c s) = []"
  shows "hb_errors s = [] \<and> (bindings_read x t polled posted ks ss hs [] s \<longrightarrow>
    bindings_read x t polled posted ks ss (hs @ [c]) [] (host_http_step sources bp x t i c s))"
proof -
  let ?rg = "ht_routing (hb_tables s)" and ?s = "host_http_step sources bp x t i c s"
  from host_external_step_reads [OF assms(1) clean [unfolded host_http_step_def], of "rg_http_to_inputs ?rg" ks ss]
  obtain row where errors: "hb_errors s = []"
    and row: "ht_routing (hb_tables ?s)
      = ?rg\<lparr>rg_http_to_inputs := append_at (bxb_source row) row (rg_http_to_inputs ?rg)\<rparr>"
      "bxb_source row = xb_source c"
    and exact: "\<And>E cs. sources.exact (E \<union> facts_of x (het_endpoints t) (source_pairs cs)) (rg_http_to_inputs ?rg)
      \<Longrightarrow> sources.exact (E \<union> facts_of x (het_endpoints t) (source_pairs (cs @ [c])))
        (append_at (xb_source c) row (rg_http_to_inputs ?rg))"
    and maps: "\<And>es. maps_read t ks ss es s \<Longrightarrow> maps_read t ks ss (es @ [c]) ?s"
    unfolding host_http_step_def [symmetric] by metis
  show ?thesis
    using errors exact [of polled hs] maps [of hs] row
    by (auto simp: bindings_read_def sources_exact_def)
qed

lemma host_webhook_step_reads:
  assumes "endpoint_table_ok (table_of t)"
    and clean: "hb_errors (host_webhook_binding_step sources bp x t i c s) = []"
  shows "hb_errors s = [] \<and> (bindings_read x t polled posted ks ss hs ws s \<longrightarrow>
    bindings_read x t polled posted ks ss hs (ws @ [c]) (host_webhook_binding_step sources bp x t i c s))"
proof -
  let ?rg = "ht_routing (hb_tables s)" and ?s = "host_webhook_binding_step sources bp x t i c s"
  from host_external_step_reads [OF assms(1) clean [unfolded host_webhook_binding_step_def],
      of "rg_webhook_to_inputs ?rg" ks ss]
  obtain row where errors: "hb_errors s = []"
    and row: "ht_routing (hb_tables ?s)
      = ?rg\<lparr>rg_webhook_to_inputs := append_at (bxb_source row) row (rg_webhook_to_inputs ?rg)\<rparr>"
      "bxb_source row = xb_source c"
    and exact: "\<And>E cs. sources.exact (E \<union> facts_of x (het_endpoints t) (source_pairs cs)) (rg_webhook_to_inputs ?rg)
      \<Longrightarrow> sources.exact (E \<union> facts_of x (het_endpoints t) (source_pairs (cs @ [c])))
        (append_at (xb_source c) row (rg_webhook_to_inputs ?rg))"
    and maps: "\<And>es. maps_read t ks ss es s \<Longrightarrow> maps_read t ks ss (es @ [c]) ?s"
    unfolding host_webhook_binding_step_def [symmetric] by metis
  show ?thesis
    using errors exact [of posted ws] maps [of "hs @ ws"] row
    by (auto simp: bindings_read_def sources_exact_def)
qed

lemma host_read_bindings_reads:
  assumes clean: "hb_errors (host_read_bindings bp x sd sources t d ts) = []"
    and t: "endpoint_table_ok (table_of t)" and E: "sources_exact polled posted (ht_routing ts)"
  shows "bindings_read x t polled posted (ab_knx_bindings d) (ab_signal_bindings d) (ab_http_bindings d)
      (ab_webhook_bindings d) (host_read_bindings bp x sd sources t d ts)
    \<and> ep_name ` set (het_endpoints t) \<subseteq> EndpointName ` set (bound_texts d)"
proof -
  let ?clean = "\<lambda>s. hb_errors s = []" and ?I = "bindings_read x t polled posted"
  let ?ks = "ab_knx_bindings d" and ?ss = "ab_signal_bindings d" and ?hs = "ab_http_bindings d"
  let ?ws = "ab_webhook_bindings d"
  define s0 where "s0 = \<lparr>hb_errors = [], hb_tables = ts, hb_addresses = Map.empty, hb_local = {},
    hb_signals = Map.empty, hb_externals = Map.empty\<rparr>"
  define s1 where "s1 = each_indexed (host_knx_step bp x t) ?ks s0"
  define s2 where "s2 = each_indexed (host_signal_binding_step bp x sd t) ?ss s1"
  define s3 where "s3 = each_indexed (host_http_step sources bp x t) ?hs s2"
  define s4 where "s4 = each_indexed (host_webhook_binding_step sources bp x t) ?ws s3"
  have host: "host_read_bindings bp x sd sources t d ts
      = s4\<lparr>hb_errors := hb_errors s4 @ host_unbound_errors bp d (het_endpoints t) s4\<rparr>"
    by (simp add: host_read_bindings_def Let_def s0_def s1_def s2_def s3_def s4_def)
  have clean4: "?clean s4" and bound: "host_unbound_errors bp d (het_endpoints t) s4 = []"
    using clean by (simp_all add: host)
  have 4: "?clean s3 \<and> (?I ?ks ?ss ?hs [] s3 \<longrightarrow> ?I ?ks ?ss ?hs ?ws s4)"
    unfolding s4_def by (rule each_indexed_prefix [where clean = ?clean and I = "?I ?ks ?ss ?hs",
        OF host_webhook_step_reads [OF t]])
      (simp_all add: clean4 [unfolded s4_def])
  then have 3: "?clean s2 \<and> (?I ?ks ?ss [] [] s2 \<longrightarrow> ?I ?ks ?ss ?hs [] s3)"
    unfolding s3_def by (intro each_indexed_prefix [where clean = ?clean and I = "\<lambda>hs. ?I ?ks ?ss hs []",
        OF host_http_step_reads [OF t]])
      simp_all
  then have 2: "?clean s1 \<and> (?I ?ks [] [] [] s1 \<longrightarrow> ?I ?ks ?ss [] [] s2)"
    unfolding s2_def by (intro each_indexed_prefix [where clean = ?clean and I = "\<lambda>ss. ?I ?ks ss [] []",
        OF host_signal_step_reads])
      simp_all
  then have 1: "?clean s0 \<and> (?I [] [] [] [] s0 \<longrightarrow> ?I ?ks [] [] [] s1)"
    unfolding s1_def by (intro each_indexed_prefix [where clean = ?clean and I = "\<lambda>ks. ?I ks [] [] []",
        OF host_knx_step_reads])
      simp_all
  have "?I [] [] [] [] s0" using E by (simp add: bindings_read_def maps_read_def s0_def dom_graph_of graph_of_def)
  with 1 2 3 4 have read: "?I ?ks ?ss ?hs ?ws s4" by blast
  then have maps: "maps_read t ?ks ?ss (?hs @ ?ws) s4" by (simp add: bindings_read_def)
  have "ep_name e \<in> EndpointName ` set (bound_texts d)" if "e \<in> set (het_endpoints t)" for e
  proof -
    obtain v where v: "ep_name e = EndpointName v" by (cases "ep_name e")
    have "hb_addresses s4 (ep_name e) \<noteq> None \<or> hb_signals s4 (ep_name e) \<noteq> None \<or> hb_externals s4 (ep_name e) \<noteq> None"
      using bound that by (auto simp: host_unbound_errors_def filter_empty_conv)
    then show ?thesis unfolding v unbound_fresh [OF maps] by (auto simp: bound_texts_def)
  qed
  with read show ?thesis by (auto simp: host bindings_read_def maps_read_def)
qed

subsection \<open>All blocks\<close>

text \<open>A block of the host that holds what the document's block lists.\<close>

definition block_as_listed :: "document_block \<Rightarrow> host_block_runtime \<Rightarrow> bool" where
  "block_as_listed d b \<longleftrightarrow>
     hbr_id b = BlockId (ab_id d)
     \<and> map ep_name (ec_endpoints (hbr_engine_config b)) = map EndpointName (endpoint_texts d)
     \<and> graph_of (hbr_endpoint_to_address b) = address_pairs (ab_knx_bindings d)
     \<and> graph_of (hbr_endpoint_to_signal b) = signal_pairs (ab_signal_bindings d)
     \<and> graph_of (hbr_endpoint_to_external b) = source_pairs (ab_http_bindings d @ ab_webhook_bindings d)
     \<and> inj_on (hbr_endpoint_to_address b) (dom (hbr_endpoint_to_address b))"

text \<open>Every endpoint has one binding, and an address of its own if that is a group address.\<close>

definition bound_once :: "document_block \<Rightarrow> bool" where
  "bound_once d \<longleftrightarrow>
     distinct (endpoint_texts d) \<and> distinct (bound_texts d) \<and> set (bound_texts d) = set (endpoint_texts d)
     \<and> distinct (map kb_group_address (ab_knx_bindings d))"

text \<open>The bindings of one kind to external sources, over all blocks.\<close>

definition source_facts ::
  "(document_block \<Rightarrow> external_binding list) \<Rightarrow> document_block list \<Rightarrow> host_block_runtime list
     \<Rightarrow> rstring binding_fact set" where
  "source_facts bindings ds bs = \<Union> (set (map2 (\<lambda>d b.
     facts_of (hbr_id b) (ec_endpoints (hbr_engine_config b)) (source_pairs (bindings d))) ds bs))"

definition blocks_read :: "document_block list \<Rightarrow> host_build_state \<Rightarrow> bool" where
  "blocks_read ds st \<longleftrightarrow>
     list_all2 block_as_listed ds (hbd_blocks st) \<and> (\<forall>d \<in> set ds. bound_once d)
     \<and> sources_exact (source_facts ab_http_bindings ds (hbd_blocks st))
         (source_facts ab_webhook_bindings ds (hbd_blocks st)) (ht_routing (hbd_tables st))"

lemma source_facts_snoc:
  assumes "length ds = length bs"
  shows "source_facts f (ds @ [d]) (bs @ [b]) = source_facts f ds bs
    \<union> facts_of (hbr_id b) (ec_endpoints (hbr_engine_config b)) (source_pairs (f d))"
  using assms by (simp add: source_facts_def Un_commute)

lemma distinct_addresses:
  assumes "maps_read t ks ss es s"
  shows "distinct (map kb_group_address ks)"
proof -
  have names: "distinct (map kb_endpoint ks)" and dom: "dom (hb_addresses s) = EndpointName ` kb_endpoint ` set ks"
    and graph: "graph_of (hb_addresses s) = address_pairs ks"
    using assms by (simp_all add: maps_read_def)
  have inj: "inj_on (hb_addresses s) (dom (hb_addresses s))" using assms unfolding maps_read_def by blast
  have bound: "hb_addresses s (EndpointName (kb_endpoint k)) \<noteq> None
      \<and> (\<forall>a. hb_addresses s (EndpointName (kb_endpoint k)) = Some a
          \<longrightarrow> group_address_from_str (kb_group_address k) = Inr a)"
    if k: "k \<in> set ks" for k
  proof -
    have "EndpointName (kb_endpoint k) \<in> dom (hb_addresses s)" using k by (simp add: dom)
    moreover have "group_address_from_str (kb_group_address k) = Inr a"
      if "hb_addresses s (EndpointName (kb_endpoint k)) = Some a" for a
    proof -
      have "(EndpointName (kb_endpoint k), a) \<in> address_pairs ks" using that graph by (auto simp: graph_of_def)
      then obtain c where "c \<in> set ks" "kb_endpoint c = kb_endpoint k"
        "group_address_from_str (kb_group_address c) = Inr a" by (auto simp: address_pairs_def)
      moreover from this names k have "c = k" by (auto simp: distinct_map inj_on_def)
      ultimately show ?thesis by simp
    qed
    ultimately show ?thesis by auto
  qed
  have distinct: "distinct ks" and inj_names: "inj_on kb_endpoint (set ks)"
    using names by (simp_all add: distinct_map)
  have "inj_on kb_group_address (set ks)"
  proof (rule inj_onI)
    fix k c assume k: "k \<in> set ks" and c: "c \<in> set ks" and same: "kb_group_address k = kb_group_address c"
    obtain a where a: "hb_addresses s (EndpointName (kb_endpoint k)) = Some a"
      "group_address_from_str (kb_group_address k) = Inr a" using bound [OF k] by auto
    obtain a' where a': "hb_addresses s (EndpointName (kb_endpoint c)) = Some a'"
      "group_address_from_str (kb_group_address c) = Inr a'" using bound [OF c] by auto
    from a(2) a'(2) have "a' = a" unfolding same by simp
    with a(1) a'(1) have "hb_addresses s (EndpointName (kb_endpoint k)) = hb_addresses s (EndpointName (kb_endpoint c))"
      by simp
    from inj_onD [OF inj this] a(1) a'(1) have "kb_endpoint k = kb_endpoint c" by (simp add: domIff)
    from inj_onD [OF inj_names this k c] show "k = c" .
  qed
  with distinct show ?thesis by (simp add: distinct_map)
qed

lemma host_add_block_reads:
  assumes clean: "hbd_errors (host_add_block env sd sources bp (BlockId (ab_id d)) d st) = []"
  shows "hbd_errors st = []
    \<and> (blocks_read ds st \<longrightarrow> blocks_read (ds @ [d]) (host_add_block env sd sources bp (BlockId (ab_id d)) d st))"
proof -
  let ?t = "host_read_endpoints bp d" and ?x = "BlockId (ab_id d)"
  let ?s = "host_read_bindings bp ?x sd sources ?t d (hbd_tables st)"
  obtain e schedules where schedules: "host_block_schedules (ab_schedules d) bp = (e, schedules)"
    by (rule prod.exhaust)
  note host = host_add_block_def [of env sd sources bp ?x d st, unfolded Let_def schedules prod.case]
  have parts: "hbd_errors st = []" "het_errors ?t = []" "hb_errors ?s = []"
    using clean unfolding host by simp_all
  have t: "endpoint_table_ok (table_of ?t)"
    using host_read_endpoints_related [OF parts(2)] read_endpoints_ok [of bp d] by simp
  note listed = host_read_endpoints_listed [OF parts(2)]
  have "blocks_read (ds @ [d]) (host_add_block env sd sources bp ?x d st)" if ok: "blocks_read ds st"
  proof -
    have len: "length ds = length (hbd_blocks st)"
      using ok list_all2_lengthD by (auto simp: blocks_read_def)
    have "sources_exact (source_facts ab_http_bindings ds (hbd_blocks st))
        (source_facts ab_webhook_bindings ds (hbd_blocks st)) (ht_routing (hbd_tables st))"
      using ok by (simp add: blocks_read_def)
    from host_read_bindings_reads [OF parts(3) t this]
    have read: "bindings_read ?x ?t (source_facts ab_http_bindings ds (hbd_blocks st))
        (source_facts ab_webhook_bindings ds (hbd_blocks st)) (ab_knx_bindings d) (ab_signal_bindings d)
        (ab_http_bindings d) (ab_webhook_bindings d) ?s"
      and covered: "ep_name ` set (het_endpoints ?t) \<subseteq> EndpointName ` set (bound_texts d)" by blast+
    then have maps: "maps_read ?t (ab_knx_bindings d) (ab_signal_bindings d)
        (ab_http_bindings d @ ab_webhook_bindings d) ?s" by (simp add: bindings_read_def)
    have names: "ep_name ` set (het_endpoints ?t) = EndpointName ` set (endpoint_texts d)"
      using arg_cong [OF listed, of set] by simp
    have "distinct (endpoint_texts d)"
      using t listed by (simp add: endpoint_table_ok_def distinct_map)
    moreover have "distinct (bound_texts d)" using maps by (simp add: maps_read_def bound_texts_def)
    moreover have "set (bound_texts d) = set (endpoint_texts d)"
    proof
      have "dom (het_dpts ?t) \<subseteq> ep_name ` set (het_endpoints ?t)" using t by (auto simp: endpoint_table_ok_def)
      moreover have "EndpointName ` set (bound_texts d) \<subseteq> dom (het_dpts ?t)"
        using maps by (simp add: maps_read_def bound_texts_def)
      ultimately show "set (bound_texts d) \<subseteq> set (endpoint_texts d)" unfolding names by blast
      show "set (endpoint_texts d) \<subseteq> set (bound_texts d)" using covered unfolding names by blast
    qed
    ultimately have "bound_once d" using distinct_addresses [OF maps] by (simp add: bound_once_def)
    moreover have "inj_on (hb_addresses ?s) (dom (hb_addresses ?s))"
      using maps unfolding maps_read_def by blast
    moreover have "graph_of (hb_addresses ?s) = address_pairs (ab_knx_bindings d)"
      "graph_of (hb_signals ?s) = signal_pairs (ab_signal_bindings d)"
      "graph_of (hb_externals ?s) = source_pairs (ab_http_bindings d @ ab_webhook_bindings d)"
      using maps by (simp_all add: maps_read_def)
    ultimately show ?thesis
      using ok read len listed unfolding host
      by (simp add: blocks_read_def block_as_listed_def source_facts_snoc bindings_read_def
          list_all2_appendI)
  qed
  with parts(1) show ?thesis by blast
qed

lemma host_block_step_reads:
  assumes "hbd_errors (host_block_step env sd sources i d st) = []"
  shows "hbd_errors st = []
    \<and> (blocks_read ds st \<longrightarrow> blocks_read (ds @ [d]) (host_block_step env sd sources i d st))"
proof -
  let ?bp = "item_path ''blocks'' i"
  obtain x where x: "block_id_new (ab_id d) = Inr x"
    using assms by (cases "block_id_new (ab_id d)") (auto simp: host_block_step_def Let_def)
  then have id: "x = BlockId (ab_id d)" by (auto simp: block_id_new_def result_simps)
  have fresh: "x \<notin> hbd_ids st" using assms by (auto simp: host_block_step_def Let_def x)
  let ?st = "st\<lparr>hbd_ids := insert x (hbd_ids st)\<rparr>"
  have host: "host_block_step env sd sources i d st = host_add_block env sd sources ?bp x d ?st"
    using fresh by (simp add: host_block_step_def Let_def x)
  from host_add_block_reads [OF assms [unfolded host id]] show ?thesis
    unfolding host id by (simp add: blocks_read_def)
qed

lemma host_read_blocks_reads:
  assumes "hbd_errors (host_read_blocks env document signals sources) = []"
  shows "blocks_read (ad_blocks document) (host_read_blocks env document signals sources)"
  using each_indexed_prefix [where clean = "\<lambda>st. hbd_errors st = []" and I = blocks_read,
      OF host_block_step_reads assms [unfolded host_read_blocks_def]]
  by (simp add: host_read_blocks_def blocks_read_def source_facts_def sources_exact_def sources.exact_empty
      empty_routing_def)

definition host_address_bindings :: "host_block_runtime list \<Rightarrow> group_address binding_fact set" where
  "host_address_bindings blocks = (\<Union>b \<in> set blocks.
     facts_of (hbr_id b) (ec_endpoints (hbr_engine_config b)) (graph_of (hbr_endpoint_to_address b)))"

definition host_signal_bindings :: "host_block_runtime list \<Rightarrow> signal_name binding_fact set" where
  "host_signal_bindings blocks = (\<Union>b \<in> set blocks.
     facts_of (hbr_id b) (ec_endpoints (hbr_engine_config b)) (graph_of (hbr_endpoint_to_signal b)))"

lemma graph_of_map_of: "distinct (map fst xs) \<Longrightarrow> graph_of (map_of xs) = set xs"
  by (auto simp: graph_of_def)

lemma related_bindings:
  assumes "list_all2 block_related hbs bs"
    and "\<forall>b \<in> set bs. distinct (map fst (br_endpoint_to_signal b))"
  shows "address_bindings bs = host_address_bindings hbs \<and> signal_bindings bs = host_signal_bindings hbs"
  using assms
proof (induction rule: list_all2_induct)
  case Nil
  then show ?case
    by (simp add: address_bindings_def host_address_bindings_def signal_bindings_def host_signal_bindings_def)
next
  case (Cons hb hbs b bs)
  then have "graph_of (hbr_endpoint_to_signal hb) = set (br_endpoint_to_signal b)"
    using graph_of_map_of [of "br_endpoint_to_signal b"] by (simp add: block_related_def)
  with Cons show ?case
    by (simp add: address_bindings_def host_address_bindings_def signal_bindings_def
        host_signal_bindings_def block_facts_def block_related_def)
qed

text \<open>
  C33. In a document that the desktop host accepts, the endpoints of a block have distinct names, and each
  of them is named by exactly one of the block's bindings to KNX, signals, HTTP polls and webhooks; no two
  bindings of a block share a group address. The blocks of the host hold just what the document lists: the
  same endpoints in the same order, and in the three maps the listed addresses, signals and sources.
\<close>

theorem desktop_endpoints_bound_once:
  assumes "host_build_automation_with_limits env hs document limits = Some (Inr a)"
  shows "list_all2 block_as_listed (ad_blocks document) (hau_blocks a)
    \<and> (\<forall>d \<in> set (ad_blocks document). bound_once d)"
proof -
  note accepted = host_build_accepted [OF assms]
  from host_read_blocks_reads [OF host_document_errors_Nil(5) [OF accepted(1)]] show ?thesis
    by (simp add: blocks_read_def accepted(4))
qed

text \<open>
  C34. The routing tables of an accepted document are exact on the desktop too, and so is, unlike in the
  runtime API, each of the two tables of external sources: a poll value leads to exactly the input
  endpoints that the HTTP bindings of the document bind to it, a webhook input to exactly those that the
  webhook bindings bind to it.
\<close>

theorem desktop_routing_exact:
  assumes accepted: "host_build_automation_with_limits env hs document limits = Some (Inr a)"
  shows "addresses_exact (host_address_bindings (hau_blocks a)) (hau_routing a)
    \<and> signals.exact (host_signal_bindings (hau_blocks a)) (rg_signal_to_inputs (hau_routing a))
    \<and> outputs_exact (host_signal_bindings (hau_blocks a)) (rg_output_to_signal (hau_routing a))
    \<and> sources.exact (source_facts ab_http_bindings (ad_blocks document) (hau_blocks a))
        (rg_http_to_inputs (hau_routing a))
    \<and> sources.exact (source_facts ab_webhook_bindings (ad_blocks document) (hau_blocks a))
        (rg_webhook_to_inputs (hau_routing a))"
proof -
  let ?sources = "\<lparr>src_errors = [], src_dpts = hst_dpts (host_read_sources hs document), src_polls = [],
    src_webhooks = []\<rparr>"
  obtain st ts where st: "st = read_blocks env desktop_limits document (read_signals (ad_signals document)) ?sources"
    "bd_errors st = []" "list_all2 block_related (hau_blocks a) (bd_blocks st)"
    "bd_routing st = api_routing ts" "ht_routing ts = hau_routing a"
    using host_blocks_built [OF accepted, of ?sources] by auto
  have ok: "build_ok st" unfolding st(1) by (rule read_blocks_ok)
  then have "\<forall>b \<in> set (bd_blocks st). distinct (map fst (br_endpoint_to_signal b))"
    using st(2) by (simp add: build_ok_def block_bound_def)
  note bindings = related_bindings [OF st(3) this]
  have "addresses_exact (host_address_bindings (hau_blocks a)) (bd_routing st)"
    and "signals_exact (host_signal_bindings (hau_blocks a)) (bd_routing st)"
    using ok st(2) bindings by (simp_all add: build_ok_def)
  moreover have "address_fields (bd_routing st) = address_fields (hau_routing a)"
    by (simp add: st(4) api_routing_def address_fields_def st(5))
  ultimately have "addresses_exact (host_address_bindings (hau_blocks a)) (hau_routing a)"
    and "signals.exact (host_signal_bindings (hau_blocks a)) (rg_signal_to_inputs (hau_routing a))"
    and "outputs_exact (host_signal_bindings (hau_blocks a)) (rg_output_to_signal (hau_routing a))"
    using addresses_exact_cong [of "bd_routing st" "hau_routing a"]
    by (simp_all add: signals_exact_def st(4) api_routing_def st(5))
  moreover note accepted' = host_build_accepted [OF accepted]
  moreover have "sources_exact (source_facts ab_http_bindings (ad_blocks document) (hau_blocks a))
      (source_facts ab_webhook_bindings (ad_blocks document) (hau_blocks a)) (hau_routing a)"
    using host_read_blocks_reads [OF host_document_errors_Nil(5) [OF accepted'(1)]]
    by (simp add: blocks_read_def accepted'(4,5))
  ultimately show ?thesis unfolding sources_exact_def by blast
qed

end
