(* ===== verification/Host_Example.thy ===== *)
theory Host_Example
  imports Host_Routing Document_Example
begin

text \<open>
  A document of one block for the desktop host: a poll value feeds the switch, the lamp is bound to a
  group address.
\<close>

declare duration_unit.simps [simp del]

definition sample_url :: rstring where "sample_url = ''http://x''"

definition sample_host :: host_services where
  "sample_host =
     \<lparr>hs_document = sample_services\<lparr>ds_http_inputs := True\<rparr>,
      hs_url = (\<lambda>_. Inr \<lparr>url_scheme = ''http'', url_username = [], url_password = None, url_fragment = None\<rparr>),
      hs_variable = (\<lambda>_. None), hs_order = (\<lambda>xs. xs)\<rparr>"

definition sample_poll :: http_poll where
  "sample_poll =
     \<lparr>hp_name = ''p'', hp_url = sample_url, hp_every = ''1m'', hp_timeout = ''1s'', hp_stale_after = ''1h'',
      hp_headers = [], hp_values = [\<lparr>hv_name = ''p'', hv_dpt = ''1.001'', hv_json_pointer = []\<rparr>]\<rparr>"

definition polled_block :: document_block where
  "polled_block =
     (sample_document_block ''a'' [\<lparr>kb_endpoint = ''lamp'', kb_group_address = ''1/2/4''\<rparr>] [])
       \<lparr>ab_http_bindings := [\<lparr>xb_endpoint = ''switch'', xb_source = ''p''\<rparr>]\<rparr>"

definition polled_document :: automation_document where
  "polled_document =
     \<lparr>ad_signals = [], ad_http_polls = [sample_poll], ad_webhook_inputs = [], ad_blocks = [polled_block]\<rparr>"

definition polled_config :: runtime_config where
  "polled_config = \<lparr>rc_blocks = [sample_block ''a'' []], rc_signals = [], rc_site = default_site\<rparr>"

subsection \<open>The core accepts its configuration\<close>

lemma desktop_limit_values:
  "max_endpoints_per_block desktop_limits = 128" "max_logic_source_bytes_per_block desktop_limits = 65536"
  "max_schedules_per_block desktop_limits = 32" "max_logic_blocks desktop_limits = 64"
  "max_signals desktop_limits = 256" "max_signal_bindings desktop_limits = 256"
  "max_logic_source_bytes_total desktop_limits = 1048576" "max_cascade_executions desktop_limits = 256"
  by (simp_all add: desktop_limits_def)

lemma sample_engine_desktop:
  "engine_config_validate_with_limits (env_vm sample_environment)
     \<lparr>ec_endpoints = sample_endpoints, ec_logic = sample_program\<rparr> desktop_limits = Inr ()"
proof -
  have "load_handle (constant_machine vs) PhaseLoad (lp_source sample_program) desktop_limits None = Inr ()" for vs
    by (simp add: load_handle_def constant_machine_def check_source_size_with_limits_def vm_check_def
        no_error_def no_error2_def no_error3_def handle_function_def sample_source
        sample_program_def logic_program_new_def desktop_limit_values)
  then show ?thesis
    by (simp add: engine_config_validate_ok engine_config_wf_def validate_logic_source_with_limits_def
        sample_environment_def desktop_limit_values sample_endpoints_def dpt_is_supported_def
        dpt_class_iff sample_program_def logic_program_new_def)
qed

lemma polled_config_valid:
  "runtime_config_validate_with_limits sample_environment polled_config desktop_limits = Inr ()"
proof -
  have "block_config_validate_with_limits sample_environment (sample_block ''a'' []) desktop_limits = Inr ()"
    using sample_engine_desktop
    by (simp add: block_config_validate_with_limits_def sample_block_def sample_source_length desktop_limit_values)
      (simp add: sample_endpoints_def)
  moreover have "detect_signal_cycle [sample_block ''a'' []] [] = Inr ()"
    by (simp add: detect_signal_cycle_def detect_step_def children_of_def btm_get_def)
  moreover have "check_cascades [] [sample_block ''a'' []] desktop_limits = Inr ()"
    by (simp add: check_cascades_def children_of_def btm_get_def saturating_add_word_def desktop_limit_values
        max_def word_le_nat_alt)
  moreover have "bindings_of [sample_block ''a'' []] = []" by (simp add: bindings_of_def sample_block_def)
  ultimately show ?thesis
    by (simp add: runtime_config_validate_with_limits_def polled_config_def desktop_limit_values check_block_def)
      (simp add: sample_block_def sample_source_length)
qed

subsection \<open>The build\<close>

lemma sample_durations:
  "parse_duration_seconds ''1m'' False = Some 60" "parse_duration_seconds ''1s'' False = Some 1"
  "parse_duration_seconds ''1h'' False = Some 3600"
  by (simp_all add: parse_duration_seconds_def parse_i64_digits_def parse_unsigned_def is_ascii_digit_def
      digits_value_def duration_unit.simps checked_i64_def is_i64_def i64_bounds)

lemma sample_lamp_text: "group_address_display lamp_address = ''1/2/4''"
proof -
  have "digit_char 1 = CHR ''1''" "digit_char 2 = CHR ''2''" "digit_char 4 = CHR ''4''"
    by (simp_all add: digit_char_def char_of_def bit_0 bit_Suc)
  then show ?thesis by (simp add: group_address_display_def decimal.simps)
qed

lemma sample_host_readers:
  "host_endpoint_name path ''switch'' = Inr (EndpointName ''switch'')"
  "host_endpoint_name path ''lamp'' = Inr (EndpointName ''lamp'')"
  "host_source_name path ''p'' = ([], Some ''p'')"
  "host_read_dpt path ''1.001'' = Inr dpt_bool"
  "host_validate_pointer path [] = ([], True)"
  "host_group_address_from_str ''1/2/4'' = Inr lamp_address"
  "group_address_display lamp_address = ''1/2/4''"
  using sample_dpt [of path] sample_address(2) sample_lamp_text
  by (simp_all add: host_endpoint_name_def host_source_name_def sample_texts host_read_dpt_iff
      host_validate_pointer_def desktop_addresses_agree)

definition polled_sources :: host_source_table where
  "polled_sources =
     \<lparr>hst_errors = [], hst_dpts = [''p'' \<mapsto> dpt_bool], hst_keys = [''p''], hst_names = {''p''}, hst_count = 1,
      hst_polls = [\<lparr>hpr_name = ''p'', hpr_url = sample_url, hpr_every = 60000000, hpr_timeout = 1000000,
        hpr_stale_after = 3600000000, hpr_headers = [],
        hpr_values = [\<lparr>hvr_name = ''p'', hvr_dpt = dpt_bool, hvr_json_pointer = []\<rparr>]\<rparr>],
      hst_webhooks = []\<rparr>"

lemma sample_poll_durations:
  "host_poll_durations path sample_poll = ([], Some 60000000, Some 1000000, Some 3600000000)"
  by (simp add: host_poll_durations_def sample_poll_def parse_source_duration_def parse_duration_field_def
      parse_timeout_duration_def sample_durations strip_suffix_def)

lemma polled_source_table: "host_read_sources sample_host polled_document = polled_sources"
proof -
  have url: "validate_http_url sample_host path sample_url = []" for path
    by (simp add: validate_http_url_def sample_host_def)
  have poll: "hp_name sample_poll = ''p''" "hp_url sample_poll = sample_url" "hp_headers sample_poll = []"
    "hp_values sample_poll = [\<lparr>hv_name = ''p'', hv_dpt = ''1.001'', hv_json_pointer = []\<rparr>]"
    by (simp_all add: sample_poll_def)
  have "length sample_url \<le> max_http_url_bytes" by (simp add: sample_url_def max_http_url_bytes_def)
  moreover have "hst_dpts t ''p'' = None \<Longrightarrow> hst_keys t = [] \<Longrightarrow>
      each_indexed (host_poll_value_step path) [\<lparr>hv_name = ''p'', hv_dpt = ''1.001'', hv_json_pointer = []\<rparr>]
        (t, {}, [])
      = (t\<lparr>hst_count := hst_count t + 1, hst_dpts := (hst_dpts t)(''p'' \<mapsto> dpt_bool), hst_keys := [''p'']\<rparr>,
         {''p''}, [\<lparr>hvr_name = ''p'', hvr_dpt = dpt_bool, hvr_json_pointer = []\<rparr>])" for path and t :: host_source_table
    by (simp add: each_indexed_single host_poll_value_step_def sample_host_readers host_insert_source_def
        count_source_def push_source_def)
  moreover have "ds_http_inputs (hs_document sample_host)" by (simp add: sample_host_def)
  ultimately have "host_poll_step sample_host 0 sample_poll
      \<lparr>hst_errors = [], hst_dpts = Map.empty, hst_keys = [], hst_names = {}, hst_count = 0, hst_polls = [],
       hst_webhooks = []\<rparr> = polled_sources"
    by (simp add: host_poll_step_def poll sample_host_readers url sample_poll_durations push_source_def
        polled_sources_def)
  then show ?thesis
    by (simp add: host_read_sources_def polled_document_def each_indexed_single max_external_sources_def)
qed

definition polled_table :: host_endpoint_table where
  "polled_table =
     \<lparr>het_errors = [], het_names = {EndpointName ''lamp'', EndpointName ''switch''},
      het_dpts = [EndpointName ''switch'' \<mapsto> dpt_bool, EndpointName ''lamp'' \<mapsto> dpt_bool],
      het_directions = [EndpointName ''switch'' \<mapsto> Input, EndpointName ''lamp'' \<mapsto> Output],
      het_endpoints = sample_endpoints\<rparr>"

lemma polled_block_fields [simp]:
  "ab_id polled_block = ''a''" "ab_revision polled_block = 1" "ab_enabled polled_block"
  "ab_inputs polled_block = [\<lparr>ae_name = ''switch'', ae_dpt = ''1.001''\<rparr>]"
  "ab_outputs polled_block = [\<lparr>ae_name = ''lamp'', ae_dpt = ''1.001''\<rparr>]"
  "ab_knx_bindings polled_block = [\<lparr>kb_endpoint = ''lamp'', kb_group_address = ''1/2/4''\<rparr>]"
  "ab_signal_bindings polled_block = []"
  "ab_http_bindings polled_block = [\<lparr>xb_endpoint = ''switch'', xb_source = ''p''\<rparr>]"
  "ab_webhook_bindings polled_block = []"
  "ab_source polled_block = ''function handle() end''" "ab_schedules polled_block = []"
  by (simp_all add: polled_block_def)

lemma polled_endpoint_table: "host_read_endpoints bp polled_block = polled_table"
  by (simp add: host_read_endpoints_def each_indexed_single host_endpoint_step_def polled_table_def
      sample_host_readers sample_endpoints_def)

definition polled_routing :: routing where
  "polled_routing = empty_routing
     \<lparr>rg_address_dpts := [lamp_address \<mapsto> dpt_bool],
      rg_output_to_address := [(BlockId ''a'', EndpointName ''lamp'') \<mapsto> lamp_address],
      rg_http_to_inputs := append_at ''p''
        \<lparr>bxb_block_id = BlockId ''a'', bxb_endpoint = EndpointName ''switch'', bxb_dpt = dpt_bool,
         bxb_source = ''p''\<rparr> (\<lambda>_. [])\<rparr>"

definition polled_bindings :: host_binding_state where
  "polled_bindings =
     \<lparr>hb_errors = [],
      hb_tables = \<lparr>ht_routing = polled_routing,
        ht_origins = [lamp_address \<mapsto> (BlockId ''a'', EndpointName ''lamp'')], ht_producers = Map.empty,
        ht_external_count = 1\<rparr>,
      hb_addresses = [EndpointName ''lamp'' \<mapsto> lamp_address], hb_local = {lamp_address},
      hb_signals = Map.empty, hb_externals = [EndpointName ''switch'' \<mapsto> ''p'']\<rparr>"

lemma polled_block_bindings:
  "host_read_bindings bp (BlockId ''a'') sd polled_sources polled_table polled_block
     \<lparr>ht_routing = empty_routing, ht_origins = Map.empty, ht_producers = Map.empty, ht_external_count = 0\<rparr>
   = polled_bindings"
proof -
  have table: "het_dpts polled_table (EndpointName ''lamp'') = Some dpt_bool"
    "het_dpts polled_table (EndpointName ''switch'') = Some dpt_bool"
    "het_directions polled_table (EndpointName ''lamp'') = Some Output"
    "het_directions polled_table (EndpointName ''switch'') = Some Input"
    by (simp_all add: polled_table_def)
  have known: "hst_dpts polled_sources ''p'' = Some dpt_bool"
    "list_ex (\<lambda>p. list_ex (\<lambda>v. hvr_name v = ''p'') (hpr_values p)) (hst_polls polled_sources)"
    by (simp_all add: polled_sources_def)
  have empty: "rg_address_dpts empty_routing = Map.empty" "rg_http_to_inputs empty_routing = (\<lambda>_. [])"
    "rg_output_to_address empty_routing = Map.empty" by (simp_all add: empty_routing_def)
  have knx: "each_indexed (host_knx_step bp (BlockId ''a'') polled_table) (ab_knx_bindings polled_block)
      \<lparr>hb_errors = [], hb_tables = \<lparr>ht_routing = empty_routing, ht_origins = Map.empty,
         ht_producers = Map.empty, ht_external_count = 0\<rparr>,
       hb_addresses = Map.empty, hb_local = {}, hb_signals = Map.empty, hb_externals = Map.empty\<rparr>
    = polled_bindings\<lparr>hb_externals := Map.empty, hb_tables := (hb_tables polled_bindings)
        \<lparr>ht_external_count := 0, ht_routing := empty_routing
          \<lparr>rg_address_dpts := [lamp_address \<mapsto> dpt_bool],
           rg_output_to_address := [(BlockId ''a'', EndpointName ''lamp'') \<mapsto> lamp_address]\<rparr>\<rparr>\<rparr>"
    by (simp add: each_indexed_single host_knx_step_def sample_host_readers table empty host_add_address_def
        polled_bindings_def)
  show ?thesis
    unfolding host_read_bindings_def Let_def knx
    by (simp add: each_indexed_single host_http_step_def host_external_step_def sample_host_readers table
        known set_tables_def polled_bindings_def polled_routing_def empty)
      (simp add: host_unbound_errors_def polled_table_def sample_endpoints_def)
qed

definition polled_block_runtime :: host_block_runtime where
  "polled_block_runtime =
     \<lparr>hbr_id = BlockId ''a'', hbr_revision = 1, hbr_enabled = True,
      hbr_engine_config = \<lparr>ec_endpoints = sample_endpoints, ec_logic = sample_program\<rparr>,
      hbr_endpoint_to_address = [EndpointName ''lamp'' \<mapsto> lamp_address],
      hbr_endpoint_to_signal = Map.empty, hbr_endpoint_to_external = [EndpointName ''switch'' \<mapsto> ''p''],
      hbr_endpoint_dpts = het_dpts polled_table, hbr_schedules = []\<rparr>"

lemma polled_blocks:
  "host_read_blocks sample_environment polled_document (host_read_signals []) polled_sources
   = \<lparr>hbd_errors = [], hbd_ids = {BlockId ''a''}, hbd_blocks = [polled_block_runtime],
      hbd_tables = hb_tables polled_bindings\<rparr>"
proof -
  have endpoints: "het_errors polled_table = []" "het_endpoints polled_table = sample_endpoints"
    by (simp_all add: polled_table_def)
  have bindings: "hb_errors polled_bindings = []" "hb_addresses polled_bindings = [EndpointName ''lamp'' \<mapsto> lamp_address]"
    "hb_signals polled_bindings = Map.empty" "hb_externals polled_bindings = [EndpointName ''switch'' \<mapsto> ''p'']"
    by (simp_all add: polled_bindings_def)
  have schedules: "host_block_schedules [] bp = ([], [])" for bp
    by (simp add: host_block_schedules_def each_indexed_def)
  have source: "host_source_errors bp ''function handle() end'' = []" for bp
    by (simp add: host_source_errors_def host_max_logic_source_bytes_def)
  have engine: "engine_config_validate_with_limits (env_vm sample_environment)
      \<lparr>ec_endpoints = sample_endpoints, ec_logic = logic_program_new ''function handle() end''\<rparr>
      desktop_limits = Inr ()"
    using sample_engine_desktop by (simp add: sample_program_def)
  show ?thesis
    by (simp add: host_read_blocks_def polled_document_def each_indexed_single host_block_step_def sample_texts
        host_add_block_def polled_endpoint_table polled_block_bindings endpoints bindings schedules source engine
        polled_block_runtime_def sample_program_def)
qed

lemma polled_document_accepted:
  "\<exists>a. host_build_automation sample_environment sample_host polled_document = Some (Inr a)
   \<and> hau_core_config a = polled_config \<and> hau_blocks a = [polled_block_runtime]
   \<and> hau_routing a = polled_routing"
proof -
  have signals: "host_read_signals (ad_signals polled_document) = host_read_signals []"
    "hsg_errors (host_read_signals []) = []" "hsg_signals (host_read_signals []) = []"
    by (simp_all add: polled_document_def host_read_signals_def)
  have tables: "ht_routing (hb_tables polled_bindings) = polled_routing"
    "ht_external_count (hb_tables polled_bindings) = 1" by (simp_all add: polled_bindings_def)
  have features: "feature_errors (hs_document sample_host) polled_document = []"
    by (simp add: feature_errors_def sample_host_def sample_services_def polled_document_def)
  have sizes: "block_count_errors polled_document = []"
    by (simp add: block_count_errors_def polled_document_def api_max_blocks_def)
  have unbound: "unbound_source_errors sample_host polled_sources polled_routing = []"
    by (simp add: unbound_source_errors_def sample_host_def polled_sources_def polled_routing_def
        append_at_def)
  have counts: "rg_signal_binding_count polled_routing = 0" "hst_count polled_sources = 1"
    "hst_errors polled_sources = []"
    by (simp_all add: polled_routing_def polled_sources_def empty_routing_def)
  have clean: "host_document_errors sample_host polled_document (host_read_signals []) polled_sources
      \<lparr>hbd_errors = [], hbd_ids = {BlockId ''a''}, hbd_blocks = [polled_block_runtime],
       hbd_tables = hb_tables polled_bindings\<rparr> = []"
    by (simp add: host_document_errors_def signals(2) tables features sizes unbound counts
        api_max_signal_bindings_def max_external_values_and_bindings_def)
  have core: "host_core_config polled_document [polled_block_runtime] [] = Some polled_config"
    by (simp add: host_core_config_def host_core_block_def polled_document_def polled_block_runtime_def
        polled_config_def sample_block_def sample_program_def logic_program_new_def)
  show ?thesis
    unfolding host_build_automation_def host_build_automation_with_limits_def Let_def polled_source_table
      signals(1) polled_blocks clean
    by (simp add: signals(3) core polled_config_valid tables)
qed

subsection \<open>The properties of the build, at this document\<close>

theorem desktop_endpoints_bound_once_witness:
  "\<exists>a. host_build_automation_with_limits sample_environment sample_host polled_document desktop_limits = Some (Inr a)
   \<and> hau_blocks a = [polled_block_runtime] \<and> block_as_listed polled_block polled_block_runtime
   \<and> bound_once polled_block"
proof -
  from polled_document_accepted obtain a where
    a: "host_build_automation_with_limits sample_environment sample_host polled_document desktop_limits = Some (Inr a)"
      "hau_blocks a = [polled_block_runtime]"
    unfolding host_build_automation_def by blast
  with desktop_endpoints_bound_once [OF a(1)] show ?thesis by (auto simp: polled_document_def)
qed

theorem desktop_routing_exact_witness:
  "\<exists>a. host_build_automation_with_limits sample_environment sample_host polled_document desktop_limits = Some (Inr a)
   \<and> sources.exact (source_facts ab_http_bindings [polled_block] [polled_block_runtime])
       (rg_http_to_inputs polled_routing)
   \<and> sources.exact (source_facts ab_webhook_bindings [polled_block] [polled_block_runtime])
       (rg_webhook_to_inputs polled_routing)"
proof -
  from polled_document_accepted obtain a where
    a: "host_build_automation_with_limits sample_environment sample_host polled_document desktop_limits = Some (Inr a)"
      "hau_routing a = polled_routing" "hau_blocks a = [polled_block_runtime]"
    unfolding host_build_automation_def by blast
  have "ad_blocks polled_document = [polled_block]" by (simp add: polled_document_def)
  with desktop_routing_exact [OF a(1)] a show ?thesis by auto
qed

theorem desktop_build_refines_witness:
  "\<exists>a'. build_automation sample_environment (hs_document sample_host) polled_document = Inr a'
   \<and> reordered polled_config (ar_core_config a')"
proof -
  from polled_document_accepted obtain a where
    a: "host_build_automation sample_environment sample_host polled_document = Some (Inr a)"
      "hau_core_config a = polled_config" by blast
  have "url_ok sample_url"
    by (simp add: url_ok_def starts_with_def sample_url_def utf8_width_def utf8_code_def is_whitespace_code_def)
  then have "poll_comparable sample_poll"
    by (simp add: poll_comparable_def sample_poll_def parse_timeout_duration_def strip_suffix_def
        parse_source_duration_def parse_duration_field_def sample_durations)
  then have "\<forall>poll \<in> set (ad_http_polls polled_document). poll_comparable poll"
    by (simp add: polled_document_def)
  from desktop_build_refines [OF a(1) this] a(2) show ?thesis
    by (auto simp: iterates_entries_def sample_host_def sample_services_def)
qed

end
