(* ===== verification/Host_State_Correctness.thy ===== *)
theory Host_State_Correctness
  imports Host_State Host_Example
begin

text \<open>
  The desktop host's own state: the table of commands in flight is bounded and evicts nothing, a fatal
  error is final, tokens are compared exactly, and a change to a block
  (external bindings excepted) does not overwrite another editor's.
\<close>

unbundle bit_operations_syntax

subsection \<open>Commands in flight\<close>

inductive pending_step :: "pending_writes \<Rightarrow> pending_writes \<Rightarrow> bool" where
  pending_inserted: "pending_step p (snd (pending_writes_insert request sent_at p))"
| pending_removed: "pending_step p (snd (pending_writes_remove request p))"

definition pending_ok :: "pending_writes \<Rightarrow> bool" where
  "pending_ok p \<longleftrightarrow> btm_sorted (pw_entries p) \<and> length (pw_entries p) \<le> pw_limit p"

lemma pending_step_ok:
  assumes "pending_step p q" and "pending_ok p"
  shows "pending_ok q \<and> pw_limit q = pw_limit p"
  using assms
proof cases
  case (pending_inserted request sent_at)
  show ?thesis
  proof (cases "btm_contains (pw_entries p) request")
    case True
    with pending_inserted assms(2) show ?thesis
      by (simp add: pending_writes_insert_def pending_ok_def btm_sorted_insert length_btm_insert)
  next
    case False
    with pending_inserted assms(2) show ?thesis
      using length_btm_insert_le [of request sent_at "pw_entries p"]
      by (auto simp: pending_writes_insert_def pending_ok_def btm_sorted_insert)
  qed
next
  case (pending_removed request)
  with assms(2) show ?thesis
    using length_btm_remove_le [of request "pw_entries p"]
    by (auto simp: pending_writes_remove_def pending_ok_def btm_sorted_remove)
qed

text \<open>The table never holds more commands than its limit.\<close>

theorem pending_writes_bounded:
  assumes "pending_step\<^sup>*\<^sup>* (pending_writes_new limit) p"
  shows "length (pw_entries p) \<le> limit \<and> btm_sorted (pw_entries p)"
proof -
  have "pending_ok p \<and> pw_limit p = limit"
    using assms
  proof (induction rule: rtranclp_induct)
    case base
    then show ?case by (simp add: pending_ok_def pending_writes_new_def)
  next
    case (step q r)
    then show ?case using pending_step_ok [OF step(2)] by simp
  qed
  then show ?thesis by (simp add: pending_ok_def)
qed

text \<open>A command in flight is never evicted by another one, so that its result can be attributed.\<close>

theorem pending_writes_keep:
  assumes "btm_contains (pw_entries p) request"
  shows "btm_contains (pw_entries (snd (pending_writes_insert other sent_at p))) request"
    and "other \<noteq> request \<Longrightarrow> btm_contains (pw_entries (snd (pending_writes_remove other p))) request"
  using assms
  by (auto simp: pending_writes_insert_def pending_writes_remove_def btm_contains_def btm_get_insert
      btm_get_remove)

theorem pending_writes_expired_correct:
  "case pending_writes_expired now timeout p of
     None \<Rightarrow> \<forall>(request, sent_at) \<in> set (pw_entries p). now - sent_at < timeout
   | Some request \<Rightarrow> \<exists>sent_at. (request, sent_at) \<in> set (pw_entries p) \<and> timeout \<le> now - sent_at"
  by (auto simp: pending_writes_expired_def find_None_iff find_Some_iff not_le split: option.splits)
    (metis nth_mem)

subsection \<open>Health\<close>

definition health_ok :: "host_health \<Rightarrow> bool" where
  "health_ok h \<longleftrightarrow> (hlt_fatal h \<noteq> None \<longrightarrow> \<not> hlt_ready h)"

lemma health_step_ok: "health_step h h' \<Longrightarrow> health_ok h \<Longrightarrow> health_ok h'"
  by (elim health_stepE) (auto simp: health_ok_def mark_ready_def mark_not_ready_def health_fail_def)

lemma health_step_fatal: "health_step h h' \<Longrightarrow> hlt_fatal h = Some r \<Longrightarrow> hlt_fatal h' = Some r"
  by (elim health_stepE) (auto simp: mark_ready_def mark_not_ready_def health_fail_def)

lemma health_reachable_ok: "health_step\<^sup>*\<^sup>* h h' \<Longrightarrow> health_ok h \<Longrightarrow> health_ok h'"
  by (induction rule: rtranclp_induct) (use health_step_ok in blast)+

lemma health_reachable_fatal:
  "health_step\<^sup>*\<^sup>* h h' \<Longrightarrow> hlt_fatal h = Some r \<Longrightarrow> hlt_fatal h' = Some r"
  by (induction rule: rtranclp_induct) (use health_step_fatal in blast)+

text \<open>
  The first fatal error is final: whatever is reported later, it stays the reason and the host is never
  ready again.
\<close>

theorem fatal_is_final:
  assumes start: "health_step\<^sup>*\<^sup>* (host_health_new limits) h"
    and more: "health_step\<^sup>*\<^sup>* (health_fail reason h) h'"
  shows "hlt_fatal h' = Some (case hlt_fatal h of None \<Rightarrow> reason | Some first \<Rightarrow> first) \<and> \<not> hlt_ready h'"
proof -
  have "health_ok h"
    using start by (rule health_reachable_ok) (simp add: health_ok_def host_health_new_def)
  then have "health_ok h'"
    using health_reachable_ok [OF more] health_step_ok [OF health_failed] by blast
  moreover have "hlt_fatal h' = Some (case hlt_fatal h of None \<Rightarrow> reason | Some first \<Rightarrow> first)"
    using more by (rule health_reachable_fatal) (simp add: health_fail_def split: option.splits)
  ultimately show ?thesis by (simp add: health_ok_def)
qed

subsection \<open>External inputs\<close>

lemma http_retry_delays_mono:
  "http_retry_delays ! min k 3 \<le> http_retry_delays ! min (Suc k) 3"
  "http_retry_delays ! min k 3 \<le> 300 * 1000000"
proof -
  consider "k = 0" | "k = Suc 0" | "k = Suc (Suc 0)" | "3 \<le> k" by arith
  then have "http_retry_delays ! min k 3 \<le> http_retry_delays ! min (Suc k) 3
      \<and> http_retry_delays ! min k 3 \<le> 300 * 1000000"
    by cases (simp_all add: http_retry_delays_def numeral_3_eq_3)
  then show "http_retry_delays ! min k 3 \<le> http_retry_delays ! min (Suc k) 3"
    "http_retry_delays ! min k 3 \<le> 300 * 1000000" by simp_all
qed

lemma fst_failure_delay:
  "fst (failure_delay n interval) = min (http_retry_delays ! min (unat n) 3) interval"
  by (simp add: failure_delay_def http_retry_delays_def numeral_3_eq_3)

lemma unat_next_retry: "unat (snd (failure_delay n interval)) = min (Suc (unat n)) 4"
proof -
  have "unat (min (saturating_add_word n 1) 4) = min (unat (saturating_add_word n 1)) (unat (4 :: u8))"
    by (simp add: min_def word_le_nat_alt)
  then show ?thesis
    by (simp add: failure_delay_def http_retry_delays_def unat_saturating_add_word)
qed

text \<open>
  The waiting time after failures never exceeds the normal interval or five minutes, and does not get
  shorter from one failure to the next.
\<close>

theorem failure_delay_bounds:
  assumes "failure_delay n interval = (d, n')"
  shows "d \<le> interval \<and> d \<le> 300 * 1000000 \<and> d \<le> fst (failure_delay n' interval)"
proof -
  have d: "d = min (http_retry_delays ! min (unat n) 3) interval"
    using fst_failure_delay [of n interval] assms by simp
  have "min (unat n') 3 = min (Suc (unat n)) 3"
    using unat_next_retry [of n interval] assms by (simp add: min_def)
  then show ?thesis
    using http_retry_delays_mono [of "unat n"] by (auto simp: d fst_failure_delay min_le_iff_disj)
qed

subsection \<open>Tokens\<close>

lemma or_0_nat: "(a :: nat) OR b = 0 \<longleftrightarrow> a = 0 \<and> b = 0"
  by (auto simp: bit_eq_iff bit_or_iff)

lemma xor_0_nat: "(a :: nat) XOR b = 0 \<longleftrightarrow> a = b"
  by (auto simp: bit_eq_iff bit_xor_iff)

lemma differences_0:
  "foldl (\<lambda>difference i. difference OR f i) d xs = (0 :: nat) \<longleftrightarrow> d = 0 \<and> (\<forall>i \<in> set xs. f i = 0)"
  by (induction xs arbitrary: d) (auto simp: or_0_nat)

text \<open>The comparison in constant time is equality, so a webhook accepts its token and no other one.\<close>

theorem constant_time_equal_iff: "constant_time_equal l r \<longleftrightarrow> l = r"
proof -
  have "constant_time_equal l r \<longleftrightarrow> length l = length r
      \<and> (\<forall>i < max (length l) (length r). byte_or_0 l i = byte_or_0 r i)"
    by (simp add: constant_time_equal_def differences_0 xor_0_nat) auto
  also have "\<dots> \<longleftrightarrow> l = r"
    by (auto simp: byte_or_0_def list_eq_iff_nth_eq)
  finally show ?thesis .
qed

lemma strip_prefix_iff: "strip_prefix s start = Some t \<longleftrightarrow> s = start @ t"
  by (auto simp: strip_prefix_def starts_with_def) (metis append_take_drop_id)+

theorem webhook_needs_its_token:
  "webhook_authorized source authorization \<longleftrightarrow>
     (case wir_bearer_token source of
        None \<Rightarrow> True | Some token \<Rightarrow> authorization = Some (''Bearer '' @ token))"
proof -
  have None_iff: "strip_prefix s start = None \<longleftrightarrow> (\<nexists>t. s = start @ t)" for s start
    using strip_prefix_iff [of s start] by (metis not_Some_eq)
  show ?thesis
    by (cases authorization)
      (auto simp: webhook_authorized_def constant_time_equal_iff strip_prefix_iff None_iff
        simp del: append.simps split: option.splits)
qed

subsection \<open>Saving a document\<close>

lemma those_Some_iff: "those xs = Some ys \<longleftrightarrow> xs = map Some ys"
  by (induction xs arbitrary: ys) (auto split: option.splits)


lemma merged_blocks:
  "merge_block_revisions current candidate = Some d \<longleftrightarrow>
     (\<exists>bs. map (merge_block current (changed_signals current candidate)) (ad_blocks candidate) = map Some bs
       \<and> d = candidate\<lparr>ad_blocks := bs\<rparr>)"
  by (auto simp: merge_block_revisions_def those_Some_iff)

lemma merge_block_only_revision:
  "merge_block current changed b = Some m \<Longrightarrow> m = b\<lparr>ab_revision := ab_revision m\<rparr>"
  by (auto simp: merge_block_def split: option.splits if_splits)

lemma merge_block_revision:
  assumes "merge_block current changed b = Some m"
  shows "1 \<le> ab_revision m"
    and "find (\<lambda>p. ab_id p = ab_id b) (ad_blocks current) = Some p \<Longrightarrow> ab_revision p \<le> ab_revision m"
proof -
  have grows: "max r 1 \<le> saturating_add_word (max r 1) 1" for r :: u64
    using unat_bound [of "max r 1"] by (simp add: word_le_nat_alt unat_saturating_add_word)
  show "1 \<le> ab_revision m"
    using assms order_trans [OF max.cobounded2 grows]
    by (auto simp: merge_block_def split: option.splits if_splits)
  show "ab_revision p \<le> ab_revision m" if "find (\<lambda>p. ab_id p = ab_id b) (ad_blocks current) = Some p"
    using assms that order_trans [OF max.cobounded1 grows]
    by (auto simp: merge_block_def split: if_splits)
qed

text \<open>
  A saved document is the request but for the revisions of its blocks, and no block's revision goes
  back.
\<close>

theorem saved_document:
  assumes "save_automation env hs current request = Some (SaveSaved d)"
  shows "d = request\<lparr>ad_blocks := ad_blocks d\<rparr>
    \<and> list_all2 (\<lambda>b m. m = b\<lparr>ab_revision := ab_revision m\<rparr> \<and> 1 \<le> ab_revision m
        \<and> (\<forall>p. find (\<lambda>p. ab_id p = ab_id b) (ad_blocks current) = Some p \<longrightarrow> ab_revision p \<le> ab_revision m))
      (ad_blocks request) (ad_blocks d)"
proof -
  obtain bs where d: "d = request\<lparr>ad_blocks := bs\<rparr>"
    and bs: "map (merge_block current (changed_signals current request)) (ad_blocks request) = map Some bs"
    using assms
    by (auto simp: save_automation_def merged_blocks split: option.split_asm sum.split_asm)
      (metis sum.exhaust)
  have "list_all2 (\<lambda>b m. merge_block current (changed_signals current request) b = Some m) (ad_blocks request) bs"
    using bs by (simp add: list_all2_conv_all_nth list_eq_iff_nth_eq)
  then show ?thesis
    unfolding d
    by (auto elim!: list_all2_mono dest: merge_block_only_revision merge_block_revision)
qed









text \<open>
  The bindings to polls and webhooks are not compared: a request that only rebinds them keeps the revision
  and overwrites another editor's.
\<close>

theorem external_bindings_unguarded:
  "merge_block current changed (b\<lparr>ab_http_bindings := hs, ab_webhook_bindings := ws\<rparr>)
     = map_option (\<lambda>m. m\<lparr>ab_http_bindings := hs, ab_webhook_bindings := ws\<rparr>) (merge_block current changed b)"
  by (simp add: merge_block_def document_block_changed_def split: option.split)

end
