(* ===== verification/Spec2Isabelle.thy ===== *)
theory Spec2Isabelle
  imports Schedule_Correctness Abi_Document Api_Example Host_State_Correctness
begin

text \<open>
  A model of the core of LogikSmith (\<open>src/crates/logiksmith-core\<close>), which runs small Lua programs,
  the logic blocks of a building automation, on KNX group values, timers and schedules; of the C
  interface through which an embedded host drives it (\<open>src/crates/logiksmith-embedded-abi\<close>); and of
  the automation document from which a host configures it, with the operations on both
  (\<open>src/crates/logiksmith-runtime-api\<close>) and the desktop host's own build of it
  (\<open>src/crates/logiksmith-desktop\<close>).

  \<^bold>\<open>The program.\<close>  A \<open>Runtime\<close> owns logic blocks and signals.  A block owns an \<open>Engine\<close>: typed inputs,
  transient state, pending timers and one Lua program.  A host hands events to the runtime (an
  input, a due timer, a schedule occurrence); the engine calls the Lua handler with copies of its
  data, converts and validates the returned tables into a transition, and commits it as a whole or
  not at all.  Outputs bound to signals trigger the blocks that consume them, depth first, in one
  cascade whose executions are numbered and whose effects are rolled back when a total is exceeded.

  \<^bold>\<open>Theories.\<close>
    \<^item> \<open>Prelude\<close>, \<open>Btree_Map\<close>: saturating and bounded integers, results as sums, loops with early
      exit, and the ordered maps (\<open>BTreeMap\<close>) behind a locale of their laws.
    \<^item> \<open>F64\<close>, \<open>Rust_Str\<close>, \<open>Values\<close>, \<open>Identifiers\<close>: binary64 rounding on rationals, byte strings,
      \<open>values.rs\<close> and \<open>identifiers.rs\<close>.
    \<^item> \<open>Runtime_Limits\<close>, \<open>Transient_State\<close>, \<open>Logic_Errors\<close>, \<open>Logic_Programs\<close>: \<open>limits.rs\<close>, \<open>state.rs\<close>,
      \<open>support.rs\<close>, \<open>lua_errors.rs\<close>, \<open>program.rs\<close>, \<open>engine_config.rs\<close>.
    \<^item> \<open>Civil_Days\<close>, \<open>Time_Context\<close>, \<open>Schedule_Rules\<close>: the calendar of \<open>noaa.rs\<close>, \<open>schedule_rules.rs\<close>
      and \<open>schedule_astronomy.rs\<close>.
    \<^item> \<open>Lua_Conversion\<close>, \<open>Handler_Results\<close>, \<open>Lua_Execution\<close>: \<open>lua_conversion.rs\<close>, \<open>lua_sandbox.rs\<close> and
      \<open>lua_execution.rs\<close> around the Lua machine.
    \<^item> \<open>Engine\<close>, \<open>Engine_Invariants\<close>, \<open>Engine_Correctness\<close>, \<open>Engine_Simulation\<close>: \<open>engine.rs\<close>,
      \<open>engine_input_updates.rs\<close> and \<open>engine_simulation.rs\<close>, the invariant of an engine, its
      operations on every branch, and that simulation predicts the live engine (for deterministic
      handlers, without a clock).
    \<^item> \<open>Block_Config\<close>, \<open>Signal_Graph\<close>, \<open>Config_Correctness\<close>: \<open>blocks.rs\<close>: the validation of a
      configuration with the search for signal cycles and the count of cascades, against their
      graph-theoretic specifications.  \<open>Config_Order\<close>: the order in which the bindings of a block are
      listed does not decide whether a configuration is valid.
    \<^item> \<open>Runtime_Model\<close>, \<open>Runtime_Schedules\<close>, \<open>Runtime_Signals\<close>, \<open>Runtime_Activation\<close>: \<open>runtime_model.rs\<close>,
      \<open>runtime_impl.rs\<close>, \<open>runtime_signals.rs\<close>, \<open>runtime_input_updates.rs\<close>, \<open>runtime_activation.rs\<close>,
      \<open>runtime_simulation.rs\<close> and \<open>runtime_time_helpers.rs\<close>.
    \<^item> \<open>Schedule_Polls\<close>, \<open>Schedule_Correctness\<close>: the polls of the schedules: below a horizon at the end of
      the 64-bit range they return, deliver every due occurrence and none twice; at its last instant a
      poll of an interval schedule does not return; \<open>Schedule_Example\<close>: a concrete schedule.
    \<^item> \<open>Runtime_Invariants\<close>, \<open>Runtime_Operations\<close>, \<open>Cascade_Correctness\<close>, \<open>Runtime_Lifecycle\<close>: the
      invariant of the runtime and what every operation does to it; \<open>Block_Health\<close>,
      \<open>Runtime_Correctness\<close>: the properties of whole events and histories; \<open>Runtime_Example\<close>: a
      concrete cascade of two blocks.
    \<^item> \<open>Abi_Values\<close>, \<open>Abi_Operations\<close>, \<open>Abi_Management\<close>: the fixed records of the C interface, its
      event, simulation, activation and projection functions, with their rollbacks.  A nullable
      pointer is an option, an array a slice of readable memory with its length, an output slot a
      component of the result.  \<open>Abi_Correctness\<close>: handles refine runtimes, inputs are transactions,
      values cross the interface unchanged.  \<open>Abi_Document\<close>: handles made from a document.
    \<^item> \<open>Group_Address\<close>, \<open>Document_Fields\<close>, \<open>Document_Build\<close>: \<open>document.rs\<close> and \<open>document_build.rs\<close>: the
      readers of the fields of a document and the build, a fold over signals, sources and blocks that
      collects errors and routing tables.  \<open>Field_Correctness\<close>: durations and schedules;
      \<open>Document_Correctness\<close>: the routing tables are exact and the result runs; \<open>Document_Example\<close>: a
      document of two blocks.
    \<^item> \<open>Api_Messages\<close>, \<open>Api_Operations\<close>: \<open>operations.rs\<close> and \<open>revisions.rs\<close>: the messages of a host, the
      projections it receives, and the runtime beside its document under guarding revisions.
      \<open>Api_Correctness\<close>: document and runtime stay in step, activation is atomic and its revisions
      are spent; all of this for hosts that leave \<open>runtime_mut\<close> alone, through which document and runtime
      diverge; \<open>Api_Example\<close>: an activation of the example document.
    \<^item> \<open>Host_Fields\<close>, \<open>Host_Build\<close>: \<open>configuration_fields.rs\<close> and \<open>automation_builder.rs\<close> of the desktop
      host, a second implementation of the readers and of the build.  \<open>Host_Correctness\<close>: its readers
      accept the same texts as those of the runtime API; \<open>Host_Refinement\<close>: its build refines the other
      one, loop by loop and for any iteration order of its hash maps; \<open>Host_Routing\<close>: one binding for
      every endpoint, and an exact table for each kind of external sources; \<open>Host_Example\<close>: a document with an HTTP poll.
    \<^item> \<open>Host_State\<close>: what only the host keeps, from \<open>host_limits.rs\<close>, \<open>external.rs\<close> and
      \<open>web_automation.rs\<close>.  \<open>Host_State_Correctness\<close>: the table of commands in flight is bounded, a fatal
      error is final, only a webhook's token opens it, and saving a document loses no other editor's change
      to a block (its external bindings and the last 64-bit revision excepted).

  \<^bold>\<open>State.\<close>  Structs are records with the source's fields, enums datatypes with its constructors.
  \<open>u64\<close> and \<open>u32\<close> are words, with the saturating operations of the code written out; \<open>i64\<close> is \<open>int\<close>
  with the saturations written out; \<open>usize\<close> is \<open>nat\<close>.  \<open>&mut self\<close> methods return the new state
  beside their result.  Errors are values of a sum type; a panic (\<open>expect\<close>, \<open>unwrap\<close>) is an error
  constructor of its own, which the theorems show unreachable.

  \<^bold>\<open>Parameters.\<close>  The Lua machine (mlua), the time-zone database (jiff) and the trigonometry of the
  solar model are fields of an \<open>environment\<close> that every theorem quantifies over.  The TOML library, the
  Cargo features and the iteration order of hash maps are fields of \<open>document_services\<close>; the parser of
  URLs and the environment of the process are fields of \<open>host_services\<close>.

  \<^bold>\<open>Fuel.\<close>  \<open>propagate_from_execution\<close> and \<open>cascade_size\<close> recurse along the signal graph.  The first has
  one more unit of fuel than the cascade limit, enough because each nested call has one execution
  more and none starts at the limit; the second one more than there are blocks, enough on an
  acyclic graph.  Both are proved never to run out.  The coalescing loop of a schedule poll is a
  partial function whose value \<open>None\<close> is not returning.

  \<^bold>\<open>Not modelled.\<close>  The texts of core errors, which stand for themselves in the messages of field
  errors; the metamethods that run inside Lua; the serialisation derived by serde; and of the crate
  \<open>logiksmith-desktop\<close> everything else: HTTP, web sockets, files and diagnostics.
\<close>

end
